(* ===== verification/Picloud_Prelude.thy ===== *)
theory Picloud_Prelude
  imports Main "HOL-Library.Word" "HOL-Library.Sublist"
begin

text \<open>
  Shared vocabulary of the development: the machine types the Rust sources use, the string
  operations of the Rust standard library the components call (\<open>str::trim\<close>, \<open>BufRead::lines\<close>,
  \<open>str::split\<close>, decimal printing and parsing), and association lists ordered by key, which stand
  for \<open>BTreeMap\<close>. Rust strings are byte sequences, here \<open>string\<close>; white space is the ASCII white
  space of \<open>char::is_whitespace\<close>.
\<close>

named_theorems ordmap_simps \<open>lookup laws of ordered association lists\<close>
named_theorems str_simps \<open>laws of the string operations\<close>

type_synonym u64 = "64 word"
type_synonym u32 = "32 word"
type_synonym u8 = "8 word"
type_synonym bytes = "8 word list"
type_synonym uuid = "128 word"

abbreviation newline :: char where "newline \<equiv> CHR 0x0A"
abbreviation carriage :: char where "carriage \<equiv> CHR 0x0D"
abbreviation slash :: char where "slash \<equiv> CHR ''/''"
abbreviation dquote :: char where "dquote \<equiv> CHR 0x22"

section \<open>Results\<close>

text \<open>A Rust \<open>Result\<close> is a sum; \<open>and_then\<close> is its monadic bind (the \<open>?\<close> operator).\<close>

definition and_then :: "'e + 'a \<Rightarrow> ('a \<Rightarrow> 'e + 'b) \<Rightarrow> 'e + 'b" where
  "and_then r f = (case r of Inl e \<Rightarrow> Inl e | Inr a \<Rightarrow> f a)"

lemma and_then_simps [simp]:
  "and_then (Inl e) f = Inl e"
  "and_then (Inr a) f = f a"
  by (simp_all add: and_then_def)

lemma and_then_Inr_iff:
  "and_then r f = Inr b \<longleftrightarrow> (\<exists>a. r = Inr a \<and> f a = Inr b)"
  by (cases r) auto

section \<open>Strings\<close>

definition is_space :: "char \<Rightarrow> bool" where
  "is_space c \<longleftrightarrow> c \<in> {CHR '' '', CHR 0x09, CHR 0x0A, CHR 0x0B, CHR 0x0C, CHR 0x0D}"

definition trim :: "string \<Rightarrow> string" where
  "trim s = rev (dropWhile is_space (rev (dropWhile is_space s)))"

definition starts_with :: "string \<Rightarrow> string \<Rightarrow> bool" where
  "starts_with s p \<longleftrightarrow> take (length p) s = p"

definition ends_with :: "string \<Rightarrow> string \<Rightarrow> bool" where
  "ends_with s p \<longleftrightarrow> starts_with (rev s) (rev p)"

definition strip_prefix :: "string \<Rightarrow> string \<Rightarrow> string option" where
  "strip_prefix p s = (if starts_with s p then Some (drop (length p) s) else None)"

text \<open>\<open>s.split(c)\<close>: the pieces between the occurrences of a character; never empty.\<close>

fun split_on :: "char \<Rightarrow> string \<Rightarrow> string list" where
  "split_on c [] = [[]]"
| "split_on c (x # xs) =
     (if x = c then [] # split_on c xs
      else (case split_on c xs of [] \<Rightarrow> [[x]] | p # ps \<Rightarrow> (x # p) # ps))"

text \<open>\<open>BufRead::lines\<close>: lines end at a newline, a carriage return before it is dropped, and a
  last line without newline is delivered as it is.\<close>

definition strip_cr :: "string \<Rightarrow> string" where
  "strip_cr l = (if l \<noteq> [] \<and> last l = carriage then butlast l else l)"

fun lines_from :: "string \<Rightarrow> string \<Rightarrow> string list" where
  "lines_from acc [] = (if acc = [] then [] else [rev acc])"
| "lines_from acc (c # cs) =
     (if c = newline then strip_cr (rev acc) # lines_from [] cs else lines_from (c # acc) cs)"

definition read_lines :: "string \<Rightarrow> string list" where
  "read_lines s = lines_from [] s"

definition digit_char :: "nat \<Rightarrow> char" where
  "digit_char d = char_of (48 + d)"

text \<open>\<open>usize::to_string\<close>.\<close>

fun show_nat :: "nat \<Rightarrow> string" where
  "show_nat n = (if n < 10 then [digit_char n] else show_nat (n div 10) @ [digit_char (n mod 10)])"

declare show_nat.simps [simp del]

definition is_digit :: "char \<Rightarrow> bool" where
  "is_digit c \<longleftrightarrow> 48 \<le> (of_char c :: nat) \<and> (of_char c :: nat) \<le> 57"

definition digit_val :: "char \<Rightarrow> nat" where
  "digit_val c = of_char c - 48"

definition digits_val :: "string \<Rightarrow> nat" where
  "digits_val s = foldl (\<lambda>n c. 10 * n + digit_val c) 0 s"

text \<open>\<open>str::parse::<usize>\<close> on a 64-bit target: an optional plus sign, at least one digit, and
  no overflow.\<close>

definition parse_usize :: "string \<Rightarrow> nat option" where
  "parse_usize s =
     (let d = (case s of c # cs \<Rightarrow> (if c = CHR ''+'' then cs else s) | [] \<Rightarrow> [])
      in if d \<noteq> [] \<and> list_all is_digit d \<and> digits_val d < 2 ^ 64
         then Some (digits_val d) else None)"

lemma of_char_digit: "d < 10 \<Longrightarrow> (of_char (digit_char d) :: nat) = 48 + d"
  by (simp add: digit_char_def)

lemma is_digit_digit_char [simp]: "d < 10 \<Longrightarrow> is_digit (digit_char d)"
  by (simp add: is_digit_def of_char_digit)

lemma digit_val_digit_char [simp]: "d < 10 \<Longrightarrow> digit_val (digit_char d) = d"
  by (simp add: digit_val_def of_char_digit)

lemma digits_val_snoc: "digits_val (s @ [c]) = 10 * digits_val s + digit_val c"
  by (simp add: digits_val_def)

lemma show_nat_digits: "list_all is_digit (show_nat n)"
  by (induction n rule: show_nat.induct) (subst show_nat.simps, auto)

lemma show_nat_nonempty [simp]: "show_nat n \<noteq> []"
  by (subst show_nat.simps) simp

lemma digits_val_show_nat [simp]: "digits_val (show_nat n) = n"
proof (induction n rule: show_nat.induct)
  case (1 n)
  show ?case
  proof (cases "n < 10")
    case True
    then show ?thesis by (subst show_nat.simps) (simp add: digits_val_def)
  next
    case False
    with 1 have "digits_val (show_nat (n div 10)) = n div 10" by simp
    with False show ?thesis
      by (subst show_nat.simps) (simp add: digits_val_snoc)
  qed
qed

lemma is_digit_not_special:
  assumes "is_digit c"
  shows "c \<noteq> CHR ''+''" "\<not> is_space c" "c \<noteq> newline" "c \<noteq> CHR ''/''" "c \<noteq> CHR ''-''"
  using assms by (auto simp: is_digit_def is_space_def)

lemma parse_show_usize [str_simps]: "n < 2 ^ 64 \<Longrightarrow> parse_usize (show_nat n) = Some n"
proof -
  assume n: "n < 2 ^ 64"
  obtain c cs where s: "show_nat n = c # cs"
    using show_nat_nonempty by (cases "show_nat n") auto
  have "is_digit c" using show_nat_digits [of n] s by simp
  then have "c \<noteq> CHR ''+''" by (rule is_digit_not_special)
  then show ?thesis
    using n show_nat_digits [of n] digits_val_show_nat [of n]
    by (simp add: parse_usize_def s)
qed

lemma dropWhile_none: "list_all (\<lambda>c. \<not> P c) s \<Longrightarrow> dropWhile P s = s"
  by (cases s) auto

lemma trim_no_space: "list_all (\<lambda>c. \<not> is_space c) s \<Longrightarrow> trim s = s"
  by (simp add: trim_def dropWhile_none list_all_iff)

lemma trim_show_nat [simp]: "trim (show_nat n) = show_nat n"
  using show_nat_digits [of n]
  by (intro trim_no_space) (auto simp: list_all_iff dest: is_digit_not_special)

text \<open>A string that is its own trimming has no white space at either end.\<close>

lemma trim_fixed_last:
  assumes "trim s = s" "s \<noteq> []"
  shows "\<not> is_space (last s)"
proof
  assume sp: "is_space (last s)"
  let ?t = "dropWhile is_space s"
  have "?t \<noteq> []"
  proof
    assume t: "?t = []"
    have "trim s = []" unfolding trim_def t by simp
    with assms show False by simp
  qed
  moreover have "suffix ?t s" by (rule suffix_dropWhile)
  ultimately have "last ?t = last s" by (metis last_appendR suffix_def)
  with \<open>?t \<noteq> []\<close> sp obtain u where t: "rev ?t = last s # u"
    by (cases "rev ?t") (auto simp: rev_eq_Cons_iff)
  have "length (trim s) = length (dropWhile is_space (rev ?t))" by (simp add: trim_def)
  also have "\<dots> < length (rev ?t)" using sp by (simp add: t less_Suc_eq_le length_dropWhile_le)
  also have "\<dots> \<le> length s" by (simp add: length_dropWhile_le)
  finally show False using assms(1) by simp
qed

subsection \<open>Lines\<close>

lemma lines_from_prefix:
  "newline \<notin> set l \<Longrightarrow>
   lines_from acc (l @ newline # rest) = strip_cr (rev acc @ l) # lines_from [] rest"
  by (induction l arbitrary: acc) auto

lemma read_lines_Nil [simp]: "read_lines [] = []"
  by (simp add: read_lines_def)

lemma read_lines_line [str_simps]:
  "newline \<notin> set l \<Longrightarrow> read_lines (l @ newline # rest) = strip_cr l # read_lines rest"
  using lines_from_prefix [of l "[]" rest] by (simp add: read_lines_def)

lemma strip_cr_id: "(l \<noteq> [] \<Longrightarrow> last l \<noteq> carriage) \<Longrightarrow> strip_cr l = l"
  by (auto simp: strip_cr_def)

text \<open>A file written with \<open>writeln!\<close>: each line followed by a newline.\<close>

definition unlines :: "string list \<Rightarrow> string" where
  "unlines ls = concat (map (\<lambda>l. l @ [newline]) ls)"

lemma unlines_simps [simp]:
  "unlines [] = []"
  "unlines (l # ls) = l @ newline # unlines ls"
  "unlines (ls @ ms) = unlines ls @ unlines ms"
  by (simp_all add: unlines_def)

lemma read_lines_unlines [str_simps]:
  "list_all (\<lambda>l. newline \<notin> set l) ls \<Longrightarrow> read_lines (unlines ls) = map strip_cr ls"
  by (induction ls) (auto simp: read_lines_line)

subsection \<open>Prefixes and splitting\<close>

lemma starts_with_append [simp]: "starts_with (p @ s) p"
  by (simp add: starts_with_def)

lemma starts_with_iff: "starts_with s p \<longleftrightarrow> (\<exists>t. s = p @ t)"
  by (metis append_take_drop_id starts_with_append starts_with_def)

lemma strip_prefix_append [simp]: "strip_prefix p (p @ s) = Some s"
  by (simp add: strip_prefix_def)

lemma split_on_nonempty [simp]: "split_on c s \<noteq> []"
  by (induction s) (auto split: list.splits)

lemma split_on_none: "c \<notin> set s \<Longrightarrow> split_on c s = [s]"
  by (induction s) auto

lemma split_on_app: "c \<notin> set s \<Longrightarrow> split_on c (s @ c # t) = s # split_on c t"
  by (induction s) auto

lemma split_on_append_sep: "split_on c (s @ c # t) = split_on c s @ split_on c t"
proof (induction s)
  case (Cons x xs)
  then show ?case by (cases "split_on c xs") auto
qed simp

lemma last_split_on: "c \<notin> set t \<Longrightarrow> last (split_on c (s @ c # t)) = t"
  by (simp add: split_on_append_sep split_on_none)

text \<open>\<open>str::find\<close> with a string: the text before and after its first occurrence.\<close>

fun find_sub :: "string \<Rightarrow> string \<Rightarrow> (string \<times> string) option" where
  "find_sub marker [] = (if marker = [] then Some ([], []) else None)"
| "find_sub marker (c # cs) =
     (if starts_with (c # cs) marker then Some ([], drop (length marker) (c # cs))
      else map_option (\<lambda>(a, b). (c # a, b)) (find_sub marker cs))"

text \<open>\<open>str::split_whitespace\<close> and \<open>join\<close>.\<close>

fun split_by :: "(char \<Rightarrow> bool) \<Rightarrow> string \<Rightarrow> string list" where
  "split_by P [] = [[]]"
| "split_by P (c # s) =
     (if P c then [] # split_by P s
      else case split_by P s of [] \<Rightarrow> [[c]] | w # ws \<Rightarrow> (c # w) # ws)"

definition split_whitespace :: "string \<Rightarrow> string list" where
  "split_whitespace s = filter (\<lambda>w. w \<noteq> []) (split_by is_space s)"

fun join :: "string \<Rightarrow> string list \<Rightarrow> string" where
  "join sep [] = []"
| "join sep [w] = w"
| "join sep (w # ws) = w @ sep @ join sep ws"

text \<open>\<open>splitn(2, c)\<close>, when it gives two parts.\<close>

definition split_once :: "char \<Rightarrow> string \<Rightarrow> (string \<times> string) option" where
  "split_once c s = (if c \<in> set s then Some (takeWhile (\<lambda>x. x \<noteq> c) s, tl (dropWhile (\<lambda>x. x \<noteq> c) s)) else None)"

lemma split_once_first: "c \<notin> set a \<Longrightarrow> split_once c (a @ c # b) = Some (a, b)"
proof -
  assume c: "c \<notin> set a"
  have "takeWhile (\<lambda>x. x \<noteq> c) (a @ c # b) = a @ takeWhile (\<lambda>x. x \<noteq> c) (c # b)"
    "dropWhile (\<lambda>x. x \<noteq> c) (a @ c # b) = dropWhile (\<lambda>x. x \<noteq> c) (c # b)"
    using c by (induction a) auto
  then show ?thesis by (simp add: split_once_def)
qed

text \<open>\<open>str::as_bytes\<close>.\<close>

definition byte_str :: "string \<Rightarrow> bytes" where
  "byte_str s = map of_char s"

section \<open>Ordered association lists (\<open>BTreeMap\<close>)\<close>

fun om_insert :: "'k::linorder \<Rightarrow> 'v \<Rightarrow> ('k \<times> 'v) list \<Rightarrow> ('k \<times> 'v) list" where
  "om_insert k v [] = [(k, v)]"
| "om_insert k v ((a, b) # m) =
     (if k < a then (k, v) # (a, b) # m
      else if k = a then (k, v) # m
      else (a, b) # om_insert k v m)"

definition om_remove :: "'k \<Rightarrow> ('k \<times> 'v) list \<Rightarrow> ('k \<times> 'v) list" where
  "om_remove k m = filter (\<lambda>p. fst p \<noteq> k) m"

definition om_ok :: "('k::linorder \<times> 'v) list \<Rightarrow> bool" where
  "om_ok m \<longleftrightarrow> sorted_wrt (<) (map fst m)"

lemma om_ok_Nil [simp]: "om_ok []"
  by (simp add: om_ok_def)

lemma om_ok_Cons: "om_ok ((a, b) # m) \<longleftrightarrow> (\<forall>k \<in> fst ` set m. a < k) \<and> om_ok m"
  by (auto simp: om_ok_def)

lemma om_ok_distinct: "om_ok m \<Longrightarrow> distinct (map fst m)"
  by (simp add: om_ok_def strict_sorted_iff)

lemma fst_om_insert: "fst ` set (om_insert k v m) = insert k (fst ` set m)"
  by (induction m) (force split: if_splits)+

lemma om_ok_insert [simp]: "om_ok m \<Longrightarrow> om_ok (om_insert k v m)"
proof (induction m)
  case (Cons p m)
  obtain a b where p: "p = (a, b)" by (cases p)
  have "\<forall>x \<in> fst ` set (om_insert k v m). a < x" if "a < k"
    using that Cons.prems by (auto simp: fst_om_insert om_ok_Cons p)
  moreover have "\<forall>x \<in> fst ` set m. k < x" if "k \<le> a"
    using that Cons.prems by (auto simp: om_ok_Cons p)
  ultimately show ?case using Cons by (auto simp: om_ok_Cons p)
qed (simp add: om_ok_Cons)

lemma map_of_om_insert [ordmap_simps]: "map_of (om_insert k v m) = (map_of m)(k \<mapsto> v)"
  by (induction m) auto

lemma om_ok_filter [simp]: "om_ok m \<Longrightarrow> om_ok (filter P m)"
  by (induction m) (auto simp: om_ok_Cons)

lemma om_ok_remove [simp]: "om_ok m \<Longrightarrow> om_ok (om_remove k m)"
  by (simp add: om_remove_def)

lemma map_of_filter_key:
  "map_of (filter (\<lambda>p. P (fst p)) m) = (\<lambda>k. if P k then map_of m k else None)"
  by (induction m) auto

lemma map_of_om_remove [ordmap_simps]: "map_of (om_remove k m) = (map_of m)(k := None)"
  by (auto simp: om_remove_def map_of_filter_key [where P = "\<lambda>x. x \<noteq> k"])

section \<open>Unordered maps (\<open>HashMap\<close>)\<close>

text \<open>Association lists with one entry per key; nothing depends on their order but the order in
  which a loop over the map visits the entries.\<close>

definition hm_insert :: "'k \<Rightarrow> 'v \<Rightarrow> ('k \<times> 'v) list \<Rightarrow> ('k \<times> 'v) list" where
  "hm_insert k v m = (k, v) # filter (\<lambda>p. fst p \<noteq> k) m"

definition hm_remove :: "'k \<Rightarrow> ('k \<times> 'v) list \<Rightarrow> ('k \<times> 'v) list" where
  "hm_remove k m = filter (\<lambda>p. fst p \<noteq> k) m"

lemma map_of_hm_insert [simp]: "map_of (hm_insert k v m) = (map_of m)(k \<mapsto> v)"
  by (auto simp: hm_insert_def map_of_filter_key [where P = "\<lambda>x. x \<noteq> k"])

lemma map_of_hm_remove [simp]: "map_of (hm_remove k m) = (map_of m)(k := None)"
  by (auto simp: hm_remove_def map_of_filter_key [where P = "\<lambda>x. x \<noteq> k"])

end
