(* ===== verification/Domain_Types.thy ===== *)
theory Domain_Types
  imports Picloud_Prelude
begin

text \<open>
  The shared domain crate \<open>crates/picloud-domain\<close>: the error type (\<open>error.rs\<close>), the IRI scheme
  (\<open>iri.rs\<close>), the event envelope (\<open>events.rs\<close>) and the storage data types (\<open>storage.rs\<close>).
  Time stamps (\<open>chrono::DateTime<Utc>\<close>) are nanoseconds since the epoch, as integers. A JSON
  payload (\<open>serde_json::Value\<close>) is a type parameter: no operation modelled here looks inside it
  except through functions passed as arguments. IRIs are strings, as in the newtype.
\<close>

section \<open>Errors (\<open>error.rs\<close>)\<close>

datatype (plugins only: code) picloud_error =
    ResourceNotFound string
  | ResourceAlreadyExists string
  | ResourceValidationFailed string
  | EventSchemaNotFound string
  | EventAppendFailed uuid string
  | Unauthenticated
  | Unauthorized string string
  | PasskeyChallengeFailed string
  | VolumeNotFound uuid
  | InsufficientCapacity u64 u64
  | StorageFailed string
  | NoLeader
  | UnknownNode uuid
  | VoterConfigChangeFailed string
  | NotLeader
  | TlsCertificateError string
  | InvalidIri string
  | SecretNotFound string string
  | WorkloadStartFailed string string
  | InvalidResourceLimits string
  | NodeJoinRejected string
  | ClusterAlreadyInitialized string
  | TelemetryWriteFailed string
  | TelemetryQueryFailed string
  | SqlParseError string
  | DnsResolutionFailed string
  | EnrollmentFailed string
  | CertificateRevoked string
  | AudienceMismatch string string
  | PermissionDenied string
  | ImageNotFound string string
  | BlobNotFound string
  | RegistryError string
  | CapabilityNotFound string
  | CapabilityUnfulfilled string string
  | CapabilityDeletionBlocked string nat
  | CapabilityShaclConformanceFailed string string string
  | CapabilityRoutingFailed string string
  | EventRoutingFailed string string
  | DataDomainNotFound string
  | DataDomainDeletionBlocked string nat
  | DataProductNotFound string
  | DataProductDeletionBlocked string nat
  | CrossProductGraphAccessDenied string string
  | Internal string

type_synonym 'a result = "picloud_error + 'a"

text \<open>The messages of the \<open>#[error(...)]\<close> attributes (UTF-8 dashes as their three bytes).\<close>

definition emdash :: string where
  "emdash = [CHR 0xE2, CHR 0x80, CHR 0x94]"

primrec show_error :: "(uuid \<Rightarrow> string) \<Rightarrow> picloud_error \<Rightarrow> string" where
  "show_error u (ResourceNotFound iri) = ''Resource not found: '' @ iri"
| "show_error u (ResourceAlreadyExists iri) = ''Resource already exists: '' @ iri"
| "show_error u (ResourceValidationFailed reason) = ''Resource validation failed: '' @ reason"
| "show_error u (EventSchemaNotFound iri) = ''Event schema not found: '' @ iri"
| "show_error u (EventAppendFailed i reason) =
     ''Event append failed for aggregate '' @ u i @ '': '' @ reason"
| "show_error u Unauthenticated = ''Unauthenticated '' @ emdash @ '' no valid identity token''"
| "show_error u (Unauthorized i p) =
     ''Unauthorized '' @ emdash @ '' identity '' @ i @ '' lacks permission '' @ p"
| "show_error u (PasskeyChallengeFailed reason) = ''Passkey challenge failed: '' @ reason"
| "show_error u (VolumeNotFound i) = ''Volume not found: '' @ u i"
| "show_error u (InsufficientCapacity r a) =
     ''Insufficient storage capacity: requested '' @ show_nat (unat r) @ ''GB, available ''
     @ show_nat (unat a) @ ''GB''"
| "show_error u (StorageFailed m) = ''Storage operation failed: '' @ m"
| "show_error u NoLeader = ''No cluster leader available''"
| "show_error u (UnknownNode n) = ''Node '' @ u n @ '' is not a cluster member''"
| "show_error u (VoterConfigChangeFailed reason) = ''Voter configuration change failed: '' @ reason"
| "show_error u NotLeader =
     ''Not the Raft leader '' @ emdash @ '' voter changes must be submitted to the leader''"
| "show_error u (TlsCertificateError reason) = ''TLS certificate error: '' @ reason"
| "show_error u (InvalidIri iri) = ''Invalid IRI: '' @ iri"
| "show_error u (SecretNotFound p n) = ''Secret not found: '' @ p @ ''/'' @ n"
| "show_error u (WorkloadStartFailed n reason) = ''Workload '' @ n @ '' failed to start: '' @ reason"
| "show_error u (InvalidResourceLimits reason) = ''Invalid resource limits: '' @ reason"
| "show_error u (NodeJoinRejected reason) = ''Node join rejected: '' @ reason"
| "show_error u (ClusterAlreadyInitialized c) =
     ''Cluster already initialized (cluster_id: '' @ c @ '')''"
| "show_error u (TelemetryWriteFailed reason) = ''Telemetry write failed: '' @ reason"
| "show_error u (TelemetryQueryFailed reason) = ''Telemetry query failed: '' @ reason"
| "show_error u (SqlParseError reason) = ''SQL parse error: '' @ reason"
| "show_error u (DnsResolutionFailed h) = ''DNS resolution failed for '' @ h"
| "show_error u (EnrollmentFailed reason) = ''Node enrollment failed: '' @ reason"
| "show_error u (CertificateRevoked f) = ''Certificate revoked: '' @ f"
| "show_error u (AudienceMismatch e g) = ''Audience mismatch: expected '' @ e @ '', got '' @ g"
| "show_error u (PermissionDenied m) = ''Permission denied: '' @ m"
| "show_error u (ImageNotFound r t) = ''Image not found: '' @ r @ '':'' @ t"
| "show_error u (BlobNotFound d) = ''Blob not found: '' @ d"
| "show_error u (RegistryError reason) = ''Registry error: '' @ reason"
| "show_error u (CapabilityNotFound n) = ''Capability not found: '' @ n"
| "show_error u (CapabilityUnfulfilled c v) =
     ''Capability unfulfilled: no implementor for '' @ [CHR 0x27] @ c @ [CHR 0x27]
     @ '' at version >= '' @ v"
| "show_error u (CapabilityDeletionBlocked c n) =
     ''Capability deletion blocked: '' @ show_nat n @ '' consumer(s) depend on ''
     @ [CHR 0x27] @ c @ [CHR 0x27]"
| "show_error u (CapabilityShaclConformanceFailed p c reason) =
     ''Capability SHACL conformance failed for product '' @ [CHR 0x27] @ p @ [CHR 0x27]
     @ '' implementing '' @ [CHR 0x27] @ c @ [CHR 0x27] @ '': '' @ reason"
| "show_error u (CapabilityRoutingFailed c reason) =
     ''Capability routing failed for '' @ [CHR 0x27] @ c @ [CHR 0x27] @ '': '' @ reason"
| "show_error u (EventRoutingFailed s reason) =
     ''Event routing failed for subscription '' @ [CHR 0x27] @ s @ [CHR 0x27] @ '': '' @ reason"
| "show_error u (DataDomainNotFound n) = ''Data domain not found: '' @ n"
| "show_error u (DataDomainDeletionBlocked d n) =
     ''Data domain deletion blocked: '' @ show_nat n @ '' data product(s) still assigned to ''
     @ [CHR 0x27] @ d @ [CHR 0x27]"
| "show_error u (DataProductNotFound n) = ''Data product not found: '' @ n"
| "show_error u (DataProductDeletionBlocked d n) =
     ''Data product deletion blocked: '' @ show_nat n @ '' consumer(s) depend on ''
     @ [CHR 0x27] @ d @ [CHR 0x27]"
| "show_error u (CrossProductGraphAccessDenied r t) =
     ''Cross-product graph access denied: '' @ r @ '' cannot access '' @ t
     @ [CHR 0x27] @ ''s internal graph''"
| "show_error u (Internal m) = ''Internal error: '' @ m"

section \<open>IRIs (\<open>iri.rs\<close>)\<close>

type_synonym resource_iri = string
type_synonym cluster_domain = string

definition cluster_domain_default :: cluster_domain where
  "cluster_domain_default = ''picloud.local''"

text \<open>\<open>ResourceIri::new\<close>; \<open>url_parses\<close> stands for \<open>url::Url::parse\<close> succeeding.\<close>

definition resource_iri_new :: "(string \<Rightarrow> bool) \<Rightarrow> string \<Rightarrow> resource_iri result" where
  "resource_iri_new url_parses s = (if url_parses s then Inr s else Inl (InvalidIri s))"

definition iri_cluster_root :: "cluster_domain \<Rightarrow> resource_iri" where
  "iri_cluster_root d = ''https://'' @ d @ ''/''"

definition iri_node :: "cluster_domain \<Rightarrow> string \<Rightarrow> resource_iri" where
  "iri_node d n = ''https://'' @ d @ ''/nodes/'' @ n"

definition iri_product :: "cluster_domain \<Rightarrow> string \<Rightarrow> resource_iri" where
  "iri_product d p = ''https://'' @ d @ ''/products/'' @ p"

definition iri_resource :: "cluster_domain \<Rightarrow> string \<Rightarrow> string \<Rightarrow> string \<Rightarrow> resource_iri" where
  "iri_resource d p t n = ''https://'' @ d @ ''/products/'' @ p @ ''/'' @ t @ ''/'' @ n"

definition iri_product_graph :: "cluster_domain \<Rightarrow> string \<Rightarrow> resource_iri" where
  "iri_product_graph d p = ''https://'' @ d @ ''/products/'' @ p @ ''/graph''"

definition iri_product_ontology :: "cluster_domain \<Rightarrow> string \<Rightarrow> resource_iri" where
  "iri_product_ontology d p = ''https://'' @ d @ ''/products/'' @ p @ ''/ontology''"

definition iri_product_ontology_versioned :: "cluster_domain \<Rightarrow> string \<Rightarrow> string \<Rightarrow> resource_iri" where
  "iri_product_ontology_versioned d p v = ''https://'' @ d @ ''/products/'' @ p @ ''/ontology/'' @ v"

definition iri_product_sparql :: "cluster_domain \<Rightarrow> string \<Rightarrow> resource_iri" where
  "iri_product_sparql d p = ''https://'' @ d @ ''/products/'' @ p @ ''/sparql''"

definition iri_product_events :: "cluster_domain \<Rightarrow> string \<Rightarrow> resource_iri" where
  "iri_product_events d p = ''https://'' @ d @ ''/products/'' @ p @ ''/events''"

definition iri_event_schema :: "cluster_domain \<Rightarrow> string \<Rightarrow> u32 \<Rightarrow> resource_iri" where
  "iri_event_schema d t v = ''https://'' @ d @ ''/schemas/events/'' @ t @ ''/v'' @ show_nat (unat v)"

definition iri_product_event_schema :: "cluster_domain \<Rightarrow> string \<Rightarrow> string \<Rightarrow> u32 \<Rightarrow> resource_iri" where
  "iri_product_event_schema d p t v =
     ''https://'' @ d @ ''/products/'' @ p @ ''/schemas/events/'' @ t @ ''/v'' @ show_nat (unat v)"

definition iri_product_config :: "cluster_domain \<Rightarrow> string \<Rightarrow> resource_iri" where
  "iri_product_config d p = ''https://'' @ d @ ''/products/'' @ p @ ''/config''"

definition iri_config_entry :: "cluster_domain \<Rightarrow> string \<Rightarrow> string \<Rightarrow> resource_iri" where
  "iri_config_entry d p k = ''https://'' @ d @ ''/products/'' @ p @ ''/config/'' @ k"

definition iri_product_flags :: "cluster_domain \<Rightarrow> string \<Rightarrow> resource_iri" where
  "iri_product_flags d p = ''https://'' @ d @ ''/products/'' @ p @ ''/flags''"

definition iri_feature_flag :: "cluster_domain \<Rightarrow> string \<Rightarrow> string \<Rightarrow> resource_iri" where
  "iri_feature_flag d p f = ''https://'' @ d @ ''/products/'' @ p @ ''/flags/'' @ f"

definition iri_aggregate_stream ::
  "cluster_domain \<Rightarrow> string \<Rightarrow> string \<Rightarrow> string \<Rightarrow> string \<Rightarrow> resource_iri" where
  "iri_aggregate_stream d p s t i =
     ''https://'' @ d @ ''/products/'' @ p @ ''/event-store/'' @ s @ ''/'' @ t @ ''/'' @ i @ ''/events''"

definition iri_group :: "cluster_domain \<Rightarrow> string \<Rightarrow> resource_iri" where
  "iri_group d g = ''https://'' @ d @ ''/groups/'' @ g"

definition iri_inference_rule :: "cluster_domain \<Rightarrow> string \<Rightarrow> resource_iri" where
  "iri_inference_rule d r = ''https://'' @ d @ ''/inference-rules/'' @ r"

definition iri_replay_graph :: "cluster_domain \<Rightarrow> string \<Rightarrow> resource_iri" where
  "iri_replay_graph d r = ''https://'' @ d @ ''/replay/'' @ r"

definition iri_cluster_identity :: "cluster_domain \<Rightarrow> resource_iri" where
  "iri_cluster_identity d = ''https://'' @ d @ ''/cluster/identity''"

definition iri_otel_endpoint :: "cluster_domain \<Rightarrow> resource_iri" where
  "iri_otel_endpoint d = ''https://'' @ d @ ''/otel''"

definition iri_telemetry :: "cluster_domain \<Rightarrow> resource_iri" where
  "iri_telemetry d = ''https://'' @ d @ ''/telemetry''"

definition iri_cluster_resource :: "cluster_domain \<Rightarrow> string \<Rightarrow> string \<Rightarrow> resource_iri" where
  "iri_cluster_resource d t n = ''https://'' @ d @ ''/'' @ t @ ''/'' @ n"

definition iri_data_product_graph :: "cluster_domain \<Rightarrow> string \<Rightarrow> string \<Rightarrow> resource_iri" where
  "iri_data_product_graph d p n =
     ''https://'' @ d @ ''/products/'' @ p @ ''/data-products/'' @ n @ ''/graph''"

text \<open>Path segments without a slash are determined by the IRI they build.\<close>

lemma seg_unique:
  assumes "slash \<notin> set a" "slash \<notin> set b" "a @ slash # s = b @ slash # t"
  shows "a = b \<and> s = t"
proof -
  have "split_on slash (a @ slash # s) = split_on slash (b @ slash # t)" using assms by simp
  then have "a = b" using assms(1,2) by (simp add: split_on_app)
  with assms(3) show ?thesis by simp
qed

lemma iri_resource_inj:
  assumes "slash \<notin> set p" "slash \<notin> set p'" "slash \<notin> set t" "slash \<notin> set t'"
    and "iri_resource d p t n = iri_resource d p' t' n'"
  shows "p = p' \<and> t = t' \<and> n = n'"
proof -
  have "p @ slash # (t @ slash # n) = p' @ slash # (t' @ slash # n')"
    using assms(5) by (simp add: iri_resource_def)
  with assms(1,2) have "p = p'" and "t @ slash # n = t' @ slash # n'"
    by (auto dest!: seg_unique [of p p'])
  moreover from seg_unique [OF assms(3,4) this(2)] have "t = t' \<and> n = n'" .
  ultimately show ?thesis by simp
qed

section \<open>Events (\<open>events.rs\<close>, \<open>traits.rs\<close>)\<close>

type_synonym timestamp = int

record replay_metadata =
  is_replay :: bool
  replay_id :: uuid
  original_timestamp :: timestamp
  replayed_at :: timestamp

record 'p event_envelope =
  ev_id :: uuid
  ev_schema :: resource_iri
  ev_type :: string
  ev_timestamp :: timestamp
  ev_source :: resource_iri
  ev_product :: "string option"
  ev_correlation_id :: uuid
  ev_idempotency_key :: "string option"
  ev_traceparent :: "string option"
  ev_replay :: "replay_metadata option"
  ev_payload :: 'p

text \<open>\<open>EventEnvelope::new\<close>: the fresh identifier and the current time are arguments.\<close>

definition event_envelope_new ::
  "uuid \<Rightarrow> timestamp \<Rightarrow> resource_iri \<Rightarrow> string \<Rightarrow> resource_iri \<Rightarrow> string option \<Rightarrow> uuid \<Rightarrow> 'p
    \<Rightarrow> 'p event_envelope" where
  "event_envelope_new new_v4 now schema type source product cid payload =
     \<lparr>ev_id = new_v4, ev_schema = schema, ev_type = type, ev_timestamp = now, ev_source = source,
      ev_product = product, ev_correlation_id = cid, ev_idempotency_key = None,
      ev_traceparent = None, ev_replay = None, ev_payload = payload\<rparr>"

definition with_idempotency_key :: "string \<Rightarrow> 'p event_envelope \<Rightarrow> 'p event_envelope" where
  "with_idempotency_key k e = e\<lparr>ev_idempotency_key := Some k\<rparr>"

definition with_traceparent :: "string \<Rightarrow> 'p event_envelope \<Rightarrow> 'p event_envelope" where
  "with_traceparent t e = e\<lparr>ev_traceparent := Some t\<rparr>"

definition with_replay_metadata :: "replay_metadata \<Rightarrow> 'p event_envelope \<Rightarrow> 'p event_envelope" where
  "with_replay_metadata m e = e\<lparr>ev_replay := Some m\<rparr>"

record event_filter =
  f_correlation_id :: "uuid option"
  f_product :: "string option"
  f_event_types :: "string list"

section \<open>Resources (\<open>resources.rs\<close>)\<close>

record tag =
  tag_key :: string
  tag_value :: string

datatype resource_status = Declared | Provisioning | Ready | Failed | Deleting

record resource_meta =
  rm_iri :: resource_iri
  rm_resource_type :: string
  rm_name :: string
  rm_product :: "string option"
  rm_status :: resource_status
  rm_created_at :: timestamp
  rm_updated_at :: timestamp
  rm_tags :: "tag list"

section \<open>Storage data (\<open>storage.rs\<close>, \<open>resources.rs\<close>)\<close>

datatype snapshot_schedule = Hourly | Daily | Weekly

record snapshot_retention =
  ret_daily :: u32
  ret_weekly :: u32
  ret_monthly :: u32

record snapshot_config =
  sc_enabled :: bool
  sc_schedule :: snapshot_schedule
  sc_storage_secret :: string
  sc_retention :: snapshot_retention

datatype backup_frequency = BackupDaily | BackupWeekly

record offsite_backup_config =
  ob_enabled :: bool
  ob_target_secret :: string
  ob_frequency :: backup_frequency
  ob_encryption :: bool

datatype durability_tier = FullReplication | Quorum | Local | NoDurability

datatype performance_tier = Standard | Fast | Archive

record storage_intent =
  si_durability :: durability_tier
  si_performance :: performance_tier
  si_snapshots :: "snapshot_config option"
  si_offsite :: "offsite_backup_config option"

definition storage_intent_default :: storage_intent where
  "storage_intent_default =
     \<lparr>si_durability = FullReplication, si_performance = Standard, si_snapshots = None,
      si_offsite = None\<rparr>"

datatype volume_type = Mounted | RawBlock

record manifest_entry =
  me_path :: string
  me_size :: u64
  me_mtime :: int

record volume_manifest =
  vm_volume :: string
  vm_files :: "manifest_entry list"

record sync_file_entry =
  sf_path :: string
  sf_data :: string

section \<open>Validated identities (\<open>traits.rs\<close>)\<close>

record validated_identity =
  vi_identity_iri :: resource_iri
  vi_product :: "string option"
  vi_roles :: "string list"
  vi_audience :: "string option"
  vi_scopes :: "string list"
  vi_permissions :: "string list"

end
