(* ===== verification/Event_Log.thy ===== *)
theory Event_Log
  imports Domain_Types
begin

text \<open>
  The event log of \<open>crates/picloud-events/src/implementation.rs\<close>: the in-memory log with
  idempotency keys and broadcast subscriptions, the persistent log (JSON lines on disk, compaction
  with a side-car offset file), the write-through log in front of Raft and the product-scoped
  store. The interface of the \<open>EventLog\<close> trait is the locale \<open>event_store\<close>; both stores interpret
  it. An I/O call that may fail is driven by an argument \<open>io\<close>, which gives the text of the
  operating system's error for the calls that fail and None for those that succeed. The JSON
  encoding of an envelope (\<open>serde_json\<close>) and the printing of a UUID are the fields of a record
  of functions, also an argument.
\<close>

section \<open>The in-memory log\<close>

definition DEFAULT_BROADCAST_CAPACITY :: nat where "DEFAULT_BROADCAST_CAPACITY = 1024"
definition COMPACTION_THRESHOLD :: nat where "COMPACTION_THRESHOLD = 10000"
definition COMPACTION_KEEP :: nat where "COMPACTION_KEEP = 1000"

text \<open>\<open>ml_sent\<close> is the sequence of messages handed to the broadcast sender since its creation.\<close>

record 'p mem_log =
  ml_events :: "'p event_envelope list"
  ml_sent :: "'p event_envelope list"
  ml_capacity :: nat
  ml_seen_keys :: "string set"

definition mem_with_capacity :: "nat \<Rightarrow> 'p mem_log" where
  "mem_with_capacity capacity =
     \<lparr>ml_events = [], ml_sent = [], ml_capacity = capacity, ml_seen_keys = {}\<rparr>"

definition mem_new :: "'p mem_log" where
  "mem_new = mem_with_capacity DEFAULT_BROADCAST_CAPACITY"

definition mem_len :: "'p mem_log \<Rightarrow> nat" where
  "mem_len s = length (ml_events s)"

definition mem_is_empty :: "'p mem_log \<Rightarrow> bool" where
  "mem_is_empty s = (ml_events s = [])"

definition mem_events_since :: "'p mem_log \<Rightarrow> nat \<Rightarrow> 'p event_envelope list" where
  "mem_events_since s offset =
     (if offset \<ge> length (ml_events s) then [] else drop offset (ml_events s))"

text \<open>The idempotency check at the head of both \<open>append\<close> functions.\<close>

definition seen_key :: "string set \<Rightarrow> 'p event_envelope \<Rightarrow> bool" where
  "seen_key K e = (case ev_idempotency_key e of Some k \<Rightarrow> k \<in> K | None \<Rightarrow> False)"

definition add_key :: "string set \<Rightarrow> 'p event_envelope \<Rightarrow> string set" where
  "add_key K e = (case ev_idempotency_key e of Some k \<Rightarrow> insert k K | None \<Rightarrow> K)"

definition mem_append :: "'p mem_log \<Rightarrow> 'p event_envelope \<Rightarrow> unit result \<times> 'p mem_log" where
  "mem_append s event =
     (if seen_key (ml_seen_keys s) event then (Inr (), s)
      else
        let s1 = s\<lparr>ml_seen_keys := add_key (ml_seen_keys s) event\<rparr>;
            s2 = s1\<lparr>ml_sent := ml_sent s1 @ [event]\<rparr>;
            s3 = s2\<lparr>ml_events := ml_events s2 @ [event]\<rparr>
        in (Inr (), s3))"

section \<open>Subscriptions\<close>

definition matches_filter :: "'p event_envelope \<Rightarrow> event_filter \<Rightarrow> bool" where
  "matches_filter event f =
     (if (case f_correlation_id f of Some cid \<Rightarrow> ev_correlation_id event \<noteq> cid | None \<Rightarrow> False)
      then False
      else if (case f_product f of
                 Some product \<Rightarrow>
                   (case ev_product event of Some ep \<Rightarrow> ep \<noteq> product | None \<Rightarrow> True)
               | None \<Rightarrow> False)
      then False
      else if f_event_types f \<noteq> [] \<and> ev_type event \<notin> set (f_event_types f)
      then False
      else True)"

text \<open>A receiver is created at the current end of the broadcast sequence.\<close>

datatype subscription = RawReceiver nat | FilteredReceiver nat event_filter

definition mem_subscribe :: "'p mem_log \<Rightarrow> event_filter \<Rightarrow> subscription result" where
  "mem_subscribe s f =
     (if f_correlation_id f = None \<and> f_product f = None \<and> f_event_types f = []
      then Inr (RawReceiver (length (ml_sent s)))
      else Inr (FilteredReceiver (length (ml_sent s)) f))"

text \<open>The forwarding task of a filtered subscription: what \<open>upstream_rx.recv()\<close> yields, and what
  is sent on. \<open>live n\<close> says whether a receiver is left when the \<open>n\<close>-th message is forwarded.\<close>

datatype 'p recv = Received "'p event_envelope" | Lagged nat | Closed

fun forward_loop ::
  "event_filter \<Rightarrow> (nat \<Rightarrow> bool) \<Rightarrow> nat \<Rightarrow> 'p recv list \<Rightarrow> 'p event_envelope list" where
  "forward_loop f live n [] = []"
| "forward_loop f live n (Received e # rs) =
     (if matches_filter e f
      then (if live n then e # forward_loop f live (Suc n) rs else [])
      else forward_loop f live n rs)"
| "forward_loop f live n (Lagged k # rs) = forward_loop f live n rs"
| "forward_loop f live n (Closed # rs) = []"

section \<open>The persistent log\<close>

datatype io_op =
    CreateDirAll | OpenRead | ReadLine nat | OpenAppend | ReadMeta
  | WriteEvent | FlushLog | CreateTmp | WriteTmp nat | FlushTmp | RenameTmp | WriteMeta | Reopen

type_synonym io = "io_op \<Rightarrow> string option"

definition io_ok :: io where "io_ok = (\<lambda>_. None)"

text \<open>The JSON encoding (\<open>serde_json::to_string\<close>, \<open>from_str\<close>) and \<open>Uuid\<close>'s \<open>Display\<close>.\<close>

record 'p codec =
  cd_to_string :: "'p event_envelope \<Rightarrow> string + string"
  cd_from_str :: "string \<Rightarrow> string + 'p event_envelope"
  cd_show_uuid :: "uuid \<Rightarrow> string"

text \<open>\<open>pl_file\<close> and \<open>pl_meta\<close> are the contents of the log file and of its side-car; \<open>pl_fd_live\<close>
  says that the open handle is that of the file at \<open>pl_path\<close> and not of one replaced by a rename.\<close>

record 'p plog =
  pl_inner :: "'p mem_log"
  pl_path :: string
  pl_file :: string
  pl_meta :: "string option"
  pl_fd_live :: bool
  pl_snapshot_offset :: nat

text \<open>\<open>Path::with_extension\<close>.\<close>

definition file_stem :: "string \<Rightarrow> string" where
  "file_stem name =
     (let ps = split_on CHR ''.'' name
      in if length ps \<le> 1 \<or> (length ps = 2 \<and> hd ps = []) then name
         else concat (butlast (concat (map (\<lambda>p. [p, ''.'']) (butlast ps)))))"

definition with_extension :: "string \<Rightarrow> string \<Rightarrow> string" where
  "with_extension path ext =
     (let ps = split_on slash path
      in concat (map (\<lambda>p. p @ ''/'') (butlast ps)) @ file_stem (last ps) @ ''.'' @ ext)"

text \<open>\<open>Path::parent\<close>, as text.\<close>

definition path_parent :: "string \<Rightarrow> string" where
  "path_parent path = concat (butlast (concat (map (\<lambda>p. [p, ''/'']) (butlast (split_on slash path)))))"

text \<open>The replay loop of \<open>open\<close>: \<open>n\<close> counts the lines read so far.\<close>

fun replay_lines ::
  "io \<Rightarrow> 'p codec \<Rightarrow> nat \<Rightarrow> string list \<Rightarrow> 'p mem_log \<Rightarrow> 'p mem_log result" where
  "replay_lines io cd n [] inner = Inr inner"
| "replay_lines io cd n (line # ls) inner =
     (case io (ReadLine n) of
        Some e \<Rightarrow> Inl (Internal (''failed to read event log line '' @ show_nat (n + 1) @ '': '' @ e))
      | None \<Rightarrow>
          (let trimmed = trim line
           in if trimmed = [] then replay_lines io cd (Suc n) ls inner
              else (case cd_from_str cd trimmed of
                      Inl e \<Rightarrow> Inl (Internal (''failed to deserialize event at line ''
                                             @ show_nat (n + 1) @ '': '' @ e))
                    | Inr event \<Rightarrow>
                        replay_lines io cd (Suc n) ls
                          (inner\<lparr>ml_seen_keys := add_key (ml_seen_keys inner) event,
                                 ml_events := ml_events inner @ [event]\<rparr>))))"

text \<open>\<open>PersistentEventLog::open\<close> on a disk where the log file and the side-car may be missing.\<close>

definition plog_open ::
  "io \<Rightarrow> 'p codec \<Rightarrow> string \<Rightarrow> string option \<Rightarrow> string option \<Rightarrow> 'p plog result" where
  "plog_open io cd path file meta =
     (case io CreateDirAll of
        Some e \<Rightarrow> Inl (Internal (''failed to create event log directory '' @ path_parent path @ '': '' @ e))
      | None \<Rightarrow>
          and_then
            (case file of
               None \<Rightarrow> Inr mem_new
             | Some content \<Rightarrow>
                 (case io OpenRead of
                    Some e \<Rightarrow> Inl (Internal (''failed to open event log file '' @ path @ '': '' @ e))
                  | None \<Rightarrow> replay_lines io cd 0 (read_lines content) mem_new))
            (\<lambda>inner.
               case io OpenAppend of
                 Some e \<Rightarrow> Inl (Internal (''failed to open event log file for append ''
                                         @ path @ '': '' @ e))
               | None \<Rightarrow>
                   and_then
                     (case meta of
                        None \<Rightarrow> Inr 0
                      | Some m \<Rightarrow>
                          (case io ReadMeta of
                             Some e \<Rightarrow> Inl (Internal (''failed to read compaction metadata ''
                                             @ with_extension path ''jsonl.meta'' @ '': '' @ e))
                           | None \<Rightarrow> Inr (case parse_usize (trim m) of Some n \<Rightarrow> n | None \<Rightarrow> 0)))
                     (\<lambda>snapshot_offset.
                        Inr \<lparr>pl_inner = inner, pl_path = path,
                             pl_file = (case file of Some c \<Rightarrow> c | None \<Rightarrow> []),
                             pl_meta = meta, pl_fd_live = True,
                             pl_snapshot_offset = snapshot_offset\<rparr>)))"

definition plog_len :: "'p plog \<Rightarrow> nat" where
  "plog_len s = mem_len (pl_inner s)"

definition plog_is_empty :: "'p plog \<Rightarrow> bool" where
  "plog_is_empty s = mem_is_empty (pl_inner s)"

definition plog_total_event_count :: "'p plog \<Rightarrow> nat" where
  "plog_total_event_count s = pl_snapshot_offset s + mem_len (pl_inner s)"

definition plog_events_since :: "'p plog \<Rightarrow> nat \<Rightarrow> 'p event_envelope list" where
  "plog_events_since s offset =
     (let snap = pl_snapshot_offset s;
          physical = (if offset > snap then offset - snap else 0)
      in mem_events_since (pl_inner s) physical)"

definition plog_subscribe :: "'p plog \<Rightarrow> event_filter \<Rightarrow> subscription result" where
  "plog_subscribe s f = mem_subscribe (pl_inner s) f"

text \<open>\<open>append\<close>: on disk first, then the in-memory log.\<close>

definition plog_append ::
  "io \<Rightarrow> 'p codec \<Rightarrow> 'p plog \<Rightarrow> 'p event_envelope \<Rightarrow> unit result \<times> 'p plog" where
  "plog_append io cd s event =
     (if seen_key (ml_seen_keys (pl_inner s)) event then (Inr (), s)
      else (case cd_to_string cd event of
              Inl e \<Rightarrow> (Inl (Internal (''failed to serialize event ''
                              @ cd_show_uuid cd (ev_id event) @ '': '' @ e)), s)
            | Inr line \<Rightarrow>
                (case io WriteEvent of
                   Some e \<Rightarrow> (Inl (Internal (''failed to write event to log file: '' @ e)), s)
                 | None \<Rightarrow>
                     (let s1 = (if pl_fd_live s
                                then s\<lparr>pl_file := pl_file s @ line @ [newline]\<rparr> else s)
                      in case io FlushLog of
                           Some e \<Rightarrow> (Inl (Internal (''failed to flush event log file: '' @ e)), s1)
                         | None \<Rightarrow>
                             (let (r, inner) = mem_append (pl_inner s1) event
                              in (r, s1\<lparr>pl_inner := inner\<rparr>))))))"

text \<open>The loop of \<open>compact\<close> that writes the remaining events to the temporary file.\<close>

fun write_events ::
  "io \<Rightarrow> 'p codec \<Rightarrow> nat \<Rightarrow> 'p event_envelope list \<Rightarrow> string \<Rightarrow> string result" where
  "write_events io cd n [] acc = Inr acc"
| "write_events io cd n (e # es) acc =
     (case cd_to_string cd e of
        Inl x \<Rightarrow> Inl (Internal (''failed to serialize event during compaction: '' @ x))
      | Inr line \<Rightarrow>
          (case io (WriteTmp n) of
             Some x \<Rightarrow> Inl (Internal (''failed to write event during compaction: '' @ x))
           | None \<Rightarrow> write_events io cd (Suc n) es (acc @ line @ [newline])))"

text \<open>Step 3 of \<open>compact\<close>: rewrite the file through a temporary and a rename, write the side-car,
  reopen the handle. Memory and offset have already changed when this runs.\<close>

definition compact_rewrite ::
  "io \<Rightarrow> 'p codec \<Rightarrow> 'p event_envelope list \<Rightarrow> 'p plog \<Rightarrow> unit result \<times> 'p plog" where
  "compact_rewrite io cd remaining s =
     (case io CreateTmp of
        Some e \<Rightarrow> (Inl (Internal (''failed to create compaction temp file ''
                        @ with_extension (pl_path s) ''jsonl.tmp'' @ '': '' @ e)), s)
      | None \<Rightarrow>
          (case write_events io cd 0 remaining [] of
             Inl e \<Rightarrow> (Inl e, s)
           | Inr content \<Rightarrow>
               (case io FlushTmp of
                  Some e \<Rightarrow> (Inl (Internal (''failed to flush compaction temp file: '' @ e)), s)
                | None \<Rightarrow>
                    (case io RenameTmp of
                       Some e \<Rightarrow> (Inl (Internal (''failed to rename compaction temp file: '' @ e)), s)
                     | None \<Rightarrow>
                         (let s1 = s\<lparr>pl_file := content, pl_fd_live := False\<rparr>
                          in case io WriteMeta of
                               Some e \<Rightarrow>
                                 (Inl (Internal (''failed to write compaction metadata: '' @ e)), s1)
                             | None \<Rightarrow>
                                 (let s2 = s1\<lparr>pl_meta := Some (show_nat (pl_snapshot_offset s1))\<rparr>
                                  in case io Reopen of
                                       Some e \<Rightarrow>
                                         (Inl (Internal (''failed to reopen event log after compaction: ''
                                               @ e)), s2)
                                     | None \<Rightarrow> (Inr (), s2\<lparr>pl_fd_live := True\<rparr>)))))))"

definition plog_compact ::
  "io \<Rightarrow> 'p codec \<Rightarrow> 'p plog \<Rightarrow> nat \<Rightarrow> unit result \<times> 'p plog" where
  "plog_compact io cd s discard_count =
     (let current_len = mem_len (pl_inner s)
      in if discard_count = 0 \<or> discard_count > current_len
         then (Inl (Internal (''invalid discard_count '' @ show_nat discard_count
                    @ '' for log with '' @ show_nat current_len @ '' events'')), s)
         else
           let remaining = drop discard_count (ml_events (pl_inner s));
               s1 = s\<lparr>pl_inner := (pl_inner s)\<lparr>ml_events := remaining\<rparr>\<rparr>;
               s2 = s1\<lparr>pl_snapshot_offset := pl_snapshot_offset s1 + discard_count\<rparr>
           in compact_rewrite io cd remaining s2)"

definition plog_compact_if_needed ::
  "io \<Rightarrow> 'p codec \<Rightarrow> 'p plog \<Rightarrow> bool result \<times> 'p plog" where
  "plog_compact_if_needed io cd s =
     (let current_len = mem_len (pl_inner s)
      in if current_len > COMPACTION_THRESHOLD
         then (case plog_compact io cd s (current_len - COMPACTION_KEEP) of
                 (Inl e, s') \<Rightarrow> (Inl e, s')
               | (Inr _, s') \<Rightarrow> (Inr True, s'))
         else (Inr False, s))"

section \<open>The write-through log and the product store\<close>

text \<open>\<open>WriteThroughEventLog\<close>: \<open>write_cb\<close> is the Raft write; it may itself append to the local
  store through the apply callback, so it acts on the same state.\<close>

definition wt_append ::
  "('s \<Rightarrow> 'p event_envelope \<Rightarrow> unit result \<times> 's) \<Rightarrow> ('s \<Rightarrow> 'p event_envelope \<Rightarrow> unit result \<times> 's)
    \<Rightarrow> 's \<Rightarrow> 'p event_envelope \<Rightarrow> unit result \<times> 's" where
  "wt_append write_cb local_append s event =
     (case write_cb s event of
        (Inr _, s') \<Rightarrow> (Inr (), s')
      | (Inl e, s') \<Rightarrow> local_append s' event)"

definition wt_events_since ::
  "('s \<Rightarrow> nat \<Rightarrow> 'p event_envelope list) \<Rightarrow> 's \<Rightarrow> nat \<Rightarrow> 'p event_envelope list" where
  "wt_events_since local_since s offset = local_since s offset"

definition wt_subscribe ::
  "('s \<Rightarrow> event_filter \<Rightarrow> subscription result) \<Rightarrow> 's \<Rightarrow> event_filter \<Rightarrow> subscription result" where
  "wt_subscribe local_subscribe s f = local_subscribe s f"

definition product_append ::
  "('s \<Rightarrow> 'p event_envelope \<Rightarrow> unit result \<times> 's) \<Rightarrow> string \<Rightarrow> 's \<Rightarrow> 'p event_envelope
    \<Rightarrow> unit result \<times> 's" where
  "product_append inner product s event = inner s (event\<lparr>ev_product := Some product\<rparr>)"

definition product_subscribe ::
  "('s \<Rightarrow> event_filter \<Rightarrow> subscription result) \<Rightarrow> string \<Rightarrow> 's \<Rightarrow> event_filter \<Rightarrow> subscription result" where
  "product_subscribe inner product s f = inner s (f\<lparr>f_product := Some product\<rparr>)"

definition product_events_since ::
  "('s \<Rightarrow> nat \<Rightarrow> 'p event_envelope list) \<Rightarrow> string \<Rightarrow> 's \<Rightarrow> nat \<Rightarrow> 'p event_envelope list" where
  "product_events_since inner product s offset =
     filter (\<lambda>e. ev_product e = Some product) (inner s offset)"


section \<open>The interface of an event log\<close>

text \<open>Keys of the keyed events of a list, and the events an idempotent log keeps of a sequence
  of appends when \<open>K\<close> are the keys it has seen.\<close>

definition log_keys :: "'p event_envelope list \<Rightarrow> string list" where
  "log_keys es = List.map_filter ev_idempotency_key es"

fun dedup :: "string set \<Rightarrow> 'p event_envelope list \<Rightarrow> 'p event_envelope list" where
  "dedup K [] = []"
| "dedup K (e # es) = (if seen_key K e then dedup K es else e # dedup (add_key K e) es)"

definition append_all ::
  "('s \<Rightarrow> 'e \<Rightarrow> unit result \<times> 's) \<Rightarrow> 's \<Rightarrow> 'e list \<Rightarrow> 's" where
  "append_all app s es = fold (\<lambda>e s. snd (app s e)) es s"

lemma append_all_simps [simp]:
  "append_all app s [] = s"
  "append_all app s (e # es) = append_all app (snd (app s e)) es"
  "append_all app s (es @ fs) = append_all app (append_all app s es) fs"
  by (simp_all add: append_all_def)

lemma log_keys_simps [simp]:
  "log_keys [] = []"
  "log_keys (es @ fs) = log_keys es @ log_keys fs"
  "log_keys (e # es) = (case ev_idempotency_key e of Some k \<Rightarrow> [k] | None \<Rightarrow> []) @ log_keys es"
  by (simp_all add: log_keys_def List.map_filter_def split: option.split)

lemma add_key_simps [simp]:
  "ev_idempotency_key e = None \<Longrightarrow> add_key K e = K"
  "ev_idempotency_key e = Some k \<Longrightarrow> add_key K e = insert k K"
  by (simp_all add: add_key_def)

lemma seen_key_simps [simp]:
  "ev_idempotency_key e = None \<Longrightarrow> \<not> seen_key K e"
  "ev_idempotency_key e = Some k \<Longrightarrow> seen_key K e \<longleftrightarrow> k \<in> K"
  by (simp_all add: seen_key_def)

lemma seen_key_add_key: "ev_idempotency_key e \<noteq> None \<Longrightarrow> seen_key (add_key K e) e"
  by auto

lemma seen_key_cong: "ev_idempotency_key e = ev_idempotency_key e' \<Longrightarrow> seen_key K e = seen_key K e'"
  by (simp add: seen_key_def)

lemma dedup_set: "set (dedup K es) \<subseteq> set es"
  by (induction es arbitrary: K) auto

text \<open>What the \<open>EventLog\<close> trait promises its clients: an append of a known key changes nothing,
  a successful append of another event adds it at the end, a failed one adds nothing; reads are
  suffixes of the log, counted from a base that appends do not move.\<close>

locale event_store =
  fixes append :: "'s \<Rightarrow> 'p event_envelope \<Rightarrow> unit result \<times> 's"
    and since :: "'s \<Rightarrow> nat \<Rightarrow> 'p event_envelope list"
    and log :: "'s \<Rightarrow> 'p event_envelope list"
    and keys :: "'s \<Rightarrow> string set"
    and base :: "'s \<Rightarrow> nat"
    and invar :: "'s \<Rightarrow> bool"
  assumes append_dup: "invar s \<Longrightarrow> seen_key (keys s) e \<Longrightarrow> append s e = (Inr (), s)"
    and append_ok: "invar s \<Longrightarrow> \<not> seen_key (keys s) e \<Longrightarrow> append s e = (Inr (), s') \<Longrightarrow>
      log s' = log s @ [e] \<and> keys s' = add_key (keys s) e"
    and append_err: "invar s \<Longrightarrow> append s e = (Inl x, s') \<Longrightarrow> log s' = log s \<and> keys s' = keys s"
    and append_invar: "invar s \<Longrightarrow> invar (snd (append s e))"
    and append_base: "invar s \<Longrightarrow> base (snd (append s e)) = base s"
    and since_log: "invar s \<Longrightarrow> since s n = drop (n - base s) (log s)"
    and invar_keys: "invar s \<Longrightarrow> set (log_keys (log s)) \<subseteq> keys s"
    and invar_distinct: "invar s \<Longrightarrow> distinct (log_keys (log s))"
begin

lemma append_log_cases:
  assumes "invar s"
  obtains (same) "log (snd (append s e)) = log s" "keys (snd (append s e)) = keys s"
  | (added) "\<not> seen_key (keys s) e" "log (snd (append s e)) = log s @ [e]"
      "keys (snd (append s e)) = add_key (keys s) e"
proof (cases "seen_key (keys s) e")
  case True
  with assms show thesis by (intro same) (simp_all add: append_dup)
next
  case False
  obtain r s' where a: "append s e = (r, s')" by fastforce
  show thesis
  proof (cases r)
    case (Inl x)
    with a assms show thesis by (intro same) (auto dest: append_err)
  next
    case (Inr u)
    with a assms False show thesis by (intro added) (auto dest: append_ok)
  qed
qed

lemma append_all_invar: "invar s \<Longrightarrow> invar (append_all append s es)"
  by (induction es arbitrary: s) (auto intro: append_invar)

lemma append_all_base: "invar s \<Longrightarrow> base (append_all append s es) = base s"
  by (induction es arbitrary: s) (auto simp: append_base append_invar)

lemma append_prefix: "invar s \<Longrightarrow> prefix (log s) (log (snd (append s e)))"
  by (rule append_log_cases [of s e]) auto

lemma append_all_prefix: "invar s \<Longrightarrow> prefix (log s) (log (append_all append s es))"
proof (induction es arbitrary: s)
  case (Cons e es)
  then have "prefix (log s) (log (snd (append s e)))" by (intro append_prefix)
  moreover have "prefix (log (snd (append s e))) (log (append_all append (snd (append s e)) es))"
    using Cons by (intro Cons.IH append_invar)
  ultimately show ?case by (simp add: prefix_order.trans)
qed simp

text \<open>At most one event per idempotency key, whatever is appended, whatever fails.\<close>

lemma at_most_once: "invar s \<Longrightarrow> distinct (log_keys (log (append_all append s es)))"
  by (rule invar_distinct) (rule append_all_invar)

text \<open>When every append succeeds the log is the old log followed by the deduplicated sequence.\<close>

lemma append_all_dedup:
  assumes "invar s" and "\<And>s e. invar s \<Longrightarrow> fst (append s e) = Inr ()"
  shows "log (append_all append s es) = log s @ dedup (keys s) es"
  using assms(1)
proof (induction es arbitrary: s)
  case (Cons e es)
  have step: "log (append_all append s (e # es)) =
      log (snd (append s e)) @ dedup (keys (snd (append s e))) es"
    using Cons by (simp add: append_invar)
  show ?case
  proof (cases "seen_key (keys s) e")
    case True
    with Cons.prems step show ?thesis by (simp add: append_dup)
  next
    case False
    have "append s e = (Inr (), snd (append s e))"
      using assms(2) [OF Cons.prems, of e] by (cases "append s e") simp
    with append_ok [OF Cons.prems False] step False show ?thesis by force
  qed
qed simp

text \<open>Replaying a prefix of reads: a reader that has consumed \<open>n\<close> events and asks again sees
  exactly what was appended since.\<close>

lemma catch_up:
  assumes "invar s" and n: "n = base s + length (log s)"
  shows "log (append_all append s es) = log s @ since (append_all append s es) n"
proof -
  let ?t = "append_all append s es"
  have "since ?t n = drop (length (log s)) (log ?t)"
    using assms by (simp add: since_log append_all_invar append_all_base)
  moreover have "log ?t = log s @ drop (length (log s)) (log ?t)"
    using append_all_prefix [OF assms(1), of es] by (auto simp: prefix_def)
  ultimately show ?thesis by simp
qed

text \<open>The write-through log: if the replication call either did nothing or appended the event
  to this store, falling back to a local append still records a keyed event exactly once.\<close>

lemma wt_exactly_once:
  assumes "invar s" and k: "ev_idempotency_key e = Some k"
    and cb: "write_cb s e = (Inl x, s) \<or> write_cb s e = (Inl x, snd (append s e)) \<or>
             write_cb s e = (Inr (), snd (append s e))"
    and ok: "\<And>s. invar s \<Longrightarrow> fst (append s e) = Inr ()"
  shows "count_list (log_keys (log (snd (wt_append write_cb append s e)))) k =
           (if k \<in> keys s then count_list (log_keys (log s)) k else 1)"
proof -
  obtain t where r: "append s e = (Inr (), t)"
    using ok [OF assms(1)] by (cases "append s e") simp
  have "append t e = (Inr (), t)"
  proof (cases "seen_key (keys s) e")
    case True
    with r show ?thesis using append_dup [OF assms(1)] by auto
  next
    case False
    then have "keys t = add_key (keys s) e" using append_ok [OF assms(1) False r] by simp
    moreover have "invar t" using append_invar [OF assms(1), of e] r by simp
    ultimately show ?thesis using append_dup k by auto
  qed
  with cb r have final: "snd (wt_append write_cb append s e) = t" by (auto simp: wt_append_def)
  show ?thesis
  proof (cases "k \<in> keys s")
    case True
    then have "t = s" using append_dup [OF assms(1), of e] k r by simp
    with True show ?thesis using final by simp
  next
    case False
    then have "count_list (log_keys (log s)) k = 0"
      using invar_keys [OF assms(1)] by (auto simp: count_list_0_iff)
    then show ?thesis using append_ok [OF assms(1) _ r] False k final by simp
  qed
qed

text \<open>The product-scoped store: other products' appends are invisible, its own are visible.\<close>

lemma product_isolation:
  assumes "invar s" "p \<noteq> q"
  shows "product_events_since since p (snd (product_append append q s e)) n =
           product_events_since since p s n"
proof -
  let ?e = "e\<lparr>ev_product := Some q\<rparr>"
  have "log (snd (append s ?e)) = log s \<or> log (snd (append s ?e)) = log s @ [?e]"
    by (rule append_log_cases [OF assms(1), of ?e]) auto
  then show ?thesis
    using assms by (auto simp: product_events_since_def product_append_def since_log
        append_invar append_base drop_append drop_Cons')
qed

lemma product_visible:
  assumes "invar s" "append s (e\<lparr>ev_product := Some p\<rparr>) = (Inr (), s')"
    "\<not> seen_key (keys s) e" "n \<le> base s + length (log s)"
  shows "product_events_since since p s' n =
           product_events_since since p s n @ [e\<lparr>ev_product := Some p\<rparr>]"
proof -
  let ?e = "e\<lparr>ev_product := Some p\<rparr>"
  have "\<not> seen_key (keys s) ?e" using assms(3) by (simp add: seen_key_def)
  from append_ok [OF assms(1) this assms(2)] have l: "log s' = log s @ [?e]" ..
  have "invar s'" "base s' = base s"
    using append_invar [OF assms(1), of ?e] append_base [OF assms(1), of ?e] assms(2) by simp_all
  then show ?thesis
    using assms(1,4) l by (simp add: product_events_since_def since_log drop_append)
qed

end

section \<open>The in-memory log implements the interface\<close>

definition mem_ok :: "'p mem_log \<Rightarrow> bool" where
  "mem_ok s \<longleftrightarrow> set (log_keys (ml_events s)) \<subseteq> ml_seen_keys s \<and> distinct (log_keys (ml_events s))"

lemma mem_append_simps [simp]:
  "fst (mem_append s e) = Inr ()"
  "ml_events (snd (mem_append s e)) =
     (if seen_key (ml_seen_keys s) e then ml_events s else ml_events s @ [e])"
  "ml_sent (snd (mem_append s e)) =
     (if seen_key (ml_seen_keys s) e then ml_sent s else ml_sent s @ [e])"
  "ml_seen_keys (snd (mem_append s e)) =
     (if seen_key (ml_seen_keys s) e then ml_seen_keys s else add_key (ml_seen_keys s) e)"
  by (simp_all add: mem_append_def Let_def)

lemma mem_events_since_drop: "mem_events_since s n = drop n (ml_events s)"
  by (simp add: mem_events_since_def)

lemma mem_ok_new [simp]: "mem_ok (mem_with_capacity c)"
  by (simp add: mem_ok_def mem_with_capacity_def)

lemma mem_ok_append [simp]: "mem_ok s \<Longrightarrow> mem_ok (snd (mem_append s e))"
  by (cases "ev_idempotency_key e") (auto simp: mem_ok_def)

interpretation mem: event_store mem_append mem_events_since ml_events ml_seen_keys "\<lambda>_. 0" mem_ok
proof
  show "mem_append s e = (Inr (), s)" if "seen_key (ml_seen_keys s) e" for s :: "'p mem_log" and e
    using that by (simp add: mem_append_def)
  show "ml_events s' = ml_events s @ [e] \<and> ml_seen_keys s' = add_key (ml_seen_keys s) e"
    if "\<not> seen_key (ml_seen_keys s) e" "mem_append s e = (Inr (), s')" for s s' :: "'p mem_log" and e
    using that by (auto simp: mem_append_def Let_def)
  show "ml_events s' = ml_events s \<and> ml_seen_keys s' = ml_seen_keys s"
    if "mem_append s e = (Inl x, s')" for s s' :: "'p mem_log" and e x
    using that mem_append_simps(1) [of s e] by simp
qed (auto simp: mem_events_since_drop mem_ok_def [symmetric] intro: mem_ok_append
       dest: mem_ok_def [THEN iffD1])


section \<open>The persistent log implements the interface\<close>

definition plog_log :: "'p plog \<Rightarrow> 'p event_envelope list" where
  "plog_log s = ml_events (pl_inner s)"

definition plog_keys :: "'p plog \<Rightarrow> string set" where
  "plog_keys s = ml_seen_keys (pl_inner s)"

definition plog_ok :: "'p plog \<Rightarrow> bool" where
  "plog_ok s \<longleftrightarrow> mem_ok (pl_inner s)"

text \<open>The outcomes of \<open>append\<close>: nothing in memory changed, or the in-memory append happened.\<close>

lemma plog_append_cases:
  obtains (dup) "seen_key (plog_keys s) e" "plog_append io cd s e = (Inr (), s)"
  | (failed) x s' where "plog_append io cd s e = (Inl x, s')" "pl_inner s' = pl_inner s"
      "pl_snapshot_offset s' = pl_snapshot_offset s"
  | (stored) line s' where "\<not> seen_key (plog_keys s) e" "cd_to_string cd e = Inr line"
      "plog_append io cd s e = (Inr (), s')"
      "s' = s\<lparr>pl_file := (if pl_fd_live s then pl_file s @ line @ [newline] else pl_file s),
             pl_inner := snd (mem_append (pl_inner s) e)\<rparr>"
proof (cases "seen_key (plog_keys s) e")
  case True
  then show thesis by (intro dup) (simp_all add: plog_append_def plog_keys_def)
next
  case False
  show thesis
  proof (cases "\<exists>line. cd_to_string cd e = Inr line \<and> io WriteEvent = None \<and> io FlushLog = None")
    case True
    then obtain line where "cd_to_string cd e = Inr line" "io WriteEvent = None" "io FlushLog = None"
      by auto
    with False show thesis
      by (intro stored [of line]) (auto simp: plog_append_def plog_keys_def mem_append_def Let_def)
  next
    case no: False
    obtain r s' where a: "plog_append io cd s e = (r, s')" by fastforce
    with no False show thesis
      by (intro failed [of "projl r" s'])
        (auto simp: plog_append_def plog_keys_def Let_def split: sum.splits option.splits if_splits)
  qed
qed

lemma plog_events_since_drop: "plog_events_since s n = drop (n - pl_snapshot_offset s) (plog_log s)"
  by (auto simp: plog_events_since_def Let_def mem_events_since_drop plog_log_def)

lemma plog_append_inner:
  "pl_inner (snd (plog_append io cd s e)) \<in> {pl_inner s, snd (mem_append (pl_inner s) e)}"
  by (rule plog_append_cases [of s e io cd]) auto

interpretation pl: event_store "plog_append io cd" plog_events_since plog_log plog_keys
    pl_snapshot_offset plog_ok for io :: io and cd :: "'p codec"
proof
  fix s s' :: "'p plog" and e x n
  show "plog_append io cd s e = (Inr (), s)" if "seen_key (plog_keys s) e"
    using that by (simp add: plog_append_def plog_keys_def)
  show "plog_log s' = plog_log s @ [e] \<and> plog_keys s' = add_key (plog_keys s) e"
    if "\<not> seen_key (plog_keys s) e" "plog_append io cd s e = (Inr (), s')"
    by (rule plog_append_cases [of s e io cd]) (use that in \<open>auto simp: plog_log_def plog_keys_def\<close>)
  show "plog_log s' = plog_log s \<and> plog_keys s' = plog_keys s"
    if "plog_append io cd s e = (Inl x, s')"
    by (rule plog_append_cases [of s e io cd]) (use that in \<open>auto simp: plog_log_def plog_keys_def\<close>)
  show "plog_ok (snd (plog_append io cd s e))" if "plog_ok s"
    using plog_append_inner [of io cd s e] that by (auto simp: plog_ok_def)
  show "pl_snapshot_offset (snd (plog_append io cd s e)) = pl_snapshot_offset s"
    by (rule plog_append_cases [of s e io cd]) auto
  show "plog_events_since s n = drop (n - pl_snapshot_offset s) (plog_log s)"
    by (rule plog_events_since_drop)
  show "set (log_keys (plog_log s)) \<subseteq> plog_keys s" if "plog_ok s"
    using that by (simp add: plog_ok_def mem_ok_def plog_log_def plog_keys_def)
  show "distinct (log_keys (plog_log s))" if "plog_ok s"
    using that by (simp add: plog_ok_def mem_ok_def plog_log_def)
qed


section \<open>Durability\<close>

text \<open>What the log relies on from the JSON encoding of one event: it decodes to the event, holds
  no raw newline, and neither is empty nor begins or ends with white space.\<close>

definition codec_on :: "'p codec \<Rightarrow> 'p event_envelope \<Rightarrow> bool" where
  "codec_on cd e \<longleftrightarrow>
     (\<exists>l. cd_to_string cd e = Inr l \<and> cd_from_str cd l = Inr e \<and>
          newline \<notin> set l \<and> trim l = l \<and> l \<noteq> [])"

definition encode :: "'p codec \<Rightarrow> 'p event_envelope \<Rightarrow> string" where
  "encode cd e = projr (cd_to_string cd e)"

lemma codec_onD:
  assumes "codec_on cd e"
  shows "cd_to_string cd e = Inr (encode cd e)" "cd_from_str cd (encode cd e) = Inr e"
    "newline \<notin> set (encode cd e)" "trim (encode cd e) = encode cd e" "encode cd e \<noteq> []"
  using assms by (auto simp: codec_on_def encode_def)

lemma codec_on_strip_cr: "codec_on cd e \<Longrightarrow> strip_cr (encode cd e) = encode cd e"
  using trim_fixed_last [OF codec_onD(4,5)] by (intro strip_cr_id) (auto simp: is_space_def)

text \<open>The disk holds exactly the events in memory, the side-car exactly the offset, and the
  handle is that of the file.\<close>

definition plog_durable :: "'p codec \<Rightarrow> 'p plog \<Rightarrow> bool" where
  "plog_durable cd s \<longleftrightarrow>
     pl_fd_live s \<and> list_all (codec_on cd) (plog_log s) \<and>
     pl_file s = unlines (map (encode cd) (plog_log s)) \<and>
     (pl_meta s = Some (show_nat (pl_snapshot_offset s)) \<or> pl_meta s = None \<and> pl_snapshot_offset s = 0)"

lemma write_events_unlines:
  "list_all (codec_on cd) es \<Longrightarrow> (\<And>k. io (WriteTmp k) = None) \<Longrightarrow>
   write_events io cd n es acc = Inr (acc @ unlines (map (encode cd) es))"
  by (induction es arbitrary: n acc) (auto simp: codec_onD)

lemma write_events_Inr:
  "list_all (codec_on cd) es \<Longrightarrow> write_events io cd n es acc = Inr c \<Longrightarrow>
   c = acc @ unlines (map (encode cd) es)"
  by (induction es arbitrary: n acc) (fastforce simp: codec_onD split: option.splits)+

lemma replay_lines_unlines:
  assumes "list_all (codec_on cd) es"
  shows "\<exists>inner'. replay_lines io_ok cd n (map (encode cd) es) inner = Inr inner' \<and>
           ml_events inner' = ml_events inner @ es \<and>
           ml_seen_keys inner' = ml_seen_keys inner \<union> set (log_keys es)"
  using assms
proof (induction es arbitrary: n inner)
  case (Cons e es)
  let ?i = "inner\<lparr>ml_seen_keys := add_key (ml_seen_keys inner) e, ml_events := ml_events inner @ [e]\<rparr>"
  have "replay_lines io_ok cd n (map (encode cd) (e # es)) inner =
        replay_lines io_ok cd (Suc n) (map (encode cd) es) ?i"
    using Cons.prems by (simp add: io_ok_def codec_onD Let_def)
  moreover obtain j where "replay_lines io_ok cd (Suc n) (map (encode cd) es) ?i = Inr j"
    "ml_events j = ml_events ?i @ es" "ml_seen_keys j = ml_seen_keys ?i \<union> set (log_keys es)"
    using Cons.IH [of "Suc n" ?i] Cons.prems by auto
  ultimately show ?case by (cases "ev_idempotency_key e") auto
qed simp

lemma durable_read_lines:
  "plog_durable cd s \<Longrightarrow> read_lines (pl_file s) = map (encode cd) (plog_log s)"
  by (auto simp: plog_durable_def read_lines_unlines list_all_iff codec_onD codec_on_strip_cr)

text \<open>Reopening a durable log restores the events and the offset; the keys it knows afterwards
  are those of the events still in the file.\<close>

lemma reopen_durable:
  assumes "plog_durable cd s" and "pl_snapshot_offset s < 2 ^ 64"
  shows "\<exists>s'. plog_open io_ok cd path (Some (pl_file s)) (pl_meta s) = Inr s' \<and>
           plog_log s' = plog_log s \<and> pl_snapshot_offset s' = pl_snapshot_offset s \<and>
           plog_keys s' = set (log_keys (plog_log s)) \<and> plog_durable cd s'"
proof -
  have ok: "list_all (codec_on cd) (plog_log s)" using assms(1) by (simp add: plog_durable_def)
  obtain inner where i: "replay_lines io_ok cd 0 (read_lines (pl_file s)) mem_new = Inr inner"
    "ml_events inner = plog_log s" "ml_seen_keys inner = set (log_keys (plog_log s))"
    using replay_lines_unlines [OF ok, of 0 mem_new] durable_read_lines [OF assms(1)]
    by (auto simp: mem_new_def mem_with_capacity_def)
  define off where "off = (case pl_meta s of None \<Rightarrow> 0
      | Some m \<Rightarrow> (case parse_usize (trim m) of Some n \<Rightarrow> n | None \<Rightarrow> 0))"
  have off: "off = pl_snapshot_offset s"
    using assms by (auto simp: off_def plog_durable_def parse_show_usize)
  let ?s = "\<lparr>pl_inner = inner, pl_path = path, pl_file = pl_file s, pl_meta = pl_meta s,
             pl_fd_live = True, pl_snapshot_offset = off\<rparr>"
  have "plog_open io_ok cd path (Some (pl_file s)) (pl_meta s) = Inr ?s"
    using i(1) by (auto simp: plog_open_def io_ok_def off_def split: option.splits)
  moreover have "plog_log ?s = plog_log s" "plog_keys ?s = set (log_keys (plog_log s))"
    using i by (simp_all add: plog_log_def plog_keys_def)
  moreover have "plog_durable cd ?s"
    using assms(1) off i by (simp add: plog_durable_def plog_log_def)
  ultimately show ?thesis using off by (intro exI [of _ ?s]) simp
qed

lemma durable_append:
  assumes "plog_durable cd s" "codec_on cd e" "plog_append io cd s e = (Inr (), s')"
  shows "plog_durable cd s'"
proof (rule plog_append_cases [of s e io cd])
  fix line t
  assume *: "\<not> seen_key (plog_keys s) e" "cd_to_string cd e = Inr line"
    "plog_append io cd s e = (Inr (), t)"
    "t = s\<lparr>pl_file := (if pl_fd_live s then pl_file s @ line @ [newline] else pl_file s),
           pl_inner := snd (mem_append (pl_inner s) e)\<rparr>"
  have line: "line = encode cd e" using *(2) by (simp add: encode_def)
  have s': "s' = t" using *(3) assms(3) by simp
  have "ml_events (snd (mem_append (pl_inner s) e)) = ml_events (pl_inner s) @ [e]"
    using *(1) by (simp add: plog_keys_def)
  then show ?thesis
    using assms(1,2) unfolding s' *(4) line by (simp add: plog_durable_def plog_log_def)
qed (use assms in auto)

lemma compact_rewrite_ok:
  assumes "compact_rewrite io cd es s = (Inr (), s')" "list_all (codec_on cd) es"
  shows "s' = s\<lparr>pl_file := unlines (map (encode cd) es), pl_fd_live := True,
                pl_meta := Some (show_nat (pl_snapshot_offset s))\<rparr>"
  using assms write_events_Inr [OF assms(2), of io 0 "[]"]
  by (auto simp: compact_rewrite_def Let_def split: option.splits sum.splits)

text \<open>Whatever the rewrite does to the disk, it leaves memory and offset as they are.\<close>

lemma compact_rewrite_frame:
  "pl_inner (snd (compact_rewrite io cd es s)) = pl_inner s"
  "pl_snapshot_offset (snd (compact_rewrite io cd es s)) = pl_snapshot_offset s"
  by (auto simp: compact_rewrite_def Let_def split: option.splits sum.splits)

lemma plog_compact_frame:
  assumes "0 < d" "d \<le> plog_len s"
  shows "plog_log (snd (plog_compact io cd s d)) = drop d (plog_log s)"
    "pl_snapshot_offset (snd (plog_compact io cd s d)) = pl_snapshot_offset s + d"
    "plog_keys (snd (plog_compact io cd s d)) = plog_keys s"
  using assms
  by (simp_all add: plog_compact_def Let_def plog_len_def compact_rewrite_frame plog_log_def plog_keys_def)

lemma plog_compact_invalid:
  "d = 0 \<or> d > plog_len s \<Longrightarrow> snd (plog_compact io cd s d) = s \<and> (\<exists>m. fst (plog_compact io cd s d) = Inl (Internal m))"
  by (auto simp: plog_compact_def Let_def plog_len_def)

lemma durable_compact:
  assumes "plog_durable cd s" "plog_compact io cd s d = (Inr (), s')"
  shows "plog_durable cd s'"
proof -
  have "\<not> (d = 0 \<or> d > plog_len s)"
    using plog_compact_invalid [of d s io cd] assms(2) by fastforce
  then have d: "0 < d" "d \<le> plog_len s" by auto
  let ?s2 = "s\<lparr>pl_inner := (pl_inner s)\<lparr>ml_events := drop d (ml_events (pl_inner s))\<rparr>,
               pl_snapshot_offset := pl_snapshot_offset s + d\<rparr>"
  have ok: "list_all (codec_on cd) (drop d (ml_events (pl_inner s)))"
    using assms(1) by (auto simp: plog_durable_def plog_log_def list_all_iff dest: in_set_dropD)
  have "compact_rewrite io cd (drop d (ml_events (pl_inner s))) ?s2 = (Inr (), s')"
    using assms(2) d by (simp add: plog_compact_def Let_def plog_len_def)
  from compact_rewrite_ok [OF this ok] ok show ?thesis
    by (simp add: plog_durable_def plog_log_def)
qed

subsection \<open>Runs of operations\<close>

datatype 'p plog_op = OpAppend "'p event_envelope" | OpCompact nat | OpCompactIfNeeded

fun plog_step :: "'p codec \<Rightarrow> 'p plog \<Rightarrow> 'p plog_op \<Rightarrow> 'p plog" where
  "plog_step cd s (OpAppend e) = snd (plog_append io_ok cd s e)"
| "plog_step cd s (OpCompact d) = snd (plog_compact io_ok cd s d)"
| "plog_step cd s OpCompactIfNeeded = snd (plog_compact_if_needed io_ok cd s)"

definition plog_run :: "'p codec \<Rightarrow> 'p plog \<Rightarrow> 'p plog_op list \<Rightarrow> 'p plog" where
  "plog_run cd s ops = foldl (plog_step cd) s ops"

fun op_events :: "'p plog_op \<Rightarrow> 'p event_envelope list" where
  "op_events (OpAppend e) = [e]"
| "op_events _ = []"

lemma plog_append_io_ok:
  "codec_on cd e \<Longrightarrow> fst (plog_append io_ok cd s e) = Inr ()"
  by (auto simp: plog_append_def Let_def io_ok_def codec_onD mem_append_def)

lemma compact_io_ok:
  assumes "plog_durable cd s" "0 < d" "d \<le> plog_len s"
  shows "fst (plog_compact io_ok cd s d) = Inr ()"
proof -
  have ok: "list_all (codec_on cd) (drop d (ml_events (pl_inner s)))"
    using assms(1) by (auto simp: plog_durable_def plog_log_def list_all_iff dest: in_set_dropD)
  have "write_events io_ok cd 0 (drop d (ml_events (pl_inner s))) [] =
          Inr (unlines (map (encode cd) (drop d (ml_events (pl_inner s)))))"
    using write_events_unlines [OF ok, of io_ok 0 "[]"] by (simp add: io_ok_def)
  then show ?thesis
    using assms(2,3) by (simp add: plog_compact_def plog_len_def Let_def compact_rewrite_def io_ok_def)
qed

lemma durable_compact_any: "plog_durable cd s \<Longrightarrow> plog_durable cd (snd (plog_compact io_ok cd s d))"
proof (cases "0 < d \<and> d \<le> plog_len s")
  case True
  moreover assume s: "plog_durable cd s"
  ultimately have "fst (plog_compact io_ok cd s d) = Inr ()" by (intro compact_io_ok) auto
  with s show ?thesis by (cases "plog_compact io_ok cd s d") (auto dest: durable_compact)
next
  case False
  moreover assume "plog_durable cd s"
  ultimately show ?thesis using plog_compact_invalid [of d s io_ok cd] by auto
qed

lemma compact_if_needed_cases:
  "snd (plog_compact_if_needed io cd s) = s \<or>
   (\<exists>d. snd (plog_compact_if_needed io cd s) = snd (plog_compact io cd s d))"
  by (auto simp: plog_compact_if_needed_def Let_def split: prod.splits sum.splits) (metis snd_conv)+

lemma durable_step:
  "plog_durable cd s \<Longrightarrow> list_all (codec_on cd) (op_events op) \<Longrightarrow> plog_durable cd (plog_step cd s op)"
proof (cases op)
  case (OpAppend e)
  assume "plog_durable cd s" "list_all (codec_on cd) (op_events op)"
  then show ?thesis using OpAppend plog_append_io_ok [of cd e s] durable_append [of cd s e io_ok]
    by (cases "plog_append io_ok cd s e") auto
next
  case OpCompactIfNeeded
  assume "plog_durable cd s"
  then show ?thesis using OpCompactIfNeeded compact_if_needed_cases [of io_ok cd s]
    by (auto intro: durable_compact_any)
qed (auto intro: durable_compact_any)

lemma durable_run:
  "plog_durable cd s \<Longrightarrow> list_all (codec_on cd) (concat (map op_events ops)) \<Longrightarrow>
   plog_durable cd (plog_run cd s ops)"
  by (induction ops arbitrary: s) (auto simp: plog_run_def durable_step)

lemma durable_open_empty:
  "plog_open io_ok cd path None None = Inr s \<Longrightarrow> plog_durable cd s \<and> plog_ok s"
  by (auto simp: plog_open_def io_ok_def plog_durable_def plog_log_def mem_new_def mem_with_capacity_def
      plog_ok_def mem_ok_def)


section \<open>Concurrent appends\<close>

text \<open>\<open>InMemoryEventLog::append\<close> takes its locks one after the other: the read lock on the keys is
  released before the write lock is taken, and the broadcast and the push are further steps. Each
  task \<open>i\<close> appends the event \<open>ev i\<close>; a step is one task's next locked section.\<close>

datatype append_pc = PCheck | PRecord | PSend | PPush | PDone

record 'p append_tasks =
  at_log :: "'p mem_log"
  at_pc :: "nat \<Rightarrow> append_pc"

inductive append_step :: "(nat \<Rightarrow> 'p event_envelope) \<Rightarrow> 'p append_tasks \<Rightarrow> 'p append_tasks \<Rightarrow> bool"
  for ev where
  check_dup: "at_pc c i = PCheck \<Longrightarrow> seen_key (ml_seen_keys (at_log c)) (ev i) \<Longrightarrow>
    append_step ev c (c\<lparr>at_pc := (at_pc c)(i := PDone)\<rparr>)"
| check_new: "at_pc c i = PCheck \<Longrightarrow> \<not> seen_key (ml_seen_keys (at_log c)) (ev i) \<Longrightarrow>
    append_step ev c (c\<lparr>at_pc := (at_pc c)(i := PRecord)\<rparr>)"
| record_key: "at_pc c i = PRecord \<Longrightarrow>
    append_step ev c (c\<lparr>at_log := (at_log c)\<lparr>ml_seen_keys := add_key (ml_seen_keys (at_log c)) (ev i)\<rparr>,
                       at_pc := (at_pc c)(i := PSend)\<rparr>)"
| broadcast: "at_pc c i = PSend \<Longrightarrow>
    append_step ev c (c\<lparr>at_log := (at_log c)\<lparr>ml_sent := ml_sent (at_log c) @ [ev i]\<rparr>,
                       at_pc := (at_pc c)(i := PPush)\<rparr>)"
| push: "at_pc c i = PPush \<Longrightarrow>
    append_step ev c (c\<lparr>at_log := (at_log c)\<lparr>ml_events := ml_events (at_log c) @ [ev i]\<rparr>,
                       at_pc := (at_pc c)(i := PDone)\<rparr>)"

definition tasks_init :: "'p append_tasks" where
  "tasks_init = \<lparr>at_log = mem_new, at_pc = (\<lambda>_. PCheck)\<rparr>"

text \<open>A task that runs alone does what \<open>mem_append\<close> does.\<close>

lemma append_step_sequential:
  assumes "at_pc c i = PCheck"
  shows "(append_step ev)\<^sup>*\<^sup>* c (c\<lparr>at_log := snd (mem_append (at_log c) (ev i)),
                                 at_pc := (at_pc c)(i := PDone)\<rparr>)"
proof (cases "seen_key (ml_seen_keys (at_log c)) (ev i)")
  case True
  then show ?thesis using append_step.check_dup [OF assms, of ev]
    by (simp add: mem_append_def r_into_rtranclp)
next
  case False
  let ?c1 = "c\<lparr>at_pc := (at_pc c)(i := PRecord)\<rparr>"
  let ?c2 = "?c1\<lparr>at_log := (at_log c)\<lparr>ml_seen_keys := add_key (ml_seen_keys (at_log c)) (ev i)\<rparr>,
                at_pc := (at_pc c)(i := PSend)\<rparr>"
  let ?c3 = "?c2\<lparr>at_log := (at_log ?c2)\<lparr>ml_sent := ml_sent (at_log c) @ [ev i]\<rparr>,
                at_pc := (at_pc c)(i := PPush)\<rparr>"
  have s1: "append_step ev c ?c1" using append_step.check_new [of c i ev] assms False by simp
  have s2: "append_step ev ?c1 ?c2" using append_step.record_key [of ?c1 i ev] by simp
  have s3: "append_step ev ?c2 ?c3" using append_step.broadcast [of ?c2 i ev] by simp
  have s4: "append_step ev ?c3 (?c3\<lparr>at_log := (at_log ?c3)\<lparr>ml_events := ml_events (at_log c) @ [ev i]\<rparr>,
                at_pc := (at_pc c)(i := PDone)\<rparr>)"
    using append_step.push [of ?c3 i ev] by simp
  have "(append_step ev)\<^sup>*\<^sup>* c (?c3\<lparr>at_log := (at_log ?c3)\<lparr>ml_events := ml_events (at_log c) @ [ev i]\<rparr>,
                at_pc := (at_pc c)(i := PDone)\<rparr>)"
    using s1 s2 s3 s4 by (meson converse_rtranclp_into_rtranclp rtranclp.rtrancl_refl)
  then show ?thesis using False by (simp add: mem_append_def Let_def)
qed

text \<open>What holds under every interleaving: a logged event has been broadcast, and the key of a
  logged or broadcast event has been recorded.\<close>

definition tasks_ok :: "(nat \<Rightarrow> 'p event_envelope) \<Rightarrow> 'p append_tasks \<Rightarrow> bool" where
  "tasks_ok ev c \<longleftrightarrow>
     set (ml_events (at_log c)) \<subseteq> set (ml_sent (at_log c)) \<and>
     set (log_keys (ml_sent (at_log c))) \<subseteq> ml_seen_keys (at_log c) \<and>
     (\<forall>i. at_pc c i = PPush \<longrightarrow> ev i \<in> set (ml_sent (at_log c))) \<and>
     (\<forall>i k. at_pc c i \<in> {PSend, PPush} \<longrightarrow> ev_idempotency_key (ev i) = Some k \<longrightarrow>
            k \<in> ml_seen_keys (at_log c))"

lemma add_key_mono: "K \<subseteq> add_key K e"
  by (cases "ev_idempotency_key e") auto

lemma append_step_ok: "append_step ev c c' \<Longrightarrow> tasks_ok ev c \<Longrightarrow> tasks_ok ev c'"
proof (induction rule: append_step.induct)
  case (record_key c i)
  then show ?case using add_key_mono [of "ml_seen_keys (at_log c)" "ev i"]
    by (auto simp: tasks_ok_def)
next
  case (broadcast c i)
  then show ?case by (cases "ev_idempotency_key (ev i)") (auto simp: tasks_ok_def)
qed (auto simp: tasks_ok_def)

lemma append_reachable_ok: "(append_step ev)\<^sup>*\<^sup>* tasks_init c \<Longrightarrow> tasks_ok ev c"
proof (induction rule: rtranclp_induct)
  case base
  show ?case by (simp add: tasks_ok_def tasks_init_def mem_new_def mem_with_capacity_def)
qed (blast intro: append_step_ok)

section \<open>Filtered subscriptions\<close>

text \<open>Without lag or closure and while receivers remain, the forwarding task delivers exactly the
  matching events; in any case it delivers matching events only.\<close>

lemma forward_loop_exact:
  "(\<And>n. live n) \<Longrightarrow> forward_loop f live n (map Received es) = filter (\<lambda>e. matches_filter e f) es"
  by (induction es arbitrary: n) auto

lemma forward_loop_sound: "e \<in> set (forward_loop f live n rs) \<Longrightarrow> matches_filter e f"
  by (induction f live n rs rule: forward_loop.induct) (auto split: if_splits)

lemma matches_filter_product:
  "matches_filter e (f\<lparr>f_product := Some p\<rparr>) \<Longrightarrow> ev_product e = Some p"
  by (auto simp: matches_filter_def split: option.splits if_splits)

section \<open>Properties\<close>

text \<open>C1. The in-memory log, from its creation and under any sequence of appends, stores and
  broadcasts exactly the deduplicated sequence: every unkeyed event and the first event of every
  idempotency key, in order; no key occurs twice.\<close>

theorem mem_log_dedup:
  "ml_events (append_all mem_append (mem_with_capacity cap) es) = dedup {} es \<and>
   ml_sent (append_all mem_append (mem_with_capacity cap) es) = dedup {} es \<and>
   distinct (log_keys (dedup {} es))"
proof -
  let ?s = "mem_with_capacity cap :: 'a mem_log"
  have e: "ml_events (append_all mem_append ?s es) = dedup {} es"
    using mem.append_all_dedup [OF mem_ok_new, of cap es] by (simp add: mem_with_capacity_def)
  have "ml_sent (append_all mem_append s es) = ml_sent s @ dedup (ml_seen_keys s) es" for s :: "'a mem_log"
    by (induction es arbitrary: s) auto
  moreover have "distinct (log_keys (dedup {} es))"
    using mem.at_most_once [of ?s es] e by simp
  ultimately show ?thesis using e by (simp add: mem_with_capacity_def)
qed

text \<open>C2. Durability: a persistent log opened on an empty disk and driven through any sequence of
  appends and compactions without I/O errors can be reopened from its files, and the reopened log
  answers \<open>events_since\<close> for every logical offset as the running one did.\<close>

theorem plog_reopen_after_run:
  assumes "plog_open io_ok cd path None None = Inr s0"
    and "list_all (codec_on cd) (concat (map op_events ops))"
    and "pl_snapshot_offset (plog_run cd s0 ops) < 2 ^ 64"
  shows "\<exists>s'. plog_open io_ok cd path (Some (pl_file (plog_run cd s0 ops))) (pl_meta (plog_run cd s0 ops)) = Inr s'
     \<and> (\<forall>n. plog_events_since s' n = plog_events_since (plog_run cd s0 ops) n)
     \<and> plog_total_event_count s' = plog_total_event_count (plog_run cd s0 ops)"
proof -
  have "plog_durable cd (plog_run cd s0 ops)"
    using durable_open_empty [OF assms(1)] assms(2) by (intro durable_run) auto
  from reopen_durable [OF this assms(3), of path] show ?thesis
    by (auto simp: plog_events_since_drop plog_total_event_count_def mem_len_def plog_log_def)
qed

text \<open>C3. Compaction, whether or not its file rewriting fails, leaves every logical read at or after
  the new snapshot offset unchanged, and the total logical event count unchanged.\<close>

theorem compact_preserves_reads:
  assumes "0 < d" "d \<le> plog_len s" "pl_snapshot_offset s + d \<le> n"
  shows "plog_events_since (snd (plog_compact io cd s d)) n = plog_events_since s n \<and>
         plog_total_event_count (snd (plog_compact io cd s d)) = plog_total_event_count s"
  using assms plog_compact_frame [OF assms(1,2), of io cd]
  by (auto simp: plog_events_since_drop plog_total_event_count_def mem_len_def plog_log_def plog_len_def)

text \<open>Compaction loses idempotency across a restart: a key that only compacted-away events
  carried is still rejected by the running log, but the log reopened from the same files accepts
  an event with that key again.\<close>

theorem compaction_forgets_keys:
  assumes "plog_durable cd s" "plog_compact io_ok cd s d = (Inr (), s')"
    and "pl_snapshot_offset s' < 2 ^ 64"
    and "ev_idempotency_key e = Some k" "k \<in> plog_keys s" "k \<notin> set (log_keys (drop d (plog_log s)))"
    and "codec_on cd e"
  shows "plog_append io_ok cd s' e = (Inr (), s') \<and>
    (\<exists>s''. plog_open io_ok cd path (Some (pl_file s')) (pl_meta s') = Inr s'' \<and>
           plog_log s'' = plog_log s' \<and>
           plog_log (snd (plog_append io_ok cd s'' e)) = plog_log s' @ [e])"
proof -
  have "\<not> (d = 0 \<or> d > plog_len s)"
    using plog_compact_invalid [of d s io_ok cd] assms(2) by fastforce
  then have d: "0 < d" "d \<le> plog_len s" by auto
  have s': "plog_log s' = drop d (plog_log s)" "plog_keys s' = plog_keys s"
    using plog_compact_frame [OF d, of io_ok cd] assms(2) by simp_all
  obtain s'' where o: "plog_open io_ok cd path (Some (pl_file s')) (pl_meta s') = Inr s''"
    "plog_log s'' = plog_log s'" "plog_keys s'' = set (log_keys (plog_log s'))"
    using reopen_durable [OF durable_compact [OF assms(1,2)] assms(3), of path] by auto
  have "\<not> seen_key (plog_keys s'') e" using assms(4,6) o(3) s'(1) by simp
  moreover have "plog_append io_ok cd s'' e = (Inr (), snd (plog_append io_ok cd s'' e))"
    using plog_append_io_ok [OF assms(7), of s''] by (cases "plog_append io_ok cd s'' e") simp
  ultimately have "plog_log (snd (plog_append io_ok cd s'' e)) = plog_log s'' @ [e]"
    by (auto simp: plog_append_def plog_keys_def plog_log_def io_ok_def codec_onD [OF assms(7)] Let_def
        mem_append_def)
  moreover have "plog_append io_ok cd s' e = (Inr (), s')"
    using assms(4,5) s'(2) by (simp add: plog_append_def plog_keys_def)
  ultimately show ?thesis using o by auto
qed

text \<open>The duplicate check is not atomic: two concurrent appends of events with the same
  idempotency key can both pass it, and both events end up in the log.\<close>

theorem concurrent_append_race:
  assumes "ev_idempotency_key (ev 0) = Some k" "ev_idempotency_key (ev 1) = Some k"
  shows "\<exists>c. (append_step ev)\<^sup>*\<^sup>* tasks_init c \<and> at_pc c 0 = PDone \<and> at_pc c 1 = PDone \<and>
             ml_events (at_log c) = [ev 0, ev 1] \<and> log_keys (ml_events (at_log c)) = [k, k]"
proof -
  let ?m = "mem_new :: 'a mem_log"
  let ?c = "\<lambda>m p q. \<lparr>at_log = m, at_pc = (\<lambda>_. PCheck)(0 := p, 1 := q)\<rparr> :: 'a append_tasks"
  let ?m1 = "?m\<lparr>ml_seen_keys := {k}\<rparr>"
  let ?m2 = "?m1\<lparr>ml_sent := [ev 0]\<rparr>"
  let ?m3 = "?m2\<lparr>ml_events := [ev 0]\<rparr>"
  let ?m4 = "?m3\<lparr>ml_sent := [ev 0, ev 1]\<rparr>"
  let ?m5 = "?m4\<lparr>ml_events := [ev 0, ev 1]\<rparr>"
  have fresh: "\<not> seen_key (ml_seen_keys ?m) (ev i)" for i
    by (simp add: seen_key_def mem_new_def mem_with_capacity_def split: option.split)
  have keys: "add_key (ml_seen_keys ?m) (ev 0) = {k}" "add_key {k} (ev 1) = {k}"
    using assms by (simp_all add: mem_new_def mem_with_capacity_def)
  have nil: "ml_sent ?m = []" "ml_events ?m = []" by (simp_all add: mem_new_def mem_with_capacity_def)
  have init: "tasks_init = ?c ?m PCheck PCheck" by (auto simp: tasks_init_def)
  have "append_step ev (?c ?m PCheck PCheck) (?c ?m PRecord PCheck)"
    using append_step.check_new [of "?c ?m PCheck PCheck" 0 ev] fresh [of 0] by (simp add: fun_upd_twist)
  moreover have "append_step ev (?c ?m PRecord PCheck) (?c ?m PRecord PRecord)"
    using append_step.check_new [of "?c ?m PRecord PCheck" 1 ev] fresh [of 1] by simp
  moreover have "append_step ev (?c ?m PRecord PRecord) (?c ?m1 PSend PRecord)"
    using append_step.record_key [of "?c ?m PRecord PRecord" 0 ev] keys by (simp add: fun_upd_twist)
  moreover have "append_step ev (?c ?m1 PSend PRecord) (?c ?m1 PSend PSend)"
    using append_step.record_key [of "?c ?m1 PSend PRecord" 1 ev] keys by simp
  moreover have "append_step ev (?c ?m1 PSend PSend) (?c ?m2 PPush PSend)"
    using append_step.broadcast [of "?c ?m1 PSend PSend" 0 ev] nil by (simp add: fun_upd_twist)
  moreover have "append_step ev (?c ?m2 PPush PSend) (?c ?m3 PDone PSend)"
    using append_step.push [of "?c ?m2 PPush PSend" 0 ev] nil by (simp add: fun_upd_twist)
  moreover have "append_step ev (?c ?m3 PDone PSend) (?c ?m4 PDone PPush)"
    using append_step.broadcast [of "?c ?m3 PDone PSend" 1 ev] by simp
  moreover have "append_step ev (?c ?m4 PDone PPush) (?c ?m5 PDone PDone)"
    using append_step.push [of "?c ?m4 PDone PPush" 1 ev] by simp
  ultimately have "(append_step ev)\<^sup>*\<^sup>* tasks_init (?c ?m5 PDone PDone)"
    unfolding init by (meson converse_rtranclp_into_rtranclp rtranclp.rtrancl_refl)
  then show ?thesis using assms by (intro exI [of _ "?c ?m5 PDone PDone"]) simp
qed


text \<open>If writing the side-car fails during a compaction, the file has already been replaced and
  the handle still belongs to the old one: a later append reports success and is visible in
  memory, but the file does not change, and reopening yields a log without the event and with the
  old offset.\<close>

theorem failed_metadata_write_loses_appends:
  assumes "plog_durable cd s" "0 < d" "d \<le> plog_len s" "pl_snapshot_offset s < 2 ^ 64"
    and io: "io WriteMeta = Some x" "\<And>op. op \<noteq> WriteMeta \<Longrightarrow> io op = None"
    and "codec_on cd e" "\<not> seen_key (plog_keys s) e"
    and s': "plog_compact io cd s d = (r, s')" and t: "plog_append io_ok cd s' e = (r', t)"
  shows "r = Inl (Internal (''failed to write compaction metadata: '' @ x)) \<and>
    r' = Inr () \<and> plog_log t = drop d (plog_log s) @ [e] \<and>
    (\<exists>s''. plog_open io_ok cd path (Some (pl_file t)) (pl_meta t) = Inr s'' \<and>
           plog_log s'' = drop d (plog_log s) \<and> pl_snapshot_offset s'' = pl_snapshot_offset s)"
proof -
  let ?rem = "drop d (ml_events (pl_inner s))"
  have ok: "list_all (codec_on cd) ?rem"
    using assms(1) by (auto simp: plog_durable_def plog_log_def list_all_iff dest: in_set_dropD)
  have w: "write_events io cd 0 ?rem [] = Inr (unlines (map (encode cd) ?rem))"
    using write_events_unlines [OF ok, of io 0 "[]"] io(2) by simp
  have c: "r = Inl (Internal (''failed to write compaction metadata: '' @ x))"
    "s' = s\<lparr>pl_inner := (pl_inner s)\<lparr>ml_events := ?rem\<rparr>,
            pl_snapshot_offset := pl_snapshot_offset s + d,
            pl_file := unlines (map (encode cd) ?rem), pl_fd_live := False\<rparr>"
    using s' assms(2,3) w io
    by (auto simp: plog_compact_def plog_len_def Let_def compact_rewrite_def)
  have "\<not> seen_key (plog_keys s') e" using assms(8) c(2) by (simp add: plog_keys_def)
  then have a: "r' = Inr ()" "t = s'\<lparr>pl_inner := snd (mem_append (pl_inner s') e)\<rparr>"
    using t c(2) assms(7)
    by (auto simp: plog_append_def plog_keys_def io_ok_def codec_onD Let_def mem_append_def)
  define u where "u = s\<lparr>pl_inner := (pl_inner s)\<lparr>ml_events := ?rem\<rparr>,
            pl_file := unlines (map (encode cd) ?rem)\<rparr>"
  have "plog_durable cd u"
    using assms(1) ok by (simp add: u_def plog_durable_def plog_log_def)
  from reopen_durable [OF this, of path] assms(4)
  obtain s'' where "plog_open io_ok cd path (Some (pl_file u)) (pl_meta u) = Inr s''"
    "plog_log s'' = plog_log u" "pl_snapshot_offset s'' = pl_snapshot_offset u"
    by (auto simp: u_def)
  moreover have "pl_file t = pl_file u" "pl_meta t = pl_meta u" using a c by (simp_all add: u_def)
  moreover have "plog_log t = ?rem @ [e]"
    using a(2) c(2) \<open>\<not> seen_key (plog_keys s') e\<close> by (simp add: plog_log_def plog_keys_def)
  ultimately show ?thesis using c(1) a(1) by (auto simp: u_def plog_log_def)
qed


text \<open>C8. Product stores over the persistent log are isolated, whatever I/O fails: an append through
  the store of product \<open>q\<close> changes no read of the store of another product \<open>p\<close>, and every event a
  store returns carries its product.\<close>

theorem product_stores_isolated:
  assumes "plog_ok s" "p \<noteq> q"
  shows "product_events_since plog_events_since p (snd (product_append (plog_append io cd) q s e)) n =
           product_events_since plog_events_since p s n \<and>
         (\<forall>e' \<in> set (product_events_since plog_events_since p s n). ev_product e' = Some p)"
  using pl.product_isolation [OF assms, of io cd e n] by (auto simp: product_events_since_def)

section \<open>Witnesses\<close>

definition demo_event :: "string \<Rightarrow> unit event_envelope" where
  "demo_event k = with_idempotency_key k
     (event_envelope_new 7 0 ''schema'' ''NodeJoined'' ''node'' (Some ''shop'') 9 ())"

definition demo_codec :: "'p event_envelope \<Rightarrow> 'p codec" where
  "demo_codec e =
     \<lparr>cd_to_string = (\<lambda>x. if x = e then Inr ''{}'' else Inl ''unknown''),
      cd_from_str = (\<lambda>l. if l = ''{}'' then Inr e else Inl ''unknown''),
      cd_show_uuid = (\<lambda>_. [])\<rparr>"

definition demo_log :: "'p codec \<Rightarrow> 'p plog" where
  "demo_log cd = projr (plog_open io_ok cd ''log.jsonl'' None None)"

lemma demo_codec_on: "codec_on (demo_codec e) e"
  by (auto simp: codec_on_def demo_codec_def trim_def is_space_def)

lemma demo_log_open: "plog_open io_ok cd ''log.jsonl'' None None = Inr (demo_log cd)"
  by (simp add: demo_log_def plog_open_def io_ok_def)

lemmas demo_log_durable = durable_open_empty [OF demo_log_open]

lemma demo_log_fields [simp]:
  "plog_log (demo_log cd) = []" "plog_keys (demo_log cd) = {}" "pl_snapshot_offset (demo_log cd) = 0"
  "pl_fd_live (demo_log cd)"
  by (simp_all add: demo_log_def plog_open_def io_ok_def plog_log_def plog_keys_def mem_new_def
      mem_with_capacity_def)

definition demo_log1 :: "unit event_envelope \<Rightarrow> unit plog" where
  "demo_log1 e = snd (plog_append io_ok (demo_codec e) (demo_log (demo_codec e)) e)"

abbreviation demo_keyed :: "unit event_envelope" where "demo_keyed \<equiv> demo_event ''k''"
abbreviation demo_cd :: "unit codec" where "demo_cd \<equiv> demo_codec demo_keyed"
abbreviation demo_plain :: "unit event_envelope" where
  "demo_plain \<equiv> demo_keyed\<lparr>ev_idempotency_key := None\<rparr>"

lemma demo_key [simp]: "ev_idempotency_key (demo_event k) = Some k"
  by (simp add: demo_event_def with_idempotency_key_def)

lemma demo_log_ok: "plog_ok (demo_log cd)"
  by (rule conjunct2 [OF demo_log_durable])

lemma demo_log1:
  "plog_append io_ok (demo_codec e) (demo_log (demo_codec e)) e = (Inr (), demo_log1 e)"
  "plog_log (demo_log1 e) = [e]" "plog_keys (demo_log1 e) = add_key {} e" "plog_len (demo_log1 e) = 1"
  "pl_snapshot_offset (demo_log1 e) = 0" "plog_durable (demo_codec e) (demo_log1 e)"
proof -
  let ?cd = "demo_codec e"
  show t: "plog_append io_ok ?cd (demo_log ?cd) e = (Inr (), demo_log1 e)"
    using plog_append_io_ok [OF demo_codec_on, of e "demo_log ?cd"]
    by (cases "plog_append io_ok ?cd (demo_log ?cd) e") (simp add: demo_log1_def)
  have "\<not> seen_key (plog_keys (demo_log ?cd)) e" by (simp add: seen_key_def split: option.split)
  from pl.append_ok [OF demo_log_ok this t]
  have "plog_log (demo_log1 e) = [e] \<and> plog_keys (demo_log1 e) = add_key {} e" by simp
  then show "plog_log (demo_log1 e) = [e]" "plog_keys (demo_log1 e) = add_key {} e" "plog_len (demo_log1 e) = 1"
    by (simp_all add: plog_len_def mem_len_def plog_log_def)
  show "pl_snapshot_offset (demo_log1 e) = 0"
    using pl.append_base [OF demo_log_ok [of ?cd], where io = io_ok and cd = ?cd and e = e] t by simp
  show "plog_durable ?cd (demo_log1 e)"
    by (rule durable_append [OF conjunct1 [OF demo_log_durable] demo_codec_on t])
qed

theorem plog_reopen_after_run_witness:
  "\<exists>s'. plog_open io_ok demo_cd ''log.jsonl''
      (Some (pl_file (plog_run demo_cd (demo_log demo_cd) [OpAppend demo_keyed])))
      (pl_meta (plog_run demo_cd (demo_log demo_cd) [OpAppend demo_keyed])) = Inr s'
    \<and> plog_events_since s' 0 = [demo_keyed]"
proof -
  have r: "plog_run demo_cd (demo_log demo_cd) [OpAppend demo_keyed] = demo_log1 demo_keyed"
    by (simp add: plog_run_def demo_log1(1))
  have "plog_events_since (demo_log1 demo_keyed) 0 = [demo_keyed]"
    by (simp add: plog_events_since_drop demo_log1)
  then show ?thesis
    using plog_reopen_after_run [OF demo_log_open [of demo_cd], of "[OpAppend demo_keyed]"]
      demo_codec_on [of demo_keyed]
    by (auto simp: r demo_log1(5))
qed

theorem compact_preserves_reads_witness:
  "plog_events_since (snd (plog_compact io_ok demo_cd (demo_log1 demo_keyed) 1)) 1 = []"
  using compact_preserves_reads [of 1 "demo_log1 demo_keyed" 1 io_ok demo_cd]
  by (simp add: demo_log1 plog_events_since_drop)

lemma demo_compacted:
  "\<exists>s'. plog_compact io_ok demo_cd (demo_log1 demo_keyed) 1 = (Inr (), s') \<and> plog_log s' = [] \<and>
        pl_snapshot_offset s' = 1"
  using compact_io_ok [of demo_cd "demo_log1 demo_keyed" 1]
    plog_compact_frame [of 1 "demo_log1 demo_keyed" io_ok demo_cd]
  by (cases "plog_compact io_ok demo_cd (demo_log1 demo_keyed) 1") (simp add: demo_log1)

theorem compaction_forgets_keys_witness:
  "\<exists>s' s''. plog_compact io_ok demo_cd (demo_log1 demo_keyed) 1 = (Inr (), s') \<and>
    plog_append io_ok demo_cd s' demo_keyed = (Inr (), s') \<and>
    plog_open io_ok demo_cd ''log.jsonl'' (Some (pl_file s')) (pl_meta s') = Inr s'' \<and>
    plog_log (snd (plog_append io_ok demo_cd s'' demo_keyed)) = [demo_keyed]"
proof -
  obtain s' where c: "plog_compact io_ok demo_cd (demo_log1 demo_keyed) 1 = (Inr (), s')"
    "plog_log s' = []" "pl_snapshot_offset s' = 1" using demo_compacted by blast
  then show ?thesis
    using compaction_forgets_keys [OF demo_log1(6) c(1) _ demo_key _ _ demo_codec_on, of "''log.jsonl''"]
    by (auto simp: demo_log1)
qed

theorem concurrent_append_race_witness:
  "\<exists>c. (append_step (\<lambda>_. demo_keyed))\<^sup>*\<^sup>* tasks_init c \<and> log_keys (ml_events (at_log c)) = [''k'', ''k'']"
  using concurrent_append_race [of "\<lambda>_. demo_keyed" "''k''"] by auto

theorem failed_metadata_write_loses_appends_witness:
  "\<exists>r s' t s''. plog_compact (\<lambda>op. if op = WriteMeta then Some ''ENOSPC'' else None)
       (demo_codec demo_plain) (demo_log1 demo_plain) 1 = (r, s') \<and>
     plog_append io_ok (demo_codec demo_plain) s' demo_plain = (Inr (), t) \<and>
     plog_log t = [demo_plain] \<and>
     plog_open io_ok (demo_codec demo_plain) ''log.jsonl'' (Some (pl_file t)) (pl_meta t) = Inr s'' \<and>
     plog_log s'' = []"
proof -
  let ?io = "\<lambda>op. if op = WriteMeta then Some ''ENOSPC'' else None"
  let ?cd = "demo_codec demo_plain" and ?s = "demo_log1 demo_plain"
  obtain r s' where c: "plog_compact ?io ?cd ?s 1 = (r, s')" by fastforce
  obtain r' t where a: "plog_append io_ok ?cd s' demo_plain = (r', t)" by fastforce
  show ?thesis
    using failed_metadata_write_loses_appends [OF demo_log1(6) _ _ _ _ _ demo_codec_on _ c a,
        of "''ENOSPC''" "''log.jsonl''"] c a
    by (auto simp: demo_log1)
qed


theorem product_stores_isolated_witness:
  "product_events_since plog_events_since ''shop''
     (snd (product_append (plog_append io_ok demo_cd) ''blog'' (demo_log demo_cd) demo_keyed)) 0 = []"
  using product_stores_isolated [OF demo_log_ok [of demo_cd], where p = "''shop''" and q = "''blog''"
      and io = io_ok and cd = demo_cd and e = demo_keyed and n = 0]
  by (simp add: product_events_since_def plog_events_since_drop)

end
