(* ===== verification/Event_Router.thy ===== *)
theory Event_Router
  imports Event_Log
begin

text \<open>
  The event router of \<open>crates/picloud-events/src/router.rs\<close>: subscriptions from one product to the
  events of another, and their re-emission as \<open>SubscriptionEventRouted\<close> events. The router appends
  to some event log; its lemmas are proved once in the interface \<open>event_store\<close> and used through the
  interpretations on the two logs. Fresh identifiers and time stamps come from an argument \<open>fresh\<close>
  (one pair per routed event), the JSON encoding of the payload from an argument \<open>to_value\<close>.
\<close>

section \<open>State and payloads\<close>

record event_subscription =
  es_meta :: resource_meta
  es_source_product_iri :: resource_iri
  es_event_type :: string
  es_handler_name :: string

record registered_subscription =
  rs_subscription_iri :: resource_iri
  rs_source_product :: string
  rs_event_type :: string
  rs_subscriber_product :: string
  rs_handler_name :: string

record event_router =
  er_cluster_domain :: cluster_domain
  er_subscriptions :: "registered_subscription list"

record 'p routed_payload =
  rp_subscription_iri :: resource_iri
  rp_source_product :: string
  rp_subscriber_product :: string
  rp_handler_name :: string
  rp_original_event_type :: string
  rp_original_event_id :: uuid
  rp_original_payload :: 'p

record routed_event_info =
  ri_subscription_iri :: resource_iri
  ri_subscriber_product :: string
  ri_handler_name :: string

definition router_new :: "cluster_domain \<Rightarrow> event_router" where
  "router_new d = \<lparr>er_cluster_domain = d, er_subscriptions = []\<rparr>"

section \<open>Operations\<close>

text \<open>The text after the rightmost occurrence of a pattern: the first item of \<open>str::rsplit\<close>.\<close>

fun after_last :: "string \<Rightarrow> string \<Rightarrow> string option" where
  "after_last p [] = None"
| "after_last p (x # xs) =
     (case after_last p xs of
        Some r \<Rightarrow> Some r
      | None \<Rightarrow> if starts_with (x # xs) p then Some (drop (length p) (x # xs)) else None)"

definition rsplit_head :: "string \<Rightarrow> string \<Rightarrow> string" where
  "rsplit_head p s = (case after_last p s of Some r \<Rightarrow> r | None \<Rightarrow> s)"

definition extract_product_name :: "resource_iri \<Rightarrow> string" where
  "extract_product_name iri =
     (case split_on slash (rsplit_head ''/products/'' iri) of s # _ \<Rightarrow> s | [] \<Rightarrow> iri)"

definition register_subscription ::
  "event_router \<Rightarrow> event_subscription \<Rightarrow> unit result \<times> event_router" where
  "register_subscription r sub =
     (let source_product = extract_product_name (es_source_product_iri sub)
      in case rm_product (es_meta sub) of
           None \<Rightarrow> (Inl (EventRoutingFailed (rm_iri (es_meta sub))
                            ''EventSubscription must belong to a product''), r)
         | Some subscriber_product \<Rightarrow>
             (let registered =
                    \<lparr>rs_subscription_iri = rm_iri (es_meta sub),
                     rs_source_product = source_product,
                     rs_event_type = es_event_type sub,
                     rs_subscriber_product = subscriber_product,
                     rs_handler_name = es_handler_name sub\<rparr>
              in if list_ex (\<lambda>s. rs_subscription_iri s = rm_iri (es_meta sub)) (er_subscriptions r)
                 then (Inr (), r)
                 else (Inr (), r\<lparr>er_subscriptions := er_subscriptions r @ [registered]\<rparr>)))"

definition unregister_subscription ::
  "event_router \<Rightarrow> resource_iri \<Rightarrow> unit result \<times> event_router" where
  "unregister_subscription r iri =
     (let before = length (er_subscriptions r);
          subs = filter (\<lambda>s. rs_subscription_iri s \<noteq> iri) (er_subscriptions r);
          removed = before - length subs;
          r' = r\<lparr>er_subscriptions := subs\<rparr>
      in if removed = 0 then (Inl (ResourceNotFound iri), r') else (Inr (), r'))"

definition routed_payload_for ::
  "registered_subscription \<Rightarrow> 'p event_envelope \<Rightarrow> 'p routed_payload" where
  "routed_payload_for sub event =
     \<lparr>rp_subscription_iri = rs_subscription_iri sub,
      rp_source_product = rs_source_product sub,
      rp_subscriber_product = rs_subscriber_product sub,
      rp_handler_name = rs_handler_name sub,
      rp_original_event_type = ev_type event,
      rp_original_event_id = ev_id event,
      rp_original_payload = ev_payload event\<rparr>"

definition routed_event ::
  "cluster_domain \<Rightarrow> uuid \<times> timestamp \<Rightarrow> registered_subscription \<Rightarrow> 'p event_envelope \<Rightarrow> 'p
    \<Rightarrow> 'p event_envelope" where
  "routed_event d ut sub event payload =
     event_envelope_new (fst ut) (snd ut) (iri_event_schema d ''SubscriptionEventRouted'' 1)
       ''SubscriptionEventRouted'' (ev_source event) (Some (rs_subscriber_product sub))
       (ev_correlation_id event) payload"

definition routed_info :: "registered_subscription \<Rightarrow> routed_event_info" where
  "routed_info sub =
     \<lparr>ri_subscription_iri = rs_subscription_iri sub,
      ri_subscriber_product = rs_subscriber_product sub,
      ri_handler_name = rs_handler_name sub\<rparr>"

definition sub_matches :: "string \<Rightarrow> 'p event_envelope \<Rightarrow> registered_subscription \<Rightarrow> bool" where
  "sub_matches event_product event sub \<longleftrightarrow>
     rs_source_product sub = event_product \<and> rs_event_type sub = ev_type event"

text \<open>The loop over the subscriptions; \<open>routed\<close> holds what has been routed so far. An error
  leaves the events already appended in the log.\<close>

fun route_loop ::
  "('s \<Rightarrow> 'p event_envelope \<Rightarrow> unit result \<times> 's) \<Rightarrow> (uuid \<Rightarrow> string) \<Rightarrow> (nat \<Rightarrow> uuid \<times> timestamp)
   \<Rightarrow> ('p routed_payload \<Rightarrow> string + 'p) \<Rightarrow> cluster_domain \<Rightarrow> string \<Rightarrow> 'p event_envelope
   \<Rightarrow> registered_subscription list \<Rightarrow> routed_event_info list \<Rightarrow> 's
   \<Rightarrow> routed_event_info list result \<times> 's" where
  "route_loop app su fresh to_value d ep event [] routed s = (Inr routed, s)"
| "route_loop app su fresh to_value d ep event (sub # subs) routed s =
     (if sub_matches ep event sub
      then (case to_value (routed_payload_for sub event) of
              Inl e \<Rightarrow> (Inl (EventRoutingFailed (rs_subscription_iri sub)
                               (''failed to serialize routed payload: '' @ e)), s)
            | Inr payload \<Rightarrow>
                (case app s (routed_event d (fresh (length routed)) sub event payload) of
                   (Inl e, s') \<Rightarrow>
                     (Inl (EventRoutingFailed (rs_subscription_iri sub)
                            (''failed to append routed event: '' @ show_error su e)), s')
                 | (Inr _, s') \<Rightarrow>
                     route_loop app su fresh to_value d ep event subs (routed @ [routed_info sub]) s'))
      else route_loop app su fresh to_value d ep event subs routed s)"

definition route_event ::
  "('s \<Rightarrow> 'p event_envelope \<Rightarrow> unit result \<times> 's) \<Rightarrow> (uuid \<Rightarrow> string) \<Rightarrow> (nat \<Rightarrow> uuid \<times> timestamp)
   \<Rightarrow> ('p routed_payload \<Rightarrow> string + 'p) \<Rightarrow> event_router \<Rightarrow> 'p event_envelope \<Rightarrow> 's
   \<Rightarrow> routed_event_info list result \<times> 's" where
  "route_event app su fresh to_value r event s =
     (case ev_product event of
        None \<Rightarrow> (Inr [], s)
      | Some event_product \<Rightarrow>
          route_loop app su fresh to_value (er_cluster_domain r) event_product event
            (er_subscriptions r) [] s)"

text \<open>\<open>active_subscriptions\<close> returns the registered fields as they are.\<close>

definition active_subscriptions :: "event_router \<Rightarrow> registered_subscription list" where
  "active_subscriptions r = er_subscriptions r"

section \<open>Subscription names\<close>

lemma after_last_none: "slash \<notin> set s \<Longrightarrow> after_last (slash # p) s = None"
  by (induction s) (auto simp: starts_with_def)

lemma after_last_append:
  "after_last p s = Some r \<Longrightarrow> after_last p (t @ s) = Some r"
  by (induction t) auto

lemma after_last_pattern:
  assumes "slash \<notin> set n" "slash \<notin> set q"
  shows "after_last (slash # q @ [slash]) (t @ slash # q @ slash # n) = Some n"
proof -
  let ?p = "slash # q @ [slash]"
  have "after_last ?p (q @ slash # n) = None"
  proof -
    have tail: "after_last ?p (slash # n) = None"
      using assms(1) by (auto simp: after_last_none starts_with_iff)
    have "slash \<notin> set u \<Longrightarrow> after_last ?p (u @ slash # n) = None" for u
      by (induction u) (use tail in \<open>auto simp: starts_with_def\<close>)
    then show ?thesis using assms(2) by blast
  qed
  then have "after_last ?p (slash # q @ slash # n) = Some n"
    by (simp add: starts_with_def)
  then show ?thesis by (rule after_last_append)
qed

lemma extract_product_name_iri:
  assumes "slash \<notin> set n"
  shows "extract_product_name (iri_product d n) = n"
proof -
  have "after_last ''/products/'' (iri_product d n) = Some n"
    using after_last_pattern [OF assms, of "''products''" "''https://'' @ d"]
    by (simp add: iri_product_def)
  then show ?thesis
    by (simp add: extract_product_name_def rsplit_head_def split_on_none assms)
qed

section \<open>Registration\<close>

definition router_ok :: "event_router \<Rightarrow> bool" where
  "router_ok r \<longleftrightarrow> distinct (map rs_subscription_iri (er_subscriptions r))"

lemma router_ok_new [simp]: "router_ok (router_new d)"
  by (simp add: router_ok_def router_new_def)

lemma router_ok_register: "router_ok r \<Longrightarrow> router_ok (snd (register_subscription r sub))"
  by (auto simp: router_ok_def register_subscription_def Let_def list_ex_iff split: option.split)

lemma router_ok_unregister: "router_ok r \<Longrightarrow> router_ok (snd (unregister_subscription r iri))"
  by (simp add: router_ok_def unregister_subscription_def Let_def distinct_map_filter)

lemma unregister_result:
  "fst (unregister_subscription r iri) =
     (if iri \<in> rs_subscription_iri ` set (er_subscriptions r) then Inr () else Inl (ResourceNotFound iri))"
proof (cases "iri \<in> rs_subscription_iri ` set (er_subscriptions r)")
  case True
  then obtain x where "x \<in> set (er_subscriptions r)" "\<not> rs_subscription_iri x \<noteq> iri" by blast
  from length_filter_less [of x _ "\<lambda>s. rs_subscription_iri s \<noteq> iri", OF this] True
  show ?thesis by (simp add: unregister_subscription_def Let_def)
next
  case False
  then have "filter (\<lambda>s. rs_subscription_iri s \<noteq> iri) (er_subscriptions r) = er_subscriptions r"
    by (intro filter_True) blast
  with False show ?thesis by (simp add: unregister_subscription_def Let_def)
qed

section \<open>Routing on any event store\<close>

lemma routed_event_key [simp]: "ev_idempotency_key (routed_event d ut sub event p) = None"
  by (simp add: routed_event_def event_envelope_new_def)

lemma routed_event_fields [simp]:
  "ev_product (routed_event d ut sub event p) = Some (rs_subscriber_product sub)"
  "ev_type (routed_event d ut sub event p) = ''SubscriptionEventRouted''"
  "ev_payload (routed_event d ut sub event p) = p"
  "ev_correlation_id (routed_event d ut sub event p) = ev_correlation_id event"
  by (simp_all add: routed_event_def event_envelope_new_def)

text \<open>The events the loop emits for a list of matching subscriptions when all goes well.\<close>

fun emitted ::
  "(nat \<Rightarrow> uuid \<times> timestamp) \<Rightarrow> ('p routed_payload \<Rightarrow> string + 'p) \<Rightarrow> cluster_domain \<Rightarrow> 'p event_envelope
   \<Rightarrow> nat \<Rightarrow> registered_subscription list \<Rightarrow> 'p event_envelope list" where
  "emitted fresh tv d event n [] = []"
| "emitted fresh tv d event n (sub # subs) =
     routed_event d (fresh n) sub event (projr (tv (routed_payload_for sub event)))
       # emitted fresh tv d event (Suc n) subs"

lemma length_emitted [simp]: "length (emitted fresh tv d event n subs) = length subs"
  by (induction subs arbitrary: n) auto

context event_store
begin

lemma append_unkeyed:
  assumes "invar s" "ev_idempotency_key e = None" "append s e = (Inr (), s')"
  shows "log s' = log s @ [e]" "invar s'" "base s' = base s"
  using append_ok [OF assms(1) _ assms(3)] append_invar [OF assms(1), of e]
    append_base [OF assms(1), of e] assms(2,3) by simp_all

lemma route_loop_exact:
  assumes "invar s" and "\<And>s e. invar s \<Longrightarrow> fst (append s e) = Inr ()"
    and "\<And>sub. \<exists>p. tv (routed_payload_for sub event) = Inr p"
  shows "\<exists>s'. route_loop append su fresh tv d ep event subs routed s =
                 (Inr (routed @ map routed_info (filter (sub_matches ep event) subs)), s') \<and>
              invar s' \<and> base s' = base s \<and>
              log s' = log s @ emitted fresh tv d event (length routed) (filter (sub_matches ep event) subs)"
  using assms(1)
proof (induction subs arbitrary: routed s)
  case (Cons sub subs)
  show ?case
  proof (cases "sub_matches ep event sub")
    case True
    obtain p where p: "tv (routed_payload_for sub event) = Inr p" using assms(3) by blast
    let ?e = "routed_event d (fresh (length routed)) sub event p"
    obtain s1 where a: "append s ?e = (Inr (), s1)"
      using assms(2) [OF Cons.prems, of ?e] by (cases "append s ?e") simp
    have s1: "log s1 = log s @ [?e]" "invar s1" "base s1 = base s"
      using append_unkeyed [OF Cons.prems routed_event_key a] by auto
    from Cons.IH [OF s1(2), of "routed @ [routed_info sub]"] True p a s1 show ?thesis by auto
  next
    case False
    with Cons show ?thesis by simp
  qed
qed simp

text \<open>Errors included: what routing adds to the log is addressed to subscribers of the matching
  subscriptions and nothing else.\<close>

lemma route_loop_scoped:
  assumes "invar s" "route_loop append su fresh tv d ep event subs routed s = (r, s')"
  shows "invar s' \<and> base s' = base s \<and>
    (\<exists>new. log s' = log s @ new \<and>
      (\<forall>e \<in> set new. ev_type e = ''SubscriptionEventRouted'' \<and>
         (\<exists>sub \<in> set subs. sub_matches ep event sub \<and> ev_product e = Some (rs_subscriber_product sub))))"
  using assms
proof (induction subs arbitrary: routed s)
  case (Cons sub subs)
  show ?case
  proof (cases "sub_matches ep event sub")
    case False
    then have "route_loop append su fresh tv d ep event subs routed s = (r, s')"
      using Cons.prems(2) by simp
    from Cons.IH [OF Cons.prems(1) this] show ?thesis by auto
  next
    case m: True
    show ?thesis
    proof (cases "tv (routed_payload_for sub event)")
      case (Inl x)
      with m Cons.prems show ?thesis by simp
    next
      case (Inr p)
      let ?e = "routed_event d (fresh (length routed)) sub event p"
      obtain q s1 where a: "append s ?e = (q, s1)" by fastforce
      have i: "invar s1" "base s1 = base s"
        using append_invar [OF Cons.prems(1), of ?e] append_base [OF Cons.prems(1), of ?e] a by simp_all
      show ?thesis
      proof (cases q)
        case (Inl x)
        then have "s' = s1" using m Inr a Cons.prems(2) by simp
        with i Inl show ?thesis using append_err [OF Cons.prems(1)] a by auto
      next
        case (Inr u)
        have "route_loop append su fresh tv d ep event subs (routed @ [routed_info sub]) s1 = (r, s')"
          using m \<open>tv _ = Inr p\<close> a Inr Cons.prems(2) by simp
        from Cons.IH [OF i(1) this] obtain new where new: "log s' = log s1 @ new" "invar s'" "base s' = base s"
          "\<forall>e \<in> set new. ev_type e = ''SubscriptionEventRouted'' \<and>
             (\<exists>sub \<in> set subs. sub_matches ep event sub \<and> ev_product e = Some (rs_subscriber_product sub))"
          using i(2) by auto
        have "log s1 = log s @ [?e]"
          using append_unkeyed(1) [OF Cons.prems(1) routed_event_key] a Inr by auto
        with new m show ?thesis by (intro conjI exI [of _ "?e # new"]) auto
      qed
    qed
  qed
qed simp

end

section \<open>Properties\<close>


text \<open>Routing is hermetic, whatever I/O or serialisation fails: on the persistent log, a product
  that is not the subscriber of a matching subscription reads exactly the same events from its
  product store before and after an event is routed; an event without a product changes nothing.\<close>

theorem route_event_hermetic:
  assumes "plog_ok s" "route_event (plog_append io cd) su fresh tv r event s = (res, s')"
    and "\<And>p sub. ev_product event = Some p \<Longrightarrow> sub \<in> set (er_subscriptions r) \<Longrightarrow>
           sub_matches p event sub \<Longrightarrow> rs_subscriber_product sub \<noteq> q"
  shows "product_events_since plog_events_since q s' n = product_events_since plog_events_since q s n \<and>
         (ev_product event = None \<longrightarrow> s' = s)"
proof (cases "ev_product event")
  case None
  with assms(2) show ?thesis by (simp add: route_event_def)
next
  case (Some p)
  then have "route_loop (plog_append io cd) su fresh tv (er_cluster_domain r) p event (er_subscriptions r) [] s
      = (res, s')" using assms(2) by (simp add: route_event_def)
  from pl.route_loop_scoped [OF assms(1) this] obtain new where
    new: "plog_log s' = plog_log s @ new" "pl_snapshot_offset s' = pl_snapshot_offset s"
      "\<forall>e \<in> set new. \<exists>sub \<in> set (er_subscriptions r).
         sub_matches p event sub \<and> ev_product e = Some (rs_subscriber_product sub)" by auto
  have "filter (\<lambda>e. ev_product e = Some q) (drop k new) = []" for k
    using new(3) assms(3) [OF Some] by (auto simp: filter_empty_conv dest!: in_set_dropD)
  then show ?thesis
    using new Some by (simp add: product_events_since_def plog_events_since_drop drop_append)
qed

text \<open>End to end: once a product has registered a subscription to the IRI of another product
  (whose name has no slash) under an IRI not yet in use, an event of that product and type that is
  routed afterwards is found, re-emitted, in the subscriber's product store.\<close>

theorem subscriber_receives:
  assumes "slash \<notin> set src" "es_source_product_iri sub = iri_product d src"
    and "rm_product (es_meta sub) = Some q"
    and "rm_iri (es_meta sub) \<notin> rs_subscription_iri ` set (er_subscriptions r)"
    and "ev_product event = Some src" "ev_type event = es_event_type sub"
    and "mem_ok s" and tv: "\<And>x. \<exists>v. tv (routed_payload_for x event) = Inr v"
  shows "\<exists>infos s'. route_event mem_append su fresh tv (snd (register_subscription r sub)) event s = (Inr infos, s') \<and>
    rm_iri (es_meta sub) \<in> ri_subscription_iri ` set infos \<and>
    (\<exists>e \<in> set (product_events_since mem_events_since q s' 0). ev_type e = ''SubscriptionEventRouted'' \<and>
       ev_correlation_id e = ev_correlation_id event)"
proof -
  let ?r = "snd (register_subscription r sub)"
  let ?x = "\<lparr>rs_subscription_iri = rm_iri (es_meta sub), rs_source_product = src,
             rs_event_type = es_event_type sub, rs_subscriber_product = q,
             rs_handler_name = es_handler_name sub\<rparr>"
  have subs: "er_subscriptions ?r = er_subscriptions r @ [?x]"
    using assms(1-4)
    by (force simp: register_subscription_def Let_def extract_product_name_iri list_ex_iff)
  have m: "sub_matches src event ?x" using assms(6) by (simp add: sub_matches_def)
  let ?ms = "filter (sub_matches src event) (er_subscriptions r)"
  obtain s' where s': "route_event mem_append su fresh tv ?r event s = (Inr (map routed_info (?ms @ [?x])), s')"
    "ml_events s' = ml_events s @ emitted fresh tv (er_cluster_domain ?r) event 0 (?ms @ [?x])"
    using mem.route_loop_exact [where tv = tv and event = event and routed = "[]" and ep = src
      and d = "er_cluster_domain ?r" and subs = "er_subscriptions ?r" and su = su and fresh = fresh,
      OF assms(7) mem_append_simps(1) tv]
      assms(5) m by (auto simp: route_event_def subs)
  have last_emitted: "emitted fresh tv dd event n (ms @ [?x]) = emitted fresh tv dd event n ms @
      [routed_event dd (fresh (n + length ms)) ?x event (projr (tv (routed_payload_for ?x event)))]" for dd n ms
    by (induction ms arbitrary: n) auto
  show ?thesis
  proof (intro exI conjI)
    show "route_event mem_append su fresh tv ?r event s = (Inr (map routed_info (?ms @ [?x])), s')" by (fact s')
    show "rm_iri (es_meta sub) \<in> ri_subscription_iri ` set (map routed_info (?ms @ [?x]))"
      by (simp add: routed_info_def)
    show "\<exists>e \<in> set (product_events_since mem_events_since q s' 0). ev_type e = ''SubscriptionEventRouted'' \<and>
       ev_correlation_id e = ev_correlation_id event"
      by (intro bexI [of _ "routed_event (er_cluster_domain ?r) (fresh (length ?ms)) ?x event
            (projr (tv (routed_payload_for ?x event)))"])
        (simp_all add: product_events_since_def mem_events_since_drop s'(2) last_emitted)
  qed
qed

section \<open>Witnesses\<close>

definition demo_sub :: event_subscription where
  "demo_sub =
     \<lparr>es_meta = \<lparr>rm_iri = ''https://picloud.local/products/blog/event-subscriptions/s'',
        rm_resource_type = ''event-subscription'', rm_name = ''s'', rm_product = Some ''blog'',
        rm_status = Ready, rm_created_at = 0, rm_updated_at = 0, rm_tags = []\<rparr>,
      es_source_product_iri = iri_product ''picloud.local'' ''shop'',
      es_event_type = ''NodeJoined'', es_handler_name = ''h''\<rparr>"

abbreviation demo_router :: event_router where
  "demo_router \<equiv> snd (register_subscription (router_new ''picloud.local'') demo_sub)"

lemma demo_event_fields:
  "ev_product demo_keyed = Some ''shop''" "ev_type demo_keyed = ''NodeJoined''"
  by (simp_all add: demo_event_def with_idempotency_key_def event_envelope_new_def)


theorem route_event_hermetic_witness:
  "product_events_since plog_events_since ''wiki''
     (snd (route_event (plog_append io_ok demo_cd) (\<lambda>_. []) (\<lambda>n. (of_nat n, 0)) (\<lambda>_. Inl ''no json'')
        demo_router demo_keyed (demo_log demo_cd))) 0 = []"
proof -
  obtain res s' where r: "route_event (plog_append io_ok demo_cd) (\<lambda>_. []) (\<lambda>n. (of_nat n, 0)) (\<lambda>_. Inl ''no json'')
        demo_router demo_keyed (demo_log demo_cd) = (res, s')" by fastforce
  have "rs_subscriber_product sub \<noteq> ''wiki''" if "sub \<in> set (er_subscriptions demo_router)" for sub
    using that by (auto simp: register_subscription_def router_new_def demo_sub_def Let_def)
  with route_event_hermetic [OF demo_log_ok r, of "''wiki''" 0] r show ?thesis
    by (simp add: product_events_since_def plog_events_since_drop)
qed

theorem subscriber_receives_witness:
  "\<exists>infos s'. route_event mem_append (\<lambda>_. []) (\<lambda>n. (of_nat n, 0)) (\<lambda>_. Inr ()) demo_router demo_keyed
      (mem_with_capacity 4) = (Inr infos, s') \<and> infos \<noteq> []"
proof -
  have *: "slash \<notin> set ''shop''" "es_source_product_iri demo_sub = iri_product ''picloud.local'' ''shop''"
    "rm_product (es_meta demo_sub) = Some ''blog''"
    "rm_iri (es_meta demo_sub) \<notin> rs_subscription_iri ` set (er_subscriptions (router_new ''picloud.local''))"
    "ev_type demo_keyed = es_event_type demo_sub"
    by (simp_all add: demo_sub_def router_new_def demo_event_fields)
  show ?thesis
    using subscriber_receives [OF *(1-4) demo_event_fields(1) *(5) mem_ok_new, where tv = "\<lambda>_. Inr ()"]
    by fastforce
qed

end
