(* ===== verification/Raft_Store.thy ===== *)
theory Raft_Store
  imports Domain_Types "HOL-Library.List_Lexorder"
begin

text \<open>
  The Raft storage of \<open>crates/picloud-cluster/src/raft.rs\<close>: the in-memory and the sled-backed log
  stores, the in-memory and the sled-backed state machines, and the node identifiers. openraft's
  leader identifiers, votes and memberships are type parameters. A sled tree and the JSON codec are
  third-party code: records of functions passed as arguments, with \<open>sled_ok\<close> and \<open>json_ok\<close> stating
  what their documentation promises (an ordered map on byte strings; decoding inverts encoding).
  Indices are 64-bit words.
\<close>

section \<open>Data\<close>

record 'l log_id =
  li_leader :: 'l
  li_index :: u64

record client_request =
  event_json :: string

record client_response =
  resp_index :: u64

datatype 'm entry_payload = Blank | Normal client_request | Membership 'm

record ('l, 'm) entry =
  en_log_id :: "'l log_id"
  en_payload :: "'m entry_payload"

record ('l, 'm) stored_membership =
  stm_log_id :: "'l log_id option"
  stm_membership :: 'm

record 'l log_state =
  ls_last_purged_log_id :: "'l log_id option"
  ls_last_log_id :: "'l log_id option"

datatype bound = Included u64 | Excluded u64 | Unbounded

definition in_range :: "bound \<times> bound \<Rightarrow> u64 \<Rightarrow> bool" where
  "in_range r i \<longleftrightarrow>
     (case fst r of Included a \<Rightarrow> a \<le> i | Excluded a \<Rightarrow> a < i | Unbounded \<Rightarrow> True) \<and>
     (case snd r of Included b \<Rightarrow> i \<le> b | Excluded b \<Rightarrow> i < b | Unbounded \<Rightarrow> True)"

text \<open>\<open>BTreeMap::range\<close> panics on a range whose start lies after its end, and on an empty range
  with both ends excluded.\<close>

definition range_panics :: "bound \<times> bound \<Rightarrow> bool" where
  "range_panics r =
     (case r of
        (Excluded a, Excluded b) \<Rightarrow> b \<le> a
      | (Included a, Included b) \<Rightarrow> b < a
      | (Included a, Excluded b) \<Rightarrow> b < a
      | (Excluded a, Included b) \<Rightarrow> b < a
      | _ \<Rightarrow> False)"

section \<open>The in-memory log store\<close>

record ('l, 'm, 'v) mem_log_store =
  ms_last_purged_log_id :: "'l log_id option"
  ms_log :: "(u64 \<times> ('l, 'm) entry) list"
  ms_vote :: "'v option"
  ms_committed :: "'l log_id option"

definition ms_new :: "('l, 'm, 'v) mem_log_store" where
  "ms_new = \<lparr>ms_last_purged_log_id = None, ms_log = [], ms_vote = None, ms_committed = None\<rparr>"

text \<open>None stands for the panic of \<open>BTreeMap::range\<close>.\<close>

definition ms_try_get_log_entries ::
  "('l, 'm, 'v) mem_log_store \<Rightarrow> bound \<times> bound \<Rightarrow> ('l, 'm) entry list option" where
  "ms_try_get_log_entries s r =
     (if range_panics r then None
      else Some (map snd (filter (\<lambda>p. in_range r (fst p)) (ms_log s))))"

definition or_else :: "'a option \<Rightarrow> 'a option \<Rightarrow> 'a option" where
  "or_else a b = (case a of Some x \<Rightarrow> Some x | None \<Rightarrow> b)"

definition ms_get_log_state :: "('l, 'm, 'v) mem_log_store \<Rightarrow> 'l log_state" where
  "ms_get_log_state s =
     (let last_log_id = (if ms_log s = [] then None else Some (en_log_id (snd (last (ms_log s)))))
      in \<lparr>ls_last_purged_log_id = ms_last_purged_log_id s,
          ls_last_log_id = or_else last_log_id (ms_last_purged_log_id s)\<rparr>)"

definition ms_save_vote :: "('l, 'm, 'v) mem_log_store \<Rightarrow> 'v \<Rightarrow> ('l, 'm, 'v) mem_log_store" where
  "ms_save_vote s v = s\<lparr>ms_vote := Some v\<rparr>"

definition ms_read_vote :: "('l, 'm, 'v) mem_log_store \<Rightarrow> 'v option" where
  "ms_read_vote s = ms_vote s"

definition ms_save_committed ::
  "('l, 'm, 'v) mem_log_store \<Rightarrow> 'l log_id option \<Rightarrow> ('l, 'm, 'v) mem_log_store" where
  "ms_save_committed s c = s\<lparr>ms_committed := c\<rparr>"

definition ms_read_committed :: "('l, 'm, 'v) mem_log_store \<Rightarrow> 'l log_id option" where
  "ms_read_committed s = ms_committed s"

definition ms_append ::
  "('l, 'm, 'v) mem_log_store \<Rightarrow> ('l, 'm) entry list \<Rightarrow> ('l, 'm, 'v) mem_log_store" where
  "ms_append s entries =
     s\<lparr>ms_log := fold (\<lambda>e m. om_insert (li_index (en_log_id e)) e m) entries (ms_log s)\<rparr>"

text \<open>\<open>truncate\<close> and \<open>purge\<close> collect the keys of a range and remove them one by one.\<close>

definition ms_truncate ::
  "('l, 'm, 'v) mem_log_store \<Rightarrow> 'l log_id \<Rightarrow> ('l, 'm, 'v) mem_log_store" where
  "ms_truncate s l =
     (let keys = map fst (filter (\<lambda>p. in_range (Included (li_index l), Unbounded) (fst p)) (ms_log s))
      in s\<lparr>ms_log := fold om_remove keys (ms_log s)\<rparr>)"

definition ms_purge ::
  "('l, 'm, 'v) mem_log_store \<Rightarrow> 'l log_id \<Rightarrow> ('l, 'm, 'v) mem_log_store" where
  "ms_purge s l =
     (let keys = map fst (filter (\<lambda>p. in_range (Unbounded, Included (li_index l)) (fst p)) (ms_log s))
      in s\<lparr>ms_log := fold om_remove keys (ms_log s), ms_last_purged_log_id := Some l\<rparr>)"

section \<open>Keys of the sled-backed store\<close>

text \<open>\<open>u64::to_be_bytes\<close> and \<open>u64::from_be_bytes\<close>.\<close>

definition to_be_bytes :: "u64 \<Rightarrow> bytes" where
  "to_be_bytes w = map (\<lambda>i. ucast (drop_bit (8 * i) w)) [7, 6, 5, 4, 3, 2, 1, 0]"

definition from_be_bytes :: "bytes \<Rightarrow> u64" where
  "from_be_bytes bs = foldl (\<lambda>a b. a * 256 + ucast b) 0 bs"

definition index_key :: "u64 \<Rightarrow> bytes" where
  "index_key i = to_be_bytes i"

text \<open>The last eight of the sixteen big-endian bytes of a UUID.\<close>

definition uuid_as_bytes :: "uuid \<Rightarrow> bytes" where
  "uuid_as_bytes u = map (\<lambda>i. ucast (drop_bit (8 * i) u)) (rev [0..<16])"

definition node_id_from_uuid :: "uuid \<Rightarrow> u64" where
  "node_id_from_uuid u =
     (let bs = uuid_as_bytes u
      in from_be_bytes [bs ! 8, bs ! 9, bs ! 10, bs ! 11, bs ! 12, bs ! 13, bs ! 14, bs ! 15])"

section \<open>Third-party interfaces\<close>

text \<open>The calls on a \<open>sled::Tree\<close>; the left summand is the text of a \<open>sled::Error\<close>.\<close>

record 't sled =
  t_insert :: "bytes \<Rightarrow> bytes \<Rightarrow> 't \<Rightarrow> string + 't"
  t_remove :: "bytes \<Rightarrow> 't \<Rightarrow> string + 't"
  t_get :: "bytes \<Rightarrow> 't \<Rightarrow> string + bytes option"
  t_last :: "'t \<Rightarrow> string + (bytes \<times> bytes) option"
  t_iter :: "'t \<Rightarrow> (string + bytes \<times> bytes) list"
  t_range_from :: "bytes \<Rightarrow> 't \<Rightarrow> (string + bytes \<times> bytes) list"
  t_range_to :: "bytes \<Rightarrow> 't \<Rightarrow> (string + bytes \<times> bytes) list"
  t_flush :: "'t \<Rightarrow> string + unit"

record 'x json =
  to_vec :: "'x \<Rightarrow> string + bytes"
  from_slice :: "bytes \<Rightarrow> string + 'x"

record ('l, 'm, 'v) raft_json =
  js_entry :: "('l, 'm) entry json"
  js_log_id :: "'l log_id json"
  js_vote :: "'v json"

datatype storage_error = SledError string | JsonError string | SledPanic

definition lift_sled :: "string + 'a \<Rightarrow> storage_error + 'a" where
  "lift_sled r = (case r of Inl e \<Rightarrow> Inl (SledError e) | Inr a \<Rightarrow> Inr a)"

definition lift_json :: "string + 'a \<Rightarrow> storage_error + 'a" where
  "lift_json r = (case r of Inl e \<Rightarrow> Inl (JsonError e) | Inr a \<Rightarrow> Inr a)"

section \<open>The sled-backed log store\<close>

record 't sled_log_store =
  sl_log_tree :: 't
  sl_meta_tree :: 't

text \<open>The loop of \<open>try_get_log_entries\<close> over all pairs of the log tree.\<close>

fun sl_scan ::
  "('l, 'm) entry json \<Rightarrow> bound \<times> bound \<Rightarrow> (string + bytes \<times> bytes) list
   \<Rightarrow> storage_error + ('l, 'm) entry list" where
  "sl_scan js r [] = Inr []"
| "sl_scan js r (item # items) =
     and_then (lift_sled item) (\<lambda>(key_bytes, val).
       if length key_bytes = 8 \<and> in_range r (from_be_bytes key_bytes)
       then and_then (lift_json (from_slice js val)) (\<lambda>entry.
              and_then (sl_scan js r items) (\<lambda>entries. Inr (entry # entries)))
       else sl_scan js r items)"

definition sl_try_get_log_entries ::
  "'t sled \<Rightarrow> ('l, 'm, 'v) raft_json \<Rightarrow> 't sled_log_store \<Rightarrow> bound \<times> bound
   \<Rightarrow> storage_error + ('l, 'm) entry list" where
  "sl_try_get_log_entries ops js s r = sl_scan (js_entry js) r (t_iter ops (sl_log_tree s))"

text \<open>Reading an optional JSON value under a key.\<close>

definition get_json :: "'t sled \<Rightarrow> 'x json \<Rightarrow> bytes \<Rightarrow> 't \<Rightarrow> storage_error + 'x option" where
  "get_json ops js k t =
     and_then (lift_sled (t_get ops k t)) (\<lambda>v.
       case v of None \<Rightarrow> Inr None
       | Some b \<Rightarrow> and_then (lift_json (from_slice js b)) (\<lambda>x. Inr (Some x)))"

definition put_json :: "'t sled \<Rightarrow> 'x json \<Rightarrow> bytes \<Rightarrow> 'x \<Rightarrow> 't \<Rightarrow> storage_error + 't" where
  "put_json ops js k x t =
     and_then (lift_json (to_vec js x)) (\<lambda>v. lift_sled (t_insert ops k v t))"

text \<open>The decoding of the last entry is \<open>unwrap\<close>ped: a failure there is a panic.\<close>

definition sl_get_log_state ::
  "'t sled \<Rightarrow> ('l, 'm, 'v) raft_json \<Rightarrow> 't sled_log_store \<Rightarrow> storage_error + 'l log_state" where
  "sl_get_log_state ops js s =
     and_then (get_json ops (js_log_id js) (byte_str ''last_purged_log_id'') (sl_meta_tree s)) (\<lambda>last_purged.
     and_then (lift_sled (t_last ops (sl_log_tree s))) (\<lambda>kv.
     and_then (case kv of None \<Rightarrow> Inr None
               | Some (_, v) \<Rightarrow>
                   (case from_slice (js_entry js) v of
                      Inl _ \<Rightarrow> Inl SledPanic | Inr e \<Rightarrow> Inr (Some (en_log_id e)))) (\<lambda>last_log_id.
     Inr \<lparr>ls_last_purged_log_id = last_purged, ls_last_log_id = or_else last_log_id last_purged\<rparr>)))"

definition sl_save_vote ::
  "'t sled \<Rightarrow> ('l, 'm, 'v) raft_json \<Rightarrow> 't sled_log_store \<Rightarrow> 'v \<Rightarrow> storage_error + 't sled_log_store" where
  "sl_save_vote ops js s vote =
     and_then (put_json ops (js_vote js) (byte_str ''vote'') vote (sl_meta_tree s)) (\<lambda>t.
     and_then (lift_sled (t_flush ops t)) (\<lambda>_. Inr (s\<lparr>sl_meta_tree := t\<rparr>)))"

definition sl_read_vote ::
  "'t sled \<Rightarrow> ('l, 'm, 'v) raft_json \<Rightarrow> 't sled_log_store \<Rightarrow> storage_error + 'v option" where
  "sl_read_vote ops js s = get_json ops (js_vote js) (byte_str ''vote'') (sl_meta_tree s)"

definition sl_save_committed ::
  "'t sled \<Rightarrow> ('l, 'm, 'v) raft_json \<Rightarrow> 't sled_log_store \<Rightarrow> 'l log_id option
   \<Rightarrow> storage_error + 't sled_log_store" where
  "sl_save_committed ops js s committed =
     (case committed of
        Some c \<Rightarrow> and_then (put_json ops (js_log_id js) (byte_str ''committed'') c (sl_meta_tree s))
                    (\<lambda>t. Inr (s\<lparr>sl_meta_tree := t\<rparr>))
      | None \<Rightarrow> and_then (lift_sled (t_remove ops (byte_str ''committed'') (sl_meta_tree s)))
                  (\<lambda>t. Inr (s\<lparr>sl_meta_tree := t\<rparr>)))"

definition sl_read_committed ::
  "'t sled \<Rightarrow> ('l, 'm, 'v) raft_json \<Rightarrow> 't sled_log_store \<Rightarrow> storage_error + 'l log_id option" where
  "sl_read_committed ops js s = get_json ops (js_log_id js) (byte_str ''committed'') (sl_meta_tree s)"

text \<open>\<open>append\<close>: the flush that follows runs in a background task and only reports to the callback.\<close>

fun sl_insert_all ::
  "'t sled \<Rightarrow> ('l, 'm) entry json \<Rightarrow> ('l, 'm) entry list \<Rightarrow> 't \<Rightarrow> storage_error + 't" where
  "sl_insert_all ops js [] t = Inr t"
| "sl_insert_all ops js (e # es) t =
     and_then (put_json ops js (index_key (li_index (en_log_id e))) e t) (sl_insert_all ops js es)"

definition sl_append ::
  "'t sled \<Rightarrow> ('l, 'm, 'v) raft_json \<Rightarrow> 't sled_log_store \<Rightarrow> ('l, 'm) entry list
   \<Rightarrow> storage_error + 't sled_log_store" where
  "sl_append ops js s entries =
     and_then (sl_insert_all ops (js_entry js) entries (sl_log_tree s)) (\<lambda>t. Inr (s\<lparr>sl_log_tree := t\<rparr>))"

fun sl_remove_all :: "'t sled \<Rightarrow> bytes list \<Rightarrow> 't \<Rightarrow> storage_error + 't" where
  "sl_remove_all ops [] t = Inr t"
| "sl_remove_all ops (k # ks) t = and_then (lift_sled (t_remove ops k t)) (sl_remove_all ops ks)"

text \<open>\<open>filter_map(|r| r.ok().map(|(k, _)| k))\<close>: read errors are skipped.\<close>

definition ok_keys :: "(string + bytes \<times> bytes) list \<Rightarrow> bytes list" where
  "ok_keys items = List.map_filter (\<lambda>i. case i of Inl _ \<Rightarrow> None | Inr (k, _) \<Rightarrow> Some k) items"

definition sl_truncate ::
  "'t sled \<Rightarrow> 't sled_log_store \<Rightarrow> 'l log_id \<Rightarrow> storage_error + 't sled_log_store" where
  "sl_truncate ops s l =
     (let keys = ok_keys (t_range_from ops (index_key (li_index l)) (sl_log_tree s))
      in and_then (sl_remove_all ops keys (sl_log_tree s)) (\<lambda>t. Inr (s\<lparr>sl_log_tree := t\<rparr>)))"

definition sl_purge ::
  "'t sled \<Rightarrow> ('l, 'm, 'v) raft_json \<Rightarrow> 't sled_log_store \<Rightarrow> 'l log_id
   \<Rightarrow> storage_error + 't sled_log_store" where
  "sl_purge ops js s l =
     (let keys = ok_keys (t_range_to ops (index_key (li_index l)) (sl_log_tree s))
      in and_then (sl_remove_all ops keys (sl_log_tree s)) (\<lambda>t.
         and_then (put_json ops (js_log_id js) (byte_str ''last_purged_log_id'') l (sl_meta_tree s)) (\<lambda>u.
         Inr (s\<lparr>sl_log_tree := t, sl_meta_tree := u\<rparr>))))"

section \<open>Big-endian keys are ordered as the indices are\<close>

definition be_val :: "bytes \<Rightarrow> nat" where
  "be_val bs = foldl (\<lambda>a b. a * 256 + unat b) 0 bs"

lemma be_val_acc: "foldl (\<lambda>a b. a * 256 + unat b) a bs = a * 256 ^ length bs + be_val bs"
proof (induction bs arbitrary: a)
  case (Cons b bs)
  have "foldl (\<lambda>a b. a * 256 + unat b) (unat b) bs = unat b * 256 ^ length bs + be_val bs"
    by (rule Cons)
  with Cons [of "a * 256 + unat b"] show ?case by (simp add: be_val_def algebra_simps)
qed (simp add: be_val_def)

lemma be_val_Cons [simp]: "be_val (b # bs) = unat b * 256 ^ length bs + be_val bs"
  using be_val_acc [of "unat b" bs] by (simp add: be_val_def)

lemma be_val_Nil [simp]: "be_val [] = 0"
  by (simp add: be_val_def)

lemma unat_byte_less: "unat (b :: u8) < 256"
  using unsigned_less [of b, where ?'a = nat] by simp

lemma be_val_less: "be_val bs < 256 ^ length bs"
proof (induction bs)
  case (Cons b bs)
  have "unat b * 256 ^ length bs + be_val bs < (unat b + 1) * 256 ^ length bs"
    using Cons by (simp add: algebra_simps)
  also have "\<dots> \<le> 256 * 256 ^ length bs"
    using unat_byte_less [of b] by (intro mult_le_mono1) linarith
  finally show ?case by simp
qed simp

lemma lex_less_be_val:
  "length bs = length cs \<Longrightarrow> bs < cs \<longleftrightarrow> be_val bs < be_val cs"
proof (induction bs cs rule: list_induct2)
  case (Cons b bs c cs)
  have carry: "unat x * 256 ^ length bs + be_val xs < unat y * 256 ^ length bs + be_val ys"
    if "unat x < unat y" "length xs = length bs" for x y :: u8 and xs ys
  proof -
    have "unat x * 256 ^ length bs + be_val xs < (unat x + 1) * 256 ^ length bs"
      using be_val_less [of xs] that(2) by (simp add: algebra_simps)
    also have "\<dots> \<le> unat y * 256 ^ length bs" using that(1) by (intro mult_le_mono1) simp
    finally show ?thesis by simp
  qed
  consider "unat b < unat c" | "b = c" | "unat c < unat b"
    by (metis linorder_neqE_nat word_unat_eq_iff)
  then show ?case
  proof cases
    case 1
    with carry [OF 1, of bs cs] Cons.hyps show ?thesis by (simp add: word_less_nat_alt)
  next
    case 2
    with Cons show ?thesis by simp
  next
    case 3
    with carry [OF 3, of cs bs] Cons.hyps show ?thesis by (auto simp: word_less_nat_alt)
  qed
qed simp

lemma length_to_be_bytes [simp]: "length (to_be_bytes w) = 8"
  by (simp add: to_be_bytes_def)

lemma unat_byte_at: "unat (ucast (drop_bit n w) :: u8) = unat (w :: 'a::len word) div 2 ^ n mod 256"
  by (simp add: unsigned_ucast_eq take_bit_eq_mod unat_drop_bit_eq) (simp add: drop_bit_eq_div)

lemma div_step: "(n::nat) div (256 * k) * 256 + n div k mod 256 = n div k"
proof -
  have "n div (256 * k) = n div k div 256" by (simp add: mult.commute [of 256] div_mult2_eq)
  then show ?thesis by simp
qed

lemma be_val_to_be_bytes: "be_val (to_be_bytes w) = unat w"
proof -
  let ?n = "unat w"
  have "?n < 2 ^ 64" using unsigned_less [of w, where ?'a = nat] by simp
  then have z: "?n div 2 ^ 64 = 0" by simp
  have step: "?n div 2 ^ (8 * Suc i) * 256 + ?n div 2 ^ (8 * i) mod 256 = ?n div 2 ^ (8 * i)" for i
    using div_step [of ?n "2 ^ (8 * i)"] by (simp add: power_add)
  have "be_val (to_be_bytes w) = foldl (\<lambda>a b. a * 256 + unat b) 0 (to_be_bytes w)"
    by (simp add: be_val_def)
  also have "\<dots> = ?n"
    using step [of 7] step [of 6] step [of 5] step [of 4] step [of 3] step [of 2] step [of 1] step [of 0] z
      unat_byte_at [of 0 w]
    by (simp add: to_be_bytes_def unat_byte_at)
  finally show ?thesis .
qed

lemma index_key_less: "index_key i < index_key j \<longleftrightarrow> i < j"
  by (simp add: index_key_def lex_less_be_val be_val_to_be_bytes word_less_nat_alt)

lemma index_key_inj [simp]: "index_key i = index_key j \<longleftrightarrow> i = j"
  by (metis index_key_less linorder_less_linear order_less_irrefl)

lemma index_key_le: "index_key i \<le> index_key j \<longleftrightarrow> i \<le> j"
  by (simp add: order_le_less index_key_less)

lemma from_be_bytes_val: "from_be_bytes bs = of_nat (be_val bs)"
proof -
  have "foldl (\<lambda>a b. a * 256 + ucast b) (of_nat n) bs = (of_nat (foldl (\<lambda>a b. a * 256 + unat b) n bs) :: u64)" for n
  proof (induction bs arbitrary: n)
    case (Cons b bs)
    have eq: "of_nat n * 256 + ucast b = (of_nat (n * 256 + unat b) :: u64)"
      by simp
    show ?case by (simp only: foldl_Cons eq Cons)
  qed simp
  from this [of 0] show ?thesis by (simp add: from_be_bytes_def be_val_def)
qed

lemma from_to_be_bytes [simp]: "from_be_bytes (index_key i) = i"
  by (simp add: from_be_bytes_val index_key_def be_val_to_be_bytes)

section \<open>The sled-backed store implements the in-memory store\<close>

text \<open>What sled documents of a tree without I/O errors: an ordered map from byte strings to byte
  strings, iterated in key order. \<open>ok\<close> singles out the well-formed trees and \<open>view\<close> lists one.\<close>

definition sled_ok :: "'t sled \<Rightarrow> ('t \<Rightarrow> bool) \<Rightarrow> ('t \<Rightarrow> (bytes \<times> bytes) list) \<Rightarrow> bool" where
  "sled_ok ops ok view \<longleftrightarrow> (\<forall>t. ok t \<longrightarrow>
     om_ok (view t) \<and>
     (\<forall>k v. \<exists>t'. t_insert ops k v t = Inr t' \<and> ok t' \<and> view t' = om_insert k v (view t)) \<and>
     (\<forall>k. \<exists>t'. t_remove ops k t = Inr t' \<and> ok t' \<and> view t' = om_remove k (view t)) \<and>
     (\<forall>k. t_get ops k t = Inr (map_of (view t) k)) \<and>
     t_last ops t = Inr (if view t = [] then None else Some (last (view t))) \<and>
     t_iter ops t = map Inr (view t) \<and>
     (\<forall>k. t_range_from ops k t = map Inr (filter (\<lambda>p. k \<le> fst p) (view t))) \<and>
     (\<forall>k. t_range_to ops k t = map Inr (filter (\<lambda>p. fst p \<le> k) (view t))) \<and>
     t_flush ops t = Inr ())"

definition json_ok :: "'x json \<Rightarrow> bool" where
  "json_ok js \<longleftrightarrow> (\<forall>x. \<exists>b. to_vec js x = Inr b \<and> from_slice js b = Inr x)"

definition raft_json_ok :: "('l, 'm, 'v) raft_json \<Rightarrow> bool" where
  "raft_json_ok js \<longleftrightarrow> json_ok (js_entry js) \<and> json_ok (js_log_id js) \<and> json_ok (js_vote js)"

definition enc :: "'x json \<Rightarrow> 'x \<Rightarrow> bytes" where
  "enc js x = projr (to_vec js x)"

lemma json_okD:
  assumes "json_ok js"
  shows "to_vec js x = Inr (enc js x)" "from_slice js (enc js x) = Inr x"
  using assms unfolding json_ok_def enc_def by (metis sum.sel(2))+

lemma lift_simps [simp]:
  "lift_sled (Inr a) = Inr a" "lift_json (Inr a) = Inr a"
  "lift_sled (Inl e) = Inl (SledError e)" "lift_json (Inl e) = Inl (JsonError e)"
  by (simp_all add: lift_sled_def lift_json_def)

lemma sled_okD:
  assumes "sled_ok ops ok view" "ok t"
  shows "om_ok (view t)" "t_get ops k t = Inr (map_of (view t) k)"
    "t_last ops t = Inr (if view t = [] then None else Some (last (view t)))"
    "t_iter ops t = map Inr (view t)"
    "t_range_from ops k t = map Inr (filter (\<lambda>p. k \<le> fst p) (view t))"
    "t_range_to ops k t = map Inr (filter (\<lambda>p. fst p \<le> k) (view t))"
    "t_flush ops t = Inr ()"
  using assms by (simp_all add: sled_ok_def)

lemma sled_insert:
  assumes "sled_ok ops ok view" "ok t"
  obtains t' where "t_insert ops k v t = Inr t'" "ok t'" "view t' = om_insert k v (view t)"
  using assms unfolding sled_ok_def by blast

lemma sled_remove:
  assumes "sled_ok ops ok view" "ok t"
  obtains t' where "t_remove ops k t = Inr t'" "ok t'" "view t' = om_remove k (view t)"
  using assms unfolding sled_ok_def by blast

lemma put_json_ok:
  assumes "sled_ok ops ok view" "ok t" "json_ok js"
  obtains t' where "put_json ops js k x t = Inr t'" "ok t'" "view t' = om_insert k (enc js x) (view t)"
proof -
  obtain t' where "t_insert ops k (enc js x) t = Inr t'" "ok t'" "view t' = om_insert k (enc js x) (view t)"
    using sled_insert [OF assms(1,2)] by blast
  with assms(3) show thesis by (intro that [of t']) (simp_all add: put_json_def json_okD)
qed

lemma get_json_ok:
  assumes "sled_ok ops ok view" "ok t" "json_ok js"
    and "map_of (view t) k = map_option (enc js) v"
  shows "get_json ops js k t = Inr v"
  using assms by (cases v) (simp_all add: get_json_def sled_okD json_okD)

subsection \<open>Encoded logs\<close>

abbreviation enc_pair :: "('l, 'm) entry json \<Rightarrow> u64 \<times> ('l, 'm) entry \<Rightarrow> bytes \<times> bytes" where
  "enc_pair js \<equiv> \<lambda>p. (index_key (fst p), enc js (snd p))"

lemma om_insert_enc:
  "om_insert (index_key k) (enc js e) (map (enc_pair js) l) = map (enc_pair js) (om_insert k e l)"
  by (induction l) (auto simp: index_key_less)

lemma om_remove_enc:
  "om_remove (index_key k) (map (enc_pair js) l) = map (enc_pair js) (om_remove k l)"
  by (induction l) (auto simp: om_remove_def)

lemma fold_om_remove: "fold om_remove ks m = filter (\<lambda>p. fst p \<notin> set ks) m"
  by (induction ks arbitrary: m) (auto simp: om_remove_def conj_commute intro: filter_cong)

lemma ok_keys_Inr [simp]: "ok_keys (map Inr l) = map fst l"
  by (induction l) (auto simp: ok_keys_def List.map_filter_def)

lemma sl_remove_all_ok:
  assumes "sled_ok ops ok view"
  shows "ok t \<Longrightarrow> view t = map (enc_pair js) l \<Longrightarrow>
    \<exists>t'. sl_remove_all ops (map index_key ks) t = Inr t' \<and> ok t' \<and>
         view t' = map (enc_pair js) (fold om_remove ks l)"
proof (induction ks arbitrary: t l)
  case (Cons k ks)
  obtain u where u: "t_remove ops (index_key k) t = Inr u" "ok u" "view u = om_remove (index_key k) (view t)"
    using sled_remove [OF assms Cons.prems(1)] by blast
  then show ?case using Cons.IH [OF u(2), of "om_remove k l"] Cons.prems(2)
    by (simp add: om_remove_enc)
qed simp

lemma sl_insert_all_ok:
  assumes "sled_ok ops ok view" "json_ok js"
  shows "ok t \<Longrightarrow> view t = map (enc_pair js) l \<Longrightarrow>
    \<exists>t'. sl_insert_all ops js es t = Inr t' \<and> ok t' \<and>
         view t' = map (enc_pair js) (fold (\<lambda>e m. om_insert (li_index (en_log_id e)) e m) es l)"
proof (induction es arbitrary: t l)
  case (Cons e es)
  let ?k = "li_index (en_log_id e)"
  obtain u where u: "put_json ops js (index_key ?k) e t = Inr u" "ok u"
    "view u = om_insert (index_key ?k) (enc js e) (view t)"
    using put_json_ok [OF assms(1) Cons.prems(1) assms(2)] by blast
  then show ?case using Cons.IH [OF u(2), of "om_insert ?k e l"] Cons.prems(2)
    by (simp add: om_insert_enc)
qed simp

lemma sl_scan_ok:
  "json_ok js \<Longrightarrow> sl_scan js r (map Inr (map (enc_pair js) l)) =
     Inr (map snd (filter (\<lambda>p. in_range r (fst p)) l))"
  by (induction l) (simp_all add: json_okD index_key_def [symmetric] length_to_be_bytes [folded index_key_def])

subsection \<open>The simulation\<close>

datatype ('l, 'm, 'v) log_op =
    LAppend "('l, 'm) entry list"
  | LTruncate "'l log_id"
  | LPurge "'l log_id"
  | LSaveVote 'v
  | LSaveCommitted "'l log_id option"

fun ms_step :: "('l, 'm, 'v) mem_log_store \<Rightarrow> ('l, 'm, 'v) log_op \<Rightarrow> ('l, 'm, 'v) mem_log_store" where
  "ms_step s (LAppend es) = ms_append s es"
| "ms_step s (LTruncate l) = ms_truncate s l"
| "ms_step s (LPurge l) = ms_purge s l"
| "ms_step s (LSaveVote v) = ms_save_vote s v"
| "ms_step s (LSaveCommitted c) = ms_save_committed s c"

fun sl_step ::
  "'t sled \<Rightarrow> ('l, 'm, 'v) raft_json \<Rightarrow> 't sled_log_store \<Rightarrow> ('l, 'm, 'v) log_op
   \<Rightarrow> storage_error + 't sled_log_store" where
  "sl_step ops js s (LAppend es) = sl_append ops js s es"
| "sl_step ops js s (LTruncate l) = sl_truncate ops s l"
| "sl_step ops js s (LPurge l) = sl_purge ops js s l"
| "sl_step ops js s (LSaveVote v) = sl_save_vote ops js s v"
| "sl_step ops js s (LSaveCommitted c) = sl_save_committed ops js s c"

fun sl_run ::
  "'t sled \<Rightarrow> ('l, 'm, 'v) raft_json \<Rightarrow> 't sled_log_store \<Rightarrow> ('l, 'm, 'v) log_op list
   \<Rightarrow> storage_error + 't sled_log_store" where
  "sl_run ops js s [] = Inr s"
| "sl_run ops js s (x # xs) = and_then (sl_step ops js s x) (\<lambda>s'. sl_run ops js s' xs)"

definition store_rel ::
  "('t \<Rightarrow> bool) \<Rightarrow> ('t \<Rightarrow> (bytes \<times> bytes) list) \<Rightarrow> ('l, 'm, 'v) raft_json
   \<Rightarrow> 't sled_log_store \<Rightarrow> ('l, 'm, 'v) mem_log_store \<Rightarrow> bool" where
  "store_rel ok view js s m \<longleftrightarrow>
     ok (sl_log_tree s) \<and> ok (sl_meta_tree s) \<and>
     view (sl_log_tree s) = map (enc_pair (js_entry js)) (ms_log m) \<and>
     map_of (view (sl_meta_tree s)) (byte_str ''vote'') = map_option (enc (js_vote js)) (ms_vote m) \<and>
     map_of (view (sl_meta_tree s)) (byte_str ''committed'') = map_option (enc (js_log_id js)) (ms_committed m) \<and>
     map_of (view (sl_meta_tree s)) (byte_str ''last_purged_log_id'') =
       map_option (enc (js_log_id js)) (ms_last_purged_log_id m)"

lemma meta_keys_distinct [simp]:
  "byte_str ''vote'' \<noteq> byte_str ''committed''" "byte_str ''committed'' \<noteq> byte_str ''vote''"
  "byte_str ''vote'' \<noteq> byte_str ''last_purged_log_id''" "byte_str ''last_purged_log_id'' \<noteq> byte_str ''vote''"
  "byte_str ''committed'' \<noteq> byte_str ''last_purged_log_id''"
  "byte_str ''last_purged_log_id'' \<noteq> byte_str ''committed''"
  by (simp_all add: byte_str_def)

lemma enc_range:
  "map fst (filter (\<lambda>p. index_key i \<le> fst p) (map (enc_pair js) l)) =
     map index_key (map fst (filter (\<lambda>p. in_range (Included i, Unbounded) (fst p)) l))"
  "map fst (filter (\<lambda>p. fst p \<le> index_key i) (map (enc_pair js) l)) =
     map index_key (map fst (filter (\<lambda>p. in_range (Unbounded, Included i) (fst p)) l))"
  by (induction l) (auto simp: index_key_le in_range_def)

lemma sl_step_sim:
  assumes "sled_ok ops ok view" "raft_json_ok js" "store_rel ok view js s m"
  shows "\<exists>s'. sl_step ops js s x = Inr s' \<and> store_rel ok view js s' (ms_step m x)"
proof -
  have j: "json_ok (js_entry js)" "json_ok (js_log_id js)" "json_ok (js_vote js)"
    using assms(2) by (simp_all add: raft_json_ok_def)
  have r: "ok (sl_log_tree s)" "ok (sl_meta_tree s)"
    "view (sl_log_tree s) = map (enc_pair (js_entry js)) (ms_log m)"
    using assms(3) by (simp_all add: store_rel_def)
  show ?thesis
  proof (cases x)
    case (LAppend es)
    then show ?thesis using sl_insert_all_ok [OF assms(1) j(1) r(1,3), of es] assms(3)
      by (auto simp: sl_append_def ms_append_def store_rel_def)
  next
    case (LTruncate l)
    obtain t where "sl_remove_all ops (ok_keys (t_range_from ops (index_key (li_index l)) (sl_log_tree s)))
        (sl_log_tree s) = Inr t" "ok t" "view t = map (enc_pair (js_entry js)) (ms_log (ms_truncate m l))"
      using sl_remove_all_ok [OF assms(1) r(1,3)]
      by (auto simp: sled_okD [OF assms(1) r(1)] r(3) enc_range ms_truncate_def Let_def simp del: map_map)
    then show ?thesis using LTruncate assms(3)
      by (auto simp: sl_truncate_def store_rel_def ms_truncate_def Let_def)
  next
    case (LPurge l)
    obtain t where t: "sl_remove_all ops (ok_keys (t_range_to ops (index_key (li_index l)) (sl_log_tree s)))
        (sl_log_tree s) = Inr t" "ok t" "view t = map (enc_pair (js_entry js)) (ms_log (ms_purge m l))"
      using sl_remove_all_ok [OF assms(1) r(1,3)]
      by (auto simp: sled_okD [OF assms(1) r(1)] r(3) enc_range ms_purge_def Let_def simp del: map_map)
    obtain u where "put_json ops (js_log_id js) (byte_str ''last_purged_log_id'') l (sl_meta_tree s) = Inr u"
      "ok u" "view u = om_insert (byte_str ''last_purged_log_id'') (enc (js_log_id js) l) (view (sl_meta_tree s))"
      using put_json_ok [OF assms(1) r(2) j(2)] by blast
    with t show ?thesis using LPurge assms(3)
      by (auto simp: sl_purge_def store_rel_def ms_purge_def Let_def map_of_om_insert)
  next
    case (LSaveVote v)
    obtain u where "put_json ops (js_vote js) (byte_str ''vote'') v (sl_meta_tree s) = Inr u"
      "ok u" "view u = om_insert (byte_str ''vote'') (enc (js_vote js) v) (view (sl_meta_tree s))"
      using put_json_ok [OF assms(1) r(2) j(3)] by blast
    then show ?thesis using LSaveVote assms(3) sled_okD(7) [OF assms(1), of u]
      by (auto simp: sl_save_vote_def store_rel_def ms_save_vote_def map_of_om_insert)
  next
    case (LSaveCommitted c)
    show ?thesis
    proof (cases c)
      case None
      obtain u where "t_remove ops (byte_str ''committed'') (sl_meta_tree s) = Inr u" "ok u"
        "view u = om_remove (byte_str ''committed'') (view (sl_meta_tree s))"
        using sled_remove [OF assms(1) r(2)] by blast
      then show ?thesis using LSaveCommitted None assms(3)
        by (auto simp: sl_save_committed_def store_rel_def ms_save_committed_def map_of_om_remove)
    next
      case (Some l)
      obtain u where "put_json ops (js_log_id js) (byte_str ''committed'') l (sl_meta_tree s) = Inr u"
        "ok u" "view u = om_insert (byte_str ''committed'') (enc (js_log_id js) l) (view (sl_meta_tree s))"
        using put_json_ok [OF assms(1) r(2) j(2)] by blast
      then show ?thesis using LSaveCommitted Some assms(3)
        by (auto simp: sl_save_committed_def store_rel_def ms_save_committed_def map_of_om_insert)
    qed
  qed
qed

lemma sl_run_sim:
  assumes "sled_ok ops ok view" "raft_json_ok js"
  shows "store_rel ok view js s m \<Longrightarrow>
    \<exists>s'. sl_run ops js s xs = Inr s' \<and> store_rel ok view js s' (foldl ms_step m xs)"
proof (induction xs arbitrary: s m)
  case (Cons x xs)
  obtain u where u: "sl_step ops js s x = Inr u" "store_rel ok view js u (ms_step m x)"
    using sl_step_sim [OF assms Cons.prems] by blast
  with Cons.IH [OF u(2)] show ?case by simp
qed simp

lemma store_rel_reads:
  assumes "sled_ok ops ok view" "raft_json_ok js" "store_rel ok view js s m"
  shows "sl_get_log_state ops js s = Inr (ms_get_log_state m)"
    "sl_read_vote ops js s = Inr (ms_read_vote m)"
    "sl_read_committed ops js s = Inr (ms_read_committed m)"
    "ms_try_get_log_entries m r = Some es \<Longrightarrow> sl_try_get_log_entries ops js s r = Inr es"
proof -
  have j: "json_ok (js_entry js)" "json_ok (js_log_id js)" "json_ok (js_vote js)"
    using assms(2) by (simp_all add: raft_json_ok_def)
  have r: "ok (sl_log_tree s)" "ok (sl_meta_tree s)"
    "view (sl_log_tree s) = map (enc_pair (js_entry js)) (ms_log m)"
    "map_of (view (sl_meta_tree s)) (byte_str ''vote'') = map_option (enc (js_vote js)) (ms_vote m)"
    "map_of (view (sl_meta_tree s)) (byte_str ''committed'') = map_option (enc (js_log_id js)) (ms_committed m)"
    "map_of (view (sl_meta_tree s)) (byte_str ''last_purged_log_id'') =
       map_option (enc (js_log_id js)) (ms_last_purged_log_id m)"
    using assms(3) by (simp_all add: store_rel_def)
  note get = get_json_ok [OF assms(1) r(2)]
  show "sl_read_vote ops js s = Inr (ms_read_vote m)"
    using get [OF j(3) r(4)] by (simp add: sl_read_vote_def ms_read_vote_def)
  show "sl_read_committed ops js s = Inr (ms_read_committed m)"
    using get [OF j(2) r(5)] by (simp add: sl_read_committed_def ms_read_committed_def)
  show "sl_get_log_state ops js s = Inr (ms_get_log_state m)"
    using get [OF j(2) r(6)]
    by (cases "ms_log m = []")
      (simp_all add: sl_get_log_state_def ms_get_log_state_def sled_okD [OF assms(1) r(1)] r(3) json_okD [OF j(1)]
        last_map split_beta)
  show "ms_try_get_log_entries m r = Some es \<Longrightarrow> sl_try_get_log_entries ops js s r = Inr es"
    using sl_scan_ok [OF j(1), of r "ms_log m"]
    by (auto simp: ms_try_get_log_entries_def sl_try_get_log_entries_def sled_okD [OF assms(1) r(1)] r(3)
        simp del: map_map split: if_splits)
qed

section \<open>The contract of a log store\<close>

lemma find_append_option:
  "find P (xs @ ys) = (case find P xs of Some x \<Rightarrow> Some x | None \<Rightarrow> find P ys)"
  by (induction xs) auto

lemma find_SomeD: "find P xs = Some x \<Longrightarrow> x \<in> set xs \<and> P x"
  by (induction xs) (auto split: if_splits)

lemma find_rev_distinct: "distinct (map k xs) \<Longrightarrow> find (\<lambda>x. k x = i) (rev xs) = find (\<lambda>x. k x = i) xs"
proof (induction xs)
  case (Cons a xs)
  have "find (\<lambda>x. k x = i) xs = None" if "k a = i"
    using that Cons.prems by (auto simp: find_None_iff image_iff)
  with Cons show ?case by (auto simp: find_append_option split: option.splits)
qed simp

text \<open>What openraft asks of a log store: an append writes its entries by index and leaves the other
  indices alone, truncation removes the tail, purging removes the head.\<close>

locale raft_log_store =
  fixes invar :: "'s \<Rightarrow> bool"
    and lookup :: "'s \<Rightarrow> u64 \<Rightarrow> ('l, 'm) entry option"
    and append_entries :: "'s \<Rightarrow> ('l, 'm) entry list \<Rightarrow> 's"
    and truncate_from :: "'s \<Rightarrow> 'l log_id \<Rightarrow> 's"
    and purge_upto :: "'s \<Rightarrow> 'l log_id \<Rightarrow> 's"
  assumes invar_ops: "invar s \<Longrightarrow> invar (append_entries s es)" "invar s \<Longrightarrow> invar (truncate_from s l)"
      "invar s \<Longrightarrow> invar (purge_upto s l)"
    and lookup_append: "invar s \<Longrightarrow> lookup (append_entries s es) i =
      (case find (\<lambda>e. li_index (en_log_id e) = i) (rev es) of Some e \<Rightarrow> Some e | None \<Rightarrow> lookup s i)"
    and lookup_truncate: "invar s \<Longrightarrow>
      lookup (truncate_from s l) i = (if i < li_index l then lookup s i else None)"
    and lookup_purge: "invar s \<Longrightarrow>
      lookup (purge_upto s l) i = (if li_index l < i then lookup s i else None)"
begin

lemma replace_tail:
  assumes "invar s" "distinct (map (\<lambda>e. li_index (en_log_id e)) es)"
    "list_all (\<lambda>e. li_index l \<le> li_index (en_log_id e)) es"
  shows "lookup (append_entries (truncate_from s l) es) i =
    (if i < li_index l then lookup s i else find (\<lambda>e. li_index (en_log_id e) = i) es)"
proof (cases "find (\<lambda>e. li_index (en_log_id e) = i) es")
  case None
  with assms find_rev_distinct [OF assms(2), of i] show ?thesis
    by (simp add: lookup_append lookup_truncate invar_ops)
next
  case (Some e)
  then have "\<not> i < li_index l" using assms(3) by (auto simp: list_all_iff not_less dest: find_SomeD)
  with Some assms find_rev_distinct [OF assms(2), of i] show ?thesis
    by (simp add: lookup_append invar_ops)
qed

lemma purge_append:
  assumes "invar s" "list_all (\<lambda>e. li_index l < li_index (en_log_id e)) es"
  shows "lookup (purge_upto (append_entries s es) l) i = lookup (append_entries (purge_upto s l) es) i"
  using assms
  by (auto simp: lookup_append lookup_purge invar_ops list_all_iff
      split: option.splits dest: find_SomeD)

end

definition ms_inv :: "('l, 'm, 'v) mem_log_store \<Rightarrow> bool" where
  "ms_inv s \<longleftrightarrow> om_ok (ms_log s) \<and> list_all (\<lambda>p. li_index (en_log_id (snd p)) = fst p) (ms_log s)"

definition ms_lookup :: "('l, 'm, 'v) mem_log_store \<Rightarrow> u64 \<Rightarrow> ('l, 'm) entry option" where
  "ms_lookup s i = map_of (ms_log s) i"

lemma set_om_insert: "om_ok m \<Longrightarrow> set (om_insert k v m) = insert (k, v) {p \<in> set m. fst p \<noteq> k}"
  by (induction m) (force simp: om_ok_Cons split: if_splits)+

lemma ms_inv_fold_insert:
  assumes "om_ok m" "list_all (\<lambda>p. li_index (en_log_id (snd p)) = fst p) m"
  shows "om_ok (fold (\<lambda>e m. om_insert (li_index (en_log_id e)) e m) es m) \<and>
    list_all (\<lambda>p. li_index (en_log_id (snd p)) = fst p) (fold (\<lambda>e m. om_insert (li_index (en_log_id e)) e m) es m)"
  using assms
proof (induction es arbitrary: m)
  case (Cons e es)
  have "list_all (\<lambda>p. li_index (en_log_id (snd p)) = fst p) (om_insert (li_index (en_log_id e)) e m)"
    using Cons.prems by (auto simp: list_all_iff set_om_insert)
  with Cons show ?case by simp
qed simp

lemma map_of_fold_insert:
  "map_of (fold (\<lambda>e m. om_insert (li_index (en_log_id e)) e m) es m) i =
     (case find (\<lambda>e. li_index (en_log_id e) = i) (rev es) of Some e \<Rightarrow> Some e | None \<Rightarrow> map_of m i)"
  by (induction es arbitrary: m) (auto simp: map_of_om_insert find_append_option split: option.splits)

lemma ms_log_truncate: "ms_log (ms_truncate s l) = filter (\<lambda>p. fst p < li_index l) (ms_log s)"
  by (auto simp: ms_truncate_def Let_def fold_om_remove in_range_def not_le image_iff intro!: filter_cong)

lemma ms_log_purge: "ms_log (ms_purge s l) = filter (\<lambda>p. li_index l < fst p) (ms_log s)"
  by (auto simp: ms_purge_def Let_def fold_om_remove in_range_def not_le image_iff intro!: filter_cong)

interpretation mls: raft_log_store ms_inv ms_lookup ms_append ms_truncate ms_purge
proof unfold_locales
  fix s :: "('l, 'm, 'v) mem_log_store" and es l i
  assume s: "ms_inv s"
  show "ms_inv (ms_append s es)"
    using ms_inv_fold_insert [of "ms_log s" es] s by (simp add: ms_inv_def ms_append_def Let_def)
  show "ms_inv (ms_truncate s l)" "ms_inv (ms_purge s l)"
    using s by (auto simp: ms_inv_def ms_log_truncate ms_log_purge list_all_iff)
  show "ms_lookup (ms_append s es) i =
      (case find (\<lambda>e. li_index (en_log_id e) = i) (rev es) of Some e \<Rightarrow> Some e | None \<Rightarrow> ms_lookup s i)"
    unfolding ms_lookup_def by (simp add: ms_append_def map_of_fold_insert)
  show "ms_lookup (ms_truncate s l) i = (if i < li_index l then ms_lookup s i else None)"
    by (simp add: ms_lookup_def ms_log_truncate map_of_filter_key [where P = "\<lambda>k. k < li_index l"])
  show "ms_lookup (ms_purge s l) i = (if li_index l < i then ms_lookup s i else None)"
    by (simp add: ms_lookup_def ms_log_purge map_of_filter_key [where P = "\<lambda>k. li_index l < k"])
qed

lemma ms_inv_run: "ms_inv m \<Longrightarrow> ms_inv (foldl ms_step m xs)"
proof (induction xs arbitrary: m)
  case (Cons x xs)
  then have "ms_inv (ms_step m x)"
    by (cases x) (auto simp: mls.invar_ops, auto simp: ms_inv_def ms_save_vote_def ms_save_committed_def)
  with Cons.IH show ?case by simp
qed simp

lemma ms_inv_new [simp]: "ms_inv ms_new"
  by (simp add: ms_inv_def ms_new_def)

section \<open>Properties\<close>

text \<open>
  C12. The sled-backed log store implements the in-memory one: starting from empty trees, any
  sequence of appends, truncations, purges, vote and commit writes succeeds on it, and afterwards
  every read (log state, vote, commit index and every range of entries on which the in-memory
  store does not panic) returns what the in-memory store returns after the same sequence.
\<close>

theorem sled_log_refines_mem:
  assumes "sled_ok ops ok view" "raft_json_ok js"
    and "ok t" "view t = []" "ok u" "view u = []"
  shows "\<exists>s. sl_run ops js \<lparr>sl_log_tree = t, sl_meta_tree = u\<rparr> xs = Inr s \<and>
    sl_get_log_state ops js s = Inr (ms_get_log_state (foldl ms_step ms_new xs)) \<and>
    sl_read_vote ops js s = Inr (ms_read_vote (foldl ms_step ms_new xs)) \<and>
    sl_read_committed ops js s = Inr (ms_read_committed (foldl ms_step ms_new xs)) \<and>
    (\<forall>r es. ms_try_get_log_entries (foldl ms_step ms_new xs) r = Some es \<longrightarrow>
            sl_try_get_log_entries ops js s r = Inr es)"
proof -
  have "store_rel ok view js \<lparr>sl_log_tree = t, sl_meta_tree = u\<rparr> ms_new"
    using assms(3-6) by (simp add: store_rel_def ms_new_def)
  then obtain s where "sl_run ops js \<lparr>sl_log_tree = t, sl_meta_tree = u\<rparr> xs = Inr s"
    "store_rel ok view js s (foldl ms_step ms_new xs)"
    using sl_run_sim [OF assms(1,2)] by blast
  then show ?thesis using store_rel_reads [OF assms(1,2)] by blast
qed

text \<open>A tree kept as a list ordered by key, and codecs for entries whose leader, membership and
  vote carry no information, show that the hypotheses can be met.\<close>

definition om_sled :: "(bytes \<times> bytes) list sled" where
  "om_sled = \<lparr>
     t_insert = \<lambda>k v t. Inr (om_insert k v t),
     t_remove = \<lambda>k t. Inr (om_remove k t),
     t_get = \<lambda>k t. Inr (map_of t k),
     t_last = \<lambda>t. Inr (if t = [] then None else Some (last t)),
     t_iter = \<lambda>t. map Inr t,
     t_range_from = \<lambda>k t. map Inr (filter (\<lambda>p. k \<le> fst p) t),
     t_range_to = \<lambda>k t. map Inr (filter (\<lambda>p. fst p \<le> k) t),
     t_flush = \<lambda>t. Inr ()\<rparr>"

lemma om_sled_ok: "sled_ok om_sled om_ok (\<lambda>t. t)"
  by (simp add: sled_ok_def om_sled_def)

definition ex_entry_vec :: "(unit, unit) entry \<Rightarrow> bytes" where
  "ex_entry_vec e = index_key (li_index (en_log_id e)) @
     (case en_payload e of Blank \<Rightarrow> [0] | Normal q \<Rightarrow> 1 # byte_str (event_json q) | Membership _ \<Rightarrow> [2])"

definition byte_chars :: "bytes \<Rightarrow> string" where
  "byte_chars b = map (\<lambda>w. char_of (unat w)) b"

definition ex_entry_of :: "bytes \<Rightarrow> (unit, unit) entry" where
  "ex_entry_of b = \<lparr>en_log_id = \<lparr>li_leader = (), li_index = from_be_bytes (take 8 b)\<rparr>,
     en_payload = (if b ! 8 = 0 then Blank
       else if b ! 8 = 1 then Normal \<lparr>event_json = byte_chars (drop 9 b)\<rparr> else Membership ())\<rparr>"

definition ex_json :: "(unit, unit, unit) raft_json" where
  "ex_json = \<lparr>
     js_entry = \<lparr>to_vec = \<lambda>e. Inr (ex_entry_vec e), from_slice = \<lambda>b. Inr (ex_entry_of b)\<rparr>,
     js_log_id = \<lparr>to_vec = \<lambda>l. Inr (index_key (li_index l)),
                  from_slice = \<lambda>b. Inr \<lparr>li_leader = (), li_index = from_be_bytes b\<rparr>\<rparr>,
     js_vote = \<lparr>to_vec = \<lambda>_. Inr [], from_slice = \<lambda>_. Inr ()\<rparr>\<rparr>"

lemma byte_chars_str [simp]: "byte_chars (byte_str s) = s"
proof -
  have "char_of (unat (of_char c :: u8)) = c" for c
  proof -
    have "(of_nat (horner_sum of_bool 2 bs) :: u8) = horner_sum of_bool 2 bs" for bs
      by (induction bs) simp_all
    then have "(of_char c :: u8) = of_nat (of_char c)" by (simp only: of_char_def)
    then have "unat (of_char c :: u8) = of_char c"
      by (simp only: unat_of_nat) simp
    then show ?thesis by simp
  qed
  then show ?thesis by (induction s) (simp_all add: byte_chars_def byte_str_def)
qed

lemma byte_str_inj [simp]: "byte_str s = byte_str t \<longleftrightarrow> s = t"
  by (metis byte_chars_str)

lemma ex_json_ok: "raft_json_ok ex_json"
proof -
  have "ex_entry_of (ex_entry_vec e) = e" for e
    by (cases e; cases "en_payload e")
      (auto simp: ex_entry_of_def ex_entry_vec_def nth_append length_to_be_bytes [folded index_key_def])
  moreover have "\<lparr>li_leader = (), li_index = from_be_bytes (index_key (li_index l))\<rparr> = l" for l :: "unit log_id"
    by simp
  ultimately show ?thesis by (simp add: raft_json_ok_def json_ok_def ex_json_def)
qed

definition ex_lid :: "u64 \<Rightarrow> unit log_id" where
  "ex_lid i = \<lparr>li_leader = (), li_index = i\<rparr>"

definition ex_entry :: "u64 \<Rightarrow> string \<Rightarrow> (unit, unit) entry" where
  "ex_entry i s = \<lparr>en_log_id = ex_lid i, en_payload = Normal \<lparr>event_json = s\<rparr>\<rparr>"

definition ex_ops :: "(unit, unit, unit) log_op list" where
  "ex_ops = [LAppend [ex_entry 1 ''a'', ex_entry 2 ''b''], LPurge (ex_lid 1), LSaveVote (),
             LTruncate (ex_lid 2), LAppend [ex_entry 2 ''c'']]"

theorem sled_log_refines_mem_witness:
  "\<exists>s. sl_run om_sled ex_json \<lparr>sl_log_tree = [], sl_meta_tree = []\<rparr> ex_ops = Inr s \<and>
     sl_get_log_state om_sled ex_json s =
       Inr \<lparr>ls_last_purged_log_id = Some (ex_lid 1), ls_last_log_id = Some (ex_lid 2)\<rparr> \<and>
     sl_try_get_log_entries om_sled ex_json s (Unbounded, Unbounded) = Inr [ex_entry 2 ''c'']"
proof -
  let ?m = "foldl ms_step ms_new ex_ops"
  have "ms_get_log_state ?m = \<lparr>ls_last_purged_log_id = Some (ex_lid 1), ls_last_log_id = Some (ex_lid 2)\<rparr>"
    "ms_try_get_log_entries ?m (Unbounded, Unbounded) = Some [ex_entry 2 ''c'']"
    by code_simp+
  then show ?thesis
    using sled_log_refines_mem [OF om_sled_ok ex_json_ok, of "[]" "[]" ex_ops] by auto
qed

text \<open>
  C13. The sled keys keep the order of the indices: the key of an index is eight bytes, byte-wise
  lexicographic order of keys is numeric order of indices over the whole 64-bit range, and reading a
  key back gives the index. Hence the range scans of \<open>truncate\<close> and \<open>purge\<close> hit exactly the tail
  and the head of the log.
\<close>

theorem index_key_order_embedding:
  "length (index_key i) = 8 \<and> (index_key i < index_key j \<longleftrightarrow> i < j) \<and>
   (index_key i = index_key j \<longleftrightarrow> i = j) \<and> from_be_bytes (index_key i) = i"
  by (simp add: index_key_less length_to_be_bytes [folded index_key_def])

text \<open>
  C14. On every store reached from the empty one, the log is ordered by index, each entry sits
  under its own index, resolving a conflict (truncate at \<open>l\<close>, then append the leader's entries from
  \<open>l\<close> on) leaves the entries below \<open>l\<close> and exactly the new ones above, and a purge up to \<open>l\<close> removes
  exactly the indices up to \<open>l\<close> and records \<open>l\<close> as the last purged identifier.
\<close>

theorem log_window:
  assumes "distinct (map (\<lambda>e. li_index (en_log_id e)) es)"
    and "list_all (\<lambda>e. li_index l \<le> li_index (en_log_id e)) es"
    and "m = foldl ms_step ms_new xs"
  shows "ms_inv m \<and>
    ms_lookup (ms_append (ms_truncate m l) es) i =
      (if i < li_index l then ms_lookup m i else find (\<lambda>e. li_index (en_log_id e) = i) es) \<and>
    ms_lookup (ms_purge m l) i = (if li_index l < i then ms_lookup m i else None) \<and>
    ls_last_purged_log_id (ms_get_log_state (ms_purge m l)) = Some l"
proof -
  have "ms_inv m" by (simp add: assms(3) ms_inv_run)
  then show ?thesis
    using mls.replace_tail [OF \<open>ms_inv m\<close> assms(1,2), of i]
    by (simp add: mls.lookup_purge) (simp add: ms_get_log_state_def ms_purge_def Let_def)
qed

theorem log_window_witness:
  "ms_lookup (ms_append (ms_truncate (foldl ms_step ms_new ex_ops) (ex_lid 2)) [ex_entry 2 ''d'', ex_entry 3 ''e'']) 3
     = Some (ex_entry 3 ''e'')"
proof -
  have "distinct (map (\<lambda>e. li_index (en_log_id e)) [ex_entry 2 ''d'', ex_entry 3 ''e''])"
    "list_all (\<lambda>e. li_index (ex_lid 2) \<le> li_index (en_log_id e)) [ex_entry 2 ''d'', ex_entry 3 ''e'']"
    "find (\<lambda>e. li_index (en_log_id e) = 3) [ex_entry 2 ''d'', ex_entry 3 ''e''] = Some (ex_entry 3 ''e'')"
    "\<not> (3 :: u64) < li_index (ex_lid 2)"
    by (simp_all add: ex_entry_def ex_lid_def)
  with log_window [OF this(1,2) refl, of ex_ops 3] show ?thesis by simp
qed

end
