(* ===== verification/Raft_State_Machine.thy ===== *)
theory Raft_State_Machine
  imports Raft_Store
begin

text \<open>
  The two Raft state machines of \<open>crates/picloud-cluster/src/raft.rs\<close>. The apply callback, which
  the composition root connects to the event log, is a function on a state \<open>'w\<close> of the world; the
  operations thread that state. The sled-backed machine threads its tree as well, so that what was
  written before an error is visible; a failing insertion leaves the tree as it was. The display of
  a leader identifier and the default membership are arguments. \<open>applied_count += 1\<close> is 64-bit addition.
\<close>

section \<open>Data\<close>

record ('l, 'm) snapshot_meta =
  sn_last_log_id :: "'l log_id option"
  sn_last_membership :: "('l, 'm) stored_membership"
  sn_snapshot_id :: string

record ('l, 'm) snapshot =
  snap_meta :: "('l, 'm) snapshot_meta"
  snap_data :: bytes

type_synonym 'w apply_callback = "(string \<Rightarrow> 'w \<Rightarrow> 'w) option"

definition run_callback :: "'w apply_callback \<Rightarrow> string \<Rightarrow> 'w \<Rightarrow> 'w" where
  "run_callback cb s w = (case cb of Some f \<Rightarrow> f s w | None \<Rightarrow> w)"

definition snapshot_id_of :: "('l \<Rightarrow> string) \<Rightarrow> 'l log_id option \<Rightarrow> string" where
  "snapshot_id_of show_leader last_applied =
     (case last_applied of
        Some l \<Rightarrow> show_leader (li_leader l) @ ''-'' @ show_nat (unat (li_index l))
      | None \<Rightarrow> ''empty'')"

section \<open>The in-memory state machine\<close>

record ('l, 'm) mem_state_machine =
  sm_last_applied_log :: "'l log_id option"
  sm_last_membership :: "('l, 'm) stored_membership"
  sm_applied_count :: u64
  sm_snapshot_data :: bytes
  sm_snapshot_meta :: "('l, 'm) snapshot_meta option"

definition sm_new :: "('l, 'm) stored_membership \<Rightarrow> ('l, 'm) mem_state_machine" where
  "sm_new default_membership =
     \<lparr>sm_last_applied_log = None, sm_last_membership = default_membership, sm_applied_count = 0,
      sm_snapshot_data = [], sm_snapshot_meta = None\<rparr>"

definition sm_applied_state ::
  "('l, 'm) mem_state_machine \<Rightarrow> 'l log_id option \<times> ('l, 'm) stored_membership" where
  "sm_applied_state s = (sm_last_applied_log s, sm_last_membership s)"

fun sm_apply ::
  "'w apply_callback \<Rightarrow> ('l, 'm) entry list \<Rightarrow> ('l, 'm) mem_state_machine \<Rightarrow> 'w
   \<Rightarrow> client_response list \<times> ('l, 'm) mem_state_machine \<times> 'w" where
  "sm_apply cb [] s w = ([], s, w)"
| "sm_apply cb (entry # entries) s w =
     (let s = s\<lparr>sm_last_applied_log := Some (en_log_id entry)\<rparr>;
          (r, s, w) =
            (case en_payload entry of
               Blank \<Rightarrow> (\<lparr>resp_index = sm_applied_count s\<rparr>, s, w)
             | Normal req \<Rightarrow>
                 (let idx = sm_applied_count s + 1
                  in (\<lparr>resp_index = idx\<rparr>, s\<lparr>sm_applied_count := idx\<rparr>, run_callback cb (event_json req) w))
             | Membership mem \<Rightarrow>
                 (\<lparr>resp_index = sm_applied_count s\<rparr>,
                  s\<lparr>sm_last_membership := \<lparr>stm_log_id = Some (en_log_id entry), stm_membership = mem\<rparr>\<rparr>, w));
          (rs, s, w) = sm_apply cb entries s w
      in (r # rs, s, w))"

definition sm_install_snapshot ::
  "('l, 'm) snapshot_meta \<Rightarrow> bytes \<Rightarrow> ('l, 'm) mem_state_machine \<Rightarrow> ('l, 'm) mem_state_machine" where
  "sm_install_snapshot meta data s =
     s\<lparr>sm_last_applied_log := sn_last_log_id meta, sm_last_membership := sn_last_membership meta,
       sm_snapshot_data := data, sm_snapshot_meta := Some meta\<rparr>"

definition sm_get_current_snapshot :: "('l, 'm) mem_state_machine \<Rightarrow> ('l, 'm) snapshot option" where
  "sm_get_current_snapshot s =
     (case sm_snapshot_meta s of
        Some meta \<Rightarrow> Some \<lparr>snap_meta = meta, snap_data = sm_snapshot_data s\<rparr>
      | None \<Rightarrow> None)"

definition sm_build_snapshot ::
  "('l \<Rightarrow> string) \<Rightarrow> ('l, 'm) mem_state_machine \<Rightarrow> ('l, 'm) snapshot \<times> ('l, 'm) mem_state_machine" where
  "sm_build_snapshot show_leader s =
     (let meta = \<lparr>sn_last_log_id = sm_last_applied_log s, sn_last_membership = sm_last_membership s,
                  sn_snapshot_id = snapshot_id_of show_leader (sm_last_applied_log s)\<rparr>
      in (\<lparr>snap_meta = meta, snap_data = sm_snapshot_data s\<rparr>, s\<lparr>sm_snapshot_meta := Some meta\<rparr>))"

section \<open>The sled-backed state machine\<close>

record ('l, 'm) sm_json =
  js_sm_log_id :: "'l log_id json"
  js_sm_membership :: "('l, 'm) stored_membership json"
  js_sm_count :: "u64 json"
  js_sm_meta :: "('l, 'm) snapshot_meta json"

abbreviation key_last_applied :: bytes where "key_last_applied \<equiv> byte_str ''sm_last_applied''"
abbreviation key_membership :: bytes where "key_membership \<equiv> byte_str ''sm_membership''"
abbreviation key_count :: bytes where "key_count \<equiv> byte_str ''sm_count''"
abbreviation key_snapshot_data :: bytes where "key_snapshot_data \<equiv> byte_str ''sm_snapshot_data''"
abbreviation key_snapshot_meta :: bytes where "key_snapshot_meta \<equiv> byte_str ''sm_snapshot_meta''"

definition unwrap_or :: "'a \<Rightarrow> 'a option \<Rightarrow> 'a" where
  "unwrap_or d x = (case x of Some a \<Rightarrow> a | None \<Rightarrow> d)"

text \<open>Run a fallible write and continue with the new tree; an error keeps the tree.\<close>

definition write_then ::
  "(storage_error + 't) \<Rightarrow> 't \<Rightarrow> ('t \<Rightarrow> (storage_error + 'a) \<times> 't) \<Rightarrow> (storage_error + 'a) \<times> 't" where
  "write_then r t k = (case r of Inl e \<Rightarrow> (Inl e, t) | Inr t' \<Rightarrow> k t')"

definition get_applied_count :: "'t sled \<Rightarrow> ('l, 'm) sm_json \<Rightarrow> 't \<Rightarrow> storage_error + u64" where
  "get_applied_count ops js t =
     and_then (get_json ops (js_sm_count js) key_count t) (\<lambda>o_count. Inr (unwrap_or 0 o_count))"

definition set_applied_count :: "'t sled \<Rightarrow> ('l, 'm) sm_json \<Rightarrow> u64 \<Rightarrow> 't \<Rightarrow> storage_error + 't" where
  "set_applied_count ops js count t = put_json ops (js_sm_count js) key_count count t"

definition sled_applied_state ::
  "'t sled \<Rightarrow> ('l, 'm) sm_json \<Rightarrow> ('l, 'm) stored_membership \<Rightarrow> 't
   \<Rightarrow> storage_error + 'l log_id option \<times> ('l, 'm) stored_membership" where
  "sled_applied_state ops js default_membership t =
     and_then (get_json ops (js_sm_log_id js) key_last_applied t) (\<lambda>last_applied.
     and_then (get_json ops (js_sm_membership js) key_membership t) (\<lambda>membership.
     Inr (last_applied, unwrap_or default_membership membership)))"

text \<open>The loop of \<open>apply\<close>: the counter and the responses so far, the tree and the world.\<close>

fun sled_apply_loop ::
  "'t sled \<Rightarrow> ('l, 'm) sm_json \<Rightarrow> 'w apply_callback \<Rightarrow> ('l, 'm) entry list \<Rightarrow> u64
   \<Rightarrow> client_response list \<Rightarrow> 't \<Rightarrow> 'w \<Rightarrow> (storage_error + u64 \<times> client_response list) \<times> 't \<times> 'w" where
  "sled_apply_loop ops js cb [] count rs t w = (Inr (count, rs), t, w)"
| "sled_apply_loop ops js cb (entry # entries) count rs t w =
     (case put_json ops (js_sm_log_id js) key_last_applied (en_log_id entry) t of
        Inl e \<Rightarrow> (Inl e, t, w)
      | Inr t \<Rightarrow>
          (case en_payload entry of
             Blank \<Rightarrow> sled_apply_loop ops js cb entries count (rs @ [\<lparr>resp_index = count\<rparr>]) t w
           | Normal req \<Rightarrow>
               (let count = count + 1;
                    w = run_callback cb (event_json req) w
                in sled_apply_loop ops js cb entries count (rs @ [\<lparr>resp_index = count\<rparr>]) t w)
           | Membership mem \<Rightarrow>
               (case put_json ops (js_sm_membership js) key_membership
                       \<lparr>stm_log_id = Some (en_log_id entry), stm_membership = mem\<rparr> t of
                  Inl e \<Rightarrow> (Inl e, t, w)
                | Inr t \<Rightarrow> sled_apply_loop ops js cb entries count (rs @ [\<lparr>resp_index = count\<rparr>]) t w)))"

definition sled_apply ::
  "'t sled \<Rightarrow> ('l, 'm) sm_json \<Rightarrow> 'w apply_callback \<Rightarrow> ('l, 'm) entry list \<Rightarrow> 't \<Rightarrow> 'w
   \<Rightarrow> (storage_error + client_response list) \<times> 't \<times> 'w" where
  "sled_apply ops js cb entries t w =
     (case get_applied_count ops js t of
        Inl e \<Rightarrow> (Inl e, t, w)
      | Inr count \<Rightarrow>
          (case sled_apply_loop ops js cb entries count [] t w of
             (Inl e, t, w) \<Rightarrow> (Inl e, t, w)
           | (Inr (count, rs), t, w) \<Rightarrow>
               (case set_applied_count ops js count t of
                  Inl e \<Rightarrow> (Inl e, t, w)
                | Inr t \<Rightarrow> (Inr rs, t, w))))"

definition sled_install_snapshot ::
  "'t sled \<Rightarrow> ('l, 'm) sm_json \<Rightarrow> ('l, 'm) snapshot_meta \<Rightarrow> bytes \<Rightarrow> 't \<Rightarrow> (storage_error + unit) \<times> 't" where
  "sled_install_snapshot ops js meta data t =
     write_then (case sn_last_log_id meta of
                   Some l \<Rightarrow> put_json ops (js_sm_log_id js) key_last_applied l t
                 | None \<Rightarrow> Inr t) t (\<lambda>t.
     write_then (put_json ops (js_sm_membership js) key_membership (sn_last_membership meta) t) t (\<lambda>t.
     write_then (lift_sled (t_insert ops key_snapshot_data data t)) t (\<lambda>t.
     write_then (put_json ops (js_sm_meta js) key_snapshot_meta meta t) t (\<lambda>t. (Inr (), t)))))"

definition sled_snapshot_data :: "'t sled \<Rightarrow> 't \<Rightarrow> storage_error + bytes" where
  "sled_snapshot_data ops t =
     and_then (lift_sled (t_get ops key_snapshot_data t)) (\<lambda>v. Inr (unwrap_or [] v))"

definition sled_get_current_snapshot ::
  "'t sled \<Rightarrow> ('l, 'm) sm_json \<Rightarrow> 't \<Rightarrow> storage_error + ('l, 'm) snapshot option" where
  "sled_get_current_snapshot ops js t =
     and_then (get_json ops (js_sm_meta js) key_snapshot_meta t) (\<lambda>o_meta.
       case o_meta of
         None \<Rightarrow> Inr None
       | Some meta \<Rightarrow> and_then (sled_snapshot_data ops t)
                        (\<lambda>data. Inr (Some \<lparr>snap_meta = meta, snap_data = data\<rparr>)))"

definition sled_build_snapshot ::
  "'t sled \<Rightarrow> ('l, 'm) sm_json \<Rightarrow> ('l \<Rightarrow> string) \<Rightarrow> ('l, 'm) stored_membership \<Rightarrow> 't
   \<Rightarrow> (storage_error + ('l, 'm) snapshot) \<times> 't" where
  "sled_build_snapshot ops js show_leader default_membership t =
     (case and_then (sled_snapshot_data ops t) (\<lambda>data.
           and_then (sled_applied_state ops js default_membership t) (\<lambda>st. Inr (data, st))) of
        Inl e \<Rightarrow> (Inl e, t)
      | Inr (data, last_applied, membership) \<Rightarrow>
          (let meta = \<lparr>sn_last_log_id = last_applied, sn_last_membership = membership,
                       sn_snapshot_id = snapshot_id_of show_leader last_applied\<rparr>
           in write_then (put_json ops (js_sm_meta js) key_snapshot_meta meta t) t
                (\<lambda>t. (Inr \<lparr>snap_meta = meta, snap_data = data\<rparr>, t))))"

section \<open>Applying entries\<close>

definition event_of :: "('l, 'm) entry \<Rightarrow> string option" where
  "event_of e = (case en_payload e of Normal req \<Rightarrow> Some (event_json req) | _ \<Rightarrow> None)"

definition events_of :: "('l, 'm) entry list \<Rightarrow> string list" where
  "events_of es = List.map_filter event_of es"

definition membership_of :: "('l, 'm) entry \<Rightarrow> ('l, 'm) stored_membership option" where
  "membership_of e =
     (case en_payload e of
        Membership mem \<Rightarrow> Some \<lparr>stm_log_id = Some (en_log_id e), stm_membership = mem\<rparr>
      | _ \<Rightarrow> None)"

lemma events_of_simps [simp]:
  "events_of [] = []"
  "events_of (e # es) = (case event_of e of Some s \<Rightarrow> s # events_of es | None \<Rightarrow> events_of es)"
  "events_of (es @ fs) = events_of es @ events_of fs"
  by (simp_all add: events_of_def map_filter_simps List.map_filter_def split: option.splits)

lemma sm_apply_append:
  "sm_apply cb (xs @ ys) s w =
     (case sm_apply cb xs s w of (rs, s1, w1) \<Rightarrow>
        case sm_apply cb ys s1 w1 of (rs', s2, w2) \<Rightarrow> (rs @ rs', s2, w2))"
  by (induction xs arbitrary: s w) (auto simp: Let_def split: prod.splits entry_payload.splits)

text \<open>The effect of a batch in closed form.\<close>

definition apply_result :: "('l, 'm) entry list \<Rightarrow> ('l, 'm) mem_state_machine \<Rightarrow> ('l, 'm) mem_state_machine" where
  "apply_result es s =
     s\<lparr>sm_last_applied_log := (if es = [] then sm_last_applied_log s else Some (en_log_id (last es))),
       sm_last_membership := last (sm_last_membership s # List.map_filter membership_of es),
       sm_applied_count := sm_applied_count s + of_nat (length (events_of es))\<rparr>"

definition responses :: "u64 \<Rightarrow> ('l, 'm) entry list \<Rightarrow> client_response list" where
  "responses c es =
     map (\<lambda>n. \<lparr>resp_index = c + of_nat (length (events_of (take (Suc n) es)))\<rparr>) [0..<length es]"

lemma responses_Cons:
  "responses c (e # es) =
     (let c' = c + of_nat (length (events_of [e])) in \<lparr>resp_index = c'\<rparr> # responses c' es)"
proof -
  have "[0..<length (e # es)] = 0 # map Suc [0..<length es]"
    by (simp add: upt_conv_Cons map_Suc_upt del: upt_Suc)
  then show ?thesis
    by (auto simp: responses_def Let_def split: option.splits simp del: upt_Suc)
qed

lemma responses_Nil [simp]: "responses c [] = []"
  by (simp add: responses_def)

lemma sm_apply_closed:
  "sm_apply cb es s w = (responses (sm_applied_count s) es, apply_result es s, fold (run_callback cb) (events_of es) w)"
proof (induction es arbitrary: s w)
  case Nil
  then show ?case by (simp add: apply_result_def map_filter_simps)
next
  case (Cons e es)
  then show ?case
    by (auto simp: responses_Cons apply_result_def Let_def event_of_def membership_of_def map_filter_simps
        split: entry_payload.splits)
qed

section \<open>The sled-backed machine simulates the in-memory one\<close>

definition sm_json_ok :: "('l, 'm) sm_json \<Rightarrow> bool" where
  "sm_json_ok js \<longleftrightarrow> json_ok (js_sm_log_id js) \<and> json_ok (js_sm_membership js) \<and>
     json_ok (js_sm_count js) \<and> json_ok (js_sm_meta js)"

text \<open>A value that is stored under its encoding, or is the default and not stored.\<close>

definition stored_as :: "bytes option \<Rightarrow> ('x \<Rightarrow> bytes) \<Rightarrow> 'x \<Rightarrow> 'x \<Rightarrow> bool" where
  "stored_as v e d x \<longleftrightarrow> v = Some (e x) \<or> v = None \<and> x = d"

definition sm_rel ::
  "('t \<Rightarrow> bool) \<Rightarrow> ('t \<Rightarrow> (bytes \<times> bytes) list) \<Rightarrow> ('l, 'm) sm_json \<Rightarrow> ('l, 'm) stored_membership
   \<Rightarrow> 't \<Rightarrow> ('l, 'm) mem_state_machine \<Rightarrow> bool" where
  "sm_rel ok view js d t m \<longleftrightarrow> ok t \<and>
     map_of (view t) key_last_applied = map_option (enc (js_sm_log_id js)) (sm_last_applied_log m) \<and>
     stored_as (map_of (view t) key_membership) (enc (js_sm_membership js)) d (sm_last_membership m) \<and>
     stored_as (map_of (view t) key_count) (enc (js_sm_count js)) 0 (sm_applied_count m) \<and>
     stored_as (map_of (view t) key_snapshot_data) (\<lambda>b. b) [] (sm_snapshot_data m) \<and>
     map_of (view t) key_snapshot_meta = map_option (enc (js_sm_meta js)) (sm_snapshot_meta m)"

lemma stored_as_Some [simp]: "stored_as (Some (e x)) e d x"
  by (simp add: stored_as_def)

lemma get_json_stored:
  assumes "sled_ok ops ok view" "ok t" "json_ok js" "stored_as (map_of (view t) k) (enc js) d x"
  shows "\<exists>v. get_json ops js k t = Inr v \<and> unwrap_or d v = x"
proof (cases "map_of (view t) k")
  case None
  with assms(4) have "x = d" by (simp add: stored_as_def)
  with get_json_ok [OF assms(1-3), of k None] None show ?thesis by (simp add: unwrap_or_def)
next
  case (Some b)
  with assms(4) have "b = enc js x" by (simp add: stored_as_def)
  with get_json_ok [OF assms(1-3), of k "Some x"] Some show ?thesis by (simp add: unwrap_or_def)
qed

lemma sm_rel_put:
  assumes "sled_ok ops ok view" "sm_json_ok js" "sm_rel ok view js d t m"
  shows "\<exists>t'. put_json ops (js_sm_log_id js) key_last_applied l t = Inr t' \<and>
      sm_rel ok view js d t' (m\<lparr>sm_last_applied_log := Some l\<rparr>)"
    and "\<exists>t'. put_json ops (js_sm_membership js) key_membership mem t = Inr t' \<and>
      sm_rel ok view js d t' (m\<lparr>sm_last_membership := mem\<rparr>)"
    and "\<exists>t'. set_applied_count ops js c t = Inr t' \<and> sm_rel ok view js d t' (m\<lparr>sm_applied_count := c\<rparr>)"
    and "\<exists>t'. t_insert ops key_snapshot_data data t = Inr t' \<and>
      sm_rel ok view js d t' (m\<lparr>sm_snapshot_data := data\<rparr>)"
    and "\<exists>t'. put_json ops (js_sm_meta js) key_snapshot_meta meta t = Inr t' \<and>
      sm_rel ok view js d t' (m\<lparr>sm_snapshot_meta := Some meta\<rparr>)"
proof -
  have j: "json_ok (js_sm_log_id js)" "json_ok (js_sm_membership js)" "json_ok (js_sm_count js)" "json_ok (js_sm_meta js)"
    using assms(2) by (simp_all add: sm_json_ok_def)
  have t: "ok t" using assms(3) by (simp add: sm_rel_def)
  note put = put_json_ok [OF assms(1) t]
  show "\<exists>t'. put_json ops (js_sm_log_id js) key_last_applied l t = Inr t' \<and>
      sm_rel ok view js d t' (m\<lparr>sm_last_applied_log := Some l\<rparr>)"
    by (rule put [OF j(1), of key_last_applied l]) (use assms(3) in \<open>simp add: sm_rel_def map_of_om_insert\<close>)
  show "\<exists>t'. put_json ops (js_sm_membership js) key_membership mem t = Inr t' \<and>
      sm_rel ok view js d t' (m\<lparr>sm_last_membership := mem\<rparr>)"
    by (rule put [OF j(2), of key_membership mem]) (use assms(3) in \<open>simp add: sm_rel_def map_of_om_insert\<close>)
  show "\<exists>t'. set_applied_count ops js c t = Inr t' \<and> sm_rel ok view js d t' (m\<lparr>sm_applied_count := c\<rparr>)"
    unfolding set_applied_count_def
    by (rule put [OF j(3), of key_count c]) (use assms(3) in \<open>simp add: sm_rel_def map_of_om_insert\<close>)
  show "\<exists>t'. put_json ops (js_sm_meta js) key_snapshot_meta meta t = Inr t' \<and>
      sm_rel ok view js d t' (m\<lparr>sm_snapshot_meta := Some meta\<rparr>)"
    by (rule put [OF j(4), of key_snapshot_meta meta]) (use assms(3) in \<open>simp add: sm_rel_def map_of_om_insert\<close>)
  show "\<exists>t'. t_insert ops key_snapshot_data data t = Inr t' \<and>
      sm_rel ok view js d t' (m\<lparr>sm_snapshot_data := data\<rparr>)"
    by (rule sled_insert [OF assms(1) t, of key_snapshot_data data])
      (use assms(3) in \<open>simp add: sm_rel_def map_of_om_insert stored_as_def\<close>)
qed

lemma sm_rel_reads:
  assumes "sled_ok ops ok view" "sm_json_ok js" "sm_rel ok view js d t m"
  shows "get_applied_count ops js t = Inr (sm_applied_count m)"
    and "sled_applied_state ops js d t = Inr (sm_applied_state m)"
    and "sled_snapshot_data ops t = Inr (sm_snapshot_data m)"
    and "sled_get_current_snapshot ops js t = Inr (sm_get_current_snapshot m)"
proof -
  have j: "json_ok (js_sm_log_id js)" "json_ok (js_sm_membership js)" "json_ok (js_sm_count js)" "json_ok (js_sm_meta js)"
    using assms(2) by (simp_all add: sm_json_ok_def)
  have t: "ok t" and r: "map_of (view t) key_last_applied = map_option (enc (js_sm_log_id js)) (sm_last_applied_log m)"
    "stored_as (map_of (view t) key_membership) (enc (js_sm_membership js)) d (sm_last_membership m)"
    "stored_as (map_of (view t) key_count) (enc (js_sm_count js)) 0 (sm_applied_count m)"
    "stored_as (map_of (view t) key_snapshot_data) (\<lambda>b. b) [] (sm_snapshot_data m)"
    "map_of (view t) key_snapshot_meta = map_option (enc (js_sm_meta js)) (sm_snapshot_meta m)"
    using assms(3) by (simp_all add: sm_rel_def)
  show "get_applied_count ops js t = Inr (sm_applied_count m)"
    using get_json_stored [OF assms(1) t j(3) r(3)] by (auto simp: get_applied_count_def)
  show "sled_applied_state ops js d t = Inr (sm_applied_state m)"
    using get_json_stored [OF assms(1) t j(2) r(2)] get_json_ok [OF assms(1) t j(1) r(1)]
    by (auto simp: sled_applied_state_def sm_applied_state_def)
  show d: "sled_snapshot_data ops t = Inr (sm_snapshot_data m)"
    using r(4) by (auto simp: sled_snapshot_data_def sled_okD [OF assms(1) t] stored_as_def unwrap_or_def)
  show "sled_get_current_snapshot ops js t = Inr (sm_get_current_snapshot m)"
    using get_json_ok [OF assms(1) t j(4) r(5)] d
    by (auto simp: sled_get_current_snapshot_def sm_get_current_snapshot_def split: option.splits)
qed

text \<open>While the loop runs, the stored counter keeps the value \<open>c\<close> it had at the start.\<close>

lemma count_upd_swap:
  "m\<lparr>sm_applied_count := c, sm_last_applied_log := l\<rparr> = m\<lparr>sm_last_applied_log := l, sm_applied_count := c\<rparr>"
  "m\<lparr>sm_applied_count := c, sm_last_membership := k\<rparr> = m\<lparr>sm_last_membership := k, sm_applied_count := c\<rparr>"
  by simp_all

lemma sled_apply_loop_sim:
  assumes "sled_ok ops ok view" "sm_json_ok js"
  shows "sm_rel ok view js d t (m\<lparr>sm_applied_count := c\<rparr>) \<Longrightarrow> sm_apply cb es m w = (rs', m', w') \<Longrightarrow>
    \<exists>t'. sled_apply_loop ops js cb es (sm_applied_count m) rs t w = (Inr (sm_applied_count m', rs @ rs'), t', w') \<and>
         sm_rel ok view js d t' (m'\<lparr>sm_applied_count := c\<rparr>)"
proof (induction es arbitrary: t m rs w rs')
  case (Cons e es)
  obtain t1 where t1: "put_json ops (js_sm_log_id js) key_last_applied (en_log_id e) t = Inr t1"
    "sm_rel ok view js d t1 (m\<lparr>sm_last_applied_log := Some (en_log_id e), sm_applied_count := c\<rparr>)"
    using sm_rel_put(1) [OF assms Cons.prems(1), of "en_log_id e"] by (auto simp: count_upd_swap)
  show ?case
  proof (cases "en_payload e")
    case Blank
    with Cons.prems(2) obtain q where "rs' = \<lparr>resp_index = sm_applied_count m\<rparr> # q"
      "sm_apply cb es (m\<lparr>sm_last_applied_log := Some (en_log_id e)\<rparr>) w = (q, m', w')"
      by (auto simp: Let_def split: prod.splits)
    with Cons.IH [of t1 "m\<lparr>sm_last_applied_log := Some (en_log_id e)\<rparr>" w q "rs @ [\<lparr>resp_index = sm_applied_count m\<rparr>]"] t1 Blank show ?thesis by simp
  next
    case (Normal req)
    let ?m = "m\<lparr>sm_last_applied_log := Some (en_log_id e), sm_applied_count := sm_applied_count m + 1\<rparr>"
    from Normal Cons.prems(2) obtain q where "rs' = \<lparr>resp_index = sm_applied_count m + 1\<rparr> # q"
      "sm_apply cb es ?m (run_callback cb (event_json req) w) = (q, m', w')"
      by (auto simp: Let_def split: prod.splits)
    with Cons.IH [of t1 ?m "run_callback cb (event_json req) w" q "rs @ [\<lparr>resp_index = sm_applied_count m + 1\<rparr>]"] t1 Normal show ?thesis by (simp add: Let_def)
  next
    case (Membership mem)
    let ?s = "\<lparr>stm_log_id = Some (en_log_id e), stm_membership = mem\<rparr>"
    let ?m = "m\<lparr>sm_last_applied_log := Some (en_log_id e), sm_last_membership := ?s\<rparr>"
    obtain t2 where t2: "put_json ops (js_sm_membership js) key_membership ?s t1 = Inr t2"
      "sm_rel ok view js d t2 (?m\<lparr>sm_applied_count := c\<rparr>)"
      using sm_rel_put(2) [OF assms t1(2), of ?s] by (auto simp: count_upd_swap)
    from Membership Cons.prems(2) obtain q where "rs' = \<lparr>resp_index = sm_applied_count m\<rparr> # q"
      "sm_apply cb es ?m w = (q, m', w')"
      by (auto simp: Let_def split: prod.splits)
    with Cons.IH [of t2 ?m w q "rs @ [\<lparr>resp_index = sm_applied_count m\<rparr>]"] t1 t2 Membership show ?thesis by simp
  qed
qed simp

lemma sled_apply_sim:
  assumes "sled_ok ops ok view" "sm_json_ok js" "sm_rel ok view js d t m" "sm_apply cb es m w = (rs, m', w')"
  shows "\<exists>t'. sled_apply ops js cb es t w = (Inr rs, t', w') \<and> sm_rel ok view js d t' m'"
proof -
  have "sm_rel ok view js d t (m\<lparr>sm_applied_count := sm_applied_count m\<rparr>)" using assms(3) by simp
  from sled_apply_loop_sim [OF assms(1,2) this assms(4), of "[]"]
  obtain t1 where t1: "sled_apply_loop ops js cb es (sm_applied_count m) [] t w = (Inr (sm_applied_count m', rs), t1, w')"
    "sm_rel ok view js d t1 (m'\<lparr>sm_applied_count := sm_applied_count m\<rparr>)"
    by auto
  obtain t2 where "set_applied_count ops js (sm_applied_count m') t1 = Inr t2" "sm_rel ok view js d t2 m'"
    using sm_rel_put(3) [OF assms(1,2) t1(2)] by force
  with t1 show ?thesis by (simp add: sled_apply_def sm_rel_reads(1) [OF assms(1-3)])
qed

lemma sled_install_sim:
  assumes "sled_ok ops ok view" "sm_json_ok js" "sm_rel ok view js d t m" "sn_last_log_id meta \<noteq> None"
  shows "\<exists>t'. sled_install_snapshot ops js meta data t = (Inr (), t') \<and>
    sm_rel ok view js d t' (sm_install_snapshot meta data m)"
proof -
  from assms(4) obtain l where l: "sn_last_log_id meta = Some l" by auto
  obtain t1 where t1: "put_json ops (js_sm_log_id js) key_last_applied l t = Inr t1"
    "sm_rel ok view js d t1 (m\<lparr>sm_last_applied_log := Some l\<rparr>)"
    using sm_rel_put(1) [OF assms(1-3)] by blast
  obtain t2 where t2: "put_json ops (js_sm_membership js) key_membership (sn_last_membership meta) t1 = Inr t2"
    "sm_rel ok view js d t2 (m\<lparr>sm_last_applied_log := Some l, sm_last_membership := sn_last_membership meta\<rparr>)"
    using sm_rel_put(2) [OF assms(1,2) t1(2)] by blast
  obtain t3 where t3: "t_insert ops key_snapshot_data data t2 = Inr t3"
    "sm_rel ok view js d t3 (m\<lparr>sm_last_applied_log := Some l, sm_last_membership := sn_last_membership meta,
       sm_snapshot_data := data\<rparr>)"
    using sm_rel_put(4) [OF assms(1,2) t2(2)] by blast
  obtain t4 where "put_json ops (js_sm_meta js) key_snapshot_meta meta t3 = Inr t4"
    "sm_rel ok view js d t4 (sm_install_snapshot meta data m)"
    using sm_rel_put(5) [OF assms(1,2) t3(2), of meta] by (auto simp: sm_install_snapshot_def l)
  with t1 t2 t3 show ?thesis by (simp add: sled_install_snapshot_def write_then_def l)
qed

lemma sled_build_sim:
  assumes "sled_ok ops ok view" "sm_json_ok js" "sm_rel ok view js d t m"
    "sm_build_snapshot show_leader m = (snap, m')"
  shows "\<exists>t'. sled_build_snapshot ops js show_leader d t = (Inr snap, t') \<and> sm_rel ok view js d t' m'"
proof -
  obtain t' where "put_json ops (js_sm_meta js) key_snapshot_meta (snap_meta snap) t = Inr t'" "sm_rel ok view js d t' m'"
    using sm_rel_put(5) [OF assms(1-3), of "snap_meta snap"] assms(4) by (auto simp: sm_build_snapshot_def Let_def)
  with assms(4) show ?thesis
    by (auto simp: sled_build_snapshot_def sm_rel_reads [OF assms(1-3)] sm_applied_state_def sm_build_snapshot_def
        write_then_def Let_def)
qed

section \<open>Runs of a state machine\<close>

text \<open>What openraft relies on: committed entries may arrive in any batches.\<close>

locale batch_machine =
  fixes apply_batch :: "'e list \<Rightarrow> 's \<Rightarrow> 'r list \<times> 's"
  assumes apply_nil: "apply_batch [] s = ([], s)"
    and apply_app: "apply_batch (xs @ ys) s =
      (case apply_batch xs s of (rs, s1) \<Rightarrow> case apply_batch ys s1 of (rs', s2) \<Rightarrow> (rs @ rs', s2))"
    and apply_length: "length (fst (apply_batch xs s)) = length xs"
begin

lemma run_batches_acc:
  "foldl (\<lambda>(rs, s) b. case apply_batch b s of (rs', s') \<Rightarrow> (rs @ rs', s')) (rs0, s) bs =
     (case apply_batch (concat bs) s of (rs, s') \<Rightarrow> (rs0 @ rs, s'))"
  by (induction bs arbitrary: rs0 s) (auto simp: apply_nil apply_app split: prod.splits)

lemma run_batches_concat:
  "foldl (\<lambda>(rs, s) b. case apply_batch b s of (rs', s') \<Rightarrow> (rs @ rs', s')) ([], s) bs = apply_batch (concat bs) s"
  by (simp add: run_batches_acc)

end

definition sm_apply_pair ::
  "'w apply_callback \<Rightarrow> ('l, 'm) entry list \<Rightarrow> ('l, 'm) mem_state_machine \<times> 'w
   \<Rightarrow> client_response list \<times> ('l, 'm) mem_state_machine \<times> 'w" where
  "sm_apply_pair cb es sw = sm_apply cb es (fst sw) (snd sw)"

interpretation mem_batch: batch_machine "sm_apply_pair cb"
  for cb :: "'w apply_callback"
  by unfold_locales
    (auto simp: sm_apply_pair_def sm_apply_append split: prod.splits, simp add: sm_apply_closed responses_def)

datatype ('l, 'm) sm_op =
    SApply "('l, 'm) entry list"
  | SBuild
  | SInstall "('l, 'm) snapshot_meta" bytes

datatype ('l, 'm) sm_out =
    OResponses "client_response list"
  | OSnapshot "('l, 'm) snapshot"
  | OInstalled

fun sm_step ::
  "'w apply_callback \<Rightarrow> ('l \<Rightarrow> string) \<Rightarrow> ('l, 'm) sm_op \<Rightarrow> ('l, 'm) mem_state_machine \<Rightarrow> 'w
   \<Rightarrow> ('l, 'm) sm_out \<times> ('l, 'm) mem_state_machine \<times> 'w" where
  "sm_step cb sh (SApply es) m w = (case sm_apply cb es m w of (rs, m, w) \<Rightarrow> (OResponses rs, m, w))"
| "sm_step cb sh SBuild m w = (case sm_build_snapshot sh m of (snap, m) \<Rightarrow> (OSnapshot snap, m, w))"
| "sm_step cb sh (SInstall meta data) m w = (OInstalled, sm_install_snapshot meta data m, w)"

fun sled_sm_step ::
  "'t sled \<Rightarrow> ('l, 'm) sm_json \<Rightarrow> ('l, 'm) stored_membership \<Rightarrow> 'w apply_callback \<Rightarrow> ('l \<Rightarrow> string)
   \<Rightarrow> ('l, 'm) sm_op \<Rightarrow> 't \<Rightarrow> 'w \<Rightarrow> (storage_error + ('l, 'm) sm_out) \<times> 't \<times> 'w" where
  "sled_sm_step ops js d cb sh (SApply es) t w =
     (case sled_apply ops js cb es t w of (r, t, w) \<Rightarrow> (map_sum id OResponses r, t, w))"
| "sled_sm_step ops js d cb sh SBuild t w =
     (case sled_build_snapshot ops js sh d t of (r, t) \<Rightarrow> (map_sum id OSnapshot r, t, w))"
| "sled_sm_step ops js d cb sh (SInstall meta data) t w =
     (case sled_install_snapshot ops js meta data t of (r, t) \<Rightarrow> (map_sum id (\<lambda>_. OInstalled) r, t, w))"

fun sm_run ::
  "'w apply_callback \<Rightarrow> ('l \<Rightarrow> string) \<Rightarrow> ('l, 'm) sm_op list \<Rightarrow> ('l, 'm) mem_state_machine \<Rightarrow> 'w
   \<Rightarrow> ('l, 'm) sm_out list \<times> ('l, 'm) mem_state_machine \<times> 'w" where
  "sm_run cb sh [] m w = ([], m, w)"
| "sm_run cb sh (x # xs) m w =
     (case sm_step cb sh x m w of (r, m, w) \<Rightarrow> case sm_run cb sh xs m w of (rs, m, w) \<Rightarrow> (r # rs, m, w))"

text \<open>A storage error ends the run: openraft treats it as fatal.\<close>

fun sled_sm_run ::
  "'t sled \<Rightarrow> ('l, 'm) sm_json \<Rightarrow> ('l, 'm) stored_membership \<Rightarrow> 'w apply_callback \<Rightarrow> ('l \<Rightarrow> string)
   \<Rightarrow> ('l, 'm) sm_op list \<Rightarrow> 't \<Rightarrow> 'w \<Rightarrow> (storage_error + ('l, 'm) sm_out list) \<times> 't \<times> 'w" where
  "sled_sm_run ops js d cb sh [] t w = (Inr [], t, w)"
| "sled_sm_run ops js d cb sh (x # xs) t w =
     (case sled_sm_step ops js d cb sh x t w of
        (Inl e, t, w) \<Rightarrow> (Inl e, t, w)
      | (Inr r, t, w) \<Rightarrow>
          (case sled_sm_run ops js d cb sh xs t w of (res, t, w) \<Rightarrow> (map_sum id (\<lambda>rs. r # rs) res, t, w)))"

fun install_has_log_id :: "('l, 'm) sm_op \<Rightarrow> bool" where
  "install_has_log_id (SInstall meta data) = (sn_last_log_id meta \<noteq> None)"
| "install_has_log_id _ = True"

lemma sled_sm_step_sim:
  assumes "sled_ok ops ok view" "sm_json_ok js" "sm_rel ok view js d t m" "install_has_log_id x"
    "sm_step cb sh x m w = (r, m', w')"
  shows "\<exists>t'. sled_sm_step ops js d cb sh x t w = (Inr r, t', w') \<and> sm_rel ok view js d t' m'"
proof (cases x)
  case (SApply es)
  with assms(5) obtain rs where "sm_apply cb es m w = (rs, m', w')" "r = OResponses rs"
    by (auto split: prod.splits)
  with sled_apply_sim [OF assms(1-3) this(1)] SApply show ?thesis by auto
next
  case SBuild
  with assms(5) obtain snap where "sm_build_snapshot sh m = (snap, m')" "r = OSnapshot snap" "w' = w"
    by (auto split: prod.splits)
  with sled_build_sim [OF assms(1-3) this(1)] SBuild show ?thesis by auto
next
  case (SInstall meta data)
  with sled_install_sim [OF assms(1-3), of meta data] assms(4,5) show ?thesis by auto
qed

lemma sled_sm_run_sim:
  assumes "sled_ok ops ok view" "sm_json_ok js"
  shows "sm_rel ok view js d t m \<Longrightarrow> list_all install_has_log_id xs \<Longrightarrow> sm_run cb sh xs m w = (rs, m', w') \<Longrightarrow>
    \<exists>t'. sled_sm_run ops js d cb sh xs t w = (Inr rs, t', w') \<and> sm_rel ok view js d t' m'"
proof (induction xs arbitrary: t m w rs)
  case (Cons x xs)
  obtain r m1 w1 where s1: "sm_step cb sh x m w = (r, m1, w1)" by (cases "sm_step cb sh x m w")
  with Cons.prems(3) obtain q where q: "sm_run cb sh xs m1 w1 = (q, m', w')" "rs = r # q"
    by (auto split: prod.splits)
  obtain t1 where t1: "sled_sm_step ops js d cb sh x t w = (Inr r, t1, w1)" "sm_rel ok view js d t1 m1"
    using sled_sm_step_sim [OF assms Cons.prems(1) _ s1] Cons.prems(2) by auto
  with Cons.IH [OF t1(2) _ q(1)] Cons.prems(2) q(2) show ?case by auto
qed simp

section \<open>Properties\<close>

text \<open>
  C15. Committed entries may be handed to the state machine in any batches: the responses, the state
  and the callback effects are those of the whole sequence. There is one response per entry, whose index is the
  number of normal entries applied up to and including it; the callback has run exactly
  once for each normal entry, in log order; the last applied identifier is that of the last entry,
  and the membership that of the last membership entry.
\<close>

theorem apply_any_batching:
  "case foldl (\<lambda>(rs, s) b. case sm_apply_pair cb b s of (rs', s') \<Rightarrow> (rs @ rs', s')) ([], m, w) bs of (rs, m', w') \<Rightarrow>
     map resp_index rs = map (\<lambda>n. sm_applied_count m + of_nat (length (events_of (take (Suc n) (concat bs)))))
       [0..<length (concat bs)] \<and>
     w' = fold (run_callback cb) (events_of (concat bs)) w \<and>
     sm_applied_count m' = sm_applied_count m + of_nat (length (events_of (concat bs))) \<and>
     sm_applied_state m' =
       (if concat bs = [] then sm_last_applied_log m else Some (en_log_id (last (concat bs))),
        last (sm_last_membership m # List.map_filter membership_of (concat bs)))"
  unfolding mem_batch.run_batches_concat
  by (simp add: sm_apply_pair_def sm_apply_closed responses_def apply_result_def sm_applied_state_def)


definition ex_membership_vec :: "(unit, unit) stored_membership \<Rightarrow> bytes" where
  "ex_membership_vec s = (case stm_log_id s of None \<Rightarrow> [] | Some l \<Rightarrow> index_key (li_index l))"

definition ex_membership_of :: "bytes \<Rightarrow> (unit, unit) stored_membership" where
  "ex_membership_of b = \<lparr>stm_log_id = (if b = [] then None else Some (ex_lid (from_be_bytes b))), stm_membership = ()\<rparr>"

definition ex_opt_lid_vec :: "unit log_id option \<Rightarrow> bytes" where
  "ex_opt_lid_vec l = (case l of None \<Rightarrow> [0] | Some l \<Rightarrow> 1 # index_key (li_index l))"

definition ex_meta_vec :: "(unit, unit) snapshot_meta \<Rightarrow> bytes" where
  "ex_meta_vec s =
     (let a = ex_opt_lid_vec (sn_last_log_id s); b = ex_opt_lid_vec (stm_log_id (sn_last_membership s))
      in a @ b @ byte_str (sn_snapshot_id s))"

definition ex_opt_lid_of :: "bytes \<Rightarrow> unit log_id option \<times> bytes" where
  "ex_opt_lid_of b = (if hd b = 0 then (None, tl b) else (Some (ex_lid (from_be_bytes (take 8 (tl b)))), drop 8 (tl b)))"

definition ex_meta_of :: "bytes \<Rightarrow> (unit, unit) snapshot_meta" where
  "ex_meta_of b =
     (let (l, b) = ex_opt_lid_of b; (k, b) = ex_opt_lid_of b
      in \<lparr>sn_last_log_id = l, sn_last_membership = \<lparr>stm_log_id = k, stm_membership = ()\<rparr>,
          sn_snapshot_id = byte_chars b\<rparr>)"

definition ex_sm_json :: "(unit, unit) sm_json" where
  "ex_sm_json = \<lparr>
     js_sm_log_id = js_log_id ex_json,
     js_sm_membership = \<lparr>to_vec = \<lambda>s. Inr (ex_membership_vec s), from_slice = \<lambda>b. Inr (ex_membership_of b)\<rparr>,
     js_sm_count = \<lparr>to_vec = \<lambda>n. Inr (index_key n), from_slice = \<lambda>b. Inr (from_be_bytes b)\<rparr>,
     js_sm_meta = \<lparr>to_vec = \<lambda>s. Inr (ex_meta_vec s), from_slice = \<lambda>b. Inr (ex_meta_of b)\<rparr>\<rparr>"

lemma ex_opt_lid_round: "ex_opt_lid_of (ex_opt_lid_vec l @ b) = (l, b)"
  by (cases l) (auto simp: ex_opt_lid_of_def ex_opt_lid_vec_def ex_lid_def length_to_be_bytes [folded index_key_def])

lemma ex_sm_json_ok: "sm_json_ok ex_sm_json"
proof -
  have "index_key i \<noteq> []" for i by (metis length_to_be_bytes index_key_def list.size(3) zero_neq_numeral)
  then have "ex_membership_of (ex_membership_vec s) = s" for s
    by (cases "stm_log_id s") (auto simp: ex_membership_of_def ex_membership_vec_def ex_lid_def)
  moreover have "ex_meta_of (ex_meta_vec s) = s" for s
    by (simp add: ex_meta_of_def ex_meta_vec_def Let_def ex_opt_lid_round)
  ultimately show ?thesis
    using ex_json_ok by (simp add: sm_json_ok_def raft_json_ok_def ex_sm_json_def json_ok_def)
qed

definition ex_sm_ops :: "(unit, unit) sm_op list" where
  "ex_sm_ops = [SApply [ex_entry 1 ''a'', \<lparr>en_log_id = ex_lid 2, en_payload = Membership ()\<rparr>], SBuild,
                SApply [ex_entry 3 ''b'']]"

definition ex_default :: "(unit, unit) stored_membership" where
  "ex_default = \<lparr>stm_log_id = None, stm_membership = ()\<rparr>"


text \<open>
  A snapshot carries no events. A leader that has applied a batch and builds a snapshot gives
  out empty data; a new follower that installs it reports the same applied state as the leader,
  so openraft sends it none of those entries again, but its callback has not run (its event log
  misses every event of the batch) and its response counter is still zero.
\<close>

theorem snapshot_install_skips_events:
  "case sm_run cb sh [SApply es, SBuild] (sm_new d) w of (outs, leader, w1) \<Rightarrow>
     w1 = fold (run_callback cb) (events_of es) w \<and>
     (\<exists>rs snap. outs = [OResponses rs, OSnapshot snap] \<and> snap_data snap = [] \<and>
        (case sm_run cb sh [SInstall (snap_meta snap) (snap_data snap)] (sm_new d) w of (_, follower, w2) \<Rightarrow>
           sm_applied_state follower = sm_applied_state leader \<and>
           w2 = w \<and> sm_applied_count follower = 0))"
  by (simp add: sm_apply_closed sm_build_snapshot_def sm_install_snapshot_def sm_applied_state_def
      apply_result_def sm_new_def Let_def)

end
