(* ===== verification/File_System.thy ===== *)
theory File_System
  imports Picloud_Prelude
begin

text \<open>
  The part of \<open>std::fs\<close> and \<open>std::path\<close> that the registry and the storage backend call, on a POSIX
  file system without symbolic links. A path is the list of its components before resolution; the
  resolved path of an existing file or directory has no dot components. \<open>Path::join\<close> with an absolute
  argument replaces the path, and dot-dot components are resolved by the kernel. Whether an
  operation fails for a reason outside the model (no space, no permission, a name that is too long)
  is decided by a \<open>disk_io\<close> record; a failing \<open>fs::write\<close> may leave the file truncated.
\<close>

type_synonym path = "string list"

record fs =
  fs_dirs :: "path list"
  fs_files :: "(path \<times> string) list"

datatype write_outcome = WOk | WErr string "string option"

record disk_io =
  io_read :: "path \<Rightarrow> string option"
  io_write :: "path \<Rightarrow> write_outcome"
  io_mkdir :: "path \<Rightarrow> string option"
  io_remove :: "path \<Rightarrow> string option"
  io_read_dir :: "path \<Rightarrow> string option"

definition ok_io :: disk_io where
  "ok_io = \<lparr>io_read = \<lambda>_. None, io_write = \<lambda>_. WOk, io_mkdir = \<lambda>_. None, io_remove = \<lambda>_. None,
            io_read_dir = \<lambda>_. None\<rparr>"

definition enoent :: string where "enoent = ''No such file or directory (os error 2)''"
definition eisdir :: string where "eisdir = ''Is a directory (os error 21)''"
definition enotdir :: string where "enotdir = ''Not a directory (os error 20)''"

section \<open>Paths\<close>

definition path_join :: "path \<Rightarrow> string \<Rightarrow> path" where
  "path_join p s = (if starts_with s ''/'' then split_on slash (tl s) else p @ split_on slash s)"

definition is_dir :: "fs \<Rightarrow> path \<Rightarrow> bool" where
  "is_dir f q \<longleftrightarrow> q = [] \<or> q \<in> set (fs_dirs f)"

definition file_at :: "fs \<Rightarrow> path \<Rightarrow> string option" where
  "file_at f q = map_of (fs_files f) q"

text \<open>Path resolution: every component but the last has to be an existing directory.\<close>

fun walk :: "fs \<Rightarrow> path \<Rightarrow> path \<Rightarrow> path option" where
  "walk f cur [] = Some cur"
| "walk f cur (c # cs) =
     (if c = [] \<or> c = ''.'' then walk f cur cs
      else if c = ''..'' then walk f (butlast cur) cs
      else if cs = [] then Some (cur @ [c])
      else if is_dir f (cur @ [c]) then walk f (cur @ [c]) cs
      else None)"

definition resolve :: "fs \<Rightarrow> path \<Rightarrow> path option" where
  "resolve f p = (if list_ex (\<lambda>c. CHR 0x00 \<in> set c) p then None else walk f [] p)"

definition path_exists :: "fs \<Rightarrow> path \<Rightarrow> bool" where
  "path_exists f p =
     (case resolve f p of None \<Rightarrow> False | Some q \<Rightarrow> is_dir f q \<or> file_at f q \<noteq> None)"

definition path_is_dir :: "fs \<Rightarrow> path \<Rightarrow> bool" where
  "path_is_dir f p = (case resolve f p of None \<Rightarrow> False | Some q \<Rightarrow> is_dir f q)"

section \<open>Operations\<close>

definition fs_read :: "disk_io \<Rightarrow> fs \<Rightarrow> path \<Rightarrow> string + string" where
  "fs_read io f p =
     (case resolve f p of
        None \<Rightarrow> Inl enoent
      | Some q \<Rightarrow>
          if is_dir f q then Inl eisdir
          else (case io_read io q of
                  Some e \<Rightarrow> Inl e
                | None \<Rightarrow> (case file_at f q of None \<Rightarrow> Inl enoent | Some d \<Rightarrow> Inr d)))"

definition put_file :: "path \<Rightarrow> string \<Rightarrow> fs \<Rightarrow> fs" where
  "put_file q d f = f\<lparr>fs_files := (q, d) # filter (\<lambda>p. fst p \<noteq> q) (fs_files f)\<rparr>"

definition fs_write :: "disk_io \<Rightarrow> path \<Rightarrow> string \<Rightarrow> fs \<Rightarrow> (string + unit) \<times> fs" where
  "fs_write io p d f =
     (case resolve f p of
        None \<Rightarrow> (Inl enoent, f)
      | Some q \<Rightarrow>
          if is_dir f q then (Inl eisdir, f)
          else (case io_write io q of
                  WOk \<Rightarrow> (Inr (), put_file q d f)
                | WErr e None \<Rightarrow> (Inl e, f)
                | WErr e (Some part) \<Rightarrow> (Inl e, put_file q part f)))"

definition fs_remove_file :: "disk_io \<Rightarrow> path \<Rightarrow> fs \<Rightarrow> (string + unit) \<times> fs" where
  "fs_remove_file io p f =
     (case resolve f p of
        None \<Rightarrow> (Inl enoent, f)
      | Some q \<Rightarrow>
          if is_dir f q then (Inl eisdir, f)
          else if file_at f q = None then (Inl enoent, f)
          else (case io_remove io q of
                  Some e \<Rightarrow> (Inl e, f)
                | None \<Rightarrow> (Inr (), f\<lparr>fs_files := filter (\<lambda>p. fst p \<noteq> q) (fs_files f)\<rparr>)))"

fun make_dirs :: "disk_io \<Rightarrow> path \<Rightarrow> path \<Rightarrow> fs \<Rightarrow> (string + unit) \<times> fs" where
  "make_dirs io cur [] f = (Inr (), f)"
| "make_dirs io cur (c # cs) f =
     (if c = [] \<or> c = ''.'' then make_dirs io cur cs f
      else if c = ''..'' then make_dirs io (butlast cur) cs f
      else if is_dir f (cur @ [c]) then make_dirs io (cur @ [c]) cs f
      else if file_at f (cur @ [c]) \<noteq> None then (Inl enotdir, f)
      else (case io_mkdir io (cur @ [c]) of
              Some e \<Rightarrow> (Inl e, f)
            | None \<Rightarrow> make_dirs io (cur @ [c]) cs (f\<lparr>fs_dirs := (cur @ [c]) # fs_dirs f\<rparr>)))"

definition fs_create_dir_all :: "disk_io \<Rightarrow> path \<Rightarrow> fs \<Rightarrow> (string + unit) \<times> fs" where
  "fs_create_dir_all io p f =
     (if list_ex (\<lambda>c. CHR 0x00 \<in> set c) p then (Inl ''file name contained an unexpected NUL byte'', f)
      else make_dirs io [] p f)"

text \<open>\<open>remove_dir_all\<close> of an existing directory: everything below it goes.\<close>

definition below :: "path \<Rightarrow> path \<Rightarrow> bool" where
  "below q r \<longleftrightarrow> take (length q) r = q"

definition fs_remove_dir_all :: "disk_io \<Rightarrow> path \<Rightarrow> fs \<Rightarrow> (string + unit) \<times> fs" where
  "fs_remove_dir_all io p f =
     (case resolve f p of
        None \<Rightarrow> (Inl enoent, f)
      | Some q \<Rightarrow>
          if \<not> is_dir f q then (Inl (if file_at f q = None then enoent else enotdir), f)
          else (case io_remove io q of
                  Some e \<Rightarrow> (Inl e, f)
                | None \<Rightarrow> (Inr (), \<lparr>fs_dirs = filter (\<lambda>r. \<not> below q r) (fs_dirs f),
                                    fs_files = filter (\<lambda>r. \<not> below q (fst r)) (fs_files f)\<rparr>)))"

text \<open>\<open>read_dir\<close>: the names in a directory, in an order the caller may not rely on.\<close>

definition children :: "fs \<Rightarrow> path \<Rightarrow> string list" where
  "children f q =
     remdups (map last (filter (\<lambda>p. p \<noteq> [] \<and> butlast p = q) (fs_dirs f @ map fst (fs_files f))))"

definition fs_read_dir :: "disk_io \<Rightarrow> fs \<Rightarrow> path \<Rightarrow> string + string list" where
  "fs_read_dir io f p =
     (case resolve f p of
        None \<Rightarrow> Inl enoent
      | Some q \<Rightarrow>
          if \<not> is_dir f q then Inl (if file_at f q = None then enoent else enotdir)
          else (case io_read_dir io q of Some e \<Rightarrow> Inl e | None \<Rightarrow> Inr (children f q)))"

section \<open>Plain names\<close>

text \<open>A name that can only denote an entry of the directory it is looked up in.\<close>

definition plain :: "string \<Rightarrow> bool" where
  "plain c \<longleftrightarrow> c \<noteq> [] \<and> c \<noteq> ''.'' \<and> c \<noteq> ''..'' \<and> slash \<notin> set c \<and> CHR 0x00 \<notin> set c"

text \<open>A directory whose whole chain of ancestors exists.\<close>

definition dir_chain :: "fs \<Rightarrow> path \<Rightarrow> bool" where
  "dir_chain f p \<longleftrightarrow> list_all plain p \<and> (\<forall>n \<le> length p. is_dir f (take n p))"

lemma dir_chain_code [code]:
  "dir_chain f p \<longleftrightarrow> list_all plain p \<and> list_all (\<lambda>n. is_dir f (take n p)) [0..<Suc (length p)]"
  unfolding dir_chain_def list_all_iff set_upt by (auto simp only: atLeastLessThan_iff less_Suc_eq_le)

lemma dir_chain_take: "dir_chain f p \<Longrightarrow> n \<le> length p \<Longrightarrow> is_dir f (take n p)"
  by (simp add: dir_chain_def)

lemma dir_chain_plain: "dir_chain f p \<Longrightarrow> list_all plain p"
  by (simp add: dir_chain_def)

lemma dir_chain_is_dir [simp]: "dir_chain f p \<Longrightarrow> is_dir f p"
  using dir_chain_take [of f p "length p"] by simp

lemma all_le_Suc: "(\<forall>n \<le> Suc k. P n) \<longleftrightarrow> (\<forall>n \<le> k. P n) \<and> P (Suc k)"
  by (metis le_Suc_eq)

lemma dir_chain_snoc: "dir_chain f (p @ [c]) \<longleftrightarrow> dir_chain f p \<and> plain c \<and> is_dir f (p @ [c])"
proof -
  have "(\<forall>n \<le> length p. is_dir f (take n (p @ [c]))) \<longleftrightarrow> (\<forall>n \<le> length p. is_dir f (take n p))" by simp
  then show ?thesis by (simp only: dir_chain_def length_append_singleton all_le_Suc list_all_append) auto
qed

lemma dir_chain_mono: "dir_chain f p \<Longrightarrow> set (fs_dirs f) \<subseteq> set (fs_dirs g) \<Longrightarrow> dir_chain g p"
  by (auto simp: dir_chain_def is_dir_def)

lemma walk_chain:
  assumes "list_all plain cs" "\<And>n. n < length cs \<Longrightarrow> is_dir f (cur @ take n cs)"
  shows "walk f cur cs = Some (cur @ cs)"
  using assms
proof (induction cs arbitrary: cur)
  case (Cons c cs)
  have c: "c \<noteq> []" "c \<noteq> ''.''" "c \<noteq> ''..''" using Cons.prems(1) by (auto simp: plain_def)
  show ?case
  proof (cases "cs = []")
    case False
    then have "is_dir f (cur @ [c])" using Cons.prems(2) [of 1] by (cases cs) auto
    moreover have "is_dir f ((cur @ [c]) @ take n cs)" if "n < length cs" for n
      using Cons.prems(2) [of "Suc n"] that by simp
    ultimately show ?thesis using Cons.IH [of "cur @ [c]"] Cons.prems(1) c False by simp
  qed (use c in simp)
qed simp

lemma resolve_child:
  assumes "dir_chain f p" "plain c"
  shows "resolve f (p @ [c]) = Some (p @ [c])"
proof -
  have p: "list_all plain (p @ [c])" using assms by (simp add: dir_chain_def)
  have "walk f [] (p @ [c]) = Some ([] @ p @ [c])"
    using p by (rule walk_chain) (simp add: dir_chain_take [OF assms(1)])
  moreover have "\<not> list_ex (\<lambda>c. CHR 0x00 \<in> set c) (p @ [c])"
    using p by (auto simp: list_ex_iff list_all_iff plain_def)
  ultimately show ?thesis by (simp add: resolve_def)
qed

lemma resolve_chain: "dir_chain f p \<Longrightarrow> resolve f p = Some p"
proof (cases p rule: rev_cases)
  case (snoc q c)
  then show "dir_chain f p \<Longrightarrow> resolve f p = Some p" by (simp add: dir_chain_snoc resolve_child)
qed (simp add: resolve_def)

lemma path_join_plain: "plain c \<Longrightarrow> path_join p c = p @ [c]"
  by (cases c) (auto simp: path_join_def plain_def starts_with_def split_on_none)

lemma file_at_put [simp]: "file_at (put_file q d f) r = (if r = q then Some d else file_at f r)"
  by (simp add: file_at_def put_file_def map_of_filter_key [where P = "\<lambda>k. k \<noteq> q"])

lemma is_dir_put [simp]: "is_dir (put_file q d f) r = is_dir f r"
  by (simp add: is_dir_def put_file_def)

lemma dir_chain_put [simp]: "dir_chain (put_file q d f) p = dir_chain f p"
  by (simp add: dir_chain_def)

lemma file_at_remove [simp]:
  "file_at (f\<lparr>fs_files := filter (\<lambda>p. fst p \<noteq> q) (fs_files f)\<rparr>) r = (if r = q then None else file_at f r)"
  by (simp add: file_at_def map_of_filter_key [where P = "\<lambda>k. k \<noteq> q"])

lemma is_dir_files_upd [simp]: "is_dir (f\<lparr>fs_files := x\<rparr>) r = is_dir f r"
  by (simp add: is_dir_def)

lemma dir_chain_files_upd [simp]: "dir_chain (f\<lparr>fs_files := x\<rparr>) p = dir_chain f p"
  by (simp add: dir_chain_def)

lemma set_children: "set (children f q) = {c. q @ [c] \<in> set (fs_dirs f) \<or> file_at f (q @ [c]) \<noteq> None}"
proof -
  have f: "p \<in> fst ` set (fs_files f) \<longleftrightarrow> file_at f p \<noteq> None" for p
    by (simp add: file_at_def map_of_eq_None_iff)
  have l: "last ` {p \<in> A. p \<noteq> [] \<and> butlast p = q} = {c. q @ [c] \<in> A}" for A :: "string list set"
  proof (intro set_eqI iffI)
    fix c assume "c \<in> last ` {p \<in> A. p \<noteq> [] \<and> butlast p = q}"
    then show "c \<in> {c. q @ [c] \<in> A}" using append_butlast_last_id by fastforce
  next
    fix c assume "c \<in> {c. q @ [c] \<in> A}"
    then show "c \<in> last ` {p \<in> A. p \<noteq> [] \<and> butlast p = q}" by (intro image_eqI [of _ _ "q @ [c]"]) auto
  qed
  have "set (children f q) = {c. q @ [c] \<in> set (fs_dirs f) \<union> fst ` set (fs_files f)}"
    by (simp only: children_def set_remdups set_map set_filter set_append l)
  then show ?thesis by (simp add: f)
qed

section \<open>Laws of the operations\<close>

definition show_path :: "path \<Rightarrow> string" where
  "show_path p = concat (map (\<lambda>c. slash # c) p)"

definition wf_fs :: "fs \<Rightarrow> bool" where
  "wf_fs f \<longleftrightarrow> list_all (\<lambda>p. \<not> is_dir f (fst p)) (fs_files f)"

lemma wf_fs_file: "wf_fs f \<Longrightarrow> file_at f q = Some d \<Longrightarrow> \<not> is_dir f q"
  by (force simp: wf_fs_def file_at_def list_all_iff dest!: map_of_SomeD)

lemma wf_fs_put [simp]: "wf_fs f \<Longrightarrow> \<not> is_dir f q \<Longrightarrow> wf_fs (put_file q d f)"
  by (auto simp: wf_fs_def list_all_iff) (auto simp: put_file_def)

lemma wf_fs_filter [simp]: "wf_fs f \<Longrightarrow> wf_fs (f\<lparr>fs_files := filter P (fs_files f)\<rparr>)"
  by (auto simp: wf_fs_def list_all_iff)

lemma make_dirs_frame:
  "make_dirs io cur cs f = (r, g) \<Longrightarrow>
     fs_files g = fs_files f \<and> set (fs_dirs f) \<subseteq> set (fs_dirs g) \<and> (wf_fs f \<longrightarrow> wf_fs g)"
proof (induction io cur cs f rule: make_dirs.induct)
  case (2 io cur c cs f)
  show ?case
  proof (cases "c = [] \<or> c = ''.'' \<or> c = ''..'' \<or> is_dir f (cur @ [c]) \<or> file_at f (cur @ [c]) \<noteq> None
      \<or> io_mkdir io (cur @ [c]) \<noteq> None")
    case True
    with 2 show ?thesis by (auto split: if_splits option.splits)
  next
    case False
    let ?f = "f\<lparr>fs_dirs := (cur @ [c]) # fs_dirs f\<rparr>"
    have "wf_fs f \<longrightarrow> wf_fs ?f"
      using False by (fastforce simp: wf_fs_def is_dir_def list_all_iff file_at_def map_of_eq_None_iff image_iff)
    with 2(4) False 2(5) show ?thesis by (auto split: if_splits option.splits)
  qed
qed simp

lemma make_dirs_only:
  "list_all plain cs \<Longrightarrow> make_dirs io cur cs f = (r, g) \<Longrightarrow> is_dir g q \<Longrightarrow>
     is_dir f q \<or> (\<exists>n \<le> length cs. q = cur @ take n cs)"
proof (induction cs arbitrary: cur f)
  case (Cons c cs)
  have c: "c \<noteq> []" "c \<noteq> ''.''" "c \<noteq> ''..''" using Cons.prems(1) by (auto simp: plain_def)
  have step: "is_dir f q \<or> (\<exists>n \<le> length (c # cs). q = cur @ take n (c # cs))"
    if "make_dirs io (cur @ [c]) cs h = (r, g)" "is_dir h q \<Longrightarrow> is_dir f q \<or> q = cur @ [c]" for h
    using Cons.IH [OF _ that(1) Cons.prems(3)] Cons.prems(1) that(2)
    by (auto intro: exI [of _ "Suc _"] exI [of _ 1])
  consider "is_dir f (cur @ [c])" "make_dirs io (cur @ [c]) cs f = (r, g)"
    | "g = f"
    | "make_dirs io (cur @ [c]) cs (f\<lparr>fs_dirs := (cur @ [c]) # fs_dirs f\<rparr>) = (r, g)"
    using Cons.prems(2) c by (auto split: if_splits option.splits)
  then show ?case
  proof cases
    case 1
    show ?thesis by (rule step [OF 1(2)]) blast
  next
    case 2
    with Cons.prems(3) show ?thesis by simp
  next
    case 3
    then show ?thesis by (rule step) (auto simp: is_dir_def)
  qed
qed auto

lemma make_dirs_done:
  "list_all plain cs \<Longrightarrow> make_dirs io cur cs f = (Inr u, g) \<Longrightarrow> is_dir f cur \<Longrightarrow> n \<le> length cs \<Longrightarrow>
     is_dir g (cur @ take n cs)"
proof (induction cs arbitrary: cur f n)
  case Nil
  then show ?case by simp
next
  case (Cons c cs)
  have c: "c \<noteq> []" "c \<noteq> ''.''" "c \<noteq> ''..''" using Cons.prems(1) by (auto simp: plain_def)
  have sub: "is_dir g cur"
    using make_dirs_frame [OF Cons.prems(2)] Cons.prems(3) by (auto simp: is_dir_def)
  show ?case
  proof (cases n)
    case 0
    with sub show ?thesis by simp
  next
    case (Suc k)
    have "is_dir g ((cur @ [c]) @ take k cs)"
      if "make_dirs io (cur @ [c]) cs h = (Inr u, g)" "is_dir h (cur @ [c])" for h
      using Cons.IH [OF _ that] Cons.prems(1,4) Suc by simp
    with Cons.prems(2) c Suc show ?thesis
      by (auto split: if_splits option.splits simp: is_dir_def)
  qed
qed

lemma walk_plain: "list_all plain cs \<Longrightarrow> walk f cur cs = None \<or> walk f cur cs = Some (cur @ cs)"
proof (induction cs arbitrary: cur)
  case (Cons c cs)
  then show ?case using Cons.IH [of "cur @ [c]"] by (auto simp: plain_def)
qed simp

lemma resolve_plain: "list_all plain p \<Longrightarrow> resolve f p = Some q \<Longrightarrow> q = p"
  using walk_plain [of p f "[]"] by (auto simp: resolve_def split: if_splits)

lemma show_path_split: "list_all plain q \<Longrightarrow> q \<noteq> [] \<Longrightarrow> split_on slash (tl (show_path q)) = q"
proof (induction q)
  case (Cons c q)
  have c: "slash \<notin> set c" using Cons.prems(1) by (simp add: plain_def)
  show ?case
  proof (cases "q = []")
    case True
    with c show ?thesis by (simp add: show_path_def split_on_none)
  next
    case False
    have "tl (show_path (c # q)) = c @ slash # tl (show_path q)"
      using False by (cases q) (simp_all add: show_path_def)
    with Cons False c show ?thesis by (simp add: split_on_app)
  qed
qed simp

lemma show_path_absolute: "q \<noteq> [] \<Longrightarrow> starts_with (show_path q) ''/''"
  by (cases q) (simp_all add: show_path_def starts_with_def)

lemma path_join_absolute:
  assumes "list_all plain q" "q \<noteq> []"
  shows "path_join p (show_path q) = q"
  using assms show_path_absolute show_path_split by (simp add: path_join_def)

lemma make_dirs_existing:
  assumes "dir_chain f (cur @ cs)"
  shows "make_dirs io cur cs f = (Inr (), f)"
  using assms
proof (induction cs arbitrary: cur)
  case (Cons c cs)
  have "plain c" using dir_chain_plain [OF Cons.prems] by simp
  moreover have "is_dir f (cur @ [c])" using dir_chain_take [OF Cons.prems, of "Suc (length cur)"] by simp
  ultimately show ?case using Cons.IH [of "cur @ [c]"] Cons.prems by (auto simp: plain_def)
qed simp

lemma create_dir_existing: "dir_chain f p \<Longrightarrow> fs_create_dir_all io p f = (Inr (), f)"
proof -
  assume c: "dir_chain f p"
  then have "\<not> list_ex (\<lambda>c. CHR 0x00 \<in> set c) p"
    by (auto simp: list_ex_iff list_all_iff plain_def dest!: dir_chain_plain)
  with make_dirs_existing [of f "[]" p io] c show ?thesis by (simp add: fs_create_dir_all_def)
qed

lemma fs_write_ok:
  assumes "dir_chain f p" "plain c" "\<not> is_dir f (p @ [c])"
  shows "fs_write ok_io (p @ [c]) d f = (Inr (), put_file (p @ [c]) d f)"
  using assms resolve_child [OF assms(1,2)] by (simp add: fs_write_def ok_io_def)

text \<open>Writes below a directory do not touch files elsewhere.\<close>

lemma fs_write_frame:
  assumes "list_all plain p" "p \<noteq> q"
  shows "file_at (snd (fs_write io p d f)) q = file_at f q"
  using assms resolve_plain [OF assms(1)]
  by (auto simp: fs_write_def split: option.splits write_outcome.splits)

lemma make_dirs_success:
  assumes "list_all plain cs" "\<And>n. file_at f (cur @ take n cs) = None"
  shows "\<exists>g. make_dirs ok_io cur cs f = (Inr (), g)"
  using assms
proof (induction cs arbitrary: cur f)
  case (Cons c cs)
  have c: "c \<noteq> []" "c \<noteq> ''.''" "c \<noteq> ''..''" using Cons.prems(1) by (auto simp: plain_def)
  have n: "file_at h ((cur @ [c]) @ take n cs) = None" if "fs_files h = fs_files f" for h n
    using Cons.prems(2) [of "Suc n"] that by (simp add: file_at_def)
  have "file_at f (cur @ [c]) = None" using Cons.prems(2) [of 1] by simp
  with c Cons.IH [of f "cur @ [c]"] Cons.IH [of "f\<lparr>fs_dirs := (cur @ [c]) # fs_dirs f\<rparr>" "cur @ [c]"] Cons.prems(1) n
  show ?case by (auto simp: ok_io_def)
qed simp

lemma create_dir_success:
  assumes "list_all plain p" "\<And>n. file_at f (take n p) = None"
  obtains g where "fs_create_dir_all ok_io p f = (Inr (), g)" "dir_chain g p" "fs_files g = fs_files f"
    "set (fs_dirs f) \<subseteq> set (fs_dirs g)" "\<And>q. is_dir g q \<Longrightarrow> is_dir f q \<or> (\<exists>n \<le> length p. q = take n p)"
proof -
  obtain g where g: "make_dirs ok_io [] p f = (Inr (), g)"
    using make_dirs_success [OF assms(1), of f "[]"] assms(2) by auto
  have "is_dir g (take n p)" if "n \<le> length p" for n
    using make_dirs_done [OF assms(1) g _ that] by (simp only: append_Nil is_dir_def [of f] simp_thms)
  then have "dir_chain g p" unfolding dir_chain_def using assms(1) by blast
  moreover have "fs_create_dir_all ok_io p f = (Inr (), g)"
    using g assms(1) by (auto simp: fs_create_dir_all_def list_ex_iff list_all_iff plain_def)
  moreover have "is_dir f q \<or> (\<exists>n \<le> length p. q = take n p)" if "is_dir g q" for q
    using make_dirs_only [OF assms(1) g that] by simp
  ultimately show thesis using that make_dirs_frame [OF g] by blast
qed

lemma file_on_chain:
  assumes "wf_fs f" "dir_chain f p"
  shows "file_at f (take n p) = None"
proof -
  have "is_dir f (take n p)"
    using dir_chain_take [OF assms(2), of n] dir_chain_is_dir [OF assms(2)] by (cases "n \<le> length p") simp_all
  then show ?thesis using wf_fs_file [OF assms(1)] by (cases "file_at f (take n p)") auto
qed

end
