(* ===== verification/Registry.thy ===== *)
theory Registry
  imports Domain_Types File_System "HOL-Library.List_Lexorder" "HOL-Library.Char_ord"
begin

text \<open>
  The OCI registry: the content-addressed blob store (\<open>blob_store.rs\<close>), the backend with its
  manifests (\<open>implementation.rs\<close>) and the mark-and-sweep collector (\<open>gc.rs\<close>) of
  \<open>crates/picloud-registry/src\<close>. SHA-256 and \<open>serde_json\<close> values are third-party code: the digest
  function and the accessors of parsed JSON are arguments. File contents are byte sequences, here
  \<open>string\<close>. Each operation takes the \<open>disk_io\<close> that decides which of its system calls fail.
\<close>

section \<open>Shared helpers\<close>

definition hex_digit :: "nat \<Rightarrow> char" where
  "hex_digit n = (if n < 10 then digit_char n else char_of (87 + n))"

definition hex_encode :: "bytes \<Rightarrow> string" where
  "hex_encode bs = concat (map (\<lambda>b. [hex_digit (unat b div 16), hex_digit (unat b mod 16)]) bs)"

text \<open>\<open>Path::parent\<close>: empty and dot components do not count.\<close>

definition path_parent :: "path \<Rightarrow> path option" where
  "path_parent p = (let q = filter (\<lambda>c. c \<noteq> [] \<and> c \<noteq> ''.'') p in if q = [] then None else Some (butlast q))"

text \<open>The check that \<open>read_to_string\<close> makes: well-formed UTF-8.\<close>

fun utf8_ok :: "nat list \<Rightarrow> bool" where
  "utf8_ok [] = True"
| "utf8_ok (b # bs) =
     (let cont = (\<lambda>x. 128 \<le> x \<and> x \<le> 191) in
      if b < 128 then utf8_ok bs
      else if 194 \<le> b \<and> b \<le> 223 then
        (case bs of c # r \<Rightarrow> cont c \<and> utf8_ok r | _ \<Rightarrow> False)
      else if 224 \<le> b \<and> b \<le> 239 then
        (case bs of c # d # r \<Rightarrow>
           cont c \<and> cont d \<and> (b = 224 \<longrightarrow> 160 \<le> c) \<and> (b = 237 \<longrightarrow> c \<le> 159) \<and> utf8_ok r | _ \<Rightarrow> False)
      else if 240 \<le> b \<and> b \<le> 244 then
        (case bs of c # d # e # r \<Rightarrow>
           cont c \<and> cont d \<and> cont e \<and> (b = 240 \<longrightarrow> 144 \<le> c) \<and> (b = 244 \<longrightarrow> c \<le> 143) \<and> utf8_ok r
         | _ \<Rightarrow> False)
      else False)"

definition fs_read_to_string :: "disk_io \<Rightarrow> fs \<Rightarrow> path \<Rightarrow> string + string" where
  "fs_read_to_string io f p =
     and_then (fs_read io f p) (\<lambda>d.
       if utf8_ok (map of_char d) then Inr d else Inl ''stream did not contain valid UTF-8'')"

section \<open>The blob store\<close>

definition strip_sha :: "string \<Rightarrow> string" where
  "strip_sha digest = (case strip_prefix ''sha256:'' digest of Some h \<Rightarrow> h | None \<Rightarrow> digest)"

definition blob_new :: "disk_io \<Rightarrow> path \<Rightarrow> fs \<Rightarrow> (picloud_error + unit) \<times> fs" where
  "blob_new io root f =
     (let blobs_dir = path_join root ''sha256''
      in case fs_create_dir_all io blobs_dir f of
           (Inl e, f) \<Rightarrow> (Inl (RegistryError (''Failed to create blob store at '' @ show_path blobs_dir @ '': '' @ e)), f)
         | (Inr _, f) \<Rightarrow> (Inr (), f))"

definition blob_path :: "path \<Rightarrow> string \<Rightarrow> path" where
  "blob_path root digest = path_join (path_join root ''sha256'') (strip_sha digest)"

definition blob_put ::
  "(string \<Rightarrow> bytes) \<Rightarrow> disk_io \<Rightarrow> path \<Rightarrow> string \<Rightarrow> string \<Rightarrow> fs \<Rightarrow> (picloud_error + unit) \<times> fs" where
  "blob_put sha256 io root digest data f =
     (let expected_hash = strip_sha digest;
          actual_hash = hex_encode (sha256 data)
      in if actual_hash \<noteq> expected_hash
         then (Inl (RegistryError (''Digest mismatch: expected sha256:'' @ expected_hash @ '', got sha256:'' @ actual_hash)), f)
         else let path = blob_path root digest
              in if path_exists f path then (Inr (), f)
                 else (case fs_write io path data f of
                         (Inl e, f) \<Rightarrow> (Inl (RegistryError (''Failed to write blob '' @ digest @ '': '' @ e)), f)
                       | (Inr _, f) \<Rightarrow> (Inr (), f)))"

definition blob_get :: "disk_io \<Rightarrow> path \<Rightarrow> string \<Rightarrow> fs \<Rightarrow> picloud_error + string" where
  "blob_get io root digest f =
     (case fs_read io f (blob_path root digest) of Inl _ \<Rightarrow> Inl (BlobNotFound digest) | Inr d \<Rightarrow> Inr d)"

definition blob_exists :: "path \<Rightarrow> string \<Rightarrow> fs \<Rightarrow> bool" where
  "blob_exists root digest f = path_exists f (blob_path root digest)"

definition blob_delete :: "disk_io \<Rightarrow> path \<Rightarrow> string \<Rightarrow> fs \<Rightarrow> (picloud_error + unit) \<times> fs" where
  "blob_delete io root digest f =
     (let path = blob_path root digest
      in if path_exists f path
         then (case fs_remove_file io path f of
                 (Inl e, f) \<Rightarrow> (Inl (RegistryError (''Failed to delete blob '' @ digest @ '': '' @ e)), f)
               | (Inr _, f) \<Rightarrow> (Inr (), f))
         else (Inr (), f))"

definition blob_list_digests :: "disk_io \<Rightarrow> path \<Rightarrow> fs \<Rightarrow> picloud_error + string list" where
  "blob_list_digests io root f =
     (case fs_read_dir io f (path_join root ''sha256'') of
        Inl e \<Rightarrow> Inl (RegistryError (''Failed to read blob directory: '' @ e))
      | Inr names \<Rightarrow> Inr (map (\<lambda>name. ''sha256:'' @ name) names))"

text \<open>\<open>total_size\<close> opens the directory twice; a failure of the first is \<open>unreachable!\<close>, a panic
  (None). \<open>dir_len\<close> is the length the file system reports for a directory.\<close>

definition blob_total_size ::
  "disk_io \<Rightarrow> (path \<Rightarrow> u64) \<Rightarrow> path \<Rightarrow> fs \<Rightarrow> (picloud_error + u64) option" where
  "blob_total_size io dir_len root f =
     (let sha_dir = path_join root ''sha256''
      in case fs_read_dir io f sha_dir of
           Inl _ \<Rightarrow> None
         | Inr _ \<Rightarrow>
             Some (case fs_read_dir io f sha_dir of
                     Inl e \<Rightarrow> Inl (RegistryError (''Failed to read blob directory: '' @ e))
                   | Inr names \<Rightarrow>
                       Inr (sum_list (map (\<lambda>n. case file_at f (sha_dir @ [n]) of
                                                   Some d \<Rightarrow> of_nat (length d)
                                                 | None \<Rightarrow> dir_len (sha_dir @ [n])) names))))"

section \<open>Garbage collection\<close>

text \<open>The calls on a parsed \<open>serde_json::Value\<close>.\<close>

record 'j value_ops =
  vo_parse :: "string \<Rightarrow> 'j option"
  vo_get :: "'j \<Rightarrow> string \<Rightarrow> 'j option"
  vo_as_str :: "'j \<Rightarrow> string option"
  vo_as_array :: "'j \<Rightarrow> 'j list option"

definition digest_of :: "'j value_ops \<Rightarrow> 'j \<Rightarrow> string list" where
  "digest_of vo v = (case Option.bind (vo_get vo v ''digest'') (vo_as_str vo) of Some d \<Rightarrow> [d] | None \<Rightarrow> [])"

definition extract_digests_from_manifest :: "'j value_ops \<Rightarrow> string \<Rightarrow> string list" where
  "extract_digests_from_manifest vo manifest_json =
     (case vo_parse vo manifest_json of
        None \<Rightarrow> []
      | Some manifest \<Rightarrow>
          (case vo_get vo manifest ''config'' of Some config \<Rightarrow> digest_of vo config | None \<Rightarrow> []) @
          (case Option.bind (vo_get vo manifest ''layers'') (vo_as_array vo) of
             Some layers \<Rightarrow> concat (map (digest_of vo) layers)
           | None \<Rightarrow> []) @
          digest_of vo manifest)"

text \<open>The names that a \<open>read_dir\<close> whose error is ignored yields.\<close>

definition entries_or_none :: "disk_io \<Rightarrow> fs \<Rightarrow> path \<Rightarrow> string list" where
  "entries_or_none io f p = (case fs_read_dir io f p of Inl _ \<Rightarrow> [] | Inr names \<Rightarrow> names)"

definition manifest_digests :: "'j value_ops \<Rightarrow> disk_io \<Rightarrow> fs \<Rightarrow> path \<Rightarrow> string list" where
  "manifest_digests vo io f repo_dir =
     (let manifests_dir = path_join repo_dir ''manifests''
      in if \<not> path_exists f manifests_dir then []
         else concat (map (\<lambda>name.
                case fs_read_to_string io f (manifests_dir @ [name]) of
                  Inl _ \<Rightarrow> []
                | Inr content \<Rightarrow> extract_digests_from_manifest vo content) (entries_or_none io f manifests_dir)))"

definition collect_referenced_digests ::
  "'j value_ops \<Rightarrow> disk_io \<Rightarrow> path \<Rightarrow> fs \<Rightarrow> picloud_error + string list" where
  "collect_referenced_digests vo io repositories_root f =
     (if \<not> path_exists f repositories_root then Inr []
      else case fs_read_dir io f repositories_root of
        Inl e \<Rightarrow> Inl (RegistryError (''Failed to read repositories dir: '' @ e))
      | Inr products \<Rightarrow>
          Inr (concat (map (\<lambda>product.
            if \<not> is_dir f (repositories_root @ [product]) then []
            else concat (map (\<lambda>repo.
                   if \<not> is_dir f (repositories_root @ [product, repo]) then []
                   else manifest_digests vo io f (repositories_root @ [product, repo]))
                 (entries_or_none io f (repositories_root @ [product])))) products)))"

record gc_result =
  gc_blobs_scanned :: u64
  gc_blobs_deleted :: u64
  gc_bytes_freed :: u64

fun gc_sweep ::
  "disk_io \<Rightarrow> path \<Rightarrow> string list \<Rightarrow> string list \<Rightarrow> u64 \<Rightarrow> u64 \<Rightarrow> fs \<Rightarrow> u64 \<times> u64 \<times> fs" where
  "gc_sweep io root referenced [] deleted freed f = (deleted, freed, f)"
| "gc_sweep io root referenced (digest # digests) deleted freed f =
     (if digest \<in> set referenced then gc_sweep io root referenced digests deleted freed f
      else
        let freed = (case blob_get io root digest f of Inr data \<Rightarrow> freed + of_nat (length data) | Inl _ \<Rightarrow> freed)
        in case blob_delete io root digest f of
             (Inl _, f) \<Rightarrow> gc_sweep io root referenced digests deleted freed f
           | (Inr _, f) \<Rightarrow> gc_sweep io root referenced digests (deleted + 1) freed f)"

definition gc_collect ::
  "'j value_ops \<Rightarrow> disk_io \<Rightarrow> path \<Rightarrow> path \<Rightarrow> fs \<Rightarrow> (picloud_error + gc_result) \<times> fs" where
  "gc_collect vo io repositories_root blob_root f =
     (case collect_referenced_digests vo io repositories_root f of
        Inl e \<Rightarrow> (Inl e, f)
      | Inr referenced \<Rightarrow>
          (case blob_list_digests io blob_root f of
             Inl e \<Rightarrow> (Inl e, f)
           | Inr all_digests \<Rightarrow>
               (case gc_sweep io blob_root referenced all_digests 0 0 f of
                  (deleted, freed, f) \<Rightarrow>
                    (Inr \<lparr>gc_blobs_scanned = of_nat (length all_digests), gc_blobs_deleted = deleted,
                          gc_bytes_freed = freed\<rparr>, f))))"

section \<open>The backend\<close>

definition sanitize_reference :: "string \<Rightarrow> string" where
  "sanitize_reference reference = map (\<lambda>c. if c = CHR '':'' then CHR ''_'' else c) reference"

definition registry_new :: "disk_io \<Rightarrow> path \<Rightarrow> fs \<Rightarrow> (picloud_error + unit) \<times> fs" where
  "registry_new io root f =
     (case fs_create_dir_all io (path_join root ''blobs'') f of
        (Inl e, f) \<Rightarrow> (Inl (RegistryError (''Failed to create blobs dir: '' @ e)), f)
      | (Inr _, f) \<Rightarrow>
     (case fs_create_dir_all io (path_join root ''repositories'') f of
        (Inl e, f) \<Rightarrow> (Inl (RegistryError (''Failed to create repositories dir: '' @ e)), f)
      | (Inr _, f) \<Rightarrow>
     (case fs_create_dir_all io (path_join root ''uploads'') f of
        (Inl e, f) \<Rightarrow> (Inl (RegistryError (''Failed to create uploads dir: '' @ e)), f)
      | (Inr _, f) \<Rightarrow> blob_new io (path_join root ''blobs'') f)))"

definition repositories_dir :: "path \<Rightarrow> path" where
  "repositories_dir root = path_join root ''repositories''"

definition manifest_path :: "path \<Rightarrow> string \<Rightarrow> string \<Rightarrow> path" where
  "manifest_path root repository reference =
     path_join (path_join (path_join (repositories_dir root) repository) ''manifests'') (sanitize_reference reference)"

definition manifest_content_type_path :: "path \<Rightarrow> string \<Rightarrow> string \<Rightarrow> path" where
  "manifest_content_type_path root repository reference =
     path_join (path_join (path_join (repositories_dir root) repository) ''manifests'')
       (sanitize_reference reference @ ''.content-type'')"

definition uploads_dir :: "path \<Rightarrow> path" where
  "uploads_dir root = path_join root ''uploads''"

abbreviation blobs_root :: "path \<Rightarrow> path" where
  "blobs_root root \<equiv> path_join root ''blobs''"

definition put_manifest ::
  "(string \<Rightarrow> bytes) \<Rightarrow> disk_io \<Rightarrow> path \<Rightarrow> string \<Rightarrow> string \<Rightarrow> string \<Rightarrow> string \<Rightarrow> fs
   \<Rightarrow> (picloud_error + string) \<times> fs" where
  "put_manifest sha256 io root repository reference content_type data f =
     (let digest = ''sha256:'' @ hex_encode (sha256 data);
          mpath = manifest_path root repository reference;
          ct_path = manifest_content_type_path root repository reference
      in case (case path_parent mpath of Some parent \<Rightarrow> fs_create_dir_all io parent f | None \<Rightarrow> (Inr (), f)) of
           (Inl e, f) \<Rightarrow> (Inl (RegistryError (''Failed to create manifest dir: '' @ e)), f)
         | (Inr _, f) \<Rightarrow>
      (case fs_write io mpath data f of
           (Inl e, f) \<Rightarrow> (Inl (RegistryError (''Failed to write manifest: '' @ e)), f)
         | (Inr _, f) \<Rightarrow>
      (case fs_write io ct_path content_type f of
           (Inl e, f) \<Rightarrow> (Inl (RegistryError (''Failed to write content-type: '' @ e)), f)
         | (Inr _, f) \<Rightarrow>
             let f = (if starts_with reference ''sha256:'' then f
                      else snd (fs_write io (manifest_content_type_path root repository digest) content_type
                             (snd (fs_write io (manifest_path root repository digest) data f))));
                 f = snd (blob_put sha256 io (blobs_root root) digest data f)
             in (Inr digest, f))))"

definition default_manifest_type :: string where
  "default_manifest_type = ''application/vnd.oci.image.manifest.v1+json''"

definition get_manifest :: "disk_io \<Rightarrow> path \<Rightarrow> string \<Rightarrow> string \<Rightarrow> fs \<Rightarrow> picloud_error + string \<times> string" where
  "get_manifest io root repository reference f =
     (case fs_read io f (manifest_path root repository reference) of
        Inl _ \<Rightarrow> Inl (ImageNotFound repository reference)
      | Inr data \<Rightarrow>
          Inr (case fs_read_to_string io f (manifest_content_type_path root repository reference) of
                 Inl _ \<Rightarrow> default_manifest_type
               | Inr ct \<Rightarrow> ct, data))"

definition delete_manifest :: "disk_io \<Rightarrow> path \<Rightarrow> string \<Rightarrow> string \<Rightarrow> fs \<Rightarrow> (picloud_error + unit) \<times> fs" where
  "delete_manifest io root repository reference f =
     (let f = snd (fs_remove_file io (manifest_path root repository reference) f);
          f = snd (fs_remove_file io (manifest_content_type_path root repository reference) f)
      in (Inr (), f))"

definition list_tags :: "disk_io \<Rightarrow> path \<Rightarrow> string \<Rightarrow> fs \<Rightarrow> picloud_error + string list" where
  "list_tags io root repository f =
     (let manifests_dir = path_join (path_join (repositories_dir root) repository) ''manifests''
      in if \<not> path_exists f manifests_dir then Inr []
         else case fs_read_dir io f manifests_dir of
           Inl e \<Rightarrow> Inl (RegistryError (''Failed to read manifests dir: '' @ e))
         | Inr names \<Rightarrow>
             Inr (sort (filter (\<lambda>name. \<not> ends_with name ''.content-type'' \<and> \<not> starts_with name ''sha256_'') names)))"

definition list_repositories :: "disk_io \<Rightarrow> path \<Rightarrow> fs \<Rightarrow> picloud_error + string list" where
  "list_repositories io root f =
     (let repos_dir = repositories_dir root
      in if \<not> path_exists f repos_dir then Inr []
         else case fs_read_dir io f repos_dir of
           Inl e \<Rightarrow> Inl (RegistryError (''Failed to read repositories: '' @ e))
         | Inr products \<Rightarrow>
             Inr (sort (concat (map (\<lambda>product.
               if \<not> is_dir f (repos_dir @ [product]) then []
               else map (\<lambda>name. product @ ''/'' @ name)
                      (filter (\<lambda>name. is_dir f (repos_dir @ [product, name]))
                        (entries_or_none io f (repos_dir @ [product])))) products))))"

text \<open>The session identifier is a random UUID, an argument here.\<close>

definition start_blob_upload :: "string \<Rightarrow> disk_io \<Rightarrow> path \<Rightarrow> fs \<Rightarrow> (picloud_error + string) \<times> fs" where
  "start_blob_upload uuid io root f =
     (case fs_write io (path_join (uploads_dir root) uuid) [] f of
        (Inl e, f) \<Rightarrow> (Inl (RegistryError (''Failed to create upload session: '' @ e)), f)
      | (Inr _, f) \<Rightarrow> (Inr uuid, f))"

definition garbage_collect :: "'j value_ops \<Rightarrow> disk_io \<Rightarrow> path \<Rightarrow> fs \<Rightarrow> (picloud_error + gc_result) \<times> fs" where
  "garbage_collect vo io root f = gc_collect vo io (repositories_dir root) (blobs_root root) f"

record registry_stats =
  rs_total_blobs :: u64
  rs_total_repositories :: u64
  rs_storage_used_bytes :: u64

definition registry_stats_of ::
  "disk_io \<Rightarrow> (path \<Rightarrow> u64) \<Rightarrow> path \<Rightarrow> fs \<Rightarrow> (picloud_error + registry_stats) option" where
  "registry_stats_of io dir_len root f =
     (case list_repositories io root f of
        Inl e \<Rightarrow> Some (Inl e)
      | Inr repos \<Rightarrow>
          (case blob_list_digests io (blobs_root root) f of
             Inl e \<Rightarrow> Some (Inl e)
           | Inr digests \<Rightarrow>
               map_option (\<lambda>size. Inr \<lparr>rs_total_blobs = of_nat (length digests),
                     rs_total_repositories = of_nat (length repos),
                     rs_storage_used_bytes = (case size of Inr n \<Rightarrow> n | Inl _ \<Rightarrow> 0)\<rparr>)
                 (blob_total_size io dir_len (blobs_root root) f)))"

section \<open>Names and directories\<close>

lemma of_char_hex_digit: "n < 16 \<Longrightarrow> (of_char (hex_digit n) :: nat) = (if n < 10 then 48 + n else 87 + n)"
  by (simp add: hex_digit_def of_char_digit)

lemma hex_digit_plain:
  assumes "n < 16"
  shows "hex_digit n \<noteq> slash" "hex_digit n \<noteq> CHR ''.''" "hex_digit n \<noteq> CHR 0x00" "hex_digit n \<noteq> CHR '':''"
  using of_char_hex_digit [OF assms] assms
  by (auto split: if_splits dest!: arg_cong [where f = "of_char :: char \<Rightarrow> nat"])

lemma set_hex_encode: "c \<in> set (hex_encode bs) \<Longrightarrow> \<exists>n < 16. c = hex_digit n"
proof -
  assume "c \<in> set (hex_encode bs)"
  then obtain b where "c = hex_digit (unat (b :: u8) div 16) \<or> c = hex_digit (unat b mod 16)"
    by (auto simp: hex_encode_def)
  moreover have "unat b div 16 < 16" using unsigned_less [of b, where ?'a = nat] by simp
  moreover have "unat b mod 16 < 16" by simp
  ultimately show ?thesis by blast
qed

lemma hex_encode_chars: "c \<in> set (hex_encode bs) \<Longrightarrow> c \<noteq> slash \<and> c \<noteq> CHR ''.'' \<and> c \<noteq> CHR 0x00 \<and> c \<noteq> CHR '':''"
proof -
  assume "c \<in> set (hex_encode bs)"
  then obtain n where "n < 16" "c = hex_digit n" using set_hex_encode by blast
  then show ?thesis by (simp add: hex_digit_plain)
qed

lemma plain_hex [simp]: "bs \<noteq> [] \<Longrightarrow> plain (hex_encode bs)"
proof -
  assume "bs \<noteq> []"
  then have "hex_encode bs \<noteq> []" by (cases bs) (simp_all add: hex_encode_def)
  then show ?thesis using hex_encode_chars [of _ bs] by (auto simp: plain_def)
qed

lemma strip_sha_prefix [simp]: "strip_sha (''sha256:'' @ h) = h"
  unfolding strip_sha_def strip_prefix_append by simp

section \<open>The invariant of the blob directory\<close>

abbreviation sha_dir :: "path \<Rightarrow> path" where
  "sha_dir root \<equiv> root @ [''blobs'', ''sha256'']"

abbreviation blob_file :: "path \<Rightarrow> string \<Rightarrow> path" where
  "blob_file root h \<equiv> root @ [''blobs'', ''sha256'', h]"

definition reg_inv :: "(string \<Rightarrow> bytes) \<Rightarrow> path \<Rightarrow> fs \<Rightarrow> bool" where
  "reg_inv sha256 root f \<longleftrightarrow>
     dir_chain f (sha_dir root) \<and> dir_chain f (root @ [''repositories'']) \<and> dir_chain f (root @ [''uploads'']) \<and>
     wf_fs f \<and> (\<forall>h. \<not> is_dir f (blob_file root h)) \<and>
     (\<forall>h d. file_at f (blob_file root h) = Some d \<longrightarrow> h = hex_encode (sha256 d))"

text \<open>What SHA-256 documents: a digest is 32 bytes.\<close>

definition sha_ok :: "(string \<Rightarrow> bytes) \<Rightarrow> bool" where
  "sha_ok sha256 \<longleftrightarrow> (\<forall>d. length (sha256 d) = 32)"

text \<open>No call leaves a partly written file behind.\<close>

definition atomic_io :: "disk_io \<Rightarrow> bool" where
  "atomic_io io \<longleftrightarrow> (\<forall>q e part. io_write io q \<noteq> WErr e (Some part))"

lemma ok_io_atomic [simp]: "atomic_io ok_io"
  by (simp add: atomic_io_def ok_io_def)

lemma plain_const [simp]: "plain ''blobs''" "plain ''sha256''" "plain ''repositories''" "plain ''uploads''" "plain ''manifests''"
  by (simp_all add: plain_def)

lemma sha_plain: "sha_ok sha256 \<Longrightarrow> plain (hex_encode (sha256 d))"
  by (rule plain_hex) (metis list.size(3) sha_ok_def zero_neq_numeral)

lemma blob_path_plain: "plain (strip_sha digest) \<Longrightarrow> blob_path (blobs_root root) digest = blob_file root (strip_sha digest)"
  by (simp add: blob_path_def path_join_plain)

text \<open>A change that leaves the blob directory alone.\<close>

definition blob_frame :: "path \<Rightarrow> fs \<Rightarrow> fs \<Rightarrow> bool" where
  "blob_frame root f g \<longleftrightarrow> set (fs_dirs f) \<subseteq> set (fs_dirs g) \<and> (wf_fs f \<longrightarrow> wf_fs g) \<and>
     (\<forall>h. is_dir g (blob_file root h) = is_dir f (blob_file root h) \<and>
          file_at g (blob_file root h) = file_at f (blob_file root h))"

lemma blob_frame_refl [simp]: "blob_frame root f f"
  by (simp add: blob_frame_def)

lemma blob_frame_trans: "blob_frame root f g \<Longrightarrow> blob_frame root g h \<Longrightarrow> blob_frame root f h"
  by (auto simp: blob_frame_def)

lemma reg_inv_frame: "reg_inv sha256 root f \<Longrightarrow> blob_frame root f g \<Longrightarrow> reg_inv sha256 root g"
  unfolding reg_inv_def blob_frame_def by (auto intro: dir_chain_mono)

text \<open>Paths of plain names outside the blob directory.\<close>

definition outside :: "path \<Rightarrow> path \<Rightarrow> bool" where
  "outside root p \<longleftrightarrow> list_all plain p \<and>
     (\<exists>d r. (d = ''repositories'' \<or> d = ''uploads'') \<and> p = root @ d # r)"

lemma outside_not_blob: "outside root p \<Longrightarrow> take n p \<noteq> blob_file root h"
proof
  assume "outside root p" and t: "take n p = blob_file root h"
  then obtain d r where d: "d = ''repositories'' \<or> d = ''uploads''" "p = root @ d # r"
    by (auto simp: outside_def)
  have "length root < length (take n p)" by (simp add: t)
  then have "length root < n" by simp
  then have "take n p ! length root = d" by (simp add: d(2) del: take_append)
  moreover have "take n p ! length root = ''blobs''" by (simp add: t nth_append)
  ultimately show False using d(1) by auto
qed

lemma blob_frame_write:
  assumes "outside root p"
  shows "blob_frame root f (snd (fs_write io p d f))"
proof -
  have "q \<noteq> blob_file root h" if "resolve f p = Some q" for q h
    using resolve_plain [OF _ that] assms outside_not_blob [OF assms, of "length p" h] by (auto simp: outside_def)
  then show ?thesis
    by (auto simp: fs_write_def blob_frame_def split: option.splits write_outcome.splits)
      (simp_all add: put_file_def)
qed

lemma blob_frame_remove:
  assumes "outside root p"
  shows "blob_frame root f (snd (fs_remove_file io p f))"
proof -
  have "q \<noteq> blob_file root h" if "resolve f p = Some q" for q h
    using resolve_plain [OF _ that] assms outside_not_blob [OF assms, of "length p" h] by (auto simp: outside_def)
  then show ?thesis
    by (auto simp: fs_remove_file_def blob_frame_def split: option.splits)
qed

lemma blob_frame_mkdirs:
  assumes "outside root p"
  shows "blob_frame root f (snd (fs_create_dir_all io p f))"
proof -
  obtain r g where g: "make_dirs io [] p f = (r, g)" by (cases "make_dirs io [] p f")
  have p: "list_all plain p" using assms by (simp add: outside_def)
  have "is_dir g (blob_file root h) = is_dir f (blob_file root h)" for h
  proof
    assume "is_dir g (blob_file root h)"
    from make_dirs_only [OF p g this] show "is_dir f (blob_file root h)"
      using outside_not_blob [OF assms, of _ h] by (metis append_Nil)
  next
    assume "is_dir f (blob_file root h)"
    then show "is_dir g (blob_file root h)" using make_dirs_frame [OF g] by (auto simp: is_dir_def)
  qed
  then show ?thesis using make_dirs_frame [OF g]
    by (auto simp: fs_create_dir_all_def blob_frame_def g file_at_def)
qed

lemma file_blob_dir:
  assumes "reg_inv sha256 root f" "plain h"
  shows "resolve f (blob_file root h) = Some (blob_file root h)"
  using assms resolve_child [of f "sha_dir root" h] by (simp add: reg_inv_def)

lemma blob_get_file:
  assumes "reg_inv sha256 root f" "plain (strip_sha digest)" "io_read io (blob_file root (strip_sha digest)) = None"
  shows "blob_get io (blobs_root root) digest f =
    (case file_at f (blob_file root (strip_sha digest)) of Some d \<Rightarrow> Inr d | None \<Rightarrow> Inl (BlobNotFound digest))"
  using assms file_blob_dir [OF assms(1,2)]
  by (simp add: blob_get_def blob_path_plain fs_read_def reg_inv_def split: option.splits)

lemma reg_inv_root: "reg_inv sha256 root f \<Longrightarrow> list_all plain root"
  by (auto simp: reg_inv_def dir_chain_snoc dest: dir_chain_plain)

lemma blob_put_effect:
  assumes "sha_ok sha256" "reg_inv sha256 root f" "atomic_io io"
    and "blob_put sha256 io (blobs_root root) digest data f = (r, g)"
  shows "(g = f \<or> strip_sha digest = hex_encode (sha256 data) \<and> g = put_file (blob_file root (strip_sha digest)) data f \<and>
            file_at f (blob_file root (strip_sha digest)) = None) \<and>
    (r = Inr () \<longrightarrow> strip_sha digest = hex_encode (sha256 data) \<and>
       file_at g (blob_file root (strip_sha digest)) \<noteq> None)"
proof (cases "strip_sha digest = hex_encode (sha256 data)")
  case True
  then have pl: "plain (strip_sha digest)" using sha_plain [OF assms(1)] by simp
  have nd: "\<not> is_dir f (blob_file root (strip_sha digest))" using assms(2) by (simp add: reg_inv_def)
  show ?thesis
    using assms(3,4) nd
    by (auto simp: blob_put_def Let_def blob_path_plain [OF pl, unfolded True] path_exists_def fs_write_def True
        file_blob_dir [OF assms(2) pl, unfolded True] atomic_io_def
        split: if_splits write_outcome.splits option.splits)
qed (use assms(4) in \<open>auto simp: blob_put_def Let_def\<close>)

lemma reg_inv_put:
  assumes "reg_inv sha256 root f" "h = hex_encode (sha256 d)"
  shows "reg_inv sha256 root (put_file (blob_file root h) d f)"
  using assms by (auto simp: reg_inv_def)

lemma reg_inv_blob_put:
  assumes "sha_ok sha256" "reg_inv sha256 root f" "atomic_io io"
  shows "reg_inv sha256 root (snd (blob_put sha256 io (blobs_root root) digest data f))"
proof -
  obtain r g where "blob_put sha256 io (blobs_root root) digest data f = (r, g)"
    by (cases "blob_put sha256 io (blobs_root root) digest data f")
  with blob_put_effect [OF assms this] show ?thesis using assms(2) reg_inv_put by auto
qed

lemma reg_inv_remove_file: "reg_inv sha256 root f \<Longrightarrow> reg_inv sha256 root (snd (fs_remove_file io p f))"
  by (auto simp: reg_inv_def fs_remove_file_def split: option.splits)

lemma reg_inv_blob_delete: "reg_inv sha256 root f \<Longrightarrow> reg_inv sha256 root (snd (blob_delete io broot digest f))"
  using reg_inv_remove_file [of sha256 root f io "blob_path broot digest"]
  by (auto simp: blob_delete_def Let_def split: prod.splits sum.splits)

section \<open>Runs of the registry\<close>

datatype reg_op =
    RPutBlob string string
  | RDeleteBlob string
  | RPutManifest string string string string
  | RDeleteManifest string string
  | RStartUpload string
  | RGarbageCollect

fun reg_step :: "(string \<Rightarrow> bytes) \<Rightarrow> 'j value_ops \<Rightarrow> path \<Rightarrow> disk_io \<times> reg_op \<Rightarrow> fs \<Rightarrow> fs" where
  "reg_step sha256 vo root (io, RPutBlob digest data) f = snd (blob_put sha256 io (blobs_root root) digest data f)"
| "reg_step sha256 vo root (io, RDeleteBlob digest) f = snd (blob_delete io (blobs_root root) digest f)"
| "reg_step sha256 vo root (io, RPutManifest repo ref ct data) f = snd (put_manifest sha256 io root repo ref ct data f)"
| "reg_step sha256 vo root (io, RDeleteManifest repo ref) f = snd (delete_manifest io root repo ref f)"
| "reg_step sha256 vo root (io, RStartUpload uuid) f = snd (start_blob_upload uuid io root f)"
| "reg_step sha256 vo root (io, RGarbageCollect) f = snd (garbage_collect vo io root f)"

definition reg_run :: "(string \<Rightarrow> bytes) \<Rightarrow> 'j value_ops \<Rightarrow> path \<Rightarrow> (disk_io \<times> reg_op) list \<Rightarrow> fs \<Rightarrow> fs" where
  "reg_run sha256 vo root ops f = fold (reg_step sha256 vo root) ops f"

text \<open>Requests whose repository, reference and session names cannot leave the directory they are
  looked up in.\<close>

definition plain_repo :: "string \<Rightarrow> bool" where
  "plain_repo repo \<longleftrightarrow> list_all plain (split_on slash repo)"

definition plain_ref :: "string \<Rightarrow> bool" where
  "plain_ref ref \<longleftrightarrow> plain (sanitize_reference ref)"

fun safe_op :: "reg_op \<Rightarrow> bool" where
  "safe_op (RPutManifest repo ref ct data) = (plain_repo repo \<and> plain_ref ref)"
| "safe_op (RDeleteManifest repo ref) = (plain_repo repo \<and> plain_ref ref)"
| "safe_op (RStartUpload uuid) = plain uuid"
| "safe_op _ = True"

lemma path_join_repo: "plain_repo repo \<Longrightarrow> path_join p repo = p @ split_on slash repo"
  by (cases repo) (auto simp: plain_repo_def path_join_def starts_with_def plain_def split: if_splits list.splits)

lemma plain_ct: "plain s \<Longrightarrow> plain (s @ ''.content-type'')"
  by (auto simp: plain_def)

abbreviation manifest_dir :: "path \<Rightarrow> string \<Rightarrow> path" where
  "manifest_dir root repo \<equiv> root @ ''repositories'' # split_on slash repo @ [''manifests'']"

lemma manifest_paths:
  assumes "plain_repo repo" "plain_ref ref"
  shows "manifest_path root repo ref = manifest_dir root repo @ [sanitize_reference ref]"
    and "manifest_content_type_path root repo ref = manifest_dir root repo @ [sanitize_reference ref @ ''.content-type'']"
  using assms
  by (simp_all add: manifest_path_def manifest_content_type_path_def repositories_dir_def path_join_plain path_join_repo
      plain_ref_def plain_ct)

lemma outside_manifest:
  assumes "list_all plain root" "plain_repo repo" "plain_ref ref"
  shows "outside root (manifest_path root repo ref)" "outside root (manifest_content_type_path root repo ref)"
    "outside root (manifest_dir root repo)"
  using assms
  by (auto simp: manifest_paths outside_def plain_repo_def plain_ref_def plain_ct)

lemma parent_manifest:
  assumes "list_all plain root" "plain_repo repo" "plain_ref ref"
  shows "path_parent (manifest_path root repo ref) = Some (manifest_dir root repo)"
proof -
  have p: "list_all plain (manifest_path root repo ref)"
    using outside_manifest(1) [OF assms] by (simp add: outside_def)
  have "filter (\<lambda>c. c \<noteq> [] \<and> c \<noteq> ''.'') (manifest_path root repo ref) = manifest_path root repo ref"
    using p by (auto simp: filter_id_conv list_all_iff plain_def)
  then show ?thesis by (simp only: path_parent_def Let_def) (simp add: manifest_paths [OF assms(2,3)] butlast_append)
qed

lemma plain_ref_digest: "sha_ok sha256 \<Longrightarrow> plain_ref (''sha256:'' @ hex_encode (sha256 d))"
proof -
  assume "sha_ok sha256"
  have "map (\<lambda>c. if c = CHR '':'' then CHR ''_'' else c) (hex_encode bs) = hex_encode bs" for bs
    using hex_encode_chars [of _ bs] by (intro map_idI) auto
  moreover have "slash \<notin> set (hex_encode bs)" "CHR 0x00 \<notin> set (hex_encode bs)" for bs
    using hex_encode_chars [of _ bs] by blast+
  ultimately show ?thesis by (simp add: plain_ref_def plain_def sanitize_reference_def)
qed

text \<open>\<open>put_manifest\<close> touches the blob directory only through its final \<open>blob_put\<close>.\<close>

lemma put_manifest_effect:
  assumes "sha_ok sha256" "list_all plain root" "plain_repo repo" "plain_ref ref"
  shows "\<exists>g. blob_frame root f g \<and>
    (snd (put_manifest sha256 io root repo ref ct data f) = g \<or>
     snd (put_manifest sha256 io root repo ref ct data f) =
       snd (blob_put sha256 io (blobs_root root) (''sha256:'' @ hex_encode (sha256 data)) data g))"
proof -
  let ?dg = "''sha256:'' @ hex_encode (sha256 data)"
  note o = outside_manifest [OF assms(2-4)] outside_manifest [OF assms(2,3) plain_ref_digest [OF assms(1), of data]]
  let ?f1 = "snd (fs_create_dir_all io (manifest_dir root repo) f)"
  let ?f2 = "snd (fs_write io (manifest_path root repo ref) data ?f1)"
  let ?f3 = "snd (fs_write io (manifest_content_type_path root repo ref) ct ?f2)"
  let ?f4 = "snd (fs_write io (manifest_path root repo ?dg) data ?f3)"
  let ?f5 = "snd (fs_write io (manifest_content_type_path root repo ?dg) ct ?f4)"
  have fr: "blob_frame root f ?f1" "blob_frame root f ?f2" "blob_frame root f ?f3" "blob_frame root f ?f4" "blob_frame root f ?f5"
    by (meson blob_frame_mkdirs blob_frame_write blob_frame_trans o)+
  have "snd (put_manifest sha256 io root repo ref ct data f) \<in>
      {?f1, ?f2, ?f3, snd (blob_put sha256 io (blobs_root root) ?dg data ?f3),
       snd (blob_put sha256 io (blobs_root root) ?dg data ?f5)}"
    unfolding put_manifest_def Let_def parent_manifest [OF assms(2-4)]
    by (simp split: prod.splits sum.splits)
  with fr show ?thesis by blast
qed

lemma gc_sweep_inv:
  "reg_inv sha256 root f \<Longrightarrow> gc_sweep io broot refs ds n m f = (n', m', g) \<Longrightarrow> reg_inv sha256 root g"
proof (induction ds arbitrary: n m f)
  case (Cons d ds)
  have "reg_inv sha256 root (snd (blob_delete io broot d f))" using reg_inv_blob_delete Cons.prems(1) .
  then show ?case using Cons by (auto simp: Let_def split: if_splits prod.splits sum.splits)
qed simp

lemma reg_inv_step:
  assumes "sha_ok sha256" "reg_inv sha256 root f" "atomic_io io" "safe_op x"
  shows "reg_inv sha256 root (reg_step sha256 vo root (io, x) f)"
proof -
  have rt: "list_all plain root" using assms(2) by (rule reg_inv_root)
  show ?thesis
  proof (cases x)
    case (RPutManifest repo ref ct data)
    then obtain g where g: "blob_frame root f g"
      "reg_step sha256 vo root (io, x) f = g \<or>
       reg_step sha256 vo root (io, x) f = snd (blob_put sha256 io (blobs_root root) (''sha256:'' @ hex_encode (sha256 data)) data g)"
      using put_manifest_effect [OF assms(1) rt, of repo ref f io ct data] assms(4) by auto
    have "reg_inv sha256 root g" using assms(2) g(1) by (rule reg_inv_frame)
    with g(2) reg_inv_blob_put [OF assms(1) this assms(3)] show ?thesis by metis
  next
    case (RStartUpload uuid)
    have "outside root (path_join (uploads_dir root) uuid)"
      using rt assms(4) RStartUpload by (auto simp: outside_def uploads_dir_def path_join_plain)
    from reg_inv_frame [OF assms(2) blob_frame_write [OF this, of f io "[]"]] RStartUpload show ?thesis
      by (auto simp: start_blob_upload_def split: prod.splits sum.splits)
  next
    case RGarbageCollect
    then show ?thesis using gc_sweep_inv [OF assms(2)] assms(2)
      by (auto simp: garbage_collect_def gc_collect_def split: sum.splits prod.splits)
  next
    case (RDeleteManifest repo ref)
    then show ?thesis by (simp add: delete_manifest_def Let_def reg_inv_remove_file assms(2))
  qed (use assms in \<open>simp_all add: reg_inv_blob_put reg_inv_blob_delete\<close>)
qed

lemma reg_inv_run:
  assumes "sha_ok sha256"
  shows "reg_inv sha256 root f \<Longrightarrow> list_all (\<lambda>(io, x). safe_op x) ops \<Longrightarrow> (\<And>io x. (io, x) \<in> set ops \<Longrightarrow> atomic_io io) \<Longrightarrow>
    reg_inv sha256 root (reg_run sha256 vo root ops f)"
proof (induction ops arbitrary: f)
  case (Cons p ops)
  obtain io x where p: "p = (io, x)" by (cases p)
  have "reg_inv sha256 root (reg_step sha256 vo root (io, x) f)"
    using Cons.prems p by (intro reg_inv_step [OF assms]) auto
  then have "reg_inv sha256 root (reg_run sha256 vo root ops (reg_step sha256 vo root (io, x) f))"
    using Cons.prems(2,3) by (intro Cons.IH) auto
  then show ?case by (simp add: reg_run_def p)
qed (simp add: reg_run_def)

section \<open>The contract of a content-addressed store\<close>

locale content_store =
  fixes invar :: "'s \<Rightarrow> bool"
    and ok_key :: "'k \<Rightarrow> bool"
    and norm :: "'k \<Rightarrow> 'h"
    and hash :: "'d \<Rightarrow> 'h"
    and put :: "'k \<Rightarrow> 'd \<Rightarrow> 's \<Rightarrow> ('e + unit) \<times> 's"
    and get :: "'k \<Rightarrow> 's \<Rightarrow> 'e + 'd"
  assumes put_invar: "invar s \<Longrightarrow> invar (snd (put k d s))"
    and put_accepts: "invar s \<Longrightarrow> norm k = hash d \<Longrightarrow> fst (put k d s) = Inr ()"
    and put_stored: "invar s \<Longrightarrow> put k d s = (Inr (), s') \<Longrightarrow> norm k = hash d \<and> ok_key k \<and> (\<exists>d'. get k s' = Inr d')"
    and put_keeps: "invar s \<Longrightarrow> ok_key k' \<Longrightarrow> get k' s = Inr d' \<Longrightarrow> get k' (snd (put k d s)) = Inr d'"
    and get_sound: "invar s \<Longrightarrow> ok_key k \<Longrightarrow> get k s = Inr d \<Longrightarrow> hash d = norm k"
begin

lemma puts_keep:
  "invar s \<Longrightarrow> ok_key k \<Longrightarrow> get k s = Inr d \<Longrightarrow> get k (fold (\<lambda>(k, d) s. snd (put k d s)) xs s) = Inr d"
proof (induction xs arbitrary: s)
  case (Cons x xs)
  then show ?case by (cases x) (simp add: put_keeps put_invar)
qed simp

lemma put_then_get:
  assumes "invar s" "put k d s = (Inr (), s')"
  shows "\<exists>d'. get k (fold (\<lambda>(k, d) s. snd (put k d s)) xs s') = Inr d' \<and> hash d' = hash d"
proof -
  obtain d' where d: "norm k = hash d" "ok_key k" "get k s' = Inr d'" using put_stored [OF assms] by blast
  have "invar s'" using put_invar [OF assms(1), of k d] assms(2) by simp
  with puts_keep get_sound d show ?thesis by metis
qed

end

lemma blob_get_ok:
  assumes "reg_inv sha256 root f" "plain (strip_sha digest)"
  shows "blob_get ok_io (blobs_root root) digest f = Inr d \<longleftrightarrow> file_at f (blob_file root (strip_sha digest)) = Some d"
  using blob_get_file [OF assms, of ok_io] by (simp add: ok_io_def split: option.splits)

lemma blob_put_accepts:
  assumes "sha_ok sha256" "reg_inv sha256 root f" "strip_sha digest = hex_encode (sha256 data)"
  shows "fst (blob_put sha256 ok_io (blobs_root root) digest data f) = Inr ()"
proof -
  have pl: "plain (strip_sha digest)" using sha_plain [OF assms(1)] assms(3) by simp
  have "\<not> is_dir f (blob_file root (hex_encode (sha256 data)))" using assms(2) by (simp add: reg_inv_def)
  then show ?thesis
    by (simp add: blob_put_def Let_def assms(3) blob_path_plain [OF pl, unfolded assms(3)] path_exists_def fs_write_def
        file_blob_dir [OF assms(2) pl, unfolded assms(3)] ok_io_def)
qed

interpretation blobs: content_store "\<lambda>f. sha_ok sha256 \<and> reg_inv sha256 root f" "\<lambda>digest. plain (strip_sha digest)"
  strip_sha "\<lambda>d. hex_encode (sha256 d)" "blob_put sha256 ok_io (blobs_root root)" "blob_get ok_io (blobs_root root)"
  for sha256 root
proof unfold_locales
  fix s k d
  assume s: "sha_ok sha256 \<and> reg_inv sha256 root s"
  then show "sha_ok sha256 \<and> reg_inv sha256 root (snd (blob_put sha256 ok_io (blobs_root root) k d s))"
    by (simp add: reg_inv_blob_put)
  show "fst (blob_put sha256 ok_io (blobs_root root) k d s) = Inr ()" if "strip_sha k = hex_encode (sha256 d)"
    using s that by (simp add: blob_put_accepts)
  show "hex_encode (sha256 d) = strip_sha k"
    if "plain (strip_sha k)" "blob_get ok_io (blobs_root root) k s = Inr d"
    using s that blob_get_ok [of sha256 root s k d] by (simp add: reg_inv_def)
next
  fix s k d s'
  assume s: "sha_ok sha256 \<and> reg_inv sha256 root s" and p: "blob_put sha256 ok_io (blobs_root root) k d s = (Inr (), s')"
  have i: "reg_inv sha256 root s'" using reg_inv_blob_put [of sha256 root s ok_io k d] s p by simp
  have e: "strip_sha k = hex_encode (sha256 d)" "file_at s' (blob_file root (strip_sha k)) \<noteq> None"
    using blob_put_effect [OF _ _ _ p] s by auto
  have pl: "plain (strip_sha k)" using sha_plain s e(1) by simp
  show "strip_sha k = hex_encode (sha256 d) \<and> plain (strip_sha k) \<and> (\<exists>d'. blob_get ok_io (blobs_root root) k s' = Inr d')"
    using e pl blob_get_ok [OF i pl] by auto
next
  fix s k' d' k d
  assume s: "sha_ok sha256 \<and> reg_inv sha256 root s" and pl: "plain (strip_sha k')"
    and g: "blob_get ok_io (blobs_root root) k' s = Inr d'"
  obtain r t where t: "blob_put sha256 ok_io (blobs_root root) k d s = (r, t)"
    by (cases "blob_put sha256 ok_io (blobs_root root) k d s")
  have i: "reg_inv sha256 root t" using reg_inv_blob_put [of sha256 root s ok_io k d] s t by simp
  have "file_at s (blob_file root (strip_sha k')) = Some d'" using blob_get_ok [of sha256 root s k' d'] s pl g by simp
  then have "file_at t (blob_file root (strip_sha k')) = Some d'"
    using blob_put_effect [OF _ _ _ t] s by auto
  with blob_get_ok [OF i pl] t show "blob_get ok_io (blobs_root root) k' (snd (blob_put sha256 ok_io (blobs_root root) k d s)) = Inr d'"
    by simp
qed

section \<open>Collection\<close>

lemma gc_sweep_effect:
  assumes "reg_inv sha256 root f" "list_all (\<lambda>d. \<exists>h. d = ''sha256:'' @ h \<and> plain h) ds"
  shows "\<exists>n' m' g. gc_sweep ok_io (blobs_root root) refs ds n m f = (n', m', g) \<and> fs_dirs g = fs_dirs f \<and>
    (\<forall>q. file_at g q = (if \<exists>d \<in> set ds. d \<notin> set refs \<and> q = blob_file root (strip_sha d) then None else file_at f q)) \<and>
    n' = n + of_nat (length (filter (\<lambda>d. d \<notin> set refs) ds))"
  using assms
proof (induction ds arbitrary: n m f)
  case (Cons d ds)
  show ?case
  proof (cases "d \<in> set refs")
    case True
    with Cons.IH [OF Cons.prems(1)] Cons.prems(2) show ?thesis by auto
  next
    case False
    obtain h where h: "d = ''sha256:'' @ h" "plain h" using Cons.prems(2) by auto
    let ?q = "blob_file root h"
    have nd: "\<not> is_dir f ?q" using Cons.prems(1) by (simp add: reg_inv_def)
    have st: "strip_sha d = h" by (simp only: h strip_sha_prefix)
    have path: "blob_path (blobs_root root) d = ?q" using blob_path_plain [of d root] h(2) by (simp add: st)
    obtain g1 where g1: "blob_delete ok_io (blobs_root root) d f = (Inr (), g1)" "fs_dirs g1 = fs_dirs f"
      "\<forall>q. file_at g1 q = (if q = ?q then None else file_at f q)"
      using nd file_blob_dir [OF Cons.prems(1) h(2)]
      by (cases "file_at f ?q")
        (auto simp: blob_delete_def Let_def path path_exists_def fs_remove_file_def ok_io_def)
    have "reg_inv sha256 root g1" using reg_inv_blob_delete [OF Cons.prems(1), of ok_io "blobs_root root" d] g1(1) by simp
    moreover have "list_all (\<lambda>d. \<exists>h. d = ''sha256:'' @ h \<and> plain h) ds" using Cons.prems(2) by simp
    ultimately obtain n' m' g where "gc_sweep ok_io (blobs_root root) refs ds (n + 1)
        (case blob_get ok_io (blobs_root root) d f of Inr data \<Rightarrow> m + of_nat (length data) | Inl _ \<Rightarrow> m) g1 = (n', m', g)"
      "fs_dirs g = fs_dirs g1"
      "\<forall>q. file_at g q = (if \<exists>d \<in> set ds. d \<notin> set refs \<and> q = blob_file root (strip_sha d) then None else file_at g1 q)"
      "n' = (n + 1) + of_nat (length (filter (\<lambda>d. d \<notin> set refs) ds))"
      using Cons.IH by blast
    with g1 False st show ?thesis by (auto simp: Let_def)
  qed
qed simp

lemma blob_names:
  assumes "sha_ok sha256" "reg_inv sha256 root f"
  shows "blob_list_digests ok_io (blobs_root root) f = Inr (map (\<lambda>h. ''sha256:'' @ h) (children f (sha_dir root)))"
    and "set (children f (sha_dir root)) = {h. file_at f (blob_file root h) \<noteq> None}"
    and "list_all plain (children f (sha_dir root))"
proof -
  have c: "dir_chain f (sha_dir root)" using assms(2) by (simp add: reg_inv_def)
  show "blob_list_digests ok_io (blobs_root root) f = Inr (map (\<lambda>h. ''sha256:'' @ h) (children f (sha_dir root)))"
    using resolve_chain [OF c] dir_chain_is_dir [OF c]
    by (simp add: blob_list_digests_def fs_read_dir_def path_join_plain ok_io_def)
  show s: "set (children f (sha_dir root)) = {h. file_at f (blob_file root h) \<noteq> None}"
    using assms(2) by (auto simp: set_children reg_inv_def is_dir_def)
  show "list_all plain (children f (sha_dir root))"
    using assms sha_plain [OF assms(1)] by (auto simp: list_all_iff s reg_inv_def)
qed

lemma collect_ok:
  assumes "reg_inv sha256 root f"
  shows "\<exists>refs. collect_referenced_digests vo ok_io (repositories_dir root) f = Inr refs"
proof -
  have c: "dir_chain f (root @ [''repositories''])" using assms by (simp add: reg_inv_def)
  show ?thesis using resolve_chain [OF c] dir_chain_is_dir [OF c]
    by (simp add: collect_referenced_digests_def repositories_dir_def path_join_plain fs_read_dir_def ok_io_def)
qed

lemma garbage_collect_effect:
  assumes "sha_ok sha256" "reg_inv sha256 root f"
    and refs: "collect_referenced_digests vo ok_io (repositories_dir root) f = Inr refs"
  shows "\<exists>res g. garbage_collect vo ok_io root f = (Inr res, g) \<and> fs_dirs g = fs_dirs f \<and>
    (\<forall>h. file_at g (blob_file root h) = (if ''sha256:'' @ h \<in> set refs then file_at f (blob_file root h) else None)) \<and>
    (\<forall>q. (\<forall>h. q \<noteq> blob_file root h) \<longrightarrow> file_at g q = file_at f q) \<and>
    gc_blobs_scanned res = of_nat (length (children f (sha_dir root))) \<and>
    gc_blobs_deleted res = of_nat (length (filter (\<lambda>h. ''sha256:'' @ h \<notin> set refs) (children f (sha_dir root))))"
proof -
  let ?ds = "map (\<lambda>h. ''sha256:'' @ h) (children f (sha_dir root))"
  have pl: "list_all (\<lambda>d. \<exists>h. d = ''sha256:'' @ h \<and> plain h) ?ds"
    using blob_names(3) [OF assms(1,2)] by (auto simp: list_all_iff)
  obtain n m g where g: "gc_sweep ok_io (blobs_root root) refs ?ds 0 0 f = (n, m, g)" "fs_dirs g = fs_dirs f"
    "\<And>q. file_at g q = (if \<exists>d \<in> set ?ds. d \<notin> set refs \<and> q = blob_file root (strip_sha d) then None else file_at f q)"
    "n = of_nat (length (filter (\<lambda>d. d \<notin> set refs) ?ds))"
    using gc_sweep_effect [OF assms(2) pl, of refs 0 0] by auto
  have ex: "(\<exists>d \<in> set ?ds. d \<notin> set refs \<and> q = blob_file root (strip_sha d)) \<longleftrightarrow>
      (\<exists>h. file_at f (blob_file root h) \<noteq> None \<and> ''sha256:'' @ h \<notin> set refs \<and> q = blob_file root h)" for q
    unfolding set_map bex_simps(7) blob_names(2) [OF assms(1,2)] strip_sha_prefix by blast
  have "file_at g (blob_file root h) = (if ''sha256:'' @ h \<in> set refs then file_at f (blob_file root h) else None)" for h
    unfolding g(3) ex by auto
  moreover have "file_at g q = file_at f q" if "\<forall>h. q \<noteq> blob_file root h" for q
    unfolding g(3) ex using that by auto
  ultimately show ?thesis
    using g(1,2,4) refs blob_names(1) [OF assms(1,2)]
    by (simp add: garbage_collect_def gc_collect_def filter_map comp_def)
qed

lemma referenced_included:
  assumes "dir_chain f (root @ [''repositories'', p, n, ''manifests''])" "plain x"
    and "file_at f (root @ [''repositories'', p, n, ''manifests'', x]) = Some content" "wf_fs f"
    and "utf8_ok (map of_char content)" "d \<in> set (extract_digests_from_manifest vo content)"
    and "collect_referenced_digests vo ok_io (repositories_dir root) f = Inr refs"
  shows "d \<in> set refs"
proof -
  have m: "dir_chain f ((root @ [''repositories'', p, n]) @ [''manifests''])" using assms(1) by simp
  then have n: "dir_chain f ((root @ [''repositories'', p]) @ [n])" by (subst (asm) dir_chain_snoc) simp
  then have p: "dir_chain f ((root @ [''repositories'']) @ [p])" by (subst (asm) dir_chain_snoc) simp
  then have r: "dir_chain f (root @ [''repositories''])" by (subst (asm) dir_chain_snoc) simp
  have rd: "entries_or_none ok_io f q = children f q" "fs_read_dir ok_io f q = Inr (children f q)"
    "path_exists f q" if "dir_chain f q" for q
    using resolve_chain [OF that] dir_chain_is_dir [OF that]
    by (simp_all add: entries_or_none_def fs_read_dir_def path_exists_def ok_io_def)
  have res: "resolve f (root @ [''repositories'', p, n, ''manifests'', x]) = Some (root @ [''repositories'', p, n, ''manifests'', x])"
    using resolve_child [OF m assms(2)] by simp
  have "fs_read_to_string ok_io f (root @ [''repositories'', p, n, ''manifests'', x]) = Inr content"
    using wf_fs_file [OF assms(4,3)] assms(3,5) by (simp add: fs_read_to_string_def fs_read_def res ok_io_def)
  moreover have "x \<in> set (children f (root @ [''repositories'', p, n, ''manifests'']))"
    using assms(3) by (simp add: set_children)
  ultimately have md: "d \<in> set (manifest_digests vo ok_io f (root @ [''repositories'', p, n]))"
    using rd(1,3) [OF m] assms(6)
    by (auto simp: manifest_digests_def path_join_plain intro!: bexI [of _ x])
  have c: "p \<in> set (children f (root @ [''repositories'']))" "n \<in> set (children f (root @ [''repositories'', p]))"
    "is_dir f (root @ [''repositories'', p])" "is_dir f (root @ [''repositories'', p, n])"
    using dir_chain_is_dir [OF p] dir_chain_is_dir [OF n] by (simp_all add: set_children is_dir_def)
  have rd': "entries_or_none ok_io f (root @ [''repositories'', p]) = children f (root @ [''repositories'', p])"
    using rd(1) [OF p] by simp
  let ?G = "\<lambda>product repo. if \<not> is_dir f (root @ [''repositories'', product, repo]) then []
    else manifest_digests vo ok_io f (root @ [''repositories'', product, repo])"
  let ?F = "\<lambda>product. if \<not> is_dir f (root @ [''repositories'', product]) then []
    else concat (map (?G product) (entries_or_none ok_io f (root @ [''repositories'', product])))"
  have refs: "refs = concat (map ?F (children f (root @ [''repositories''])))"
    using assms(7)
    unfolding collect_referenced_digests_def repositories_dir_def path_join_plain [OF plain_const(3)]
      append_assoc append_Cons append_Nil
    by (simp add: rd(2,3) [OF r])
  show ?thesis
    unfolding refs using c md rd' by simp (intro bexI [of _ p] bexI [of _ n], simp_all)
qed

lemma manifest_digests_none: "\<not> path_exists f (q @ [''manifests'']) \<Longrightarrow> manifest_digests vo io f q = []"
  by (simp add: manifest_digests_def path_join_plain)

text \<open>All directory names on disk are plain, as the kernel guarantees.\<close>

definition tidy :: "fs \<Rightarrow> bool" where
  "tidy f \<longleftrightarrow> list_all (list_all plain) (fs_dirs f)"

lemma collect_flat:
  assumes "reg_inv sha256 root f" "tidy f"
    and "\<And>p n. plain p \<Longrightarrow> plain n \<Longrightarrow> \<not> path_exists f (root @ [''repositories'', p, n, ''manifests''])"
  shows "collect_referenced_digests vo ok_io (repositories_dir root) f = Inr []"
proof -
  obtain refs where r: "collect_referenced_digests vo ok_io (repositories_dir root) f = Inr refs"
    using collect_ok [OF assms(1)] by blast
  have "manifest_digests vo ok_io f (root @ [''repositories'', p, n]) = []"
    if "is_dir f (root @ [''repositories'', p, n])" for p n
  proof -
    have "list_all plain (root @ [''repositories'', p, n])" using that assms(2) by (auto simp: is_dir_def tidy_def list_all_iff)
    then show ?thesis using manifest_digests_none [of f "root @ [''repositories'', p, n]"] assms(3) by simp
  qed
  then have "(if \<not> is_dir f (root @ [''repositories'', p, n]) then []
      else manifest_digests vo ok_io f (root @ [''repositories'', p, n])) = []" for p n
    by simp
  with r show ?thesis
    unfolding collect_referenced_digests_def repositories_dir_def path_join_plain [OF plain_const(3)]
      append_assoc append_Cons append_Nil
    by (auto split: if_splits sum.splits)
qed

fun keep_op :: "string \<Rightarrow> reg_op \<Rightarrow> bool" where
  "keep_op h (RDeleteBlob digest) = (plain (strip_sha digest) \<and> strip_sha digest \<noteq> h)"
| "keep_op h RGarbageCollect = False"
| "keep_op h x = safe_op x"

lemma blob_put_keeps_file:
  assumes "sha_ok sha256" "reg_inv sha256 root f" "atomic_io io" "file_at f (blob_file root h) = Some d"
  shows "file_at (snd (blob_put sha256 io (blobs_root root) digest data f)) (blob_file root h) = Some d"
proof -
  obtain r g where "blob_put sha256 io (blobs_root root) digest data f = (r, g)"
    by (cases "blob_put sha256 io (blobs_root root) digest data f")
  with blob_put_effect [OF assms(1-3) this] assms(4) show ?thesis by auto
qed

lemma keep_step:
  assumes "sha_ok sha256" "reg_inv sha256 root f" "atomic_io io" "keep_op h x"
    and "file_at f (blob_file root h) = Some d"
  shows "file_at (reg_step sha256 vo root (io, x) f) (blob_file root h) = Some d"
proof -
  have rt: "list_all plain root" using assms(2) by (rule reg_inv_root)
  show ?thesis
  proof (cases x)
    case (RPutBlob digest data)
    then show ?thesis using blob_put_keeps_file [OF assms(1-3,5)] by simp
  next
    case (RDeleteBlob digest)
    with assms(4) have "plain (strip_sha digest)" "strip_sha digest \<noteq> h" by auto
    then show ?thesis using RDeleteBlob assms(5) file_blob_dir [OF assms(2), of "strip_sha digest"]
      by (auto simp: blob_delete_def Let_def blob_path_plain fs_remove_file_def split: option.splits)
  next
    case (RPutManifest repo ref ct data)
    then obtain g where g: "blob_frame root f g"
      "reg_step sha256 vo root (io, x) f = g \<or>
       reg_step sha256 vo root (io, x) f = snd (blob_put sha256 io (blobs_root root) (''sha256:'' @ hex_encode (sha256 data)) data g)"
      using put_manifest_effect [OF assms(1) rt, of repo ref f io ct data] assms(4) by auto
    have "file_at g (blob_file root h) = Some d" using g(1) assms(5) by (simp add: blob_frame_def)
    with g(2) blob_put_keeps_file [OF assms(1) reg_inv_frame [OF assms(2) g(1)] assms(3)] show ?thesis by metis
  next
    case (RDeleteManifest repo ref)
    with assms(4) have o: "outside root (manifest_path root repo ref)" "outside root (manifest_content_type_path root repo ref)"
      using outside_manifest [OF rt] by auto
    have "blob_frame root f (snd (delete_manifest io root repo ref f))"
      unfolding delete_manifest_def Let_def snd_conv
      by (rule blob_frame_trans [OF blob_frame_remove [OF o(1)] blob_frame_remove [OF o(2)]])
    with RDeleteManifest assms(5) show ?thesis by (simp add: blob_frame_def)
  next
    case (RStartUpload uuid)
    have "outside root (path_join (uploads_dir root) uuid)"
      using rt assms(4) RStartUpload by (auto simp: outside_def uploads_dir_def path_join_plain)
    from blob_frame_write [OF this, of f io "[]"] assms(5) RStartUpload show ?thesis
      by (auto simp: start_blob_upload_def blob_frame_def split: prod.splits sum.splits)
  qed (use assms(4) in simp)
qed

lemma keep_safe: "keep_op h x \<Longrightarrow> safe_op x"
  by (cases x) auto

lemma keep_run:
  assumes "sha_ok sha256"
  shows "reg_inv sha256 root f \<Longrightarrow> (\<And>io x. (io, x) \<in> set ops \<Longrightarrow> atomic_io io \<and> keep_op h x) \<Longrightarrow>
    file_at f (blob_file root h) = Some d \<Longrightarrow> file_at (reg_run sha256 vo root ops f) (blob_file root h) = Some d"
proof (induction ops arbitrary: f)
  case (Cons p ops)
  obtain io x where p: "p = (io, x)" by (cases p)
  have k: "atomic_io io" "keep_op h x" using Cons.prems(2) [of io x] p by auto
  have "file_at (reg_run sha256 vo root ops (reg_step sha256 vo root (io, x) f)) (blob_file root h) = Some d"
    using Cons.prems k keep_safe
    by (intro Cons.IH reg_inv_step [OF assms] keep_step [OF assms]) auto
  then show ?case by (simp add: reg_run_def p)
qed (simp add: reg_run_def)

section \<open>Properties\<close>

text \<open>A registry created in an empty directory, and a digest function of the right length.\<close>

definition ex_root :: path where "ex_root = [''srv'']"

definition ex_fs :: fs where
  "ex_fs = snd (registry_new ok_io ex_root \<lparr>fs_dirs = [[''srv'']], fs_files = []\<rparr>)"

definition ex_sha :: "string \<Rightarrow> bytes" where
  "ex_sha d = replicate 32 (of_nat (length d))"

lemma ex_sha_ok: "sha_ok ex_sha"
  by (simp add: sha_ok_def ex_sha_def)

lemma ex_fs_eq:
  "ex_fs = \<lparr>fs_dirs = [[''srv'', ''blobs'', ''sha256''], [''srv'', ''uploads''], [''srv'', ''repositories''],
     [''srv'', ''blobs''], [''srv'']], fs_files = []\<rparr>"
  by code_simp

lemma ex_fs_inv: "reg_inv ex_sha ex_root ex_fs"
proof -
  have "dir_chain ex_fs (sha_dir ex_root)" "dir_chain ex_fs (ex_root @ [''repositories''])"
    "dir_chain ex_fs (ex_root @ [''uploads''])"
    by code_simp+
  then show ?thesis by (simp add: reg_inv_def wf_fs_def ex_fs_eq file_at_def is_dir_def ex_root_def)
qed

text \<open>
  C18. Content addressing. Start from a registry whose blobs all match their names and run any
  requests (uploads with any digest and data, deletions, manifest pushes and deletions, upload
  sessions, collections), with any I/O failures except torn writes and with repository, reference
  and session names that are plain. Then whatever a blob read returns hashes to the digest that was asked for.
\<close>

theorem registry_content_addressed:
  assumes "sha_ok sha256" "reg_inv sha256 root f"
    and "list_all (\<lambda>(io, x). atomic_io io \<and> safe_op x) ops"
    and "plain (strip_sha digest)"
    and "blob_get io (blobs_root root) digest (reg_run sha256 vo root ops f) = Inr data"
  shows "hex_encode (sha256 data) = strip_sha digest"
proof -
  have i: "reg_inv sha256 root (reg_run sha256 vo root ops f)"
    using assms(3) by (intro reg_inv_run [OF assms(1,2)]) (auto simp: list_all_iff)
  have "file_at (reg_run sha256 vo root ops f) (blob_file root (strip_sha digest)) = Some data"
    using assms(5) file_blob_dir [OF i assms(4)]
    by (auto simp: blob_get_def fs_read_def blob_path_plain [OF assms(4)] split: sum.splits if_splits option.splits)
  then show ?thesis using i by (simp add: reg_inv_def)
qed

definition ex_digest :: "string \<Rightarrow> string" where
  "ex_digest d = ''sha256:'' @ hex_encode (ex_sha d)"

text \<open>JSON with a single shape: the text itself is the digest of the only layer.\<close>

definition ex_vo :: "string value_ops" where
  "ex_vo = \<lparr>vo_parse = Some, vo_get = \<lambda>v k. if k = ''config'' then None else Some v, vo_as_str = Some, vo_as_array = \<lambda>v. Some [v]\<rparr>"

definition ex_reg_ops :: "(disk_io \<times> reg_op) list" where
  "ex_reg_ops = [(ok_io, RPutBlob ''bad'' ''layer''), (ok_io, RStartUpload ''u1'')]"

definition ex_stored :: fs where
  "ex_stored = put_file (blob_file ex_root (hex_encode (ex_sha ''layer''))) ''layer'' ex_fs"

lemma ex_stored_inv: "reg_inv ex_sha ex_root ex_stored"
  unfolding ex_stored_def by (intro reg_inv_put ex_fs_inv refl)

lemma ex_digest_strip: "strip_sha (ex_digest d) = hex_encode (ex_sha d)"
  unfolding ex_digest_def strip_sha_prefix ..

lemma ex_digest_plain: "plain (strip_sha (ex_digest d))"
  unfolding ex_digest_strip by (rule sha_plain [OF ex_sha_ok])

lemma ex_ops_safe:
  "list_all (\<lambda>(io, x). atomic_io io \<and> safe_op x) ex_reg_ops" "list_all (\<lambda>(io, x). atomic_io io \<and> keep_op h x) ex_reg_ops"
proof -
  have "plain ''u1''" by code_simp
  then show "list_all (\<lambda>(io, x). atomic_io io \<and> safe_op x) ex_reg_ops" "list_all (\<lambda>(io, x). atomic_io io \<and> keep_op h x) ex_reg_ops"
    by (simp_all add: ex_reg_ops_def)
qed

theorem registry_content_addressed_witness:
  "blob_get ok_io (blobs_root ex_root) (ex_digest ''layer'') (reg_run ex_sha ex_vo ex_root ex_reg_ops ex_stored) = Inr ''layer'' \<and>
   hex_encode (ex_sha ''layer'') = strip_sha (ex_digest ''layer'')"
proof -
  let ?g = "reg_run ex_sha ex_vo ex_root ex_reg_ops ex_stored"
  have "file_at ?g (blob_file ex_root (hex_encode (ex_sha ''layer''))) = Some ''layer''"
    using ex_ops_safe(2) by (intro keep_run [OF ex_sha_ok ex_stored_inv]) (auto simp: list_all_iff ex_stored_def)
  moreover have "reg_inv ex_sha ex_root ?g"
    using ex_ops_safe(1) by (intro reg_inv_run [OF ex_sha_ok ex_stored_inv]) (auto simp: list_all_iff)
  ultimately have g: "blob_get ok_io (blobs_root ex_root) (ex_digest ''layer'') ?g = Inr ''layer''"
    using blob_get_ok [OF _ ex_digest_plain] ex_digest_strip by metis
  with registry_content_addressed [OF ex_sha_ok ex_stored_inv ex_ops_safe(1) ex_digest_plain this] show ?thesis by blast
qed




text \<open>An image pushed to the repository given by its path segments: a layer and a tag that names it.\<close>

definition ex_pushed :: "string list \<Rightarrow> fs" where
  "ex_pushed repo =
     (let base = ex_root @ ''repositories'' # repo
      in \<lparr>fs_dirs = map (\<lambda>n. take n (base @ [''manifests''])) [3..<length base + 2] @ fs_dirs ex_fs,
          fs_files = [(base @ [''manifests'', ''v1''], ex_digest ''layer''),
                      (blob_file ex_root (hex_encode (ex_sha ''layer'')), ''layer'')]\<rparr>)"

abbreviation ex_image :: fs where "ex_image \<equiv> ex_pushed [''app'', ''api'']"
abbreviation ex_flat :: fs where "ex_flat \<equiv> ex_pushed [''myrepo'']"

lemma ex_dirs:
  "fs_dirs ex_image = [[''srv'', ''repositories'', ''app''], [''srv'', ''repositories'', ''app'', ''api''],
     [''srv'', ''repositories'', ''app'', ''api'', ''manifests'']] @ fs_dirs ex_fs"
  "fs_dirs ex_flat = [[''srv'', ''repositories'', ''myrepo''], [''srv'', ''repositories'', ''myrepo'', ''manifests'']] @ fs_dirs ex_fs"
  by (simp_all add: ex_pushed_def ex_root_def Let_def upt_rec)

lemma ex_pushed_files:
  "file_at (ex_pushed repo) q =
     (if q = ex_root @ ''repositories'' # repo @ [''manifests'', ''v1''] then Some (ex_digest ''layer'')
      else if q = blob_file ex_root (hex_encode (ex_sha ''layer'')) then Some ''layer'' else None)"
  by (simp add: ex_pushed_def Let_def file_at_def)

lemma dir_chain_more: "reg_inv sha256 root f \<Longrightarrow> fs_dirs g = ds @ fs_dirs f \<Longrightarrow>
  dir_chain g (sha_dir root) \<and> dir_chain g (root @ [''repositories'']) \<and> dir_chain g (root @ [''uploads''])"
  using dir_chain_mono [of f _ g] by (auto simp: reg_inv_def)

lemma ex_pushed_inv: "reg_inv ex_sha ex_root ex_image" "reg_inv ex_sha ex_root ex_flat"
proof -
  have "wf_fs ex_image" "wf_fs ex_flat"
    by (simp_all add: wf_fs_def is_dir_def ex_dirs ex_fs_eq) (simp_all add: ex_pushed_def Let_def ex_root_def)
  then show "reg_inv ex_sha ex_root ex_image" "reg_inv ex_sha ex_root ex_flat"
    using dir_chain_more [OF ex_fs_inv ex_dirs(1)] dir_chain_more [OF ex_fs_inv ex_dirs(2)]
    unfolding reg_inv_def by (auto simp: ex_pushed_files is_dir_def ex_dirs ex_fs_eq ex_root_def)
qed

lemma ex_digest_utf8: "utf8_ok (map of_char (ex_digest ''layer''))"
  by code_simp

lemma ex_image_dir: "dir_chain ex_image (ex_root @ [''repositories'', ''app'', ''api'', ''manifests''])"
  by code_simp


text \<open>
  The mark phase looks for manifests exactly two directories below \<open>repositories\<close>. In a registry
  where every repository name has one segment, or three and more, a collection deletes every
  blob, layers and configs of pushed images included, although all manifests stay readable.
\<close>

theorem gc_empties_flat_registry:
  assumes "sha_ok sha256" "reg_inv sha256 root f" "tidy f"
    and "\<And>p n. plain p \<Longrightarrow> plain n \<Longrightarrow> \<not> path_exists f (root @ [''repositories'', p, n, ''manifests''])"
  shows "\<exists>res g. garbage_collect vo ok_io root f = (Inr res, g) \<and>
    (\<forall>h. file_at g (blob_file root h) = None) \<and>
    (\<forall>q. (\<forall>h. q \<noteq> blob_file root h) \<longrightarrow> file_at g q = file_at f q)"
  using garbage_collect_effect [OF assms(1,2) collect_flat [OF assms(2-4)], of vo] by fastforce

theorem gc_empties_flat_registry_witness:
  "file_at ex_flat (ex_root @ [''repositories'', ''myrepo'', ''manifests'', ''v1'']) = Some (ex_digest ''layer'') \<and>
   file_at ex_flat (blob_file ex_root (hex_encode (ex_sha ''layer''))) = Some ''layer'' \<and>
   (\<exists>res g. garbage_collect ex_vo ok_io ex_root ex_flat = (Inr res, g) \<and>
      file_at g (blob_file ex_root (hex_encode (ex_sha ''layer''))) = None)"
proof -
  have "\<not> path_exists ex_flat (ex_root @ [''repositories'', p, n, ''manifests''])" if "plain p" "plain n" for p n
  proof -
    have "\<not> is_dir ex_flat [''srv'', ''repositories'', p, n]" if "n \<noteq> ''manifests''"
      using that by (simp add: is_dir_def ex_dirs ex_fs_eq)
    moreover have "\<not> is_dir ex_flat [''srv'', ''repositories'', p, n, ''manifests'']" by (simp add: is_dir_def ex_dirs ex_fs_eq)
    moreover have "file_at ex_flat [''srv'', ''repositories'', p, ''manifests'', ''manifests''] = None"
      by (simp add: ex_pushed_files ex_root_def)
    ultimately show ?thesis using that
      by (auto simp: path_exists_def resolve_def ex_root_def plain_def split: option.splits if_splits)
  qed
  moreover have "tidy ex_flat"
    unfolding tidy_def ex_dirs ex_fs_eq by (simp add: plain_def)
  ultimately obtain res g where "garbage_collect ex_vo ok_io ex_root ex_flat = (Inr res, g)" "\<forall>h. file_at g (blob_file ex_root h) = None"
    using gc_empties_flat_registry [OF ex_sha_ok ex_pushed_inv(2), of ex_vo] by blast
  then show ?thesis by (auto simp: ex_pushed_files ex_root_def)
qed

text \<open>
  A torn write is never repaired. If writing a blob fails after part of the data has reached the file,
  the upload reports an error; but the same upload, retried, takes the file for the blob, reports
  success without writing, and a read by that digest returns the partial data.
\<close>

theorem torn_blob_write:
  assumes "sha_ok sha256" "reg_inv sha256 root f" "strip_sha digest = hex_encode (sha256 data)"
    and "file_at f (blob_file root (strip_sha digest)) = None"
    and "io_write io (blob_file root (strip_sha digest)) = WErr e (Some part)"
  shows "\<exists>err g. blob_put sha256 io (blobs_root root) digest data f = (Inl err, g) \<and>
    blob_put sha256 ok_io (blobs_root root) digest data g = (Inr (), g) \<and>
    blob_get ok_io (blobs_root root) digest g = Inr part"
proof -
  have pl: "plain (strip_sha digest)" using sha_plain [OF assms(1)] assms(3) by simp
  let ?q = "blob_file root (strip_sha digest)"
  let ?g = "put_file ?q part f"
  have c: "dir_chain f (sha_dir root)" and nd: "\<not> is_dir f ?q" using assms(2) by (simp_all add: reg_inv_def)
  have r: "resolve f ?q = Some ?q" "resolve ?g ?q = Some ?q"
    using resolve_child [of f "sha_dir root", OF c pl] resolve_child [of ?g "sha_dir root", OF _ pl] c by simp_all
  note path = blob_path_plain [OF pl]
  have "blob_put sha256 io (blobs_root root) digest data f =
      (Inl (RegistryError (''Failed to write blob '' @ digest @ '': '' @ e)), ?g)"
    using assms(3,4,5) r nd
    by (simp only: blob_put_def Let_def path path_exists_def fs_write_def) simp
  moreover have "blob_put sha256 ok_io (blobs_root root) digest data ?g = (Inr (), ?g)"
    using assms(3) r nd by (simp only: blob_put_def Let_def path path_exists_def) simp
  moreover have "blob_get ok_io (blobs_root root) digest ?g = Inr part"
    using r nd by (simp add: blob_get_def path fs_read_def ok_io_def)
  ultimately show ?thesis by blast
qed

definition ex_torn_io :: disk_io where
  "ex_torn_io = ok_io\<lparr>io_write := \<lambda>_. WErr ''No space left on device (os error 28)'' (Some ''lay'')\<rparr>"

theorem torn_blob_write_witness:
  "\<exists>err g. blob_put ex_sha ex_torn_io (blobs_root ex_root) (ex_digest ''layer'') ''layer'' ex_fs = (Inl err, g) \<and>
     blob_put ex_sha ok_io (blobs_root ex_root) (ex_digest ''layer'') ''layer'' g = (Inr (), g) \<and>
     blob_get ok_io (blobs_root ex_root) (ex_digest ''layer'') g = Inr ''lay''"
proof -
  have "strip_sha (ex_digest ''layer'') = hex_encode (ex_sha ''layer'')"
    unfolding ex_digest_def strip_sha_prefix ..
  moreover have "file_at ex_fs q = None" for q by (simp add: ex_fs_eq file_at_def)
  moreover have "io_write ex_torn_io q = WErr ''No space left on device (os error 28)'' (Some ''lay'')" for q
    by (simp add: ex_torn_io_def)
  ultimately show ?thesis using torn_blob_write [OF ex_sha_ok ex_fs_inv] by blast
qed

end
