(* ===== verification/Registry_Api.thy ===== *)
theory Registry_Api
  imports Registry
begin

text \<open>
  The OCI Distribution handlers of \<open>crates/picloud-http/src/implementation.rs\<close> over the registry
  backend: authentication, scopes, path splitting and the five \<open>/v2\<close> routes. A request carries what
  axum extracts: the decoded path after \<open>/v2/\<close>, the headers the handlers read (a header that is
  present but not visible ASCII is \<open>Some None\<close>) and the collected body, or the error of collecting
  it. Token validation belongs to the IAM slice and is a function in the state.
\<close>

section \<open>Requests, responses, state\<close>

record v2_request =
  rq_authorization :: "string option option"
  rq_content_type :: "string option option"
  rq_head :: bool
  rq_path :: string
  rq_body :: "string + string"

datatype v2_body =
    NoBody
  | Raw string
  | OciErrors string string
  | TagList string "string list"
  | EmptyObject

record v2_response =
  rp_status :: nat
  rp_headers :: "(string \<times> string) list"
  rp_body :: v2_body

record v2_state =
  v2_registry :: "path option"
  v2_iam :: "(string \<Rightarrow> picloud_error + validated_identity) option"
  v2_domain :: cluster_domain

definition status_only :: "nat \<Rightarrow> v2_response" where
  "status_only n = \<lparr>rp_status = n, rp_headers = [], rp_body = NoBody\<rparr>"

definition oci_error :: "nat \<Rightarrow> string \<Rightarrow> string \<Rightarrow> v2_response" where
  "oci_error n code message =
     \<lparr>rp_status = n, rp_headers = [(''content-type'', ''application/json'')], rp_body = OciErrors code message\<rparr>"

definition oci_www_authenticate :: "v2_state \<Rightarrow> string" where
  "oci_www_authenticate st =
     ''Bearer realm='' @ [dquote] @ ''https://'' @ v2_domain st @ ''/v2/token'' @ [dquote] @ '',service='' @
     [dquote] @ v2_domain st @ [dquote]"

definition oci_unauthorized :: "v2_state \<Rightarrow> string \<Rightarrow> v2_response" where
  "oci_unauthorized st message =
     \<lparr>rp_status = 401,
      rp_headers = [(''www-authenticate'', oci_www_authenticate st), (''content-type'', ''application/json'')],
      rp_body = OciErrors ''UNAUTHORIZED'' message\<rparr>"

definition oci_forbidden :: "string \<Rightarrow> v2_response" where
  "oci_forbidden message = oci_error 403 ''DENIED'' message"

definition validate_oci_token :: "v2_state \<Rightarrow> v2_request \<Rightarrow> v2_response + validated_identity" where
  "validate_oci_token st rq =
     (case v2_iam st of
        None \<Rightarrow> Inl (oci_unauthorized st ''authentication required'')
      | Some iam \<Rightarrow>
     (case rq_authorization rq of
        None \<Rightarrow> Inl (oci_unauthorized st ''authentication required'')
      | Some None \<Rightarrow> Inl (oci_unauthorized st ''invalid authorization header'')
      | Some (Some auth_str) \<Rightarrow>
          if \<not> starts_with auth_str ''Bearer '' then Inl (oci_unauthorized st ''bearer token required'')
          else (case iam (drop 7 auth_str) of
                  Inr identity \<Rightarrow> Inr identity
                | Inl _ \<Rightarrow> Inl (oci_unauthorized st ''invalid or expired token''))))"

definition require_oci_scope :: "validated_identity \<Rightarrow> string \<Rightarrow> v2_response + unit" where
  "require_oci_scope identity required =
     (if list_ex (\<lambda>r. r = ''admin'') (vi_roles identity) then Inr ()
      else if list_ex (\<lambda>s. s = required \<or> s = ''*'') (vi_scopes identity) then Inr ()
      else if list_ex (\<lambda>p. p = required \<or> p = ''*'') (vi_permissions identity) then Inr ()
      else Inl (oci_forbidden (''insufficient scope: '' @ required @ '' required'')))"

section \<open>Paths\<close>

definition split_oci_path :: "string \<Rightarrow> string \<Rightarrow> (string \<times> string) option" where
  "split_oci_path path segment =
     (case find_sub (''/'' @ segment @ ''/'') path of
        None \<Rightarrow> None
      | Some (repo, reference) \<Rightarrow>
          if repo = [] \<or> reference = [] then None else Some (repo, reference))"

text \<open>\<open>str::trim_end_matches\<close> with a non-empty pattern.\<close>

function trim_end_matches :: "string \<Rightarrow> string \<Rightarrow> string" where
  "trim_end_matches p s =
     (if p \<noteq> [] \<and> ends_with s p then trim_end_matches p (take (length s - length p) s) else s)"
  by auto
termination
proof (relation "measure (\<lambda>(p, s). length s)", simp)
  fix p s :: string
  assume a: "p \<noteq> [] \<and> ends_with s p"
  then have "s \<noteq> []" by (auto simp: ends_with_def starts_with_def)
  with a show "((p, take (length s - length p) s), (p, s)) \<in> measure (\<lambda>(p, s). length s)" by simp
qed

declare trim_end_matches.simps [simp del]

section \<open>Handlers\<close>

text \<open>The checks that open every handler: registry, token, scope.\<close>

definition guard :: "v2_state \<Rightarrow> v2_request \<Rightarrow> string \<Rightarrow> v2_response + path" where
  "guard st rq scope =
     (case v2_registry st of
        None \<Rightarrow> Inl (status_only 404)
      | Some root \<Rightarrow>
          and_then (validate_oci_token st rq) (\<lambda>identity.
          and_then (require_oci_scope identity scope) (\<lambda>_. Inr root)))"

definition handle_v2_check :: "v2_state \<Rightarrow> v2_request \<Rightarrow> v2_response" where
  "handle_v2_check st rq =
     (if v2_registry st = None then status_only 404
      else case validate_oci_token st rq of
        Inl resp \<Rightarrow> resp
      | Inr _ \<Rightarrow> \<lparr>rp_status = 200, rp_headers = [(''content-type'', ''application/json'')], rp_body = EmptyObject\<rparr>)"

definition data_body :: "v2_request \<Rightarrow> string \<Rightarrow> v2_body" where
  "data_body rq data = (if rq_head rq then NoBody else Raw data)"

definition handle_v2_dispatch ::
  "(string \<Rightarrow> bytes) \<Rightarrow> disk_io \<Rightarrow> v2_state \<Rightarrow> v2_request \<Rightarrow> fs \<Rightarrow> v2_response" where
  "handle_v2_dispatch sha256 io st rq f =
     (case guard st rq ''pull'' of
        Inl resp \<Rightarrow> resp
      | Inr root \<Rightarrow>
     (case split_oci_path (rq_path rq) ''manifests'' of
        Some (repo, rest) \<Rightarrow>
          (case get_manifest io root repo rest f of
             Inr (content_type, data) \<Rightarrow>
               \<lparr>rp_status = 200,
                rp_headers = [(''content-type'', content_type),
                              (''docker-content-digest'', ''sha256:'' @ hex_encode (sha256 data))],
                rp_body = data_body rq data\<rparr>
           | Inl _ \<Rightarrow> oci_error 404 ''MANIFEST_UNKNOWN'' ''manifest unknown'')
      | None \<Rightarrow>
     (case split_oci_path (rq_path rq) ''blobs'' of
        Some (repo, digest) \<Rightarrow>
          (case blob_get io (blobs_root root) digest f of
             Inr data \<Rightarrow>
               \<lparr>rp_status = 200,
                rp_headers = [(''content-type'', ''application/octet-stream''),
                              (''content-length'', show_nat (length data)),
                              (''docker-content-digest'', digest)],
                rp_body = data_body rq data\<rparr>
           | Inl _ \<Rightarrow> oci_error 404 ''BLOB_UNKNOWN'' ''blob unknown'')
      | None \<Rightarrow>
          if ends_with (rq_path rq) ''/tags/list'' then
            (let repo = trim_end_matches ''/tags/list'' (rq_path rq)
             in case list_tags io root repo f of
                  Inr tags \<Rightarrow>
                    \<lparr>rp_status = 200, rp_headers = [(''content-type'', ''application/json'')], rp_body = TagList repo tags\<rparr>
                | Inl _ \<Rightarrow> oci_error 404 ''NAME_UNKNOWN'' ''repository unknown'')
          else status_only 404)))"

definition handle_v2_put ::
  "(uuid \<Rightarrow> string) \<Rightarrow> (string \<Rightarrow> bytes) \<Rightarrow> disk_io \<Rightarrow> v2_state \<Rightarrow> v2_request \<Rightarrow> fs \<Rightarrow> v2_response \<times> fs" where
  "handle_v2_put su sha256 io st rq f =
     (case guard st rq ''push'' of
        Inl resp \<Rightarrow> (resp, f)
      | Inr root \<Rightarrow>
     (case rq_body rq of
        Inl e \<Rightarrow> (oci_error 400 ''SIZE_INVALID'' e, f)
      | Inr body_bytes \<Rightarrow>
     (case split_oci_path (rq_path rq) ''manifests'' of
        Some (repo, reference) \<Rightarrow>
          (let content_type = (case rq_content_type rq of Some (Some ct) \<Rightarrow> ct | _ \<Rightarrow> default_manifest_type)
           in case put_manifest sha256 io root repo reference content_type body_bytes f of
                (Inr digest, f) \<Rightarrow>
                  (\<lparr>rp_status = 201,
                    rp_headers = [(''location'', ''/v2/'' @ repo @ ''/manifests/'' @ digest), (''docker-content-digest'', digest)],
                    rp_body = NoBody\<rparr>, f)
              | (Inl e, f) \<Rightarrow> (oci_error 500 ''MANIFEST_INVALID'' (show_error su e), f))
      | None \<Rightarrow>
          if find_sub ''/blobs/uploads/'' (rq_path rq) \<noteq> None then
            (let digest = ''sha256:'' @ hex_encode (sha256 body_bytes)
             in case blob_put sha256 io (blobs_root root) digest body_bytes f of
                  (Inr _, f) \<Rightarrow>
                    (\<lparr>rp_status = 201, rp_headers = [(''docker-content-digest'', digest)], rp_body = NoBody\<rparr>, f)
                | (Inl e, f) \<Rightarrow> (oci_error 500 ''BLOB_UPLOAD_INVALID'' (show_error su e), f))
          else (status_only 404, f))))"

definition handle_v2_post ::
  "(uuid \<Rightarrow> string) \<Rightarrow> string \<Rightarrow> disk_io \<Rightarrow> v2_state \<Rightarrow> v2_request \<Rightarrow> fs \<Rightarrow> v2_response \<times> fs" where
  "handle_v2_post su uuid io st rq f =
     (case guard st rq ''push'' of
        Inl resp \<Rightarrow> (resp, f)
      | Inr root \<Rightarrow>
          if ends_with (rq_path rq) ''/blobs/uploads/'' \<or> ends_with (rq_path rq) ''/blobs/uploads'' then
            (let repo = trim_end_matches ''/'' (trim_end_matches ''/blobs/uploads'' (trim_end_matches ''/'' (rq_path rq)))
             in case start_blob_upload uuid io root f of
                  (Inr uuid, f) \<Rightarrow>
                    (\<lparr>rp_status = 202,
                      rp_headers = [(''location'', ''/v2/'' @ repo @ ''/blobs/uploads/'' @ uuid), (''docker-upload-uuid'', uuid)],
                      rp_body = NoBody\<rparr>, f)
                | (Inl e, f) \<Rightarrow> (oci_error 500 ''BLOB_UPLOAD_UNKNOWN'' (show_error su e), f))
          else (status_only 404, f))"

definition handle_v2_delete ::
  "(uuid \<Rightarrow> string) \<Rightarrow> disk_io \<Rightarrow> v2_state \<Rightarrow> v2_request \<Rightarrow> fs \<Rightarrow> v2_response \<times> fs" where
  "handle_v2_delete su io st rq f =
     (case guard st rq ''delete'' of
        Inl resp \<Rightarrow> (resp, f)
      | Inr root \<Rightarrow>
     (case split_oci_path (rq_path rq) ''manifests'' of
        Some (repo, reference) \<Rightarrow>
          (case delete_manifest io root repo reference f of
             (Inr _, f) \<Rightarrow> (status_only 202, f)
           | (Inl e, f) \<Rightarrow> (oci_error 404 ''MANIFEST_UNKNOWN'' (show_error su e), f))
      | None \<Rightarrow> (status_only 404, f)))"

section \<open>Authorisation\<close>

text \<open>The specification of access: the bearer token is valid and its identity is an administrator or
  holds the scope, or the wildcard, among its scopes or permissions.\<close>

definition authorised :: "v2_state \<Rightarrow> v2_request \<Rightarrow> string \<Rightarrow> bool" where
  "authorised st rq scope \<longleftrightarrow>
     (\<exists>iam token identity. v2_iam st = Some iam \<and> rq_authorization rq = Some (Some (''Bearer '' @ token)) \<and>
        iam token = Inr identity \<and>
        (''admin'' \<in> set (vi_roles identity) \<or> {scope, ''*''} \<inter> (set (vi_scopes identity) \<union> set (vi_permissions identity)) \<noteq> {}))"

lemma require_scope_iff:
  "require_oci_scope identity scope = Inr () \<longleftrightarrow>
     ''admin'' \<in> set (vi_roles identity) \<or> {scope, ''*''} \<inter> (set (vi_scopes identity) \<union> set (vi_permissions identity)) \<noteq> {}"
  by (auto simp: require_oci_scope_def list_ex_iff)

lemma validate_token_iff:
  "validate_oci_token st rq = Inr identity \<longleftrightarrow>
     (\<exists>iam token. v2_iam st = Some iam \<and> rq_authorization rq = Some (Some (''Bearer '' @ token)) \<and> iam token = Inr identity)"
proof -
  have s: "starts_with a ''Bearer '' \<longleftrightarrow> (\<exists>t. a = ''Bearer '' @ t)" for a by (rule starts_with_iff)
  show ?thesis
    unfolding validate_oci_token_def s by (auto split: option.splits sum.splits)
qed

lemma guard_iff: "guard st rq scope = Inr root \<longleftrightarrow> v2_registry st = Some root \<and> authorised st rq scope"
proof -
  have "require_oci_scope i scope = Inr u \<longleftrightarrow> require_oci_scope i scope = Inr ()" for i and u :: unit by simp
  then show ?thesis
    by (auto simp: guard_def authorised_def and_then_Inr_iff validate_token_iff require_scope_iff split: option.splits)
qed

lemma guard_refuses: "guard st rq scope = Inl resp \<Longrightarrow> rp_status resp \<in> {401, 403, 404}"
  by (auto simp: guard_def and_then_def validate_oci_token_def require_oci_scope_def status_only_def oci_unauthorized_def
      oci_forbidden_def oci_error_def split: option.splits sum.splits if_splits)

section \<open>Absolute references\<close>

lemma show_path_chars: "c \<in> set (show_path q) \<Longrightarrow> c = slash \<or> (\<exists>x \<in> set q. c \<in> set x)"
  by (auto simp: show_path_def split: if_splits)

lemma split_path_absolute:
  assumes "q \<noteq> []"
  shows "split_oci_path (''x/blobs/'' @ show_path q) ''blobs'' = Some (''x'', show_path q)"
    "split_oci_path (''x/manifests/'' @ show_path q) ''manifests'' = Some (''x'', show_path q)"
proof -
  have ne: "show_path q \<noteq> []" using assms by (cases q) (simp_all add: show_path_def)
  show "split_oci_path (''x/blobs/'' @ show_path q) ''blobs'' = Some (''x'', show_path q)"
    "split_oci_path (''x/manifests/'' @ show_path q) ''manifests'' = Some (''x'', show_path q)"
    using ne by (simp_all add: split_oci_path_def starts_with_def)
qed

lemma strip_sha_absolute: "strip_sha (slash # s) = slash # s"
  by (simp add: strip_sha_def strip_prefix_def starts_with_def)

lemma blob_path_absolute: "list_all plain q \<Longrightarrow> q \<noteq> [] \<Longrightarrow> blob_path root (show_path q) = q"
proof -
  assume q: "list_all plain q" "q \<noteq> []"
  then obtain s where s: "show_path q = slash # s" by (cases q) (simp_all add: show_path_def)
  show ?thesis using path_join_absolute [OF q] by (simp add: blob_path_def s strip_sha_absolute)
qed

lemma starts_with_prefix: "starts_with (p @ s) p' \<Longrightarrow> length p' \<le> length p \<Longrightarrow> starts_with p p'"
  by (auto simp: starts_with_def)

text \<open>No \<open>/manifests/\<close> occurs before an absolute path without that component.\<close>

lemma find_sub_None: "(\<And>a b. s \<noteq> a @ m @ b) \<Longrightarrow> m \<noteq> [] \<Longrightarrow> find_sub m s = None"
proof (induction s)
  case (Cons c s)
  have "\<not> starts_with (c # s) m" using Cons.prems(1) [of "[]"] by (auto simp: starts_with_iff)
  moreover have "\<And>a b. s \<noteq> a @ m @ b" using Cons.prems(1) [of "c # _"] by auto
  ultimately show ?case using Cons by simp
qed simp

section \<open>Properties\<close>

text \<open>
  C23. Access control. A request that is not authorised (no valid bearer token, or a token without
  the scope of the operation, the wildcard or the admin role) never changes the registry and never
  learns its contents: pull needs \<open>pull\<close>, pushes and upload sessions need \<open>push\<close>,
  deletions need \<open>delete\<close>; the answer is then 401, 403 or 404.
\<close>

theorem v2_access_control:
  "(\<not> authorised st rq ''pull'' \<longrightarrow> rp_status (handle_v2_dispatch sha256 io st rq f) \<in> {401, 403, 404} \<and>
      handle_v2_dispatch sha256 io st rq f = handle_v2_dispatch sha256 io st rq f') \<and>
   (\<not> authorised st rq ''push'' \<longrightarrow>
      (\<exists>resp. rp_status resp \<in> {401, 403, 404} \<and> handle_v2_put su sha256 io st rq f = (resp, f) \<and>
              handle_v2_post su uuid io st rq f = (resp, f))) \<and>
   (\<not> authorised st rq ''delete'' \<longrightarrow>
      (\<exists>resp. rp_status resp \<in> {401, 403, 404} \<and> handle_v2_delete su io st rq f = (resp, f)))"
proof -
  have no: "\<exists>resp. guard st rq scope = Inl resp \<and> rp_status resp \<in> {401, 403, 404}" if "\<not> authorised st rq scope" for scope
    using that guard_iff [of st rq scope] guard_refuses [of st rq scope] by (cases "guard st rq scope") auto
  show ?thesis
    using no [of "''pull''"] no [of "''push''"] no [of "''delete''"]
    by (auto simp: handle_v2_dispatch_def handle_v2_put_def handle_v2_post_def handle_v2_delete_def)
qed

definition ex_identity :: "string list \<Rightarrow> validated_identity" where
  "ex_identity scopes = \<lparr>vi_identity_iri = ''https://picloud.local/users/u'', vi_product = None, vi_roles = [], vi_audience = None,
     vi_scopes = scopes, vi_permissions = []\<rparr>"

definition ex_state :: v2_state where
  "ex_state = \<lparr>v2_registry = Some ex_root,
     v2_iam = Some (\<lambda>t. if t = ''puller'' then Inr (ex_identity [''pull''])
                        else if t = ''pusher'' then Inr (ex_identity [''push'', ''pull'']) else Inl (Internal ''bad'')),
     v2_domain = ''picloud.local''\<rparr>"

definition ex_request :: "string \<Rightarrow> string \<Rightarrow> string \<Rightarrow> v2_request" where
  "ex_request token path data = \<lparr>rq_authorization = Some (Some (''Bearer '' @ token)), rq_content_type = None,
     rq_head = False, rq_path = path, rq_body = Inr data\<rparr>"

lemma ex_authorised:
  "authorised ex_state (ex_request ''puller'' path data) ''pull''"
  "authorised ex_state (ex_request ''pusher'' path data) ''push''"
  "authorised ex_state (ex_request ''pusher'' path data) ''pull''"
  "\<not> authorised ex_state (ex_request ''puller'' path data) ''push''"
  "\<not> authorised ex_state (ex_request ''puller'' path data) ''delete''"
  "\<not> authorised ex_state (ex_request ''nobody'' path data) ''pull''"
  by (simp_all add: authorised_def ex_state_def ex_request_def ex_identity_def)

theorem v2_access_control_witness:
  "rp_status (handle_v2_dispatch ex_sha ok_io ex_state (ex_request ''nobody'' ''x/manifests/v1'' []) ex_image) \<in> {401, 403, 404} \<and>
   snd (handle_v2_put (\<lambda>_. []) ex_sha ok_io ex_state (ex_request ''puller'' ''x/manifests/v1'' ''m'') ex_image) = ex_image"
  using v2_access_control [of ex_state "ex_request ''nobody'' ''x/manifests/v1'' []" ex_sha ok_io ex_image]
    v2_access_control [of ex_state "ex_request ''puller'' ''x/manifests/v1'' ''m''" ex_sha ok_io ex_image ex_image "\<lambda>_. []"]
    ex_authorised
  by (metis snd_conv)

lemma no_manifests_marker:
  assumes "list_all plain q" "q \<noteq> []" "''manifests'' \<notin> set q"
  shows "split_oci_path (''x/blobs/'' @ show_path q) ''manifests'' = None"
proof -
  obtain s where s: "show_path q = slash # s" using assms(2) by (cases q) (simp_all add: show_path_def)
  have "split_on slash s = q" using show_path_split [OF assms(1,2)] by (simp add: s)
  then have sp: "split_on slash (''x/blobs/'' @ show_path q) = [''x'', ''blobs'', []] @ q" by (simp add: s)
  have "''x/blobs/'' @ show_path q \<noteq> a @ ''/manifests/'' @ b" for a b
  proof
    assume "''x/blobs/'' @ show_path q = a @ ''/manifests/'' @ b"
    then have "[''x'', ''blobs'', []] @ q = split_on slash a @ ''manifests'' # split_on slash b"
      using sp split_on_append_sep [of slash a "''manifests/'' @ b"] by simp
    then have "''manifests'' \<in> set ([''x'', ''blobs'', []] @ q)" by simp
    with assms(3) show False by simp
  qed
  then show ?thesis using find_sub_None [of "''x/blobs/'' @ show_path q" "''/manifests/''"] by (simp add: split_oci_path_def)
qed

lemma blob_put_frame:
  assumes "sha_ok sha256" "list_all plain root" "\<not> below root q"
  shows "file_at (snd (blob_put sha256 io (blobs_root root) (''sha256:'' @ hex_encode (sha256 data)) data f)) q = file_at f q"
proof -
  let ?p = "blob_file root (hex_encode (sha256 data))"
  have st: "strip_sha (''sha256:'' @ hex_encode (sha256 data)) = hex_encode (sha256 data)" by (rule strip_sha_prefix)
  have p: "blob_path (blobs_root root) (''sha256:'' @ hex_encode (sha256 data)) = ?p"
    using blob_path_plain [of "''sha256:'' @ hex_encode (sha256 data)" root] sha_plain [OF assms(1), of data] by (simp only: st)
  have "list_all plain ?p" using assms(1,2) sha_plain by simp
  moreover have "?p \<noteq> q" using assms(3) by (auto simp: below_def)
  ultimately have "file_at (snd (fs_write io ?p data f)) q = file_at f q" by (rule fs_write_frame)
  then show ?thesis unfolding blob_put_def Let_def st p by (auto split: prod.splits sum.splits)
qed

lemma sanitize_id: "CHR '':'' \<notin> set s \<Longrightarrow> sanitize_reference s = s"
  by (auto simp: sanitize_reference_def intro!: map_idI)

text \<open>A manifest pushed under an absolute reference is written to that path.\<close>

lemma put_manifest_absolute:
  assumes "sha_ok sha256" "list_all plain root" "dir_chain f p" "plain c" "\<not> is_dir f (p @ [c])"
    "\<not> is_dir f (p @ [c @ ''.content-type''])" "\<not> below root (p @ [c])"
    "CHR '':'' \<notin> set (show_path (p @ [c]))"
  shows "\<exists>digest g. put_manifest sha256 ok_io root ''x'' (show_path (p @ [c])) ct data f = (Inr digest, g) \<and>
    file_at g (p @ [c]) = Some data"
proof -
  let ?q = "p @ [c]"
  let ?dg = "''sha256:'' @ hex_encode (sha256 data)"
  have pl: "list_all plain ?q" using dir_chain_plain [OF assms(3)] assms(4) by simp
  have c1: "plain (c @ ''.content-type'')" using assms(4) by (rule plain_ct)
  have sct: "show_path ?q @ ''.content-type'' = show_path (p @ [c @ ''.content-type''])" by (simp add: show_path_def)
  have mp: "manifest_path root ''x'' (show_path ?q) = ?q"
    using path_join_absolute [OF pl] sanitize_id [OF assms(8)] by (simp add: manifest_path_def)
  have ctp: "manifest_content_type_path root ''x'' (show_path ?q) = p @ [c @ ''.content-type'']"
    using path_join_absolute [of "p @ [c @ ''.content-type'']"] pl c1 sanitize_id [OF assms(8)]
    by (simp add: manifest_content_type_path_def sct)
  have fl: "filter (\<lambda>c. c \<noteq> [] \<and> c \<noteq> ''.'') ?q = ?q"
    using pl by (auto simp: filter_id_conv list_all_iff plain_def simp del: filter_append)
  have par: "path_parent ?q = Some p" by (simp only: path_parent_def Let_def fl) simp
  have x: "plain_repo ''x''" by code_simp
  have rf: "plain_ref ?dg" by (rule plain_ref_digest [OF assms(1)])
  have o: "list_all plain (manifest_path root ''x'' ?dg)" "list_all plain (manifest_content_type_path root ''x'' ?dg)"
    using outside_manifest [OF assms(2) x rf] by (simp_all add: outside_def)
  have ne: "manifest_path root ''x'' ?dg \<noteq> ?q" "manifest_content_type_path root ''x'' ?dg \<noteq> ?q"
    using assms(7) unfolding manifest_paths [OF x rf] by (auto simp: below_def)
  let ?f1 = "put_file (p @ [c @ ''.content-type'']) ct (put_file ?q data f)"
  let ?f2 = "if starts_with (show_path ?q) ''sha256:'' then ?f1
    else snd (fs_write ok_io (manifest_content_type_path root ''x'' ?dg) ct (snd (fs_write ok_io (manifest_path root ''x'' ?dg) data ?f1)))"
  let ?g = "snd (blob_put sha256 ok_io (blobs_root root) ?dg data ?f2)"
  have w1: "fs_write ok_io ?q data f = (Inr (), put_file ?q data f)"
    using assms by (intro fs_write_ok)
  have w2: "fs_write ok_io (p @ [c @ ''.content-type'']) ct (put_file ?q data f) = (Inr (), ?f1)"
    using assms c1 by (intro fs_write_ok) simp_all
  have "put_manifest sha256 ok_io root ''x'' (show_path ?q) ct data f = (Inr ?dg, ?g)"
    unfolding put_manifest_def Let_def mp ctp par
    by (simp only: option.case prod.case sum.case create_dir_existing [OF assms(3)] w1 w2)
  moreover have "file_at ?g ?q = Some data"
    using blob_put_frame [OF assms(1,2,7)] fs_write_frame [OF o(1) ne(1)] fs_write_frame [OF o(2) ne(2)] by simp
  ultimately show ?thesis by blast
qed

text \<open>
  C24. The registry serves and overwrites files outside its directory. \<open>Path::join\<close> replaces the
  base when the digest or the reference is an absolute path, and neither is checked: whoever may
  pull can read any file of the node as a blob, and whoever may push can replace any file whose
  directory exists by pushing a manifest under its absolute path.
\<close>

theorem registry_escapes_root:
  assumes "sha_ok sha256" "v2_registry st = Some root" "list_all plain root" "dir_chain f p" "plain c"
    and "''manifests'' \<notin> set (p @ [c])" "CHR '':'' \<notin> set (show_path (p @ [c]))" "\<not> below root (p @ [c])"
    and "\<not> is_dir f (p @ [c])" "\<not> is_dir f (p @ [c @ ''.content-type''])"
  shows "(authorised st rq ''pull'' \<and> rq_path rq = ''x/blobs/'' @ show_path (p @ [c]) \<and> \<not> rq_head rq \<and>
       file_at f (p @ [c]) = Some secret \<longrightarrow>
       rp_status (handle_v2_dispatch sha256 ok_io st rq f) = 200 \<and>
       rp_body (handle_v2_dispatch sha256 ok_io st rq f) = Raw secret) \<and>
    (authorised st rq ''push'' \<and> rq_path rq = ''x/manifests/'' @ show_path (p @ [c]) \<and> rq_body rq = Inr data \<longrightarrow>
       (\<exists>resp g. handle_v2_put su sha256 ok_io st rq f = (resp, g) \<and> rp_status resp = 201 \<and>
          file_at g (p @ [c]) = Some data))"
proof -
  let ?q = "p @ [c]"
  have pl: "list_all plain ?q" using dir_chain_plain [OF assms(4)] assms(5) by simp
  have g: "guard st rq scope = Inr root" if "authorised st rq scope" for scope
    using that assms(2) by (simp add: guard_iff)
  have "blob_get ok_io (blobs_root root) (show_path ?q) f = Inr secret" if "file_at f ?q = Some secret"
    using blob_path_absolute [OF pl] resolve_child [OF assms(4,5)] assms(9) that
    by (simp add: blob_get_def fs_read_def ok_io_def)
  then have r: "rp_status (handle_v2_dispatch sha256 ok_io st rq f) = 200 \<and>
      rp_body (handle_v2_dispatch sha256 ok_io st rq f) = Raw secret"
    if "authorised st rq ''pull''" "rq_path rq = ''x/blobs/'' @ show_path ?q" "\<not> rq_head rq" "file_at f ?q = Some secret"
    using that no_manifests_marker [OF pl _ assms(6)] split_path_absolute(1) [of ?q]
    by (simp add: handle_v2_dispatch_def g data_body_def)
  have "\<exists>resp g. handle_v2_put su sha256 ok_io st rq f = (resp, g) \<and> rp_status resp = 201 \<and> file_at g ?q = Some data"
    if "authorised st rq ''push''" "rq_path rq = ''x/manifests/'' @ show_path ?q" "rq_body rq = Inr data"
  proof -
    obtain digest h where "put_manifest sha256 ok_io root ''x'' (show_path ?q)
        (case rq_content_type rq of Some (Some ct) \<Rightarrow> ct | _ \<Rightarrow> default_manifest_type) data f = (Inr digest, h)"
      "file_at h ?q = Some data"
      using put_manifest_absolute [OF assms(1,3,4,5,9,10,8,7)] by blast
    then show ?thesis using that split_path_absolute(2) [of ?q] by (simp add: handle_v2_put_def g Let_def)
  qed
  with r show ?thesis by blast
qed

definition ex_node :: fs where
  "ex_node = \<lparr>fs_dirs = [''etc''] # fs_dirs ex_fs, fs_files = [([''etc'', ''shadow''], ''root:x'')]\<rparr>"

theorem registry_escapes_root_witness:
  "rp_body (handle_v2_dispatch ex_sha ok_io ex_state (ex_request ''puller'' ''x/blobs//etc/shadow'' []) ex_node) = Raw ''root:x'' \<and>
   (\<exists>resp g. handle_v2_put (\<lambda>_. []) ex_sha ok_io ex_state (ex_request ''pusher'' ''x/manifests//etc/shadow'' ''pwned'') ex_node = (resp, g) \<and>
      file_at g [''etc'', ''shadow''] = Some ''pwned'')"
proof -
  have h: "v2_registry ex_state = Some ex_root" "list_all plain ex_root" "dir_chain ex_node [''etc'']" "plain ''shadow''"
    "''manifests'' \<notin> set ([''etc''] @ [''shadow''])" "CHR '':'' \<notin> set (show_path ([''etc''] @ [''shadow'']))"
    "\<not> below ex_root ([''etc''] @ [''shadow''])" "\<not> is_dir ex_node ([''etc''] @ [''shadow''])"
    "\<not> is_dir ex_node ([''etc''] @ [''shadow'' @ ''.content-type''])"
    by code_simp+
  have f: "file_at ex_node ([''etc''] @ [''shadow'']) = Some ''root:x''" by code_simp
  have s: "''x/blobs/'' @ show_path ([''etc''] @ [''shadow'']) = ''x/blobs//etc/shadow''"
    "''x/manifests/'' @ show_path ([''etc''] @ [''shadow'']) = ''x/manifests//etc/shadow''"
    by (simp_all add: show_path_def)
  show ?thesis
    using registry_escapes_root [OF ex_sha_ok h, of "ex_request ''puller'' ''x/blobs//etc/shadow'' []" "''root:x''"]
      registry_escapes_root [OF ex_sha_ok h, of "ex_request ''pusher'' ''x/manifests//etc/shadow'' ''pwned''" _ "''pwned''" "\<lambda>_. []"]
      ex_authorised f s
    by (auto simp: ex_request_def)
qed

section \<open>Pushing and pulling a manifest\<close>

lemma hd_split_on: "slash \<notin> set w \<Longrightarrow> hd (split_on slash (w @ slash # t)) = w"
  by (simp add: split_on_app)

lemma hd_split_on_append: "hd (split_on slash (a @ slash # t)) = hd (split_on slash a)"
  by (simp add: split_on_append_sep)

lemma find_sub_first:
  assumes "slash \<notin> set w" "w \<notin> set (tl (split_on slash a))"
  shows "find_sub (slash # w @ [slash]) (a @ slash # w @ slash # b) = Some (a, b)"
  using assms(2)
proof (induction a)
  case Nil
  show ?case by (simp add: starts_with_def)
next
  case (Cons c a)
  have n: "\<not> starts_with ((c # a) @ slash # w @ slash # b) (slash # w @ [slash])"
  proof
    assume "starts_with ((c # a) @ slash # w @ slash # b) (slash # w @ [slash])"
    then obtain t where c: "c = slash" and t: "a @ slash # w @ slash # b = w @ slash # t"
      by (auto simp: starts_with_iff)
    have "hd (split_on slash a) = w"
      using arg_cong [OF t, of "\<lambda>s. hd (split_on slash s)"] hd_split_on [OF assms(1)] by (simp add: hd_split_on_append)
    then have "w \<in> set (split_on slash a)" by (metis split_on_nonempty hd_in_set)
    with Cons.prems c show False by simp
  qed
  have "w \<notin> set (tl (split_on slash a))"
    using Cons.prems list.set_sel(2) [OF split_on_nonempty, of w slash a]
    by (cases "c = slash") (auto split: list.splits)
  with Cons.IH n show ?case by simp
qed

text \<open>A repository that can be pushed to: nothing but directories on the way, and no directory among
  the manifests.\<close>

definition pushable :: "path \<Rightarrow> string \<Rightarrow> fs \<Rightarrow> bool" where
  "pushable root repo f \<longleftrightarrow>
     (\<forall>n. file_at f (take n (manifest_dir root repo)) = None) \<and> (\<forall>x. \<not> is_dir f (manifest_dir root repo @ [x]))"

lemma create_manifest_dir:
  assumes "list_all plain root" "plain_repo repo" "pushable root repo f"
  obtains g where "fs_create_dir_all ok_io (manifest_dir root repo) f = (Inr (), g)" "dir_chain g (manifest_dir root repo)"
    "\<And>x. \<not> is_dir g (manifest_dir root repo @ [x])" "fs_files g = fs_files f"
proof -
  let ?d = "manifest_dir root repo"
  have pl: "list_all plain ?d" using assms(1,2) by (simp add: plain_repo_def)
  obtain g where g: "fs_create_dir_all ok_io ?d f = (Inr (), g)" "dir_chain g ?d" "fs_files g = fs_files f"
    "\<And>q. is_dir g q \<Longrightarrow> is_dir f q \<or> (\<exists>n \<le> length ?d. q = take n ?d)"
    using create_dir_success [OF pl] assms(3) unfolding pushable_def by metis
  have "\<not> is_dir g (?d @ [x])" for x
  proof
    assume "is_dir g (?d @ [x])"
    with g(4) assms(3) obtain n where "?d @ [x] = take n ?d" unfolding pushable_def by blast
    then have "length (?d @ [x]) = length (take n ?d)" by (rule arg_cong)
    then show False by (simp only: length_append_singleton length_take)
  qed
  with that g(1-3) show thesis by blast
qed

lemma get_manifest_file:
  assumes "plain_repo repo" "plain_ref ref" "dir_chain f (manifest_dir root repo)" "\<And>x. \<not> is_dir f (manifest_dir root repo @ [x])"
    "file_at f (manifest_dir root repo @ [sanitize_reference ref]) = Some data"
    "file_at f (manifest_dir root repo @ [sanitize_reference ref @ ''.content-type'']) = Some ct" "utf8_ok (map of_char ct)"
  shows "get_manifest ok_io root repo ref f = Inr (ct, data)"
proof -
  have p: "plain (sanitize_reference ref)" "plain (sanitize_reference ref @ ''.content-type'')"
    using assms(2) plain_ct by (simp_all add: plain_ref_def)
  have "fs_read ok_io f (manifest_dir root repo @ [x]) = (case file_at f (manifest_dir root repo @ [x]) of Some d \<Rightarrow> Inr d | None \<Rightarrow> Inl enoent)"
    if "plain x" for x
    using resolve_child [OF assms(3) that] assms(4) [of x] unfolding fs_read_def by (simp add: ok_io_def split: option.splits)
  from this [OF p(1)] this [OF p(2)] assms(5-7) show ?thesis
    unfolding get_manifest_def manifest_paths [OF assms(1,2)] fs_read_to_string_def by simp
qed

lemma blob_put_frame_dir:
  "fs_dirs (snd (blob_put sha256 io broot digest data f)) = fs_dirs f"
  by (auto simp: blob_put_def Let_def fs_write_def put_file_def split: prod.splits sum.splits option.splits write_outcome.splits if_splits)

lemma sanitize_digest: "sanitize_reference (''sha256:'' @ hex_encode bs) = ''sha256_'' @ hex_encode bs"
proof -
  have "map (\<lambda>c. if c = CHR '':'' then CHR ''_'' else c) (hex_encode bs) = hex_encode bs"
    using hex_encode_chars [of _ bs] by (intro map_idI) auto
  then show ?thesis by (simp add: sanitize_reference_def)
qed

lemma content_type_not_digest: "s @ ''.content-type'' \<noteq> ''sha256_'' @ hex_encode bs"
proof
  assume e: "s @ ''.content-type'' = ''sha256_'' @ hex_encode bs"
  have "CHR ''.'' \<in> set (s @ ''.content-type'')" by simp
  then have "CHR ''.'' \<in> set (''sha256_'' @ hex_encode bs)" unfolding e .
  then have "CHR ''.'' \<in> set (hex_encode bs)" by simp
  then show False using hex_encode_chars by blast
qed

lemma put_then_get_manifest:
  assumes "sha_ok sha256" "list_all plain root" "plain_repo repo" "plain_ref ref" "pushable root repo f"
    and "\<not> starts_with ref ''sha256:''" "utf8_ok (map of_char ct)"
    and "sanitize_reference ref \<noteq> ''sha256_'' @ hex_encode (sha256 data) @ ''.content-type''"
  shows "\<exists>g. put_manifest sha256 ok_io root repo ref ct data f = (Inr (''sha256:'' @ hex_encode (sha256 data)), g) \<and>
    get_manifest ok_io root repo ref g = Inr (ct, data) \<and>
    get_manifest ok_io root repo (''sha256:'' @ hex_encode (sha256 data)) g = Inr (ct, data)"
proof -
  define d s hash where "d = manifest_dir root repo" and "s = sanitize_reference ref" and "hash = hex_encode (sha256 data)"
  define dg n where "dg = ''sha256:'' @ hash" and "n = ''sha256_'' @ hash"
  define s' n' where "s' = s @ ''.content-type''" and "n' = n @ ''.content-type''"
  have rf: "plain_ref dg" unfolding dg_def hash_def by (rule plain_ref_digest [OF assms(1)])
  have sn: "sanitize_reference dg = n" unfolding dg_def hash_def n_def by (rule sanitize_digest)
  have mp: "manifest_path root repo ref = d @ [s]" "manifest_content_type_path root repo ref = d @ [s']"
    "manifest_path root repo dg = d @ [n]" "manifest_content_type_path root repo dg = d @ [n']"
    using manifest_paths [OF assms(3,4)] manifest_paths [OF assms(3) rf] by (simp_all add: d_def s_def s'_def n'_def sn)
  have p: "plain s" "plain s'" "plain n" "plain n'"
    using assms(4) rf plain_ct sn unfolding plain_ref_def s_def s'_def n'_def by metis+
  have ne: "s \<noteq> n'" "s' \<noteq> n" "n \<noteq> n'" "s \<noteq> s'"
    using assms(8) content_type_not_digest unfolding s_def s'_def n_def n'_def hash_def by auto
  obtain h where h: "fs_create_dir_all ok_io d f = (Inr (), h)" "dir_chain h d" "\<And>x. \<not> is_dir h (d @ [x])"
    using create_manifest_dir [OF assms(2,3,5)] unfolding d_def by blast
  define g4 where "g4 = put_file (d @ [n']) ct (put_file (d @ [n]) data (put_file (d @ [s']) ct (put_file (d @ [s]) data h)))"
  define g where "g = snd (blob_put sha256 ok_io (blobs_root root) dg data g4)"
  have w: "fs_write ok_io (d @ [x]) v k = (Inr (), put_file (d @ [x]) v k)"
    if "plain x" "dir_chain k d" "\<not> is_dir k (d @ [x])" for x v k
    by (rule fs_write_ok [OF that(2,1,3)])
  have put: "put_manifest sha256 ok_io root repo ref ct data f = (Inr dg, g)"
    unfolding put_manifest_def Let_def hash_def [symmetric] dg_def [symmetric] mp
    using assms(6) p h(2,3) parent_manifest [OF assms(2-4)] by (simp add: h(1) w g_def g4_def mp(1) d_def [symmetric])
  have fr: "file_at g (d @ [x]) = file_at g4 (d @ [x])" for x
  proof -
    have bp: "blob_path (blobs_root root) dg = blob_file root hash"
      using blob_path_plain [of dg root] sha_plain [OF assms(1), of data] unfolding dg_def hash_def by (simp only: strip_sha_prefix)
    have "list_all plain (blob_file root hash)" using assms(1,2) sha_plain by (simp add: hash_def)
    moreover have "blob_file root hash \<noteq> d @ [x]" by (simp add: d_def)
    ultimately have "file_at (snd (fs_write ok_io (blob_path (blobs_root root) dg) data g4)) (d @ [x]) = file_at g4 (d @ [x])"
      unfolding bp by (rule fs_write_frame)
    then show ?thesis by (auto simp: g_def blob_put_def Let_def split: prod.splits sum.splits if_splits)
  qed
  have dirs: "is_dir g q = is_dir h q" for q
    by (simp add: is_dir_def blob_put_frame_dir g_def) (simp add: put_file_def g4_def)
  have chain: "dir_chain g d" "\<And>x. \<not> is_dir g (d @ [x])"
    using h(2,3) unfolding dir_chain_def dirs by blast+
  have fs: "file_at g (d @ [s]) = Some data" "file_at g (d @ [s']) = Some ct" "file_at g (d @ [n]) = Some data" "file_at g (d @ [n']) = Some ct"
    using ne unfolding fr by (auto simp: g4_def s'_def n'_def)
  have "get_manifest ok_io root repo ref g = Inr (ct, data)" "get_manifest ok_io root repo dg g = Inr (ct, data)"
    using get_manifest_file [OF assms(3,4), of g root data ct] get_manifest_file [OF assms(3) rf, of g root data ct] chain fs assms(7)
    unfolding d_def [symmetric] s_def [symmetric] s'_def [symmetric] sn n'_def [symmetric] by blast+
  with put show ?thesis unfolding dg_def hash_def by blast
qed

text \<open>
  C25. Pushing and pulling. A manifest pushed with \<open>push\<close> to a repository of plain names under a
  tag answers 201 with the digest of the bytes, and afterwards a pull by the tag and a pull by that digest
  both answer 200 with the same bytes, the content type of the push and the digest header.
\<close>

theorem v2_push_then_pull:
  assumes "sha_ok sha256" "v2_registry st = Some root" "list_all plain root"
    and "plain_repo repo" "plain_ref tag" "tag \<noteq> []" "repo \<noteq> []" "''manifests'' \<notin> set (tl (split_on slash repo))"
    and "\<not> starts_with tag ''sha256:''" "utf8_ok (map of_char ct)" "pushable root repo f"
    and "sanitize_reference tag \<noteq> ''sha256_'' @ hex_encode (sha256 data) @ ''.content-type''"
    and "authorised st push ''push''" "rq_path push = repo @ ''/manifests/'' @ tag" "rq_content_type push = Some (Some ct)"
    and "rq_body push = Inr data"
    and "authorised st pull ''pull''" "\<not> rq_head pull"
    and "rq_path pull = repo @ ''/manifests/'' @ tag \<or> rq_path pull = repo @ ''/manifests/sha256:'' @ hex_encode (sha256 data)"
  shows "\<exists>resp g. handle_v2_put su sha256 ok_io st push f = (resp, g) \<and> rp_status resp = 201 \<and>
    map_of (rp_headers resp) ''docker-content-digest'' = Some (''sha256:'' @ hex_encode (sha256 data)) \<and>
    handle_v2_dispatch sha256 ok_io st pull g =
      \<lparr>rp_status = 200,
       rp_headers = [(''content-type'', ct), (''docker-content-digest'', ''sha256:'' @ hex_encode (sha256 data))],
       rp_body = Raw data\<rparr>"
proof -
  let ?dg = "''sha256:'' @ hex_encode (sha256 data)"
  have g: "guard st push ''push'' = Inr root" "guard st pull ''pull'' = Inr root"
    using assms(2,13,17) by (simp_all add: guard_iff)
  have sp: "split_oci_path (repo @ ''/manifests/'' @ r) ''manifests'' = Some (repo, r)" if "r \<noteq> []" for r
    using find_sub_first [of "''manifests''" repo r] assms(7,8) that by (simp add: split_oci_path_def)
  obtain h where h: "put_manifest sha256 ok_io root repo tag ct data f = (Inr ?dg, h)"
    "get_manifest ok_io root repo tag h = Inr (ct, data)" "get_manifest ok_io root repo ?dg h = Inr (ct, data)"
    using put_then_get_manifest [OF assms(1,3,4,5,11,9,10,12)] by blast
  have "handle_v2_put su sha256 ok_io st push f =
      (\<lparr>rp_status = 201, rp_headers = [(''location'', ''/v2/'' @ repo @ ''/manifests/'' @ ?dg), (''docker-content-digest'', ?dg)],
        rp_body = NoBody\<rparr>, h)"
    using sp [OF assms(6)] h(1) by (simp add: handle_v2_put_def g assms(14-16) Let_def)
  moreover obtain r where r: "rq_path pull = repo @ ''/manifests/'' @ r" "r = tag \<or> r = ?dg"
    using assms(19) by auto
  then have "handle_v2_dispatch sha256 ok_io st pull h =
      \<lparr>rp_status = 200, rp_headers = [(''content-type'', ct), (''docker-content-digest'', ?dg)], rp_body = Raw data\<rparr>"
    using sp [of r] h(2,3) assms(6,18) by (auto simp: handle_v2_dispatch_def g data_body_def)
  ultimately show ?thesis by simp
qed

theorem v2_push_then_pull_witness:
  "\<exists>resp g. handle_v2_put (\<lambda>_. []) ex_sha ok_io ex_state
       (ex_request ''pusher'' ''app/api/manifests/v1'' ''m''\<lparr>rq_content_type := Some (Some ''t'')\<rparr>) ex_fs = (resp, g) \<and>
     rp_body (handle_v2_dispatch ex_sha ok_io ex_state (ex_request ''pusher'' ''app/api/manifests/v1'' []) g) = Raw ''m''"
proof -
  let ?push = "ex_request ''pusher'' ''app/api/manifests/v1'' ''m''\<lparr>rq_content_type := Some (Some ''t'')\<rparr>"
  have a: "authorised ex_state ?push ''push''"
    using ex_authorised(2) [of "''app/api/manifests/v1''" "''m''"] by (simp add: authorised_def ex_request_def)
  have h: "v2_registry ex_state = Some ex_root" "list_all plain ex_root" "plain_repo ''app/api''" "plain_ref ''v1''" "''v1'' \<noteq> []"
    "''app/api'' \<noteq> []" "''manifests'' \<notin> set (tl (split_on slash ''app/api''))" "\<not> starts_with ''v1'' ''sha256:''" "utf8_ok (map of_char ''t'')"
    by code_simp+
  have p: "pushable ex_root ''app/api'' ex_fs"
    by (auto simp: pushable_def ex_fs_eq file_at_def is_dir_def ex_root_def)
  have ne: "sanitize_reference ''v1'' \<noteq> ''sha256_'' @ hex_encode (ex_sha ''m'') @ ''.content-type''"
    by (simp add: sanitize_reference_def)
  have r: "rq_path ?push = ''app/api'' @ ''/manifests/'' @ ''v1''" "rq_content_type ?push = Some (Some ''t'')" "rq_body ?push = Inr ''m''"
    "\<not> rq_head (ex_request ''pusher'' ''app/api/manifests/v1'' [])"
    "rq_path (ex_request ''pusher'' ''app/api/manifests/v1'' []) = ''app/api'' @ ''/manifests/'' @ ''v1''"
    by (simp_all add: ex_request_def)
  from v2_push_then_pull [OF ex_sha_ok h p ne a r(1-3) ex_authorised(3) r(4) disjI1 [OF r(5)], of "\<lambda>_. []"]
  show ?thesis by (metis v2_response.select_convs(3))
qed

end
