(* ===== verification/Iam_Tokens.thy ===== *)
theory Iam_Tokens
  imports Domain_Types
begin

text \<open>
  The token side of \<open>LocalIdentityProvider\<close> (\<open>crates/picloud-iam/src/implementation.rs\<close>): the
  state of the provider, signing and verifying tokens with key rotation, groups and roles, client
  credentials, machine-to-machine permissions, token exchange and authorization codes. The crates
  it calls (base64, ring's HMAC, sha2, serde\_json, the URL parser) are a record of functions; a key is
  its key material. Instants are nanoseconds since the epoch, and the
  time an operation reads, the random strings and the identifiers it draws are arguments. Maps behind locks are
  association lists; each operation is atomic.
\<close>

section \<open>Claims and stored records\<close>

record token_claims =
  tc_identity_iri :: string
  tc_product :: "string option"
  tc_roles :: "string list"
  tc_issued_at :: int
  tc_expires_at :: int
  tc_aud :: "string option"
  tc_scopes :: "string list"
  tc_permissions :: "string list"
  tc_actor :: "string option"

record stored_identity =
  sid_iri :: resource_iri
  sid_roles :: "string list"

record app_registration =
  ar_id :: uuid
  ar_client_id :: string
  ar_client_secret_hash :: string
  ar_product_iri :: resource_iri
  ar_redirect_uris :: "string list"
  ar_scopes :: "string list"

record stored_app_registration =
  sar_registration :: app_registration
  sar_product_name :: string

datatype challenge_kind = Registration | Authentication

record pending_challenge =
  pc_identity_iri :: resource_iri
  pc_challenge_bytes :: bytes
  pc_kind :: challenge_kind
  pc_expires_at :: timestamp

record pending_device_flow =
  pd_expires_at :: timestamp
  pd_completed_token :: "string option"
  pd_identity_iri :: "resource_iri option"

datatype enrollment_purpose = Bootstrap | PasskeyReset | PhysicalRecovery

record enrollment_token =
  et_token :: string
  et_purpose :: enrollment_purpose
  et_expires_at :: timestamp
  et_used :: bool
  et_target_identity :: "resource_iri option"

record retired_key =
  rk_key :: bytes
  rk_kid :: string
  rk_retired_at :: timestamp

record m2m_permission =
  mp_name :: string
  mp_product :: string
  mp_client :: string
  mp_scopes :: "string list"
  mp_description :: "string option"

record stored_group =
  sg_iri :: resource_iri
  sg_name :: string
  sg_description :: "string option"
  sg_roles :: "string list"
  sg_members :: "string list"

record pending_authorization_code =
  pa_identity_iri :: resource_iri
  pa_client_id :: string
  pa_redirect_uri :: string
  pa_scopes :: "string list"
  pa_expires_at :: timestamp

record registered_passkey =
  pk_credential_id :: string
  pk_public_key :: bytes
  pk_aaguid :: "string option"
  pk_registered_at :: timestamp
  pk_last_used_at :: "timestamp option"
  pk_display_name :: "string option"

record token_response =
  tr_access_token :: string
  tr_token_type :: string
  tr_expires_in :: int
  tr_scope :: "string option"

section \<open>The provider\<close>

record iam =
  im_signing_key :: bytes
  im_key_id :: string
  im_retired_keys :: "retired_key list"
  im_identities :: "(string \<times> stored_identity) list"
  im_app_registrations :: "(string \<times> stored_app_registration) list"
  im_passkeys :: "(string \<times> registered_passkey list) list"
  im_pending_challenges :: "(string \<times> pending_challenge) list"
  im_pending_device_flows :: "(string \<times> pending_device_flow) list"
  im_enrollment_tokens :: "(string \<times> enrollment_token) list"
  im_m2m_permissions :: "(string \<times> m2m_permission) list"
  im_pending_auth_codes :: "(string \<times> pending_authorization_code) list"
  im_cluster_domain :: cluster_domain
  im_token_ttl_secs :: int
  im_challenge_ttl_secs :: int
  im_groups :: "(string \<times> stored_group) list"

text \<open>The crates the provider calls.\<close>

record iam_crates =
  b64_encode :: "bytes \<Rightarrow> string"
  b64_decode :: "string \<Rightarrow> bytes option"
  hmac_sign :: "bytes \<Rightarrow> bytes \<Rightarrow> bytes"
  hmac_verify :: "bytes \<Rightarrow> bytes \<Rightarrow> bytes \<Rightarrow> bool"
  sha256 :: "bytes \<Rightarrow> bytes"
  claims_to_json :: "token_claims \<Rightarrow> string + bytes"
  claims_of_json :: "bytes \<Rightarrow> token_claims option"
  url_parses :: "string \<Rightarrow> bool"

definition second :: int where "second = 1000000000"

definition timestamp_secs :: "timestamp \<Rightarrow> int" where
  "timestamp_secs t = t div second"

definition iam_new :: "bytes \<Rightarrow> cluster_domain \<Rightarrow> iam" where
  "iam_new key_material domain =
     \<lparr>im_signing_key = key_material, im_key_id = ''picloud-hmac-1'', im_retired_keys = [], im_identities = [],
      im_app_registrations = [], im_passkeys = [], im_pending_challenges = [], im_pending_device_flows = [],
      im_enrollment_tokens = [], im_m2m_permissions = [], im_pending_auth_codes = [], im_cluster_domain = domain,
      im_token_ttl_secs = 3600, im_challenge_ttl_secs = 300, im_groups = []\<rparr>"

definition iam_with_ttl :: "bytes \<Rightarrow> cluster_domain \<Rightarrow> int \<Rightarrow> iam" where
  "iam_with_ttl key_material domain token_ttl_secs =
     \<lparr>im_signing_key = key_material, im_key_id = ''picloud-hmac-1'', im_retired_keys = [], im_identities = [],
      im_app_registrations = [], im_passkeys = [], im_pending_challenges = [], im_pending_device_flows = [],
      im_enrollment_tokens = [], im_m2m_permissions = [], im_pending_auth_codes = [], im_cluster_domain = domain,
      im_token_ttl_secs = token_ttl_secs, im_challenge_ttl_secs = 300, im_groups = []\<rparr>"

section \<open>Signing, verifying, rotation\<close>

definition rotate_signing_key :: "timestamp \<Rightarrow> iam \<Rightarrow> iam" where
  "rotate_signing_key now s =
     s\<lparr>im_retired_keys := im_retired_keys s @
        [\<lparr>rk_key = im_signing_key s, rk_kid = im_key_id s, rk_retired_at = now\<rparr>]\<rparr>"

definition parse_u32 :: "string \<Rightarrow> u32 option" where
  "parse_u32 s = (case parse_usize s of Some n \<Rightarrow> (if n < 2 ^ 32 then Some (of_nat n) else None) | None \<Rightarrow> None)"

definition with_rotated_key :: "timestamp \<Rightarrow> bytes \<Rightarrow> iam \<Rightarrow> iam" where
  "with_rotated_key now new_key_material s =
     (let old_kid = im_key_id s;
          key_gen = (case Option.bind (strip_prefix ''picloud-hmac-'' old_kid) parse_u32 of Some g \<Rightarrow> g | None \<Rightarrow> 1);
          new_kid = ''picloud-hmac-'' @ show_nat (unat (key_gen + 1));
          retired = \<lparr>rk_key = im_signing_key s, rk_kid = old_kid, rk_retired_at = now\<rparr>
      in s\<lparr>im_signing_key := new_key_material, im_key_id := new_kid, im_retired_keys := im_retired_keys s @ [retired]\<rparr>)"

definition sign_token :: "iam_crates \<Rightarrow> iam \<Rightarrow> token_claims \<Rightarrow> string result" where
  "sign_token cr s claims =
     (case claims_to_json cr claims of
        Inl e \<Rightarrow> Inl (Internal (''Failed to serialize claims: '' @ e))
      | Inr json \<Rightarrow>
          let payload = b64_encode cr json;
              tag = hmac_sign cr (im_signing_key s) (byte_str payload);
              signature = b64_encode cr tag
          in Inr (payload @ ''.'' @ signature))"

text \<open>The checks that \<open>verify_token\<close> makes with the current key, and the loop over the retired ones with each of them:
  the outer option is None when a check sends the loop to the next key.\<close>

definition verify_with :: "iam_crates \<Rightarrow> bytes \<Rightarrow> timestamp \<Rightarrow> string \<Rightarrow> token_claims result option" where
  "verify_with cr key now token =
     (case split_once CHR ''.'' token of
        None \<Rightarrow> None
      | Some (payload, signature) \<Rightarrow>
     (case b64_decode cr signature of
        None \<Rightarrow> None
      | Some sig_bytes \<Rightarrow>
          if \<not> hmac_verify cr key (byte_str payload) sig_bytes then None
          else
     (case b64_decode cr payload of
        None \<Rightarrow> None
      | Some json_bytes \<Rightarrow>
     (case claims_of_json cr json_bytes of
        None \<Rightarrow> None
      | Some claims \<Rightarrow>
          if timestamp_secs now \<ge> tc_expires_at claims then Some (Inl Unauthenticated) else Some (Inr claims)))))"

definition verify_token :: "iam_crates \<Rightarrow> iam \<Rightarrow> timestamp \<Rightarrow> string \<Rightarrow> token_claims result" where
  "verify_token cr s now token =
     (case verify_with cr (im_signing_key s) now token of None \<Rightarrow> Inl Unauthenticated | Some r \<Rightarrow> r)"

fun verify_retired :: "iam_crates \<Rightarrow> timestamp \<Rightarrow> string \<Rightarrow> retired_key list \<Rightarrow> token_claims result" where
  "verify_retired cr now token [] = Inl Unauthenticated"
| "verify_retired cr now token (rk # rks) =
     (case verify_with cr (rk_key rk) now token of None \<Rightarrow> verify_retired cr now token rks | Some r \<Rightarrow> r)"

definition verify_token_with_rotation :: "iam_crates \<Rightarrow> iam \<Rightarrow> timestamp \<Rightarrow> string \<Rightarrow> retired_key list \<Rightarrow> token_claims result" where
  "verify_token_with_rotation cr s now token retired_keys =
     (case verify_token cr s now token of
        Inr claims \<Rightarrow> Inr claims
      | Inl e \<Rightarrow> if retired_keys \<noteq> [] then verify_retired cr now token (rev retired_keys) else Inl e)"

definition validate_token :: "iam_crates \<Rightarrow> iam \<Rightarrow> timestamp \<Rightarrow> string \<Rightarrow> validated_identity result" where
  "validate_token cr s now token =
     and_then (verify_token_with_rotation cr s now token (im_retired_keys s)) (\<lambda>claims.
     and_then (resource_iri_new (url_parses cr) (tc_identity_iri claims)) (\<lambda>identity_iri.
     Inr \<lparr>vi_identity_iri = identity_iri, vi_product = tc_product claims, vi_roles = tc_roles claims,
          vi_audience = tc_aud claims, vi_scopes = tc_scopes claims, vi_permissions = tc_permissions claims\<rparr>))"

section \<open>Identities, groups and roles\<close>

definition register_identity :: "resource_iri \<Rightarrow> string list \<Rightarrow> iam \<Rightarrow> iam" where
  "register_identity iri roles s =
     s\<lparr>im_identities := hm_insert iri \<lparr>sid_iri = iri, sid_roles = roles\<rparr> (im_identities s)\<rparr>"

definition create_group :: "resource_iri \<Rightarrow> string \<Rightarrow> string option \<Rightarrow> string list \<Rightarrow> iam \<Rightarrow> iam" where
  "create_group group_iri name description roles s =
     s\<lparr>im_groups := hm_insert group_iri
        \<lparr>sg_iri = group_iri, sg_name = name, sg_description = description, sg_roles = roles, sg_members = []\<rparr> (im_groups s)\<rparr>"

text \<open>\<open>get_mut\<close> on the map of groups, with the error for an unknown group.\<close>

definition with_group :: "resource_iri \<Rightarrow> (stored_group \<Rightarrow> stored_group) \<Rightarrow> iam \<Rightarrow> unit result \<times> iam" where
  "with_group group_iri f s =
     (case map_of (im_groups s) group_iri of
        None \<Rightarrow> (Inl (ResourceNotFound group_iri), s)
      | Some grp \<Rightarrow> (Inr (), s\<lparr>im_groups := hm_insert group_iri (f grp) (im_groups s)\<rparr>))"

definition push_new :: "'a \<Rightarrow> 'a list \<Rightarrow> 'a list" where
  "push_new x xs = (if x \<in> set xs then xs else xs @ [x])"

definition assign_group_role :: "resource_iri \<Rightarrow> string \<Rightarrow> iam \<Rightarrow> unit result \<times> iam" where
  "assign_group_role group_iri role_name = with_group group_iri (\<lambda>g. g\<lparr>sg_roles := push_new role_name (sg_roles g)\<rparr>)"

definition revoke_group_role :: "resource_iri \<Rightarrow> string \<Rightarrow> iam \<Rightarrow> unit result \<times> iam" where
  "revoke_group_role group_iri role_name = with_group group_iri (\<lambda>g. g\<lparr>sg_roles := filter (\<lambda>r. r \<noteq> role_name) (sg_roles g)\<rparr>)"

definition add_group_member :: "resource_iri \<Rightarrow> resource_iri \<Rightarrow> iam \<Rightarrow> unit result \<times> iam" where
  "add_group_member group_iri member_iri = with_group group_iri (\<lambda>g. g\<lparr>sg_members := push_new member_iri (sg_members g)\<rparr>)"

definition remove_group_member :: "resource_iri \<Rightarrow> resource_iri \<Rightarrow> iam \<Rightarrow> unit result \<times> iam" where
  "remove_group_member group_iri member_iri =
     with_group group_iri (\<lambda>g. g\<lparr>sg_members := filter (\<lambda>m. m \<noteq> member_iri) (sg_members g)\<rparr>)"

definition roles_from_groups :: "iam \<Rightarrow> resource_iri \<Rightarrow> string list" where
  "roles_from_groups s identity_iri =
     fold (\<lambda>grp inherited. if list_ex (\<lambda>m. m = identity_iri) (sg_members grp) then fold push_new (sg_roles grp) inherited else inherited)
       (map snd (im_groups s)) []"

text \<open>Direct roles, then the group roles that are new; shared by the two issuing functions.\<close>

definition issued_roles :: "iam \<Rightarrow> resource_iri \<Rightarrow> string list" where
  "issued_roles s identity_iri =
     (let roles = (case map_of (im_identities s) identity_iri of Some i \<Rightarrow> sid_roles i | None \<Rightarrow> [])
      in fold push_new (roles_from_groups s identity_iri) roles)"

section \<open>Issuing\<close>

definition product_url :: "iam \<Rightarrow> string \<Rightarrow> string" where
  "product_url s product = ''https://'' @ im_cluster_domain s @ ''/products/'' @ product"

definition expiry_secs :: "iam \<Rightarrow> timestamp \<Rightarrow> int" where
  "expiry_secs s now = timestamp_secs (now + im_token_ttl_secs s * second)"

definition plain_claims :: "iam \<Rightarrow> timestamp \<Rightarrow> resource_iri \<Rightarrow> string option \<Rightarrow> token_claims" where
  "plain_claims s now identity_iri product =
     \<lparr>tc_identity_iri = identity_iri, tc_product = product, tc_roles = issued_roles s identity_iri,
      tc_issued_at = timestamp_secs now, tc_expires_at = expiry_secs s now,
      tc_aud = map_option (product_url s) product, tc_scopes = [], tc_permissions = [], tc_actor = None\<rparr>"

definition issue_token :: "iam_crates \<Rightarrow> iam \<Rightarrow> timestamp \<Rightarrow> resource_iri \<Rightarrow> string option \<Rightarrow> string result" where
  "issue_token cr s now identity_iri product = sign_token cr s (plain_claims s now identity_iri product)"

text \<open>\<open>audience.split("/products/").nth(1)\<close>, then the text before the next slash.\<close>

definition audience_product :: "string \<Rightarrow> string option" where
  "audience_product audience =
     (case find_sub ''/products/'' audience of
        None \<Rightarrow> None
      | Some (_, rest) \<Rightarrow>
          let piece = (case find_sub ''/products/'' rest of Some (p, _) \<Rightarrow> p | None \<Rightarrow> rest)
          in Some (hd (split_on slash piece)))"

definition audience_claims :: "iam \<Rightarrow> timestamp \<Rightarrow> resource_iri \<Rightarrow> string \<Rightarrow> string list \<Rightarrow> token_claims" where
  "audience_claims s now identity_iri audience scopes =
     \<lparr>tc_identity_iri = identity_iri, tc_product = audience_product audience, tc_roles = issued_roles s identity_iri,
      tc_issued_at = timestamp_secs now, tc_expires_at = expiry_secs s now, tc_aud = Some audience,
      tc_scopes = scopes, tc_permissions = [], tc_actor = None\<rparr>"

definition issue_token_with_audience ::
  "iam_crates \<Rightarrow> iam \<Rightarrow> timestamp \<Rightarrow> resource_iri \<Rightarrow> string \<Rightarrow> string list \<Rightarrow> string result" where
  "issue_token_with_audience cr s now identity_iri audience scopes = sign_token cr s (audience_claims s now identity_iri audience scopes)"

definition requested_scopes :: "string option \<Rightarrow> string list" where
  "requested_scopes scope = (case scope of Some sc \<Rightarrow> split_whitespace sc | None \<Rightarrow> [])"

definition token_exchange ::
  "iam_crates \<Rightarrow> iam \<Rightarrow> timestamp \<Rightarrow> string \<Rightarrow> string option \<Rightarrow> string option \<Rightarrow> token_response result" where
  "token_exchange cr s now subject_token audience scope =
     and_then (verify_token cr s now subject_token) (\<lambda>original.
     and_then (sign_token cr s
       \<lparr>tc_identity_iri = tc_identity_iri original, tc_product = tc_product original, tc_roles = tc_roles original,
        tc_issued_at = timestamp_secs now, tc_expires_at = expiry_secs s now, tc_aud = audience,
        tc_scopes = requested_scopes scope, tc_permissions = tc_permissions original,
        tc_actor = Some (tc_identity_iri original)\<rparr>) (\<lambda>token.
     Inr \<lparr>tr_access_token = token, tr_token_type = ''Bearer'', tr_expires_in = im_token_ttl_secs s, tr_scope = scope\<rparr>))"

section \<open>Client credentials\<close>

definition quoted :: "string \<Rightarrow> string" where
  "quoted t = [CHR 0x27] @ t @ [CHR 0x27]"

text \<open>The arrow of the messages, in UTF-8, between blanks.\<close>

definition rarrow :: string where
  "rarrow = [CHR 0x20, CHR 0xE2, CHR 0x86, CHR 0x92, CHR 0x20]"

definition hash_secret :: "iam_crates \<Rightarrow> string \<Rightarrow> string" where
  "hash_secret cr secret = b64_encode cr (sha256 cr (byte_str secret))"

text \<open>\<open>register_app\<close> draws the client id, the secret and the registration id.\<close>

definition register_app ::
  "iam_crates \<Rightarrow> string \<Rightarrow> string \<Rightarrow> uuid \<Rightarrow> resource_iri \<Rightarrow> string list \<Rightarrow> string list \<Rightarrow> iam \<Rightarrow> app_registration result \<times> iam" where
  "register_app cr client_uuid client_secret registration_id product_iri redirect_uris scopes s =
     (let client_id = ''picloud-'' @ client_uuid;
          registration = \<lparr>ar_id = registration_id, ar_client_id = client_id, ar_client_secret_hash = hash_secret cr client_secret,
                          ar_product_iri = product_iri, ar_redirect_uris = redirect_uris, ar_scopes = scopes\<rparr>;
          stored = \<lparr>sar_registration = registration, sar_product_name = last (split_on slash product_iri)\<rparr>
      in (Inr (registration\<lparr>ar_client_secret_hash := client_secret\<rparr>),
          s\<lparr>im_app_registrations := hm_insert client_id stored (im_app_registrations s)\<rparr>))"

text \<open>The lookup of the client and the check of its secret.\<close>

definition check_client :: "iam_crates \<Rightarrow> iam \<Rightarrow> string \<Rightarrow> string \<Rightarrow> stored_app_registration result" where
  "check_client cr s client_id client_secret =
     (case map_of (im_app_registrations s) client_id of
        None \<Rightarrow> Inl Unauthenticated
      | Some app \<Rightarrow>
          if hash_secret cr client_secret \<noteq> ar_client_secret_hash (sar_registration app) then Inl Unauthenticated else Inr app)"

definition client_credentials_token ::
  "iam_crates \<Rightarrow> iam \<Rightarrow> timestamp \<Rightarrow> string \<Rightarrow> string \<Rightarrow> string option \<Rightarrow> token_response result" where
  "client_credentials_token cr s now client_id client_secret scope =
     and_then (check_client cr s client_id client_secret) (\<lambda>app.
     let registered = ar_scopes (sar_registration app)
     in and_then (case scope of
            Some scope_str \<Rightarrow>
              (case List.find (\<lambda>r. r \<notin> set registered) (split_whitespace scope_str) of
                 Some r \<Rightarrow> Inl (PermissionDenied (''scope '' @ quoted r @ '' is not registered for this client''))
               | None \<Rightarrow> Inr (split_whitespace scope_str))
          | None \<Rightarrow> Inr registered) (\<lambda>granted_scopes.
        let audience = product_url s (sar_product_name app)
        in and_then (issue_token_with_audience cr s now (ar_product_iri (sar_registration app)) audience granted_scopes) (\<lambda>token.
           Inr \<lparr>tr_access_token = token, tr_token_type = ''Bearer'', tr_expires_in = im_token_ttl_secs s,
                tr_scope = Some (join '' '' granted_scopes)\<rparr>)))"

definition register_m2m_permission :: "m2m_permission \<Rightarrow> iam \<Rightarrow> iam" where
  "register_m2m_permission permission s =
     s\<lparr>im_m2m_permissions := hm_insert (mp_client permission @ '':'' @ mp_product permission) permission (im_m2m_permissions s)\<rparr>"

definition check_m2m_permission :: "iam \<Rightarrow> string \<Rightarrow> string \<Rightarrow> string list \<Rightarrow> unit result" where
  "check_m2m_permission s client_product target_product scopes =
     (case map_of (im_m2m_permissions s) (client_product @ '':'' @ target_product) of
        None \<Rightarrow> Inl (PermissionDenied (''no M2M permission declared for '' @ client_product @ '' to access '' @ target_product))
      | Some perm \<Rightarrow>
          (case List.find (\<lambda>sc. sc \<notin> set (mp_scopes perm)) scopes of
             Some sc \<Rightarrow> Inl (PermissionDenied (''M2M scope '' @ quoted sc @ '' not granted for '' @ client_product @ rarrow @ target_product))
           | None \<Rightarrow> Inr ()))"

definition client_credentials_token_with_audience ::
  "iam_crates \<Rightarrow> iam \<Rightarrow> timestamp \<Rightarrow> string \<Rightarrow> string \<Rightarrow> string option \<Rightarrow> string option \<Rightarrow> token_response result" where
  "client_credentials_token_with_audience cr s now client_id client_secret scope audience =
     and_then (check_client cr s client_id client_secret) (\<lambda>app.
     let client_product = sar_product_name app; scopes = requested_scopes scope
     in case audience of
          Some aud \<Rightarrow>
            let target_product = (case audience_product aud of Some p \<Rightarrow> p | None \<Rightarrow> aud)
            in and_then (if target_product \<noteq> client_product then check_m2m_permission s client_product target_product scopes else Inr ()) (\<lambda>_.
               and_then (issue_token_with_audience cr s now (ar_product_iri (sar_registration app)) aud scopes) (\<lambda>token.
               Inr \<lparr>tr_access_token = token, tr_token_type = ''Bearer'', tr_expires_in = im_token_ttl_secs s,
                    tr_scope = Some (join '' '' scopes)\<rparr>))
        | None \<Rightarrow> client_credentials_token cr s now client_id client_secret scope)"

section \<open>Authorization codes\<close>

definition begin_authorization_code ::
  "string \<Rightarrow> timestamp \<Rightarrow> string \<Rightarrow> string \<Rightarrow> string option \<Rightarrow> resource_iri \<Rightarrow> iam \<Rightarrow> string result \<times> iam" where
  "begin_authorization_code code now client_id redirect_uri scope identity_iri s =
     (case map_of (im_app_registrations s) client_id of
        None \<Rightarrow> (Inl Unauthenticated, s)
      | Some _ \<Rightarrow>
          (Inr code,
           s\<lparr>im_pending_auth_codes := hm_insert code
              \<lparr>pa_identity_iri = identity_iri, pa_client_id = client_id, pa_redirect_uri = redirect_uri,
               pa_scopes = requested_scopes scope, pa_expires_at = now + 600 * second\<rparr> (im_pending_auth_codes s)\<rparr>))"

definition exchange_authorization_code ::
  "iam_crates \<Rightarrow> timestamp \<Rightarrow> string \<Rightarrow> string \<Rightarrow> string \<Rightarrow> iam \<Rightarrow> token_response result \<times> iam" where
  "exchange_authorization_code cr now code client_id redirect_uri s =
     (case map_of (im_pending_auth_codes s) code of
        None \<Rightarrow> (Inl Unauthenticated, s)
      | Some pending \<Rightarrow>
          let s = s\<lparr>im_pending_auth_codes := hm_remove code (im_pending_auth_codes s)\<rparr>
          in if now \<ge> pa_expires_at pending then (Inl Unauthenticated, s)
             else if pa_client_id pending \<noteq> client_id then (Inl Unauthenticated, s)
             else (case map_of (im_app_registrations s) client_id of
                     None \<Rightarrow> (Inl Unauthenticated, s)
                   | Some app \<Rightarrow>
                       (and_then (issue_token_with_audience cr s now (pa_identity_iri pending) (product_url s (sar_product_name app)) (pa_scopes pending)) (\<lambda>token.
                        Inr \<lparr>tr_access_token = token, tr_token_type = ''Bearer'', tr_expires_in = im_token_ttl_secs s,
                             tr_scope = (if pa_scopes pending = [] then None else Some (join '' '' (pa_scopes pending)))\<rparr>), s)))"

section \<open>Discovery and key set\<close>

record json_web_key =
  jwk_kty :: string
  jwk_kid :: string
  jwk_alg :: string
  jwk_use :: string
  jwk_k :: "string option"

definition jwk_of :: "string \<Rightarrow> json_web_key" where
  "jwk_of kid = \<lparr>jwk_kty = ''oct'', jwk_kid = kid, jwk_alg = ''HS256'', jwk_use = ''sig'', jwk_k = None\<rparr>"

definition jwks :: "iam \<Rightarrow> json_web_key list" where
  "jwks s = jwk_of (im_key_id s) # map (\<lambda>rk. jwk_of (rk_kid rk)) (im_retired_keys s)"

section \<open>What the crates promise\<close>

text \<open>Base64 without padding decodes what it encodes and its alphabet has no dot; a tag made with a key
  verifies with that key.\<close>

definition crates_ok :: "iam_crates \<Rightarrow> bool" where
  "crates_ok cr \<longleftrightarrow>
     (\<forall>b. b64_decode cr (b64_encode cr b) = Some b \<and> CHR ''.'' \<notin> set (b64_encode cr b)) \<and>
     (\<forall>k m. hmac_verify cr k m (hmac_sign cr k m))"

text \<open>JSON reads back the claims it wrote.\<close>

definition json_ok :: "iam_crates \<Rightarrow> token_claims \<Rightarrow> bool" where
  "json_ok cr claims = (case claims_to_json cr claims of Inr j \<Rightarrow> claims_of_json cr j = Some claims | Inl _ \<Rightarrow> False)"

section \<open>Signed tokens\<close>

definition identity_of :: "token_claims \<Rightarrow> validated_identity" where
  "identity_of claims =
     \<lparr>vi_identity_iri = tc_identity_iri claims, vi_product = tc_product claims, vi_roles = tc_roles claims,
      vi_audience = tc_aud claims, vi_scopes = tc_scopes claims, vi_permissions = tc_permissions claims\<rparr>"

lemma signed_token:
  assumes "crates_ok cr" "json_ok cr claims"
  obtains tok where "sign_token cr s claims = Inr tok"
    "\<And>now. verify_with cr (im_signing_key s) now tok =
        Some (if tc_expires_at claims \<le> timestamp_secs now then Inl Unauthenticated else Inr claims)"
    "\<And>key now. verify_with cr key now tok = None \<or> verify_with cr key now tok =
        Some (if tc_expires_at claims \<le> timestamp_secs now then Inl Unauthenticated else Inr claims)"
proof -
  obtain j where j: "claims_to_json cr claims = Inr j" "claims_of_json cr j = Some claims"
    using assms(2) by (auto simp: json_ok_def split: sum.splits)
  let ?p = "b64_encode cr j"
  let ?t = "hmac_sign cr (im_signing_key s) (byte_str ?p)"
  have so: "split_once CHR ''.'' (?p @ CHR ''.'' # b64_encode cr ?t) = Some (?p, b64_encode cr ?t)"
    using assms(1) split_once_first [of "CHR ''.''" ?p "b64_encode cr ?t"] by (simp add: crates_ok_def)
  have "sign_token cr s claims = Inr (?p @ ''.'' @ b64_encode cr ?t)" by (simp add: sign_token_def j(1) Let_def)
  then show thesis
    using assms(1) j(2) by (intro that) (auto simp: verify_with_def so crates_ok_def)
qed

lemma verify_retired_uniform:
  assumes "\<And>key. verify_with cr key now tok = None \<or> verify_with cr key now tok = Some r"
    "\<exists>rk \<in> set rks. verify_with cr (rk_key rk) now tok \<noteq> None"
  shows "verify_retired cr now tok rks = r"
  using assms(2)
proof (induction rks)
  case (Cons rk rks)
  show ?case
  proof (cases "verify_with cr (rk_key rk) now tok")
    case None
    with Cons.prems have "\<exists>rk \<in> set rks. verify_with cr (rk_key rk) now tok \<noteq> None" by auto
    with Cons.IH None show ?thesis by simp
  next
    case (Some r')
    with assms(1) [of "rk_key rk"] show ?thesis by simp
  qed
qed simp

text \<open>A token signed with a key that the provider still knows is judged by its claims alone.\<close>

lemma validate_signed:
  assumes "\<And>key. verify_with cr key now tok = None \<or> verify_with cr key now tok = Some r"
    "verify_with cr key now tok \<noteq> None" "key = im_signing_key s \<or> key \<in> rk_key ` set (im_retired_keys s)"
    "r = Inl Unauthenticated \<or> r = Inr claims"
  shows "verify_token_with_rotation cr s now tok (im_retired_keys s) = r"
proof (cases "verify_with cr (im_signing_key s) now tok")
  case None
  then have "\<exists>rk \<in> set (im_retired_keys s). verify_with cr (rk_key rk) now tok \<noteq> None" using assms(2,3) by auto
  then show ?thesis
    using None verify_retired_uniform [OF assms(1), of "rev (im_retired_keys s)"]
    by (auto simp: verify_token_with_rotation_def verify_token_def)
next
  case (Some r')
  then have r: "verify_token cr s now tok = r" using assms(1) [of "im_signing_key s"] by (auto simp: verify_token_def)
  show ?thesis
  proof (cases "\<exists>rk \<in> set (im_retired_keys s). verify_with cr (rk_key rk) now tok \<noteq> None")
    case True
    then show ?thesis using r assms(4) verify_retired_uniform [OF assms(1), of "rev (im_retired_keys s)"]
      by (auto simp: verify_token_with_rotation_def)
  next
    case False
    then have "verify_retired cr now tok rks = Inl Unauthenticated" if "set rks \<subseteq> set (im_retired_keys s)" for rks
      using that by (induction rks) auto
    then show ?thesis using r assms(4) by (auto simp: verify_token_with_rotation_def)
  qed
qed

lemma validate_issued:
  assumes "crates_ok cr" "json_ok cr claims" "url_parses cr (tc_identity_iri claims)"
  obtains tok where "sign_token cr s claims = Inr tok"
    "\<And>s' now. im_signing_key s = im_signing_key s' \<or> im_signing_key s \<in> rk_key ` set (im_retired_keys s') \<Longrightarrow>
       validate_token cr s' now tok =
         (if timestamp_secs now < tc_expires_at claims then Inr (identity_of claims) else Inl Unauthenticated)"
proof -
  obtain tok where tok: "sign_token cr s claims = Inr tok"
    "\<And>now. verify_with cr (im_signing_key s) now tok =
        Some (if tc_expires_at claims \<le> timestamp_secs now then Inl Unauthenticated else Inr claims)"
    "\<And>key now. verify_with cr key now tok = None \<or> verify_with cr key now tok =
        Some (if tc_expires_at claims \<le> timestamp_secs now then Inl Unauthenticated else Inr claims)"
    using signed_token [OF assms(1,2)] by metis
  have "validate_token cr s' now tok =
      (if timestamp_secs now < tc_expires_at claims then Inr (identity_of claims) else Inl Unauthenticated)"
    if "im_signing_key s = im_signing_key s' \<or> im_signing_key s \<in> rk_key ` set (im_retired_keys s')" for s' now
    using validate_signed [OF tok(3), of "im_signing_key s" now s' claims] tok(2) [of now] that assms(3)
    by (auto simp: validate_token_def identity_of_def resource_iri_new_def)
  with tok(1) show thesis using that by blast
qed

lemma rotations_keep_key:
  "im_signing_key s \<in> insert (im_signing_key (fold (\<lambda>(t, k). with_rotated_key t k) rots s))
     (rk_key ` set (im_retired_keys (fold (\<lambda>(t, k). with_rotated_key t k) rots s)))"
proof (induction rots rule: rev_induct)
  case (snoc r rots)
  then show ?case by (cases r) (auto simp: with_rotated_key_def Let_def)
qed simp

lemma set_push_new: "set (fold push_new xs ys) = set ys \<union> set xs"
  by (induction xs arbitrary: ys) (auto simp: push_new_def)

lemma set_roles_from_groups:
  "set (roles_from_groups s iri) = (\<Union>g \<in> {g \<in> snd ` set (im_groups s). iri \<in> set (sg_members g)}. set (sg_roles g))"
proof -
  have "set (fold (\<lambda>grp inherited. if list_ex (\<lambda>m. m = iri) (sg_members grp) then fold push_new (sg_roles grp) inherited else inherited) gs acc) =
      set acc \<union> (\<Union>g \<in> {g \<in> set gs. iri \<in> set (sg_members g)}. set (sg_roles g))" for gs :: "stored_group list" and acc
    by (induction gs arbitrary: acc) (auto simp: set_push_new list_ex_iff)
  then show ?thesis by (simp add: roles_from_groups_def)
qed

text \<open>The roles of an identity: its own and those of the groups it is a member of.\<close>

definition effective_roles :: "iam \<Rightarrow> resource_iri \<Rightarrow> string set" where
  "effective_roles s iri =
     (case map_of (im_identities s) iri of Some i \<Rightarrow> set (sid_roles i) | None \<Rightarrow> {}) \<union>
     (\<Union>g \<in> {g \<in> snd ` set (im_groups s). iri \<in> set (sg_members g)}. set (sg_roles g))"

lemma set_issued_roles: "set (issued_roles s iri) = effective_roles s iri"
  by (auto simp: issued_roles_def effective_roles_def Let_def set_push_new set_roles_from_groups split: option.splits)

section \<open>Properties\<close>


text \<open>Concrete crates for the examples: two letters per byte, the key as tag, and JSON that
  stands for the given claims.\<close>

definition ex_encode :: "bytes \<Rightarrow> string" where
  "ex_encode bs = concat (map (\<lambda>b. [char_of (65 + unat b div 16), char_of (65 + unat b mod 16)]) bs)"

fun ex_decode :: "string \<Rightarrow> bytes option" where
  "ex_decode [] = Some []"
| "ex_decode [a] = None"
| "ex_decode (a # b # cs) = map_option ((#) (of_nat ((of_char a - 65) * 16 + (of_char b - 65)))) (ex_decode cs)"

lemma ex_decode_encode: "ex_decode (ex_encode bs) = Some bs"
proof (induction bs)
  case (Cons b bs)
  have "unat b < 256" using unsigned_less [of b, where ?'a = nat] by simp
  then have "unat b div 16 < 16" by simp
  then have c: "of_char (char_of (65 + unat b div 16) :: char) = 65 + unat b div 16"
    "of_char (char_of (65 + unat b mod 16) :: char) = 65 + unat b mod 16"
    by simp_all
  have "ex_encode (b # bs) = char_of (65 + unat b div 16) # char_of (65 + unat b mod 16) # ex_encode bs"
    by (simp add: ex_encode_def)
  then show ?case using Cons c by (simp del: of_char_mod_256)
qed (simp add: ex_encode_def)

lemma ex_encode_no_dot: "CHR ''.'' \<notin> set (ex_encode bs)"
proof -
  have "65 \<le> (of_char c :: nat)" if "c \<in> set (ex_encode bs)" for c
    using that
  proof (induction bs)
    case (Cons b bs)
    have "unat b < 256" using unsigned_less [of b, where ?'a = nat] by simp
    then have "unat b div 16 < 16" by simp
    with Cons show ?case by (auto simp: ex_encode_def)
  qed (simp add: ex_encode_def)
  from this [of "CHR ''.''"] show ?thesis by auto
qed

definition ex_crates :: "token_claims \<Rightarrow> iam_crates" where
  "ex_crates c = \<lparr>b64_encode = ex_encode, b64_decode = ex_decode, hmac_sign = \<lambda>k m. k, hmac_verify = \<lambda>k m t. t = k,
     sha256 = \<lambda>b. b, claims_to_json = \<lambda>_. Inr [0], claims_of_json = \<lambda>_. Some c, url_parses = \<lambda>_. True\<rparr>"

lemma ex_crates_ok: "crates_ok (ex_crates c)" "json_ok (ex_crates c) c"
  by (simp_all add: crates_ok_def json_ok_def ex_crates_def ex_decode_encode ex_encode_no_dot)

definition ex_iam :: iam where
  "ex_iam = register_identity ''https://c/users/u'' [''dev''] (iam_new [1, 2] ''c'')"


lemma verify_with_sound:
  assumes "verify_with cr key now tok = Some (Inr claims)"
  shows "\<exists>payload signature tag json. split_once CHR ''.'' tok = Some (payload, signature) \<and>
    b64_decode cr signature = Some tag \<and> hmac_verify cr key (byte_str payload) tag \<and>
    b64_decode cr payload = Some json \<and> claims_of_json cr json = Some claims \<and> timestamp_secs now < tc_expires_at claims"
  using assms by (auto simp: verify_with_def split: option.splits prod.splits if_splits)

lemma verify_retired_sound:
  "verify_retired cr now tok rks = Inr claims \<Longrightarrow> \<exists>rk \<in> set rks. verify_with cr (rk_key rk) now tok = Some (Inr claims)"
  by (induction rks) (auto split: option.splits)

text \<open>C33. No token is accepted without a signature: whatever string is presented, if validation
  succeeds then the part before the first dot carries a tag that verifies under the current key or one of the retired
  keys, it decodes to claims that have not expired, and the identity returned is the one of these claims.\<close>

theorem accepted_tokens_are_signed:
  assumes "validate_token cr s now tok = Inr vi"
  shows "\<exists>key payload signature tag json claims.
    (key = im_signing_key s \<or> key \<in> rk_key ` set (im_retired_keys s)) \<and>
    split_once CHR ''.'' tok = Some (payload, signature) \<and> b64_decode cr signature = Some tag \<and>
    hmac_verify cr key (byte_str payload) tag \<and> b64_decode cr payload = Some json \<and>
    claims_of_json cr json = Some claims \<and> timestamp_secs now < tc_expires_at claims \<and> vi = identity_of claims"
proof -
  obtain claims where c: "verify_token_with_rotation cr s now tok (im_retired_keys s) = Inr claims" "vi = identity_of claims"
    using assms by (auto simp: validate_token_def and_then_Inr_iff resource_iri_new_def identity_of_def split: if_splits)
  obtain key where k: "key = im_signing_key s \<or> key \<in> rk_key ` set (im_retired_keys s)" "verify_with cr key now tok = Some (Inr claims)"
  proof (cases "verify_token cr s now tok")
    case (Inr claims')
    with c(1) that [of "im_signing_key s"] show thesis
      by (auto simp: verify_token_with_rotation_def verify_token_def split: option.splits)
  next
    case (Inl e)
    with c(1) have "verify_retired cr now tok (rev (im_retired_keys s)) = Inr claims"
      by (auto simp: verify_token_with_rotation_def split: if_splits)
    then obtain rk where "rk \<in> set (im_retired_keys s)" "verify_with cr (rk_key rk) now tok = Some (Inr claims)"
      using verify_retired_sound by fastforce
    then show thesis using that [of "rk_key rk"] by blast
  qed
  from verify_with_sound [OF k(2)] k(1) c(2) show ?thesis by blast
qed

theorem accepted_tokens_are_signed_witness:
  "\<exists>cr tok vi payload signature. issue_token cr ex_iam 0 ''https://c/users/u'' None = Inr tok \<and>
     validate_token cr ex_iam 0 tok = Inr vi \<and> split_once CHR ''.'' tok = Some (payload, signature)"
proof -
  let ?c = "plain_claims ex_iam 0 ''https://c/users/u'' None"
  let ?cr = "ex_crates ?c"
  have u: "url_parses ?cr (tc_identity_iri ?c)" by (simp add: ex_crates_def)
  obtain tok where tok: "sign_token ?cr ex_iam ?c = Inr tok"
    "\<And>s' now. im_signing_key ex_iam = im_signing_key s' \<or> im_signing_key ex_iam \<in> rk_key ` set (im_retired_keys s') \<Longrightarrow>
       validate_token ?cr s' now tok = (if timestamp_secs now < tc_expires_at ?c then Inr (identity_of ?c) else Inl Unauthenticated)"
    using validate_issued [OF ex_crates_ok u, of ex_iam] by metis
  have "timestamp_secs 0 < tc_expires_at ?c" by code_simp
  then have v: "validate_token ?cr ex_iam 0 tok = Inr (identity_of ?c)" using tok(2) [of ex_iam 0] by simp
  then show ?thesis
    using accepted_tokens_are_signed [OF v] tok(1) unfolding issue_token_def by blast
qed

lemma find_none_subset: "List.find (\<lambda>x. x \<notin> A) xs = None \<longleftrightarrow> set xs \<subseteq> A"
  by (auto simp: find_None_iff)


definition ex_client_claims :: token_claims where
  "ex_client_claims = audience_claims (iam_new [1] ''c'') 0 ''https://c/products/shop'' ''https://c/products/shop'' [''*'']"

definition ex_client_iam :: iam where
  "ex_client_iam = snd (register_app (ex_crates ex_client_claims) ''x'' ''pw'' 0 ''https://c/products/shop'' [] [''read''] (iam_new [1] ''c''))"


text \<open>A client chooses its own scopes by naming its own product as the audience: although the plain
  request for the same scopes is refused when one is not registered for the client, the request with the client's own product
  as audience succeeds, and the token validates with exactly the scopes asked for, whatever they are.\<close>

theorem own_audience_scopes_unchecked:
  assumes "crates_ok cr" "map_of (im_app_registrations s) client_id = Some app"
    "hash_secret cr client_secret = ar_client_secret_hash (sar_registration app)" "url_parses cr (ar_product_iri (sar_registration app))"
    "audience_product aud = Some (sar_product_name app)" "\<not> set (split_whitespace scope) \<subseteq> set (ar_scopes (sar_registration app))"
    "json_ok cr (audience_claims s now (ar_product_iri (sar_registration app)) aud (split_whitespace scope))"
  shows "(\<exists>msg. client_credentials_token_with_audience cr s now client_id client_secret (Some scope) None = Inl (PermissionDenied msg)) \<and>
    (\<exists>r vi. client_credentials_token_with_audience cr s now client_id client_secret (Some scope) (Some aud) = Inr r \<and>
       vi_scopes vi = split_whitespace scope \<and> vi_identity_iri vi = ar_product_iri (sar_registration app) \<and>
       (\<forall>now'. timestamp_secs now' < expiry_secs s now \<longrightarrow> validate_token cr s now' (tr_access_token r) = Inr vi))"
proof -
  let ?c = "audience_claims s now (ar_product_iri (sar_registration app)) aud (split_whitespace scope)"
  have ck: "check_client cr s client_id client_secret = Inr app" using assms(2,3) by (simp add: check_client_def)
  have u: "url_parses cr (tc_identity_iri ?c)" using assms(4) by (simp add: audience_claims_def)
  obtain tok where tok: "sign_token cr s ?c = Inr tok"
    "\<And>s' now. im_signing_key s = im_signing_key s' \<or> im_signing_key s \<in> rk_key ` set (im_retired_keys s') \<Longrightarrow>
       validate_token cr s' now tok = (if timestamp_secs now < tc_expires_at ?c then Inr (identity_of ?c) else Inl Unauthenticated)"
    using validate_issued [OF assms(1,7) u] by metis
  let ?r = "\<lparr>tr_access_token = tok, tr_token_type = ''Bearer'', tr_expires_in = im_token_ttl_secs s, tr_scope = Some (join '' '' (split_whitespace scope))\<rparr>"
  have "\<exists>msg. client_credentials_token_with_audience cr s now client_id client_secret (Some scope) None = Inl (PermissionDenied msg)"
  proof (cases "List.find (\<lambda>r. r \<notin> set (ar_scopes (sar_registration app))) (split_whitespace scope)")
    case None
    with assms(6) show ?thesis by (simp add: find_none_subset)
  qed (simp add: client_credentials_token_with_audience_def client_credentials_token_def ck)
  moreover have "client_credentials_token_with_audience cr s now client_id client_secret (Some scope) (Some aud) = Inr ?r"
    using tok(1) assms(5) by (simp add: client_credentials_token_with_audience_def ck Let_def requested_scopes_def issue_token_with_audience_def)
  moreover have "\<forall>now'. timestamp_secs now' < expiry_secs s now \<longrightarrow> validate_token cr s now' (tr_access_token ?r) = Inr (identity_of ?c)"
    using tok(2) [of s] by (simp add: audience_claims_def)
  moreover have "vi_scopes (identity_of ?c) = split_whitespace scope" "vi_identity_iri (identity_of ?c) = ar_product_iri (sar_registration app)"
    by (simp_all add: identity_of_def audience_claims_def)
  ultimately show ?thesis by blast
qed

theorem own_audience_scopes_unchecked_witness:
  "\<exists>r vi. client_credentials_token_with_audience (ex_crates ex_client_claims) ex_client_iam 0 ''picloud-x'' ''pw'' (Some ''*'') (Some ''https://c/products/shop'') = Inr r \<and>
     vi_scopes vi = [''*''] \<and> validate_token (ex_crates ex_client_claims) ex_client_iam 5 (tr_access_token r) = Inr vi"
proof -
  obtain app where app: "map_of (im_app_registrations ex_client_iam) ''picloud-x'' = Some app"
    "app = \<lparr>sar_registration = \<lparr>ar_id = 0, ar_client_id = ''picloud-x'', ar_client_secret_hash = hash_secret (ex_crates ex_client_claims) ''pw'',
        ar_product_iri = ''https://c/products/shop'', ar_redirect_uris = [], ar_scopes = [''read'']\<rparr>, sar_product_name = ''shop''\<rparr>"
    by (auto simp: ex_client_iam_def register_app_def Let_def)
  have f: "audience_product ''https://c/products/shop'' = Some ''shop''" "split_whitespace ''*'' = [''*'']"
    "timestamp_secs 5 < expiry_secs ex_client_iam 0" by code_simp+
  have c: "audience_claims ex_client_iam 0 ''https://c/products/shop'' ''https://c/products/shop'' [''*''] = ex_client_claims"
    by (simp add: ex_client_claims_def audience_claims_def ex_client_iam_def register_app_def Let_def issued_roles_def roles_from_groups_def
        expiry_secs_def iam_new_def)
  from own_audience_scopes_unchecked [OF ex_crates_ok(1) app(1), of ex_client_claims "''pw''" "''https://c/products/shop''" "''*''" 0] show ?thesis
    using app(2) f c ex_crates_ok(2) [of ex_client_claims] by (auto simp: ex_crates_def)
qed

end
