(* ===== verification/Iam_Passkeys.thy ===== *)
theory Iam_Passkeys
  imports Iam_Tokens
begin

text \<open>
  Passkeys, WebAuthn ceremonies, enrollment tokens and device flows of
  \<open>LocalIdentityProvider\<close> (\<open>crates/picloud-iam/src/implementation.rs\<close>). The CBOR reader and the P-256
  verification are a second record of functions. One call reads the clock once; challenges, challenge identifiers, device codes and
  token strings, which the code draws at random, are arguments.
\<close>

section \<open>Messages\<close>

record registration_challenge =
  rc_challenge :: string
  rc_rp_id :: string
  rc_rp_name :: string
  rc_user_id :: string
  rc_user_name :: string
  rc_timeout_ms :: u64

record registration_response =
  rr_credential_id :: string
  rr_public_key :: string
  rr_attestation :: "string option"
  rr_aaguid :: "string option"
  rr_display_name :: "string option"

record authentication_challenge =
  ac_challenge :: string
  ac_rp_id :: string
  ac_allow_credentials :: "string list"
  ac_timeout_ms :: u64

record authentication_response =
  as_credential_id :: string
  as_signature :: string
  as_authenticator_data :: "string option"
  as_client_data_json :: "string option"
  as_signature_format :: string

record device_flow_response =
  df_device_code :: string
  df_verification_url :: string
  df_interval_secs :: u64
  df_expires_in_secs :: u64

datatype device_flow_poll_result = PollPending | PollComplete string string int | PollExpired

text \<open>CBOR values, as far as the code looks at them.\<close>

datatype cbor = CborInteger int | CborBytes bytes | CborMap "(cbor \<times> cbor) list" | CborOther

record webauthn_crates =
  cbor_decode :: "bytes \<Rightarrow> cbor option"
  ec_point_error :: "bytes \<Rightarrow> bytes \<Rightarrow> string option"
  der_signature_error :: "bytes \<Rightarrow> string option"
  ecdsa_verify :: "bytes \<Rightarrow> bytes \<Rightarrow> bytes \<Rightarrow> bytes \<Rightarrow> bool"

section \<open>Passkeys\<close>

definition revoke_all_passkeys :: "resource_iri \<Rightarrow> iam \<Rightarrow> iam" where
  "revoke_all_passkeys identity_iri s = s\<lparr>im_passkeys := hm_remove identity_iri (im_passkeys s)\<rparr>"

definition get_passkeys :: "iam \<Rightarrow> resource_iri \<Rightarrow> registered_passkey list" where
  "get_passkeys s identity_iri = (case map_of (im_passkeys s) identity_iri of Some ps \<Rightarrow> ps | None \<Rightarrow> [])"

definition store_passkey :: "resource_iri \<Rightarrow> registered_passkey \<Rightarrow> iam \<Rightarrow> iam" where
  "store_passkey identity_iri passkey s =
     s\<lparr>im_passkeys := hm_insert identity_iri (get_passkeys s identity_iri @ [passkey]) (im_passkeys s)\<rparr>"

definition has_minimum_passkeys :: "iam \<Rightarrow> resource_iri \<Rightarrow> bool" where
  "has_minimum_passkeys s identity_iri \<longleftrightarrow> length (get_passkeys s identity_iri) \<ge> 2"

definition passkey_status :: "iam \<Rightarrow> resource_iri \<Rightarrow> nat \<times> string option" where
  "passkey_status s identity_iri =
     (let count = length (get_passkeys s identity_iri)
      in (count, if count < 2 then Some ''admin account requires at least 2 passkeys for recovery safety (ADR-025)'' else None))"

definition remove_passkey :: "resource_iri \<Rightarrow> string \<Rightarrow> iam \<Rightarrow> unit result \<times> iam" where
  "remove_passkey identity_iri credential_id s =
     (let passkeys = get_passkeys s identity_iri
      in if length passkeys \<le> 2
         then (Inl (Unauthorized identity_iri ''remove_passkey: admin accounts must retain at least 2 passkeys (ADR-025)''), s)
         else (Inr (),
               s\<lparr>im_passkeys := hm_insert identity_iri (filter (\<lambda>pk. pk_credential_id pk \<noteq> credential_id) passkeys) (im_passkeys s)\<rparr>))"

section \<open>Enrollment tokens\<close>

definition et_is_valid :: "timestamp \<Rightarrow> enrollment_token \<Rightarrow> bool" where
  "et_is_valid now t \<longleftrightarrow> \<not> et_used t \<and> now < et_expires_at t"

definition store_enrollment_token :: "enrollment_token \<Rightarrow> iam \<Rightarrow> iam" where
  "store_enrollment_token t s = s\<lparr>im_enrollment_tokens := hm_insert (et_token t) t (im_enrollment_tokens s)\<rparr>"

definition generate_reset_token :: "timestamp \<Rightarrow> string \<Rightarrow> resource_iri \<Rightarrow> int \<Rightarrow> iam \<Rightarrow> enrollment_token \<times> iam" where
  "generate_reset_token now token_str target_identity ttl_secs s =
     (let t = \<lparr>et_token = token_str, et_purpose = PasskeyReset, et_expires_at = now + ttl_secs * second, et_used = False,
               et_target_identity = Some target_identity\<rparr>
      in (t, store_enrollment_token t s))"

definition generate_bootstrap_token :: "timestamp \<Rightarrow> string \<Rightarrow> int \<Rightarrow> enrollment_purpose \<Rightarrow> iam \<Rightarrow> enrollment_token \<times> iam" where
  "generate_bootstrap_token now token_str ttl_secs purpose s =
     (let t = \<lparr>et_token = token_str, et_purpose = purpose, et_expires_at = now + ttl_secs * second, et_used = False,
               et_target_identity = None\<rparr>
      in (t, store_enrollment_token t s))"

section \<open>Ceremonies\<close>

definition begin_registration ::
  "iam_crates \<Rightarrow> timestamp \<Rightarrow> bytes \<Rightarrow> string \<Rightarrow> resource_iri \<Rightarrow> iam \<Rightarrow> (string \<times> registration_challenge) result \<times> iam" where
  "begin_registration cr now challenge_bytes challenge_id identity_iri s =
     (Inr (challenge_id,
           \<lparr>rc_challenge = b64_encode cr challenge_bytes, rc_rp_id = im_cluster_domain s, rc_rp_name = ''PiCloud'',
            rc_user_id = b64_encode cr (byte_str identity_iri), rc_user_name = last (split_on slash identity_iri),
            rc_timeout_ms = of_int (im_challenge_ttl_secs s) * 1000\<rparr>),
      s\<lparr>im_pending_challenges := hm_insert challenge_id
          \<lparr>pc_identity_iri = identity_iri, pc_challenge_bytes = challenge_bytes, pc_kind = Registration,
           pc_expires_at = now + im_challenge_ttl_secs s * second\<rparr> (im_pending_challenges s)\<rparr>)"

definition failed :: "string \<Rightarrow> 'a result" where
  "failed reason = Inl (PasskeyChallengeFailed reason)"

definition drop_challenge :: "string \<Rightarrow> iam \<Rightarrow> iam" where
  "drop_challenge challenge_id s = s\<lparr>im_pending_challenges := hm_remove challenge_id (im_pending_challenges s)\<rparr>"

definition complete_registration ::
  "iam_crates \<Rightarrow> timestamp \<Rightarrow> string \<Rightarrow> registration_response \<Rightarrow> iam \<Rightarrow> registered_passkey result \<times> iam" where
  "complete_registration cr now challenge_id response s =
     (case map_of (im_pending_challenges s) challenge_id of
        None \<Rightarrow> (failed ''unknown or expired challenge ID'', s)
      | Some pending \<Rightarrow>
          let s = drop_challenge challenge_id s
          in if pc_kind pending \<noteq> Registration then (failed ''challenge is not a registration challenge'', s)
             else if now \<ge> pc_expires_at pending then (failed ''challenge has expired'', s)
             else (case b64_decode cr (rr_public_key response) of
                     None \<Rightarrow> (failed ''invalid public key encoding'', s)
                   | Some public_key_bytes \<Rightarrow>
                       let passkey = \<lparr>pk_credential_id = rr_credential_id response, pk_public_key = public_key_bytes,
                                      pk_aaguid = rr_aaguid response, pk_registered_at = now, pk_last_used_at = None,
                                      pk_display_name = rr_display_name response\<rparr>;
                           s = store_passkey (pc_identity_iri pending) passkey s;
                           s = (if map_of (im_identities s) (pc_identity_iri pending) = None
                                then register_identity (pc_identity_iri pending) [] s else s)
                       in (Inr passkey, s)))"

definition begin_authentication ::
  "iam_crates \<Rightarrow> timestamp \<Rightarrow> bytes \<Rightarrow> string \<Rightarrow> resource_iri \<Rightarrow> iam \<Rightarrow> (string \<times> authentication_challenge) result \<times> iam" where
  "begin_authentication cr now challenge_bytes challenge_id identity_iri s =
     (let passkeys = get_passkeys s identity_iri
      in if passkeys = [] then (failed ''no passkeys registered for this identity'', s)
         else (Inr (challenge_id,
                    \<lparr>ac_challenge = b64_encode cr challenge_bytes, ac_rp_id = im_cluster_domain s,
                     ac_allow_credentials = map pk_credential_id passkeys,
                     ac_timeout_ms = of_int (im_challenge_ttl_secs s) * 1000\<rparr>),
               s\<lparr>im_pending_challenges := hm_insert challenge_id
                   \<lparr>pc_identity_iri = identity_iri, pc_challenge_bytes = challenge_bytes, pc_kind = Authentication,
                    pc_expires_at = now + im_challenge_ttl_secs s * second\<rparr> (im_pending_challenges s)\<rparr>))"

text \<open>The public key as coordinates: an uncompressed point, two raw coordinates, or a COSE key.\<close>

definition show_int :: "int \<Rightarrow> string" where
  "show_int i = (if i < 0 then ''-'' @ show_nat (nat (- i)) else show_nat (nat i))"

definition cbor_bytes :: "(cbor \<times> cbor) list \<Rightarrow> int \<Rightarrow> bytes option" where
  "cbor_bytes entries key =
     (case filter (\<lambda>p. fst p = CborInteger key \<and> (case snd p of CborBytes _ \<Rightarrow> True | _ \<Rightarrow> False)) entries of
        (_, CborBytes b) # _ \<Rightarrow> Some b | _ \<Rightarrow> None)"

definition cbor_int :: "(cbor \<times> cbor) list \<Rightarrow> int \<Rightarrow> int option" where
  "cbor_int entries key =
     (case filter (\<lambda>p. fst p = CborInteger key \<and> (case snd p of CborInteger _ \<Rightarrow> True | _ \<Rightarrow> False)) entries of
        (_, CborInteger i) # _ \<Rightarrow> Some i | _ \<Rightarrow> None)"

definition key_coordinates :: "webauthn_crates \<Rightarrow> bytes \<Rightarrow> (bytes \<times> bytes) result" where
  "key_coordinates wa pk_bytes =
     (if length pk_bytes = 65 \<and> hd pk_bytes = 4 then Inr (take 32 (drop 1 pk_bytes), drop 33 pk_bytes)
      else if length pk_bytes = 64 then Inr (take 32 pk_bytes, drop 32 pk_bytes)
      else case cbor_decode wa pk_bytes of
        Some (CborMap entries) \<Rightarrow>
          (let kty = cbor_int entries 1
           in if kty \<noteq> Some 2
              then failed (''COSE_Key kty is not EC2 (got '' @ (case kty of None \<Rightarrow> ''None'' | Some i \<Rightarrow> ''Some('' @ show_int i @ '')'') @ '')'')
              else case cbor_bytes entries (-2) of
                None \<Rightarrow> failed ''COSE_Key missing x coordinate (-2)''
              | Some x \<Rightarrow>
                  (case cbor_bytes entries (-3) of
                     None \<Rightarrow> failed ''COSE_Key missing y coordinate (-3)''
                   | Some y \<Rightarrow>
                       if length x \<noteq> 32 \<or> length y \<noteq> 32
                       then failed (''COSE_Key coordinate size mismatch (x='' @ show_nat (length x) @ '', y='' @ show_nat (length y) @ '')'')
                       else Inr (x, y)))
      | _ \<Rightarrow> failed (''unsupported public key format (length='' @ show_nat (length pk_bytes) @ '', not CBOR map)''))"

definition opt_or :: "'a option \<Rightarrow> string \<Rightarrow> 'a result" where
  "opt_or x reason = (case x of Some a \<Rightarrow> Inr a | None \<Rightarrow> failed reason)"

definition verify_webauthn ::
  "iam_crates \<Rightarrow> webauthn_crates \<Rightarrow> pending_challenge \<Rightarrow> registered_passkey \<Rightarrow> authentication_response \<Rightarrow> unit result" where
  "verify_webauthn cr wa pending passkey response =
     and_then (opt_or (Option.bind (as_authenticator_data response) (b64_decode cr)) ''webauthn format requires authenticator_data'') (\<lambda>auth_data.
     and_then (case as_client_data_json response of
                 Some cdj \<Rightarrow> and_then (opt_or (b64_decode cr cdj) ''invalid client_data_json encoding'') (\<lambda>b. Inr (sha256 cr b))
               | None \<Rightarrow> Inr (sha256 cr (pc_challenge_bytes pending))) (\<lambda>client_data_hash.
     and_then (opt_or (b64_decode cr (as_signature response)) ''invalid signature encoding'') (\<lambda>signature_bytes.
     and_then (key_coordinates wa (pk_public_key passkey)) (\<lambda>(x, y).
     case ec_point_error wa x y of
       Some e \<Rightarrow> failed (''invalid public key: '' @ e)
     | None \<Rightarrow>
         (case der_signature_error wa signature_bytes of
            Some e \<Rightarrow> failed (''invalid DER signature: '' @ e)
          | None \<Rightarrow>
              if ecdsa_verify wa x y (auth_data @ client_data_hash) signature_bytes then Inr ()
              else failed ''ECDSA signature verification failed'')))))"

definition verify_hmac ::
  "iam_crates \<Rightarrow> pending_challenge \<Rightarrow> registered_passkey \<Rightarrow> authentication_response \<Rightarrow> unit result" where
  "verify_hmac cr pending passkey response =
     (let expected_sig = b64_encode cr (hmac_sign cr (pk_public_key passkey) (pc_challenge_bytes pending))
      in if as_signature response \<noteq> expected_sig then failed ''signature verification failed'' else Inr ())"

text \<open>\<open>find\<close> on the mutable passkeys: the first with the credential is stamped.\<close>

fun stamp_first :: "timestamp \<Rightarrow> string \<Rightarrow> registered_passkey list \<Rightarrow> registered_passkey list" where
  "stamp_first now credential_id [] = []"
| "stamp_first now credential_id (pk # pks) =
     (if pk_credential_id pk = credential_id then pk\<lparr>pk_last_used_at := Some now\<rparr> # pks
      else pk # stamp_first now credential_id pks)"

definition mark_used :: "timestamp \<Rightarrow> resource_iri \<Rightarrow> string \<Rightarrow> iam \<Rightarrow> iam" where
  "mark_used now identity_iri credential_id s =
     (case map_of (im_passkeys s) identity_iri of
        None \<Rightarrow> s
      | Some pks \<Rightarrow> s\<lparr>im_passkeys := hm_insert identity_iri (stamp_first now credential_id pks) (im_passkeys s)\<rparr>)"

definition complete_authentication ::
  "iam_crates \<Rightarrow> webauthn_crates \<Rightarrow> timestamp \<Rightarrow> string \<Rightarrow> authentication_response \<Rightarrow> iam \<Rightarrow> string result \<times> iam" where
  "complete_authentication cr wa now challenge_id response s =
     (case map_of (im_pending_challenges s) challenge_id of
        None \<Rightarrow> (failed ''unknown or expired challenge ID'', s)
      | Some pending \<Rightarrow>
          let s = drop_challenge challenge_id s
          in if pc_kind pending \<noteq> Authentication then (failed ''challenge is not an authentication challenge'', s)
             else if now \<ge> pc_expires_at pending then (failed ''challenge has expired'', s)
             else (case List.find (\<lambda>p. pk_credential_id p = as_credential_id response) (get_passkeys s (pc_identity_iri pending)) of
                     None \<Rightarrow> (failed ''credential ID does not match any registered passkey'', s)
                   | Some passkey \<Rightarrow>
                       (case (if as_signature_format response = ''webauthn'' then verify_webauthn cr wa pending passkey response
                              else verify_hmac cr pending passkey response) of
                          Inl e \<Rightarrow> (Inl e, s)
                        | Inr _ \<Rightarrow>
                            let s = mark_used now (pc_identity_iri pending) (as_credential_id response) s
                            in (issue_token cr s now (pc_identity_iri pending) None, s))))"

definition enroll_with_token ::
  "iam_crates \<Rightarrow> timestamp \<Rightarrow> string \<Rightarrow> bytes \<Rightarrow> string \<Rightarrow> string \<Rightarrow> iam \<Rightarrow> (string \<times> registration_challenge) result \<times> iam" where
  "enroll_with_token cr now admin_id challenge_bytes challenge_id token s =
     (case map_of (im_enrollment_tokens s) token of
        None \<Rightarrow> (failed ''invalid enrollment token'', s)
      | Some stored \<Rightarrow>
          if \<not> et_is_valid now stored then (failed ''enrollment token is expired or already used'', s)
          else
            let s = s\<lparr>im_enrollment_tokens := hm_insert token (stored\<lparr>et_used := True\<rparr>) (im_enrollment_tokens s)\<rparr>
            in case et_target_identity stored of
                 Some iri \<Rightarrow> begin_registration cr now challenge_bytes challenge_id iri s
               | None \<Rightarrow>
                   let iri = iri_resource (im_cluster_domain s) ''platform'' ''identities'' admin_id
                   in begin_registration cr now challenge_bytes challenge_id iri (register_identity iri [''admin''] s))"

section \<open>Device flows\<close>

definition begin_device_flow :: "timestamp \<Rightarrow> string \<Rightarrow> iam \<Rightarrow> device_flow_response result \<times> iam" where
  "begin_device_flow now device_code s =
     (Inr \<lparr>df_device_code = device_code,
           df_verification_url = ''https://'' @ im_cluster_domain s @ ''/auth/device?code='' @ device_code,
           df_interval_secs = 5, df_expires_in_secs = 600\<rparr>,
      s\<lparr>im_pending_device_flows := hm_insert device_code
          \<lparr>pd_expires_at = now + 600 * second, pd_completed_token = None, pd_identity_iri = None\<rparr> (im_pending_device_flows s)\<rparr>)"

definition poll_device_flow :: "iam \<Rightarrow> timestamp \<Rightarrow> string \<Rightarrow> device_flow_poll_result result" where
  "poll_device_flow s now device_code =
     (case map_of (im_pending_device_flows s) device_code of
        None \<Rightarrow> failed ''unknown device code''
      | Some pending \<Rightarrow>
          if now \<ge> pd_expires_at pending then Inr PollExpired
          else (case pd_completed_token pending of
                  Some token \<Rightarrow> Inr (PollComplete token ''Bearer'' (im_token_ttl_secs s))
                | None \<Rightarrow> Inr PollPending))"

definition complete_device_flow :: "iam_crates \<Rightarrow> timestamp \<Rightarrow> string \<Rightarrow> resource_iri \<Rightarrow> iam \<Rightarrow> unit result \<times> iam" where
  "complete_device_flow cr now device_code identity_iri s =
     (case issue_token cr s now identity_iri None of
        Inl e \<Rightarrow> (Inl e, s)
      | Inr token \<Rightarrow>
     (case map_of (im_pending_device_flows s) device_code of
        None \<Rightarrow> (failed ''unknown device code'', s)
      | Some pending \<Rightarrow>
          if now \<ge> pd_expires_at pending then (failed ''device code has expired'', s)
          else (Inr (), s\<lparr>im_pending_device_flows := hm_insert device_code
                  (pending\<lparr>pd_completed_token := Some token, pd_identity_iri := Some identity_iri\<rparr>) (im_pending_device_flows s)\<rparr>)))"

section \<open>Runs of the provider\<close>

text \<open>Every operation that changes the state, with the values it draws.\<close>

datatype iam_op =
    OpRegisterIdentity resource_iri "string list"
  | OpCreateGroup resource_iri string "string option" "string list"
  | OpAssignGroupRole resource_iri string
  | OpRevokeGroupRole resource_iri string
  | OpAddGroupMember resource_iri resource_iri
  | OpRemoveGroupMember resource_iri resource_iri
  | OpRegisterApp string string uuid resource_iri "string list" "string list"
  | OpRegisterM2m m2m_permission
  | OpRotate timestamp bytes
  | OpBeginCode string timestamp string string "string option" resource_iri
  | OpExchangeCode timestamp string string string
  | OpRevokeAll resource_iri
  | OpStorePasskey resource_iri registered_passkey
  | OpRemovePasskey resource_iri string
  | OpStoreEnrollment enrollment_token
  | OpResetToken timestamp string resource_iri int
  | OpBootstrapToken timestamp string int enrollment_purpose
  | OpBeginRegistration timestamp bytes string resource_iri
  | OpCompleteRegistration timestamp string registration_response
  | OpBeginAuthentication timestamp bytes string resource_iri
  | OpCompleteAuthentication timestamp string authentication_response
  | OpEnroll timestamp string bytes string string
  | OpBeginDevice timestamp string
  | OpCompleteDevice timestamp string resource_iri

fun iam_step :: "iam_crates \<Rightarrow> webauthn_crates \<Rightarrow> iam_op \<Rightarrow> iam \<Rightarrow> iam" where
  "iam_step cr wa (OpRegisterIdentity iri roles) s = register_identity iri roles s"
| "iam_step cr wa (OpCreateGroup g n d rs) s = create_group g n d rs s"
| "iam_step cr wa (OpAssignGroupRole g r) s = snd (assign_group_role g r s)"
| "iam_step cr wa (OpRevokeGroupRole g r) s = snd (revoke_group_role g r s)"
| "iam_step cr wa (OpAddGroupMember g m) s = snd (add_group_member g m s)"
| "iam_step cr wa (OpRemoveGroupMember g m) s = snd (remove_group_member g m s)"
| "iam_step cr wa (OpRegisterApp u sec i p rs scs) s = snd (register_app cr u sec i p rs scs s)"
| "iam_step cr wa (OpRegisterM2m p) s = register_m2m_permission p s"
| "iam_step cr wa (OpRotate now k) s = with_rotated_key now k s"
| "iam_step cr wa (OpBeginCode code now c r sc i) s = snd (begin_authorization_code code now c r sc i s)"
| "iam_step cr wa (OpExchangeCode now code c r) s = snd (exchange_authorization_code cr now code c r s)"
| "iam_step cr wa (OpRevokeAll i) s = revoke_all_passkeys i s"
| "iam_step cr wa (OpStorePasskey i pk) s = store_passkey i pk s"
| "iam_step cr wa (OpRemovePasskey i c) s = snd (remove_passkey i c s)"
| "iam_step cr wa (OpStoreEnrollment t) s = store_enrollment_token t s"
| "iam_step cr wa (OpResetToken now t i ttl) s = snd (generate_reset_token now t i ttl s)"
| "iam_step cr wa (OpBootstrapToken now t ttl p) s = snd (generate_bootstrap_token now t ttl p s)"
| "iam_step cr wa (OpBeginRegistration now b c i) s = snd (begin_registration cr now b c i s)"
| "iam_step cr wa (OpCompleteRegistration now c r) s = snd (complete_registration cr now c r s)"
| "iam_step cr wa (OpBeginAuthentication now b c i) s = snd (begin_authentication cr now b c i s)"
| "iam_step cr wa (OpCompleteAuthentication now c r) s = snd (complete_authentication cr wa now c r s)"
| "iam_step cr wa (OpEnroll now a b c t) s = snd (enroll_with_token cr now a b c t s)"
| "iam_step cr wa (OpBeginDevice now d) s = snd (begin_device_flow now d s)"
| "iam_step cr wa (OpCompleteDevice now d i) s = snd (complete_device_flow cr now d i s)"

text \<open>The identifiers an operation draws: of a challenge, of an authorization code, of an enrollment token.\<close>

fun draws_challenge :: "string \<Rightarrow> iam_op \<Rightarrow> bool" where
  "draws_challenge c (OpBeginRegistration now b c' i) = (c' = c)"
| "draws_challenge c (OpBeginAuthentication now b c' i) = (c' = c)"
| "draws_challenge c (OpEnroll now a b c' t) = (c' = c)"
| "draws_challenge c _ = False"

fun draws_code :: "string \<Rightarrow> iam_op \<Rightarrow> bool" where
  "draws_code c (OpBeginCode c' now cl r sc i) = (c' = c)"
| "draws_code c _ = False"

fun draws_enrollment :: "string \<Rightarrow> iam_op \<Rightarrow> bool" where
  "draws_enrollment t (OpStoreEnrollment e) = (et_token e = t)"
| "draws_enrollment t (OpResetToken now t' i ttl) = (t' = t)"
| "draws_enrollment t (OpBootstrapToken now t' ttl p) = (t' = t)"
| "draws_enrollment t _ = False"

lemmas iam_defs =
  register_identity_def create_group_def assign_group_role_def revoke_group_role_def add_group_member_def
  remove_group_member_def with_group_def register_app_def register_m2m_permission_def with_rotated_key_def
  begin_authorization_code_def exchange_authorization_code_def revoke_all_passkeys_def store_passkey_def
  remove_passkey_def store_enrollment_token_def generate_reset_token_def generate_bootstrap_token_def
  begin_registration_def complete_registration_def begin_authentication_def complete_authentication_def
  enroll_with_token_def begin_device_flow_def complete_device_flow_def drop_challenge_def mark_used_def

lemma challenge_gone_step:
  assumes "map_of (im_pending_challenges s) c = None" "\<not> draws_challenge c op"
  shows "map_of (im_pending_challenges (iam_step cr wa op s)) c = None"
  using assms by (cases op) (auto simp: iam_defs Let_def split: option.splits sum.splits if_splits)

lemma code_gone_step:
  assumes "map_of (im_pending_auth_codes s) c = None" "\<not> draws_code c op"
  shows "map_of (im_pending_auth_codes (iam_step cr wa op s)) c = None"
  using assms by (cases op) (auto simp: iam_defs Let_def split: option.splits sum.splits if_splits)

definition enrollment_spent :: "string \<Rightarrow> iam \<Rightarrow> bool" where
  "enrollment_spent t s \<longleftrightarrow> (case map_of (im_enrollment_tokens s) t of Some e \<Rightarrow> et_used e | None \<Rightarrow> True)"

lemma enrollment_spent_step:
  assumes "enrollment_spent t s" "\<not> draws_enrollment t op"
  shows "enrollment_spent t (iam_step cr wa op s)"
  using assms by (cases op) (auto simp: enrollment_spent_def iam_defs Let_def split: option.splits sum.splits if_splits)

lemma run_keeps:
  assumes "\<And>op s. P s \<Longrightarrow> \<not> Q op \<Longrightarrow> P (iam_step cr wa op s)" "P s" "\<And>op. op \<in> set ops \<Longrightarrow> \<not> Q op"
  shows "P (fold (iam_step cr wa) ops s)"
  using assms(2,3)
proof (induction ops arbitrary: s)
  case (Cons op ops)
  then show ?case using assms(1) by simp
qed simp

section \<open>Properties\<close>

lemma complete_registration_gone: "map_of (im_pending_challenges (snd (complete_registration cr now c r s))) c = None"
  by (auto simp: iam_defs Let_def split: option.splits)

lemma complete_authentication_gone: "map_of (im_pending_challenges (snd (complete_authentication cr wa now c r s))) c = None"
  by (auto simp: iam_defs Let_def split: option.splits sum.splits)

lemma exchange_gone: "map_of (im_pending_auth_codes (snd (exchange_authorization_code cr now c cl ru s))) c = None"
  by (auto simp: iam_defs Let_def split: option.splits)

lemma enroll_spends: "fst (enroll_with_token cr now a b ch t s) = Inr x \<Longrightarrow> enrollment_spent t (snd (enroll_with_token cr now a b ch t s))"
  by (auto simp: enrollment_spent_def iam_defs Let_def failed_def split: option.splits if_splits)

text \<open>C36. Challenges, authorization codes and enrollment tokens are for one use: once a
  completion was tried with a challenge, whatever came of it, every later completion with it fails and changes nothing; once an
  authorization code was presented, by whomever, it cannot be exchanged again; once an enrollment token started a
  registration, it starts no other. This holds after any run of operations that does not draw the same
  identifier anew.\<close>

theorem one_time_identifiers:
  assumes "\<forall>op \<in> set ops. \<not> draws_challenge c op \<and> \<not> draws_code c op \<and> \<not> draws_enrollment c op"
    "attempted \<in> {snd (complete_registration cr now c r s), snd (complete_authentication cr wa now c a s)}"
  shows "complete_registration cr now' c r' (fold (iam_step cr wa) ops attempted) =
      (failed ''unknown or expired challenge ID'', fold (iam_step cr wa) ops attempted) \<and>
    complete_authentication cr wa now' c a' (fold (iam_step cr wa) ops attempted) =
      (failed ''unknown or expired challenge ID'', fold (iam_step cr wa) ops attempted) \<and>
    exchange_authorization_code cr now' c cl' ru' (fold (iam_step cr wa) ops (snd (exchange_authorization_code cr now c cl ru s))) =
      (Inl Unauthenticated, fold (iam_step cr wa) ops (snd (exchange_authorization_code cr now c cl ru s))) \<and>
    (\<forall>x. fst (enroll_with_token cr now ad b ch c s) = Inr x \<longrightarrow>
      (\<exists>reason. enroll_with_token cr now' ad' b' ch' c (fold (iam_step cr wa) ops (snd (enroll_with_token cr now ad b ch c s))) =
         (failed reason, fold (iam_step cr wa) ops (snd (enroll_with_token cr now ad b ch c s)))))"
proof -
  have n: "\<not> draws_challenge c op" "\<not> draws_code c op" "\<not> draws_enrollment c op" if "op \<in> set ops" for op
    using assms(1) that by blast+
  have "map_of (im_pending_challenges attempted) c = None"
    using assms(2) complete_registration_gone [of cr now c r s] complete_authentication_gone [of cr wa now c a s] by auto
  from run_keeps [of "\<lambda>s. map_of (im_pending_challenges s) c = None" "draws_challenge c", OF challenge_gone_step this n(1)]
  have ch: "map_of (im_pending_challenges (fold (iam_step cr wa) ops attempted)) c = None" .
  have co: "map_of (im_pending_auth_codes (fold (iam_step cr wa) ops (snd (exchange_authorization_code cr now c cl ru s)))) c = None"
    using run_keeps [of "\<lambda>s. map_of (im_pending_auth_codes s) c = None" "draws_code c", OF code_gone_step exchange_gone n(2)] .
  have "\<exists>reason. enroll_with_token cr now' ad' b' ch' c u = (failed reason, u)"
    if "enrollment_spent c u" for u
    using that by (auto simp: enrollment_spent_def enroll_with_token_def et_is_valid_def split: option.splits)
  moreover have "enrollment_spent c (fold (iam_step cr wa) ops (snd (enroll_with_token cr now ad b ch c s)))"
    if "fst (enroll_with_token cr now ad b ch c s) = Inr x" for x
    using run_keeps [of "enrollment_spent c" "draws_enrollment c", OF enrollment_spent_step enroll_spends [OF that] n(3)] .
  ultimately show ?thesis
    using ch co by (simp add: complete_registration_def complete_authentication_def exchange_authorization_code_def)
qed

definition ex_wa :: webauthn_crates where
  "ex_wa = \<lparr>cbor_decode = \<lambda>_. None, ec_point_error = \<lambda>_ _. None, der_signature_error = \<lambda>_. None, ecdsa_verify = \<lambda>x y m t. t = x\<rparr>"

definition ex_registration :: registration_response where
  "ex_registration = \<lparr>rr_credential_id = ''cred'', rr_public_key = ''AA'', rr_attestation = None, rr_aaguid = None, rr_display_name = None\<rparr>"

theorem one_time_identifiers_witness:
  "complete_registration (ex_crates ex_client_claims) 7 ''ch'' ex_registration
     (fold (iam_step (ex_crates ex_client_claims) ex_wa) [OpBeginRegistration 6 [3] ''other'' ''https://c/users/v'']
       (snd (complete_registration (ex_crates ex_client_claims) 5 ''ch'' ex_registration
          (snd (begin_registration (ex_crates ex_client_claims) 0 [1] ''ch'' ''https://c/users/u'' ex_iam))))) =
   (failed ''unknown or expired challenge ID'',
    fold (iam_step (ex_crates ex_client_claims) ex_wa) [OpBeginRegistration 6 [3] ''other'' ''https://c/users/v'']
       (snd (complete_registration (ex_crates ex_client_claims) 5 ''ch'' ex_registration
          (snd (begin_registration (ex_crates ex_client_claims) 0 [1] ''ch'' ''https://c/users/u'' ex_iam)))))"
  using one_time_identifiers [of "[OpBeginRegistration 6 [3] ''other'' ''https://c/users/v'']" "''ch''"
      "snd (complete_registration (ex_crates ex_client_claims) 5 ''ch'' ex_registration
          (snd (begin_registration (ex_crates ex_client_claims) 0 [1] ''ch'' ''https://c/users/u'' ex_iam)))"
      "ex_crates ex_client_claims" 5 ex_registration
      "snd (begin_registration (ex_crates ex_client_claims) 0 [1] ''ch'' ''https://c/users/u'' ex_iam)" ex_wa _ 7 ex_registration]
  by simp

lemma mark_used_other:
  "im_identities (mark_used now i c s) = im_identities s" "im_groups (mark_used now i c s) = im_groups s"
  "im_signing_key (mark_used now i c s) = im_signing_key s" "im_retired_keys (mark_used now i c s) = im_retired_keys s"
  by (simp_all add: mark_used_def split: option.splits)

text \<open>A WebAuthn response can be replayed: a response with client data that authenticated an
  identity once is accepted again for every later challenge of that identity, whatever its bytes, as
  long as the passkey is the same; the client data is hashed into the signed message but never compared with the challenge.\<close>

theorem webauthn_response_replays:
  assumes "complete_authentication cr wa now c resp s = (Inr tok, s1)" "as_signature_format resp = ''webauthn''"
    "as_client_data_json resp = Some cdj" "map_of (im_pending_challenges s) c = Some pending"
    "map_option pk_public_key (List.find (\<lambda>p. pk_credential_id p = as_credential_id resp) (get_passkeys s2 (pc_identity_iri pending))) =
     map_option pk_public_key (List.find (\<lambda>p. pk_credential_id p = as_credential_id resp) (get_passkeys s (pc_identity_iri pending)))"
    "now' < t + im_challenge_ttl_secs s2 * second"
  shows "\<exists>ch s3 s4. begin_authentication cr t b c' (pc_identity_iri pending) s2 = (Inr (c', ch), s3) \<and>
    complete_authentication cr wa now' c' resp s3 = (issue_token cr s4 now' (pc_identity_iri pending) None, s4)"
proof -
  let ?i = "pc_identity_iri pending"
  let ?p = "\<lambda>p. pk_credential_id p = as_credential_id resp"
  have g: "get_passkeys (drop_challenge x u) ?i = get_passkeys u ?i" for x u by (simp add: get_passkeys_def drop_challenge_def)
  obtain pk where pk: "List.find ?p (get_passkeys s ?i) = Some pk" "verify_webauthn cr wa pending pk resp = Inr ()"
    using assms(1,2,4) by (auto simp: complete_authentication_def Let_def g failed_def split: option.splits if_splits sum.splits)
  then obtain pk2 where pk2: "List.find ?p (get_passkeys s2 ?i) = Some pk2" "pk_public_key pk2 = pk_public_key pk"
    using assms(5) by (auto simp: map_option_case split: option.splits)
  have ne: "get_passkeys s2 ?i \<noteq> []" using pk2(1) by auto
  have v: "verify_webauthn cr wa pending' pk2 resp = Inr ()" for pending'
    using pk(2) pk2(2) assms(3) by (simp add: verify_webauthn_def)
  obtain ch s3 where b: "begin_authentication cr t b c' ?i s2 = (Inr (c', ch), s3)"
    "s3 = s2\<lparr>im_pending_challenges := hm_insert c'
       \<lparr>pc_identity_iri = ?i, pc_challenge_bytes = b, pc_kind = Authentication, pc_expires_at = t + im_challenge_ttl_secs s2 * second\<rparr> (im_pending_challenges s2)\<rparr>"
    using ne by (simp add: begin_authentication_def)
  have "get_passkeys s3 ?i = get_passkeys s2 ?i" by (simp add: b(2) get_passkeys_def)
  then have "complete_authentication cr wa now' c' resp s3 =
      (let s4 = mark_used now' ?i (as_credential_id resp) (drop_challenge c' s3) in (issue_token cr s4 now' ?i None, s4))"
    using pk2(1) v assms(2,6) by (simp add: complete_authentication_def b(2) g Let_def)
  with b(1) show ?thesis by (auto simp: Let_def)
qed

definition ex_passkey :: registered_passkey where
  "ex_passkey = \<lparr>pk_credential_id = ''cred'', pk_public_key = replicate 64 0, pk_aaguid = None, pk_registered_at = 0,
     pk_last_used_at = None, pk_display_name = None\<rparr>"

definition ex_assertion :: authentication_response where
  "ex_assertion = \<lparr>as_credential_id = ''cred'', as_signature = ex_encode (replicate 32 0), as_authenticator_data = Some ''AB'',
     as_client_data_json = Some ''BA'', as_signature_format = ''webauthn''\<rparr>"

definition ex_login :: iam where
  "ex_login = snd (begin_authentication (ex_crates ex_client_claims) 0 [1] ''ch'' ''u'' (store_passkey ''u'' ex_passkey ex_iam))"

theorem webauthn_response_replays_witness:
  "\<exists>tok s1 ch s3 s4. complete_authentication (ex_crates ex_client_claims) ex_wa 1 ''ch'' ex_assertion ex_login = (Inr tok, s1) \<and>
     begin_authentication (ex_crates ex_client_claims) 100 [9, 9] ''new'' ''u'' s1 = (Inr (''new'', ch), s3) \<and>
     complete_authentication (ex_crates ex_client_claims) ex_wa 101 ''new'' ex_assertion s3 = (issue_token (ex_crates ex_client_claims) s4 101 ''u'' None, s4)"
proof -
  have "\<not> isl (fst (complete_authentication (ex_crates ex_client_claims) ex_wa 1 ''ch'' ex_assertion ex_login))" by code_simp
  then obtain tok s1 where c: "complete_authentication (ex_crates ex_client_claims) ex_wa 1 ''ch'' ex_assertion ex_login = (Inr tok, s1)"
    by (cases "complete_authentication (ex_crates ex_client_claims) ex_wa 1 ''ch'' ex_assertion ex_login") (auto simp: isl_def, metis sum.exhaust)
  let ?s1 = "snd (complete_authentication (ex_crates ex_client_claims) ex_wa 1 ''ch'' ex_assertion ex_login)"
  have f: "as_signature_format ex_assertion = ''webauthn''" "as_client_data_json ex_assertion = Some ''BA''"
    by (simp_all add: ex_assertion_def)
  have p: "map_option pc_identity_iri (map_of (im_pending_challenges ex_login) ''ch'') = Some ''u''" by code_simp
  have k: "map_option pk_public_key (List.find (\<lambda>p. pk_credential_id p = as_credential_id ex_assertion) (get_passkeys ?s1 ''u'')) =
     map_option pk_public_key (List.find (\<lambda>p. pk_credential_id p = as_credential_id ex_assertion) (get_passkeys ex_login ''u''))" by code_simp
  have t: "101 < 100 + im_challenge_ttl_secs ?s1 * second" by code_simp
  from p obtain pending where pe: "map_of (im_pending_challenges ex_login) ''ch'' = Some pending" "pc_identity_iri pending = ''u''" by auto
  show ?thesis
    using webauthn_response_replays [OF c f pe(1), of s1 101 100 "[9, 9]" "''new''"] k t c pe(2) by auto
qed

end
