(* ===== verification/Auth_Api.thy ===== *)
theory Auth_Api
  imports Iam_Passkeys
begin

text \<open>
  The \<open>/auth\<close> and \<open>/.well-known\<close> handlers of \<open>crates/picloud-http/src/implementation.rs\<close> over the
  identity provider: discovery, key set, the token endpoint, token exchange, the authorization page, passkey registration and
  login, enrollment and device flows. A handler takes the fields of the request that
  axum deserialised; none of these routes looks at an authorization header. A response is a status and a JSON value, as
  \<open>serde_json\<close> builds it; the environment holds the crates, the clock, the values drawn at random and the
  formatting of instants and identifiers.
\<close>

datatype json = JNull | JNum int | JStr string | JArr "json list" | JObj "(string \<times> json) list"

record auth_state =
  au_iam :: "iam option"
  au_domain :: cluster_domain

record auth_env =
  ae_crates :: iam_crates
  ae_webauthn :: webauthn_crates
  ae_now :: timestamp
  ae_challenge :: bytes
  ae_challenge_id :: string
  ae_admin_id :: string
  ae_device_code :: string
  ae_rfc3339 :: "timestamp \<Rightarrow> string"
  ae_show_uuid :: "uuid \<Rightarrow> string"

type_synonym auth_response = "nat \<times> json"

definition error_json :: "string \<Rightarrow> json" where
  "error_json e = JObj [(''error'', JStr e)]"

definition iam_unavailable :: auth_response where
  "iam_unavailable = (503, error_json ''identity provider not available'')"

definition internal_error :: "auth_env \<Rightarrow> picloud_error \<Rightarrow> auth_response" where
  "internal_error env e = (500, error_json (show_error (ae_show_uuid env) e))"

text \<open>The error arms of the ceremonies: a failed challenge has its own status and shows the reason.\<close>

definition challenge_error :: "auth_env \<Rightarrow> nat \<Rightarrow> picloud_error \<Rightarrow> auth_response" where
  "challenge_error env status e =
     (case e of PasskeyChallengeFailed reason \<Rightarrow> (status, error_json reason) | _ \<Rightarrow> internal_error env e)"

definition opt_str :: "string option \<Rightarrow> json" where
  "opt_str x = (case x of Some t \<Rightarrow> JStr t | None \<Rightarrow> JNull)"

definition strs :: "string list \<Rightarrow> json" where
  "strs xs = JArr (map JStr xs)"

section \<open>Serialised values\<close>

definition registration_challenge_json :: "registration_challenge \<Rightarrow> json" where
  "registration_challenge_json c =
     JObj [(''challenge'', JStr (rc_challenge c)), (''rp_id'', JStr (rc_rp_id c)), (''rp_name'', JStr (rc_rp_name c)),
           (''user_id'', JStr (rc_user_id c)), (''user_name'', JStr (rc_user_name c)), (''timeout_ms'', JNum (uint (rc_timeout_ms c)))]"

definition authentication_challenge_json :: "authentication_challenge \<Rightarrow> json" where
  "authentication_challenge_json c =
     JObj [(''challenge'', JStr (ac_challenge c)), (''rp_id'', JStr (ac_rp_id c)), (''allow_credentials'', strs (ac_allow_credentials c)),
           (''timeout_ms'', JNum (uint (ac_timeout_ms c)))]"

definition token_response_json :: "token_response \<Rightarrow> json" where
  "token_response_json r =
     JObj ([(''access_token'', JStr (tr_access_token r)), (''token_type'', JStr (tr_token_type r)), (''expires_in'', JNum (tr_expires_in r))] @
           (case tr_scope r of Some sc \<Rightarrow> [(''scope'', JStr sc)] | None \<Rightarrow> []))"

definition device_flow_json :: "device_flow_response \<Rightarrow> json" where
  "device_flow_json d =
     JObj [(''device_code'', JStr (df_device_code d)), (''verification_url'', JStr (df_verification_url d)),
           (''interval_secs'', JNum (uint (df_interval_secs d))), (''expires_in_secs'', JNum (uint (df_expires_in_secs d)))]"

definition poll_json :: "device_flow_poll_result \<Rightarrow> json" where
  "poll_json r =
     (case r of
        PollPending \<Rightarrow> JObj [(''status'', JStr ''pending'')]
      | PollComplete tok ty ex \<Rightarrow>
          JObj [(''status'', JStr ''complete''), (''access_token'', JStr tok), (''token_type'', JStr ty), (''expires_in'', JNum ex)]
      | PollExpired \<Rightarrow> JObj [(''status'', JStr ''expired'')])"

definition jwk_json :: "json_web_key \<Rightarrow> json" where
  "jwk_json k =
     JObj ([(''kty'', JStr (jwk_kty k)), (''kid'', JStr (jwk_kid k)), (''alg'', JStr (jwk_alg k)), (''use'', JStr (jwk_use k))] @
           (case jwk_k k of Some v \<Rightarrow> [(''k'', JStr v)] | None \<Rightarrow> []))"

section \<open>Discovery and tokens\<close>

definition oidc_discovery :: "iam \<Rightarrow> json" where
  "oidc_discovery s =
     (let issuer = ''https://'' @ im_cluster_domain s
      in JObj [(''issuer'', JStr issuer), (''authorization_endpoint'', JStr (issuer @ ''/auth/authorize'')),
               (''token_endpoint'', JStr (issuer @ ''/auth/token'')), (''jwks_uri'', JStr (issuer @ ''/.well-known/jwks.json'')),
               (''response_types_supported'', strs [''code'']), (''subject_types_supported'', strs [''public'']),
               (''id_token_signing_alg_values_supported'', strs [''HS256'']),
               (''grant_types_supported'', strs [''client_credentials'', ''authorization_code'']),
               (''token_endpoint_auth_methods_supported'', strs [''client_secret_post'', ''client_secret_basic'']),
               (''scopes_supported'', strs [''openid'', ''profile'', ''email''])])"

definition handle_oidc_discovery :: "auth_state \<Rightarrow> auth_response" where
  "handle_oidc_discovery st = (case au_iam st of None \<Rightarrow> iam_unavailable | Some iam \<Rightarrow> (200, oidc_discovery iam))"

definition handle_jwks :: "auth_state \<Rightarrow> auth_response" where
  "handle_jwks st =
     (case au_iam st of None \<Rightarrow> iam_unavailable | Some iam \<Rightarrow> (200, JObj [(''keys'', JArr (map jwk_json (jwks iam)))]))"

record token_request =
  tq_grant_type :: string
  tq_client_id :: string
  tq_client_secret :: string
  tq_scope :: "string option"
  tq_audience :: "string option"

definition handle_token :: "auth_env \<Rightarrow> auth_state \<Rightarrow> token_request \<Rightarrow> auth_response" where
  "handle_token env st req =
     (case au_iam st of
        None \<Rightarrow> iam_unavailable
      | Some iam \<Rightarrow>
          if tq_grant_type req \<noteq> ''client_credentials''
          then (400, JObj [(''error'', JStr ''unsupported_grant_type''), (''error_description'', JStr ''Only client_credentials grant is supported'')])
          else (case client_credentials_token (ae_crates env) iam (ae_now env) (tq_client_id req) (tq_client_secret req) (tq_scope req) of
                  Inr r \<Rightarrow> (200, token_response_json r)
                | Inl Unauthenticated \<Rightarrow>
                    (401, JObj [(''error'', JStr ''invalid_client''), (''error_description'', JStr ''Invalid client_id or client_secret'')])
                | Inl e \<Rightarrow> internal_error env e))"

record token_exchange_request =
  xq_grant_type :: string
  xq_subject_token :: string
  xq_subject_token_type :: "string option"
  xq_audience :: "string option"
  xq_scope :: "string option"

definition exchange_grant :: string where
  "exchange_grant = ''urn:ietf:params:oauth:grant-type:token-exchange''"

definition handle_token_exchange :: "auth_env \<Rightarrow> auth_state \<Rightarrow> token_exchange_request \<Rightarrow> auth_response" where
  "handle_token_exchange env st req =
     (case au_iam st of
        None \<Rightarrow> iam_unavailable
      | Some iam \<Rightarrow>
          if xq_grant_type req \<noteq> exchange_grant
          then (400, JObj [(''error'', JStr ''unsupported_grant_type''), (''error_description'', JStr (''Expected grant_type='' @ exchange_grant))])
          else (case validate_token (ae_crates env) iam (ae_now env) (xq_subject_token req) of
                  Inr identity \<Rightarrow>
                    (let audience = (case xq_audience req of Some a \<Rightarrow> a | None \<Rightarrow> ''https://'' @ au_domain st)
                     in case issue_token (ae_crates env) iam (ae_now env) (vi_identity_iri identity) (vi_product identity) of
                          Inr token \<Rightarrow>
                            (200, JObj [(''access_token'', JStr token), (''token_type'', JStr ''Bearer''), (''expires_in'', JNum 3600),
                                        (''issued_token_type'', JStr ''urn:ietf:params:oauth:token-type:access_token''),
                                        (''scope'', opt_str (xq_scope req)), (''audience'', JStr audience)])
                        | Inl e \<Rightarrow> internal_error env e)
                | Inl Unauthenticated \<Rightarrow>
                    (401, JObj [(''error'', JStr ''invalid_token''), (''error_description'', JStr ''Subject token is invalid or expired'')])
                | Inl e \<Rightarrow> internal_error env e))"

definition handle_authorize :: "auth_state \<Rightarrow> auth_response" where
  "handle_authorize st =
     (let issuer = ''https://'' @ au_domain st
      in (200, JObj [(''status'', JStr ''authentication_required''), (''method'', JStr ''passkey''),
             (''message'', JStr ''WebAuthn/FIDO2 passkey authentication is required.''), (''issuer'', JStr issuer),
             (''register_begin'', JStr (issuer @ ''/auth/register/begin'')), (''register_complete'', JStr (issuer @ ''/auth/register/complete'')),
             (''login_begin'', JStr (issuer @ ''/auth/login/begin'')), (''login_complete'', JStr (issuer @ ''/auth/login/complete'')),
             (''enroll'', JStr (issuer @ ''/auth/enroll'')), (''device_begin'', JStr (issuer @ ''/auth/device/begin'')),
             (''device_poll'', JStr (issuer @ ''/auth/device/poll''))]))"

section \<open>Passkeys\<close>

definition put_iam :: "auth_state \<Rightarrow> 'a \<times> iam \<Rightarrow> 'a \<times> auth_state" where
  "put_iam st r = (fst r, st\<lparr>au_iam := Some (snd r)\<rparr>)"

definition handle_register_begin :: "auth_env \<Rightarrow> string \<Rightarrow> auth_state \<Rightarrow> auth_response \<times> auth_state" where
  "handle_register_begin env identity st =
     (case au_iam st of
        None \<Rightarrow> (iam_unavailable, st)
      | Some iam \<Rightarrow>
          let identity_iri_str =
                (if starts_with identity ''http://'' \<or> starts_with identity ''https://'' then identity
                 else iri_resource (au_domain st) ''platform'' ''identities'' identity)
          in case resource_iri_new (url_parses (ae_crates env)) identity_iri_str of
               Inl e \<Rightarrow> ((400, error_json (''invalid IRI: '' @ show_error (ae_show_uuid env) e)), st)
             | Inr identity_iri \<Rightarrow>
                 (case put_iam st (begin_registration (ae_crates env) (ae_now env) (ae_challenge env) (ae_challenge_id env) identity_iri iam) of
                    (Inr (challenge_id, options), st) \<Rightarrow>
                      ((200, JObj [(''challenge_id'', JStr challenge_id), (''challenge'', JStr (rc_challenge options)),
                                   (''options'', registration_challenge_json options),
                                   (''publicKey'', JObj [(''challenge'', JStr (rc_challenge options)),
                                      (''rp'', JObj [(''id'', JStr (rc_rp_id options)), (''name'', JStr (rc_rp_name options))]),
                                      (''user'', JObj [(''id'', JStr (rc_user_id options)), (''name'', JStr (rc_user_name options))]),
                                      (''timeout'', JNum (uint (rc_timeout_ms options)))])]), st)
                  | (Inl e, st) \<Rightarrow> (internal_error env e, st)))"

definition handle_register_complete :: "auth_env \<Rightarrow> string \<Rightarrow> registration_response \<Rightarrow> auth_state \<Rightarrow> auth_response \<times> auth_state" where
  "handle_register_complete env challenge_id response st =
     (case au_iam st of
        None \<Rightarrow> (iam_unavailable, st)
      | Some iam \<Rightarrow>
          (case put_iam st (complete_registration (ae_crates env) (ae_now env) challenge_id response iam) of
             (Inr passkey, st) \<Rightarrow>
               ((200, JObj [(''status'', JStr ''registered''), (''credential_id'', JStr (pk_credential_id passkey)),
                            (''registered_at'', JStr (ae_rfc3339 env (pk_registered_at passkey)))]), st)
           | (Inl e, st) \<Rightarrow> (challenge_error env 400 e, st)))"

definition handle_login_begin :: "auth_env \<Rightarrow> string \<Rightarrow> auth_state \<Rightarrow> auth_response \<times> auth_state" where
  "handle_login_begin env identity st =
     (case au_iam st of
        None \<Rightarrow> (iam_unavailable, st)
      | Some iam \<Rightarrow>
          (case resource_iri_new (url_parses (ae_crates env)) identity of
             Inl e \<Rightarrow> ((400, error_json (''invalid IRI: '' @ show_error (ae_show_uuid env) e)), st)
           | Inr identity_iri \<Rightarrow>
               (case put_iam st (begin_authentication (ae_crates env) (ae_now env) (ae_challenge env) (ae_challenge_id env) identity_iri iam) of
                  (Inr (challenge_id, options), st) \<Rightarrow>
                    ((200, JObj [(''challenge_id'', JStr challenge_id), (''options'', authentication_challenge_json options)]), st)
                | (Inl e, st) \<Rightarrow> (challenge_error env 400 e, st))))"

definition handle_login_complete :: "auth_env \<Rightarrow> string \<Rightarrow> authentication_response \<Rightarrow> auth_state \<Rightarrow> auth_response \<times> auth_state" where
  "handle_login_complete env challenge_id response st =
     (case au_iam st of
        None \<Rightarrow> (iam_unavailable, st)
      | Some iam \<Rightarrow>
          (case put_iam st (complete_authentication (ae_crates env) (ae_webauthn env) (ae_now env) challenge_id response iam) of
             (Inr token, st) \<Rightarrow> ((200, JObj [(''access_token'', JStr token), (''token_type'', JStr ''Bearer'')]), st)
           | (Inl e, st) \<Rightarrow> (challenge_error env 401 e, st)))"

section \<open>Enrollment and device flows\<close>

definition handle_enroll :: "auth_env \<Rightarrow> string \<Rightarrow> auth_state \<Rightarrow> auth_response \<times> auth_state" where
  "handle_enroll env token st =
     (case au_iam st of
        None \<Rightarrow> (iam_unavailable, st)
      | Some iam \<Rightarrow>
          (case put_iam st (enroll_with_token (ae_crates env) (ae_now env) (ae_admin_id env) (ae_challenge env) (ae_challenge_id env) token iam) of
             (Inr (challenge_id, options), st) \<Rightarrow>
               ((200, JObj [(''challenge_id'', JStr challenge_id), (''options'', registration_challenge_json options)]), st)
           | (Inl e, st) \<Rightarrow> (challenge_error env 400 e, st)))"

definition handle_device_begin :: "auth_env \<Rightarrow> auth_state \<Rightarrow> auth_response \<times> auth_state" where
  "handle_device_begin env st =
     (case au_iam st of
        None \<Rightarrow> (iam_unavailable, st)
      | Some iam \<Rightarrow>
          (case put_iam st (begin_device_flow (ae_now env) (ae_device_code env) iam) of
             (Inr flow, st) \<Rightarrow> ((200, device_flow_json flow), st)
           | (Inl e, st) \<Rightarrow> (internal_error env e, st)))"

definition handle_device_poll :: "auth_env \<Rightarrow> auth_state \<Rightarrow> string \<Rightarrow> auth_response" where
  "handle_device_poll env st device_code =
     (case au_iam st of
        None \<Rightarrow> iam_unavailable
      | Some iam \<Rightarrow>
          (case poll_device_flow iam (ae_now env) device_code of
             Inr result \<Rightarrow> (200, poll_json result)
           | Inl e \<Rightarrow> challenge_error env 400 e))"

section \<open>Registering a passkey for somebody else\<close>

text \<open>The challenge that \<open>begin_registration\<close> or \<open>begin_authentication\<close> leaves behind.\<close>

definition leave_challenge :: "challenge_kind \<Rightarrow> auth_env \<Rightarrow> resource_iri \<Rightarrow> iam \<Rightarrow> iam" where
  "leave_challenge kind env iri s =
     s\<lparr>im_pending_challenges := hm_insert (ae_challenge_id env)
        \<lparr>pc_identity_iri = iri, pc_challenge_bytes = ae_challenge env, pc_kind = kind,
         pc_expires_at = ae_now env + im_challenge_ttl_secs s * second\<rparr> (im_pending_challenges s)\<rparr>"

lemma register_begin_open:
  assumes "au_iam st = Some s" "url_parses (ae_crates env) iri" "starts_with iri ''https://''"
  shows "\<exists>r. handle_register_begin env iri st = ((200, r), st\<lparr>au_iam := Some (leave_challenge Registration env iri s)\<rparr>)"
  using assms by (simp add: handle_register_begin_def resource_iri_new_def put_iam_def begin_registration_def leave_challenge_def)

definition planted :: "auth_env \<Rightarrow> registration_response \<Rightarrow> bytes \<Rightarrow> registered_passkey" where
  "planted env response pk =
     \<lparr>pk_credential_id = rr_credential_id response, pk_public_key = pk, pk_aaguid = rr_aaguid response,
      pk_registered_at = ae_now env, pk_last_used_at = None, pk_display_name = rr_display_name response\<rparr>"

text \<open>What does not change what a token says: the passkeys and the challenges, and the registration of an identity without roles.\<close>

definition same_claims :: "iam \<Rightarrow> iam \<Rightarrow> bool" where
  "same_claims s s' \<longleftrightarrow>
     (\<forall>iri. issued_roles s' iri = issued_roles s iri) \<and> im_token_ttl_secs s' = im_token_ttl_secs s \<and>
     im_signing_key s' = im_signing_key s \<and> im_retired_keys s' = im_retired_keys s \<and> im_challenge_ttl_secs s' = im_challenge_ttl_secs s"

lemma same_claims_trans: "same_claims a b \<Longrightarrow> same_claims b c \<Longrightarrow> same_claims a c"
  by (simp add: same_claims_def)

lemma same_claims_leave: "same_claims s (leave_challenge kind env iri s)"
  by (simp add: same_claims_def leave_challenge_def issued_roles_def roles_from_groups_def)

lemma same_claims_mark: "same_claims s (mark_used now i c (drop_challenge x s))"
  by (simp add: same_claims_def mark_used_def drop_challenge_def issued_roles_def roles_from_groups_def split: option.splits)

lemma plain_claims_same: "same_claims s s' \<Longrightarrow> plain_claims s' now iri None = plain_claims s now iri None"
  by (simp add: same_claims_def plain_claims_def expiry_secs_def)

lemma issue_token_same:
  assumes "same_claims s s'"
  shows "issue_token cr s' now iri None = issue_token cr s now iri None"
proof -
  have k: "im_signing_key s' = im_signing_key s" using assms by (simp add: same_claims_def)
  show ?thesis unfolding issue_token_def plain_claims_same [OF assms] sign_token_def k ..
qed

lemma register_complete_plants:
  assumes "au_iam st = Some (leave_challenge Registration e1 iri s)" "b64_decode (ae_crates env) (rr_public_key response) = Some pk"
    "ae_now env < ae_now e1 + im_challenge_ttl_secs s * second"
  obtains r s' where "handle_register_complete env (ae_challenge_id e1) response st = ((200, r), st\<lparr>au_iam := Some s'\<rparr>)"
    "same_claims s s'" "get_passkeys s' iri = get_passkeys s iri @ [planted env response pk]"
proof -
  let ?s1 = "drop_challenge (ae_challenge_id e1) (leave_challenge Registration e1 iri s)"
  let ?s2 = "store_passkey iri (planted env response pk) ?s1"
  let ?s3 = "if map_of (im_identities ?s2) iri = None then register_identity iri [] ?s2 else ?s2"
  have "complete_registration (ae_crates env) (ae_now env) (ae_challenge_id e1) response (leave_challenge Registration e1 iri s) =
      (Inr (planted env response pk), ?s3)"
    using assms(2,3) by (simp add: complete_registration_def leave_challenge_def planted_def Let_def)
  then have "\<exists>r. handle_register_complete env (ae_challenge_id e1) response st = ((200, r), st\<lparr>au_iam := Some ?s3\<rparr>)"
    using assms(1) by (simp add: handle_register_complete_def put_iam_def)
  moreover have "same_claims s ?s3"
    by (auto simp: same_claims_def store_passkey_def drop_challenge_def leave_challenge_def register_identity_def issued_roles_def
        roles_from_groups_def split: option.splits)
  moreover have "get_passkeys ?s3 iri = get_passkeys s iri @ [planted env response pk]"
    by (simp add: get_passkeys_def store_passkey_def drop_challenge_def leave_challenge_def register_identity_def)
  ultimately show thesis using that by blast
qed

lemma login_begin_open:
  assumes "au_iam st = Some s" "url_parses (ae_crates env) iri" "get_passkeys s iri \<noteq> []"
  shows "\<exists>r. handle_login_begin env iri st = ((200, r), st\<lparr>au_iam := Some (leave_challenge Authentication env iri s)\<rparr>)"
  using assms by (simp add: handle_login_begin_def resource_iri_new_def put_iam_def begin_authentication_def leave_challenge_def)

lemma login_complete_hmac:
  assumes "au_iam st = Some (leave_challenge Authentication e3 iri s)" "ae_now env < ae_now e3 + im_challenge_ttl_secs s * second"
    "List.find (\<lambda>p. pk_credential_id p = as_credential_id response) (get_passkeys s iri) = Some key"
    "as_signature_format response = ''hmac''"
    "as_signature response = b64_encode (ae_crates env) (hmac_sign (ae_crates env) (pk_public_key key) (ae_challenge e3))"
    "issue_token (ae_crates env) s (ae_now env) iri None = Inr tok"
  obtains s' where "handle_login_complete env (ae_challenge_id e3) response st =
      ((200, JObj [(''access_token'', JStr tok), (''token_type'', JStr ''Bearer'')]), st\<lparr>au_iam := Some s'\<rparr>)" "same_claims s s'"
proof -
  let ?s1 = "leave_challenge Authentication e3 iri s"
  let ?s2 = "mark_used (ae_now env) iri (as_credential_id response) (drop_challenge (ae_challenge_id e3) ?s1)"
  have sc: "same_claims s ?s2" using same_claims_trans [OF same_claims_leave same_claims_mark] .
  have "issue_token (ae_crates env) ?s2 (ae_now env) iri None = Inr tok"
    using assms(6) issue_token_same [OF sc] by simp
  moreover have "get_passkeys (drop_challenge (ae_challenge_id e3) ?s1) iri = get_passkeys s iri"
    by (simp add: get_passkeys_def drop_challenge_def leave_challenge_def)
  ultimately have "complete_authentication (ae_crates env) (ae_webauthn env) (ae_now env) (ae_challenge_id e3) response ?s1 = (Inr tok, ?s2)"
    using assms(2-5) by (simp add: complete_authentication_def leave_challenge_def verify_hmac_def Let_def)
  then show thesis using that [OF _ sc] assms(1) by (simp add: handle_login_complete_def put_iam_def)
qed

lemma find_append_none: "List.find P xs = None \<Longrightarrow> List.find P (xs @ ys) = List.find P ys"
  by (induction xs) (auto split: if_splits)

text \<open>Four requests, none of them with credentials: a passkey is registered for somebody else's identity, and used to log in.\<close>

lemma takeover:
  assumes "crates_ok cr" "ae_crates e1 = cr" "ae_crates e2 = cr" "ae_crates e3 = cr" "ae_crates e4 = cr"
    "au_iam st = Some s" "url_parses cr iri" "starts_with iri ''https://''"
    "ae_now e2 < ae_now e1 + im_challenge_ttl_secs s * second" "ae_now e4 < ae_now e3 + im_challenge_ttl_secs s * second"
    "\<forall>p \<in> set (get_passkeys s iri). pk_credential_id p \<noteq> cred" "json_ok cr (plain_claims s (ae_now e4) iri None)"
    "registration = \<lparr>rr_credential_id = cred, rr_public_key = b64_encode cr pk, rr_attestation = None, rr_aaguid = None, rr_display_name = None\<rparr>"
    "login = \<lparr>as_credential_id = cred, as_signature = b64_encode cr (hmac_sign cr pk (ae_challenge e3)),
       as_authenticator_data = None, as_client_data_json = None, as_signature_format = ''hmac''\<rparr>"
  obtains r1 st1 r2 st2 r3 st3 tok st4 s4 where
    "handle_register_begin e1 iri st = ((200, r1), st1)" "handle_register_complete e2 (ae_challenge_id e1) registration st1 = ((200, r2), st2)"
    "handle_login_begin e3 iri st2 = ((200, r3), st3)"
    "handle_login_complete e4 (ae_challenge_id e3) login st3 =
       ((200, JObj [(''access_token'', JStr tok), (''token_type'', JStr ''Bearer'')]), st4)"
    "au_iam st4 = Some s4"
    "\<And>now. timestamp_secs now < expiry_secs s (ae_now e4) \<Longrightarrow>
       validate_token cr s4 now tok = Inr (identity_of (plain_claims s (ae_now e4) iri None))"
proof -
  let ?c = "plain_claims s (ae_now e4) iri None"
  have dec: "b64_decode cr (b64_encode cr pk) = Some pk" using assms(1) by (simp add: crates_ok_def)
  have u: "url_parses cr (tc_identity_iri ?c)" using assms(7) by (simp add: plain_claims_def)
  obtain tok where tok: "sign_token cr s ?c = Inr tok"
    "\<And>s' now. im_signing_key s = im_signing_key s' \<or> im_signing_key s \<in> rk_key ` set (im_retired_keys s') \<Longrightarrow>
       validate_token cr s' now tok = (if timestamp_secs now < tc_expires_at ?c then Inr (identity_of ?c) else Inl Unauthenticated)"
    using validate_issued [OF assms(1,12) u] by metis
  obtain r1 where r1: "handle_register_begin e1 iri st = ((200, r1), st\<lparr>au_iam := Some (leave_challenge Registration e1 iri s)\<rparr>)"
    using register_begin_open [of st s e1 iri] assms(2,6,7,8) by auto
  let ?st1 = "st\<lparr>au_iam := Some (leave_challenge Registration e1 iri s)\<rparr>"
  obtain r2 s2 where r2: "handle_register_complete e2 (ae_challenge_id e1) registration ?st1 = ((200, r2), ?st1\<lparr>au_iam := Some s2\<rparr>)"
    "same_claims s s2" "get_passkeys s2 iri = get_passkeys s iri @ [planted e2 registration pk]"
    using register_complete_plants [of ?st1 e1 iri s e2 registration pk] assms(3,9,13) dec by auto
  let ?st2 = "?st1\<lparr>au_iam := Some s2\<rparr>"
  obtain r3 where r3: "handle_login_begin e3 iri ?st2 = ((200, r3), ?st2\<lparr>au_iam := Some (leave_challenge Authentication e3 iri s2)\<rparr>)"
    using login_begin_open [of ?st2 s2 e3 iri] assms(4,7) r2(3) by auto
  let ?st3 = "?st2\<lparr>au_iam := Some (leave_challenge Authentication e3 iri s2)\<rparr>"
  have "List.find (\<lambda>p. pk_credential_id p = cred) (get_passkeys s iri) = None" using assms(11) by (simp add: find_None_iff)
  then have f: "List.find (\<lambda>p. pk_credential_id p = cred) (get_passkeys s2 iri) = Some (planted e2 registration pk)"
    using assms(13) by (simp add: r2(3) planted_def find_append_none)
  have i: "issue_token cr s2 (ae_now e4) iri None = Inr tok"
    using tok(1) issue_token_same [OF r2(2)] by (simp add: issue_token_def)
  have t: "ae_now e4 < ae_now e3 + im_challenge_ttl_secs s2 * second" using assms(10) r2(2) by (simp add: same_claims_def)
  obtain s4 where r4: "handle_login_complete e4 (ae_challenge_id e3) login ?st3 =
      ((200, JObj [(''access_token'', JStr tok), (''token_type'', JStr ''Bearer'')]), ?st3\<lparr>au_iam := Some s4\<rparr>)" "same_claims s2 s4"
    using login_complete_hmac [of ?st3 e3 iri s2 e4 login "planted e2 registration pk" tok] t f i assms(5,14) by (auto simp: planted_def)
  have "im_signing_key s = im_signing_key s4" using same_claims_trans [OF r2(2) r4(2)] by (simp add: same_claims_def)
  then have "validate_token cr s4 now tok = Inr (identity_of ?c)" if "timestamp_secs now < expiry_secs s (ae_now e4)" for now
    using tok(2) [of s4 now] that by (simp add: plain_claims_def)
  with that [OF r1 r2(1) r3 r4(1)] show thesis by simp
qed

section \<open>Token exchange\<close>

text \<open>The exchange endpoint does not retarget tokens: given a valid subject token, the response names
  the requested audience and scope, but the token it carries is the one a plain issue gives: it validates to the
  identity and product of the subject token, with the audience of that product, and without scopes, whatever was
  requested.\<close>

theorem exchange_ignores_audience:
  assumes "crates_ok (ae_crates env)" "au_iam st = Some s" "xq_grant_type req = exchange_grant"
    "validate_token (ae_crates env) s (ae_now env) (xq_subject_token req) = Inr vi" "xq_audience req = Some aud"
    "url_parses (ae_crates env) (vi_identity_iri vi)" "json_ok (ae_crates env) (plain_claims s (ae_now env) (vi_identity_iri vi) (vi_product vi))"
  shows "\<exists>tok vi'. handle_token_exchange env st req =
      (200, JObj [(''access_token'', JStr tok), (''token_type'', JStr ''Bearer''), (''expires_in'', JNum 3600),
                  (''issued_token_type'', JStr ''urn:ietf:params:oauth:token-type:access_token''),
                  (''scope'', opt_str (xq_scope req)), (''audience'', JStr aud)]) \<and>
    vi_identity_iri vi' = vi_identity_iri vi \<and> vi_product vi' = vi_product vi \<and>
    vi_audience vi' = map_option (product_url s) (vi_product vi) \<and> vi_scopes vi' = [] \<and>
    (\<forall>now'. timestamp_secs now' < expiry_secs s (ae_now env) \<longrightarrow> validate_token (ae_crates env) s now' tok = Inr vi')"
proof -
  let ?c = "plain_claims s (ae_now env) (vi_identity_iri vi) (vi_product vi)"
  have u: "url_parses (ae_crates env) (tc_identity_iri ?c)" using assms(6) by (simp add: plain_claims_def)
  obtain tok where tok: "sign_token (ae_crates env) s ?c = Inr tok"
    "\<And>s' now. im_signing_key s = im_signing_key s' \<or> im_signing_key s \<in> rk_key ` set (im_retired_keys s') \<Longrightarrow>
       validate_token (ae_crates env) s' now tok = (if timestamp_secs now < tc_expires_at ?c then Inr (identity_of ?c) else Inl Unauthenticated)"
    using validate_issued [OF assms(1,7) u] by metis
  have "\<forall>now'. timestamp_secs now' < expiry_secs s (ae_now env) \<longrightarrow> validate_token (ae_crates env) s now' tok = Inr (identity_of ?c)"
    using tok(2) [of s] by (simp add: plain_claims_def)
  moreover have "handle_token_exchange env st req =
      (200, JObj [(''access_token'', JStr tok), (''token_type'', JStr ''Bearer''), (''expires_in'', JNum 3600),
                  (''issued_token_type'', JStr ''urn:ietf:params:oauth:token-type:access_token''),
                  (''scope'', opt_str (xq_scope req)), (''audience'', JStr aud)])"
    using assms(2-5) tok(1) by (simp add: handle_token_exchange_def issue_token_def)
  ultimately show ?thesis by (intro exI [of _ tok] exI [of _ "identity_of ?c"]) (simp add: identity_of_def plain_claims_def)
qed

definition ex_env :: "token_claims \<Rightarrow> auth_env" where
  "ex_env c = \<lparr>ae_crates = ex_crates c, ae_webauthn = ex_wa, ae_now = 0, ae_challenge = [1, 2, 3], ae_challenge_id = ''ch'',
     ae_admin_id = ''adm'', ae_device_code = ''dev'', ae_rfc3339 = \<lambda>_. [], ae_show_uuid = \<lambda>_. []\<rparr>"

theorem exchange_ignores_audience_witness:
  "\<exists>c tok0 tok vi'. issue_token (ex_crates c) ex_iam 0 ''https://c/users/u'' None = Inr tok0 \<and>
     handle_token_exchange (ex_env c) \<lparr>au_iam = Some ex_iam, au_domain = ''c''\<rparr>
       \<lparr>xq_grant_type = exchange_grant, xq_subject_token = tok0, xq_subject_token_type = None, xq_audience = Some ''https://c/products/shop'', xq_scope = None\<rparr> =
       (200, JObj [(''access_token'', JStr tok), (''token_type'', JStr ''Bearer''), (''expires_in'', JNum 3600),
                  (''issued_token_type'', JStr ''urn:ietf:params:oauth:token-type:access_token''),
                  (''scope'', JNull), (''audience'', JStr ''https://c/products/shop'')]) \<and>
     vi_audience vi' = None \<and> validate_token (ex_crates c) ex_iam 5 tok = Inr vi'"
proof -
  define iri where "iri = ''https://c/users/u''"
  define c where "c = plain_claims ex_iam 0 iri None"
  have u: "url_parses (ex_crates c) (tc_identity_iri c)" by (simp add: ex_crates_def)
  obtain tok0 where t0: "sign_token (ex_crates c) ex_iam c = Inr tok0"
    "\<And>s' now. im_signing_key ex_iam = im_signing_key s' \<or> im_signing_key ex_iam \<in> rk_key ` set (im_retired_keys s') \<Longrightarrow>
       validate_token (ex_crates c) s' now tok0 = (if timestamp_secs now < tc_expires_at c then Inr (identity_of c) else Inl Unauthenticated)"
    using validate_issued [OF ex_crates_ok u, of ex_iam] by metis
  have e: "timestamp_secs 0 < tc_expires_at c" "timestamp_secs 5 < expiry_secs ex_iam 0" unfolding c_def by (simp_all add: plain_claims_def) code_simp+
  have v: "validate_token (ex_crates c) ex_iam 0 tok0 = Inr (identity_of c)" using t0(2) [of ex_iam 0] e by simp
  have i: "vi_identity_iri (identity_of c) = iri" "vi_product (identity_of c) = None" by (simp_all add: identity_of_def c_def plain_claims_def)
  have env: "ae_crates (ex_env c) = ex_crates c" "ae_now (ex_env c) = 0" by (simp_all add: ex_env_def)
  let ?req = "\<lparr>xq_grant_type = exchange_grant, xq_subject_token = tok0, xq_subject_token_type = None, xq_audience = Some ''https://c/products/shop'', xq_scope = None\<rparr>"
  let ?st = "\<lparr>au_iam = Some ex_iam, au_domain = ''c''\<rparr>"
  obtain tok vi' where "handle_token_exchange (ex_env c) ?st ?req =
      (200, JObj [(''access_token'', JStr tok), (''token_type'', JStr ''Bearer''), (''expires_in'', JNum 3600),
                  (''issued_token_type'', JStr ''urn:ietf:params:oauth:token-type:access_token''),
                  (''scope'', opt_str (xq_scope ?req)), (''audience'', JStr ''https://c/products/shop'')])"
    "vi_audience vi' = map_option (product_url ex_iam) None"
    "\<forall>now'. timestamp_secs now' < expiry_secs ex_iam 0 \<longrightarrow> validate_token (ex_crates c) ex_iam now' tok = Inr vi'"
    using exchange_ignores_audience [of "ex_env c" ?st ex_iam ?req "identity_of c" "''https://c/products/shop''"]
      ex_crates_ok [of c] v i u env by (auto simp: c_def [symmetric] ex_crates_def)
  with t0(1) e(2) show ?thesis
    by (intro exI [of _ c] exI [of _ tok0] exI [of _ tok] exI [of _ vi']) (simp add: issue_token_def c_def iri_def opt_str_def)
qed

end
