(* ===== verification/Secret_Store.thy ===== *)
theory Secret_Store
  imports Domain_Types
begin

text \<open>
  The in-memory secret store (\<open>crates/picloud-iam/src/secrets.rs\<close>). Key derivation, AES-256-GCM
  and the UTF-8 check are functions of a record; the nonce an operation draws is an argument.
\<close>

record encrypted_secret =
  es_ciphertext :: bytes
  es_nonce :: bytes

record secret_store =
  ss_encryption_key :: bytes
  ss_secrets :: "(string \<times> encrypted_secret) list"

record aead_crates =
  hkdf_key :: "bytes \<Rightarrow> bytes"
  aead_seal :: "bytes \<Rightarrow> bytes \<Rightarrow> bytes \<Rightarrow> bytes option"
  aead_open :: "bytes \<Rightarrow> bytes \<Rightarrow> bytes \<Rightarrow> bytes option"
  utf8_decode :: "bytes \<Rightarrow> string option"

definition secret_store_new :: "aead_crates \<Rightarrow> bytes \<Rightarrow> secret_store" where
  "secret_store_new cr key_material = \<lparr>ss_encryption_key = hkdf_key cr key_material, ss_secrets = []\<rparr>"

definition storage_key :: "string \<Rightarrow> string \<Rightarrow> string" where
  "storage_key product name = product @ ''/'' @ name"

definition store_secret :: "aead_crates \<Rightarrow> bytes \<Rightarrow> string \<Rightarrow> string \<Rightarrow> string \<Rightarrow> secret_store \<Rightarrow> unit result \<times> secret_store" where
  "store_secret cr nonce product name value s =
     (case aead_seal cr (ss_encryption_key s) nonce (byte_str value) of
        None \<Rightarrow> (Inl (Internal ''AES-256-GCM encryption failed''), s)
      | Some in_out \<Rightarrow>
          (Inr (), s\<lparr>ss_secrets := hm_insert (storage_key product name) \<lparr>es_ciphertext = in_out, es_nonce = nonce\<rparr> (ss_secrets s)\<rparr>))"

definition get_secret :: "aead_crates \<Rightarrow> secret_store \<Rightarrow> string \<Rightarrow> string \<Rightarrow> string result" where
  "get_secret cr s product name =
     (case map_of (ss_secrets s) (storage_key product name) of
        None \<Rightarrow> Inl (SecretNotFound product name)
      | Some entry \<Rightarrow>
          (case aead_open cr (ss_encryption_key s) (es_nonce entry) (es_ciphertext entry) of
             None \<Rightarrow> Inl (Internal ''AES-256-GCM decryption failed'')
           | Some plaintext \<Rightarrow>
               (case utf8_decode cr plaintext of
                  None \<Rightarrow> Inl (Internal ''Decrypted secret is not valid UTF-8'')
                | Some v \<Rightarrow> Inr v)))"

definition delete_secret :: "string \<Rightarrow> string \<Rightarrow> secret_store \<Rightarrow> unit result \<times> secret_store" where
  "delete_secret product name s = (Inr (), s\<lparr>ss_secrets := hm_remove (storage_key product name) (ss_secrets s)\<rparr>)"

section \<open>Round trip and isolation\<close>

text \<open>Sealing a value of the given bytes succeeds, opening gives them back, and they are the UTF-8 text
  they came from.\<close>

definition aead_ok :: "aead_crates \<Rightarrow> string \<Rightarrow> bool" where
  "aead_ok cr v \<longleftrightarrow>
     (\<forall>k n. \<exists>c. aead_seal cr k n (byte_str v) = Some c \<and> aead_open cr k n c = Some (byte_str v)) \<and>
     utf8_decode cr (byte_str v) = Some v"

lemma storage_key_inj:
  assumes "slash \<notin> set p" "slash \<notin> set q"
  shows "storage_key p n = storage_key q m \<longleftrightarrow> p = q \<and> n = m"
proof -
  have "split_once slash (storage_key p n) = Some (p, n)" "split_once slash (storage_key q m) = Some (q, m)"
    using split_once_first [OF assms(1), of n] split_once_first [OF assms(2), of m] by (simp_all add: storage_key_def)
  then show ?thesis by (metis option.inject prod.inject)
qed

text \<open>Secrets round-trip and are isolated: a stored secret is read back as it was stored, storing or
  deleting a secret changes no other secret of any product, and a deleted secret is not found;
  products are told apart when their names have no slash.\<close>

theorem secrets_round_trip:
  assumes "aead_ok cr v" "slash \<notin> set p" "slash \<notin> set q"
  shows "\<exists>s'. store_secret cr nonce p n v s = (Inr (), s') \<and> get_secret cr s' p n = Inr v \<and>
    ((q, m) \<noteq> (p, n) \<longrightarrow> get_secret cr s' q m = get_secret cr s q m) \<and>
    get_secret cr (snd (delete_secret p n s')) p n = Inl (SecretNotFound p n) \<and>
    ((q, m) \<noteq> (p, n) \<longrightarrow> get_secret cr (snd (delete_secret p n s')) q m = get_secret cr s q m)"
proof -
  obtain c where c: "aead_seal cr (ss_encryption_key s) nonce (byte_str v) = Some c"
    "aead_open cr (ss_encryption_key s) nonce c = Some (byte_str v)" "utf8_decode cr (byte_str v) = Some v"
    using assms(1) unfolding aead_ok_def by blast
  let ?s' = "s\<lparr>ss_secrets := hm_insert (storage_key p n) \<lparr>es_ciphertext = c, es_nonce = nonce\<rparr> (ss_secrets s)\<rparr>"
  have "(q, m) \<noteq> (p, n) \<longrightarrow> storage_key q m \<noteq> storage_key p n" using storage_key_inj [OF assms(3,2)] by simp
  with c have "get_secret cr ?s' p n = Inr v" "(q, m) \<noteq> (p, n) \<longrightarrow> get_secret cr ?s' q m = get_secret cr s q m"
    "get_secret cr (snd (delete_secret p n ?s')) p n = Inl (SecretNotFound p n)"
    "(q, m) \<noteq> (p, n) \<longrightarrow> get_secret cr (snd (delete_secret p n ?s')) q m = get_secret cr s q m"
    by (auto simp: get_secret_def delete_secret_def split: option.splits)
  moreover have "store_secret cr nonce p n v s = (Inr (), ?s')" using c(1) by (simp add: store_secret_def)
  ultimately show ?thesis by blast
qed

definition ex_aead :: aead_crates where
  "ex_aead = \<lparr>hkdf_key = \<lambda>k. k, aead_seal = \<lambda>k n b. Some b, aead_open = \<lambda>k n b. Some b, utf8_decode = \<lambda>b. Some (map (\<lambda>x. char_of (unat x)) b)\<rparr>"

theorem secrets_round_trip_witness:
  "\<exists>s'. store_secret ex_aead [1] ''shop'' ''db'' ''pw'' (secret_store_new ex_aead [7]) = (Inr (), s') \<and>
     get_secret ex_aead s' ''shop'' ''db'' = Inr ''pw'' \<and> get_secret ex_aead s' ''blog'' ''db'' = Inl (SecretNotFound ''blog'' ''db'')"
proof -
  have "utf8_decode ex_aead (byte_str ''pw'') = Some ''pw''" by code_simp
  then have a: "aead_ok ex_aead ''pw''" by (simp add: aead_ok_def ex_aead_def)
  have "get_secret ex_aead (secret_store_new ex_aead [7]) ''blog'' ''db'' = Inl (SecretNotFound ''blog'' ''db'')"
    by (simp add: get_secret_def secret_store_new_def)
  with secrets_round_trip [OF a, of "''shop''" "''blog''" "[1]" "''db''" "secret_store_new ex_aead [7]" "''db''"] show ?thesis by auto
qed

end
