(* ===== verification/Surface_Parser.thy ===== *)
theory Surface_Parser
  imports Domain_Types
begin

text \<open>
  The parser of the \<open>.picloud\<close> surface format (\<open>crates/picloud-compiler/src/parser.rs\<close>): one
  definition per method of \<open>Parser\<close>, with a parser state holding the text that remains after
  \<open>pos\<close> and the line counter. A method that fails ends the parse (every call is followed by \<open>?\<close>),
  so the state after a failure is not kept. Numbers are the finite \<open>f64\<close> values and the infinities
  the decimal literals round to. The recursion between values, blocks and properties runs on fuel;
  three units per remaining byte always suffice.
\<close>

section \<open>Numbers\<close>

text \<open>A finite \<open>f64\<close> is a sign, a mantissa below \<open>2 ^ 53\<close> and an exponent of two from \<open>-1074\<close>
  to \<open>971\<close>; a literal too large is infinite. \<open>round_div p q\<close> rounds half to even.\<close>

datatype f64 = Finite (f_neg: bool) (f_mant: nat) (f_exp: int) | Infinite (f_neg: bool)

definition round_div :: "nat \<Rightarrow> nat \<Rightarrow> nat" where
  "round_div p q =
     (let m = p div q; r = p mod q
      in if 2 * r < q then m else if 2 * r > q then m + 1 else if even m then m else m + 1)"

definition scale_div :: "nat \<Rightarrow> nat \<Rightarrow> int \<Rightarrow> nat \<times> nat" where
  "scale_div p q e = (if 0 \<le> e then (p, q * 2 ^ nat e) else (p * 2 ^ nat (- e), q))"

fun bit_size :: "nat \<Rightarrow> nat" where
  "bit_size n = (if n = 0 then 0 else Suc (bit_size (n div 2)))"

declare bit_size.simps [simp del]

definition round_f64 :: "bool \<Rightarrow> nat \<Rightarrow> nat \<Rightarrow> f64" where
  "round_f64 neg p q =
     (if p = 0 then Finite neg 0 (- 1074)
      else
        let e0 = int (bit_size p) - int (bit_size q) - 53;
            (p0, q0) = scale_div p q e0;
            e1 = (if q0 * 2 ^ 53 \<le> p0 then e0 + 1 else e0);
            e = max e1 (- 1074);
            (p', q') = scale_div p q e;
            m = round_div p' q';
            (m, e) = (if m = 2 ^ 53 then (2 ^ 52, e + 1) else (m, e))
        in if 971 < e then Infinite neg else Finite neg m e)"

text \<open>\<open>str::parse::<f64>\<close> on the lexemes the number scanner cuts out: an optional minus sign,
  digits, and possibly a point followed by digits; one digit at least.\<close>

definition parse_f64 :: "string \<Rightarrow> f64 option" where
  "parse_f64 s =
     (let neg = (s \<noteq> [] \<and> hd s = CHR ''-'');
          d = (if neg then tl s else s);
          ip = takeWhile is_digit d;
          r = dropWhile is_digit d;
          fp = (if r \<noteq> [] \<and> hd r = CHR ''.'' then takeWhile is_digit (tl r) else []);
          r' = (if r \<noteq> [] \<and> hd r = CHR ''.'' then dropWhile is_digit (tl r) else r)
      in if r' \<noteq> [] \<or> ip @ fp = [] then None
         else Some (round_f64 neg (digits_val (ip @ fp)) (10 ^ length fp)))"

section \<open>The syntax tree\<close>

datatype property_value =
    PString string
  | PNumber f64
  | PBool bool
  | PSecret string
  | PBlock "property list"
  | PBlocks "property list list"
and property = Property (p_key: string) (p_value: property_value) (p_line: nat)

record resource_decl =
  rd_resource_type :: string
  rd_name :: string
  rd_properties :: "property list"
  rd_line :: nat

record parsed_file =
  pf_path :: string
  pf_resources :: "resource_decl list"

section \<open>Scanning\<close>

record parser =
  ps_rest :: string
  ps_line :: nat

definition parser_new :: "string \<Rightarrow> parser" where
  "parser_new source = \<lparr>ps_rest = source, ps_line = 1\<rparr>"

definition remaining :: "parser \<Rightarrow> string" where
  "remaining p = ps_rest p"

text \<open>The bytes of the characters of a UTF-8 text: the length of a character is read off its
  first byte.\<close>

definition utf8_len :: "char \<Rightarrow> nat" where
  "utf8_len c = (let b = (of_char c :: nat) in if b < 128 then 1 else if b < 224 then 2 else if b < 240 then 3 else 4)"

fun skip_ws_from :: "string \<Rightarrow> nat \<Rightarrow> string \<times> nat" and skip_comment :: "string \<Rightarrow> nat \<Rightarrow> string \<times> nat" where
  "skip_ws_from [] l = ([], l)"
| "skip_ws_from (b # s) l =
     (if b = newline then skip_ws_from s (l + 1)
      else if b = CHR '' '' \<or> b = CHR 0x09 \<or> b = carriage then skip_ws_from s l
      else if starts_with (b # s) ''//'' then skip_comment s l
      else (b # s, l))"
| "skip_comment [] l = ([], l)"
| "skip_comment (b # s) l = (if b = newline then skip_ws_from s (l + 1) else skip_comment s l)"

definition skip_ws :: "parser \<Rightarrow> parser" where
  "skip_ws p = (case skip_ws_from (ps_rest p) (ps_line p) of (s, l) \<Rightarrow> \<lparr>ps_rest = s, ps_line = l\<rparr>)"

text \<open>A character of the text is the string of its bytes.\<close>

definition peek :: "parser \<Rightarrow> string option" where
  "peek p = (case remaining p of [] \<Rightarrow> None | c # s \<Rightarrow> Some (take (utf8_len c) (c # s)))"

definition advance :: "parser \<Rightarrow> string option \<times> parser" where
  "advance p =
     (case peek p of
        None \<Rightarrow> (None, p)
      | Some c \<Rightarrow>
          (Some c, \<lparr>ps_rest = drop (length c) (ps_rest p),
                    ps_line = (if c = [newline] then ps_line p + 1 else ps_line p)\<rparr>))"

abbreviation squote :: char where "squote \<equiv> CHR 0x27"

definition at_line :: "parser \<Rightarrow> string" where
  "at_line p = ''line '' @ show_nat (ps_line p) @ '': ''"

definition expect_char :: "char \<Rightarrow> parser \<Rightarrow> parser result" where
  "expect_char expected p0 =
     (let p = skip_ws p0 in
      case peek p of
        Some c \<Rightarrow>
          if c = [expected] then Inr (snd (advance p))
          else Inl (ResourceValidationFailed
                 (at_line p @ ''expected '' @ [squote, expected, squote] @ '', found '' @ [squote] @ c @ [squote]))
      | None \<Rightarrow>
          Inl (ResourceValidationFailed
            (at_line p @ ''expected '' @ [squote, expected, squote] @ '', found end of file'')))"

definition is_ascii_alphabetic :: "char \<Rightarrow> bool" where
  "is_ascii_alphabetic c \<longleftrightarrow>
     (let b = (of_char c :: nat) in (65 \<le> b \<and> b \<le> 90) \<or> (97 \<le> b \<and> b \<le> 122))"

definition is_ascii_alphanumeric :: "char \<Rightarrow> bool" where
  "is_ascii_alphanumeric c \<longleftrightarrow> is_ascii_alphabetic c \<or> is_digit c"

definition ident_char :: "char \<Rightarrow> bool" where
  "ident_char c \<longleftrightarrow> is_ascii_alphanumeric c \<or> c = CHR ''-'' \<or> c = CHR ''_''"

definition parse_ident :: "parser \<Rightarrow> (string \<times> parser) result" where
  "parse_ident p0 =
     (let p = skip_ws p0; s = ps_rest p in
      if s = [] \<or> \<not> is_ascii_alphabetic (hd s)
      then Inl (ResourceValidationFailed (at_line p @ ''expected identifier''))
      else Inr (takeWhile ident_char s, p\<lparr>ps_rest := dropWhile ident_char s\<rparr>))"

fun scan_string :: "string \<Rightarrow> string \<Rightarrow> nat \<Rightarrow> nat + (string \<times> string \<times> nat)" where
  "scan_string acc [] l = Inl l"
| "scan_string acc (b # s) l =
     (if b = dquote then Inr (rev acc, s, l)
      else scan_string (b # acc) s (if b = newline then l + 1 else l))"

definition parse_string :: "parser \<Rightarrow> (string \<times> parser) result" where
  "parse_string p0 =
     and_then (expect_char dquote (skip_ws p0)) (\<lambda>p.
       case scan_string [] (ps_rest p) (ps_line p) of
         Inl l \<Rightarrow> Inl (ResourceValidationFailed (''line '' @ show_nat l @ '': unterminated string''))
       | Inr (v, s, l) \<Rightarrow> Inr (v, \<lparr>ps_rest = s, ps_line = l\<rparr>))"

definition parse_number :: "parser \<Rightarrow> (property_value \<times> parser) result" where
  "parse_number p =
     (let s0 = ps_rest p;
          s1 = (if s0 \<noteq> [] \<and> hd s0 = CHR ''-'' then tl s0 else s0);
          s2 = dropWhile is_digit s1;
          s3 = (if s2 \<noteq> [] \<and> hd s2 = CHR ''.'' then dropWhile is_digit (tl s2) else s2);
          lexeme = take (length s0 - length s3) s0
      in case parse_f64 lexeme of
           None \<Rightarrow> Inl (ResourceValidationFailed (at_line p @ ''invalid number '' @ [squote] @ lexeme @ [squote]))
         | Some n \<Rightarrow> Inr (PNumber n, p\<lparr>ps_rest := s3\<rparr>))"

definition ends_word :: "string \<Rightarrow> bool" where
  "ends_word s \<longleftrightarrow> s = [] \<or> \<not> is_ascii_alphanumeric (hd s)"

definition parse_bool :: "parser \<Rightarrow> (property_value \<times> parser) result" where
  "parse_bool p =
     (if starts_with (remaining p) ''true'' \<and> ends_word (drop 4 (ps_rest p))
      then Inr (PBool True, p\<lparr>ps_rest := drop 4 (ps_rest p)\<rparr>)
      else if starts_with (remaining p) ''false'' \<and> ends_word (drop 5 (ps_rest p))
      then Inr (PBool False, p\<lparr>ps_rest := drop 5 (ps_rest p)\<rparr>)
      else Inl (ResourceValidationFailed
             (at_line p @ ''expected '' @ [squote] @ ''true'' @ [squote] @ '' or '' @ [squote] @ ''false'' @ [squote])))"

definition parse_secret :: "parser \<Rightarrow> (property_value \<times> parser) result" where
  "parse_secret p =
     and_then (parse_string (skip_ws (p\<lparr>ps_rest := drop 7 (ps_rest p)\<rparr>))) (\<lambda>(name, p1).
     and_then (expect_char (CHR '')'') (skip_ws p1)) (\<lambda>p2. Inr (PSecret name, p2)))"

section \<open>Values, blocks and properties\<close>

text \<open>An assignment \<open>key = value\<close> whose key is taken changes the properties only when the first
  property of that key holds repeated blocks and the new value is a block.\<close>

definition find_key :: "string \<Rightarrow> property list \<Rightarrow> property option" where
  "find_key key props = find (\<lambda>p. p_key p = key) props"

fun set_value :: "string \<Rightarrow> property_value \<Rightarrow> property list \<Rightarrow> property list" where
  "set_value key v [] = []"
| "set_value key v (p # props) =
     (if p_key p = key then Property (p_key p) v (p_line p) # props else p # set_value key v props)"

definition add_assigned :: "string \<Rightarrow> property_value \<Rightarrow> nat \<Rightarrow> property list \<Rightarrow> property list" where
  "add_assigned key value line props =
     (case find_key key props of
        Some existing \<Rightarrow>
          (case p_value existing of
             PBlocks blocks \<Rightarrow>
               (case value of
                  PBlock new_props \<Rightarrow> set_value key (PBlocks (blocks @ [new_props])) props
                | _ \<Rightarrow> props)
           | _ \<Rightarrow> props)
      | None \<Rightarrow> props @ [Property key value line])"

definition add_block :: "string \<Rightarrow> property list \<Rightarrow> nat \<Rightarrow> property list \<Rightarrow> property list result" where
  "add_block key block_props line props =
     (case find_key key props of
        Some existing \<Rightarrow>
          (case p_value existing of
             PBlocks blocks \<Rightarrow> Inr (set_value key (PBlocks (blocks @ [block_props])) props)
           | PBlock first \<Rightarrow> Inr (set_value key (PBlocks [first, block_props]) props)
           | _ \<Rightarrow> Inl (ResourceValidationFailed
                    (''line '' @ show_nat line @ '': duplicate key '' @ [squote] @ key @ [squote]
                     @ '' with conflicting types'')))
      | None \<Rightarrow> Inr (props @ [Property key (PBlock block_props) line]))"

text \<open>\<open>{:?}\<close> of the character found; a non-ASCII character is shown as it is.\<close>

definition hex_digit :: "nat \<Rightarrow> char" where
  "hex_digit d = (if d < 10 then char_of (48 + d) else char_of (87 + d))"

definition char_debug :: "string \<Rightarrow> string" where
  "char_debug c =
     [squote] @
     (case c of
        [b] \<Rightarrow>
          (let n = (of_char b :: nat) in
           if n = 0 then [CHR 0x5C, CHR ''0'']
           else if n = 9 then [CHR 0x5C, CHR ''t'']
           else if n = 10 then [CHR 0x5C, CHR ''n'']
           else if n = 13 then [CHR 0x5C, CHR ''r'']
           else if b = squote \<or> n = 92 then [CHR 0x5C, b]
           else if n < 16 then CHR 0x5C # ''u{'' @ [hex_digit n] @ ''}''
           else if n < 32 \<or> n = 127 then CHR 0x5C # ''u{'' @ [hex_digit (n div 16), hex_digit (n mod 16)] @ ''}''
           else c)
      | _ \<Rightarrow> c) @ [squote]"

definition opt_char_debug :: "string option \<Rightarrow> string" where
  "opt_char_debug other = (case other of None \<Rightarrow> ''None'' | Some c \<Rightarrow> ''Some('' @ char_debug c @ '')'')"

type_synonym 'a outcome = "'a result option"

definition obind :: "'a outcome \<Rightarrow> ('a \<Rightarrow> 'b outcome) \<Rightarrow> 'b outcome" where
  "obind r f = (case r of None \<Rightarrow> None | Some (Inl e) \<Rightarrow> Some (Inl e) | Some (Inr a) \<Rightarrow> f a)"

definition skip_semicolon :: "parser \<Rightarrow> parser" where
  "skip_semicolon p0 = (let p = skip_ws p0 in if peek p = Some '';'' then snd (advance p) else p)"

fun parse_value :: "nat \<Rightarrow> parser \<Rightarrow> (property_value \<times> parser) outcome"
and parse_block_value :: "nat \<Rightarrow> parser \<Rightarrow> (property list \<times> parser) outcome"
and parse_properties :: "nat \<Rightarrow> property list \<Rightarrow> parser \<Rightarrow> (property list \<times> parser) outcome" where
  "parse_value 0 p0 = None"
| "parse_value (Suc n) p0 =
     (let p = skip_ws p0 in
      case peek p of
        Some c \<Rightarrow>
          if c = [dquote] then Some (and_then (parse_string p) (\<lambda>(s, q). Inr (PString s, q)))
          else if is_digit (hd c) \<or> c = ''-'' then Some (parse_number p)
          else if c = ''t'' \<or> c = ''f'' then Some (parse_bool p)
          else if c = ''s'' \<and> starts_with (remaining p) ''secret('' then Some (parse_secret p)
          else if c = ''{'' then obind (parse_block_value n p) (\<lambda>(props, q). Some (Inr (PBlock props, q)))
          else Some (Inl (ResourceValidationFailed (at_line p @ ''unexpected character '' @ [squote] @ c @ [squote])))
      | None \<Rightarrow> Some (Inl (ResourceValidationFailed (at_line p @ ''unexpected end of file''))))"
| "parse_block_value 0 p = None"
| "parse_block_value (Suc n) p =
     obind (Some (expect_char (CHR ''{'') p)) (\<lambda>p1.
     obind (parse_properties n [] p1) (\<lambda>(props, p2).
     obind (Some (expect_char (CHR ''}'') p2)) (\<lambda>p3. Some (Inr (props, p3)))))"
| "parse_properties 0 props p0 = None"
| "parse_properties (Suc n) props p0 =
     (let p = skip_ws p0 in
      if peek p = Some ''}'' \<or> peek p = None then Some (Inr (props, p))
      else
        let line = ps_line p in
        obind (Some (parse_ident p)) (\<lambda>(key, p1).
        let p2 = skip_ws p1 in
        if peek p2 = Some ''='' then
          obind (parse_value n (snd (advance p2))) (\<lambda>(value, p3).
          parse_properties n (add_assigned key value line props) (skip_semicolon p3))
        else if peek p2 = Some ''{'' then
          obind (parse_block_value n p2) (\<lambda>(block_props, p3).
          obind (Some (add_block key block_props line props)) (\<lambda>props'.
          parse_properties n props' p3))
        else
          Some (Inl (ResourceValidationFailed
            (at_line p2 @ ''expected '' @ [squote] @ ''='' @ [squote] @ '' or '' @ [squote] @ ''{'' @ [squote]
             @ '' after property name '' @ [squote] @ key @ [squote] @ '', found '' @ opt_char_debug (peek p2))))))"

section \<open>Resources and files\<close>

definition fuel_for :: "parser \<Rightarrow> nat" where
  "fuel_for p = 3 * length (ps_rest p) + 1"

definition parse_resource :: "parser \<Rightarrow> (resource_decl \<times> parser) outcome" where
  "parse_resource p =
     obind (Some (parse_ident p)) (\<lambda>(resource_type, p1).
     obind (Some (parse_string p1)) (\<lambda>(name, p2).
     obind (Some (expect_char (CHR ''{'') p2)) (\<lambda>p3.
     obind (parse_properties (fuel_for p3) [] p3) (\<lambda>(properties, p4).
     obind (Some (expect_char (CHR ''}'') p4)) (\<lambda>p5.
     Some (Inr (\<lparr>rd_resource_type = resource_type, rd_name = name, rd_properties = properties,
                 rd_line = ps_line p\<rparr>, p5)))))))"

fun parse_resources :: "nat \<Rightarrow> resource_decl list \<Rightarrow> parser \<Rightarrow> resource_decl list outcome" where
  "parse_resources 0 acc p0 = None"
| "parse_resources (Suc n) acc p0 =
     (let p = skip_ws p0 in
      if peek p = None then Some (Inr acc)
      else obind (parse_resource p) (\<lambda>(r, q). parse_resources n (acc @ [r]) q))"

definition parse_file :: "string \<Rightarrow> parser \<Rightarrow> parsed_file outcome" where
  "parse_file path p =
     obind (parse_resources (Suc (length (ps_rest p))) [] p)
       (\<lambda>resources. Some (Inr \<lparr>pf_path = path, pf_resources = resources\<rparr>))"

definition parse :: "string \<Rightarrow> string \<Rightarrow> parsed_file outcome" where
  "parse source path = parse_file path (parser_new source)"

section \<open>What the scanner consumes\<close>

text \<open>One state comes after another when it drops a prefix of the text and counts its newlines.\<close>

definition moved :: "parser \<Rightarrow> parser \<Rightarrow> bool" where
  "moved p q \<longleftrightarrow> (\<exists>u. ps_rest p = u @ ps_rest q \<and> ps_line q = ps_line p + count_list u newline)"

definition moved1 :: "parser \<Rightarrow> parser \<Rightarrow> bool" where
  "moved1 p q \<longleftrightarrow> moved p q \<and> length (ps_rest q) < length (ps_rest p)"

lemma movedI: "ps_rest p = u @ ps_rest q \<Longrightarrow> ps_line q = ps_line p + count_list u newline \<Longrightarrow> moved p q"
  by (auto simp: moved_def)

lemma moved_refl [simp]: "moved p p"
  by (rule movedI [of _ "[]"]) auto

lemma moved_trans [trans]: "moved p q \<Longrightarrow> moved q r \<Longrightarrow> moved p r"
  unfolding moved_def
proof (elim exE conjE)
  fix u v
  assume "ps_rest p = u @ ps_rest q" "ps_line q = ps_line p + count_list u newline"
    "ps_rest q = v @ ps_rest r" "ps_line r = ps_line q + count_list v newline"
  then show "\<exists>w. ps_rest p = w @ ps_rest r \<and> ps_line r = ps_line p + count_list w newline"
    by (intro exI [of _ "u @ v"]) simp
qed

lemma moved_length: "moved p q \<Longrightarrow> length (ps_rest q) \<le> length (ps_rest p)"
  by (auto simp: moved_def)

lemma moved1_imp: "moved1 p q \<Longrightarrow> moved p q"
  by (simp add: moved1_def)

lemma moved1_length: "moved1 p q \<Longrightarrow> length (ps_rest q) < length (ps_rest p)"
  by (simp add: moved1_def)

lemma moved_moved1: "moved p q \<Longrightarrow> moved1 q r \<Longrightarrow> moved1 p r"
  using moved_trans moved_length by (fastforce simp: moved1_def)

lemma moved1_moved: "moved1 p q \<Longrightarrow> moved q r \<Longrightarrow> moved1 p r"
  using moved_trans moved_length by (fastforce simp: moved1_def)

lemma moved1_trans: "moved1 p q \<Longrightarrow> moved1 q r \<Longrightarrow> moved1 p r"
  using moved1_imp moved_moved1 by blast

lemma skip_ws_from_moved:
  "skip_ws_from s l = (t, m) \<Longrightarrow> \<exists>u. s = u @ t \<and> m = l + count_list u newline"
  "skip_comment s l = (t, m) \<Longrightarrow> \<exists>u. s = u @ t \<and> m = l + count_list u newline"
proof (induction s l and s l rule: skip_ws_from_skip_comment.induct)
  case (2 b s l)
  consider (nl) "b = newline" | (sp) "b = CHR '' '' \<or> b = CHR 0x09 \<or> b = carriage"
    | (cm) "b \<noteq> newline" "\<not> (b = CHR '' '' \<or> b = CHR 0x09 \<or> b = carriage)" "starts_with (b # s) ''//''"
    | (st) "b \<noteq> newline" "\<not> (b = CHR '' '' \<or> b = CHR 0x09 \<or> b = carriage)" "\<not> starts_with (b # s) ''//''"
    by blast
  then show ?case
  proof cases
    case nl
    then obtain u where "s = u @ t" "m = l + 1 + count_list u newline" using 2 by auto
    then show ?thesis using nl by (intro exI [of _ "b # u"]) simp
  next
    case sp
    then have b: "b \<noteq> newline" by auto
    then obtain u where "s = u @ t" "m = l + count_list u newline" using 2 sp by auto
    then show ?thesis using b by (intro exI [of _ "b # u"]) simp
  next
    case cm
    then obtain u where "s = u @ t" "m = l + count_list u newline" using 2 by auto
    then show ?thesis using cm by (intro exI [of _ "b # u"]) simp
  next
    case st
    then show ?thesis using 2 by auto
  qed
next
  case (4 b s l)
  show ?case
  proof (cases "b = newline")
    case True
    then obtain u where "s = u @ t" "m = l + 1 + count_list u newline" using 4 by auto
    then show ?thesis using True by (intro exI [of _ "b # u"]) simp
  next
    case False
    then obtain u where "s = u @ t" "m = l + count_list u newline" using 4 by auto
    then show ?thesis using False by (intro exI [of _ "b # u"]) simp
  qed
qed auto

lemma skip_ws_moved [simp]: "moved p (skip_ws p)"
proof -
  obtain t m where s: "skip_ws_from (ps_rest p) (ps_line p) = (t, m)" by fastforce
  from skip_ws_from_moved(1) [OF this] show ?thesis
    by (auto simp: skip_ws_def s moved_def)
qed

text \<open>On an ASCII character the peeked string is that single byte.\<close>

definition ascii :: "char \<Rightarrow> bool" where
  "ascii c \<longleftrightarrow> (of_char c :: nat) < 128"

lemma peek_None [simp]: "peek p = None \<longleftrightarrow> ps_rest p = []"
  by (auto simp: peek_def remaining_def split: list.splits)

lemma utf8_len_pos: "\<exists>k. utf8_len c = Suc k"
  unfolding utf8_len_def Let_def by auto

lemma peek_Cons: "ps_rest p = b # s \<Longrightarrow> ascii b \<Longrightarrow> peek p = Some [b]"
  by (simp add: peek_def remaining_def ascii_def utf8_len_def)

lemma peek_single: "peek p = Some [b] \<Longrightarrow> \<exists>s. ps_rest p = b # s"
proof -
  assume p: "peek p = Some [b]"
  then obtain c s where cs: "ps_rest p = c # s" by (cases "ps_rest p") (auto simp: peek_def remaining_def)
  moreover obtain k where "utf8_len c = Suc k" using utf8_len_pos by blast
  ultimately have "c = b" using p by (simp add: peek_def remaining_def)
  with cs show ?thesis by simp
qed

lemma advance_single:
  assumes "peek p = Some [b]"
  shows "moved1 p (snd (advance p))"
proof -
  obtain s where "ps_rest p = b # s" using peek_single [OF assms] by blast
  with assms show ?thesis
    by (auto simp: moved1_def advance_def intro!: movedI [of _ "[b]"])
qed

lemma expect_char_moved: "expect_char c p = Inr q \<Longrightarrow> moved1 p q"
  by (auto simp: expect_char_def Let_def split: option.splits if_splits
      intro: moved_moved1 [OF skip_ws_moved advance_single])

lemma ident_char_not_newline: "ident_char c \<Longrightarrow> c \<noteq> newline"
  by (auto simp: ident_char_def is_ascii_alphanumeric_def is_ascii_alphabetic_def is_digit_def)

lemma count_list_zero: "x \<notin> set xs \<Longrightarrow> count_list xs x = 0"
  by (simp add: count_list_0_iff)

lemma takeWhile_no_newline: "(\<And>c. P c \<Longrightarrow> c \<noteq> newline) \<Longrightarrow> count_list (takeWhile P s) newline = 0"
  by (metis count_list_zero set_takeWhileD)

lemma is_ascii_alphabetic_ident: "is_ascii_alphabetic c \<Longrightarrow> ident_char c"
  by (simp add: ident_char_def is_ascii_alphanumeric_def)

text \<open>An identifier is read where white space ends, and is a nonempty run of identifier
  characters.\<close>

lemma parse_ident_ok:
  assumes "parse_ident p = Inr (i, q)"
  shows "moved1 p q" "ps_rest (skip_ws p) = i @ ps_rest q" "i \<noteq> []" "list_all ident_char i"
    "is_ascii_alphabetic (hd i)"
proof -
  let ?s = "ps_rest (skip_ws p)"
  have s: "?s \<noteq> []" "is_ascii_alphabetic (hd ?s)" and i: "i = takeWhile ident_char ?s"
    and q: "q = skip_ws p\<lparr>ps_rest := dropWhile ident_char ?s\<rparr>"
    using assms by (auto simp: parse_ident_def Let_def split: if_splits)
  then obtain b t where bt: "?s = b # t" by (cases ?s) auto
  with s have b: "ident_char b" by (simp add: is_ascii_alphabetic_ident)
  show "i \<noteq> []" "is_ascii_alphabetic (hd i)" using s bt b i by simp_all
  show "list_all ident_char i" using i by (auto simp: list_all_iff dest: set_takeWhileD)
  show r: "?s = i @ ps_rest q" using i q by simp
  have "moved (skip_ws p) q"
    by (rule movedI [OF r]) (simp add: i q takeWhile_no_newline ident_char_not_newline)
  then have "moved1 (skip_ws p) q" using r \<open>i \<noteq> []\<close> by (simp add: moved1_def)
  then show "moved1 p q" by (rule moved_moved1 [OF skip_ws_moved])
qed

lemma scan_string_ok:
  "scan_string acc s l = Inr (v, t, m) \<Longrightarrow>
   \<exists>u. s = u @ dquote # t \<and> v = rev acc @ u \<and> m = l + count_list u newline \<and> dquote \<notin> set u"
proof (induction acc s l rule: scan_string.induct)
  case (2 acc b s l)
  show ?case
  proof (cases "b = dquote")
    case False
    with 2 obtain u where "s = u @ dquote # t" "v = rev (b # acc) @ u" "dquote \<notin> set u"
      "m = (if b = newline then l + 1 else l) + count_list u newline" by auto
    then show ?thesis using False by (intro exI [of _ "b # u"]) simp
  qed (use 2 in auto)
qed auto

lemma parse_string_ok:
  assumes "parse_string p = Inr (v, q)"
  shows "moved1 p q" "dquote \<notin> set v"
proof -
  obtain p1 where p1: "expect_char dquote (skip_ws p) = Inr p1"
    using assms by (cases "expect_char dquote (skip_ws p)") (auto simp: parse_string_def)
  have s: "scan_string [] (ps_rest p1) (ps_line p1) = Inr (v, ps_rest q, ps_line q)"
    using assms by (cases "scan_string [] (ps_rest p1) (ps_line p1)") (auto simp: parse_string_def p1)
  obtain u where u: "ps_rest p1 = u @ dquote # ps_rest q" "v = u"
    "ps_line q = ps_line p1 + count_list u newline" "dquote \<notin> set u"
    using scan_string_ok [OF s] by auto
  then have "moved p1 q" by (intro movedI [of _ "u @ [dquote]"]) auto
  with expect_char_moved [OF p1] have "moved1 (skip_ws p) q" by (rule moved1_moved)
  then show "moved1 p q" by (rule moved_moved1 [OF skip_ws_moved])
  show "dquote \<notin> set v" using u by simp
qed

lemma parse_number_moved: "parse_number p = Inr (v, q) \<Longrightarrow> moved p q"
proof -
  assume r: "parse_number p = Inr (v, q)"
  let ?s0 = "ps_rest p"
  define s1 where "s1 = (if ?s0 \<noteq> [] \<and> hd ?s0 = CHR ''-'' then tl ?s0 else ?s0)"
  define s2 where "s2 = dropWhile is_digit s1"
  define s3 where "s3 = (if s2 \<noteq> [] \<and> hd s2 = CHR ''.'' then dropWhile is_digit (tl s2) else s2)"
  have q: "q = p\<lparr>ps_rest := s3\<rparr>"
    using r unfolding parse_number_def Let_def s1_def [symmetric] s2_def [symmetric] s3_def [symmetric]
    by (auto split: option.splits)
  have digits: "\<exists>u. s = u @ dropWhile is_digit s \<and> newline \<notin> set u" for s
    by (metis is_digit_not_special(3) set_takeWhileD takeWhile_dropWhile_id)
  have drop_one: "\<exists>u. s = u @ (if s \<noteq> [] \<and> hd s = c then tl s else s) \<and> newline \<notin> set u"
    if "c \<noteq> newline" for s c
  proof (cases "s \<noteq> [] \<and> hd s = c")
    case True
    then show ?thesis using that by (intro exI [of _ "[c]"]) (auto simp: neq_Nil_conv)
  qed auto
  obtain u1 where u1: "?s0 = u1 @ s1" "newline \<notin> set u1"
    unfolding s1_def using drop_one [of "CHR ''-''" ?s0] by auto
  obtain u2 where u2: "s1 = u2 @ s2" "newline \<notin> set u2" unfolding s2_def using digits by blast
  obtain u3 where u3: "s2 = u3 @ s3" "newline \<notin> set u3"
  proof (cases "s2 \<noteq> [] \<and> hd s2 = CHR ''.''")
    case True
    obtain u where "tl s2 = u @ s3" "newline \<notin> set u" using True digits [of "tl s2"] by (auto simp: s3_def)
    with True show thesis by (intro that [of "CHR ''.'' # u"]) (auto simp: neq_Nil_conv)
  qed (auto simp: s3_def intro: that [of "[]"])
  show ?thesis
    using u1 u2 u3 by (intro movedI [of _ "u1 @ u2 @ u3"]) (auto simp: q count_list_zero)
qed

lemma parse_bool_moved: "parse_bool p = Inr (v, q) \<Longrightarrow> moved p q"
  by (auto simp: parse_bool_def remaining_def starts_with_iff split: if_splits
      intro: movedI [of _ "''true''"] movedI [of _ "''false''"])

lemma parse_secret_moved:
  assumes "starts_with (remaining p) ''secret(''" "parse_secret p = Inr (v, q)"
  shows "moved p q"
proof -
  let ?p = "p\<lparr>ps_rest := drop 7 (ps_rest p)\<rparr>"
  have m: "moved p ?p"
    using assms(1) by (auto simp: remaining_def starts_with_iff intro!: movedI [of _ "''secret(''"])
  obtain n p1 where p1: "parse_string (skip_ws ?p) = Inr (n, p1)"
    and p2: "expect_char (CHR '')'') (skip_ws p1) = Inr q"
    using assms(2) by (auto simp: parse_secret_def and_then_Inr_iff split: prod.splits)
  from p1 have "moved (skip_ws ?p) p1" by (intro moved1_imp parse_string_ok)
  moreover from p2 have "moved (skip_ws p1) q" by (intro moved1_imp expect_char_moved)
  ultimately show ?thesis using m skip_ws_moved moved_trans by meson
qed

lemma skip_semicolon_moved: "moved p (skip_semicolon p)"
  using moved_trans [OF skip_ws_moved moved1_imp [OF advance_single]]
  by (auto simp: skip_semicolon_def Let_def)

section \<open>Results of the recursive descent\<close>

lemma obind_simps [simp]:
  "obind None f = None"
  "obind (Some (Inl e)) f = Some (Inl e)"
  "obind (Some (Inr a)) f = f a"
  by (simp_all add: obind_def)

lemma obind_Inr_iff: "obind r f = Some (Inr b) \<longleftrightarrow> (\<exists>a. r = Some (Inr a) \<and> f a = Some (Inr b))"
  by (auto simp: obind_def split: option.splits sum.splits)

lemma obind_returns:
  "\<exists>x. r = Some x \<Longrightarrow> (\<And>a. r = Some (Inr a) \<Longrightarrow> \<exists>y. f a = Some y) \<Longrightarrow> \<exists>y. obind r f = Some y"
  by (auto simp: obind_def split: sum.splits)

text \<open>The ways a loop over properties succeeds: the block ends, an assignment is read, or a nested
  block is read, and the loop goes on.\<close>

lemma parse_properties_cases:
  assumes "parse_properties (Suc n) props p0 = Some (Inr (r, q))"
  obtains (ended) "q = skip_ws p0" "r = props" "peek (skip_ws p0) = Some ''}'' \<or> ps_rest (skip_ws p0) = []"
  | (assigned) key p1 v p3 where "parse_ident (skip_ws p0) = Inr (key, p1)"
      "peek (skip_ws p1) = Some ''=''"
      "parse_value n (snd (advance (skip_ws p1))) = Some (Inr (v, p3))"
      "parse_properties n (add_assigned key v (ps_line (skip_ws p0)) props) (skip_semicolon p3) = Some (Inr (r, q))"
  | (nested) key p1 bp p3 props' where "parse_ident (skip_ws p0) = Inr (key, p1)"
      "peek (skip_ws p1) = Some ''{''"
      "parse_block_value n (skip_ws p1) = Some (Inr (bp, p3))"
      "add_block key bp (ps_line (skip_ws p0)) props = Inr props'"
      "parse_properties n props' p3 = Some (Inr (r, q))"
proof (cases "peek (skip_ws p0) = Some ''}'' \<or> ps_rest (skip_ws p0) = []")
  case True
  then show ?thesis using assms by (auto simp: Let_def intro: ended)
next
  case False
  then obtain key p1 where k: "parse_ident (skip_ws p0) = Inr (key, p1)"
    using assms by (cases "parse_ident (skip_ws p0)") (auto simp: Let_def)
  consider "peek (skip_ws p1) = Some ''=''" | "peek (skip_ws p1) = Some ''{''"
    using assms False k by (auto simp: Let_def split: if_splits)
  then show ?thesis
  proof cases
    case 1
    then show ?thesis
      using assms False k by (auto simp: Let_def obind_Inr_iff intro: assigned)
  next
    case 2
    then show ?thesis
      using assms False k by (auto simp: Let_def obind_Inr_iff intro: nested)
  qed
qed

lemma parse_value_block:
  "peek (skip_ws p) = Some ''{'' \<Longrightarrow>
   parse_value (Suc n) p = obind (parse_block_value n (skip_ws p)) (\<lambda>(props, q). Some (Inr (PBlock props, q)))"
  by (simp add: is_digit_def)

lemma parse_value_cases:
  assumes "parse_value (Suc n) p = Some (Inr (v, q))"
  obtains (string) s where "parse_string (skip_ws p) = Inr (s, q)" "v = PString s"
  | (number) "parse_number (skip_ws p) = Inr (v, q)"
  | (bool) "parse_bool (skip_ws p) = Inr (v, q)"
  | (secret) "starts_with (remaining (skip_ws p)) ''secret(''" "parse_secret (skip_ws p) = Inr (v, q)"
  | (block) bp where "peek (skip_ws p) = Some ''{''" "parse_block_value n (skip_ws p) = Some (Inr (bp, q))" "v = PBlock bp"
  using assms
  by (auto simp: Let_def obind_Inr_iff and_then_Inr_iff split: option.splits if_splits prod.splits)

lemma parse_moved:
  "parse_value n p = Some (Inr (v, q)) \<Longrightarrow> moved p q"
  "parse_block_value n p = Some (Inr (b, q)) \<Longrightarrow> moved1 p q"
  "parse_properties n props p = Some (Inr (r, q)) \<Longrightarrow> moved p q"
proof (induction n arbitrary: p v b q props r)
  case (Suc n)
  {
    case 1
    then show ?case
    proof (cases rule: parse_value_cases)
      case string
      then show ?thesis using moved_trans [OF skip_ws_moved] moved1_imp parse_string_ok(1) by blast
    next
      case number
      then show ?thesis using moved_trans [OF skip_ws_moved] parse_number_moved by blast
    next
      case bool
      then show ?thesis using moved_trans [OF skip_ws_moved] parse_bool_moved by blast
    next
      case secret
      then show ?thesis using moved_trans [OF skip_ws_moved] parse_secret_moved by blast
    next
      case block
      then show ?thesis using moved_trans [OF skip_ws_moved] moved1_imp Suc.IH(2) by blast
    qed
  next
    case 2
    then obtain p1 p2 where p1: "expect_char (CHR ''{'') p = Inr p1"
      and p2: "parse_properties n [] p1 = Some (Inr (b, p2))" and p3: "expect_char (CHR ''}'') p2 = Inr q"
      by (auto simp: obind_Inr_iff)
    show ?case
      using expect_char_moved [OF p1] Suc.IH(3) [OF p2] expect_char_moved [OF p3] moved1_moved moved1_trans
      by blast
  next
    case 3
    then show ?case
    proof (cases rule: parse_properties_cases)
      case (assigned key p1 v p3)
      have "moved p p1" using assigned(1) moved_trans [OF skip_ws_moved] moved1_imp parse_ident_ok(1) by blast
      also have "moved p1 (snd (advance (skip_ws p1)))"
        by (rule moved_trans [OF skip_ws_moved moved1_imp [OF advance_single [OF assigned(2)]]])
      also have "moved \<dots> p3" by (rule Suc.IH(1) [OF assigned(3)])
      also have "moved p3 (skip_semicolon p3)" by (rule skip_semicolon_moved)
      also have "moved \<dots> q" by (rule Suc.IH(3) [OF assigned(4)])
      finally show ?thesis .
    next
      case (nested key p1 bp p3 props')
      have "moved p p1" using nested(1) moved_trans [OF skip_ws_moved] moved1_imp parse_ident_ok(1) by blast
      also have "moved p1 p3" by (rule moved_trans [OF skip_ws_moved moved1_imp [OF Suc.IH(2) [OF nested(3)]]])
      also have "moved p3 q" by (rule Suc.IH(3) [OF nested(5)])
      finally show ?thesis .
    qed simp
  }
qed simp_all

section \<open>The parser returns\<close>

lemma parse_fuel:
  "3 * length (ps_rest p) + 2 \<le> n \<Longrightarrow> \<exists>x. parse_value n p = Some x"
  "3 * length (ps_rest p) + 1 \<le> n \<Longrightarrow> \<exists>x. parse_block_value n p = Some x"
  "3 * length (ps_rest p) + 1 \<le> n \<Longrightarrow> \<exists>x. parse_properties n props p = Some x"
proof (induction n arbitrary: p props)
  case (Suc n)
  {
    case 1
    have "length (ps_rest (skip_ws p)) \<le> length (ps_rest p)" by (simp add: moved_length)
    then have "3 * length (ps_rest (skip_ws p)) + 1 \<le> n" using 1 by simp
    then have "\<exists>x. parse_block_value n (skip_ws p) = Some x" by (rule Suc.IH(2))
    then have "\<exists>x. obind (parse_block_value n (skip_ws p)) (\<lambda>(props, q). Some (Inr (PBlock props, q))) = Some x"
      by (rule obind_returns) auto
    then show ?case by (auto simp: Let_def split: option.splits)
  next
    case 2
    show ?case unfolding parse_block_value.simps
    proof (rule obind_returns)
      fix p1 assume "Some (expect_char (CHR ''{'') p) = Some (Inr p1)"
      then have "length (ps_rest p1) < length (ps_rest p)" by (simp add: expect_char_moved moved1_length)
      then have "3 * length (ps_rest p1) + 1 \<le> n" using 2 by simp
      then have "\<exists>x. parse_properties n [] p1 = Some x" by (rule Suc.IH(3))
      then show "\<exists>y. obind (parse_properties n [] p1) (\<lambda>(props, p2).
          obind (Some (expect_char (CHR ''}'') p2)) (\<lambda>p3. Some (Inr (props, p3)))) = Some y"
        by (rule obind_returns) (auto intro!: obind_returns)
    qed simp
  next
    case 3
    show ?case
    proof (cases "peek (skip_ws p) = Some ''}'' \<or> peek (skip_ws p) = None \<or> (\<exists>e. parse_ident (skip_ws p) = Inl e)")
      case False
      then obtain key p1 where k: "parse_ident (skip_ws p) = Inr (key, p1)"
        by (cases "parse_ident (skip_ws p)") auto
      let ?p2 = "skip_ws p1"
      have l: "length (ps_rest p1) < length (ps_rest p)"
        using parse_ident_ok(1) [OF k] moved_moved1 [OF skip_ws_moved] moved1_length by blast
      have l2: "length (ps_rest ?p2) \<le> length (ps_rest p1)" by (simp add: moved_length)
      have loop: "\<exists>x. parse_properties n ps q = Some x" if "length (ps_rest q) \<le> length (ps_rest p1)" for ps q
        by (rule Suc.IH(3)) (use that l 3 in linarith)
      have A: "\<exists>y. obind (parse_value n (snd (advance ?p2))) (\<lambda>(v, p3).
          parse_properties n (add_assigned key v (ps_line (skip_ws p)) props) (skip_semicolon p3)) = Some y"
        if c: "peek ?p2 = Some ''=''"
      proof (rule obind_returns)
        have a: "length (ps_rest (snd (advance ?p2))) < length (ps_rest ?p2)"
          by (rule moved1_length [OF advance_single [OF c]])
        show "\<exists>x. parse_value n (snd (advance ?p2)) = Some x"
          by (rule Suc.IH(1)) (use a l l2 3 in linarith)
        fix r assume r: "parse_value n (snd (advance ?p2)) = Some (Inr r)"
        obtain v p3 where vp: "r = (v, p3)" by fastforce
        have m: "length (ps_rest p3) \<le> length (ps_rest (snd (advance ?p2)))"
          using r vp parse_moved(1) moved_length by blast
        have m2: "length (ps_rest (skip_semicolon p3)) \<le> length (ps_rest p3)"
          by (rule moved_length [OF skip_semicolon_moved])
        have "length (ps_rest (skip_semicolon p3)) \<le> length (ps_rest p1)" using m m2 a l2 by linarith
        from loop [OF this] show "\<exists>y. (case r of (v, p3) \<Rightarrow>
            parse_properties n (add_assigned key v (ps_line (skip_ws p)) props) (skip_semicolon p3)) = Some y"
          by (simp add: vp)
      qed
      have B: "\<exists>y. obind (parse_block_value n ?p2) (\<lambda>(bp, p3).
          obind (Some (add_block key bp (ps_line (skip_ws p)) props)) (\<lambda>props'. parse_properties n props' p3)) = Some y"
      proof (rule obind_returns)
        show "\<exists>x. parse_block_value n ?p2 = Some x"
          by (rule Suc.IH(2)) (use l l2 3 in linarith)
        fix r assume r: "parse_block_value n ?p2 = Some (Inr r)"
        obtain v p3 where vp: "r = (v, p3)" by fastforce
        have "length (ps_rest p3) < length (ps_rest ?p2)" using r vp parse_moved(2) moved1_length by blast
        then have "length (ps_rest p3) \<le> length (ps_rest p1)" using l2 by linarith
        then show "\<exists>y. (case r of (bp, p3) \<Rightarrow>
          obind (Some (add_block key bp (ps_line (skip_ws p)) props)) (\<lambda>props'. parse_properties n props' p3)) = Some y"
          unfolding vp prod.case by (intro obind_returns loop) auto
      qed
      from A B False k show ?thesis by (auto simp: Let_def)
    qed (auto simp: Let_def)
  }
qed simp_all

lemma parse_resource_moved:
  assumes "parse_resource p = Some (Inr (r, q))"
  shows "moved1 p q"
proof -
  obtain t p1 n p2 p3 ps p4 where
    1: "parse_ident p = Inr (t, p1)" and 2: "parse_string p1 = Inr (n, p2)" and
    3: "expect_char (CHR ''{'') p2 = Inr p3" and 4: "parse_properties (fuel_for p3) [] p3 = Some (Inr (ps, p4))" and
    5: "expect_char (CHR ''}'') p4 = Inr q"
    using assms by (auto simp: parse_resource_def obind_Inr_iff split: prod.splits)
  show ?thesis
    using parse_ident_ok(1) [OF 1] parse_string_ok(1) [OF 2] expect_char_moved [OF 3] parse_moved(3) [OF 4]
      expect_char_moved [OF 5] moved1_trans moved1_moved by meson
qed

lemma fuel_for_suffices: "\<exists>x. parse_properties (fuel_for p) props p = Some x"
  by (rule parse_fuel(3)) (simp add: fuel_for_def)

lemma parse_resource_returns: "\<exists>x. parse_resource p = Some x"
  unfolding parse_resource_def
  by (intro obind_returns) (auto intro!: obind_returns fuel_for_suffices)

lemma parse_resources_returns: "length (ps_rest p) < n \<Longrightarrow> \<exists>x. parse_resources n acc p = Some x"
proof (induction n arbitrary: acc p)
  case (Suc n)
  have l: "length (ps_rest (skip_ws p)) \<le> length (ps_rest p)" by (simp add: moved_length)
  have "\<exists>y. obind (parse_resource (skip_ws p)) (\<lambda>(r, q). parse_resources n (acc @ [r]) q) = Some y"
  proof (rule obind_returns [OF parse_resource_returns])
    fix a assume a: "parse_resource (skip_ws p) = Some (Inr a)"
    obtain r q where rq: "a = (r, q)" by fastforce
    then have "length (ps_rest q) < length (ps_rest (skip_ws p))"
      using a parse_resource_moved moved1_length by blast
    then have "length (ps_rest q) < n" using l Suc.prems by linarith
    from Suc.IH [OF this] show "\<exists>y. (case a of (r, q) \<Rightarrow> parse_resources n (acc @ [r]) q) = Some y"
      by (simp add: rq)
  qed
  then show ?case by (simp add: Let_def)
qed simp

lemma parse_returns: "\<exists>r. parse source path = Some r"
  unfolding parse_def parse_file_def
  by (rule obind_returns [OF parse_resources_returns]) simp_all

section \<open>Shape of the syntax tree\<close>

text \<open>Keys are identifiers and are distinct within a block, strings hold no quote, and a repeated
  block has at least two members.\<close>

definition is_ident :: "string \<Rightarrow> bool" where
  "is_ident s \<longleftrightarrow> s \<noteq> [] \<and> is_ascii_alphabetic (hd s) \<and> list_all ident_char s"

fun wf_value :: "property_value \<Rightarrow> bool" and wf_property :: "property \<Rightarrow> bool" where
  "wf_value (PString s) \<longleftrightarrow> dquote \<notin> set s"
| "wf_value (PNumber n) \<longleftrightarrow> True"
| "wf_value (PBool b) \<longleftrightarrow> True"
| "wf_value (PSecret s) \<longleftrightarrow> dquote \<notin> set s"
| "wf_value (PBlock ps) \<longleftrightarrow> distinct (map p_key ps) \<and> (\<forall>p \<in> set ps. wf_property p)"
| "wf_value (PBlocks bs) \<longleftrightarrow>
     2 \<le> length bs \<and> (\<forall>ps \<in> set bs. distinct (map p_key ps) \<and> (\<forall>p \<in> set ps. wf_property p))"
| "wf_property (Property k v l) \<longleftrightarrow> is_ident k \<and> wf_value v"

definition wf_props :: "property list \<Rightarrow> bool" where
  "wf_props ps \<longleftrightarrow> distinct (map p_key ps) \<and> (\<forall>p \<in> set ps. wf_property p)"

lemma wf_property_iff: "wf_property p \<longleftrightarrow> is_ident (p_key p) \<and> wf_value (p_value p)"
  by (cases p) simp

lemma wf_value_props [simp]:
  "wf_value (PBlock ps) \<longleftrightarrow> wf_props ps"
  "wf_value (PBlocks bs) \<longleftrightarrow> 2 \<le> length bs \<and> (\<forall>ps \<in> set bs. wf_props ps)"
  by (simp_all add: wf_props_def)

declare wf_value.simps(5,6) [simp del]

lemma keys_set_value [simp]: "map p_key (set_value k v ps) = map p_key ps"
  by (induction ps) auto

lemma set_set_value: "q \<in> set (set_value k v ps) \<Longrightarrow> q \<in> set ps \<or> (p_key q = k \<and> p_value q = v)"
  by (induction ps) (auto split: if_splits)

lemma find_key_None: "find_key k ps = None \<longleftrightarrow> k \<notin> p_key ` set ps"
  by (auto simp: find_key_def find_None_iff)

lemma find_key_Some: "find_key k ps = Some p \<Longrightarrow> p \<in> set ps \<and> p_key p = k"
  unfolding find_key_def by (induction ps) (auto split: if_splits)

lemma wf_props_set_value:
  assumes "wf_props ps" "is_ident k" "wf_value v"
  shows "wf_props (set_value k v ps)"
proof -
  have "wf_property q" if "q \<in> set (set_value k v ps)" for q
    using set_set_value [OF that] assms by (auto simp: wf_props_def wf_property_iff)
  then show ?thesis using assms(1) by (simp add: wf_props_def)
qed

lemma wf_props_snoc:
  "wf_props ps \<Longrightarrow> find_key k ps = None \<Longrightarrow> is_ident k \<Longrightarrow> wf_value v \<Longrightarrow> wf_props (ps @ [Property k v l])"
  by (auto simp: wf_props_def find_key_None)

lemma wf_props_find: "wf_props ps \<Longrightarrow> find_key k ps = Some p \<Longrightarrow> wf_value (p_value p)"
  using find_key_Some by (fastforce simp: wf_props_def wf_property_iff)

lemma wf_add_assigned:
  assumes "wf_props ps" "is_ident k" "wf_value v"
  shows "wf_props (add_assigned k v l ps)"
proof (cases "find_key k ps")
  case None
  then show ?thesis using assms by (simp add: add_assigned_def wf_props_snoc)
next
  case (Some p)
  have w: "wf_value (p_value p)" by (rule wf_props_find [OF assms(1) Some])
  show ?thesis
    using assms w unfolding add_assigned_def Some
    by (auto intro!: wf_props_set_value split: property_value.splits)
qed

lemma wf_add_block:
  assumes "wf_props ps" "is_ident k" "wf_props bp" "add_block k bp l ps = Inr ps'"
  shows "wf_props ps'"
proof (cases "find_key k ps")
  case None
  then show ?thesis using assms by (auto simp: add_block_def intro!: wf_props_snoc)
next
  case (Some p)
  have w: "wf_value (p_value p)" by (rule wf_props_find [OF assms(1) Some])
  show ?thesis
    using assms w unfolding add_block_def Some
    by (cases "p_value p") (auto intro!: wf_props_set_value)
qed

lemma wf_parse_secret: "parse_secret p = Inr (v, q) \<Longrightarrow> wf_value v"
  using parse_string_ok(2) by (fastforce simp: parse_secret_def and_then_Inr_iff split: prod.splits)

lemma wf_parse_number: "parse_number p = Inr (v, q) \<Longrightarrow> wf_value v"
  by (auto simp: parse_number_def Let_def split: option.splits)

lemma wf_parse_bool: "parse_bool p = Inr (v, q) \<Longrightarrow> wf_value v"
  by (auto simp: parse_bool_def split: if_splits)

lemma parse_ident_is_ident: "parse_ident p = Inr (i, q) \<Longrightarrow> is_ident i"
  using parse_ident_ok(3-5) by (simp add: is_ident_def)

lemma wf_parse:
  "parse_value n p = Some (Inr (v, q)) \<Longrightarrow> wf_value v"
  "parse_block_value n p = Some (Inr (b, q)) \<Longrightarrow> wf_props b"
  "parse_properties n props p = Some (Inr (r, q)) \<Longrightarrow> wf_props props \<Longrightarrow> wf_props r"
proof (induction n arbitrary: p v b q props r)
  case (Suc n)
  {
    case 1
    then show ?case
    proof (cases rule: parse_value_cases)
      case string
      then show ?thesis using parse_string_ok(2) by auto
    qed (auto dest: wf_parse_number wf_parse_bool wf_parse_secret Suc.IH(2))
  next
    case 2
    then obtain p1 p2 where "parse_properties n [] p1 = Some (Inr (b, p2))"
      by (auto simp: obind_Inr_iff)
    then show ?case by (rule Suc.IH(3)) (simp add: wf_props_def)
  next
    case 3
    from 3(1) show ?case
    proof (cases rule: parse_properties_cases)
      case ended
      then show ?thesis using 3(2) by simp
    next
      case (assigned key p1 v p3)
      show ?thesis
        by (rule Suc.IH(3) [OF assigned(4)])
          (rule wf_add_assigned [OF 3(2) parse_ident_is_ident [OF assigned(1)] Suc.IH(1) [OF assigned(3)]])
    next
      case (nested key p1 bp p3 props')
      show ?thesis
        by (rule Suc.IH(3) [OF nested(5)])
          (rule wf_add_block [OF 3(2) parse_ident_is_ident [OF nested(1)] Suc.IH(2) [OF nested(3)] nested(4)])
    qed
  }
qed simp_all

section \<open>Resources\<close>

definition wf_resource :: "resource_decl \<Rightarrow> bool" where
  "wf_resource r \<longleftrightarrow> is_ident (rd_resource_type r) \<and> dquote \<notin> set (rd_name r) \<and> wf_props (rd_properties r)"

text \<open>The declaration starts at a state of the parse, and its line is the one counted there.\<close>

definition found_from :: "parser \<Rightarrow> resource_decl \<Rightarrow> bool" where
  "found_from p r \<longleftrightarrow>
     (\<exists>u v. ps_rest p = u @ rd_resource_type r @ v \<and> rd_line r = ps_line p + count_list u newline)"

lemma found_from_moved:
  assumes "moved p q" "found_from q r"
  shows "found_from p r"
proof -
  obtain u where u: "ps_rest p = u @ ps_rest q" "ps_line q = ps_line p + count_list u newline"
    using assms(1) by (auto simp: moved_def)
  obtain w v where v: "ps_rest q = w @ rd_resource_type r @ v" "rd_line r = ps_line q + count_list w newline"
    using assms(2) by (auto simp: found_from_def)
  show ?thesis unfolding found_from_def
    by (intro exI [of _ "u @ w"] exI [of _ v]) (use u v in simp)
qed

lemma skip_ws_from_idem:
  "skip_ws_from s l = (t, m) \<Longrightarrow> skip_ws_from t m' = (t, m')"
  "skip_comment s l = (t, m) \<Longrightarrow> skip_ws_from t m' = (t, m')"
  by (induction s l and s l rule: skip_ws_from_skip_comment.induct) (auto split: if_splits)

lemma skip_ws_idem [simp]: "skip_ws (skip_ws p) = skip_ws p"
proof -
  obtain t m where s: "skip_ws_from (ps_rest p) (ps_line p) = (t, m)" by fastforce
  then show ?thesis by (simp add: skip_ws_def skip_ws_from_idem(1) [OF s])
qed

lemma parse_resource_ok:
  assumes "parse_resource (skip_ws p) = Some (Inr (r, q))"
  shows "wf_resource r" "found_from (skip_ws p) r"
proof -
  obtain t p1 n p2 p3 ps p4 where
    1: "parse_ident (skip_ws p) = Inr (t, p1)" and 2: "parse_string p1 = Inr (n, p2)" and
    4: "parse_properties (fuel_for p3) [] p3 = Some (Inr (ps, p4))" and
    r: "r = \<lparr>rd_resource_type = t, rd_name = n, rd_properties = ps, rd_line = ps_line (skip_ws p)\<rparr>"
    using assms by (auto simp: parse_resource_def obind_Inr_iff split: prod.splits)
  have "wf_props ps" by (rule wf_parse(3) [OF 4]) (simp add: wf_props_def)
  then show "wf_resource r"
    using parse_ident_is_ident [OF 1] parse_string_ok(2) [OF 2] by (simp add: wf_resource_def r)
  show "found_from (skip_ws p) r"
    unfolding found_from_def
    by (rule exI [of _ "[]"], rule exI [of _ "ps_rest p1"]) (use parse_ident_ok(2) [OF 1] in \<open>simp add: r\<close>)
qed

lemma parse_resources_ok:
  "parse_resources n acc p = Some (Inr rs) \<Longrightarrow>
   \<exists>new. rs = acc @ new \<and> (\<forall>r \<in> set new. wf_resource r \<and> found_from p r)"
proof (induction n arbitrary: acc p)
  case (Suc n)
  show ?case
  proof (cases "ps_rest (skip_ws p) = []")
    case True
    then show ?thesis using Suc.prems by (auto simp: Let_def)
  next
    case False
    then obtain r q where r: "parse_resource (skip_ws p) = Some (Inr (r, q))"
      and next_res: "parse_resources n (acc @ [r]) q = Some (Inr rs)"
      using Suc.prems by (auto simp: Let_def obind_Inr_iff)
    obtain new where new: "rs = (acc @ [r]) @ new" "\<forall>r \<in> set new. wf_resource r \<and> found_from q r"
      using Suc.IH [OF next_res] by blast
    have "moved (skip_ws p) q" by (rule moved1_imp [OF parse_resource_moved [OF r]])
    then have "moved p q" by (rule moved_trans [OF skip_ws_moved])
    then have "\<forall>x \<in> set (r # new). wf_resource x \<and> found_from p x"
      using new(2) parse_resource_ok [OF r] found_from_moved [of p q] found_from_moved [OF skip_ws_moved] by auto
    then show ?thesis using new(1) by (intro exI [of _ "r # new"]) simp
  qed
qed simp

lemma parse_file_resources:
  assumes "parse source path = Some (Inr f)"
  shows "pf_path f = path" "\<forall>r \<in> set (pf_resources f). wf_resource r \<and> found_from (parser_new source) r"
proof -
  obtain rs where rs: "parse_resources (Suc (length (ps_rest (parser_new source)))) [] (parser_new source) = Some (Inr rs)"
    and f: "f = \<lparr>pf_path = path, pf_resources = rs\<rparr>"
    using assms unfolding parse_def parse_file_def obind_Inr_iff by auto
  from parse_resources_ok [OF rs] show "\<forall>r \<in> set (pf_resources f). wf_resource r \<and> found_from (parser_new source) r"
    by (simp add: f)
  show "pf_path f = path" by (simp add: f)
qed

lemma found_from_new:
  "found_from (parser_new source) r \<longleftrightarrow>
   (\<exists>u v. source = u @ rd_resource_type r @ v \<and> rd_line r = Suc (count_list u newline))"
  by (simp add: found_from_def parser_new_def)

text \<open>C40. Every text is parsed to an end: the parser returns a file or an error. In a parsed file
  every resource type is an identifier and stands at the line the resource records, counting the
  newlines before it, comments and multi-line strings included; names and strings hold no quote; and
  within each block the keys are distinct identifiers, a repeated block having at least two members.\<close>

theorem parse_total_and_well_formed:
  "\<exists>r. parse source path = Some r \<and>
     (\<forall>f. r = Inr f \<longrightarrow> pf_path f = path \<and>
        (\<forall>d \<in> set (pf_resources f).
           is_ident (rd_resource_type d) \<and> dquote \<notin> set (rd_name d) \<and> wf_props (rd_properties d) \<and>
           (\<exists>u v. source = u @ rd_resource_type d @ v \<and> rd_line d = Suc (count_list u newline))))"
proof -
  obtain r where r: "parse source path = Some r" using parse_returns by blast
  show ?thesis
  proof (intro exI [of _ r] conjI r allI impI)
    fix f assume "r = Inr f"
    with r have f: "parse source path = Some (Inr f)" by simp
    show "pf_path f = path" by (rule parse_file_resources(1) [OF f])
    show "\<forall>d \<in> set (pf_resources f).
        is_ident (rd_resource_type d) \<and> dquote \<notin> set (rd_name d) \<and> wf_props (rd_properties d) \<and>
        (\<exists>u v. source = u @ rd_resource_type d @ v \<and> rd_line d = Suc (count_list u newline))"
      using parse_file_resources(2) [OF f] unfolding wf_resource_def found_from_new by blast
  qed
qed

theorem parse_total_and_well_formed_witness:
  "\<exists>f. parse (newline # ''group '' @ [dquote, CHR ''a'', dquote] @ ''{ }'') ''f'' = Some (Inr f) \<and>
     (\<forall>d \<in> set (pf_resources f). wf_props (rd_properties d) \<and>
        (\<exists>u v. newline # ''group '' @ [dquote, CHR ''a'', dquote] @ ''{ }'' = u @ rd_resource_type d @ v \<and>
           rd_line d = Suc (count_list u newline)))"
proof -
  let ?s = "newline # ''group '' @ [dquote, CHR ''a'', dquote] @ ''{ }''"
  have "parse ?s ''f'' = Some (Inr \<lparr>pf_path = ''f'', pf_resources =
      [\<lparr>rd_resource_type = ''group'', rd_name = ''a'', rd_properties = [], rd_line = 2\<rparr>]\<rparr>)"
    by code_simp
  with parse_total_and_well_formed [of ?s "''f''"] show ?thesis by auto
qed

end
