(* ===== verification/Turtle_Compiler.thy ===== *)
theory Turtle_Compiler
  imports Surface_Parser
begin

text \<open>
  The compiler from parsed \<open>.picloud\<close> files to Turtle (\<open>crates/picloud-compiler/src/compiler.rs\<close>) and
  the merger of the compiled files into one deployment graph (\<open>merger.rs\<close>). The Turtle writer is the
  list of its lines; the functions that take \<open>&mut TurtleWriter\<close> and always succeed return the lines
  they add. Printing of \<open>f64\<close> follows \<open>Display\<close>: the shortest decimal that rounds to the number,
  without exponent.
\<close>

section \<open>Printing numbers\<close>

definition f64_ratio :: "f64 \<Rightarrow> nat \<times> nat" where
  "f64_ratio n =
     (if 0 \<le> f_exp n then (f_mant n * 2 ^ nat (f_exp n), 1) else (f_mant n, 2 ^ nat (- f_exp n)))"

definition f64_as_i64 :: "f64 \<Rightarrow> int" where
  "f64_as_i64 n =
     (case n of
        Infinite neg \<Rightarrow> if neg then - (2 ^ 63) else 2 ^ 63 - 1
      | Finite neg m e \<Rightarrow>
          let (p, q) = f64_ratio n; t = int (p div q)
          in max (- (2 ^ 63)) (min (2 ^ 63 - 1) (if neg then - t else t)))"

definition i64_as_f64 :: "int \<Rightarrow> f64" where
  "i64_as_f64 i = round_f64 (i < 0) (nat (abs i)) 1"

definition f64_eq :: "f64 \<Rightarrow> f64 \<Rightarrow> bool" where
  "f64_eq a b =
     (case (a, b) of
        (Finite s m e, Finite s' m' e') \<Rightarrow>
          (m = 0 \<and> m' = 0) \<or>
          (s = s' \<and> m * 2 ^ nat (e - min e e') = m' * 2 ^ nat (e' - min e e'))
      | (Infinite s, Infinite s') \<Rightarrow> s = s'
      | _ \<Rightarrow> False)"

definition show_int :: "int \<Rightarrow> string" where
  "show_int i = (if i < 0 then ''-'' @ show_nat (nat (- i)) else show_nat (nat i))"

text \<open>The multiples of \<open>10 ^ x\<close> next to a positive \<open>p / q\<close> that round back to the number, the
  nearer one first.\<close>

definition decimal_at :: "f64 \<Rightarrow> nat \<Rightarrow> nat \<Rightarrow> int \<Rightarrow> nat option" where
  "decimal_at n p q x =
     (let (p', q') = (if 0 \<le> x then (p, q * 10 ^ nat x) else (p * 10 ^ nat (- x), q));
          lo = p' div q'; hi = lo + 1;
          back = (\<lambda>d. (if 0 \<le> x then round_f64 (f_neg n) (d * 10 ^ nat x) 1
                       else round_f64 (f_neg n) d (10 ^ nat (- x))) = n);
          order = (if 2 * (p' mod q') < q' then [lo, hi] else [hi, lo])
      in find back order)"

definition place_point :: "nat \<Rightarrow> int \<Rightarrow> string" where
  "place_point d x =
     (if 0 \<le> x then show_nat d @ replicate (nat x) (CHR ''0'')
      else
        let k = nat (- x); s = show_nat d;
            t = replicate (Suc k - length s) (CHR ''0'') @ s
        in take (length t - k) t @ ''.'' @ drop (length t - k) t)"

definition f64_display :: "f64 \<Rightarrow> string" where
  "f64_display n =
     (if f_neg n then ''-'' else []) @
     (case n of
        Infinite _ \<Rightarrow> ''inf''
      | Finite neg m e \<Rightarrow>
          if m = 0 then ''0''
          else
            let (p, q) = f64_ratio n in
            case find (\<lambda>x. decimal_at n p q x \<noteq> None) (rev [-330..309]) of
              None \<Rightarrow> []
            | Some x \<Rightarrow> (case decimal_at n p q x of None \<Rightarrow> [] | Some d \<Rightarrow> place_point d x))"

section \<open>IRIs of resources\<close>

definition string_property :: "string \<Rightarrow> property list \<Rightarrow> string option" where
  "string_property key props =
     (case find (\<lambda>p. p_key p = key) props of
        Some p \<Rightarrow> (case p_value p of PString s \<Rightarrow> Some s | _ \<Rightarrow> None)
      | None \<Rightarrow> None)"

text \<open>\<open>product.ok_or_else(...)\<close> with the message of each arm.\<close>

definition with_product :: "string \<Rightarrow> resource_decl \<Rightarrow> (string \<Rightarrow> string) \<Rightarrow> string result" where
  "with_product label r f =
     (case string_property ''product'' (rd_properties r) of
        None \<Rightarrow> Inl (ResourceValidationFailed
                 (label @ '' '' @ [squote] @ rd_name r @ [squote] @ '' missing required property: product''))
      | Some product \<Rightarrow> Inr (f product))"

definition resource_iri_of :: "cluster_domain \<Rightarrow> resource_decl \<Rightarrow> string result" where
  "resource_iri_of d r =
     (if rd_resource_type r = ''product'' then Inr (iri_product d (rd_name r))
      else if rd_resource_type r = ''container'' then with_product ''Container'' r (\<lambda>product. iri_resource d product ''containers'' (rd_name r))
      else if rd_resource_type r = ''volume'' then with_product ''Volume'' r (\<lambda>product. iri_resource d product ''volumes'' (rd_name r))
      else if rd_resource_type r = ''feature-flag'' then with_product ''FeatureFlag'' r (\<lambda>product. iri_feature_flag d product (rd_name r))
      else if rd_resource_type r = ''binary'' then with_product ''Binary'' r (\<lambda>product. iri_resource d product ''binaries'' (rd_name r))
      else if rd_resource_type r = ''rdf-store'' then with_product ''RdfStore'' r (\<lambda>product. iri_resource d product ''rdf-stores'' (rd_name r))
      else if rd_resource_type r = ''event-store'' then with_product ''EventStore'' r (\<lambda>product. iri_resource d product ''event-stores'' (rd_name r))
      else if rd_resource_type r = ''config'' then with_product ''Config'' r (\<lambda>product. iri_resource d product ''configs'' (rd_name r))
      else if rd_resource_type r = ''ingress'' then with_product ''Ingress'' r (\<lambda>product. iri_resource d product ''ingress'' (rd_name r))
      else if rd_resource_type r = ''ontology'' then with_product ''Ontology'' r (\<lambda>product. iri_resource d product ''ontologies'' (rd_name r))
      else if rd_resource_type r = ''inference-rule'' then with_product ''InferenceRule'' r (\<lambda>product. iri_resource d product ''inference-rules'' (rd_name r))
      else if rd_resource_type r = ''group'' then Inr (iri_group d (rd_name r))
      else if rd_resource_type r = ''event-subscription'' then with_product ''EventSubscription'' r (\<lambda>product. iri_resource d product ''event-subscriptions'' (rd_name r))
      else if rd_resource_type r = ''role'' then with_product ''Role'' r (\<lambda>product. iri_resource d product ''roles'' (rd_name r))
      else if rd_resource_type r = ''scope'' then with_product ''Scope'' r (\<lambda>product. iri_resource d product ''scopes'' (rd_name r))
      else if rd_resource_type r = ''m2m-permission'' then with_product ''M2mPermission'' r (\<lambda>product. iri_resource d product ''m2m-permissions'' (rd_name r))
      else if rd_resource_type r = ''capability'' then Inr (iri_cluster_resource d ''capabilities'' (rd_name r))
      else if rd_resource_type r = ''data-domain'' then Inr (iri_cluster_resource d ''data-domains'' (rd_name r))
      else if rd_resource_type r = ''data-product'' then with_product ''DataProduct'' r (\<lambda>product. iri_resource d product ''data-products'' (rd_name r))
      else Inl (ResourceValidationFailed (''Unknown resource type: '' @ [squote] @ rd_resource_type r @ [squote])))"

section \<open>Turtle\<close>

definition resource_rdf_type :: "string \<Rightarrow> string" where
  "resource_rdf_type resource_type =
     (if resource_type = ''product'' then ''Product''
      else if resource_type = ''container'' then ''Container''
      else if resource_type = ''volume'' then ''Volume''
      else if resource_type = ''binary'' then ''Binary''
      else if resource_type = ''rdf-store'' then ''RdfStore''
      else if resource_type = ''event-store'' then ''EventStore''
      else if resource_type = ''feature-flag'' then ''FeatureFlag''
      else if resource_type = ''inference-rule'' then ''InferenceRule''
      else if resource_type = ''ingress'' then ''Ingress''
      else if resource_type = ''config'' then ''ConfigStore''
      else if resource_type = ''ontology'' then ''Ontology''
      else if resource_type = ''group'' then ''Group''
      else if resource_type = ''event-subscription'' then ''EventSubscription''
      else if resource_type = ''role'' then ''ProductRole''
      else if resource_type = ''scope'' then ''ProductScope''
      else if resource_type = ''m2m-permission'' then ''M2mPermission''
      else if resource_type = ''capability'' then ''Capability''
      else if resource_type = ''data-domain'' then ''DataDomain''
      else if resource_type = ''data-product'' then ''DataProduct''
      else ''Resource'')"

definition is_collection_type :: "string \<Rightarrow> bool" where
  "is_collection_type key \<longleftrightarrow> key \<in> {''mount'', ''tag'', ''port'', ''env''}"

definition nested_rdf_type :: "string \<Rightarrow> string option" where
  "nested_rdf_type key =
     (if key = ''snapshots'' then Some ''SnapshotConfig''
      else if key = ''retention'' then Some ''SnapshotRetention''
      else if key = ''offsite'' then Some ''OffsiteBackupConfig''
      else if key = ''mount'' then Some ''VolumeMount''
      else if key = ''tag'' then Some ''Tag''
      else if key = ''otel'' then Some ''OtelConfig''
      else if key = ''resources'' then Some ''ResourceLimits''
      else if key = ''freshness'' then Some ''FreshnessConfig''
      else if key = ''access'' then Some ''DataProductAccess''
      else if key = ''events'' then Some ''CapabilityEvents''
      else None)"

definition to_ascii_uppercase :: "char \<Rightarrow> char" where
  "to_ascii_uppercase c = (let b = (of_char c :: nat) in if 97 \<le> b \<and> b \<le> 122 then char_of (b - 32) else c)"

fun camel_from :: "bool \<Rightarrow> string \<Rightarrow> string" where
  "camel_from capitalise [] = []"
| "camel_from capitalise (c # s) =
     (if c = CHR ''-'' then camel_from True s
      else if capitalise then to_ascii_uppercase c # camel_from False s
      else c # camel_from False s)"

definition camel :: "string \<Rightarrow> string" where
  "camel s = camel_from False s"

definition prefix_line :: "string \<Rightarrow> string \<Rightarrow> string" where
  "prefix_line pre iri = ''@prefix '' @ pre @ '': <'' @ iri @ ''> .''"

definition triple_raw :: "string \<Rightarrow> string \<Rightarrow> string \<Rightarrow> string" where
  "triple_raw subject predicate obj = subject @ '' '' @ predicate @ '' '' @ obj @ '' .''"

definition triple :: "string \<Rightarrow> string \<Rightarrow> string \<Rightarrow> string" where
  "triple subject predicate obj =
     (if starts_with subject ''http'' then triple_raw (''<'' @ subject @ ''>'') predicate obj
      else triple_raw subject predicate obj)"

definition pc :: "string \<Rightarrow> string" where
  "pc key = ''pc:'' @ camel key"

definition block_key :: "string \<Rightarrow> property list \<Rightarrow> string" where
  "block_key fallback props =
     (case find (\<lambda>p. p_key p = ''key'' \<or> p_key p = ''volume'' \<or> p_key p = ''name'') props of
        Some p \<Rightarrow> (case p_value p of PString s \<Rightarrow> s | _ \<Rightarrow> fallback)
      | None \<Rightarrow> fallback)"

definition nested_header :: "string \<Rightarrow> string \<Rightarrow> string \<Rightarrow> string list" where
  "nested_header parent key nested_iri =
     [triple parent (pc key) (''<'' @ nested_iri @ ''>'')]
     @ (case nested_rdf_type key of
          Some t \<Rightarrow> [triple_raw (''<'' @ nested_iri @ ''>'') ''a'' (''pc:'' @ t)]
        | None \<Rightarrow> [])"

function compile_property :: "string \<Rightarrow> string \<Rightarrow> property_value \<Rightarrow> string list" where
  "compile_property parent key (PString s) = [triple parent (pc key) ([dquote] @ s @ [dquote])]"
| "compile_property parent key (PNumber n) =
     [triple parent (pc key)
        (if f64_eq n (i64_as_f64 (f64_as_i64 n)) then show_int (f64_as_i64 n) else f64_display n)]"
| "compile_property parent key (PBool b) = [triple parent (pc key) (if b then ''true'' else ''false'')]"
| "compile_property parent key (PSecret s) = [triple parent (pc key) ([dquote] @ ''secret:'' @ s @ [dquote])]"
| "compile_property parent key (PBlock props) =
     (let nested_iri = (if is_collection_type key then parent @ ''/'' @ key @ ''s/'' @ block_key ''0'' props
                        else parent @ ''/'' @ key)
      in nested_header parent key nested_iri
         @ concat (map (\<lambda>p. compile_property nested_iri (p_key p) (p_value p)) props) @ [[]])"
| "compile_property parent key (PBlocks blocks) =
     concat (map (\<lambda>(i, props).
       let nested_iri = parent @ ''/'' @ key @ ''s/'' @ block_key (show_nat i) props
       in nested_header parent key nested_iri
          @ concat (map (\<lambda>p. compile_property nested_iri (p_key p) (p_value p)) props) @ [[]])
       (enumerate 0 blocks))"
  by pat_completeness auto

lemma size_in_props: "p \<in> set props \<Longrightarrow> size (p_value p) < size (PBlock props)"
proof (induction props)
  case (Cons q props)
  then show ?case by (cases q) auto
qed simp

lemma size_in_blocks: "props \<in> set blocks \<Longrightarrow> size (PBlock props) \<le> size (PBlocks blocks)"
  by (induction blocks) auto

lemma size_in_enumerated:
  "(i, props) \<in> set (enumerate k blocks) \<Longrightarrow> p \<in> set props \<Longrightarrow> size (p_value p) < size (PBlocks blocks)"
  using size_in_props size_in_blocks
  by (metis (no_types, lifting) enumerate_eq_zip in_set_zipE less_le_trans)

termination compile_property
  by (relation "measure (\<lambda>(_, _, v). size v)") (auto dest: size_in_props size_in_enumerated)

definition compile_resource :: "resource_decl \<Rightarrow> string \<Rightarrow> string list" where
  "compile_resource r iri =
     [triple iri ''a'' (''pc:'' @ resource_rdf_type (rd_resource_type r))]
     @ concat (map (\<lambda>p. compile_property iri (p_key p) (p_value p)) (rd_properties r)) @ [[]]"

record compile_result =
  cr_turtle :: string
  cr_declared_iris :: "string list"

fun compile_resources :: "cluster_domain \<Rightarrow> resource_decl list \<Rightarrow> (string list \<times> string list) result" where
  "compile_resources d [] = Inr ([], [])"
| "compile_resources d (r # rs) =
     and_then (resource_iri_of d r) (\<lambda>iri.
     and_then (compile_resources d rs) (\<lambda>(iris, ls). Inr (iri # iris, compile_resource r iri @ ls)))"

definition compile :: "parsed_file \<Rightarrow> cluster_domain \<Rightarrow> compile_result result" where
  "compile f d =
     and_then (compile_resources d (pf_resources f)) (\<lambda>(iris, ls).
       Inr \<lparr>cr_turtle = join [newline]
              ([prefix_line ''pc'' ''https://picloud.local/ontology#'',
                prefix_line ''xsd'' ''http://www.w3.org/2001/XMLSchema#''] @ ls),
            cr_declared_iris = iris\<rparr>)"

section \<open>Merging\<close>

record raw_ttl_file =
  rt_path :: string
  rt_content :: string

record deployment_graph =
  dg_turtle :: string
  dg_declared_iris :: "string list"
  dg_sources :: "string list"

fun duplicates_from :: "string list \<Rightarrow> string list \<Rightarrow> string list" where
  "duplicates_from seen [] = []"
| "duplicates_from seen (iri # iris) =
     (if iri \<in> set seen then iri # duplicates_from seen iris else duplicates_from (iri # seen) iris)"

definition merge :: "compile_result list \<Rightarrow> raw_ttl_file list \<Rightarrow> deployment_graph result" where
  "merge compiled raw_ttl =
     (let all_turtle = map cr_turtle compiled @ map rt_content raw_ttl;
          declared_iris = concat (map cr_declared_iris compiled);
          duplicates = duplicates_from [] declared_iris
      in if duplicates \<noteq> []
         then Inl (ResourceValidationFailed
                (''Duplicate resource IRIs found across files: '' @ join '', '' duplicates))
         else Inr \<lparr>dg_turtle = join [newline, newline] all_turtle, dg_declared_iris = declared_iris,
                   dg_sources = map rt_path raw_ttl\<rparr>)"

section \<open>IRIs identify resources\<close>

text \<open>The resource types that live under a product, with the path segment of their IRIs.\<close>

definition product_scoped :: "(string \<times> string) list" where
  "product_scoped =
     [(''container'', ''containers''), (''volume'', ''volumes''), (''feature-flag'', ''flags''),
      (''binary'', ''binaries''), (''rdf-store'', ''rdf-stores''), (''event-store'', ''event-stores''),
      (''config'', ''configs''), (''ingress'', ''ingress''), (''ontology'', ''ontologies''),
      (''inference-rule'', ''inference-rules''), (''event-subscription'', ''event-subscriptions''),
      (''role'', ''roles''), (''scope'', ''scopes''), (''m2m-permission'', ''m2m-permissions''),
      (''data-product'', ''data-products'')]"

definition cluster_scoped :: "(string \<times> string) list" where
  "cluster_scoped =
     [(''product'', ''products''), (''group'', ''groups''), (''capability'', ''capabilities''),
      (''data-domain'', ''data-domains'')]"

text \<open>What a resource is: its type, its product when the type has one, and its name.\<close>

definition resource_id :: "resource_decl \<Rightarrow> string \<times> string option \<times> string" where
  "resource_id r =
     (rd_resource_type r,
      if rd_resource_type r \<in> fst ` set product_scoped then string_property ''product'' (rd_properties r) else None,
      rd_name r)"

lemma with_product_Inr:
  "with_product lab r f = Inr i \<longleftrightarrow> (\<exists>p. string_property ''product'' (rd_properties r) = Some p \<and> i = f p)"
  by (auto simp: with_product_def split: option.splits)

lemma resource_iri_of_cases:
  assumes "resource_iri_of d r = Inr i"
  obtains (cluster) seg where "(rd_resource_type r, seg) \<in> set cluster_scoped"
      "i = ''https://'' @ d @ ''/'' @ seg @ ''/'' @ rd_name r"
  | (scoped) p seg where "(rd_resource_type r, seg) \<in> set product_scoped"
      "string_property ''product'' (rd_properties r) = Some p"
      "i = ''https://'' @ d @ ''/products/'' @ p @ ''/'' @ seg @ ''/'' @ rd_name r"
proof -
  have "(\<exists>seg. (rd_resource_type r, seg) \<in> set cluster_scoped \<and> i = ''https://'' @ d @ ''/'' @ seg @ ''/'' @ rd_name r) \<or>
        (\<exists>p seg. (rd_resource_type r, seg) \<in> set product_scoped \<and>
           string_property ''product'' (rd_properties r) = Some p \<and>
           i = ''https://'' @ d @ ''/products/'' @ p @ ''/'' @ seg @ ''/'' @ rd_name r)"
    using assms unfolding resource_iri_of_def
    by (simp only: with_product_Inr sum.inject iri_product_def iri_resource_def iri_group_def iri_feature_flag_def
          iri_cluster_resource_def product_scoped_def cluster_scoped_def split: if_split_asm)
       (auto)
  then show thesis using cluster scoped by blast
qed

lemma scoped_segments:
  "(t, seg) \<in> set product_scoped \<Longrightarrow> slash \<notin> set seg"
  "(t, seg) \<in> set cluster_scoped \<Longrightarrow> slash \<notin> set seg"
  by (auto simp: product_scoped_def cluster_scoped_def)

lemma distinct_scoped: "distinct (map fst product_scoped)" "distinct (map fst cluster_scoped)"
  by (simp_all add: product_scoped_def cluster_scoped_def)

lemma segment_types:
  "(t, seg) \<in> set product_scoped \<Longrightarrow> (u, seg) \<in> set product_scoped \<Longrightarrow> t = u"
  "(t, seg) \<in> set cluster_scoped \<Longrightarrow> (u, seg) \<in> set cluster_scoped \<Longrightarrow> t = u"
  by (auto simp: product_scoped_def cluster_scoped_def)

lemma segment_iff_type:
  "(t, a) \<in> set product_scoped \<Longrightarrow> (u, b) \<in> set product_scoped \<Longrightarrow> a = b \<longleftrightarrow> t = u"
  "(t, a) \<in> set cluster_scoped \<Longrightarrow> (u, b) \<in> set cluster_scoped \<Longrightarrow> a = b \<longleftrightarrow> t = u"
  using segment_types eq_key_imp_eq_value [OF distinct_scoped(1)] eq_key_imp_eq_value [OF distinct_scoped(2)]
  by metis+

lemma cluster_not_scoped: "(t, seg) \<in> set cluster_scoped \<Longrightarrow> t \<notin> fst ` set product_scoped"
  by (auto simp: product_scoped_def cluster_scoped_def)

definition slash_free :: "resource_decl \<Rightarrow> bool" where
  "slash_free r \<longleftrightarrow>
     slash \<notin> set (rd_name r) \<and> (\<forall>p. string_property ''product'' (rd_properties r) = Some p \<longrightarrow> slash \<notin> set p)"

text \<open>The path of an IRI, by its segments.\<close>

lemma split_cluster:
  "slash \<notin> set a \<Longrightarrow> slash \<notin> set n \<Longrightarrow> split_on slash (a @ ''/'' @ n) = [a, n]"
  using split_on_app [of slash a n] by (simp add: split_on_none)

lemma split_scoped:
  "slash \<notin> set p \<Longrightarrow> slash \<notin> set a \<Longrightarrow> slash \<notin> set n \<Longrightarrow>
   split_on slash (''products/'' @ p @ ''/'' @ a @ ''/'' @ n) = [''products'', p, a, n]"
  using split_on_app [of slash "''products''" "p @ ''/'' @ a @ ''/'' @ n"] split_on_app [of slash p "a @ ''/'' @ n"]
    split_cluster [of a n] by simp

lemma path_eq_cluster:
  assumes "slash \<notin> set a" "slash \<notin> set n" "slash \<notin> set b" "slash \<notin> set m"
  shows "''https://'' @ d @ ''/'' @ a @ ''/'' @ n = ''https://'' @ d @ ''/'' @ b @ ''/'' @ m \<longleftrightarrow> a = b \<and> n = m"
  using split_cluster [OF assms(1,2)] split_cluster [OF assms(3,4)]
  by (metis list.inject same_append_eq)

lemma path_eq_scoped:
  assumes "slash \<notin> set p" "slash \<notin> set a" "slash \<notin> set n" "slash \<notin> set q" "slash \<notin> set b" "slash \<notin> set m"
  shows "''https://'' @ d @ ''/products/'' @ p @ ''/'' @ a @ ''/'' @ n = ''https://'' @ d @ ''/products/'' @ q @ ''/'' @ b @ ''/'' @ m
    \<longleftrightarrow> p = q \<and> a = b \<and> n = m"
proof -
  have "p = q \<and> a = b \<and> n = m" if "p @ ''/'' @ a @ ''/'' @ n = q @ ''/'' @ b @ ''/'' @ m"
    using split_scoped [OF assms(1-3)] split_scoped [OF assms(4-6)] unfolding that by simp
  then show ?thesis unfolding same_append_eq by blast
qed

lemma path_neq:
  assumes "slash \<notin> set p" "slash \<notin> set a" "slash \<notin> set n" "slash \<notin> set b" "slash \<notin> set m"
  shows "''https://'' @ d @ ''/products/'' @ p @ ''/'' @ a @ ''/'' @ n \<noteq> ''https://'' @ d @ ''/'' @ b @ ''/'' @ m"
proof
  assume "''https://'' @ d @ ''/products/'' @ p @ ''/'' @ a @ ''/'' @ n = ''https://'' @ d @ ''/'' @ b @ ''/'' @ m"
  then have eq: "''products/'' @ p @ ''/'' @ a @ ''/'' @ n = b @ ''/'' @ m" by simp
  from split_scoped [OF assms(1-3)] have "[b, m] = [''products'', p, a, n]"
    unfolding eq split_cluster [OF assms(4,5)] .
  then show False by simp
qed

lemma iri_eq_resource_id:
  assumes 1: "resource_iri_of d r = Inr i" and 2: "resource_iri_of d s = Inr j"
    and f: "slash_free r" "slash_free s"
  shows "i = j \<longleftrightarrow> resource_id r = resource_id s"
  using 1
proof (cases rule: resource_iri_of_cases)
  case r: (cluster a)
  have na: "slash \<notin> set a" "slash \<notin> set (rd_name r)" "slash \<notin> set (rd_name s)"
    using r f scoped_segments(2) by (auto simp: slash_free_def)
  from 2 show ?thesis
  proof (cases rule: resource_iri_of_cases)
    case s: (cluster b)
    have nb: "slash \<notin> set b" using s scoped_segments(2) by blast
    have "i = j \<longleftrightarrow> a = b \<and> rd_name r = rd_name s"
      unfolding r(2) s(2) by (rule path_eq_cluster [OF na(1,2) nb na(3)])
    also have "\<dots> \<longleftrightarrow> rd_resource_type r = rd_resource_type s \<and> rd_name r = rd_name s"
      using segment_iff_type(2) [OF r(1) s(1)] by simp
    finally show ?thesis
      using cluster_not_scoped [OF r(1)] cluster_not_scoped [OF s(1)] by (auto simp: resource_id_def)
  next
    case s: (scoped p b)
    have nb: "slash \<notin> set p" "slash \<notin> set b" using s f scoped_segments(1) by (auto simp: slash_free_def)
    have "i \<noteq> j"
      unfolding r(2) s(3) using path_neq [OF nb na(3) na(1,2)] by (rule not_sym)
    moreover have "rd_resource_type r \<noteq> rd_resource_type s"
      using cluster_not_scoped [OF r(1)] s(1) by force
    ultimately show ?thesis by (simp add: resource_id_def)
  qed
next
  case r: (scoped q a)
  have na: "slash \<notin> set q" "slash \<notin> set a" "slash \<notin> set (rd_name r)" "slash \<notin> set (rd_name s)"
    using r f scoped_segments(1) by (auto simp: slash_free_def)
  from 2 show ?thesis
  proof (cases rule: resource_iri_of_cases)
    case s: (cluster b)
    have nb: "slash \<notin> set b" using s scoped_segments(2) by blast
    have "i \<noteq> j"
      unfolding r(3) s(2) by (rule path_neq [OF na(1-3) nb na(4)])
    moreover have "rd_resource_type r \<noteq> rd_resource_type s"
      using cluster_not_scoped [OF s(1)] r(1) by force
    ultimately show ?thesis by (simp add: resource_id_def)
  next
    case s: (scoped p b)
    have nb: "slash \<notin> set p" "slash \<notin> set b" using s f scoped_segments(1) by (auto simp: slash_free_def)
    have "i = j \<longleftrightarrow> q = p \<and> a = b \<and> rd_name r = rd_name s"
      unfolding r(3) s(3) by (rule path_eq_scoped [OF na(1-3) nb na(4)])
    also have "\<dots> \<longleftrightarrow> q = p \<and> rd_resource_type r = rd_resource_type s \<and> rd_name r = rd_name s"
      using segment_iff_type(1) [OF r(1) s(1)] by simp
    finally show ?thesis using r s by (force simp: resource_id_def)
  qed
qed

section \<open>Compilation of a file\<close>

definition iri_or_empty :: "cluster_domain \<Rightarrow> resource_decl \<Rightarrow> string" where
  "iri_or_empty d r = (case resource_iri_of d r of Inr i \<Rightarrow> i | Inl _ \<Rightarrow> [])"

lemma iri_or_empty_Inr: "resource_iri_of d r = Inr i \<Longrightarrow> iri_or_empty d r = i"
  by (simp add: iri_or_empty_def)

lemma compile_resources_ok:
  "compile_resources d rs = Inr (iris, ls) \<Longrightarrow>
   iris = map (iri_or_empty d) rs \<and> (\<forall>r \<in> set rs. resource_iri_of d r = Inr (iri_or_empty d r)) \<and>
   ls = concat (map (\<lambda>r. compile_resource r (iri_or_empty d r)) rs)"
proof (induction rs arbitrary: iris ls)
  case (Cons r rs)
  obtain i where i: "resource_iri_of d r = Inr i"
    using Cons.prems by (cases "resource_iri_of d r") simp_all
  obtain iris' ls' where rs: "compile_resources d rs = Inr (iris', ls')"
    using Cons.prems unfolding compile_resources.simps i and_then_simps
    by (cases "compile_resources d rs") auto
  have eq: "iris = i # iris'" "ls = compile_resource r i @ ls'"
    using Cons.prems unfolding compile_resources.simps i rs and_then_simps prod.case by simp_all
  have "iri_or_empty d r = i" by (rule iri_or_empty_Inr [OF i])
  with Cons.IH [OF rs] show ?case by (simp add: eq i)
qed simp

lemma compile_ok:
  assumes "compile f d = Inr c"
  shows "cr_declared_iris c = map (iri_or_empty d) (pf_resources f)"
    "\<forall>r \<in> set (pf_resources f). resource_iri_of d r = Inr (iri_or_empty d r)"
proof -
  obtain iris ls where r: "compile_resources d (pf_resources f) = Inr (iris, ls)" and c: "cr_declared_iris c = iris"
    using assms by (cases "compile_resources d (pf_resources f)") (auto simp: compile_def)
  from compile_resources_ok [OF r] c show "cr_declared_iris c = map (iri_or_empty d) (pf_resources f)"
    "\<forall>r \<in> set (pf_resources f). resource_iri_of d r = Inr (iri_or_empty d r)" by simp_all
qed

lemma compile_succeeds_iff:
  "(\<exists>c. compile f d = Inr c) \<longleftrightarrow> (\<forall>r \<in> set (pf_resources f). \<exists>i. resource_iri_of d r = Inr i)"
proof -
  have "(\<exists>x. compile_resources d rs = Inr x) \<longleftrightarrow> (\<forall>r \<in> set rs. \<exists>i. resource_iri_of d r = Inr i)" for rs
  proof (induction rs)
    case (Cons r rs)
    then show ?case by (cases "resource_iri_of d r"; cases "compile_resources d rs") auto
  qed simp
  note iff = this [of "pf_resources f"]
  have "(\<exists>c. compile f d = Inr c) \<longleftrightarrow> (\<exists>x. compile_resources d (pf_resources f) = Inr x)"
    by (cases "compile_resources d (pf_resources f)") (auto simp: compile_def)
  then show ?thesis unfolding iff .
qed

lemma duplicates_from_Nil: "duplicates_from seen xs = [] \<longleftrightarrow> distinct xs \<and> set xs \<inter> set seen = {}"
  by (induction seen xs rule: duplicates_from.induct) auto

lemma distinct_map_cong:
  "(\<And>x y. x \<in> set xs \<Longrightarrow> y \<in> set xs \<Longrightarrow> f x = f y \<longleftrightarrow> g x = g y) \<Longrightarrow> distinct (map f xs) \<longleftrightarrow> distinct (map g xs)"
  by (induction xs) auto

section \<open>Subjects stay below the resource\<close>

text \<open>A line of Turtle is about an IRI when its subject is that IRI or lies below it.\<close>

definition about :: "string \<Rightarrow> string \<Rightarrow> bool" where
  "about iri line \<longleftrightarrow>
     line = [] \<or> (\<exists>sub t. line = ''<'' @ iri @ sub @ ''>'' @ t \<and> (sub = [] \<or> hd sub = slash))"

lemma about_below:
  assumes "about (iri @ ''/'' @ x) line"
  shows "about iri line"
proof (cases "line = []")
  case False
  then obtain sub t where "line = ''<'' @ (iri @ ''/'' @ x) @ sub @ ''>'' @ t"
    using assms by (auto simp: about_def)
  then show ?thesis
    unfolding about_def by (intro disjI2 exI [of _ "''/'' @ x @ sub"] exI [of _ t]) simp
qed (simp add: about_def)

lemma about_triple_raw: "about iri (triple_raw (''<'' @ iri @ ''>'') p ob)"
  unfolding about_def triple_raw_def
  by (intro disjI2 exI [of _ "[]"] exI [of _ "'' '' @ p @ '' '' @ ob @ '' .''"]) simp

lemma about_triple: "starts_with iri ''http'' \<Longrightarrow> about iri (triple iri p ob)"
  using about_triple_raw by (simp add: triple_def)

lemma starts_http_below: "starts_with iri ''http'' \<Longrightarrow> starts_with (iri @ x) ''http''"
  by (auto simp: starts_with_iff)

lemma about_nested:
  assumes http: "starts_with parent ''http''" and line: "line \<in> set (nested_header parent key (parent @ ''/'' @ x) @ ls @ [[]])"
    and ls: "\<And>l. l \<in> set ls \<Longrightarrow> about (parent @ ''/'' @ x) l"
  shows "about parent line"
proof -
  have "about parent (triple_raw (''<'' @ (parent @ ''/'' @ x) @ ''>'') p ob)" for p ob
    by (rule about_below [OF about_triple_raw])
  note raw = this
  consider "line = triple parent (pc key) (''<'' @ (parent @ ''/'' @ x) @ ''>'')"
    | t where "line = triple_raw (''<'' @ (parent @ ''/'' @ x) @ ''>'') ''a'' t" | "line \<in> set ls" | "line = []"
    using line unfolding nested_header_def by (cases "nested_rdf_type key") (simp_all only: option.case, auto)
  then show ?thesis
  proof cases
    case 1
    show ?thesis unfolding 1 by (rule about_triple [OF http])
  next
    case 2
    show ?thesis unfolding 2 by (rule raw)
  next
    case 3
    then show ?thesis by (rule about_below [OF ls])
  qed (simp add: about_def)
qed

lemma compile_property_about:
  "starts_with parent ''http'' \<Longrightarrow> line \<in> set (compile_property parent key v) \<Longrightarrow> about parent line"
proof (induction parent key v arbitrary: line rule: compile_property.induct)
  case (5 parent key props)
  obtain x where x: "(if is_collection_type key then parent @ ''/'' @ key @ ''s/'' @ block_key ''0'' props
      else parent @ ''/'' @ key) = parent @ ''/'' @ x"
    by (cases "is_collection_type key") auto
  let ?ls = "concat (map (\<lambda>p. compile_property (parent @ ''/'' @ x) (p_key p) (p_value p)) props)"
  show ?case
  proof (rule about_nested [OF 5(2)])
    show "line \<in> set (nested_header parent key (parent @ ''/'' @ x) @ ?ls @ [[]])"
      using 5(3) unfolding compile_property.simps Let_def x .
    show "about (parent @ ''/'' @ x) l" if "l \<in> set ?ls" for l
    proof -
      obtain p where p: "p \<in> set props" "l \<in> set (compile_property (parent @ ''/'' @ x) (p_key p) (p_value p))"
        using \<open>l \<in> set ?ls\<close> by auto
      show ?thesis by (rule 5(1) [OF x [symmetric] p(1) starts_http_below [OF 5(2)] p(2)])
    qed
  qed
next
  case (6 parent key blocks)
  let ?iri = "\<lambda>i props. parent @ ''/'' @ (key @ ''s/'' @ block_key (show_nat i) props)"
  obtain i props where b: "(i, props) \<in> set (enumerate 0 blocks)"
    and line: "line \<in> set (nested_header parent key (?iri i props)
      @ concat (map (\<lambda>p. compile_property (?iri i props) (p_key p) (p_value p)) props) @ [[]])"
    using 6(3) by (auto simp: Let_def)
  show ?case
  proof (rule about_nested [OF 6(2) line])
    fix l assume "l \<in> set (concat (map (\<lambda>p. compile_property (?iri i props) (p_key p) (p_value p)) props))"
    then obtain p where p: "p \<in> set props" "l \<in> set (compile_property (?iri i props) (p_key p) (p_value p))" by auto
    show "about (?iri i props) l"
      by (rule 6(1) [OF b refl refl p(1) starts_http_below [OF 6(2)] p(2)])
  qed
qed (simp_all add: about_triple)

lemma compile_resource_about:
  assumes "starts_with iri ''http''" "line \<in> set (compile_resource r iri)"
  shows "about iri line"
  using assms compile_property_about [OF assms(1)] about_triple [OF assms(1)]
  by (auto simp: compile_resource_def about_def [of iri "[]"])

lemma resource_iri_http: "resource_iri_of d r = Inr i \<Longrightarrow> starts_with i ''http''"
  by (erule resource_iri_of_cases) (auto simp: starts_with_def)

lemma secret_looks_like_string:
  "compile_property parent key (PSecret s) = compile_property parent key (PString (''secret:'' @ s))"
  by simp

section \<open>The deployment graph\<close>

lemma compiled_iris:
  assumes "list_all2 (\<lambda>f c. compile f d = Inr c) fs cs"
  shows "concat (map cr_declared_iris cs) = map (iri_or_empty d) (concat (map pf_resources fs))"
    "\<forall>r \<in> set (concat (map pf_resources fs)). resource_iri_of d r = Inr (iri_or_empty d r)"
proof -
  from assms have "concat (map cr_declared_iris cs) = map (iri_or_empty d) (concat (map pf_resources fs)) \<and>
    (\<forall>r \<in> set (concat (map pf_resources fs)). resource_iri_of d r = Inr (iri_or_empty d r))"
  proof (induction rule: list_all2_induct)
    case (Cons f fs c cs)
    then show ?case using compile_ok [OF Cons(1)] by auto
  qed simp
  then show "concat (map cr_declared_iris cs) = map (iri_or_empty d) (concat (map pf_resources fs))"
    "\<forall>r \<in> set (concat (map pf_resources fs)). resource_iri_of d r = Inr (iri_or_empty d r)" by blast+
qed

lemma merge_cases:
  "merge cs raw = (if distinct (concat (map cr_declared_iris cs))
     then Inr \<lparr>dg_turtle = join [newline, newline] (map cr_turtle cs @ map rt_content raw),
       dg_declared_iris = concat (map cr_declared_iris cs), dg_sources = map rt_path raw\<rparr>
     else Inl (ResourceValidationFailed (''Duplicate resource IRIs found across files: ''
       @ join '', '' (duplicates_from [] (concat (map cr_declared_iris cs))))))"
  using duplicates_from_Nil [of "[]" "concat (map cr_declared_iris cs)"] by (simp add: merge_def Let_def)



end
