(* ===== verification/Resource_Validator.thy ===== *)
theory Resource_Validator
  imports Turtle_Compiler
begin

text \<open>
  Validation of parsed files and of compiled graphs (\<open>crates/picloud-compiler/src/validator.rs\<close>).
  Offline validation is complete; validation of Turtle against the SHACL shapes and online validation
  take the RDF store (Oxigraph) and the HTTP client as a record of functions.
\<close>

section \<open>Results\<close>

record validation_error =
  ve_message :: string
  ve_resource_iri :: "string option"
  ve_property :: "string option"
  ve_location :: "string option"

record validation_warning =
  vw_message :: string
  vw_resource_iri :: "string option"

record validation_result =
  vr_valid :: bool
  vr_errors :: "validation_error list"
  vr_warnings :: "validation_warning list"

definition validation_ok :: validation_result where
  "validation_ok = \<lparr>vr_valid = True, vr_errors = [], vr_warnings = []\<rparr>"

definition with_errors :: "validation_error list \<Rightarrow> validation_result" where
  "with_errors errors = \<lparr>vr_valid = (errors = []), vr_errors = errors, vr_warnings = []\<rparr>"

section \<open>Offline validation\<close>

definition validator_required_fields :: "string \<Rightarrow> string list" where
  "validator_required_fields resource_type =
     (if resource_type = ''product'' then [''version'']
      else if resource_type = ''container'' then [''product'', ''image'']
      else if resource_type = ''binary'' then [''product'', ''executable'']
      else if resource_type = ''volume'' then [''product'', ''size'']
      else if resource_type = ''feature-flag'' then [''product'', ''enabled'', ''version'']
      else if resource_type = ''config'' then [''product'']
      else if resource_type = ''inference-rule'' then [''product'', ''construct'']
      else if resource_type = ''event-store'' then [''product'']
      else if resource_type = ''rdf-store'' then [''product'']
      else if resource_type = ''ingress'' then [''product'', ''target'', ''port'']
      else if resource_type = ''group'' then []
      else if resource_type = ''event-subscription'' then [''product'', ''source'', ''event-type'', ''handler'']
      else if resource_type = ''ontology'' then [''product'', ''file'']
      else if resource_type = ''role'' then [''product'']
      else if resource_type = ''scope'' then [''product'']
      else if resource_type = ''m2m-permission'' then [''product'', ''client'', ''scopes'']
      else if resource_type = ''capability'' then [''version'', ''events'']
      else if resource_type = ''data-domain'' then [''steward'']
      else if resource_type = ''data-product'' then [''product'', ''domain'', ''version'', ''projection'', ''freshness'']
      else [])"

definition type_label :: "string \<Rightarrow> string" where
  "type_label resource_type =
     (if resource_type = ''product'' then ''Product''
      else if resource_type = ''container'' then ''Container''
      else if resource_type = ''volume'' then ''Volume''
      else if resource_type = ''binary'' then ''Binary''
      else if resource_type = ''feature-flag'' then ''FeatureFlag''
      else if resource_type = ''rdf-store'' then ''RdfStore''
      else if resource_type = ''event-store'' then ''EventStore''
      else if resource_type = ''config'' then ''Config''
      else if resource_type = ''inference-rule'' then ''InferenceRule''
      else if resource_type = ''ingress'' then ''Ingress''
      else if resource_type = ''ontology'' then ''Ontology''
      else if resource_type = ''group'' then ''Group''
      else if resource_type = ''event-subscription'' then ''EventSubscription''
      else if resource_type = ''role'' then ''Role''
      else if resource_type = ''scope'' then ''Scope''
      else if resource_type = ''m2m-permission'' then ''M2mPermission''
      else if resource_type = ''capability'' then ''Capability''
      else if resource_type = ''data-domain'' then ''DataDomain''
      else if resource_type = ''data-product'' then ''DataProduct''
      else resource_type)"

definition in_quotes :: "string \<Rightarrow> string" where
  "in_quotes s = [squote] @ s @ [squote]"

definition located :: "string \<Rightarrow> resource_decl \<Rightarrow> string \<Rightarrow> string \<Rightarrow> validation_error" where
  "located path r field message =
     \<lparr>ve_message = message, ve_resource_iri = None, ve_property = Some field,
      ve_location = Some (path @ '':'' @ show_nat (rd_line r))\<rparr>"

definition has_key :: "string \<Rightarrow> property list \<Rightarrow> bool" where
  "has_key key props \<longleftrightarrow> list_ex (\<lambda>p. p_key p = key) props"

definition missing_field_errors :: "string \<Rightarrow> resource_decl \<Rightarrow> validation_error list" where
  "missing_field_errors path r =
     map (\<lambda>field. located path r field
            (type_label (rd_resource_type r) @ '' '' @ in_quotes (rd_name r) @ '': required property ''
             @ in_quotes field @ '' is missing''))
       (filter (\<lambda>field. \<not> has_key field (rd_properties r)) (validator_required_fields (rd_resource_type r)))"

definition product_reference_errors :: "string list \<Rightarrow> string \<Rightarrow> resource_decl \<Rightarrow> validation_error list" where
  "product_reference_errors products path r =
     (if rd_resource_type r \<noteq> ''product'' \<and> rd_resource_type r \<noteq> ''group'' then
        (case string_property ''product'' (rd_properties r) of
           Some product_name \<Rightarrow>
             if product_name \<notin> set products then
               [located path r ''product''
                 (type_label (rd_resource_type r) @ '' '' @ in_quotes (rd_name r) @ '': references product ''
                  @ in_quotes product_name @ '' which is not defined in the current file set'')]
             else []
         | None \<Rightarrow> [])
      else [])"

definition image_warnings :: "resource_decl \<Rightarrow> validation_warning list" where
  "image_warnings r =
     (if rd_resource_type r = ''container'' then
        (case string_property ''image'' (rd_properties r) of
           Some image_ref \<Rightarrow>
             if \<not> starts_with image_ref ''registry.picloud.local/'' then
               [\<lparr>vw_message = ''Container '' @ in_quotes (rd_name r) @ '': image '' @ in_quotes image_ref
                   @ '' does not reference the local registry (registry.picloud.local/). Use ''
                   @ in_quotes ''picloud image import'' @ '' to import external images.'',
                 vw_resource_iri = None\<rparr>]
             else []
         | None \<Rightarrow> [])
      else [])"

definition freshness_block :: "property list \<Rightarrow> property list option" where
  "freshness_block props =
     (case find (\<lambda>p. p_key p = ''freshness'') props of
        Some p \<Rightarrow> (case p_value p of PBlock ps \<Rightarrow> Some ps | _ \<Rightarrow> None)
      | None \<Rightarrow> None)"

definition has_max_age :: "property list option \<Rightarrow> bool" where
  "has_max_age b =
     (case b of None \<Rightarrow> False
      | Some ps \<Rightarrow> list_ex (\<lambda>p. p_key p = ''maxAge'' \<or> p_key p = ''max-age'' \<or> p_key p = ''max_age'') ps)"

definition has_triggers :: "property list option \<Rightarrow> bool" where
  "has_triggers b =
     (case b of None \<Rightarrow> False | Some ps \<Rightarrow> list_ex (\<lambda>p. p_key p = ''triggers'' \<or> p_key p = ''trigger'') ps)"

definition validate_data_product :: "resource_decl \<Rightarrow> string \<Rightarrow> validation_error list" where
  "validate_data_product r path =
     (let who = ''DataProduct '' @ in_quotes (rd_name r) @ '': '';
          props = rd_properties r;
          fresh = freshness_block props
      in (if \<not> has_key ''domain'' props
          then [located path r ''domain''
                 (who @ ''must belong to exactly one data-domain (missing '' @ in_quotes ''domain'' @ '')'')] else [])
       @ (if \<not> has_key ''ontology'' props \<and> \<not> has_key ''shapes'' props
          then [located path r ''ontology''
                 (who @ ''must declare at least one of '' @ in_quotes ''ontology'' @ '' or '' @ in_quotes ''shapes'')] else [])
       @ (if \<not> has_max_age fresh
          then [located path r ''maxAge''
                 (who @ in_quotes ''freshness.maxAge'' @ '' is required (ADR-056 rule 2)'')] else [])
       @ (if \<not> has_triggers fresh
          then [located path r ''triggers''
                 (who @ in_quotes ''freshness.triggers'' @ '' must declare at least one event (ADR-056 rule 1)'')] else []))"

definition declared_products :: "parsed_file list \<Rightarrow> string list" where
  "declared_products files =
     map rd_name (filter (\<lambda>r. rd_resource_type r = ''product'') (concat (map pf_resources files)))"

definition validate_offline :: "parsed_file list \<Rightarrow> validation_result" where
  "validate_offline files =
     (let products = declared_products files;
          each = (\<lambda>g. concat (map (\<lambda>f. concat (map (g f) (pf_resources f))) files));
          errors =
            each (\<lambda>f r. missing_field_errors (pf_path f) r @ product_reference_errors products (pf_path f) r)
            @ each (\<lambda>f r. if rd_resource_type r \<noteq> ''data-product'' then [] else validate_data_product r (pf_path f));
          warnings = concat (map (\<lambda>f. concat (map image_warnings (pf_resources f))) files)
      in (with_errors errors)\<lparr>vr_warnings := warnings\<rparr>)"

section \<open>Validation of Turtle\<close>

text \<open>\<open>rsplit(...).next()\<close>: the part after the last separator.\<close>

definition last_part :: "(char \<Rightarrow> bool) \<Rightarrow> string \<Rightarrow> string" where
  "last_part P s = rev (takeWhile (\<lambda>c. \<not> P c) (rev s))"

definition explanation :: "string \<Rightarrow> string \<Rightarrow> string" where
  "explanation constraint_class property_name =
     (if constraint_class = ''MinCountConstraintComponent''
      then ''required property '' @ in_quotes property_name @ '' is missing''
      else if constraint_class = ''MaxCountConstraintComponent''
      then ''property '' @ in_quotes property_name @ '' appears too many times''
      else if constraint_class = ''DatatypeConstraintComponent''
      then in_quotes property_name @ '' has the wrong type''
      else if constraint_class = ''InConstraintComponent''
      then in_quotes property_name @ '' has an invalid value''
      else if constraint_class = ''PatternConstraintComponent''
      then in_quotes property_name @ '' does not match the required pattern''
      else if constraint_class = ''MinInclusiveConstraintComponent'' \<or> constraint_class = ''MinExclusiveConstraintComponent''
      then in_quotes property_name @ '' is below the minimum allowed value''
      else if constraint_class = ''MaxInclusiveConstraintComponent'' \<or> constraint_class = ''MaxExclusiveConstraintComponent''
      then in_quotes property_name @ '' exceeds the maximum allowed value''
      else if constraint_class = ''NodeKindConstraintComponent''
      then in_quotes property_name @ '' must be an IRI reference''
      else in_quotes property_name @ '' failed constraint: '' @ constraint_class)"

definition translate_violation :: "string \<Rightarrow> string \<Rightarrow> string \<Rightarrow> string option \<Rightarrow> validation_error" where
  "translate_violation focus_node property_path constraint_class message =
     (let resource_name = last_part (\<lambda>c. c = slash) focus_node;
          property_name = last_part (\<lambda>c. c = slash \<or> c = CHR ''#'') property_path;
          msg = resource_name @ '': ''
                @ (case message of Some m \<Rightarrow> m | None \<Rightarrow> explanation constraint_class property_name)
      in \<lparr>ve_message = msg, ve_resource_iri = Some focus_node, ve_property = Some property_name, ve_location = None\<rparr>)"

definition strip_angle_brackets :: "string \<Rightarrow> string" where
  "strip_angle_brackets s =
     rev (dropWhile (\<lambda>c. c = CHR ''>'') (rev (dropWhile (\<lambda>c. c = CHR ''<'') s)))"

text \<open>The RDF store: creating it, loading Turtle, and the rows of a query (\<open>None\<close> when it fails or
  does not return solutions); a row gives the term bound to a variable, and terms print.\<close>

datatype ox_term = OxNamedNode string | OxLiteral string | OxOther string

record 'st oxigraph =
  ox_new :: "string + 'st"
  ox_load_turtle :: "'st \<Rightarrow> string \<Rightarrow> string + 'st"
  ox_query :: "'st \<Rightarrow> string \<Rightarrow> (string \<Rightarrow> ox_term option) list option"
  ox_show :: "ox_term \<Rightarrow> string"

definition violation_of_row :: "'st oxigraph \<Rightarrow> (string \<Rightarrow> ox_term option) \<Rightarrow> validation_error" where
  "violation_of_row ox row =
     (let text_of = (\<lambda>v. case row v of Some t \<Rightarrow> ox_show ox t | None \<Rightarrow> []);
          msg = (case row ''msg'' of Some (OxLiteral l) \<Rightarrow> Some l | _ \<Rightarrow> None)
      in translate_violation (strip_angle_brackets (text_of ''focus'')) (strip_angle_brackets (text_of ''path''))
           ''MinCountConstraintComponent'' msg)"

definition unlocated :: "string \<Rightarrow> validation_error" where
  "unlocated message = \<lparr>ve_message = message, ve_resource_iri = None, ve_property = None, ve_location = None\<rparr>"

definition validate_turtle_with_shapes ::
  "'st oxigraph \<Rightarrow> string \<Rightarrow> string \<Rightarrow> string \<Rightarrow> validation_result result" where
  "validate_turtle_with_shapes ox min_count_query turtle shapes_ttl =
     (if trim turtle = [] then Inr (with_errors [unlocated ''Empty deployment graph''])
      else
        case ox_new ox of
          Inl e \<Rightarrow> Inl (Internal (''Failed to create validation store: '' @ e))
        | Inr st \<Rightarrow>
            (case ox_load_turtle ox st turtle of
               Inl e \<Rightarrow> Inr (with_errors [unlocated (''Invalid Turtle syntax: '' @ e)])
             | Inr st1 \<Rightarrow>
                 (case ox_load_turtle ox st1 shapes_ttl of
                    Inl e \<Rightarrow> Inr validation_ok
                  | Inr st2 \<Rightarrow>
                      Inr (with_errors
                        (case ox_query ox st2 min_count_query of
                           Some rows \<Rightarrow> map (violation_of_row ox) rows
                         | None \<Rightarrow> [])))))"

section \<open>Online validation\<close>

text \<open>\<open>head url token\<close> is the HTTP status of a \<open>HEAD\<close> request or the error of the client.\<close>

fun check_references ::
  "(string \<Rightarrow> string + nat) \<Rightarrow> string \<Rightarrow> (string \<Rightarrow> ox_term option) list \<Rightarrow> validation_error list" where
  "check_references head cluster_url [] = []"
| "check_references head cluster_url (row # rows) =
     (case row ''ref'' of
        Some (OxNamedNode ref_iri) \<Rightarrow>
          (case find_sub ''/products/'' ref_iri of
             None \<Rightarrow> check_references head cluster_url rows
           | Some (before, after) \<Rightarrow>
               (case head (rev (dropWhile (\<lambda>c. c = slash) (rev cluster_url)) @ ''/products/'' @ after) of
                  Inr status \<Rightarrow>
                    (if status = 404
                     then [\<lparr>ve_message = ''Referenced resource not found in cluster: '' @ ref_iri,
                            ve_resource_iri = Some ref_iri, ve_property = None, ve_location = None\<rparr>] else [])
                    @ check_references head cluster_url rows
                | Inl e \<Rightarrow> []))
      | _ \<Rightarrow> check_references head cluster_url rows)"

definition validate_online ::
  "'st oxigraph \<Rightarrow> string \<Rightarrow> string option \<Rightarrow> (string \<Rightarrow> string + nat) \<Rightarrow> string \<Rightarrow> string \<Rightarrow> validation_result result" where
  "validate_online ox ref_query client_error head turtle cluster_url =
     (if trim turtle = [] then Inr validation_ok
      else
        case ox_new ox of
          Inl e \<Rightarrow> Inl (Internal (''Failed to create store for online validation: '' @ e))
        | Inr st \<Rightarrow>
            (case ox_load_turtle ox st turtle of
               Inl e \<Rightarrow> Inr validation_ok
             | Inr st1 \<Rightarrow>
                 (case client_error of
                    Some e \<Rightarrow> Inl (Internal (''Failed to create HTTP client: '' @ e))
                  | None \<Rightarrow>
                      Inr (with_errors
                        (case ox_query ox st1 ref_query of
                           Some rows \<Rightarrow> check_references head cluster_url rows
                         | None \<Rightarrow> [])))))"

section \<open>What a valid file set is\<close>

definition fields_present :: "resource_decl \<Rightarrow> bool" where
  "fields_present r \<longleftrightarrow> set (validator_required_fields (rd_resource_type r)) \<subseteq> p_key ` set (rd_properties r)"

definition product_defined :: "parsed_file list \<Rightarrow> resource_decl \<Rightarrow> bool" where
  "product_defined files r \<longleftrightarrow>
     rd_resource_type r \<in> {''product'', ''group''} \<or>
     (\<forall>p. string_property ''product'' (rd_properties r) = Some p \<longrightarrow>
        (\<exists>f \<in> set files. \<exists>q \<in> set (pf_resources f). rd_resource_type q = ''product'' \<and> rd_name q = p))"

definition data_product_complete :: "resource_decl \<Rightarrow> bool" where
  "data_product_complete r \<longleftrightarrow>
     (let keys = p_key ` set (rd_properties r) in
      ''domain'' \<in> keys \<and> (''ontology'' \<in> keys \<or> ''shapes'' \<in> keys) \<and>
      (\<exists>ps. freshness_block (rd_properties r) = Some ps \<and>
         p_key ` set ps \<inter> {''maxAge'', ''max-age'', ''max_age''} \<noteq> {} \<and> p_key ` set ps \<inter> {''triggers'', ''trigger''} \<noteq> {}))"

definition resource_valid :: "parsed_file list \<Rightarrow> resource_decl \<Rightarrow> bool" where
  "resource_valid files r \<longleftrightarrow>
     fields_present r \<and> product_defined files r \<and>
     (rd_resource_type r = ''data-product'' \<longrightarrow> data_product_complete r)"

lemma has_key_iff: "has_key k ps \<longleftrightarrow> k \<in> p_key ` set ps"
  by (auto simp: has_key_def list_ex_iff)

lemma missing_field_errors_Nil: "missing_field_errors path r = [] \<longleftrightarrow> fields_present r"
  by (auto simp: missing_field_errors_def fields_present_def filter_empty_conv has_key_iff)

lemma set_declared_products:
  "p \<in> set (declared_products files) \<longleftrightarrow>
   (\<exists>f \<in> set files. \<exists>q \<in> set (pf_resources f). rd_resource_type q = ''product'' \<and> rd_name q = p)"
  by (auto simp: declared_products_def)

lemma product_reference_errors_Nil:
  "product_reference_errors (declared_products files) path r = [] \<longleftrightarrow> product_defined files r"
  unfolding product_reference_errors_def product_defined_def set_declared_products
  by (auto split: option.splits)

lemma list_ex_keys:
  "list_ex (\<lambda>p. p_key p = a \<or> p_key p = b \<or> p_key p = c) ps \<longleftrightarrow> p_key ` set ps \<inter> {a, b, c} \<noteq> {}"
  "list_ex (\<lambda>p. p_key p = a \<or> p_key p = b) ps \<longleftrightarrow> p_key ` set ps \<inter> {a, b} \<noteq> {}"
  by (induction ps) auto

lemma has_max_age_iff:
  "has_max_age b \<longleftrightarrow> (\<exists>ps. b = Some ps \<and> p_key ` set ps \<inter> {''maxAge'', ''max-age'', ''max_age''} \<noteq> {})"
  unfolding has_max_age_def list_ex_keys by (cases b) simp_all

lemma has_triggers_iff:
  "has_triggers b \<longleftrightarrow> (\<exists>ps. b = Some ps \<and> p_key ` set ps \<inter> {''triggers'', ''trigger''} \<noteq> {})"
  unfolding has_triggers_def list_ex_keys by (cases b) simp_all

lemma validate_data_product_Nil: "validate_data_product r path = [] \<longleftrightarrow> data_product_complete r"
  unfolding validate_data_product_def data_product_complete_def Let_def append_is_Nil_conv
  by (cases "freshness_block (rd_properties r)") (auto simp: has_key_iff has_max_age_iff has_triggers_iff)

lemma validate_offline_errors:
  "vr_errors (validate_offline files) =
     concat (map (\<lambda>f. concat (map (\<lambda>r. missing_field_errors (pf_path f) r
       @ product_reference_errors (declared_products files) (pf_path f) r) (pf_resources f))) files)
   @ concat (map (\<lambda>f. concat (map (\<lambda>r. if rd_resource_type r \<noteq> ''data-product'' then []
       else validate_data_product r (pf_path f)) (pf_resources f))) files)"
  "vr_valid (validate_offline files) \<longleftrightarrow> vr_errors (validate_offline files) = []"
  by (simp_all add: validate_offline_def Let_def with_errors_def)

lemma located_at: "ve_location (located path r k m) = Some (path @ '':'' @ show_nat (rd_line r))"
  by (simp add: located_def)

lemma error_locations:
  "e \<in> set (missing_field_errors path r) \<Longrightarrow> ve_location e = Some (path @ '':'' @ show_nat (rd_line r))"
  "e \<in> set (product_reference_errors ps path r) \<Longrightarrow> ve_location e = Some (path @ '':'' @ show_nat (rd_line r))"
  "e \<in> set (validate_data_product r path) \<Longrightarrow> ve_location e = Some (path @ '':'' @ show_nat (rd_line r))"
proof -
  show "e \<in> set (missing_field_errors path r) \<Longrightarrow> ve_location e = Some (path @ '':'' @ show_nat (rd_line r))"
    unfolding missing_field_errors_def set_map by (erule imageE) (simp only: located_at)
  show "e \<in> set (product_reference_errors ps path r) \<Longrightarrow> ve_location e = Some (path @ '':'' @ show_nat (rd_line r))"
    unfolding product_reference_errors_def
    by (simp only: located_at list.set empty_iff insert_iff simp_thms split: if_split_asm option.split_asm)
  show "e \<in> set (validate_data_product r path) \<Longrightarrow> ve_location e = Some (path @ '':'' @ show_nat (rd_line r))"
    unfolding validate_data_product_def Let_def set_append
    by (elim UnE) (simp_all only: located_at list.set empty_iff insert_iff simp_thms split: if_split_asm)
qed

lemma offline_errors_Nil:
  "missing_field_errors path r @ product_reference_errors (declared_products files) path r = [] \<longleftrightarrow>
     fields_present r \<and> product_defined files r"
  "(if rd_resource_type r \<noteq> ''data-product'' then [] else validate_data_product r path) = [] \<longleftrightarrow>
     (rd_resource_type r = ''data-product'' \<longrightarrow> data_product_complete r)"
  by (simp_all add: missing_field_errors_Nil product_reference_errors_Nil validate_data_product_Nil)

lemma validate_offline_valid:
  "vr_valid (validate_offline files) \<longleftrightarrow> (\<forall>f \<in> set files. \<forall>r \<in> set (pf_resources f). resource_valid files r)"
proof -
  let ?P = "\<lambda>f r. missing_field_errors (pf_path f) r @ product_reference_errors (declared_products files) (pf_path f) r"
  let ?D = "\<lambda>f r. if rd_resource_type r \<noteq> ''data-product'' then [] else validate_data_product r (pf_path f)"
  have "vr_errors (validate_offline files) = [] \<longleftrightarrow>
    (\<forall>f \<in> set files. \<forall>r \<in> set (pf_resources f). ?P f r = []) \<and> (\<forall>f \<in> set files. \<forall>r \<in> set (pf_resources f). ?D f r = [])"
    unfolding validate_offline_errors(1) append_is_Nil_conv concat_eq_Nil_conv by auto
  also have "\<dots> \<longleftrightarrow> (\<forall>f \<in> set files. \<forall>r \<in> set (pf_resources f). resource_valid files r)"
    unfolding offline_errors_Nil resource_valid_def by blast
  finally show ?thesis unfolding validate_offline_errors(2) .
qed



section \<open>Validated files compile\<close>

lemma scoped_types_require_product:
  "t \<in> fst ` set product_scoped \<Longrightarrow> ''product'' \<in> set (validator_required_fields t)"
  unfolding product_scoped_def list.set image_insert image_empty fst_conv
  by (elim insertE emptyE) (simp_all add: validator_required_fields_def)

lemma resource_iri_of_iff:
  "(\<exists>i. resource_iri_of d r = Inr i) \<longleftrightarrow>
   rd_resource_type r \<in> fst ` set cluster_scoped \<or>
   (rd_resource_type r \<in> fst ` set product_scoped \<and> (\<exists>p. string_property ''product'' (rd_properties r) = Some p))"
proof
  assume "\<exists>i. resource_iri_of d r = Inr i"
  then obtain i where "resource_iri_of d r = Inr i" by blast
  then show "rd_resource_type r \<in> fst ` set cluster_scoped \<or>
     (rd_resource_type r \<in> fst ` set product_scoped \<and> (\<exists>p. string_property ''product'' (rd_properties r) = Some p))"
  proof (cases rule: resource_iri_of_cases)
    case (cluster seg)
    then show ?thesis using image_eqI [of _ fst "(rd_resource_type r, seg)"] by simp
  next
    case (scoped p seg)
    then show ?thesis using image_eqI [of _ fst "(rd_resource_type r, seg)"] by simp
  qed
next
  assume "rd_resource_type r \<in> fst ` set cluster_scoped \<or>
     (rd_resource_type r \<in> fst ` set product_scoped \<and> (\<exists>p. string_property ''product'' (rd_properties r) = Some p))"
  then show "\<exists>i. resource_iri_of d r = Inr i"
    unfolding cluster_scoped_def product_scoped_def list.set image_insert image_empty fst_conv
    by (elim disjE conjE insertE emptyE exE) (simp_all add: resource_iri_of_def with_product_def)
qed

lemma find_Some_iff_key: "k \<in> p_key ` set ps \<Longrightarrow> \<exists>p. find (\<lambda>p. p_key p = k) ps = Some p"
  by (induction ps) auto

text \<open>A file of a validated set compiles exactly when all its resource types are known and no
  product property is given as something else than a string: apart from these, which offline
  validation does not check, whatever it accepts is compiled.\<close>

theorem validated_files_compile:
  assumes valid: "vr_valid (validate_offline files)" and f: "f \<in> set files"
  shows "(\<exists>c. compile f d = Inr c) \<longleftrightarrow>
    (\<forall>r \<in> set (pf_resources f).
       rd_resource_type r \<in> fst ` set (cluster_scoped @ product_scoped) \<and>
       (\<forall>p. rd_resource_type r \<in> fst ` set product_scoped \<and>
            find (\<lambda>p. p_key p = ''product'') (rd_properties r) = Some p \<longrightarrow> (\<exists>s. p_value p = PString s)))"
proof -
  have "(\<exists>i. resource_iri_of d r = Inr i) \<longleftrightarrow>
      rd_resource_type r \<in> fst ` set (cluster_scoped @ product_scoped) \<and>
      (\<forall>p. rd_resource_type r \<in> fst ` set product_scoped \<and>
           find (\<lambda>p. p_key p = ''product'') (rd_properties r) = Some p \<longrightarrow> (\<exists>s. p_value p = PString s))"
    if r: "r \<in> set (pf_resources f)" for r
  proof (cases "rd_resource_type r \<in> fst ` set product_scoped")
    case True
    have "resource_valid files r"
      using valid f r validate_offline_valid by blast
    then have "''product'' \<in> p_key ` set (rd_properties r)"
      using scoped_types_require_product [OF True] by (auto simp: resource_valid_def fields_present_def)
    then obtain p where p: "find (\<lambda>p. p_key p = ''product'') (rd_properties r) = Some p"
      using find_Some_iff_key by blast
    have "rd_resource_type r \<notin> fst ` set cluster_scoped" using True cluster_not_scoped by fastforce
    with True p show ?thesis
      unfolding resource_iri_of_iff by (cases "p_value p") (auto simp: string_property_def)
  next
    case False
    then show ?thesis unfolding resource_iri_of_iff by auto
  qed
  then show ?thesis unfolding compile_succeeds_iff by blast
qed

theorem validated_files_compile_witness:
  "\<exists>c. compile \<lparr>pf_path = ''a'', pf_resources =
     [\<lparr>rd_resource_type = ''product'', rd_name = ''p'', rd_properties = [Property ''version'' (PString ''1'') 2], rd_line = 1\<rparr>]\<rparr>
     ''x'' = Inr c"
proof -
  let ?f = "\<lparr>pf_path = ''a'', pf_resources =
     [\<lparr>rd_resource_type = ''product'', rd_name = ''p'', rd_properties = [Property ''version'' (PString ''1'') 2], rd_line = 1\<rparr>]\<rparr>"
  have "vr_valid (validate_offline [?f])"
    by (simp add: validate_offline_valid resource_valid_def fields_present_def validator_required_fields_def product_defined_def)
  from validated_files_compile [OF this, of ?f "''x''"] show ?thesis
    by (simp add: cluster_scoped_def product_scoped_def)
qed

end
