(* ===== verification/Compiler_Pipeline.thy ===== *)
theory Compiler_Pipeline
  imports Resource_Validator File_System
begin

text \<open>
  The compiler on a directory of files: \<open>parse_directory\<close> (\<open>parser.rs\<close>), \<open>write_deployment\<close>
  (\<open>merger.rs\<close>) and the commands \<open>picloud compile validate\<close> and \<open>picloud compile build\<close>
  (\<open>crates/picloud-cli/src/main.rs\<close>), on the file system model. Paths given as text are looked up
  from a working directory. A command returns its exit code and the file system; what it prints is
  left out.
\<close>

section \<open>Reading a directory\<close>

text \<open>\<open>Path::extension\<close> is \<open>picloud\<close>: the name ends with it and has a stem.\<close>

definition picloud_extension :: "string \<Rightarrow> bool" where
  "picloud_extension name \<longleftrightarrow> ends_with name ''.picloud'' \<and> length name > 8"

definition entry_text :: "string \<Rightarrow> string \<Rightarrow> string" where
  "entry_text dir_path name = (if ends_with dir_path ''/'' then dir_path @ name else dir_path @ ''/'' @ name)"

fun parse_entries :: "disk_io \<Rightarrow> fs \<Rightarrow> path \<Rightarrow> string \<Rightarrow> string list \<Rightarrow> parsed_file list outcome" where
  "parse_entries io f dir dir_path [] = Some (Inr [])"
| "parse_entries io f dir dir_path (name # names) =
     (if picloud_extension name then
        (case fs_read io f (dir @ [name]) of
           Inl e \<Rightarrow> Some (Inl (Internal (''Failed to read '' @ entry_text dir_path name @ '': '' @ e)))
         | Inr source \<Rightarrow>
             obind (parse source (entry_text dir_path name)) (\<lambda>file.
             obind (parse_entries io f dir dir_path names) (\<lambda>files. Some (Inr (file # files)))))
      else parse_entries io f dir dir_path names)"

definition path_is_file :: "fs \<Rightarrow> path \<Rightarrow> bool" where
  "path_is_file f p = (case resolve f p of None \<Rightarrow> False | Some q \<Rightarrow> \<not> is_dir f q \<and> file_at f q \<noteq> None)"

definition parse_directory :: "disk_io \<Rightarrow> fs \<Rightarrow> path \<Rightarrow> string \<Rightarrow> parsed_file list outcome" where
  "parse_directory io f cwd dir_path =
     (let dir = path_join cwd dir_path in
      if \<not> path_exists f dir then Some (Inl (Internal (''Directory does not exist: '' @ dir_path)))
      else if path_is_file f dir then
        (case fs_read io f dir of
           Inl e \<Rightarrow> Some (Inl (Internal (''Failed to read '' @ dir_path @ '': '' @ e)))
         | Inr source \<Rightarrow>
             if ends_with dir_path ''.picloud''
             then obind (parse source dir_path) (\<lambda>file. Some (Inr [file]))
             else Some (Inr []))
      else
        (case fs_read_dir io f dir of
           Inl e \<Rightarrow> Some (Inl (Internal (''Failed to read directory '' @ dir_path @ '': '' @ e)))
         | Inr names \<Rightarrow> parse_entries io f dir dir_path names))"

section \<open>Writing the deployment graph\<close>

text \<open>\<open>Path::parent\<close>: the components without the last one; the parent of a single relative
  component is the empty path, for which \<open>create_dir_all\<close> does nothing.\<close>

definition output_parent :: "path \<Rightarrow> string \<Rightarrow> path option" where
  "output_parent cwd output_path =
     (let comps = filter (\<lambda>c. c \<noteq> [] \<and> c \<noteq> ''.'') (split_on slash output_path) in
      if comps = [] then None
      else if starts_with output_path ''/'' then Some (butlast comps)
      else if butlast comps = [] then None
      else Some (cwd @ butlast comps))"

text \<open>The parent as it is displayed: the text up to the last component, without trailing slashes.\<close>

definition parent_text :: "string \<Rightarrow> string" where
  "parent_text output_path =
     (let t = dropWhile (\<lambda>c. c = slash) (dropWhile (\<lambda>c. c \<noteq> slash) (dropWhile (\<lambda>c. c = slash) (rev output_path)))
      in if t = [] \<and> starts_with output_path ''/'' then ''/'' else rev t)"

definition write_deployment :: "disk_io \<Rightarrow> path \<Rightarrow> deployment_graph \<Rightarrow> string \<Rightarrow> fs \<Rightarrow> unit result \<times> fs" where
  "write_deployment io cwd graph output_path f =
     (let (r, f1) = (case output_parent cwd output_path of
                       None \<Rightarrow> (Inr (), f)
                     | Some parent \<Rightarrow> fs_create_dir_all io parent f)
      in case r of
           Inl e \<Rightarrow> (Inl (Internal (''Failed to create directory '' @ parent_text output_path @ '': '' @ e)), f1)
         | Inr _ \<Rightarrow>
             (case fs_write io (path_join cwd output_path) (dg_turtle graph) f1 of
                (Inl e, f2) \<Rightarrow> (Inl (Internal (''Failed to write deployment graph to '' @ output_path @ '': '' @ e)), f2)
              | (Inr _, f2) \<Rightarrow> (Inr (), f2)))"

section \<open>Commands\<close>

definition compile_validate :: "disk_io \<Rightarrow> fs \<Rightarrow> path \<Rightarrow> string \<Rightarrow> nat option" where
  "compile_validate io f cwd path =
     map_option (\<lambda>r. case r of
         Inl e \<Rightarrow> 1
       | Inr files \<Rightarrow> if files = [] then 0 else if vr_valid (validate_offline files) then 0 else 1)
       (parse_directory io f cwd path)"

fun compile_all :: "cluster_domain \<Rightarrow> parsed_file list \<Rightarrow> compile_result list result" where
  "compile_all d [] = Inr []"
| "compile_all d (f # fs) = and_then (compile f d) (\<lambda>c. and_then (compile_all d fs) (\<lambda>cs. Inr (c # cs)))"

definition compile_build :: "disk_io \<Rightarrow> path \<Rightarrow> cluster_domain \<Rightarrow> string \<Rightarrow> string \<Rightarrow> fs \<Rightarrow> (nat \<times> fs) option" where
  "compile_build io cwd domain path output f =
     map_option (\<lambda>r. case r of
         Inl e \<Rightarrow> (1, f)
       | Inr files \<Rightarrow>
           if files = [] then (0, f)
           else if \<not> vr_valid (validate_offline files) then (1, f)
           else
             (case compile_all domain files of
                Inl e \<Rightarrow> (1, f)
              | Inr compiled \<Rightarrow>
                  (case merge compiled [] of
                     Inl e \<Rightarrow> (1, f)
                   | Inr graph \<Rightarrow>
                       (case write_deployment io cwd graph output f of
                          (Inr _, f') \<Rightarrow> (0, f')
                        | (Inl e, f') \<Rightarrow> (1, f')))))
       (parse_directory io f cwd path)"


section \<open>A build writes only sound graphs\<close>

lemma parse_entries_returns: "\<exists>r. parse_entries io f dir dir_path names = Some r"
proof (induction names)
  case (Cons name names)
  show ?case
  proof (cases "fs_read io f (dir @ [name])")
    case (Inr source)
    have "\<exists>r. obind (parse source (entry_text dir_path name)) (\<lambda>file.
        obind (parse_entries io f dir dir_path names) (\<lambda>files. Some (Inr (file # files)))) = Some r"
      by (rule obind_returns [OF parse_returns]) (rule obind_returns [OF Cons.IH], simp)
    then show ?thesis using Cons.IH by (simp add: Inr)
  qed (use Cons.IH in simp)
qed simp

lemma parse_directory_returns: "\<exists>r. parse_directory io f cwd dir_path = Some r"
proof -
  have "\<exists>r. obind (parse source dir_path) (\<lambda>file. Some (Inr [file])) = Some r" for source
    by (rule obind_returns [OF parse_returns]) simp
  then show ?thesis
    unfolding parse_directory_def Let_def
    by (auto simp: parse_entries_returns split: sum.splits)
qed

lemma compile_all_ok: "compile_all d fs = Inr cs \<Longrightarrow> list_all2 (\<lambda>f c. compile f d = Inr c) fs cs"
  by (induction fs arbitrary: cs) (auto simp: and_then_Inr_iff)

lemma walk_put [simp]: "walk (put_file q x f) cur p = walk f cur p"
  by (induction f cur p rule: walk.induct) auto

lemma fs_write_result:
  "fs_write io p x f = (Inr (), f') \<Longrightarrow> \<exists>q. resolve f' p = Some q \<and> file_at f' q = Some x"
  by (auto simp: fs_write_def resolve_def split: option.splits if_splits write_outcome.splits)

lemma write_deployment_result:
  "write_deployment io cwd g out f = (Inr (), f') \<Longrightarrow>
   \<exists>q. resolve f' (path_join cwd out) = Some q \<and> file_at f' q = Some (dg_turtle g)"
  by (auto simp: write_deployment_def Let_def dest: fs_write_result split: prod.splits sum.splits option.splits)

text \<open>C6. \<open>picloud compile build\<close> always ends. Either it leaves the file system as it was, failing or
  finding no files, or it got past every check: the directory parsed, the files are valid together,
  each compiled, and the merged graph declares no IRI twice; on exit code 0 the output path holds
  that graph.\<close>

theorem build_writes_only_sound_graphs:
  "\<exists>code f'. compile_build io cwd d path out f = Some (code, f') \<and>
     ((f' = f \<and> (code = 1 \<or> parse_directory io f cwd path = Some (Inr []))) \<or>
      (\<exists>files cs g. parse_directory io f cwd path = Some (Inr files) \<and> vr_valid (validate_offline files) \<and>
         list_all2 (\<lambda>x c. compile x d = Inr c) files cs \<and> merge cs [] = Inr g \<and> distinct (dg_declared_iris g) \<and>
         (code = 0 \<longrightarrow> (\<exists>q. resolve f' (path_join cwd out) = Some q \<and> file_at f' q = Some (dg_turtle g)))))"
proof -
  obtain r where r: "parse_directory io f cwd path = Some r" using parse_directory_returns by blast
  consider (stops) code where "compile_build io cwd d path out f = Some (code, f)" "code = 1 \<or> r = Inr []"
    | (writes) files cs g where "r = Inr files" "vr_valid (validate_offline files)" "compile_all d files = Inr cs"
        "merge cs [] = Inr g" "files \<noteq> []"
  proof (cases r)
    case (Inl e)
    then show thesis by (intro that(1) [of 1]) (simp_all add: compile_build_def r)
  next
    case files: (Inr files)
    show thesis
    proof (cases "files \<noteq> [] \<and> vr_valid (validate_offline files)")
      case False
      then show thesis
        by (intro that(1) [of "if files = [] then 0 else 1"]) (auto simp: compile_build_def r files)
    next
      case True
      show thesis
      proof (cases "compile_all d files")
        case (Inl e)
        with True show thesis by (intro that(1) [of 1]) (simp_all add: compile_build_def r files)
      next
        case cs: (Inr cs)
        show thesis
        proof (cases "merge cs []")
          case (Inl e)
          with True cs show thesis by (intro that(1) [of 1]) (simp_all add: compile_build_def r files)
        next
          case (Inr g)
          with True cs files show thesis by (intro that(2)) auto
        qed
      qed
    qed
  qed
  then show ?thesis
  proof cases
    case stops
    then show ?thesis using r by blast
  next
    case (writes files cs g)
    obtain w f' where w: "write_deployment io cwd g out f = (w, f')" by fastforce
    have b: "compile_build io cwd d path out f = Some (case w of Inr _ \<Rightarrow> (0, f') | Inl _ \<Rightarrow> (1, f'))"
      by (cases w) (simp_all add: compile_build_def r writes w)
    obtain code where code: "compile_build io cwd d path out f = Some (code, f')"
      and ok: "code = 0 \<longrightarrow> w = Inr ()"
      using b by (cases w) auto
    have "distinct (dg_declared_iris g)" using writes(4) by (auto simp: merge_cases split: if_splits)
    moreover have "code = 0 \<longrightarrow> (\<exists>q. resolve f' (path_join cwd out) = Some q \<and> file_at f' q = Some (dg_turtle g))"
      using w ok write_deployment_result by blast
    ultimately show ?thesis
      using code r writes compile_all_ok [OF writes(3)] by blast
  qed
qed


theorem build_writes_only_sound_graphs_witness:
  "\<exists>f' q. \<exists>g :: deployment_graph. compile_build ok_io [] ''x'' ''d'' ''o''
       \<lparr>fs_dirs = [[''d'']], fs_files = [([''d'', ''a.picloud''], ''group '' @ [dquote, CHR ''g'', dquote] @ ''{}'')]\<rparr> = Some (0, f') \<and>
     file_at f' q = Some (dg_turtle g) \<and> distinct (dg_declared_iris g)"
proof -
  let ?f = "\<lparr>fs_dirs = [[''d'']], fs_files = [([''d'', ''a.picloud''], ''group '' @ [dquote, CHR ''g'', dquote] @ ''{}'')]\<rparr>"
  have p: "parse_directory ok_io ?f [] ''d'' = Some (Inr [\<lparr>pf_path = ''d/a.picloud'', pf_resources =
      [\<lparr>rd_resource_type = ''group'', rd_name = ''g'', rd_properties = [], rd_line = 1\<rparr>]\<rparr>])"
    by code_simp
  have c: "map_option fst (compile_build ok_io [] ''x'' ''d'' ''o'' ?f) = Some 0"
    by code_simp
  obtain code f' where b: "compile_build ok_io [] ''x'' ''d'' ''o'' ?f = Some (code, f')"
    and alt: "(f' = ?f \<and> (code = 1 \<or> parse_directory ok_io ?f [] ''d'' = Some (Inr []))) \<or>
      (\<exists>files cs g. parse_directory ok_io ?f [] ''d'' = Some (Inr files) \<and> vr_valid (validate_offline files) \<and>
         list_all2 (\<lambda>x c. compile x ''x'' = Inr c) files cs \<and> merge cs [] = Inr g \<and> distinct (dg_declared_iris g) \<and>
         (code = 0 \<longrightarrow> (\<exists>q. resolve f' (path_join [] ''o'') = Some q \<and> file_at f' q = Some (dg_turtle g))))"
    using build_writes_only_sound_graphs [of ok_io "[]" "''x''" "''d''" "''o''" ?f] by blast
  have z: "code = 0" using b c by simp
  have "\<not> (f' = ?f \<and> (code = 1 \<or> parse_directory ok_io ?f [] ''d'' = Some (Inr [])))"
    using p z by simp
  with alt z obtain g :: deployment_graph and q where "file_at f' q = Some (dg_turtle g)" "distinct (dg_declared_iris g)" by blast
  moreover have "compile_build ok_io [] ''x'' ''d'' ''o'' ?f = Some (0, f')" using b z by simp
  ultimately show ?thesis by blast
qed

end
