(* ===== verification/Resource_Builder.thy ===== *)
theory Resource_Builder
  imports Surface_Parser "HOL-Library.Char_ord" "HOL-Library.List_Lexorder"
begin

text \<open>
  The builder behind \<open>picloud new\<close> (\<open>crates/picloud-compiler/src/builder.rs\<close>): it collects property
  values, checks that the required ones are there and renders a \<open>.picloud\<close> file. The properties are
  a \<open>HashMap\<close>; rendering sorts its keys bytewise.
\<close>

section \<open>Builder\<close>

datatype builder_value =
    BSingle string
  | BSecret string
  | BList "string list"
  | BPairs "(string \<times> string) list"
  | BBlock "(string \<times> builder_value) list"

record resource_builder =
  rb_resource_type :: string
  rb_name :: "string option"
  rb_properties :: "(string \<times> builder_value) list"

definition KNOWN_RESOURCE_TYPES :: "string list" where
  "KNOWN_RESOURCE_TYPES =
     [''product'', ''container'', ''binary'', ''volume'', ''feature-flag'', ''config'',
      ''inference-rule'', ''event-store'', ''rdf-store'', ''ingress'', ''group'', ''event-subscription'',
      ''ontology'', ''role'', ''scope'', ''m2m-permission'']"

definition builder_new :: "string \<Rightarrow> resource_builder result" where
  "builder_new rt =
     (if rt \<notin> set KNOWN_RESOURCE_TYPES
      then Inl (ResourceValidationFailed
             (''Unknown resource type '' @ [squote] @ rt @ [squote] @ ''. Valid types: ''
              @ join '', '' KNOWN_RESOURCE_TYPES))
      else Inr \<lparr>rb_resource_type = rt, rb_name = None, rb_properties = []\<rparr>)"

definition builder_name :: "string \<Rightarrow> resource_builder \<Rightarrow> resource_builder" where
  "builder_name name b = b\<lparr>rb_name := Some name\<rparr>"

definition builder_property :: "string \<Rightarrow> string \<Rightarrow> resource_builder \<Rightarrow> resource_builder" where
  "builder_property key value b = b\<lparr>rb_properties := hm_insert key (BSingle value) (rb_properties b)\<rparr>"

definition builder_secret :: "string \<Rightarrow> string \<Rightarrow> resource_builder \<Rightarrow> resource_builder" where
  "builder_secret key secret_name b = b\<lparr>rb_properties := hm_insert key (BSecret secret_name) (rb_properties b)\<rparr>"

definition builder_list :: "string \<Rightarrow> string list \<Rightarrow> resource_builder \<Rightarrow> resource_builder" where
  "builder_list key vs b = b\<lparr>rb_properties := hm_insert key (BList vs) (rb_properties b)\<rparr>"

definition builder_pairs :: "string \<Rightarrow> (string \<times> string) list \<Rightarrow> resource_builder \<Rightarrow> resource_builder" where
  "builder_pairs key ps b = b\<lparr>rb_properties := hm_insert key (BPairs ps) (rb_properties b)\<rparr>"

section \<open>Rendering\<close>

definition quoted :: "string \<Rightarrow> string" where
  "quoted s = [dquote] @ s @ [dquote]"

definition pad :: "nat \<Rightarrow> string" where
  "pad indent = replicate (2 * indent) (CHR '' '')"

function render_property :: "string \<Rightarrow> builder_value \<Rightarrow> nat \<Rightarrow> string list" where
  "render_property key (BSingle v) indent = [pad indent @ key @ ''  = '' @ quoted v]"
| "render_property key (BSecret s) indent = [pad indent @ key @ ''  = secret('' @ quoted s @ '')'']"
| "render_property key (BList items) indent = map (\<lambda>item. pad indent @ key @ ''  = '' @ quoted item) items"
| "render_property key (BPairs ps) indent =
     map (\<lambda>(k, v). pad indent @ key @ '' { key = '' @ quoted k @ ''; value = '' @ quoted v @ '' }'') ps"
| "render_property key (BBlock props) indent =
     [pad indent @ key @ '' {'']
     @ concat (map (\<lambda>(k, v). render_property k v (indent + 1)) (sort_key fst props))
     @ [pad indent @ ''}'']"
  by pat_completeness auto

lemma size_in_block:
  "(k, v) \<in> set props \<Longrightarrow> size v < size (BBlock props)"
  by (induction props) auto

termination render_property
  by (relation "measure (\<lambda>(_, v, _). size v)") (auto dest: size_in_block)

definition render :: "resource_builder \<Rightarrow> string result" where
  "render b =
     (case rb_name b of
        None \<Rightarrow> Inl (ResourceValidationFailed ''Resource name is required'')
      | Some name \<Rightarrow>
          Inr (join [newline]
            ([rb_resource_type b @ '' '' @ quoted name @ '' {'']
             @ concat (map (\<lambda>(key, v). render_property key v 1) (sort_key fst (rb_properties b)))
             @ [''}'', []])))"

section \<open>Fields per resource type\<close>

definition required_fields :: "string \<Rightarrow> string list" where
  "required_fields resource_type =
     (if resource_type = ''product'' then [''version'']
      else if resource_type = ''container'' then [''product'', ''image'']
      else if resource_type = ''binary'' then [''product'', ''executable'']
      else if resource_type = ''volume'' then [''product'', ''size'']
      else if resource_type = ''feature-flag'' then [''product'', ''enabled'', ''version'']
      else if resource_type = ''config'' then [''product'']
      else if resource_type = ''inference-rule'' then [''product'', ''construct'']
      else if resource_type = ''event-store'' then [''product'']
      else if resource_type = ''rdf-store'' then [''product'']
      else if resource_type = ''ingress'' then [''product'', ''target'', ''port'']
      else if resource_type = ''group'' then []
      else if resource_type = ''event-subscription'' then [''product'', ''source'', ''event-type'', ''handler'']
      else if resource_type = ''ontology'' then [''product'', ''file'']
      else if resource_type = ''role'' then [''product'']
      else if resource_type = ''scope'' then [''product'']
      else if resource_type = ''m2m-permission'' then [''product'', ''client'', ''scopes'']
      else [])"

definition validate_required :: "resource_builder \<Rightarrow> unit result" where
  "validate_required b =
     (let missing = filter (\<lambda>f. f \<notin> fst ` set (rb_properties b)) (required_fields (rb_resource_type b)) in
      if missing \<noteq> []
      then Inl (ResourceValidationFailed
             (rb_resource_type b @ '' '' @ [squote] @ (case rb_name b of Some n \<Rightarrow> n | None \<Rightarrow> ''<unnamed>'')
              @ [squote] @ '' missing required fields: '' @ join '', '' missing))
      else Inr ())"

datatype field_type = FString | FInt | FBool | FSecret | FMount | FTagList | FEnum "string list"

record field_descriptor =
  fd_name :: string
  fd_description :: string
  fd_field_type :: field_type
  fd_example :: "string option"

definition optional_fields :: "string \<Rightarrow> field_descriptor list" where
  "optional_fields resource_type =
     (if resource_type = ''container'' then
        [\<lparr>fd_name = ''identity'', fd_description = ''Workload identity name'',
           fd_field_type = FString, fd_example = Some ''api-worker''\<rparr>,
         \<lparr>fd_name = ''mount'', fd_description = ''Volume to mount into the container'',
           fd_field_type = FMount, fd_example = Some ''media-store:/data''\<rparr>,
         \<lparr>fd_name = ''tag'', fd_description = ''Resource tags (key=value)'',
           fd_field_type = FTagList, fd_example = Some ''team=backend''\<rparr>,
         \<lparr>fd_name = ''cpu'', fd_description = ''CPU limit in millicores'',
           fd_field_type = FInt, fd_example = Some ''500''\<rparr>,
         \<lparr>fd_name = ''memory'', fd_description = ''Memory limit in MB'',
           fd_field_type = FInt, fd_example = Some ''512''\<rparr>]
      else if resource_type = ''volume'' then
        [\<lparr>fd_name = ''durability'', fd_description = ''Storage durability tier'',
           fd_field_type = FEnum [''full-replication'', ''quorum'', ''local'', ''none''], fd_example = Some ''full-replication''\<rparr>,
         \<lparr>fd_name = ''snapshots'', fd_description = ''Enable point-in-time snapshots to NAS'',
           fd_field_type = FBool, fd_example = Some ''true''\<rparr>,
         \<lparr>fd_name = ''offsite'', fd_description = ''Enable offsite backup to S3'',
           fd_field_type = FBool, fd_example = Some ''true''\<rparr>,
         \<lparr>fd_name = ''tag'', fd_description = ''Resource tags (key=value)'',
           fd_field_type = FTagList, fd_example = Some ''tier=storage''\<rparr>]
      else if resource_type = ''feature-flag'' then
        [\<lparr>fd_name = ''description'', fd_description = ''Human-readable description of the flag'',
           fd_field_type = FString, fd_example = Some ''Enables the redesigned upload flow''\<rparr>]
      else if resource_type = ''ingress'' then
        [\<lparr>fd_name = ''host'', fd_description = ''Hostname for host-based routing'',
           fd_field_type = FString, fd_example = Some ''photos.picloud.local''\<rparr>,
         \<lparr>fd_name = ''tls'', fd_description = ''Enable TLS termination'',
           fd_field_type = FBool, fd_example = Some ''true''\<rparr>,
         \<lparr>fd_name = ''internal'', fd_description = ''Internal mesh only -- not externally reachable'',
           fd_field_type = FBool, fd_example = Some ''false''\<rparr>]
      else [])"

definition builder_required_fields :: "resource_builder \<Rightarrow> string list" where
  "builder_required_fields b = required_fields (rb_resource_type b)"

definition builder_optional_fields :: "resource_builder \<Rightarrow> field_descriptor list" where
  "builder_optional_fields b = optional_fields (rb_resource_type b)"

section \<open>Reading rendered text\<close>

text \<open>Equations of the scanner on a state given by its text and line, and fuel monotonicity.\<close>

named_theorems scan_simps \<open>the scanner on concrete text\<close>

abbreviation at :: "string \<Rightarrow> nat \<Rightarrow> parser" where
  "at s l \<equiv> \<lparr>ps_rest = s, ps_line = l\<rparr>"

definition stops :: "char \<Rightarrow> bool" where
  "stops c \<longleftrightarrow> c \<notin> {CHR '' '', CHR 0x09, carriage, newline, CHR ''/''}"

lemma skip_ws_at [scan_simps]:
  "skip_ws (at [] l) = at [] l"
  "skip_ws (at (CHR '' '' # s) l) = skip_ws (at s l)"
  "skip_ws (at (newline # s) l) = skip_ws (at s (Suc l))"
  "stops c \<Longrightarrow> skip_ws (at (c # s) l) = at (c # s) l"
  by (auto simp: skip_ws_def stops_def starts_with_def)

lemma skip_ws_pad [scan_simps]: "skip_ws (at (pad n @ s) l) = skip_ws (at s l)"
proof -
  have "skip_ws (at (replicate k (CHR '' '') @ s) l) = skip_ws (at s l)" for k
    by (induction k) (simp_all add: scan_simps)
  then show ?thesis by (simp add: pad_def)
qed

lemma stops_alphabetic: "is_ascii_alphabetic c \<Longrightarrow> stops c \<and> ascii c \<and> c \<noteq> CHR ''}'' \<and> c \<noteq> CHR '';''"
  by (auto simp: is_ascii_alphabetic_def stops_def ascii_def Let_def)

lemma is_ident_Cons: "is_ident key \<Longrightarrow> \<exists>c cs. key = c # cs \<and> is_ascii_alphabetic c"
  by (cases key) (auto simp: is_ident_def)

lemma skip_ws_ident [scan_simps]: "is_ident key \<Longrightarrow> skip_ws (at (key @ s) l) = at (key @ s) l"
  using is_ident_Cons [of key] stops_alphabetic by (fastforce simp: scan_simps)

lemma peek_ident: "is_ident key \<Longrightarrow> peek (at (key @ s) l) \<noteq> Some ''}'' \<and> peek (at (key @ s) l) \<noteq> None"
  using is_ident_Cons [of key] stops_alphabetic by (fastforce simp: peek_Cons)

lemma takeWhile_ident:
  assumes "list_all ident_char key" "\<not> ident_char c"
  shows "takeWhile ident_char (key @ c # s) = key" "dropWhile ident_char (key @ c # s) = c # s"
  using assms by (induction key) auto

lemma parse_ident_at [scan_simps]:
  assumes "is_ident key" "\<not> ident_char c"
  shows "parse_ident (at (key @ c # s) l) = Inr (key, at (c # s) l)"
proof -
  obtain b bs where b: "key = b # bs" "is_ascii_alphabetic b" using is_ident_Cons [OF assms(1)] by blast
  have "list_all ident_char key" using assms(1) by (simp add: is_ident_def)
  note tw = takeWhile_ident [OF this assms(2), of s]
  have "key @ c # s \<noteq> []" "is_ascii_alphabetic (hd (key @ c # s))" using b by auto
  with tw show ?thesis unfolding parse_ident_def Let_def skip_ws_ident [OF assms(1)] by simp
qed

lemma advance_at [scan_simps]:
  "ascii c \<Longrightarrow> c \<noteq> newline \<Longrightarrow> snd (advance (at (c # s) l)) = at s l"
  by (simp add: advance_def peek_Cons)

lemma expect_char_at [scan_simps]:
  "stops c \<Longrightarrow> ascii c \<Longrightarrow> expect_char c (at (c # s) l) = Inr (at s l)"
  by (auto simp: expect_char_def scan_simps peek_Cons stops_def)

lemma expect_char_skip [scan_simps]: "expect_char c (at (CHR '' '' # s) l) = expect_char c (at s l)"
  by (simp add: expect_char_def scan_simps)

lemma scan_string_at:
  "dquote \<notin> set v \<Longrightarrow> scan_string acc (v @ dquote # s) l = Inr (rev acc @ v, s, l + count_list v newline)"
  by (induction v arbitrary: acc l) auto

lemma parse_string_at [scan_simps]:
  "dquote \<notin> set v \<Longrightarrow> parse_string (at (quoted v @ s) l) = Inr (v, at s (l + count_list v newline))"
  using scan_string_at [of v "[]" s l]
  by (simp add: parse_string_def quoted_def scan_simps stops_def ascii_def)

lemma parse_string_skip [scan_simps]: "parse_string (at (CHR '' '' # s) l) = parse_string (at s l)"
  by (simp add: parse_string_def scan_simps)

lemma obind_mono:
  "obind r f = Some u \<Longrightarrow> (\<And>x. r = Some x \<Longrightarrow> r' = Some x) \<Longrightarrow>
   (\<And>a u. f a = Some u \<Longrightarrow> f' a = Some u) \<Longrightarrow> obind r' f' = Some u"
  by (auto simp: obind_def split: option.splits sum.splits)

lemma parse_mono:
  "parse_value n p = Some x \<Longrightarrow> n \<le> m \<Longrightarrow> parse_value m p = Some x"
  "parse_block_value n p = Some y \<Longrightarrow> n \<le> m \<Longrightarrow> parse_block_value m p = Some y"
  "parse_properties n props p = Some z \<Longrightarrow> n \<le> m \<Longrightarrow> parse_properties m props p = Some z"
proof (induction n arbitrary: p props x y z m)
  case (Suc n)
  have ex: "\<exists>k. m = Suc k \<and> n \<le> k" if "Suc n \<le> m" for m using that by (cases m) auto
  {
    case 1
    obtain k where k: "m = Suc k" "n \<le> k" using ex [OF 1(2)] by blast
    show ?case
    proof (cases "peek (skip_ws p) = Some ''{''")
      case True
      show ?thesis using 1(1) unfolding k parse_value_block [OF True]
        by (rule obind_mono) (erule Suc.IH(2) [OF _ k(2)], assumption)
    next
      case False
      then have "parse_value (Suc k) p = parse_value (Suc n) p"
        by (cases "peek (skip_ws p)") (simp_all add: Let_def del: peek_None)
      then show ?thesis using 1(1) k by simp
    qed
  next
    case 2
    obtain k where k: "m = Suc k" "n \<le> k" using ex [OF 2(2)] by blast
    show ?case unfolding k parse_block_value.simps
      by (rule obind_mono [OF 2(1) [unfolded parse_block_value.simps]], assumption,
          erule obind_mono, erule Suc.IH(3), rule k(2), assumption)
  next
    case 3
    obtain k where k: "m = Suc k" "n \<le> k" using ex [OF 3(2)] by blast
    have A: "obind (parse_value k q) (\<lambda>(v, p3). parse_properties k (add_assigned key v line props) (skip_semicolon p3)) = Some z"
      if "obind (parse_value n q) (\<lambda>(v, p3). parse_properties n (add_assigned key v line props) (skip_semicolon p3)) = Some z"
      for q key line z
      by (rule obind_mono [OF that], erule Suc.IH(1) [OF _ k(2)])
        (auto split: prod.splits intro: Suc.IH(3) [OF _ k(2)])
    have B: "obind (parse_block_value k q) (\<lambda>(bp, p3). obind (Some (add_block key bp line props)) (\<lambda>ps. parse_properties k ps p3)) = Some z"
      if "obind (parse_block_value n q) (\<lambda>(bp, p3). obind (Some (add_block key bp line props)) (\<lambda>ps. parse_properties n ps p3)) = Some z"
      for q key line z
      by (rule obind_mono [OF that], erule Suc.IH(2) [OF _ k(2)])
        (auto split: prod.splits intro: Suc.IH(3) [OF _ k(2)] elim!: obind_mono)
    show ?case
    proof (cases "parse_ident (skip_ws p)")
      case (Inr r)
      obtain key p1 where r: "r = (key, p1)" by fastforce
      show ?thesis using 3(1) A B unfolding k parse_properties.simps Let_def Inr r
        by (auto split: if_splits)
    qed (use 3(1) k in \<open>auto simp: Let_def split: if_splits\<close>)
  }
qed simp_all

subsection \<open>One rendered line\<close>

definition no_semi :: "string \<Rightarrow> bool" where
  "no_semi s \<longleftrightarrow> (\<forall>l. peek (skip_ws (at s l)) \<noteq> Some '';'')"

lemma concrete_chars [scan_simps]:
  "stops dquote" "ascii dquote" "stops (CHR ''='')" "ascii (CHR ''='')" "stops (CHR ''{'')" "ascii (CHR ''{'')"
  "stops (CHR ''}'')" "ascii (CHR ''}'')" "stops (CHR '';'')" "ascii (CHR '';'')" "stops (CHR '')'')"
  "ascii (CHR '')'')" "stops (CHR ''s'')" "ascii (CHR ''s'')" "\<not> ident_char (CHR '' '')"
  by (simp_all add: stops_def ascii_def ident_char_def is_ascii_alphanumeric_def is_ascii_alphabetic_def is_digit_def)

lemma at_quoted [scan_simps]:
  "skip_ws (at (quoted v @ s) l) = at (quoted v @ s) l"
  "peek (at (quoted v @ s) l) = Some [dquote]"
  by (simp_all add: quoted_def scan_simps peek_Cons)

lemma parse_properties_skip: "parse_properties n props (skip_ws p) = parse_properties n props p"
  by (cases n) simp_all

lemma parse_value_quoted [scan_simps]:
  "dquote \<notin> set v \<Longrightarrow>
   parse_value (Suc n) (at (CHR '' '' # quoted v @ s) l) = Some (Inr (PString v, at s (l + count_list v newline)))"
  by (simp add: scan_simps)

lemma parse_value_secret [scan_simps]:
  "dquote \<notin> set v \<Longrightarrow>
   parse_value (Suc n) (at (CHR '' '' # ''secret('' @ quoted v @ CHR '')'' # s) l) =
   Some (Inr (PSecret v, at s (l + count_list v newline)))"
  by (simp add: scan_simps peek_Cons is_digit_def remaining_def starts_with_def parse_secret_def)

lemma skip_semicolon_end: "no_semi s \<Longrightarrow> skip_semicolon (at (newline # s) l) = skip_ws (at s (Suc l))"
  by (simp add: skip_semicolon_def no_semi_def scan_simps)

text \<open>One assignment, and a rendered line \<open>key  = value\<close> followed by a text that does not start
  with a semicolon.\<close>

lemma assigned_step:
  assumes key: "is_ident key" and t: "skip_ws p = at (key @ CHR '' '' # u) l"
    and e: "skip_ws (at (CHR '' '' # u) l) = at (CHR ''='' # w) l"
    and v: "parse_value n (at w l) = Some (Inr (v, q))"
  shows "parse_properties (Suc n) props p = parse_properties n (add_assigned key v l props) (skip_semicolon q)"
proof -
  have k: "parse_ident (at (key @ CHR '' '' # u) l) = Inr (key, at (CHR '' '' # u) l)"
    by (simp add: parse_ident_at [OF key] scan_simps)
  have pe: "peek (at (CHR ''='' # w) l) = Some ''=''" by (simp add: peek_Cons scan_simps)
  have a: "snd (advance (at (CHR ''='' # w) l)) = at w l" by (simp add: scan_simps)
  show ?thesis
    unfolding parse_properties.simps(2) [of n] Let_def t
    by (simp only: k obind_simps prod.case e pe a v if_True if_False simp_thms) (simp add: peek_ident [OF key])
qed

lemma assigned_line:
  assumes key: "is_ident key" and s: "no_semi s"
    and v: "parse_value n (at (CHR '' '' # txt @ newline # s) l) = Some (Inr (v, at (newline # s) m))"
  shows "parse_properties (Suc n) props (at (pad i @ key @ ''  = '' @ txt @ newline # s) l) =
         parse_properties n (add_assigned key v l props) (at s (Suc m))"
proof -
  have "parse_properties (Suc n) props (at (pad i @ key @ ''  = '' @ txt @ newline # s) l) =
        parse_properties n (add_assigned key v l props) (skip_semicolon (at (newline # s) m))"
    by (rule assigned_step [OF key, where u = "'' = '' @ txt @ newline # s" and w = "'' '' @ txt @ newline # s"])
      (use key v in \<open>simp_all add: scan_simps\<close>)
  then show ?thesis by (simp add: skip_semicolon_end [OF s] parse_properties_skip)
qed

text \<open>A rendered pair.\<close>

abbreviation pair_block :: "string \<Rightarrow> string \<Rightarrow> nat \<Rightarrow> property list" where
  "pair_block k v l \<equiv>
     [Property ''key'' (PString k) l, Property ''value'' (PString v) (l + count_list k newline)]"

lemma is_ident_pair: "is_ident ''key''" "is_ident ''value''"
  by (simp_all add: is_ident_def ident_char_def is_ascii_alphanumeric_def is_ascii_alphabetic_def)

lemma pair_inside:
  assumes k: "dquote \<notin> set k" and v: "dquote \<notin> set v"
  shows "parse_properties (Suc (Suc (Suc n))) [] (at ('' key = '' @ quoted k @ ''; value = '' @ quoted v @ '' }'' @ s) l) =
         Some (Inr (pair_block k v l, at (CHR ''}'' # s) (l + count_list k newline + count_list v newline)))"
proof -
  let ?r = "''; value = '' @ quoted v @ '' }'' @ s" and ?m = "l + count_list k newline"
  have "parse_properties (Suc (Suc (Suc n))) [] (at ('' key = '' @ quoted k @ ?r) l) =
        parse_properties (Suc (Suc n)) (add_assigned ''key'' (PString k) l []) (skip_semicolon (at ?r ?m))"
    by (rule assigned_step [OF is_ident_pair(1), where u = "''= '' @ quoted k @ ?r" and w = "'' '' @ quoted k @ ?r"])
      (use k skip_ws_ident [OF is_ident_pair(1), of "'' = '' @ quoted k @ ?r" l] in \<open>simp_all add: scan_simps\<close>)
  also have "skip_semicolon (at ?r ?m) = at ('' value = '' @ quoted v @ '' }'' @ s) ?m"
    by (simp add: skip_semicolon_def scan_simps peek_Cons)
  also have "parse_properties (Suc (Suc n)) (add_assigned ''key'' (PString k) l []) \<dots> =
        parse_properties (Suc n) (add_assigned ''value'' (PString v) ?m (add_assigned ''key'' (PString k) l []))
          (skip_semicolon (at ('' }'' @ s) (?m + count_list v newline)))"
    by (rule assigned_step [OF is_ident_pair(2), where u = "''= '' @ quoted v @ '' }'' @ s" and w = "'' '' @ quoted v @ '' }'' @ s"])
      (use v skip_ws_ident [OF is_ident_pair(2), of "'' = '' @ quoted v @ '' }'' @ s" ?m] in \<open>simp_all add: scan_simps\<close>)
  also have "skip_semicolon (at ('' }'' @ s) (?m + count_list v newline)) = at (CHR ''}'' # s) (?m + count_list v newline)"
    by (simp add: skip_semicolon_def scan_simps peek_Cons)
  finally show ?thesis
    by (simp add: scan_simps peek_Cons add_assigned_def find_key_def)
qed

lemma pair_line:
  assumes key: "is_ident key" and k: "dquote \<notin> set k" and v: "dquote \<notin> set v"
    and b: "add_block key (pair_block k v l) l props = Inr props'" and N: "N = Suc (Suc (Suc (Suc n)))"
  shows "parse_properties (Suc N) props
           (at (pad i @ key @ '' { key = '' @ quoted k @ ''; value = '' @ quoted v @ '' }'' @ newline # s) l) =
         parse_properties N props' (at s (Suc (l + count_list k newline + count_list v newline)))"
proof -
  let ?in = "'' key = '' @ quoted k @ ''; value = '' @ quoted v @ '' }'' @ newline # s"
  let ?m = "l + count_list k newline + count_list v newline"
  have t: "skip_ws (at (pad i @ key @ '' {'' @ ?in) l) = at (key @ CHR '' '' # CHR ''{'' # ?in) l"
    using key by (simp add: scan_simps)
  have i: "parse_ident (at (key @ CHR '' '' # CHR ''{'' # ?in) l) = Inr (key, at (CHR '' '' # CHR ''{'' # ?in) l)"
    by (simp only: parse_ident_at [OF key concrete_chars(15)])
  have e: "skip_ws (at (CHR '' '' # CHR ''{'' # ?in) l) = at (CHR ''{'' # ?in) l"
    by (simp add: scan_simps)
  have pe: "peek (at (CHR ''{'' # ?in) l) = Some ''{''"
    by (simp add: peek_Cons scan_simps)
  have bv: "parse_block_value N (at (CHR ''{'' # ?in) l) = Some (Inr (pair_block k v l, at (newline # s) ?m))"
    unfolding N parse_block_value.simps expect_char_at [OF concrete_chars(5,6)] obind_simps
      pair_inside [OF k v] prod.case expect_char_at [OF concrete_chars(7,8)] by (rule refl)
  have nl: "parse_properties m ps (at (newline # s) ?m) = parse_properties m ps (at s (Suc ?m))" for m ps
    using parse_properties_skip [of m ps "at (newline # s) ?m"] parse_properties_skip [of m ps "at s (Suc ?m)"]
    by (simp add: scan_simps)
  have "parse_properties (Suc N) props (at (pad i @ key @ '' {'' @ ?in) l) =
        parse_properties N props' (at (newline # s) ?m)"
    unfolding parse_properties.simps(2) [of N] Let_def t
    using peek_ident [OF key, of "CHR '' '' # CHR ''{'' # ?in" l]
    by (simp only: i obind_simps prod.case e pe bv if_True if_False simp_thms) (simp add: b)
  then show ?thesis unfolding nl by (simp only: append.simps)
qed

subsection \<open>All rendered lines\<close>

text \<open>\<open>reads k props p props' q\<close>: in \<open>k\<close> rounds the property loop goes from one state to the other.\<close>

definition reads :: "nat \<Rightarrow> property list \<Rightarrow> parser \<Rightarrow> property list \<Rightarrow> parser \<Rightarrow> bool" where
  "reads k props p props' q \<longleftrightarrow> (\<forall>N \<ge> 4. parse_properties (k + N) props p = parse_properties N props' q)"

lemma reads_refl: "reads 0 props p props p"
  by (simp add: reads_def)

lemma reads_trans:
  assumes "reads j props p props' q" "reads k props' q props'' r"
  shows "reads (j + k) props p props'' r"
  unfolding reads_def
proof (intro allI impI)
  fix N :: nat assume N: "4 \<le> N"
  have "parse_properties (j + (k + N)) props p = parse_properties (k + N) props' q"
    using assms(1) N by (simp add: reads_def)
  also have "\<dots> = parse_properties N props'' r" using assms(2) N by (simp add: reads_def)
  finally show "parse_properties (j + k + N) props p = parse_properties N props'' r"
    by (simp only: add.assoc)
qed

lemma reads_Suc: "reads 1 props p props' q \<Longrightarrow> reads k props' q props'' r \<Longrightarrow> reads (Suc k) props p props'' r"
  using reads_trans [of 1 props p props' q k] by simp

lemma reads_assigned:
  assumes "is_ident key" "no_semi s"
    and "\<And>n. parse_value (Suc n) (at (CHR '' '' # txt @ newline # s) l) = Some (Inr (v, at (newline # s) m))"
  shows "reads 1 props (at (pad i @ key @ ''  = '' @ txt @ newline # s) l) (add_assigned key v l props) (at s (Suc m))"
  unfolding reads_def
proof (intro allI impI)
  fix N :: nat assume "4 \<le> N"
  then obtain n where N: "N = Suc n" by (cases N) auto
  show "parse_properties (1 + N) props (at (pad i @ key @ ''  = '' @ txt @ newline # s) l) =
        parse_properties N (add_assigned key v l props) (at s (Suc m))"
    unfolding N plus_1_eq_Suc by (rule assigned_line [OF assms(1,2) assms(3)])
qed

lemma reads_string:
  "is_ident key \<Longrightarrow> no_semi s \<Longrightarrow> dquote \<notin> set v \<Longrightarrow>
   reads 1 props (at (pad i @ key @ ''  = '' @ quoted v @ newline # s) l)
     (add_assigned key (PString v) l props) (at s (Suc (l + count_list v newline)))"
  by (rule reads_assigned) (simp_all add: parse_value_quoted del: parse_value.simps)

lemma reads_secret:
  assumes "is_ident key" "no_semi s" "dquote \<notin> set v"
  shows "reads 1 props (at (pad i @ key @ ''  = secret('' @ quoted v @ '')'' @ newline # s) l)
     (add_assigned key (PSecret v) l props) (at s (Suc (l + count_list v newline)))"
proof -
  have "parse_value (Suc n) (at (CHR '' '' # (''secret('' @ quoted v @ '')'') @ newline # s) l) =
        Some (Inr (PSecret v, at (newline # s) (l + count_list v newline)))" for n
    using parse_value_secret [OF assms(3), of n "newline # s" l] by (simp del: parse_value.simps)
  from reads_assigned [OF assms(1,2) this] show ?thesis by simp
qed

lemma reads_pair:
  assumes "is_ident key" "dquote \<notin> set k" "dquote \<notin> set v"
    and "add_block key (pair_block k v l) l props = Inr props'"
  shows "reads 1 props (at (pad i @ key @ '' { key = '' @ quoted k @ ''; value = '' @ quoted v @ '' }'' @ newline # s) l)
     props' (at s (Suc (l + count_list k newline + count_list v newline)))"
  unfolding reads_def
proof (intro allI impI)
  fix N :: nat assume "4 \<le> N"
  then obtain n where N: "N = Suc (Suc (Suc (Suc n)))" by (auto simp: numeral_eq_Suc le_iff_add)
  show "parse_properties (1 + N) props
      (at (pad i @ key @ '' { key = '' @ quoted k @ ''; value = '' @ quoted v @ '' }'' @ newline # s) l) =
    parse_properties N props' (at s (Suc (l + count_list k newline + count_list v newline)))"
    unfolding plus_1_eq_Suc by (rule pair_line [OF assms N])
qed

fun unline_value :: "property_value \<Rightarrow> property_value" and unline :: "property \<Rightarrow> property" where
  "unline_value (PBlock ps) = PBlock (map unline ps)"
| "unline_value (PBlocks bs) = PBlocks (map (map unline) bs)"
| "unline_value v = v"
| "unline (Property k v l) = Property k (unline_value v) 0"

lemma p_key_unline [simp]: "p_key (unline p) = p_key p"
  by (cases p) simp

text \<open>What a property of the builder is read back as, up to line numbers: of a list only the first
  item survives, a single pair is a block and several pairs are repeated blocks.\<close>

definition pair_props :: "string \<times> string \<Rightarrow> property list" where
  "pair_props kv = [Property ''key'' (PString (fst kv)) 0, Property ''value'' (PString (snd kv)) 0]"

fun as_parsed :: "string \<Rightarrow> builder_value \<Rightarrow> property list" where
  "as_parsed key (BSingle v) = [Property key (PString v) 0]"
| "as_parsed key (BSecret s) = [Property key (PSecret s) 0]"
| "as_parsed key (BList []) = []"
| "as_parsed key (BList (x # xs)) = [Property key (PString x) 0]"
| "as_parsed key (BPairs []) = []"
| "as_parsed key (BPairs [kv]) = [Property key (PBlock (pair_props kv)) 0]"
| "as_parsed key (BPairs kvs) = [Property key (PBlocks (map pair_props kvs)) 0]"
| "as_parsed key (BBlock props) = []"

text \<open>The values the methods of the builder insert, with strings that hold no quote.\<close>

fun plain_value :: "builder_value \<Rightarrow> bool" where
  "plain_value (BSingle v) \<longleftrightarrow> dquote \<notin> set v"
| "plain_value (BSecret s) \<longleftrightarrow> dquote \<notin> set s"
| "plain_value (BList items) \<longleftrightarrow> (\<forall>x \<in> set items. dquote \<notin> set x)"
| "plain_value (BPairs ps) \<longleftrightarrow> (\<forall>(k, v) \<in> set ps. dquote \<notin> set k \<and> dquote \<notin> set v)"
| "plain_value (BBlock props) \<longleftrightarrow> False"

lemma no_semi_pad: "no_semi (pad i @ s) = no_semi s"
  by (simp add: no_semi_def scan_simps)

lemma no_semi_key: "is_ident key \<Longrightarrow> no_semi (key @ s)"
  using is_ident_Cons [of key] stops_alphabetic by (fastforce simp: no_semi_def scan_simps peek_Cons)

lemma no_semi_lines:
  assumes "is_ident key" "no_semi s"
  shows "no_semi (unlines (map (\<lambda>x. pad i @ key @ f x) xs) @ s)"
  using assms by (cases xs) (simp_all add: no_semi_pad no_semi_key)

lemma find_key_snoc:
  "key \<notin> p_key ` set ps \<Longrightarrow> find_key key (ps @ [Property key v l]) = Some (Property key v l)"
  unfolding find_key_def by (induction ps) auto

lemma set_value_snoc:
  "key \<notin> p_key ` set ps \<Longrightarrow> set_value key w (ps @ [Property key v l]) = ps @ [Property key w l]"
  by (induction ps) auto

lemma add_assigned_new: "key \<notin> p_key ` set ps \<Longrightarrow> add_assigned key v l ps = ps @ [Property key v l]"
  by (simp add: add_assigned_def find_key_None [THEN iffD2])

lemma add_assigned_taken:
  "key \<notin> p_key ` set ps \<Longrightarrow>
   add_assigned key v l (ps @ [Property key (PString w) k]) = ps @ [Property key (PString w) k]"
  by (simp add: add_assigned_def find_key_snoc)

lemma add_block_cases:
  assumes "key \<notin> p_key ` set ps"
  shows "add_block key bp l ps = Inr (ps @ [Property key (PBlock bp) l])"
    "add_block key bp l (ps @ [Property key (PBlock b) k]) = Inr (ps @ [Property key (PBlocks [b, bp]) k])"
    "add_block key bp l (ps @ [Property key (PBlocks bs) k]) = Inr (ps @ [Property key (PBlocks (bs @ [bp])) k])"
  using assms by (simp_all add: add_block_def find_key_None [THEN iffD2] find_key_snoc set_value_snoc)

lemma reads_list_rest:
  assumes "is_ident key" "no_semi s" "key \<notin> p_key ` set ps"
  shows "\<forall>x \<in> set items. dquote \<notin> set x \<Longrightarrow>
     \<exists>m. reads (length items) (ps @ [Property key (PString w) k])
       (at (unlines (map (\<lambda>item. pad i @ key @ ''  = '' @ quoted item) items) @ s) l)
       (ps @ [Property key (PString w) k]) (at s m)"
proof (induction items arbitrary: l)
  case Nil
  then show ?case using reads_refl by auto
next
  case (Cons x xs)
  let ?t = "unlines (map (\<lambda>item. pad i @ key @ ''  = '' @ quoted item) xs) @ s"
  obtain m where "reads (length xs) (ps @ [Property key (PString w) k]) (at ?t (Suc (l + count_list x newline)))
      (ps @ [Property key (PString w) k]) (at s m)"
    using Cons by auto
  moreover have "no_semi ?t" by (rule no_semi_lines [OF assms(1,2)])
  ultimately show ?case
    using reads_Suc [OF reads_string [OF assms(1), of ?t x "ps @ [Property key (PString w) k]" i l]] Cons.prems
    by (auto simp: add_assigned_taken [OF assms(3)])
qed

abbreviation pair_text :: "string \<Rightarrow> string \<times> string \<Rightarrow> string" where
  "pair_text key kv \<equiv> '' { key = '' @ quoted (fst kv) @ ''; value = '' @ quoted (snd kv) @ '' }''"

lemma reads_pairs_rest:
  assumes "is_ident key" "key \<notin> p_key ` set ps"
  shows "\<forall>(k, v) \<in> set kvs. dquote \<notin> set k \<and> dquote \<notin> set v \<Longrightarrow>
     \<exists>new m. reads (length kvs) (ps @ [Property key (PBlocks bs) k])
       (at (unlines (map (\<lambda>kv. pad i @ key @ pair_text key kv) kvs) @ s) l)
       (ps @ [Property key (PBlocks (bs @ new)) k]) (at s m) \<and> map (map unline) new = map pair_props kvs"
proof (induction kvs arbitrary: l bs)
  case Nil
  then show ?case using reads_refl by (intro exI [of _ "[]"] exI [of _ l]) auto
next
  case (Cons kv kvs)
  let ?t = "unlines (map (\<lambda>kv. pad i @ key @ pair_text key kv) kvs) @ s"
  let ?b = "pair_block (fst kv) (snd kv) l" and ?m = "Suc (l + count_list (fst kv) newline + count_list (snd kv) newline)"
  obtain new m where new: "reads (length kvs) (ps @ [Property key (PBlocks (bs @ [?b])) k]) (at ?t ?m)
      (ps @ [Property key (PBlocks ((bs @ [?b]) @ new)) k]) (at s m)" "map (map unline) new = map pair_props kvs"
  proof -
    have "\<forall>(k, v) \<in> set kvs. dquote \<notin> set k \<and> dquote \<notin> set v" using Cons.prems by simp
    from Cons.IH [OF this, of "bs @ [?b]" ?m] show thesis using that by blast
  qed
  have "reads 1 (ps @ [Property key (PBlocks bs) k]) (at (pad i @ key @ pair_text key kv @ newline # ?t) l)
      (ps @ [Property key (PBlocks (bs @ [?b])) k]) (at ?t ?m)"
  proof -
    have q: "dquote \<notin> set (fst kv)" "dquote \<notin> set (snd kv)" using Cons.prems by auto
    show ?thesis
      using reads_pair [OF assms(1) q add_block_cases(3) [OF assms(2)], of bs k i ?t] by simp
  qed
  from reads_Suc [OF this new(1)] new(2) show ?case
    by (intro exI [of _ "?b # new"] exI [of _ m]) (auto simp: pair_props_def)
qed

lemma render_pairs:
  "render_property key (BPairs kvs) i = map (\<lambda>kv. pad i @ key @ pair_text key kv) kvs"
  by (simp add: case_prod_beta)

lemma reads_value:
  assumes key: "is_ident key" and v: "plain_value v" and s: "no_semi s" and fresh: "key \<notin> p_key ` set ps"
  shows "\<exists>new m. reads (length (render_property key v i)) ps (at (unlines (render_property key v i) @ s) l)
           (ps @ new) (at s m) \<and> map unline new = as_parsed key v"
proof (cases v)
  case (BSingle x)
  then show ?thesis
    using reads_string [OF key s, of x ps i l] v
    by (intro exI [of _ "[Property key (PString x) l]"]) (auto simp: add_assigned_new [OF fresh])
next
  case (BSecret x)
  then show ?thesis
    using reads_secret [OF key s, of x ps i l] v
    by (intro exI [of _ "[Property key (PSecret x) l]"]) (auto simp: add_assigned_new [OF fresh])
next
  case (BList items)
  show ?thesis
  proof (cases items)
    case Nil
    then show ?thesis using BList reads_refl by (intro exI [of _ "[]"] exI [of _ l]) auto
  next
    case (Cons x xs)
    let ?t = "unlines (map (\<lambda>item. pad i @ key @ ''  = '' @ quoted item) xs) @ s"
    let ?ps = "ps @ [Property key (PString x) l]" and ?m = "Suc (l + count_list x newline)"
    have q: "dquote \<notin> set x" "\<forall>x \<in> set xs. dquote \<notin> set x" using v BList Cons by auto
    have 1: "reads 1 ps (at (pad i @ key @ ''  = '' @ quoted x @ newline # ?t) l) ?ps (at ?t ?m)"
    proof -
      have "no_semi ?t" using no_semi_lines [OF key s, of i "\<lambda>item. ''  = '' @ quoted item" xs] .
      from reads_string [OF key this q(1), of ps i l] show ?thesis by (simp add: add_assigned_new [OF fresh])
    qed
    obtain m where "reads (length xs) ?ps (at ?t ?m) ?ps (at s m)"
      using reads_list_rest [OF key s fresh q(2)] by blast
    from reads_Suc [OF 1 this] show ?thesis
      using BList Cons by (intro exI [of _ "[Property key (PString x) l]"] exI [of _ m]) auto
  qed
next
  case (BPairs kvs)
  have lines: "render_property key v i = map (\<lambda>kv. pad i @ key @ pair_text key kv) kvs"
    unfolding BPairs by (rule render_pairs)
  have q: "\<forall>(k, v) \<in> set kvs. dquote \<notin> set k \<and> dquote \<notin> set v" using v BPairs by simp
  consider (none) "kvs = []" | (one) kv where "kvs = [kv]" | (more) k1 k2 r where "kvs = k1 # k2 # r"
    by (cases kvs rule: remdups_adj.cases) auto
  then show ?thesis
  proof cases
    case none
    then show ?thesis using BPairs reads_refl by (intro exI [of _ "[]"] exI [of _ l]) auto
  next
    case (one kv)
    have "dquote \<notin> set (fst kv)" "dquote \<notin> set (snd kv)" using q one by auto
    from reads_pair [OF key this add_block_cases(1) [OF fresh], of i s] show ?thesis
      unfolding lines
      using BPairs one by (intro exI [of _ "[Property key (PBlock (pair_block (fst kv) (snd kv) l)) l]"] exI)
        (auto simp: pair_props_def)
  next
    case (more k1 k2 r)
    let ?t = "unlines (map (\<lambda>kv. pad i @ key @ pair_text key kv) r) @ s"
    let ?b1 = "pair_block (fst k1) (snd k1) l" and ?m1 = "Suc (l + count_list (fst k1) newline + count_list (snd k1) newline)"
    let ?b2 = "pair_block (fst k2) (snd k2) ?m1" and ?m2 = "Suc (?m1 + count_list (fst k2) newline + count_list (snd k2) newline)"
    have q1: "dquote \<notin> set (fst k1)" "dquote \<notin> set (snd k1)" using q more by auto
    have q2: "dquote \<notin> set (fst k2)" "dquote \<notin> set (snd k2)" using q more by auto
    have q3: "\<forall>(k, v) \<in> set r. dquote \<notin> set k \<and> dquote \<notin> set v" using q more by simp
    let ?t1 = "pad i @ key @ pair_text key k2 @ newline # ?t"
    have 1: "reads 1 ps (at (pad i @ key @ pair_text key k1 @ newline # ?t1) l) (ps @ [Property key (PBlock ?b1) l]) (at ?t1 ?m1)"
      using reads_pair [OF key q1 add_block_cases(1) [OF fresh], of i ?t1] by simp
    have 2: "reads 1 (ps @ [Property key (PBlock ?b1) l]) (at ?t1 ?m1) (ps @ [Property key (PBlocks [?b1, ?b2]) l]) (at ?t ?m2)"
    proof -
      have "add_block key ?b2 ?m1 (ps @ [Property key (PBlock ?b1) l]) = Inr (ps @ [Property key (PBlocks [?b1, ?b2]) l])"
        by (rule add_block_cases(2) [OF fresh])
      from reads_pair [OF key q2 this, of i ?t] show ?thesis by simp
    qed
    obtain new m where 3: "reads (length r) (ps @ [Property key (PBlocks [?b1, ?b2]) l]) (at ?t ?m2)
        (ps @ [Property key (PBlocks ([?b1, ?b2] @ new)) l]) (at s m)" "map (map unline) new = map pair_props r"
      using reads_pairs_rest [OF key fresh q3] by blast
    from reads_Suc [OF 1 reads_Suc [OF 2 3(1)]] 3(2) show ?thesis
      unfolding lines
      using BPairs more by (intro exI [of _ "[Property key (PBlocks ([?b1, ?b2] @ new)) l]"] exI [of _ m])
        (auto simp: pair_props_def)
  qed
next
  case (BBlock props)
  then show ?thesis using v by simp
qed

lemma keys_as_parsed: "p \<in> set (as_parsed key v) \<Longrightarrow> p_key p = key"
  by (induction key v rule: as_parsed.induct) auto

lemma no_semi_render:
  "is_ident key \<Longrightarrow> plain_value v \<Longrightarrow> no_semi s \<Longrightarrow> no_semi (unlines (render_property key v i) @ s)"
proof (cases v)
  case (BPairs kvs)
  assume "is_ident key" "no_semi s"
  from no_semi_lines [OF this, of i "pair_text key" kvs] show ?thesis unfolding BPairs render_pairs .
next
  case (BList items)
  assume "is_ident key" "no_semi s"
  from no_semi_lines [OF this, of i "\<lambda>item. ''  = '' @ quoted item" items] show ?thesis
    unfolding BList render_property.simps .
qed (simp_all add: no_semi_pad no_semi_key)

lemma reads_values:
  assumes "no_semi s"
  shows "distinct (map fst kvs) \<Longrightarrow> \<forall>(k, v) \<in> set kvs. is_ident k \<and> plain_value v \<Longrightarrow>
    p_key ` set ps \<inter> fst ` set kvs = {} \<Longrightarrow>
    \<exists>n new m. reads n ps (at (unlines (concat (map (\<lambda>(k, v). render_property k v i) kvs)) @ s) l) (ps @ new) (at s m)
      \<and> map unline new = concat (map (\<lambda>(k, v). as_parsed k v) kvs)"
proof (induction kvs arbitrary: ps l)
  case Nil
  then show ?case using reads_refl by (intro exI [of _ 0] exI [of _ "[]"] exI [of _ l]) auto
next
  case (Cons kv kvs)
  obtain k v where kv: "kv = (k, v)" by fastforce
  let ?t = "unlines (concat (map (\<lambda>(k, v). render_property k v i) kvs)) @ s"
  have ok: "is_ident k" "plain_value v" "k \<notin> p_key ` set ps" using Cons.prems kv by auto
  have "no_semi ?t" using Cons.prems(2) by (induction kvs) (auto simp: assms no_semi_render kv)
  then obtain new m where 1: "reads (length (render_property k v i)) ps (at (unlines (render_property k v i) @ ?t) l)
      (ps @ new) (at ?t m)" and u: "map unline new = as_parsed k v"
    using reads_value [OF ok(1,2) _ ok(3)] by blast
  have keys: "p_key ` set new \<subseteq> {k}"
  proof -
    have "p_key ` set new = p_key ` set (map unline new)" by (auto simp: image_image)
    then show ?thesis unfolding u using keys_as_parsed by auto
  qed
  obtain n new' m' where 2: "reads n (ps @ new) (at ?t m) ((ps @ new) @ new') (at s m')"
    and u': "map unline new' = concat (map (\<lambda>(k, v). as_parsed k v) kvs)"
  proof -
    have "distinct (map fst kvs)" "\<forall>(k, v) \<in> set kvs. is_ident k \<and> plain_value v"
      "p_key ` set (ps @ new) \<inter> fst ` set kvs = {}"
      using Cons.prems keys kv by auto
    from Cons.IH [OF this] show thesis using that by blast
  qed
  from reads_trans [OF 1 2] u u' show ?case
    by (intro exI [of _ "length (render_property k v i) + n"] exI [of _ "new @ new'"] exI [of _ m']) (simp add: kv)
qed

section \<open>The round trip\<close>

text \<open>A builder whose keys are identifiers and whose strings hold no quote, as the methods of the
  builder keep it.\<close>

definition builder_ok :: "resource_builder \<Rightarrow> bool" where
  "builder_ok b \<longleftrightarrow>
     is_ident (rb_resource_type b) \<and> (\<forall>n. rb_name b = Some n \<longrightarrow> dquote \<notin> set n) \<and>
     distinct (map fst (rb_properties b)) \<and> (\<forall>(k, v) \<in> set (rb_properties b). is_ident k \<and> plain_value v)"

lemma known_types_are_identifiers: "t \<in> set KNOWN_RESOURCE_TYPES \<Longrightarrow> is_ident t"
  by (auto simp: KNOWN_RESOURCE_TYPES_def is_ident_def ident_char_def is_ascii_alphanumeric_def
      is_ascii_alphabetic_def is_digit_def)

lemma distinct_hm_insert: "distinct (map fst m) \<Longrightarrow> distinct (map fst (hm_insert k v m))"
  by (auto simp: hm_insert_def distinct_map_filter)

lemma builder_ok_insert:
  assumes "builder_ok b" "is_ident k" "plain_value v"
  shows "builder_ok (b\<lparr>rb_properties := hm_insert k v (rb_properties b)\<rparr>)"
proof -
  have "\<forall>(k, v) \<in> set (hm_insert k v (rb_properties b)). is_ident k \<and> plain_value v"
    using assms by (auto simp: builder_ok_def hm_insert_def)
  then show ?thesis using assms(1) by (simp add: builder_ok_def distinct_hm_insert)
qed

lemma builder_ok_operations:
  "builder_new t = Inr b \<Longrightarrow> builder_ok b"
  "builder_ok b \<Longrightarrow> dquote \<notin> set n \<Longrightarrow> builder_ok (builder_name n b)"
  "builder_ok b \<Longrightarrow> is_ident k \<Longrightarrow> dquote \<notin> set v \<Longrightarrow> builder_ok (builder_property k v b)"
  "builder_ok b \<Longrightarrow> is_ident k \<Longrightarrow> dquote \<notin> set v \<Longrightarrow> builder_ok (builder_secret k v b)"
  "builder_ok b \<Longrightarrow> is_ident k \<Longrightarrow> \<forall>x \<in> set xs. dquote \<notin> set x \<Longrightarrow> builder_ok (builder_list k xs b)"
  "builder_ok b \<Longrightarrow> is_ident k \<Longrightarrow> \<forall>(a, c) \<in> set ps. dquote \<notin> set a \<and> dquote \<notin> set c \<Longrightarrow>
     builder_ok (builder_pairs k ps b)"
  by (auto simp: builder_new_def builder_property_def builder_secret_def builder_list_def builder_pairs_def
      known_types_are_identifiers intro!: builder_ok_insert split: if_splits)
    (auto simp: builder_ok_def builder_name_def known_types_are_identifiers)

lemma join_newline: "join [newline] (ls @ [[]]) = unlines ls"
  by (induction ls rule: induct_list012) auto

lemma render_text:
  "rb_name b = Some n \<Longrightarrow>
   render b = Inr (rb_resource_type b @ '' '' @ quoted n @ '' {'' @ newline #
     unlines (concat (map (\<lambda>(k, v). render_property k v 1) (sort_key fst (rb_properties b)))) @ ''}'' @ [newline])"
  using join_newline [of "[rb_resource_type b @ '' '' @ quoted n @ '' {''] @
     concat (map (\<lambda>(k, v). render_property k v 1) (sort_key fst (rb_properties b))) @ [''}'']"]
  by (simp add: render_def)

lemma parse_properties_rendered:
  assumes "builder_ok b"
    and p: "p = at (newline # unlines (concat (map (\<lambda>(k, v). render_property k v 1) (sort_key fst (rb_properties b))))
      @ ''}'' @ [newline]) l"
  shows "\<exists>props m. parse_properties (fuel_for p) [] p = Some (Inr (props, at (''}'' @ [newline]) m)) \<and>
    map unline props = concat (map (\<lambda>(k, v). as_parsed k v) (sort_key fst (rb_properties b)))"
proof -
  let ?kvs = "sort_key fst (rb_properties b)" and ?rest = "''}'' @ [newline]"
  let ?s = "unlines (concat (map (\<lambda>(k, v). render_property k v 1) ?kvs)) @ ?rest"
  have "distinct (map fst (rb_properties b))" "\<forall>(k, v) \<in> set ?kvs. is_ident k \<and> plain_value v"
    using assms by (simp_all add: builder_ok_def)
  moreover from this(1) have "distinct (map fst ?kvs)"
    by (simp add: distinct_map)
  moreover have "no_semi ?rest" by (simp add: no_semi_def scan_simps peek_Cons)
  ultimately obtain n new m where r: "reads n [] (at ?s (Suc l)) ([] @ new) (at ?rest m)"
    and u: "map unline new = concat (map (\<lambda>(k, v). as_parsed k v) ?kvs)"
    using reads_values [of ?rest ?kvs "[]" 1 "Suc l"] by auto
  have "parse_properties 4 new (at ?rest m) = Some (Inr (new, at ?rest m))"
    by (simp add: numeral_eq_Suc scan_simps peek_Cons)
  with r have 1: "parse_properties (n + 4) [] (at ?s (Suc l)) = Some (Inr (new, at ?rest m))"
    by (simp add: reads_def)
  have 2: "parse_properties k [] p = parse_properties k [] (at ?s (Suc l))" for k
    using parse_properties_skip [of k "[]" p] parse_properties_skip [of k "[]" "at ?s (Suc l)"]
    by (simp add: p scan_simps)
  obtain y where y: "parse_properties (fuel_for p) [] p = Some y" using fuel_for_suffices by blast
  have "parse_properties (max (n + 4) (fuel_for p)) [] p = Some (Inr (new, at ?rest m))"
    unfolding 2 by (rule parse_mono(3) [OF 1]) simp
  moreover have "parse_properties (max (n + 4) (fuel_for p)) [] p = Some y"
    by (rule parse_mono(3) [OF y]) simp
  ultimately show ?thesis using y u by auto
qed

lemma rendered_file_parses:
  assumes ok: "builder_ok b" and name: "rb_name b = Some n"
  shows "\<exists>text props. render b = Inr text \<and>
    parse text path = Some (Inr \<lparr>pf_path = path, pf_resources =
      [\<lparr>rd_resource_type = rb_resource_type b, rd_name = n, rd_properties = props, rd_line = 1\<rparr>]\<rparr>) \<and>
    map unline props = concat (map (\<lambda>(k, v). as_parsed k v) (sort_key fst (rb_properties b)))"
proof -
  let ?body = "unlines (concat (map (\<lambda>(k, v). render_property k v 1) (sort_key fst (rb_properties b)))) @ ''}'' @ [newline]"
  let ?text = "rb_resource_type b @ '' '' @ quoted n @ '' {'' @ newline # ?body" and ?l = "1 + count_list n newline"
  have t: "is_ident (rb_resource_type b)" and q: "dquote \<notin> set n" using ok name by (auto simp: builder_ok_def)
  obtain props m where ps: "parse_properties (fuel_for (at (newline # ?body) ?l)) [] (at (newline # ?body) ?l) =
      Some (Inr (props, at (''}'' @ [newline]) m))"
    and u: "map unline props = concat (map (\<lambda>(k, v). as_parsed k v) (sort_key fst (rb_properties b)))"
    using parse_properties_rendered [OF ok refl] by blast
  let ?r = "\<lparr>rd_resource_type = rb_resource_type b, rd_name = n, rd_properties = props, rd_line = 1\<rparr>"
  have i: "parse_ident (at ?text 1) = Inr (rb_resource_type b, at ('' '' @ quoted n @ '' {'' @ newline # ?body) 1)"
    using parse_ident_at [OF t concrete_chars(15), of "quoted n @ '' {'' @ newline # ?body" 1] by simp
  have s: "parse_string (at ('' '' @ quoted n @ '' {'' @ newline # ?body) 1) = Inr (n, at ('' {'' @ newline # ?body) ?l)"
    using parse_string_at [OF q, of "'' {'' @ newline # ?body" 1] by (simp add: parse_string_skip)
  have e: "expect_char (CHR ''{'') (at ('' {'' @ newline # ?body) ?l) = Inr (at (newline # ?body) ?l)"
    by (simp add: scan_simps)
  have e2: "expect_char (CHR ''}'') (at (''}'' @ [newline]) m) = Inr (at [newline] m)" by (simp add: scan_simps)
  have "parse_resource (at ?text 1) = Some (Inr (?r, at [newline] m))"
    unfolding parse_resource_def i s e obind_simps prod.case ps e2 by simp
  moreover have "skip_ws (at ?text 1) = at ?text 1" using t by (simp add: scan_simps)
  moreover have "ps_rest (at ?text 1) \<noteq> []" by simp
  ultimately have "parse_resources (Suc (Suc k)) [] (at ?text 1) = Some (Inr [?r])" for k
    unfolding parse_resources.simps Let_def by (simp add: scan_simps)
  moreover obtain k where "length ?text = Suc k" by (cases ?text) auto
  ultimately have "parse ?text path = Some (Inr \<lparr>pf_path = path, pf_resources = [?r]\<rparr>)"
    by (simp add: parse_def parse_file_def parser_new_def del: parse_resources.simps)
  then show ?thesis using render_text [OF name] u by blast
qed

text \<open>C35. Whatever is built with identifier keys and quote-free strings, the rendered file parses
  to one resource with the builder's type and name, declared on line 1, whose properties are the
  builder's in key order (up to their line numbers): single values and secrets as they were given,
  a pair as a block, several pairs as repeated blocks; of a list only the first item is read back.\<close>

theorem render_round_trip:
  assumes ok: "builder_ok b" and name: "rb_name b = Some n"
  shows "\<exists>text props. render b = Inr text \<and>
    parse text path = Some (Inr \<lparr>pf_path = path, pf_resources =
      [\<lparr>rd_resource_type = rb_resource_type b, rd_name = n, rd_properties = props, rd_line = 1\<rparr>]\<rparr>) \<and>
    map unline props = concat (map (\<lambda>(k, v). as_parsed k v) (sort_key fst (rb_properties b)))"
  by (rule rendered_file_parses [OF ok name])

theorem render_round_trip_witness:
  "\<exists>text props.
     render (builder_list ''scopes'' [''r'', ''w''] (builder_pairs ''tag'' [(''a'', ''1''), (''b'', ''2'')]
       \<lparr>rb_resource_type = ''scope'', rb_name = Some ''s'', rb_properties = []\<rparr>)) = Inr text \<and>
     parse text ''f'' = Some (Inr \<lparr>pf_path = ''f'', pf_resources =
       [\<lparr>rd_resource_type = ''scope'', rd_name = ''s'', rd_properties = props, rd_line = 1\<rparr>]\<rparr>) \<and>
     map unline props =
       [Property ''scopes'' (PString ''r'') 0,
        Property ''tag'' (PBlocks [pair_props (''a'', ''1''), pair_props (''b'', ''2'')]) 0]"
proof -
  let ?b = "builder_list ''scopes'' [''r'', ''w''] (builder_pairs ''tag'' [(''a'', ''1''), (''b'', ''2'')]
       \<lparr>rb_resource_type = ''scope'', rb_name = Some ''s'', rb_properties = []\<rparr>)"
  have p: "rb_properties ?b = [(''scopes'', BList [''r'', ''w'']), (''tag'', BPairs [(''a'', ''1''), (''b'', ''2'')])]"
    by (simp add: builder_list_def builder_pairs_def hm_insert_def)
  have f: "rb_name ?b = Some ''s''" "rb_resource_type ?b = ''scope''"
    by (simp_all add: builder_list_def builder_pairs_def)
  have "builder_ok ?b"
    unfolding builder_ok_def p f
    by (simp add: is_ident_def ident_char_def is_ascii_alphanumeric_def is_ascii_alphabetic_def)
  from render_round_trip [OF this f(1), of "''f''"] show ?thesis
    unfolding p f by (simp add: less_char_def)
qed

end
