(* ===== verification/Resource_Docs.thy ===== *)
theory Resource_Docs
  imports Resource_Builder Resource_Validator
begin

text \<open>
  The documentation generator (\<open>crates/picloud-compiler/src/docs.rs\<close>), and the agreement of the three
  descriptions of the resource types: the builder's, the validator's and the documentation's. A JSON
  value is a tree whose objects are ordered by key (\<open>serde_json\<close> without \<open>preserve_order\<close>); printing it
  (\<open>serde_json::to_string_pretty\<close>) is a parameter.
\<close>

section \<open>Metadata\<close>

record property_doc =
  pd_name :: string
  pd_type :: string
  pd_required :: bool
  pd_description :: string

record resource_type_docs =
  td_name :: string
  td_rdf_type :: string
  td_description :: string
  td_properties :: "property_doc list"

definition resource_types :: "resource_type_docs list" where
  "resource_types =
     [\<lparr>td_name = ''product'', td_rdf_type = ''pc:Product'',
        td_description = ''A product is a hermetically sealed unit of deployment. Products never share resources.'',
        td_properties =
         [\<lparr>pd_name = ''version'', pd_type = ''string'', pd_required = True,
           pd_description = ''Semantic version of the product''\<rparr>,
          \<lparr>pd_name = ''description'', pd_type = ''string'', pd_required = False,
           pd_description = ''Human-readable description''\<rparr>]\<rparr>,
      \<lparr>td_name = ''container'', td_rdf_type = ''pc:Container'',
        td_description = ''An OCI container workload scheduled on the cluster.'',
        td_properties =
         [\<lparr>pd_name = ''product'', pd_type = ''string'', pd_required = True,
           pd_description = ''Product this container belongs to''\<rparr>,
          \<lparr>pd_name = ''image'', pd_type = ''string'', pd_required = True,
           pd_description = ''OCI image reference (name:tag)''\<rparr>,
          \<lparr>pd_name = ''identity'', pd_type = ''string'', pd_required = False,
           pd_description = ''Workload identity name''\<rparr>,
          \<lparr>pd_name = ''mount'', pd_type = ''block'', pd_required = False,
           pd_description = ''Volume mount (volume + path)''\<rparr>,
          \<lparr>pd_name = ''tag'', pd_type = ''block'', pd_required = False,
           pd_description = ''Resource tag (key + value)''\<rparr>]\<rparr>,
      \<lparr>td_name = ''volume'', td_rdf_type = ''pc:Volume'',
        td_description = ''A persistent block storage volume.'',
        td_properties =
         [\<lparr>pd_name = ''product'', pd_type = ''string'', pd_required = True,
           pd_description = ''Product this volume belongs to''\<rparr>,
          \<lparr>pd_name = ''size'', pd_type = ''string'', pd_required = True,
           pd_description = ''Volume size (e.g. '' @ [squote] @ ''500GB'' @ [squote] @ '')''\<rparr>,
          \<lparr>pd_name = ''durability'', pd_type = ''enum'', pd_required = False,
           pd_description = ''Durability tier: full-replication, quorum, local, none''\<rparr>,
          \<lparr>pd_name = ''snapshots'', pd_type = ''block'', pd_required = False,
           pd_description = ''Snapshot configuration''\<rparr>,
          \<lparr>pd_name = ''offsite'', pd_type = ''block'', pd_required = False,
           pd_description = ''Offsite backup configuration''\<rparr>]\<rparr>,
      \<lparr>td_name = ''feature-flag'', td_rdf_type = ''pc:FeatureFlag'',
        td_description = ''A feature flag controlling runtime behaviour.'',
        td_properties =
         [\<lparr>pd_name = ''product'', pd_type = ''string'', pd_required = True,
           pd_description = ''Product this flag belongs to''\<rparr>,
          \<lparr>pd_name = ''enabled'', pd_type = ''boolean'', pd_required = True,
           pd_description = ''Whether the flag is currently enabled''\<rparr>,
          \<lparr>pd_name = ''version'', pd_type = ''string'', pd_required = True,
           pd_description = ''Version expression (e.g. '' @ [squote] @ ''>= 2'' @ [squote] @ '')''\<rparr>,
          \<lparr>pd_name = ''description'', pd_type = ''string'', pd_required = False,
           pd_description = ''Human-readable description''\<rparr>]\<rparr>,
      \<lparr>td_name = ''binary'', td_rdf_type = ''pc:Binary'',
        td_description = ''A native binary workload scheduled on the cluster.'',
        td_properties =
         [\<lparr>pd_name = ''product'', pd_type = ''string'', pd_required = True,
           pd_description = ''Product this binary belongs to''\<rparr>,
          \<lparr>pd_name = ''executable'', pd_type = ''string'', pd_required = True,
           pd_description = ''Path to the executable binary''\<rparr>,
          \<lparr>pd_name = ''identity'', pd_type = ''string'', pd_required = False,
           pd_description = ''Workload identity name''\<rparr>]\<rparr>,
      \<lparr>td_name = ''ingress'', td_rdf_type = ''pc:Ingress'',
        td_description = ''An ingress route exposing a workload to the network.'',
        td_properties =
         [\<lparr>pd_name = ''product'', pd_type = ''string'', pd_required = True,
           pd_description = ''Product this ingress belongs to''\<rparr>,
          \<lparr>pd_name = ''target'', pd_type = ''string'', pd_required = True,
           pd_description = ''Target container or binary name''\<rparr>,
          \<lparr>pd_name = ''port'', pd_type = ''integer'', pd_required = True,
           pd_description = ''Port number to expose''\<rparr>,
          \<lparr>pd_name = ''host'', pd_type = ''string'', pd_required = False,
           pd_description = ''Hostname for host-based routing''\<rparr>,
          \<lparr>pd_name = ''tls'', pd_type = ''boolean'', pd_required = False,
           pd_description = ''Enable TLS termination''\<rparr>]\<rparr>,
      \<lparr>td_name = ''group'', td_rdf_type = ''pc:Group'',
        td_description = ''A grouping of resources across products.'',
        td_properties =
         []\<rparr>]"

record generated_file =
  gf_path :: string
  gf_content :: string

section \<open>Markdown\<close>

definition type_row :: "resource_type_docs \<Rightarrow> string" where
  "type_row t = ''| `'' @ td_name t @ ''` | `'' @ td_rdf_type t @ ''` | '' @ td_description t @ '' |'' @ [newline]"

definition index_page :: string where
  "index_page =
     ''# PiCloud Resource Types'' @ [newline, newline]
     @ ''| Type | RDF Class | Description |'' @ [newline]
     @ ''|------|-----------|-------------|'' @ [newline]
     @ concat (map type_row resource_types) @ [newline]"

definition property_row :: "property_doc \<Rightarrow> string" where
  "property_row p =
     ''| `'' @ pd_name p @ ''` | '' @ pd_type p @ '' | '' @ (if pd_required p then ''Yes'' else ''No'') @ '' | ''
     @ pd_description p @ '' |'' @ [newline]"

definition example_value :: "property_doc \<Rightarrow> string" where
  "example_value p =
     (if pd_type p = ''string'' then [dquote] @ ''example-'' @ pd_name p @ [dquote]
      else if pd_type p = ''boolean'' then ''true''
      else if pd_type p = ''integer'' then ''8080''
      else if pd_type p = ''enum'' then [dquote] @ ''default'' @ [dquote]
      else [dquote] @ pd_name p @ [dquote])"

definition example_snippet :: "resource_type_docs \<Rightarrow> string" where
  "example_snippet t =
     td_name t @ '' '' @ [dquote] @ ''example'' @ [dquote] @ '' {'' @ [newline]
     @ concat (map (\<lambda>p. ''  '' @ pd_name p @ '' = '' @ example_value p @ [newline])
         (filter (\<lambda>p. pd_type p \<noteq> ''block'') (td_properties t)))
     @ ''}'' @ [newline]"

definition type_page :: "resource_type_docs \<Rightarrow> string" where
  "type_page t =
     ''# '' @ td_name t @ [newline, newline]
     @ ''**RDF Type:** `'' @ td_rdf_type t @ ''`'' @ [newline, newline]
     @ td_description t @ [newline, newline]
     @ (if td_properties t \<noteq> [] then
          ''## Properties'' @ [newline, newline]
          @ ''| Property | Type | Required | Description |'' @ [newline]
          @ ''|----------|------|----------|-------------|'' @ [newline]
          @ concat (map property_row (td_properties t)) @ [newline]
          @ ''## Example'' @ [newline, newline]
          @ ''```picloud'' @ [newline] @ example_snippet t @ ''```'' @ [newline]
        else [])"

definition generate_markdown :: "string \<Rightarrow> generated_file list" where
  "generate_markdown output_dir =
     \<lparr>gf_path = output_dir @ ''/index.md'', gf_content = index_page\<rparr>
     # map (\<lambda>t. \<lparr>gf_path = output_dir @ ''/'' @ td_name t @ ''.md'', gf_content = type_page t\<rparr>) resource_types"

section \<open>JSON Schema and OpenAPI\<close>

datatype json = JString string | JArray "json list" | JObject "(string \<times> json) list"

definition json_type :: "string \<Rightarrow> string" where
  "json_type t =
     (if t = ''string'' \<or> t = ''enum'' then ''string''
      else if t = ''integer'' then ''integer''
      else if t = ''boolean'' then ''boolean''
      else if t = ''block'' then ''object''
      else ''string'')"

definition property_schema :: "property_doc \<Rightarrow> json" where
  "property_schema p =
     JObject (om_insert ''description'' (JString (pd_description p)) (om_insert ''type'' (JString (json_type (pd_type p))) []))"

definition type_schema :: "resource_type_docs \<Rightarrow> json" where
  "type_schema t =
     JObject
       (fold (\<lambda>(k, v). om_insert k v)
         [(''$schema'', JString ''https://json-schema.org/draft/2020-12/schema''),
          (''$id'', JString (''https://picloud.local/schemas/'' @ td_name t @ ''.json'')),
          (''title'', JString (td_name t)),
          (''description'', JString (td_description t)),
          (''type'', JString ''object''),
          (''properties'', JObject (fold (\<lambda>p. om_insert (pd_name p) (property_schema p)) (td_properties t) [])),
          (''required'', JArray (map (\<lambda>p. JString (pd_name p)) (filter pd_required (td_properties t))))] [])"

definition generate_json_schema :: "(json \<Rightarrow> string) \<Rightarrow> string \<Rightarrow> generated_file list" where
  "generate_json_schema to_string_pretty output_dir =
     map (\<lambda>t. \<lparr>gf_path = output_dir @ ''/'' @ td_name t @ ''.json'', gf_content = to_string_pretty (type_schema t)\<rparr>)
       resource_types"

definition openapi_path :: "string \<Rightarrow> string" where
  "openapi_path name =
     ''  /products/{product}/'' @ name @ ''s/{name}:'' @ [newline]
     @ ''    get:'' @ [newline] @ ''      summary: Get a '' @ name @ [newline]
     @ ''      tags: ['' @ name @ '']'' @ [newline]
     @ ''    put:'' @ [newline] @ ''      summary: Create or update a '' @ name @ [newline]
     @ ''      tags: ['' @ name @ '']'' @ [newline]
     @ ''    delete:'' @ [newline] @ ''      summary: Delete a '' @ name @ [newline]
     @ ''      tags: ['' @ name @ '']'' @ [newline]"

definition generate_openapi :: "string \<Rightarrow> generated_file list" where
  "generate_openapi output_dir =
     [\<lparr>gf_path = output_dir @ ''/openapi.yaml'',
       gf_content =
         ''openapi: '' @ [dquote] @ ''3.1.0'' @ [dquote, newline]
         @ ''info:'' @ [newline] @ ''  title: PiCloud Platform API'' @ [newline]
         @ ''  version: '' @ [dquote] @ ''0.1.0'' @ [dquote, newline]
         @ ''  description: Auto-generated from platform resource types'' @ [newline]
         @ ''paths:'' @ [newline]
         @ concat (map openapi_path (filter (\<lambda>n. n \<noteq> ''group'') (map td_name resource_types))) @ [newline]\<rparr>]"

datatype doc_format = Markdown | JsonSchema | OpenApi

definition generate :: "(json \<Rightarrow> string) \<Rightarrow> doc_format \<Rightarrow> string \<Rightarrow> generated_file list" where
  "generate to_string_pretty format output_dir =
     (case format of
        Markdown \<Rightarrow> generate_markdown output_dir
      | JsonSchema \<Rightarrow> generate_json_schema to_string_pretty output_dir
      | OpenApi \<Rightarrow> generate_openapi output_dir)"

section \<open>The descriptions agree\<close>

text \<open>The builder knows the required fields the validator asks for, and the documentation marks
  exactly those as required.\<close>

lemma builder_fields_agree:
  "t \<in> set KNOWN_RESOURCE_TYPES \<Longrightarrow> required_fields t = validator_required_fields t"
  unfolding KNOWN_RESOURCE_TYPES_def list.set
  by (elim insertE emptyE) (simp_all add: required_fields_def validator_required_fields_def)

lemma documented_fields_agree:
  "t \<in> set resource_types \<Longrightarrow>
   map pd_name (filter pd_required (td_properties t)) = validator_required_fields (td_name t) \<and>
   td_rdf_type t = ''pc:'' @ resource_rdf_type (td_name t)"
  unfolding resource_types_def list.set
  by (elim insertE emptyE) (simp_all add: validator_required_fields_def resource_rdf_type_def)

section \<open>Builder and validator\<close>

text \<open>A value that renders to at least one line.\<close>

fun nonempty_value :: "builder_value \<Rightarrow> bool" where
  "nonempty_value (BList items) \<longleftrightarrow> items \<noteq> []"
| "nonempty_value (BPairs ps) \<longleftrightarrow> ps \<noteq> []"
| "nonempty_value v \<longleftrightarrow> True"

lemma keys_of_as_parsed:
  "plain_value v \<Longrightarrow> nonempty_value v \<Longrightarrow> p_key ` set (as_parsed k v) = {k}"
  by (induction k v rule: as_parsed.induct) auto

lemma keys_of_parsed_builder:
  assumes "\<forall>(k, v) \<in> set kvs. plain_value v \<and> nonempty_value v"
    and "map unline props = concat (map (\<lambda>(k, v). as_parsed k v) kvs)"
  shows "p_key ` set props = fst ` set kvs"
proof -
  have "p_key ` set props = p_key ` set (map unline props)" by (auto simp: image_image)
  also have "\<dots> = (\<Union>(k, v) \<in> set kvs. p_key ` set (as_parsed k v))"
    unfolding assms(2) by auto
  also have "\<dots> = (\<Union>kv \<in> set kvs. {fst kv})"
  proof (rule SUP_cong)
    fix kv assume kv: "kv \<in> set kvs"
    obtain k v where "kv = (k, v)" by fastforce
    moreover from this kv assms(1) have "plain_value v" "nonempty_value v" by blast+
    ultimately show "(case kv of (k, v) \<Rightarrow> p_key ` set (as_parsed k v)) = {fst kv}"
      using keys_of_as_parsed by simp
  qed simp
  finally show ?thesis by auto
qed

lemma validate_required_iff:
  "validate_required b = Inr () \<longleftrightarrow> set (required_fields (rb_resource_type b)) \<subseteq> fst ` set (rb_properties b)"
  by (auto simp: validate_required_def Let_def filter_empty_conv)

text \<open>For a builder of a known type whose values are not empty, \<open>validate_required\<close> accepts
  exactly when the file it renders, read back by the parser, has no resource with a missing required
  field for the validator.\<close>

theorem builder_check_agrees_with_validator:
  assumes ok: "builder_ok b" and known: "rb_resource_type b \<in> set KNOWN_RESOURCE_TYPES"
    and name: "rb_name b = Some n" and ne: "\<forall>(k, v) \<in> set (rb_properties b). nonempty_value v"
  shows "\<exists>text f. render b = Inr text \<and> parse text path = Some (Inr f) \<and>
    (validate_required b = Inr () \<longleftrightarrow> (\<forall>r \<in> set (pf_resources f). missing_field_errors path r = []))"
proof -
  obtain out props where out: "render b = Inr out"
    and p: "parse out path = Some (Inr \<lparr>pf_path = path, pf_resources =
      [\<lparr>rd_resource_type = rb_resource_type b, rd_name = n, rd_properties = props, rd_line = 1\<rparr>]\<rparr>)"
    and u: "map unline props = concat (map (\<lambda>(k, v). as_parsed k v) (sort_key fst (rb_properties b)))"
    using rendered_file_parses [OF ok name] by blast
  have "p_key ` set props = fst ` set (sort_key fst (rb_properties b))"
    by (rule keys_of_parsed_builder [OF _ u]) (use ok ne in \<open>auto simp: builder_ok_def\<close>)
  then have "validate_required b = Inr () \<longleftrightarrow>
      (\<forall>r \<in> set [\<lparr>rd_resource_type = rb_resource_type b, rd_name = n, rd_properties = props, rd_line = 1\<rparr>].
         missing_field_errors path r = [])"
    by (simp add: missing_field_errors_Nil fields_present_def validate_required_iff builder_fields_agree [OF known])
  with out p show ?thesis by (intro exI [of _ out] exI conjI) (assumption | simp)+
qed

theorem builder_check_agrees_with_validator_witness:
  "\<exists>text f.
     render (builder_property ''size'' ''5GB'' \<lparr>rb_resource_type = ''volume'', rb_name = Some ''v'', rb_properties = []\<rparr>) = Inr text \<and>
     parse text ''f'' = Some (Inr f) \<and> \<not> (\<forall>r \<in> set (pf_resources f). missing_field_errors ''f'' r = [])"
proof -
  let ?b = "builder_property ''size'' ''5GB'' \<lparr>rb_resource_type = ''volume'', rb_name = Some ''v'', rb_properties = []\<rparr>"
  have p: "rb_properties ?b = [(''size'', BSingle ''5GB'')]" by (simp add: builder_property_def hm_insert_def)
  have f: "rb_name ?b = Some ''v''" "rb_resource_type ?b = ''volume''" by (simp_all add: builder_property_def)
  have "builder_ok ?b"
    unfolding builder_ok_def p f
    by (simp add: is_ident_def ident_char_def is_ascii_alphanumeric_def is_ascii_alphabetic_def)
  moreover have "rb_resource_type ?b \<in> set KNOWN_RESOURCE_TYPES" unfolding f by (simp add: KNOWN_RESOURCE_TYPES_def)
  moreover have "\<forall>(k, v) \<in> set (rb_properties ?b). nonempty_value v" unfolding p by simp
  moreover have "validate_required ?b \<noteq> Inr ()" unfolding validate_required_iff p f by (simp add: required_fields_def)
  ultimately show ?thesis
    using builder_check_agrees_with_validator [of ?b "''v''" "''f''"] f(1) by metis
qed

end
