(* ===== verification/Storage_Backend.thy ===== *)
theory Storage_Backend
  imports Domain_Types File_System
begin

text \<open>
  Volume allocation of \<open>crates/picloud-storage/src/implementation.rs\<close>: the local storage backend
  with its capacity accounting, replication targets and deletion, over the file-system model.
  Sizes are 64-bit words. The answer of the cluster membership (none configured, an error, or
  the node identifiers) and the outcome of \<open>set_len\<close> are arguments. A map keyed by volume IRI is an association
  list with one entry per key.
\<close>

section \<open>State\<close>

record volume_record =
  vr_volume_iri :: string
  vr_size_gb :: u64
  vr_device_path :: string
  vr_storage_intent :: storage_intent

record storage_backend =
  sb_base_path :: path
  sb_node_id :: uuid
  sb_total_capacity_gb :: u64
  sb_volumes :: "(string \<times> volume_record) list"

record volume_handle =
  vh_volume_iri :: resource_iri
  vh_device_path :: string
  vh_replicated_to :: "uuid list"

type_synonym membership = "(picloud_error + uuid list) option"

definition backend_new :: "path \<Rightarrow> uuid \<Rightarrow> u64 \<Rightarrow> storage_backend" where
  "backend_new base_path node_id total_capacity_gb =
     \<lparr>sb_base_path = base_path, sb_node_id = node_id, sb_total_capacity_gb = total_capacity_gb, sb_volumes = []\<rparr>"

definition volume_name_from_iri :: "resource_iri \<Rightarrow> string" where
  "volume_name_from_iri volume_iri = last (split_on slash volume_iri)"

definition allocated_gb :: "storage_backend \<Rightarrow> u64" where
  "allocated_gb s = sum_list (map (\<lambda>p. vr_size_gb (snd p)) (sb_volumes s))"

definition saturating_sub :: "u64 \<Rightarrow> u64 \<Rightarrow> u64" where
  "saturating_sub a b = (if b \<le> a then a - b else 0)"

definition available_capacity_gb :: "storage_backend \<Rightarrow> u64" where
  "available_capacity_gb s = saturating_sub (sb_total_capacity_gb s) (allocated_gb s)"

section \<open>Operations\<close>

text \<open>\<open>PathBuf::from\<close> of an absolute path.\<close>

definition path_of :: "string \<Rightarrow> path" where
  "path_of s = path_join [] s"

definition create_device ::
  "disk_io \<Rightarrow> string option \<Rightarrow> path \<Rightarrow> string \<Rightarrow> u64 \<Rightarrow> volume_type \<Rightarrow> fs \<Rightarrow> (picloud_error + string) \<times> fs" where
  "create_device io set_len_err base_path volume_name size_gb volume_type f =
     (case volume_type of
        Mounted \<Rightarrow>
          (let volume_dir = path_join base_path volume_name
           in case fs_create_dir_all io volume_dir f of
                (Inl e, f) \<Rightarrow> (Inl (Internal (''Failed to create volume directory '' @ show_path volume_dir @ '': '' @ e)), f)
              | (Inr _, f) \<Rightarrow> (Inr (show_path volume_dir), f))
      | RawBlock \<Rightarrow>
          (let block_dir = path_join base_path ''block''
           in case fs_create_dir_all io block_dir f of
                (Inl e, f) \<Rightarrow> (Inl (Internal (''Failed to create block device directory '' @ show_path block_dir @ '': '' @ e)), f)
              | (Inr _, f) \<Rightarrow>
          (let block_file = path_join block_dir volume_name;
               size_bytes = size_gb * 1024 * 1024 * 1024
           in case fs_write io block_file [] f of
                (Inl e, f) \<Rightarrow> (Inl (Internal (''Failed to create raw block file '' @ show_path block_file @ '': '' @ e)), f)
              | (Inr _, f) \<Rightarrow>
                  (case set_len_err of
                     Some e \<Rightarrow> (Inl (Internal (''Failed to set raw block file size '' @ show_path block_file @ '': '' @ e)), f)
                   | None \<Rightarrow>
                       (Inr (show_path block_file),
                        case resolve f block_file of
                          Some q \<Rightarrow> put_file q (replicate (unat size_bytes) (CHR 0x00)) f
                        | None \<Rightarrow> f)))))"

definition replication_targets :: "membership \<Rightarrow> uuid \<Rightarrow> durability_tier \<Rightarrow> uuid list" where
  "replication_targets membership node_id durability =
     (case durability of
        FullReplication \<Rightarrow>
          (case membership of Some (Inr members) \<Rightarrow> members | _ \<Rightarrow> [node_id])
      | Quorum \<Rightarrow>
          (case membership of
             Some (Inr members) \<Rightarrow> (let quorum_size = length members div 2 + 1 in take quorum_size members)
           | _ \<Rightarrow> [node_id])
      | _ \<Rightarrow> [node_id])"

definition allocate_volume ::
  "disk_io \<Rightarrow> string option \<Rightarrow> membership \<Rightarrow> resource_iri \<Rightarrow> u64 \<Rightarrow> storage_intent \<Rightarrow> volume_type
   \<Rightarrow> storage_backend \<Rightarrow> fs \<Rightarrow> (picloud_error + volume_handle) \<times> storage_backend \<times> fs" where
  "allocate_volume io set_len_err membership volume_iri size_gb intent volume_type s f =
     (let available = available_capacity_gb s
      in if size_gb > available then (Inl (InsufficientCapacity size_gb available), s, f)
         else
           let volume_name = volume_name_from_iri volume_iri
           in case create_device io set_len_err (sb_base_path s) volume_name size_gb volume_type f of
                (Inl e, f) \<Rightarrow> (Inl e, s, f)
              | (Inr device_path, f) \<Rightarrow>
                  let record = \<lparr>vr_volume_iri = volume_iri, vr_size_gb = size_gb, vr_device_path = device_path,
                                vr_storage_intent = intent\<rparr>;
                      s = s\<lparr>sb_volumes := hm_insert volume_iri record (sb_volumes s)\<rparr>
                  in (Inr \<lparr>vh_volume_iri = volume_iri, vh_device_path = device_path,
                           vh_replicated_to = replication_targets membership (sb_node_id s) (si_durability intent)\<rparr>, s, f))"

text \<open>The record is removed before the files are, so that a failing removal still frees the
  capacity.\<close>

definition delete_volume ::
  "disk_io \<Rightarrow> resource_iri \<Rightarrow> storage_backend \<Rightarrow> fs \<Rightarrow> (picloud_error + unit) \<times> storage_backend \<times> fs" where
  "delete_volume io volume_iri s f =
     (case map_of (sb_volumes s) volume_iri of
        None \<Rightarrow> (Inl (ResourceNotFound volume_iri), s, f)
      | Some record \<Rightarrow>
          let s = s\<lparr>sb_volumes := hm_remove volume_iri (sb_volumes s)\<rparr>;
              path = path_of (vr_device_path record)
          in if \<not> path_exists f path then (Inr (), s, f)
             else if path_is_dir f path
             then (case fs_remove_dir_all io path f of
                     (Inl e, f) \<Rightarrow> (Inl (Internal (''Failed to remove volume directory '' @ vr_device_path record @ '': '' @ e)), s, f)
                   | (Inr _, f) \<Rightarrow> (Inr (), s, f))
             else (case fs_remove_file io path f of
                     (Inl e, f) \<Rightarrow> (Inl (Internal (''Failed to remove raw block file '' @ vr_device_path record @ '': '' @ e)), s, f)
                   | (Inr _, f) \<Rightarrow> (Inr (), s, f)))"

section \<open>Capacity\<close>

definition allocated_nat :: "storage_backend \<Rightarrow> nat" where
  "allocated_nat s = sum_list (map (\<lambda>p. unat (vr_size_gb (snd p))) (sb_volumes s))"

definition capacity_inv :: "storage_backend \<Rightarrow> bool" where
  "capacity_inv s \<longleftrightarrow> distinct (map fst (sb_volumes s)) \<and> allocated_nat s \<le> unat (sb_total_capacity_gb s)"

lemma allocated_of_nat: "allocated_gb s = of_nat (allocated_nat s)"
proof -
  have "sum_list (map (\<lambda>p. vr_size_gb (snd p)) vs) = of_nat (sum_list (map (\<lambda>p. unat (vr_size_gb (snd p))) vs))"
    for vs :: "(string \<times> volume_record) list"
    by (induction vs) simp_all
  then show ?thesis by (simp add: allocated_gb_def allocated_nat_def)
qed

lemma unat_allocated: "capacity_inv s \<Longrightarrow> unat (allocated_gb s) = allocated_nat s"
  using unsigned_less [of "sb_total_capacity_gb s", where ?'a = nat]
  by (auto simp: allocated_of_nat capacity_inv_def unat_of_nat)

lemma unat_available:
  assumes "capacity_inv s"
  shows "unat (available_capacity_gb s) = unat (sb_total_capacity_gb s) - allocated_nat s"
proof -
  have "allocated_gb s \<le> sb_total_capacity_gb s"
    using assms unat_allocated [OF assms] by (simp add: word_le_nat_alt capacity_inv_def)
  then show ?thesis
    using unat_allocated [OF assms] by (simp add: available_capacity_gb_def saturating_sub_def unat_sub)
qed

lemma sum_filter_le: "sum_list (map f (filter P xs)) \<le> sum_list (map (f :: _ \<Rightarrow> nat) xs)"
  by (induction xs) auto

lemma capacity_inv_insert:
  assumes "capacity_inv s" "unat (vr_size_gb r) \<le> unat (sb_total_capacity_gb s) - allocated_nat s"
  shows "capacity_inv (s\<lparr>sb_volumes := hm_insert k r (sb_volumes s)\<rparr>)"
proof -
  have "sum_list (map (\<lambda>p. unat (vr_size_gb (snd p))) (filter (\<lambda>p. fst p \<noteq> k) (sb_volumes s))) \<le> allocated_nat s"
    unfolding allocated_nat_def by (rule sum_filter_le)
  moreover have "distinct (map fst (filter (\<lambda>p. fst p \<noteq> k) (sb_volumes s)))"
    using assms(1) by (auto simp: capacity_inv_def distinct_map_filter)
  ultimately show ?thesis
    using assms by (auto simp: capacity_inv_def hm_insert_def allocated_nat_def)
qed

lemma capacity_inv_remove:
  "capacity_inv s \<Longrightarrow> capacity_inv (s\<lparr>sb_volumes := hm_remove k (sb_volumes s)\<rparr>)"
  using sum_filter_le [of "\<lambda>p. unat (vr_size_gb (snd p))" "\<lambda>p. fst p \<noteq> k" "sb_volumes s"]
  by (auto simp: capacity_inv_def hm_remove_def allocated_nat_def distinct_map_filter)

lemma capacity_inv_allocate:
  assumes "capacity_inv s"
  shows "capacity_inv (fst (snd (allocate_volume io sle mem iri size_gb intent vt s f)))"
proof (cases "size_gb > available_capacity_gb s")
  case False
  then have "unat size_gb \<le> unat (sb_total_capacity_gb s) - allocated_nat s"
    using unat_available [OF assms] by (simp add: not_less word_le_nat_alt)
  then show ?thesis using capacity_inv_insert [OF assms] assms
    by (auto simp: allocate_volume_def Let_def split: prod.splits sum.splits)
qed (use assms in \<open>simp add: allocate_volume_def Let_def\<close>)

lemma capacity_inv_delete: "capacity_inv s \<Longrightarrow> capacity_inv (fst (snd (delete_volume io iri s f)))"
  using capacity_inv_remove [of s iri]
  by (auto simp: delete_volume_def Let_def split: option.splits prod.splits sum.splits)

datatype volume_op =
    VAllocate "string option" membership resource_iri u64 storage_intent volume_type
  | VDelete resource_iri

fun volume_step :: "disk_io \<times> volume_op \<Rightarrow> storage_backend \<times> fs \<Rightarrow> storage_backend \<times> fs" where
  "volume_step (io, VAllocate sle mem iri size_gb intent vt) (s, f) = snd (allocate_volume io sle mem iri size_gb intent vt s f)"
| "volume_step (io, VDelete iri) (s, f) = snd (delete_volume io iri s f)"

lemma volume_step_inv: "capacity_inv (fst sf) \<Longrightarrow> capacity_inv (fst (volume_step x sf))"
proof -
  assume i: "capacity_inv (fst sf)"
  obtain io x' s f where "x = (io, x')" "sf = (s, f)" by (cases x; cases sf)
  with i show ?thesis by (cases x') (simp_all add: capacity_inv_allocate capacity_inv_delete)
qed

lemma volume_run_inv: "capacity_inv (fst sf) \<Longrightarrow> capacity_inv (fst (fold volume_step xs sf))"
  by (induction xs arbitrary: sf) (simp_all add: volume_step_inv)

lemma volume_run_capacity: "sb_total_capacity_gb (fst (fold volume_step xs sf)) = sb_total_capacity_gb (fst sf)"
proof (induction xs arbitrary: sf)
  case (Cons x xs)
  have "sb_total_capacity_gb (fst (volume_step x sf)) = sb_total_capacity_gb (fst sf)"
    by (cases "(x, sf)" rule: volume_step.cases)
      (auto simp: allocate_volume_def delete_volume_def Let_def split: prod.splits sum.splits option.splits)
  with Cons show ?case by simp
qed simp

section \<open>Properties\<close>

text \<open>
  C26. Capacity. After any sequence of allocations and deletions, with any I/O failures, the sizes of
  the recorded volumes add up (as natural numbers, without wrapping) to at most the configured
  capacity, each IRI is recorded once, the reported available capacity is exactly the
  difference, and a further allocation is refused for lack of capacity exactly when its size_gb
  exceeds that difference.
\<close>

theorem capacity_accounting:
  assumes "(s, f) = fold volume_step xs (backend_new base node capacity, f0)"
  shows "distinct (map fst (sb_volumes s)) \<and> allocated_nat s \<le> unat capacity \<and>
    unat (available_capacity_gb s) = unat capacity - allocated_nat s \<and>
    (fst (allocate_volume io sle mem iri size_gb intent vt s f) = Inl (InsufficientCapacity size_gb (available_capacity_gb s)) \<longleftrightarrow>
       unat capacity - allocated_nat s < unat size_gb)"
proof -
  have i: "capacity_inv s"
    using volume_run_inv [of "(backend_new base node capacity, f0)" xs] assms [symmetric]
    by (simp add: capacity_inv_def backend_new_def allocated_nat_def)
  have c: "sb_total_capacity_gb s = capacity"
    using volume_run_capacity [of xs "(backend_new base node capacity, f0)"] assms [symmetric] by (simp add: backend_new_def)
  have "fst (allocate_volume io sle mem iri size_gb intent vt s f) = Inl (InsufficientCapacity size_gb (available_capacity_gb s)) \<longleftrightarrow>
      available_capacity_gb s < size_gb"
    by (auto simp: allocate_volume_def create_device_def Let_def split: prod.splits sum.splits option.splits volume_type.splits)
  then show ?thesis
    using i c unat_available [OF i] by (simp add: capacity_inv_def word_less_nat_alt)
qed

theorem capacity_accounting_witness:
  "\<exists>s f. (s, f) = fold volume_step [(ok_io, VAllocate None None ''p/a'' 6 storage_intent_default Mounted)]
       (backend_new [''base''] 0 10, \<lparr>fs_dirs = [[''base'']], fs_files = []\<rparr>) \<and>
     allocated_nat s = 6 \<and> unat (available_capacity_gb s) = 4 \<and>
     fst (allocate_volume ok_io None None ''p/b'' 5 storage_intent_default Mounted s f) =
       Inl (InsufficientCapacity 5 (available_capacity_gb s))"
proof -
  obtain s f where sf: "(s, f) = fold volume_step [(ok_io, VAllocate None None ''p/a'' 6 storage_intent_default Mounted)]
       (backend_new [''base''] 0 10, \<lparr>fs_dirs = [[''base'']], fs_files = []\<rparr>)"
    by (cases "fold volume_step [(ok_io, VAllocate None None ''p/a'' 6 storage_intent_default Mounted)]
       (backend_new [''base''] 0 10, \<lparr>fs_dirs = [[''base'']], fs_files = []\<rparr>)") metis
  moreover have "allocated_nat (fst (fold volume_step [(ok_io, VAllocate None None ''p/a'' 6 storage_intent_default Mounted)]
       (backend_new [''base''] 0 10, \<lparr>fs_dirs = [[''base'']], fs_files = []\<rparr>))) = 6"
    by code_simp
  ultimately have "allocated_nat s = 6" by (metis fst_conv)
  with sf capacity_accounting [OF sf, of ok_io None None "''p/b''" 5 storage_intent_default Mounted] show ?thesis by auto
qed

text \<open>
  Volumes of different products share storage. A volume's directory is named after the last
  segment of its IRI only: allocating two mounted volumes whose IRIs end in the same segment
  gives both the same device path, and deleting the first removes every file of the second,
  which stays recorded as allocated.
\<close>

theorem same_segment_volumes_collide:
  assumes "iri1 \<noteq> iri2" "volume_name_from_iri iri1 = name" "volume_name_from_iri iri2 = name"
    and "plain name" "dir_chain f (sb_base_path s)" "wf_fs f" "capacity_inv s"
    and "unat size1 + unat size2 \<le> unat (sb_total_capacity_gb s) - allocated_nat s"
    and "file_at f (sb_base_path s @ [name]) = None" "map_of (sb_volumes s) iri1 = None" "map_of (sb_volumes s) iri2 = None"
  shows "\<exists>h1 h2 s1 f1 s2 f2.
    allocate_volume ok_io None mem iri1 size1 intent Mounted s f = (Inr h1, s1, f1) \<and>
    allocate_volume ok_io None mem iri2 size2 intent Mounted s1 f1 = (Inr h2, s2, f2) \<and>
    vh_device_path h1 = vh_device_path h2 \<and>
    (\<forall>x data. \<exists>s3 f3. delete_volume ok_io iri1 s2 (put_file (sb_base_path s @ [name, x]) data f2) = (Inr (), s3, f3) \<and>
       map_of (sb_volumes s3) iri2 \<noteq> None \<and> file_at f3 (sb_base_path s @ [name, x]) = None)"
proof -
  let ?d = "sb_base_path s @ [name]"
  have pl: "list_all plain ?d" using dir_chain_plain [OF assms(5)] assms(4) by simp
  have nf: "file_at f (take n ?d) = None" for n
    using file_on_chain [OF assms(6,5), of n] assms(9) by (cases "n \<le> length (sb_base_path s)") simp_all
  obtain f1 where f1: "fs_create_dir_all ok_io ?d f = (Inr (), f1)" "dir_chain f1 ?d"
    using create_dir_success [OF pl nf] by metis
  have dev: "create_device ok_io None (sb_base_path s) name sz Mounted g = (Inr (show_path ?d), g')"
    if "fs_create_dir_all ok_io ?d g = (Inr (), g')" for sz g g'
    using that assms(4) by (simp add: create_device_def path_join_plain Let_def)
  let ?r = "\<lambda>iri sz. \<lparr>vr_volume_iri = iri, vr_size_gb = sz, vr_device_path = show_path ?d, vr_storage_intent = intent\<rparr>"
  let ?s1 = "s\<lparr>sb_volumes := hm_insert iri1 (?r iri1 size1) (sb_volumes s)\<rparr>"
  let ?s2 = "?s1\<lparr>sb_volumes := hm_insert iri2 (?r iri2 size2) (sb_volumes ?s1)\<rparr>"
  have fil: "filter (\<lambda>p. fst p \<noteq> iri1) (sb_volumes s) = sb_volumes s"
    using assms(10) by (auto simp: filter_id_conv map_of_eq_None_iff)
  have i1: "capacity_inv ?s1" using assms(8) by (intro capacity_inv_insert [OF assms(7)]) simp
  have n1: "allocated_nat ?s1 = unat size1 + allocated_nat s" by (simp add: allocated_nat_def hm_insert_def fil)
  have a1: "\<not> available_capacity_gb s < size1" "\<not> available_capacity_gb ?s1 < size2"
    using unat_available [OF assms(7)] unat_available [OF i1] n1 assms(8) by (simp_all add: word_less_nat_alt)
  have "allocate_volume ok_io None mem iri1 size1 intent Mounted s f =
      (Inr \<lparr>vh_volume_iri = iri1, vh_device_path = show_path ?d,
        vh_replicated_to = replication_targets mem (sb_node_id s) (si_durability intent)\<rparr>, ?s1, f1)"
    using a1(1) dev [OF f1(1)] by (simp add: allocate_volume_def Let_def assms(2))
  moreover have "allocate_volume ok_io None mem iri2 size2 intent Mounted ?s1 f1 =
      (Inr \<lparr>vh_volume_iri = iri2, vh_device_path = show_path ?d,
        vh_replicated_to = replication_targets mem (sb_node_id s) (si_durability intent)\<rparr>, ?s2, f1)"
    using a1(2) dev [OF create_dir_existing [OF f1(2)]] by (simp add: allocate_volume_def Let_def assms(3))
  moreover have "\<exists>s3 f3. delete_volume ok_io iri1 ?s2 (put_file (?d @ [x]) data f1) = (Inr (), s3, f3) \<and>
      map_of (sb_volumes s3) iri2 \<noteq> None \<and> file_at f3 (?d @ [x]) = None" for x data
  proof -
    let ?g = "put_file (?d @ [x]) data f1"
    have po: "path_of (show_path ?d) = ?d" using path_join_absolute [OF pl] by (simp add: path_of_def)
    have rs: "resolve ?g ?d = Some ?d" "is_dir ?g ?d"
      using resolve_chain [of ?g ?d] dir_chain_is_dir [of ?g ?d] f1(2) by simp_all
    have m: "map_of (sb_volumes ?s2) iri1 = Some (?r iri1 size1)" using assms(1) by (simp add: hm_insert_def)
    have "path_exists ?g ?d" "path_is_dir ?g ?d" using rs by (simp_all add: path_exists_def path_is_dir_def)
    with rs m have d: "delete_volume ok_io iri1 ?s2 ?g =
        (Inr (), ?s2\<lparr>sb_volumes := hm_remove iri1 (sb_volumes ?s2)\<rparr>,
         \<lparr>fs_dirs = filter (\<lambda>r. \<not> below ?d r) (fs_dirs ?g), fs_files = filter (\<lambda>r. \<not> below ?d (fst r)) (fs_files ?g)\<rparr>)"
      by (simp add: delete_volume_def Let_def po fs_remove_dir_all_def ok_io_def)
    have "below ?d (?d @ [x])" by (simp add: below_def)
    then have "file_at \<lparr>fs_dirs = ds, fs_files = filter (\<lambda>r. \<not> below ?d (fst r)) (fs_files ?g)\<rparr> (?d @ [x]) = None" for ds
      by (simp add: file_at_def map_of_filter_key [where P = "\<lambda>k. \<not> below ?d k"])
    moreover have "map_of (hm_remove iri1 (sb_volumes ?s2)) iri2 \<noteq> None"
      using assms(1) by (simp add: hm_remove_def hm_insert_def)
    ultimately show ?thesis using d by simp
  qed
  ultimately show ?thesis by simp
qed

definition ex_backend :: storage_backend where
  "ex_backend = backend_new [''base''] 0 10"

definition ex_disk :: fs where
  "ex_disk = \<lparr>fs_dirs = [[''base'']], fs_files = []\<rparr>"

theorem same_segment_volumes_collide_witness:
  "\<exists>h1 h2 s1 f1 s2 f2 s3 f3.
     allocate_volume ok_io None None ''https://c/products/a/volumes/data'' 1 storage_intent_default Mounted ex_backend ex_disk = (Inr h1, s1, f1) \<and>
     allocate_volume ok_io None None ''https://c/products/b/volumes/data'' 1 storage_intent_default Mounted s1 f1 = (Inr h2, s2, f2) \<and>
     delete_volume ok_io ''https://c/products/a/volumes/data'' s2 (put_file [''base'', ''data'', ''db''] ''rows'' f2) = (Inr (), s3, f3) \<and>
     file_at f3 [''base'', ''data'', ''db''] = None"
proof -
  have h: "''https://c/products/a/volumes/data'' \<noteq> ''https://c/products/b/volumes/data''"
    "volume_name_from_iri ''https://c/products/a/volumes/data'' = ''data''"
    "volume_name_from_iri ''https://c/products/b/volumes/data'' = ''data''" "plain ''data''" "dir_chain ex_disk (sb_base_path ex_backend)"
    "wf_fs ex_disk"
    by code_simp+
  have c: "capacity_inv ex_backend" "unat (1 :: u64) + unat (1 :: u64) \<le> unat (sb_total_capacity_gb ex_backend) - allocated_nat ex_backend"
    "file_at ex_disk (sb_base_path ex_backend @ [''data'']) = None" "map_of (sb_volumes ex_backend) iri = None" for iri
    by (simp_all add: capacity_inv_def ex_backend_def backend_new_def allocated_nat_def ex_disk_def file_at_def)
  from same_segment_volumes_collide [OF h c(1-3) c(4) c(4), of None storage_intent_default] show ?thesis
    by (simp add: ex_backend_def backend_new_def) blast
qed

end
