(* ===== verification/Snapshots.thy ===== *)
theory Snapshots
  imports Storage_Backend
begin

text \<open>
  Snapshots of volumes (\<open>LocalSnapshotManager\<close> and \<open>SnapshotScheduler\<close> of
  \<open>crates/picloud-storage/src/implementation.rs\<close>). Times are nanoseconds since the epoch, as an \<open>int\<close>; the
  formatting and parsing of times by chrono are arguments, as is the time that file metadata
  gives for a directory whose name does not parse. The recursive walks over directories take
  fuel, one unit per level, and the callers pass one more than the number of directories on
  disk, which no chain of nested directories exceeds; running out is the value None. The loop
  that looks for a free name is a partial function.
\<close>

section \<open>Times and names\<close>

record chrono =
  ch_format :: "int \<Rightarrow> string"
  ch_parse :: "string \<Rightarrow> int option"

definition parse_snapshot_name :: "chrono \<Rightarrow> string \<Rightarrow> int option" where
  "parse_snapshot_name ch name =
     (if length name < 20 then None
      else
        let date = take 10 name; rest = drop 10 name
        in if rest = [] \<or> hd rest \<noteq> CHR ''T'' then None
           else if length rest < 9 \<or> rest ! 3 \<noteq> CHR ''-'' \<or> rest ! 6 \<noteq> CHR ''-'' then None
           else ch_parse ch (date @ ''T'' @ take 2 (drop 1 rest) @ '':'' @ take 2 (drop 4 rest) @ '':'' @ drop 7 rest))"

definition format_ts :: "chrono \<Rightarrow> int \<Rightarrow> string" where
  "format_ts ch ts = ch_format ch ts"

definition snapshot_dir :: "path \<Rightarrow> string \<Rightarrow> path" where
  "snapshot_dir base_path volume_name = path_join (path_join base_path ''.snapshots'') volume_name"

definition snap_volume_name :: "resource_iri \<Rightarrow> string" where
  "snap_volume_name volume_iri = last (split_on slash volume_iri)"

section \<open>Walks over directories\<close>

definition dir_fuel :: "fs \<Rightarrow> nat" where
  "dir_fuel f = Suc (length (fs_dirs f))"

text \<open>The size of a directory, in bytes; None when the fuel runs out.\<close>

primrec dir_size :: "disk_io \<Rightarrow> nat \<Rightarrow> fs \<Rightarrow> path \<Rightarrow> u64 option" where
  "dir_size io 0 f p = None"
| "dir_size io (Suc n) f p =
     (if \<not> path_exists f p then Some 0
      else case fs_read_dir io f p of
        Inl _ \<Rightarrow> Some 0
      | Inr names \<Rightarrow>
          foldr (\<lambda>x total.
            Option.bind total (\<lambda>t.
              if path_is_dir f (p @ [x]) then map_option (\<lambda>s. s + t) (dir_size io n f (p @ [x]))
              else case resolve f (p @ [x]) of
                     Some q \<Rightarrow> (case file_at f q of Some d \<Rightarrow> Some (of_nat (length d) + t) | None \<Rightarrow> Some t)
                   | None \<Rightarrow> Some t)) names (Some 0))"

definition fs_copy :: "disk_io \<Rightarrow> path \<Rightarrow> path \<Rightarrow> fs \<Rightarrow> (string + unit) \<times> fs" where
  "fs_copy io src dst f = (case fs_read io f src of Inl e \<Rightarrow> (Inl e, f) | Inr d \<Rightarrow> fs_write io dst d f)"

text \<open>The loop over the entries stops at the first error.\<close>

definition then_do :: "(string + unit) option \<times> fs \<Rightarrow> (fs \<Rightarrow> (string + unit) option \<times> fs) \<Rightarrow> (string + unit) option \<times> fs" where
  "then_do rf k = (case rf of (Some (Inr _), f) \<Rightarrow> k f | _ \<Rightarrow> rf)"

primrec copy_dir_all :: "disk_io \<Rightarrow> nat \<Rightarrow> path \<Rightarrow> path \<Rightarrow> fs \<Rightarrow> (string + unit) option \<times> fs" where
  "copy_dir_all io 0 src dst f = (None, f)"
| "copy_dir_all io (Suc n) src dst f =
     (case fs_create_dir_all io dst f of
        (Inl e, f) \<Rightarrow> (Some (Inl e), f)
      | (Inr _, f) \<Rightarrow>
          (case fs_read_dir io f src of
             Inl e \<Rightarrow> (Some (Inl e), f)
           | Inr names \<Rightarrow>
               foldl (\<lambda>rf x. then_do rf (\<lambda>f.
                   if path_is_dir f (src @ [x]) then copy_dir_all io n (src @ [x]) (dst @ [x]) f
                   else case fs_copy io (src @ [x]) (dst @ [x]) f of (r, f) \<Rightarrow> (Some r, f)))
                 (Some (Inr ()), f) names))"

section \<open>The snapshot manager\<close>

record snapshot_info =
  sni_volume_iri :: resource_iri
  sni_snapshot_path :: string
  sni_size_bytes :: u64
  sni_created_at :: int

text \<open>The bump loop: one microsecond further until the name is free.\<close>

partial_function (option) bump :: "(int \<Rightarrow> bool) \<Rightarrow> int \<Rightarrow> int option" where
  "bump taken ts = (if taken ts then bump taken (ts + 1000) else Some ts)"

declare bump.simps [code]

type_synonym 'a outcome = "(picloud_error + 'a) option \<times> fs"

definition create_snapshot_at :: "chrono \<Rightarrow> disk_io \<Rightarrow> path \<Rightarrow> resource_iri \<Rightarrow> int \<Rightarrow> fs \<Rightarrow> snapshot_info outcome" where
  "create_snapshot_at ch io base_path volume_iri at_time f =
     (let volume_name = snap_volume_name volume_iri;
          volume_dir = path_join base_path volume_name
      in if \<not> path_exists f volume_dir then (Some (Inl (ResourceNotFound volume_iri)), f)
         else case bump (\<lambda>ts. path_exists f (path_join (snapshot_dir base_path volume_name) (format_ts ch ts))) at_time of
           None \<Rightarrow> (None, f)
         | Some ts \<Rightarrow>
             let snapshot_path = path_join (snapshot_dir base_path volume_name) (format_ts ch ts)
             in case copy_dir_all io (dir_fuel f) volume_dir snapshot_path f of
                  (None, f) \<Rightarrow> (None, f)
                | (Some (Inl e), f) \<Rightarrow> (Some (Inl (Internal (''Failed to create snapshot for '' @ volume_name @ '': '' @ e))), f)
                | (Some (Inr _), f) \<Rightarrow>
                    (case dir_size io (dir_fuel f) f snapshot_path of
                       None \<Rightarrow> (None, f)
                     | Some size_bytes \<Rightarrow>
                         (Some (Inr \<lparr>sni_volume_iri = volume_iri, sni_snapshot_path = show_path snapshot_path,
                                     sni_size_bytes = size_bytes, sni_created_at = ts\<rparr>), f)))"

text \<open>\<open>sort_by\<close> is stable; newest first.\<close>

definition list_snapshots ::
  "chrono \<Rightarrow> (path \<Rightarrow> int) \<Rightarrow> disk_io \<Rightarrow> path \<Rightarrow> resource_iri \<Rightarrow> fs \<Rightarrow> picloud_error + snapshot_info list" where
  "list_snapshots ch meta_created io base_path volume_iri f =
     (let snap_dir = snapshot_dir base_path (snap_volume_name volume_iri)
      in if \<not> path_exists f snap_dir then Inr []
         else case fs_read_dir io f snap_dir of
           Inl e \<Rightarrow> Inl (Internal (''Failed to read snapshot dir: '' @ e))
         | Inr names \<Rightarrow>
             Inr (sort_key (\<lambda>i. - sni_created_at i)
               (map (\<lambda>name.
                  \<lparr>sni_volume_iri = volume_iri, sni_snapshot_path = show_path (snap_dir @ [name]),
                   sni_size_bytes = (case dir_size io (dir_fuel f) f (snap_dir @ [name]) of Some s \<Rightarrow> s | None \<Rightarrow> 0),
                   sni_created_at = (case parse_snapshot_name ch name of
                                       Some t \<Rightarrow> t | None \<Rightarrow> meta_created (snap_dir @ [name]))\<rparr>)
                 (filter (\<lambda>name. path_is_dir f (snap_dir @ [name])) names))))"

definition snapshot_missing :: "string \<Rightarrow> resource_iri \<Rightarrow> picloud_error" where
  "snapshot_missing snapshot volume_iri = ResourceNotFound (''snapshot '' @ snapshot @ '' for '' @ volume_iri)"

definition restore_snapshot :: "disk_io \<Rightarrow> path \<Rightarrow> resource_iri \<Rightarrow> string \<Rightarrow> fs \<Rightarrow> unit outcome" where
  "restore_snapshot io base_path volume_iri snapshot_timestamp f =
     (let volume_name = snap_volume_name volume_iri;
          snapshot_path = path_join (snapshot_dir base_path volume_name) snapshot_timestamp
      in if \<not> path_exists f snapshot_path then (Some (Inl (snapshot_missing snapshot_timestamp volume_iri)), f)
         else
           let volume_dir = path_join base_path volume_name
           in case (if path_exists f volume_dir then fs_remove_dir_all io volume_dir f else (Inr (), f)) of
                (Inl e, f) \<Rightarrow> (Some (Inl (Internal (''Failed to clear volume '' @ volume_name @ '': '' @ e))), f)
              | (Inr _, f) \<Rightarrow>
                  (case copy_dir_all io (dir_fuel f) snapshot_path volume_dir f of
                     (None, f) \<Rightarrow> (None, f)
                   | (Some (Inl e), f) \<Rightarrow>
                       (Some (Inl (Internal (''Failed to restore snapshot for '' @ volume_name @ '': '' @ e))), f)
                   | (Some (Inr _), f) \<Rightarrow> (Some (Inr ()), f)))"

definition delete_snapshot :: "disk_io \<Rightarrow> resource_iri \<Rightarrow> string \<Rightarrow> fs \<Rightarrow> (picloud_error + unit) \<times> fs" where
  "delete_snapshot io volume_iri snapshot_path f =
     (let path = path_of snapshot_path
      in if \<not> path_exists f path then (Inl (snapshot_missing snapshot_path volume_iri), f)
         else case fs_remove_dir_all io path f of
           (Inl e, f) \<Rightarrow> (Inl (Internal (''Failed to delete snapshot: '' @ e)), f)
         | (Inr _, f) \<Rightarrow> (Inr (), f))"

definition restore_snapshot_to_new_volume ::
  "disk_io \<Rightarrow> path \<Rightarrow> resource_iri \<Rightarrow> string \<Rightarrow> resource_iri \<Rightarrow> fs \<Rightarrow> unit outcome" where
  "restore_snapshot_to_new_volume io base_path source_volume_iri snapshot_timestamp target_volume_iri f =
     (let target_name = snap_volume_name target_volume_iri;
          snapshot_path = path_join (snapshot_dir base_path (snap_volume_name source_volume_iri)) snapshot_timestamp
      in if \<not> path_exists f snapshot_path then (Some (Inl (snapshot_missing snapshot_timestamp source_volume_iri)), f)
         else case copy_dir_all io (dir_fuel f) snapshot_path (path_join base_path target_name) f of
           (None, f) \<Rightarrow> (None, f)
         | (Some (Inl e), f) \<Rightarrow>
             (Some (Inl (Internal (''Failed to restore snapshot to new volume '' @ target_name @ '': '' @ e))), f)
         | (Some (Inr _), f) \<Rightarrow> (Some (Inr ()), f))"

fun delete_all :: "disk_io \<Rightarrow> resource_iri \<Rightarrow> snapshot_info list \<Rightarrow> fs \<Rightarrow> (picloud_error + unit) \<times> fs" where
  "delete_all io volume_iri [] f = (Inr (), f)"
| "delete_all io volume_iri (snap # snaps) f =
     (case delete_snapshot io volume_iri (sni_snapshot_path snap) f of
        (Inl e, f) \<Rightarrow> (Inl e, f)
      | (Inr _, f) \<Rightarrow> delete_all io volume_iri snaps f)"

definition enforce_retention ::
  "chrono \<Rightarrow> (path \<Rightarrow> int) \<Rightarrow> disk_io \<Rightarrow> path \<Rightarrow> resource_iri \<Rightarrow> snapshot_retention \<Rightarrow> fs \<Rightarrow> (picloud_error + nat) \<times> fs" where
  "enforce_retention ch meta_created io base_path volume_iri retention f =
     (case list_snapshots ch meta_created io base_path volume_iri f of
        Inl e \<Rightarrow> (Inl e, f)
      | Inr snapshots \<Rightarrow>
          if snapshots = [] then (Inr 0, f)
          else
            let max_keep = unat (ret_daily retention)
            in if max_keep = 0 \<or> length snapshots \<le> max_keep then (Inr 0, f)
               else
                 let snapshots = sort_key (\<lambda>i. - sni_created_at i) snapshots;
                     to_delete = drop max_keep snapshots
                 in case delete_all io volume_iri to_delete f of
                      (Inl e, f) \<Rightarrow> (Inl e, f)
                    | (Inr _, f) \<Rightarrow> (Inr (length to_delete), f))"

section \<open>The scheduler\<close>

text \<open>\<open>last_run\<close>: the logical time of the last snapshot, per volume.\<close>

type_synonym last_run = "(string \<times> int) list"

definition schedule_interval :: "snapshot_schedule \<Rightarrow> int" where
  "schedule_interval schedule =
     (case schedule of
        Hourly \<Rightarrow> 3600 * 1000000000 | Daily \<Rightarrow> 24 * 3600 * 1000000000 | Weekly \<Rightarrow> 7 * 24 * 3600 * 1000000000)"

definition is_due :: "snapshot_schedule \<Rightarrow> int option \<Rightarrow> int \<Rightarrow> bool" where
  "is_due schedule last_snapshot now =
     (case last_snapshot of None \<Rightarrow> True | Some t \<Rightarrow> now - t \<ge> schedule_interval schedule)"

definition run_once ::
  "chrono \<Rightarrow> (path \<Rightarrow> int) \<Rightarrow> disk_io \<Rightarrow> path \<Rightarrow> resource_iri \<Rightarrow> snapshot_config \<Rightarrow> int \<Rightarrow> last_run \<Rightarrow> fs
   \<Rightarrow> (picloud_error + snapshot_info option) option \<times> last_run \<times> fs" where
  "run_once ch meta_created io base_path volume_iri config now last_run f =
     (if \<not> sc_enabled config then (Some (Inr None), last_run, f)
      else
        case (case map_of last_run volume_iri of
                Some t \<Rightarrow> Inr (Some t)
              | None \<Rightarrow> and_then (list_snapshots ch meta_created io base_path volume_iri f)
                          (\<lambda>existing. Inr (case existing of [] \<Rightarrow> None | s # _ \<Rightarrow> Some (sni_created_at s)))) of
          Inl e \<Rightarrow> (Some (Inl e), last_run, f)
        | Inr last_time \<Rightarrow>
            if \<not> is_due (sc_schedule config) last_time now then (Some (Inr None), last_run, f)
            else case create_snapshot_at ch io base_path volume_iri now f of
              (None, f) \<Rightarrow> (None, last_run, f)
            | (Some (Inl e), f) \<Rightarrow> (Some (Inl e), last_run, f)
            | (Some (Inr info), f) \<Rightarrow>
                let last_run = hm_insert volume_iri (sni_created_at info) last_run
                in case enforce_retention ch meta_created io base_path volume_iri (sc_retention config) f of
                     (Inl e, f) \<Rightarrow> (Some (Inl e), last_run, f)
                   | (Inr _, f) \<Rightarrow> (Some (Inr (Some info)), last_run, f))"

section \<open>The bump loop\<close>

lemma bump_first:
  "taken (ts + 1000 * int k) = False \<Longrightarrow> (\<And>j. j < k \<Longrightarrow> taken (ts + 1000 * int j)) \<Longrightarrow> bump taken ts = Some (ts + 1000 * int k)"
proof (induction k arbitrary: ts)
  case 0
  then show ?case by (simp add: bump.simps)
next
  case (Suc k)
  have "taken ts" using Suc.prems(2) [of 0] by simp
  moreover have "bump taken (ts + 1000) = Some ((ts + 1000) + 1000 * int k)"
  proof (rule Suc.IH)
    show "taken (ts + 1000 + 1000 * int k) = False" using Suc.prems(1) by (simp add: algebra_simps)
    show "taken (ts + 1000 + 1000 * int j)" if "j < k" for j
      using Suc.prems(2) [of "Suc j"] that by (simp add: algebra_simps)
  qed
  ultimately show ?case by (subst bump.simps) (simp add: algebra_simps)
qed

lemma bump_terminates:
  assumes "\<exists>k. \<not> taken (ts + 1000 * int k)"
  shows "\<exists>k. bump taken ts = Some (ts + 1000 * int k) \<and> \<not> taken (ts + 1000 * int k) \<and> (\<forall>j < k. taken (ts + 1000 * int j))"
proof -
  let ?k = "LEAST k. \<not> taken (ts + 1000 * int k)"
  have "\<not> taken (ts + 1000 * int ?k)" using assms by (rule LeastI_ex)
  moreover have "taken (ts + 1000 * int j)" if "j < ?k" for j using not_less_Least that by blast
  ultimately show ?thesis using bump_first [of taken ts ?k] by blast
qed

text \<open>A path of plain names that exists is listed on the disk.\<close>

lemma path_exists_listed:
  assumes "list_all plain p" "path_exists f p"
  shows "p = [] \<or> p \<in> set (fs_dirs f @ map fst (fs_files f))"
  using assms resolve_plain [OF assms(1)]
  by (auto simp: path_exists_def is_dir_def file_at_def split: option.splits dest: map_of_SomeD) (force dest: map_of_SomeD)

text \<open>As many names are taken as the disk has entries, so that among more distinct ones one is free.\<close>

definition entries :: "fs \<Rightarrow> nat" where
  "entries f = length (fs_dirs f) + length (fs_files f)"

lemma free_name:
  assumes "inj_on name {..entries f}" "\<And>k. k \<le> entries f \<Longrightarrow> plain (name k)" "list_all plain d"
  shows "\<exists>k \<le> entries f. \<not> path_exists f (d @ [name k])"
proof (rule ccontr)
  assume "\<not> (\<exists>k \<le> entries f. \<not> path_exists f (d @ [name k]))"
  then have "d @ [name k] \<in> set (fs_dirs f @ map fst (fs_files f))" if "k \<le> entries f" for k
    using path_exists_listed [of "d @ [name k]" f] assms(2,3) that by auto
  then have "(\<lambda>k. d @ [name k]) ` {..entries f} \<subseteq> set (fs_dirs f @ map fst (fs_files f))" by blast
  moreover have "inj_on (\<lambda>k. d @ [name k]) {..entries f}" using assms(1) by (auto simp: inj_on_def)
  ultimately have "card {..entries f} \<le> card (set (fs_dirs f @ map fst (fs_files f)))" by (intro card_inj_on_le) auto
  also have "\<dots> \<le> entries f" using card_length [of "fs_dirs f @ map fst (fs_files f)"] by (simp only: entries_def length_append length_map)
  finally show False by simp
qed

lemma bump_bounded:
  assumes "\<exists>k \<le> n. \<not> taken (ts + 1000 * int k)"
  shows "\<exists>k \<le> n. bump taken ts = Some (ts + 1000 * int k) \<and> \<not> taken (ts + 1000 * int k) \<and> (\<forall>j < k. taken (ts + 1000 * int j))"
proof -
  obtain k where k: "bump taken ts = Some (ts + 1000 * int k)" "\<not> taken (ts + 1000 * int k)" "\<forall>j < k. taken (ts + 1000 * int j)"
    using bump_terminates [of taken ts] assms by blast
  from assms obtain m where "m \<le> n" "\<not> taken (ts + 1000 * int m)" by blast
  with k(3) have "k \<le> n" by (meson linorder_not_less order.trans)
  with k show ?thesis by blast
qed

section \<open>Copying a directory tree\<close>

text \<open>The subtree below a directory is closed: every entry has a plain name and an existing parent.\<close>

definition closed_below :: "fs \<Rightarrow> path \<Rightarrow> bool" where
  "closed_below f p \<longleftrightarrow> (\<forall>r x. is_dir f (p @ r @ [x]) \<or> file_at f (p @ r @ [x]) \<noteq> None \<longrightarrow> plain x \<and> is_dir f (p @ r))"

definition empty_below :: "fs \<Rightarrow> path \<Rightarrow> bool" where
  "empty_below f p \<longleftrightarrow> (\<forall>r. \<not> is_dir f (p @ r) \<and> file_at f (p @ r) = None)"

definition apart :: "path \<Rightarrow> path \<Rightarrow> bool" where
  "apart p q \<longleftrightarrow> \<not> below p q \<and> \<not> below q p"

text \<open>\<open>f'\<close> is \<open>f\<close> with the part of the tree below \<open>src\<close> whose first name is in \<open>S\<close> added below \<open>dst\<close>.\<close>

definition copied :: "path \<Rightarrow> path \<Rightarrow> string set \<Rightarrow> fs \<Rightarrow> fs \<Rightarrow> bool" where
  "copied src dst S f f' \<longleftrightarrow>
     (\<forall>q. \<not> below dst q \<longrightarrow> is_dir f' q = is_dir f q \<and> file_at f' q = file_at f q) \<and>
     is_dir f' dst \<and> file_at f' dst = None \<and>
     (\<forall>x r. is_dir f' (dst @ x # r) = (x \<in> S \<and> is_dir f (src @ x # r)) \<and>
            file_at f' (dst @ x # r) = (if x \<in> S then file_at f (src @ x # r) else None))"

lemma below_append [simp]: "below p (p @ r)"
  by (simp add: below_def)

lemma below_iff: "below p q \<longleftrightarrow> (\<exists>r. q = p @ r)"
  unfolding below_def by (metis append_take_drop_id append_eq_conv_conj)

lemma apart_append: "apart p q \<Longrightarrow> apart (p @ r) (q @ s)"
  unfolding apart_def below_iff by (metis append_eq_append_conv2 append.assoc)

lemma apart_not_below: "apart src dst \<Longrightarrow> \<not> below dst (src @ r)"
  using apart_append [of src dst r "[]"] by (simp add: apart_def)

lemma copiedD:
  assumes "copied src dst S f g" "apart src dst"
  shows "is_dir g (src @ r) = is_dir f (src @ r)" "file_at g (src @ r) = file_at f (src @ r)"
  using assms apart_not_below [OF assms(2)] by (auto simp: copied_def)

lemma copied_src_chain:
  assumes "copied src dst S f g" "apart src dst" "dir_chain f src"
  shows "dir_chain g src"
proof -
  have "\<not> below dst (take n src)" for n
    using assms(2) unfolding apart_def below_iff by (metis append.assoc append_take_drop_id)
  with assms show ?thesis unfolding copied_def dir_chain_def by blast
qed

lemma copied_dst_chain:
  assumes "copied src (pd @ [c]) S f g" "dir_chain f pd" "plain c"
  shows "dir_chain g (pd @ [c])"
proof -
  have "\<not> below (pd @ [c]) (take n pd)" for n
    by (auto simp: below_def dest!: arg_cong [where f = length])
  then have "is_dir g (take n pd)" if "n \<le> length pd" for n
    using assms(1) dir_chain_take [OF assms(2) that] unfolding copied_def by blast
  then have "dir_chain g pd" using dir_chain_plain [OF assms(2)] unfolding dir_chain_def by blast
  with assms show ?thesis by (simp add: dir_chain_snoc copied_def)
qed

text \<open>One step of the loop: a subdirectory.\<close>

lemma copied_dir_step:
  assumes "copied src dst S f g" "copied (src @ [x]) (dst @ [x]) UNIV g g'" "apart src dst" "x \<notin> S"
    "is_dir f (src @ [x])" "file_at f (src @ [x]) = None"
  shows "copied src dst (insert x S) f g'"
proof -
  have nb: "\<not> below (dst @ [x]) dst" by (auto simp: below_def dest!: arg_cong [where f = length])
  have nb': "below (dst @ [x]) q \<Longrightarrow> below dst q" for q by (auto simp: below_iff)
  have o: "is_dir g' q = is_dir g q \<and> file_at g' q = file_at g q" if "\<not> below (dst @ [x]) q" for q
    using assms(2) that unfolding copied_def by blast
  have x: "is_dir g' (dst @ x # r) = is_dir f (src @ x # r) \<and> file_at g' (dst @ x # r) = file_at f (src @ x # r)" for r
  proof (cases r)
    case Nil
    with assms(2,5,6) show ?thesis by (simp add: copied_def)
  next
    case (Cons y r')
    have "is_dir g' ((dst @ [x]) @ y # r') = is_dir g ((src @ [x]) @ y # r')"
      "file_at g' ((dst @ [x]) @ y # r') = file_at g ((src @ [x]) @ y # r')"
      using assms(2) unfolding copied_def by simp_all
    with copiedD [OF assms(1,3), of "x # r"] Cons show ?thesis by simp
  qed
  have y: "is_dir g' (dst @ y # r) = is_dir g (dst @ y # r) \<and> file_at g' (dst @ y # r) = file_at g (dst @ y # r)" if "y \<noteq> x" for y r
    using that by (intro o) (auto simp: below_def)
  show ?thesis
    unfolding copied_def
  proof (intro conjI allI impI)
    fix q assume q: "\<not> below dst q"
    then have "\<not> below (dst @ [x]) q" using nb' by blast
    with q o assms(1) show "is_dir g' q = is_dir f q" "file_at g' q = file_at f q"
      by (simp_all add: copied_def)
  next
    show "is_dir g' dst" "file_at g' dst = None" using o [OF nb] assms(1) by (simp_all add: copied_def)
  next
    fix y r
    show "is_dir g' (dst @ y # r) = (y \<in> insert x S \<and> is_dir f (src @ y # r))"
      "file_at g' (dst @ y # r) = (if y \<in> insert x S then file_at f (src @ y # r) else None)"
      using x [of r] y [of y r] assms(1) by (cases "y = x"; simp add: copied_def)+
  qed
qed

text \<open>The other step: a file.\<close>

lemma copied_file_step:
  assumes "copied src dst S f g" "x \<notin> S" "file_at f (src @ [x]) = Some d" "\<not> is_dir f (src @ [x])" "closed_below f src"
  shows "copied src dst (insert x S) f (put_file (dst @ [x]) d g)"
proof -
  have up: "\<not> is_dir f (src @ r @ [z]) \<and> file_at f (src @ r @ [z]) = None" if "\<not> is_dir f (src @ r)" for r z
    using assms(5) that unfolding closed_below_def by blast
  have n: "\<not> is_dir f (src @ x # r) \<and> (r \<noteq> [] \<longrightarrow> file_at f (src @ x # r) = None)" for r
  proof (induction r rule: rev_induct)
    case Nil
    with assms(4) show ?case by simp
  next
    case (snoc z r)
    then show ?case using up [of "x # r" z] by simp
  qed
  show ?thesis
    unfolding copied_def
  proof (intro conjI allI impI)
    fix q assume "\<not> below dst q"
    then show "is_dir (put_file (dst @ [x]) d g) q = is_dir f q" "file_at (put_file (dst @ [x]) d g) q = file_at f q"
      using assms(1) by (auto simp: copied_def)
  next
    show "is_dir (put_file (dst @ [x]) d g) dst" "file_at (put_file (dst @ [x]) d g) dst = None"
      using assms(1) by (simp_all add: copied_def)
  next
    fix y r
    show "is_dir (put_file (dst @ [x]) d g) (dst @ y # r) = (y \<in> insert x S \<and> is_dir f (src @ y # r))"
      using assms(1) n [of r] by (auto simp: copied_def)
    show "file_at (put_file (dst @ [x]) d g) (dst @ y # r) = (if y \<in> insert x S then file_at f (src @ y # r) else None)"
      using assms(1-3) n [of r] by (cases "y = x") (auto simp: copied_def)
  qed
qed

lemma copied_all:
  assumes "copied src dst S f g" "closed_below f src" "S = set (children f src)"
  shows "copied src dst UNIV f g"
proof -
  have "\<not> is_dir f (src @ x # r) \<and> file_at f (src @ x # r) = None" if "x \<notin> S" for x r
  proof (induction r rule: rev_induct)
    case Nil
    then show ?case using that assms(3) by (auto simp: set_children is_dir_def)
  next
    case (snoc z r)
    then show ?case using assms(2) unfolding closed_below_def by (metis append.assoc append_Cons)
  qed
  with assms(1) show ?thesis unfolding copied_def by (metis UNIV_I)
qed

definition copy_pre :: "nat \<Rightarrow> path \<Rightarrow> path \<Rightarrow> fs \<Rightarrow> bool" where
  "copy_pre n src dst f \<longleftrightarrow>
     dir_chain f src \<and> wf_fs f \<and> closed_below f src \<and> apart src dst \<and> empty_below f dst \<and>
     dst \<noteq> [] \<and> dir_chain f (butlast dst) \<and> plain (last dst) \<and> (\<forall>r. is_dir f (src @ r) \<longrightarrow> length r < n)"

lemma copy_pre_child:
  assumes "copy_pre (Suc n) src dst f" "copied src dst S f g" "wf_fs g" "x \<notin> S" "is_dir f (src @ [x])"
  shows "copy_pre n (src @ [x]) (dst @ [x]) g"
proof -
  have p: "apart src dst" "dir_chain f src" "closed_below f src" "dir_chain f (butlast dst)" "plain (last dst)" "dst \<noteq> []"
    "\<And>r. is_dir f (src @ r) \<Longrightarrow> length r < Suc n"
    using assms(1) by (auto simp: copy_pre_def)
  note same = copiedD [OF assms(2) p(1)]
  have x: "plain x" using p(3) assms(5) unfolding closed_below_def by (metis append_Nil)
  have "dir_chain g (src @ [x])"
    using copied_src_chain [OF assms(2) p(1,2)] x assms(5) same(1) [of "[x]"] by (simp add: dir_chain_snoc)
  moreover have "closed_below g (src @ [x])"
    unfolding closed_below_def
  proof (intro allI impI)
    fix r z
    assume "is_dir g ((src @ [x]) @ r @ [z]) \<or> file_at g ((src @ [x]) @ r @ [z]) \<noteq> None"
    then have "is_dir f (src @ (x # r) @ [z]) \<or> file_at f (src @ (x # r) @ [z]) \<noteq> None"
      using same [of "x # r @ [z]"] by simp
    then have "plain z \<and> is_dir f (src @ x # r)" using p(3) unfolding closed_below_def by blast
    then show "plain z \<and> is_dir g ((src @ [x]) @ r)" using same(1) [of "x # r"] by simp
  qed
  moreover have "apart (src @ [x]) (dst @ [x])" using p(1) by (rule apart_append)
  moreover have "empty_below g (dst @ [x])"
    using assms(2,4) by (simp add: empty_below_def copied_def)
  moreover have "dir_chain g dst"
    using copied_dst_chain [of src "butlast dst" "last dst" S f g] assms(2) p(4-6) by simp
  moreover have "length r < n" if "is_dir g ((src @ [x]) @ r)" for r
    using same(1) [of "x # r"] that p(7) [of "x # r"] by simp
  ultimately show ?thesis using assms(3) x by (simp add: copy_pre_def)
qed

lemma copy_loop:
  assumes IH: "\<And>src dst f. copy_pre n src dst f \<Longrightarrow>
      \<exists>g. copy_dir_all ok_io n src dst f = (Some (Inr ()), g) \<and> copied src dst UNIV f g \<and> wf_fs g"
    and pre: "copy_pre (Suc n) src dst f"
  shows "copied src dst S f g \<Longrightarrow> wf_fs g \<Longrightarrow> distinct names \<Longrightarrow> set names \<inter> S = {} \<Longrightarrow> set names \<subseteq> set (children f src) \<Longrightarrow>
    \<exists>g'. foldl (\<lambda>rf x. then_do rf (\<lambda>f.
             if path_is_dir f (src @ [x]) then copy_dir_all ok_io n (src @ [x]) (dst @ [x]) f
             else case fs_copy ok_io (src @ [x]) (dst @ [x]) f of (r, f) \<Rightarrow> (Some r, f))) (Some (Inr ()), g) names =
           (Some (Inr ()), g') \<and>
         copied src dst (S \<union> set names) f g' \<and> wf_fs g'"
proof (induction names arbitrary: S g)
  case (Cons x names)
  have p: "apart src dst" "dir_chain f src" "closed_below f src" "dir_chain f (butlast dst)" "plain (last dst)" "dst \<noteq> []" "wf_fs f"
    using pre by (auto simp: copy_pre_def)
  have x: "x \<notin> S" "is_dir f (src @ [x]) \<or> file_at f (src @ [x]) \<noteq> None" "plain x"
  proof -
    show "x \<notin> S" using Cons.prems(4) by auto
    show d: "is_dir f (src @ [x]) \<or> file_at f (src @ [x]) \<noteq> None"
      using Cons.prems(5) by (auto simp: set_children is_dir_def)
    show "plain x" using d p(3) unfolding closed_below_def by (metis append_Nil)
  qed
  note same = copiedD [OF Cons.prems(1) p(1), of "[x]"]
  have sc: "dir_chain g src" using copied_src_chain [OF Cons.prems(1) p(1,2)] .
  have rs: "resolve g (src @ [x]) = Some (src @ [x])" using resolve_child [OF sc x(3)] .
  have pd: "path_is_dir g (src @ [x]) = is_dir f (src @ [x])" using same(1) by (simp add: path_is_dir_def rs)
  have dc: "dir_chain g dst"
    using copied_dst_chain [of src "butlast dst" "last dst" S f g] Cons.prems(1) p(4-6) by simp
  obtain h where h: "(if path_is_dir g (src @ [x]) then copy_dir_all ok_io n (src @ [x]) (dst @ [x]) g
      else case fs_copy ok_io (src @ [x]) (dst @ [x]) g of (r, f) \<Rightarrow> (Some r, f)) = (Some (Inr ()), h)"
    "copied src dst (insert x S) f h" "wf_fs h"
  proof (cases "is_dir f (src @ [x])")
    case True
    then have "file_at f (src @ [x]) = None" using wf_fs_file [OF p(7)] by (cases "file_at f (src @ [x])") auto
    moreover obtain h where "copy_dir_all ok_io n (src @ [x]) (dst @ [x]) g = (Some (Inr ()), h)"
      "copied (src @ [x]) (dst @ [x]) UNIV g h" "wf_fs h"
      using IH [OF copy_pre_child [OF pre Cons.prems(1,2) x(1) True]] by blast
    ultimately show thesis
      using that pd True copied_dir_step [OF Cons.prems(1) _ p(1) x(1) True] by simp
  next
    case False
    with x(2) obtain d where d: "file_at f (src @ [x]) = Some d" by auto
    have nd: "\<not> is_dir g (dst @ [x])" using Cons.prems(1) x(1) by (simp add: copied_def)
    have "fs_copy ok_io (src @ [x]) (dst @ [x]) g = (Inr (), put_file (dst @ [x]) d g)"
      using same d False fs_write_ok [OF dc x(3) nd] by (simp add: fs_copy_def fs_read_def rs) (simp add: ok_io_def)
    with that pd False copied_file_step [OF Cons.prems(1) x(1) d False p(3)] Cons.prems(2) nd show thesis by simp
  qed
  have s: "S \<union> set (x # names) = insert x S \<union> set names" by simp
  have "\<exists>g'. foldl (\<lambda>rf x. then_do rf (\<lambda>f.
             if path_is_dir f (src @ [x]) then copy_dir_all ok_io n (src @ [x]) (dst @ [x]) f
             else case fs_copy ok_io (src @ [x]) (dst @ [x]) f of (r, f) \<Rightarrow> (Some r, f))) (Some (Inr ()), h) names =
           (Some (Inr ()), g') \<and> copied src dst (insert x S \<union> set names) f g' \<and> wf_fs g'"
    using Cons.prems(3-5) by (intro Cons.IH [OF h(2,3)]) auto
  then show ?case unfolding s foldl_Cons by (simp add: then_do_def h(1))
qed simp

lemma create_child:
  assumes "dir_chain f p" "plain c" "\<not> is_dir f (p @ [c])" "file_at f (p @ [c]) = None"
  shows "fs_create_dir_all ok_io (p @ [c]) f = (Inr (), f\<lparr>fs_dirs := (p @ [c]) # fs_dirs f\<rparr>)"
proof -
  have pl: "list_all plain (p @ [c])" using dir_chain_plain [OF assms(1)] assms(2) by simp
  have "make_dirs ok_io cur (cs @ [c]) f = (Inr (), f\<lparr>fs_dirs := (p @ [c]) # fs_dirs f\<rparr>)" if "p = cur @ cs" for cur cs
    using that
  proof (induction cs arbitrary: cur)
    case Nil
    then show ?case using assms by (simp add: plain_def ok_io_def)
  next
    case (Cons a cs)
    have "is_dir f (cur @ [a])" using dir_chain_take [OF assms(1), of "Suc (length cur)"] Cons.prems by simp
    moreover have "plain a" using dir_chain_plain [OF assms(1)] Cons.prems by simp
    ultimately show ?case using Cons.IH [of "cur @ [a]"] Cons.prems by (simp add: plain_def)
  qed
  from this [of "[]" p] pl show ?thesis by (auto simp: fs_create_dir_all_def list_ex_iff list_all_iff plain_def)
qed

lemma copy_tree:
  "copy_pre n src dst f \<Longrightarrow> \<exists>g. copy_dir_all ok_io n src dst f = (Some (Inr ()), g) \<and> copied src dst UNIV f g \<and> wf_fs g"
proof (induction n arbitrary: src dst f)
  case 0
  then have "is_dir f (src @ [])" by (simp add: copy_pre_def)
  with 0 show ?case unfolding copy_pre_def by blast
next
  case (Suc n)
  have p: "apart src dst" "dir_chain f src" "closed_below f src" "dir_chain f (butlast dst)" "plain (last dst)" "dst \<noteq> []" "wf_fs f"
    "empty_below f dst"
    using Suc.prems by (auto simp: copy_pre_def)
  have e: "\<not> is_dir f (dst @ r)" "file_at f (dst @ r) = None" for r using p(8) by (simp_all add: empty_below_def)
  let ?f0 = "f\<lparr>fs_dirs := dst # fs_dirs f\<rparr>"
  have c: "fs_create_dir_all ok_io dst f = (Inr (), ?f0)"
    using create_child [OF p(4,5)] p(6) e [of "[]"] by simp
  have d0: "is_dir ?f0 q = (is_dir f q \<or> q = dst)" "file_at ?f0 q = file_at f q" for q
    by (auto simp: is_dir_def file_at_def)
  have c0: "copied src dst {} f ?f0"
    unfolding copied_def d0 using e e [of "[]"] by (auto simp: below_def)
  have w0: "wf_fs ?f0"
    using p(7) e(2) [of "[]"] unfolding wf_fs_def d0(1) by (auto simp: list_all_iff file_at_def map_of_eq_None_iff image_iff)
  have ch: "set (children ?f0 src) = set (children f src)"
    using copiedD [OF c0 p(1), of "[_]"] d0 by (auto simp: set_children is_dir_def)
  have rd: "fs_read_dir ok_io ?f0 src = Inr (children ?f0 src)"
    using resolve_chain [OF copied_src_chain [OF c0 p(1,2)]] dir_chain_is_dir [OF copied_src_chain [OF c0 p(1,2)]]
    by (simp add: fs_read_dir_def ok_io_def)
  obtain g where "foldl (\<lambda>rf x. then_do rf (\<lambda>f.
             if path_is_dir f (src @ [x]) then copy_dir_all ok_io n (src @ [x]) (dst @ [x]) f
             else case fs_copy ok_io (src @ [x]) (dst @ [x]) f of (r, f) \<Rightarrow> (Some r, f))) (Some (Inr ()), ?f0) (children ?f0 src) =
           (Some (Inr ()), g)" "copied src dst (set (children f src)) f g" "wf_fs g"
    using copy_loop [OF Suc.IH Suc.prems c0 w0, of "children ?f0 src"] ch by (auto simp: children_def)
  then show ?case using copied_all [OF _ p(3) refl] by (simp add: c rd) 
qed

section \<open>Clean disks\<close>

text \<open>A disk as the kernel keeps it: files and directories are distinct, every entry has a plain name
  and a parent directory.\<close>

definition clean :: "fs \<Rightarrow> bool" where
  "clean f \<longleftrightarrow> wf_fs f \<and> closed_below f []"

lemma clean_closed: "clean f \<Longrightarrow> closed_below f p"
  unfolding clean_def closed_below_def by (metis append_Nil append.assoc)

lemma clean_prefix:
  assumes "clean f" "is_dir f (p @ r)"
  shows "is_dir f p \<and> list_all plain r"
  using assms(2)
proof (induction r rule: rev_induct)
  case (snoc x r)
  then have "plain x \<and> is_dir f (p @ r)" using clean_closed [OF assms(1), of p] unfolding closed_below_def by blast
  with snoc.IH show ?case by simp
qed simp

lemma clean_chain: "clean f \<Longrightarrow> is_dir f p \<Longrightarrow> dir_chain f p"
  unfolding dir_chain_def using clean_prefix [of f "[]" p] clean_prefix [of f "take _ p" "drop _ p"]
  by (metis append_Nil append_take_drop_id)

lemma clean_depth:
  assumes "clean f" "is_dir f (p @ r)"
  shows "length r < dir_fuel f"
proof -
  have "(\<lambda>k. p @ take k r) ` {1..length r} \<subseteq> set (fs_dirs f)"
  proof
    fix q assume "q \<in> (\<lambda>k. p @ take k r) ` {1..length r}"
    then obtain k where k: "1 \<le> k" "k \<le> length r" "q = p @ take k r" by auto
    have "is_dir f ((p @ take k r) @ drop k r)" using assms(2) by simp
    then have "is_dir f q" using clean_prefix [OF assms(1)] k(3) by blast
    moreover have "q \<noteq> []" using k by (cases r) auto
    ultimately show "q \<in> set (fs_dirs f)" by (simp add: is_dir_def)
  qed
  moreover have "inj_on (\<lambda>k. p @ take k r) {1..length r}"
    by (rule inj_onI) (auto dest!: arg_cong [where f = length])
  ultimately have "card {1..length r} \<le> card (set (fs_dirs f))" by (intro card_inj_on_le) auto
  also have "\<dots> \<le> length (fs_dirs f)" by (rule card_length)
  finally show ?thesis by (simp add: dir_fuel_def)
qed

lemma clean_file_plain:
  assumes "clean f" "is_dir f p" "x \<in> set (children f p)"
  shows "plain x"
  using assms clean_closed [OF assms(1), of p] unfolding closed_below_def
  by (auto simp: set_children is_dir_def) (metis append_Nil)+

lemma dir_size_total:
  "clean f \<Longrightarrow> is_dir f p \<Longrightarrow> (\<And>r. is_dir f (p @ r) \<Longrightarrow> length r < n) \<Longrightarrow> \<exists>s. dir_size ok_io n f p = Some s"
proof (induction n arbitrary: p)
  case 0
  from 0(3) [of "[]"] 0(2) show ?case by simp
next
  case (Suc n)
  have c: "dir_chain f p" using clean_chain Suc.prems(1,2) .
  have rd: "path_exists f p" "fs_read_dir ok_io f p = Inr (children f p)"
    using resolve_chain [OF c] Suc.prems(2) by (simp_all add: path_exists_def fs_read_dir_def ok_io_def)
  have sub: "\<exists>s. dir_size ok_io n f (p @ [x]) = Some s" if "x \<in> set (children f p)" "path_is_dir f (p @ [x])" for x
  proof -
    have "plain x" using clean_file_plain [OF Suc.prems(1,2) that(1)] .
    then have d: "is_dir f (p @ [x])" using that(2) resolve_child [OF c] by (simp add: path_is_dir_def)
    have "length r < n" if "is_dir f ((p @ [x]) @ r)" for r using Suc.prems(3) [of "x # r"] that by simp
    with Suc.IH [OF Suc.prems(1) d] show ?thesis by blast
  qed
  have "\<exists>s. foldr (\<lambda>x total. Option.bind total (\<lambda>t.
              if path_is_dir f (p @ [x]) then map_option (\<lambda>s. s + t) (dir_size ok_io n f (p @ [x]))
              else case resolve f (p @ [x]) of
                     Some q \<Rightarrow> (case file_at f q of Some d \<Rightarrow> Some (of_nat (length d) + t) | None \<Rightarrow> Some t)
                   | None \<Rightarrow> Some t)) names (Some 0) = Some s" if "set names \<subseteq> set (children f p)" for names
    using that
  proof (induction names)
    case (Cons x names)
    then obtain s where "foldr (\<lambda>x total. Option.bind total (\<lambda>t.
              if path_is_dir f (p @ [x]) then map_option (\<lambda>s. s + t) (dir_size ok_io n f (p @ [x]))
              else case resolve f (p @ [x]) of
                     Some q \<Rightarrow> (case file_at f q of Some d \<Rightarrow> Some (of_nat (length d) + t) | None \<Rightarrow> Some t)
                   | None \<Rightarrow> Some t)) names (Some 0) = Some s" by auto
    with sub [of x] Cons.prems show ?case by (auto split: option.splits)
  qed simp
  then show ?case using rd by simp
qed

lemma remove_tree:
  assumes "clean f" "is_dir f p" "p \<noteq> []"
  obtains g where "fs_remove_dir_all ok_io p f = (Inr (), g)" "clean g"
    "\<And>q. is_dir g q = (is_dir f q \<and> \<not> below p q)" "\<And>q. file_at g q = (if below p q then None else file_at f q)"
proof -
  let ?g = "\<lparr>fs_dirs = filter (\<lambda>r. \<not> below p r) (fs_dirs f), fs_files = filter (\<lambda>r. \<not> below p (fst r)) (fs_files f)\<rparr>"
  have r: "fs_remove_dir_all ok_io p f = (Inr (), ?g)"
    using resolve_chain [OF clean_chain [OF assms(1,2)]] assms(2) by (simp add: fs_remove_dir_all_def ok_io_def)
  have d: "is_dir ?g q = (is_dir f q \<and> \<not> below p q)" for q using assms(3) by (auto simp: is_dir_def below_def)
  have fl: "file_at ?g q = (if below p q then None else file_at f q)" for q
    by (simp add: file_at_def map_of_filter_key [where P = "\<lambda>k. \<not> below p k"])
  have "wf_fs ?g" using assms(1) unfolding clean_def wf_fs_def d by (auto simp: list_all_iff)
  moreover have "closed_below ?g []"
    using assms(1) unfolding clean_def closed_below_def d fl
    by (auto simp: below_iff split: if_splits)
  ultimately show thesis using that [OF r] d fl by (simp add: clean_def)
qed

lemma make_dirs_append:
  assumes "list_all plain as"
  shows "make_dirs io cur (as @ bs) f =
    (case make_dirs io cur as f of (Inl e, g) \<Rightarrow> (Inl e, g) | (Inr _, g) \<Rightarrow> make_dirs io (cur @ as) bs g)"
  using assms
proof (induction as arbitrary: cur f)
  case (Cons a as)
  have "a \<noteq> []" "a \<noteq> ''.''" "a \<noteq> ''..''" using Cons.prems by (auto simp: plain_def)
  moreover have "make_dirs io (cur @ [a]) (as @ bs) g =
    (case make_dirs io (cur @ [a]) as g of (Inl e, g) \<Rightarrow> (Inl e, g) | (Inr _, g) \<Rightarrow> make_dirs io (cur @ a # as) bs g)" for g
    using Cons.IH [of "cur @ [a]" g] Cons.prems unfolding append_assoc append_Cons append_Nil by simp
  ultimately show ?case by (auto split: option.splits)
qed simp

lemma create_parents:
  assumes "list_all plain pd" "plain c" "fs_create_dir_all io pd f = (Inr (), f1)" "dir_chain f1 pd"
  shows "fs_create_dir_all io (pd @ [c]) f = fs_create_dir_all io (pd @ [c]) f1"
proof -
  have n: "\<not> list_ex (\<lambda>c. CHR 0x00 \<in> set c) pd" "\<not> list_ex (\<lambda>c. CHR 0x00 \<in> set c) (pd @ [c])"
    using assms(1,2) by (auto simp: list_ex_iff list_all_iff plain_def)
  have "make_dirs io [] pd f = (Inr (), f1)" using assms(3) n by (simp add: fs_create_dir_all_def)
  moreover have "make_dirs io [] pd f1 = (Inr (), f1)" using make_dirs_existing [of f1 "[]" pd] assms(4) by simp
  ultimately show ?thesis
    using n by (simp add: fs_create_dir_all_def make_dirs_append [OF assms(1)])
qed

lemma copy_parents:
  assumes "list_all plain pd" "plain c" "fs_create_dir_all io pd f = (Inr (), f1)" "dir_chain f1 pd" "n > 0"
  shows "copy_dir_all io n src (pd @ [c]) f = copy_dir_all io n src (pd @ [c]) f1"
  using assms(5) create_parents [OF assms(1-4)] by (cases n) simp_all

text \<open>Making directories keeps a disk clean.\<close>

lemma clean_create:
  assumes "clean f" "list_all plain p" "\<And>n. file_at f (take n p) = None"
  obtains g where "fs_create_dir_all ok_io p f = (Inr (), g)" "clean g" "dir_chain g p"
    "\<And>q. file_at g q = file_at f q" "\<And>q. is_dir g q = (is_dir f q \<or> (\<exists>n \<le> length p. q = take n p))"
proof -
  obtain g where g: "fs_create_dir_all ok_io p f = (Inr (), g)" "dir_chain g p" "fs_files g = fs_files f"
    "set (fs_dirs f) \<subseteq> set (fs_dirs g)" "\<And>q. is_dir g q \<Longrightarrow> is_dir f q \<or> (\<exists>n \<le> length p. q = take n p)"
    using create_dir_success [OF assms(2,3)] by metis
  have fl: "file_at g q = file_at f q" for q using g(3) by (simp add: file_at_def)
  have d: "is_dir g q = (is_dir f q \<or> (\<exists>n \<le> length p. q = take n p))" for q
  proof -
    have "is_dir f q \<Longrightarrow> is_dir g q" using g(4) by (auto simp: is_dir_def)
    with g(5) dir_chain_take [OF g(2)] show ?thesis by blast
  qed
  have "wf_fs g"
    using g(1) assms(1) make_dirs_frame [of ok_io "[]" p f] by (auto simp: fs_create_dir_all_def clean_def split: if_splits)
  moreover have "closed_below g []"
    unfolding closed_below_def
  proof (intro allI impI)
    fix r x
    assume a: "is_dir g ([] @ r @ [x]) \<or> file_at g ([] @ r @ [x]) \<noteq> None"
    show "plain x \<and> is_dir g ([] @ r)"
    proof (cases "\<exists>n \<le> length p. r @ [x] = take n p")
      case True
      then obtain n where n: "n \<le> length p" "r @ [x] = take n p" by blast
      then have "r = take (n - 1) p" by (metis butlast_snoc butlast_take)
      moreover have "plain x" using n assms(2) by (metis in_set_conv_decomp in_set_takeD list_all_iff)
      ultimately show ?thesis using n d by (metis append_Nil diff_le_self le_trans)
    next
      case False
      with a have "is_dir f ([] @ r @ [x]) \<or> file_at f ([] @ r @ [x]) \<noteq> None" by (simp add: d fl)
      then show ?thesis using assms(1) d unfolding clean_def closed_below_def by blast
    qed
  qed
  ultimately show thesis using that g(1,2) fl d by (simp add: clean_def)
qed

text \<open>The tree below \<open>dst\<close> in \<open>g\<close> is the tree below \<open>src\<close> in \<open>f\<close>.\<close>

definition same_tree :: "path \<Rightarrow> fs \<Rightarrow> path \<Rightarrow> fs \<Rightarrow> bool" where
  "same_tree src f dst g \<longleftrightarrow> (\<forall>r. is_dir g (dst @ r) = is_dir f (src @ r) \<and> file_at g (dst @ r) = file_at f (src @ r))"

lemma copied_same_tree:
  assumes "copied src dst UNIV f g" "is_dir f src" "file_at f src = None"
  shows "same_tree src f dst g"
  unfolding same_tree_def
proof
  fix r
  show "is_dir g (dst @ r) = is_dir f (src @ r) \<and> file_at g (dst @ r) = file_at f (src @ r)"
    using assms by (cases r) (simp_all add: copied_def)
qed

lemma clean_copied:
  assumes "copied src dst UNIV f g" "clean f" "wf_fs g" "is_dir f (butlast dst)" "plain (last dst)" "dst \<noteq> []" "closed_below f src" "is_dir f src"
  shows "clean g"
proof -
  have "plain x \<and> is_dir g r" if a: "is_dir g (r @ [x]) \<or> file_at g (r @ [x]) \<noteq> None" for r x
  proof (cases "below dst (r @ [x])")
    case False
    then have "is_dir f ([] @ r @ [x]) \<or> file_at f ([] @ r @ [x]) \<noteq> None" using a assms(1) unfolding copied_def by simp
    then have "plain x" "is_dir f r" using assms(2) unfolding clean_def closed_below_def by (metis append_Nil)+
    moreover have "\<not> below dst r" using False by (auto simp: below_iff)
    ultimately show ?thesis using assms(1) unfolding copied_def by blast
  next
    case True
    then obtain t where t: "r @ [x] = dst @ t" by (auto simp: below_iff)
    show ?thesis
    proof (cases t rule: rev_cases)
      case Nil
      with t have "r = butlast dst" "x = last dst" by (metis append_Nil2 butlast_snoc, metis append_Nil2 last_snoc)
      moreover have "\<not> below dst (butlast dst)" using assms(6) by (cases dst rule: rev_cases) (auto simp: below_def dest!: arg_cong [where f = length])
      ultimately show ?thesis using assms(1,4,5) unfolding copied_def by blast
    next
      case (snoc u y)
      with t have r: "r = dst @ u" "x = y" by auto
      have "is_dir f (src @ u @ [x]) \<or> file_at f (src @ u @ [x]) \<noteq> None"
        using a assms(1) r by (cases u) (auto simp: copied_def)
      then have "plain x" "is_dir f (src @ u)" using assms(7) unfolding closed_below_def by blast+
      then show ?thesis using assms(1,8) r(1) by (cases u) (simp_all add: copied_def)
    qed
  qed
  then show ?thesis using assms(3) unfolding clean_def closed_below_def by simp
qed

section \<open>Taking and restoring a snapshot\<close>

lemma snapshot_dir_plain:
  assumes "plain name"
  shows "snapshot_dir base name = base @ [''.snapshots'', name]"
proof -
  have "plain ''.snapshots''" by code_simp
  then show ?thesis using assms by (simp add: snapshot_dir_def path_join_plain)
qed

lemma volume_apart_snapshots:
  "name \<noteq> ''.snapshots'' \<Longrightarrow> apart (base @ [name]) (base @ ''.snapshots'' # r)"
  by (auto simp: apart_def below_def)

lemma apart_sym: "apart p q \<Longrightarrow> apart q p"
  by (auto simp: apart_def)

lemma empty_below_absent:
  assumes "clean f" "\<not> is_dir f p" "file_at f p = None"
  shows "empty_below f p"
proof -
  have "\<not> is_dir f (p @ r) \<and> file_at f (p @ r) = None" for r
  proof (induction r rule: rev_induct)
    case (snoc x r)
    then show ?case using clean_closed [OF assms(1), of p] unfolding closed_below_def by blast
  qed (use assms in simp)
  then show ?thesis by (simp add: empty_below_def)
qed

lemma clean_absent:
  assumes "clean f" "\<not> path_exists f p"
  shows "\<not> is_dir f p \<and> file_at f p = None"
proof (cases p rule: rev_cases)
  case Nil
  with assms(2) show ?thesis by (simp add: path_exists_def resolve_def is_dir_def)
next
  case (snoc d c)
  have "resolve f p = Some p" if "is_dir f p \<or> file_at f p \<noteq> None"
    using clean_closed [OF assms(1), of "[]"] that snoc resolve_child [OF clean_chain [OF assms(1)], of d c]
    unfolding closed_below_def by fastforce
  with assms(2) show ?thesis unfolding path_exists_def by (cases "is_dir f p \<or> file_at f p \<noteq> None") simp_all
qed

text \<open>A copy into a fresh place, the parents of which need not exist yet.\<close>

lemma copy_fresh:
  assumes "clean f" "is_dir f src" "apart src (pd @ [c])" "list_all plain (pd @ [c])" "\<And>n. file_at f (take n pd) = None"
    "\<not> is_dir f (pd @ [c])" "file_at f (pd @ [c]) = None"
  obtains g where "copy_dir_all ok_io (dir_fuel f) src (pd @ [c]) f = (Some (Inr ()), g)" "clean g" "same_tree src f (pd @ [c]) g"
    "\<And>q. \<not> below (pd @ [c]) q \<Longrightarrow> file_at g q = file_at f q"
    "\<And>q. \<not> below (pd @ [c]) q \<Longrightarrow> is_dir g q = (is_dir f q \<or> (\<exists>n \<le> length pd. q = take n pd))"
proof -
  have pl: "list_all plain pd" "plain c" using assms(4) by simp_all
  obtain f1 where f1: "fs_create_dir_all ok_io pd f = (Inr (), f1)" "clean f1" "dir_chain f1 pd"
    "\<And>q. file_at f1 q = file_at f q" "\<And>q. is_dir f1 q = (is_dir f q \<or> (\<exists>n \<le> length pd. q = take n pd))"
    using clean_create [OF assms(1) pl(1) assms(5)] by metis
  have ns: "src @ r \<noteq> take n pd" for r n
    using assms(3) unfolding apart_def below_iff by (metis append.assoc append_take_drop_id)
  have src: "is_dir f1 (src @ r) = is_dir f (src @ r)" for r using ns f1(5) by blast
  have nd: "pd @ [c] \<noteq> take n pd" for n by (auto dest!: arg_cong [where f = length])
  have "copy_pre (dir_fuel f) src (pd @ [c]) f1"
    unfolding copy_pre_def
  proof (intro conjI allI impI)
    show "dir_chain f1 src" using clean_chain [OF f1(2)] src [of "[]"] assms(2) by simp
    show "wf_fs f1" using f1(2) by (simp add: clean_def)
    show "closed_below f1 src" using clean_closed [OF f1(2)] .
    show "empty_below f1 (pd @ [c])" using empty_below_absent [OF f1(2), of "pd @ [c]"] nd f1(4,5) assms(6,7) by auto
    show "length r < dir_fuel f" if "is_dir f1 (src @ r)" for r using clean_depth [OF assms(1)] src that by blast
  qed (use assms(3) pl f1(3) in simp_all)
  then obtain g where g: "copy_dir_all ok_io (dir_fuel f) src (pd @ [c]) f1 = (Some (Inr ()), g)" "copied src (pd @ [c]) UNIV f1 g" "wf_fs g"
    using copy_tree by blast
  have d1: "is_dir f1 src" "file_at f1 src = None"
    using src [of "[]"] assms(2) wf_fs_file [of f1 src] f1(2) by (cases "file_at f1 src"; auto simp: clean_def)+
  have "copy_dir_all ok_io (dir_fuel f) src (pd @ [c]) f = (Some (Inr ()), g)"
    using copy_parents [OF pl f1(1,3), of "dir_fuel f" src] g(1) unfolding dir_fuel_def by (simp only: zero_less_Suc simp_thms)
  moreover have "clean g"
    using f1(3) pl by (intro clean_copied [OF g(2) f1(2) g(3)] clean_closed [OF f1(2)]) (simp_all add: d1)
  moreover have "same_tree src f (pd @ [c]) g"
    using copied_same_tree [OF g(2) d1] src f1(4) by (simp add: same_tree_def)
  moreover have "file_at g q = file_at f q" "is_dir g q = (is_dir f q \<or> (\<exists>n \<le> length pd. q = take n pd))"
    if "\<not> below (pd @ [c]) q" for q
    using g(2) that f1(4,5) unfolding copied_def by auto
  ultimately show thesis using that by blast
qed

text \<open>The names the manager tries are distinct and plain, at least as many as the disk has entries.\<close>

definition fresh_names :: "chrono \<Rightarrow> int \<Rightarrow> fs \<Rightarrow> bool" where
  "fresh_names ch at_time f \<longleftrightarrow>
     distinct (map (\<lambda>k. format_ts ch (at_time + 1000 * int k)) [0..<Suc (entries f)]) \<and>
     list_all (\<lambda>k. plain (format_ts ch (at_time + 1000 * int k))) [0..<Suc (entries f)]"

lemma fresh_namesD:
  assumes "fresh_names ch at_time f"
  shows "inj_on (\<lambda>k. format_ts ch (at_time + 1000 * int k)) {..entries f}"
    "k \<le> entries f \<Longrightarrow> plain (format_ts ch (at_time + 1000 * int k))"
  using assms
  by (simp_all only: fresh_names_def distinct_map set_upt list_all_iff atLeast0_lessThan_Suc lessThan_Suc_atMost atLeast0LessThan)
    simp_all

lemma create_snapshot_ok:
  assumes "clean f" "is_dir f (base @ [name])" "snap_volume_name iri = name" "name \<noteq> ''.snapshots''"
    "\<And>n. file_at f (take n (base @ [''.snapshots'', name])) = None" "fresh_names ch at_time f"
  obtains k size g where "k \<le> entries f" "plain (format_ts ch (at_time + 1000 * int k))"
    "create_snapshot_at ch ok_io base iri at_time f =
       (Some (Inr \<lparr>sni_volume_iri = iri,
          sni_snapshot_path = show_path (base @ [''.snapshots'', name, format_ts ch (at_time + 1000 * int k)]),
          sni_size_bytes = size, sni_created_at = at_time + 1000 * int k\<rparr>), g)"
    "\<not> path_exists f (base @ [''.snapshots'', name, format_ts ch (at_time + 1000 * int k)])"
    "\<And>j. j < k \<Longrightarrow> path_exists f (base @ [''.snapshots'', name, format_ts ch (at_time + 1000 * int j)])"
    "clean g" "same_tree (base @ [name]) f (base @ [''.snapshots'', name, format_ts ch (at_time + 1000 * int k)]) g"
    "\<And>q. \<not> below (base @ [''.snapshots'', name, format_ts ch (at_time + 1000 * int k)]) q \<Longrightarrow> file_at g q = file_at f q"
    "\<And>q. is_dir f q \<Longrightarrow> is_dir g q"
proof -
  let ?sd = "base @ [''.snapshots'', name]"
  let ?nm = "\<lambda>k. format_ts ch (at_time + 1000 * int k)"
  have ch: "dir_chain f (base @ [name])" using clean_chain [OF assms(1,2)] .
  have pl: "plain name" "list_all plain base" using dir_chain_plain [OF ch] by simp_all
  have "plain ''.snapshots''" by code_simp
  then have pls: "list_all plain ?sd" using pl by simp
  have ex: "path_exists f (base @ [name])" using resolve_chain [OF ch] assms(2) by (simp add: path_exists_def)
  note fresh = fresh_namesD [OF assms(6)]
  let ?taken = "\<lambda>ts. path_exists f (path_join (snapshot_dir base name) (format_ts ch ts))"
  have tk: "?taken (at_time + 1000 * int k) = path_exists f (?sd @ [?nm k])" if "k \<le> entries f" for k
    using path_join_plain [OF fresh(2) [OF that], of ?sd] snapshot_dir_plain [OF pl(1)] by simp
  have "\<exists>k \<le> entries f. \<not> ?taken (at_time + 1000 * int k)"
    using free_name [OF fresh(1,2) pls] tk by blast
  then obtain k where k: "k \<le> entries f" "bump ?taken at_time = Some (at_time + 1000 * int k)"
    "\<not> path_exists f (?sd @ [?nm k])" "\<And>j. j < k \<Longrightarrow> path_exists f (?sd @ [?nm j])"
  proof (elim bump_bounded [THEN exE] conjE)
    fix k
    assume k: "k \<le> entries f" "bump ?taken at_time = Some (at_time + 1000 * int k)"
        "\<not> ?taken (at_time + 1000 * int k)" "\<forall>j < k. ?taken (at_time + 1000 * int j)"
    have "path_exists f (?sd @ [?nm j])" if "j < k" for j using k tk [of j] that by auto
    with that [OF k(1,2)] k(3) tk [OF k(1)] show thesis by blast
  qed
  have pk: "plain (?nm k)" using fresh(2) [OF k(1)] .
  have nx: "\<not> is_dir f (?sd @ [?nm k])" "file_at f (?sd @ [?nm k]) = None"
    using clean_absent [OF assms(1) k(3)] by simp_all
  obtain g where g: "copy_dir_all ok_io (dir_fuel f) (base @ [name]) (?sd @ [?nm k]) f = (Some (Inr ()), g)" "clean g"
    "same_tree (base @ [name]) f (?sd @ [?nm k]) g" "\<And>q. \<not> below (?sd @ [?nm k]) q \<Longrightarrow> file_at g q = file_at f q"
    "\<And>q. \<not> below (?sd @ [?nm k]) q \<Longrightarrow> is_dir g q = (is_dir f q \<or> (\<exists>n \<le> length ?sd. q = take n ?sd))"
  proof (rule copy_fresh [OF assms(1,2) _ _ assms(5) nx])
    show "apart (base @ [name]) (?sd @ [?nm k])" using volume_apart_snapshots [OF assms(4), of base "[name, ?nm k]"] by simp
    show "list_all plain (?sd @ [?nm k])" using pls pk by simp
  qed (rule that)
  have sp: "path_join (snapshot_dir base name) (?nm k) = ?sd @ [?nm k]"
    using path_join_plain [OF pk] snapshot_dir_plain [OF pl(1)] by simp
  have "is_dir g (?sd @ [?nm k])" using g(3) assms(2) unfolding same_tree_def by (metis append_Nil2)
  then obtain s where s: "dir_size ok_io (dir_fuel g) g (?sd @ [?nm k]) = Some s"
    using dir_size_total [OF g(2)] clean_depth [OF g(2)] by blast
  have "is_dir g q" if "is_dir f q" for q
  proof (cases "below (?sd @ [?nm k]) q")
    case True
    then show ?thesis using that clean_prefix [OF assms(1), of "?sd @ [?nm k]"] nx(1) by (auto simp: below_iff)
  qed (use g(5) that in blast)
  moreover have "create_snapshot_at ch ok_io base iri at_time f =
       (Some (Inr \<lparr>sni_volume_iri = iri, sni_snapshot_path = show_path (?sd @ [?nm k]),
          sni_size_bytes = s, sni_created_at = at_time + 1000 * int k\<rparr>), g)"
    using ex k(2) g(1) s sp by (simp add: create_snapshot_at_def Let_def assms(3) path_join_plain [OF pl(1)])
  ultimately show thesis using that k(1) pk k(3,4) g(2-4) by simp
qed

lemma restore_snapshot_ok:
  assumes "clean f" "is_dir f (base @ [''.snapshots'', name, t])" "snap_volume_name iri = name" "name \<noteq> ''.snapshots''"
    "file_at f (base @ [name]) = None"
  obtains g where "restore_snapshot ok_io base iri t f = (Some (Inr ()), g)" "clean g"
    "same_tree (base @ [''.snapshots'', name, t]) f (base @ [name]) g"
    "\<And>q. \<not> below (base @ [name]) q \<Longrightarrow> is_dir g q = is_dir f q \<and> file_at g q = file_at f q"
proof -
  let ?sp = "base @ [''.snapshots'', name, t]"
  have ch: "dir_chain f ?sp" using clean_chain [OF assms(1,2)] .
  have pl: "plain name" "plain t" "list_all plain base" using dir_chain_plain [OF ch] by simp_all
  have bd: "is_dir f base" using clean_prefix [OF assms(1), of base] assms(2) by blast
  have sp: "path_join (snapshot_dir base name) t = ?sp"
    using path_join_plain [OF pl(2)] snapshot_dir_plain [OF pl(1)] by simp
  have ex: "path_exists f ?sp" using resolve_chain [OF ch] assms(2) by (simp add: path_exists_def)
  have rv: "path_exists f (base @ [name]) = is_dir f (base @ [name])"
    using resolve_child [OF clean_chain [OF assms(1) bd] pl(1)] assms(5) by (simp add: path_exists_def)
  have ap: "apart ?sp (base @ [name])" using apart_sym [OF volume_apart_snapshots [OF assms(4)]] .
  obtain f1 where f1: "(if path_exists f (base @ [name]) then fs_remove_dir_all ok_io (base @ [name]) f else (Inr (), f)) = (Inr (), f1)"
    "clean f1" "\<And>q. is_dir f1 q = (is_dir f q \<and> \<not> below (base @ [name]) q)"
    "\<And>q. file_at f1 q = (if below (base @ [name]) q then None else file_at f q)"
  proof (cases "is_dir f (base @ [name])")
    case True
    then show thesis using remove_tree [OF assms(1) True] that rv by auto
  next
    case False
    have "empty_below f (base @ [name])" using empty_below_absent [OF assms(1) False assms(5)] .
    then have "below (base @ [name]) q \<Longrightarrow> \<not> is_dir f q \<and> file_at f q = None" for q by (auto simp: empty_below_def below_iff)
    with False rv assms(1) show thesis by (intro that [of f]) auto
  qed
  have src: "is_dir f1 (?sp @ r) = is_dir f (?sp @ r)" "file_at f1 (?sp @ r) = file_at f (?sp @ r)" for r
    using apart_not_below [OF ap, of r] f1(3,4) by simp_all
  have nb: "\<not> below (base @ [name]) (take n base)" for n by (auto simp: below_def dest!: arg_cong [where f = length])
  have tk: "is_dir f1 (take n base)" for n
    using f1(3) nb clean_prefix [OF assms(1), of "take n base" "drop n base"] bd by simp
  have "file_at f1 (take n base) = None" for n
    using tk [of n] f1(2) wf_fs_file [of f1 "take n base"] by (cases "file_at f1 (take n base)") (auto simp: clean_def)
  note nf = this
  obtain g where g: "copy_dir_all ok_io (dir_fuel f1) ?sp (base @ [name]) f1 = (Some (Inr ()), g)" "clean g"
    "same_tree ?sp f1 (base @ [name]) g" "\<And>q. \<not> below (base @ [name]) q \<Longrightarrow> file_at g q = file_at f1 q"
    "\<And>q. \<not> below (base @ [name]) q \<Longrightarrow> is_dir g q = (is_dir f1 q \<or> (\<exists>n \<le> length base. q = take n base))"
  proof (rule copy_fresh [OF f1(2) _ ap _ nf])
    show "is_dir f1 ?sp" using src(1) [of "[]"] assms(2) by simp
    show "list_all plain (base @ [name])" using pl by simp
    show "\<not> is_dir f1 (base @ [name])" "file_at f1 (base @ [name]) = None" using f1(3,4) below_append [of "base @ [name]" "[]"] by simp_all
  qed (rule that)
  have "restore_snapshot ok_io base iri t f = (Some (Inr ()), g)"
    using ex f1(1) g(1) by (simp add: restore_snapshot_def Let_def assms(3) sp path_join_plain [OF pl(1)])
  moreover have "same_tree ?sp f (base @ [name]) g" using g(3) src by (simp add: same_tree_def)
  moreover have "is_dir g q = is_dir f q \<and> file_at g q = file_at f q" if "\<not> below (base @ [name]) q" for q
    using g(4,5) [OF that] f1(3,4) that tk by auto
  ultimately show thesis using that g(2) by blast
qed

text \<open>C28. A snapshot can be restored: taking a snapshot of an existing volume succeeds, and whatever
  then happens on the disk outside the snapshot (files of the volume changed, added or deleted, the volume
  removed), restoring the snapshot by its name succeeds, gives the volume exactly the directories
  and files, with their contents, that it had when the snapshot was taken, and changes nothing outside the volume.\<close>

theorem snapshot_restore_round_trip:
  assumes "clean f" "is_dir f (base @ [name])" "snap_volume_name iri = name" "name \<noteq> ''.snapshots''"
    "\<And>n. file_at f (take n (base @ [''.snapshots'', name])) = None" "fresh_names ch at_time f"
  shows "\<exists>info g t. create_snapshot_at ch ok_io base iri at_time f = (Some (Inr info), g) \<and>
      t = format_ts ch (sni_created_at info) \<and> sni_snapshot_path info = show_path (base @ [''.snapshots'', name, t]) \<and>
      (\<forall>h. clean h \<and> same_tree (base @ [''.snapshots'', name, t]) g (base @ [''.snapshots'', name, t]) h \<and> file_at h (base @ [name]) = None \<longrightarrow>
         (\<exists>h'. restore_snapshot ok_io base iri t h = (Some (Inr ()), h') \<and>
            same_tree (base @ [name]) f (base @ [name]) h' \<and>
            (\<forall>q. \<not> below (base @ [name]) q \<longrightarrow> is_dir h' q = is_dir h q \<and> file_at h' q = file_at h q)))"
proof (rule create_snapshot_ok [OF assms])
  fix k size g
  let ?t = "format_ts ch (at_time + 1000 * int k)"
  let ?sp = "base @ [''.snapshots'', name, ?t]"
  let ?info = "\<lparr>sni_volume_iri = iri, sni_snapshot_path = show_path ?sp, sni_size_bytes = size, sni_created_at = at_time + 1000 * int k\<rparr>"
  assume c: "create_snapshot_at ch ok_io base iri at_time f = (Some (Inr ?info), g)" "same_tree (base @ [name]) f ?sp g"
  have "\<exists>h'. restore_snapshot ok_io base iri ?t h = (Some (Inr ()), h') \<and> same_tree (base @ [name]) f (base @ [name]) h' \<and>
      (\<forall>q. \<not> below (base @ [name]) q \<longrightarrow> is_dir h' q = is_dir h q \<and> file_at h' q = file_at h q)"
    if h: "clean h" "same_tree ?sp g ?sp h" "file_at h (base @ [name]) = None" for h
  proof -
    have d: "is_dir h ?sp" using c(2) h(2) assms(2) unfolding same_tree_def by (metis append_Nil2)
    obtain h' where h': "restore_snapshot ok_io base iri ?t h = (Some (Inr ()), h')" "same_tree ?sp h (base @ [name]) h'"
      "\<And>q. \<not> below (base @ [name]) q \<Longrightarrow> is_dir h' q = is_dir h q \<and> file_at h' q = file_at h q"
      using restore_snapshot_ok [OF h(1) d assms(3,4) h(3)] by blast
    moreover have "same_tree (base @ [name]) f (base @ [name]) h'" using c(2) h(2) h'(2) by (simp add: same_tree_def)
    ultimately show ?thesis by blast
  qed
  with c(1) show ?thesis by (intro exI [of _ ?info] exI [of _ g] exI [of _ ?t]) simp
qed

definition ex_chrono :: chrono where
  "ex_chrono = \<lparr>ch_format = \<lambda>t. CHR ''t'' # replicate (nat (t div 1000)) CHR ''0'', ch_parse = \<lambda>_. None\<rparr>"

definition ex_volume :: fs where
  "ex_volume = \<lparr>fs_dirs = [[''v''], [''v'', ''sub'']], fs_files = [([''v'', ''sub'', ''a''], ''data'')]\<rparr>"

lemma ex_fresh: "fresh_names ex_chrono 0 f"
proof -
  have n: "format_ts ex_chrono (0 + 1000 * int k) = CHR ''t'' # replicate k CHR ''0''" for k
    by (simp add: format_ts_def ex_chrono_def)
  have "plain (CHR ''t'' # replicate k CHR ''0'')" for k by (auto simp: plain_def)
  moreover have "inj_on (\<lambda>k. CHR ''t'' # replicate k CHR ''0'') A" for A
    by (rule inj_onI) (auto dest!: arg_cong [where f = length])
  ultimately show ?thesis unfolding fresh_names_def n by (simp del: upt_Suc add: distinct_map list_all_iff)
qed

lemma ex_clean: "clean ex_volume"
  unfolding clean_def
proof
  show "wf_fs ex_volume" by code_simp
  have p: "plain ''v''" "plain ''sub''" "plain ''a''" by code_simp+
  show "closed_below ex_volume []"
    by (auto simp: closed_below_def ex_volume_def is_dir_def file_at_def p append_eq_Cons_conv split: if_splits)
qed

lemma ex_no_file: "file_at ex_volume (take n ([] @ [''.snapshots'', ''v''])) = None"
  by (cases n; cases "n - 1") (auto simp: ex_volume_def file_at_def take_Cons' split: if_splits)

theorem snapshot_restore_round_trip_witness:
  "\<exists>info g t. create_snapshot_at ex_chrono ok_io [] ''https://c/volumes/v'' 0 ex_volume = (Some (Inr info), g) \<and>
     (\<forall>h. clean h \<and> same_tree [''.snapshots'', ''v'', t] g [''.snapshots'', ''v'', t] h \<and> file_at h [''v''] = None \<longrightarrow>
        (\<exists>h'. restore_snapshot ok_io [] ''https://c/volumes/v'' t h = (Some (Inr ()), h') \<and>
           file_at h' [''v'', ''sub'', ''a''] = Some ''data''))"
proof -
  have d: "is_dir ex_volume ([] @ [''v''])" "snap_volume_name ''https://c/volumes/v'' = ''v''" "''v'' \<noteq> ''.snapshots''"
    "file_at ex_volume [''v'', ''sub'', ''a''] = Some ''data''" by code_simp+
  have a: "same_tree [''v''] ex_volume [''v''] h' \<Longrightarrow> file_at h' [''v'', ''sub'', ''a''] = Some ''data''" for h'
    using d(4) unfolding same_tree_def by (metis append_Cons append_Nil)
  show ?thesis using snapshot_restore_round_trip [OF ex_clean d(1-3) ex_no_file ex_fresh] a
    unfolding append_Nil by meson
qed

text \<open>The search for a name ends, and a snapshot overwrites nothing: the time of the new snapshot
  is the first of the instants one microsecond apart, from the time asked for on, whose name is
  free, after at most as many steps as the disk has entries; every file and directory that
  existed before is still there unchanged.\<close>

theorem create_snapshot_takes_first_free_name:
  assumes "clean f" "is_dir f (base @ [name])" "snap_volume_name iri = name" "name \<noteq> ''.snapshots''"
    "\<And>n. file_at f (take n (base @ [''.snapshots'', name])) = None" "fresh_names ch at_time f"
  shows "\<exists>k info g. k \<le> entries f \<and> create_snapshot_at ch ok_io base iri at_time f = (Some (Inr info), g) \<and>
      sni_created_at info = at_time + 1000 * int k \<and>
      \<not> path_exists f (base @ [''.snapshots'', name, format_ts ch (at_time + 1000 * int k)]) \<and>
      (\<forall>j < k. path_exists f (base @ [''.snapshots'', name, format_ts ch (at_time + 1000 * int j)])) \<and>
      (\<forall>q. is_dir f q \<longrightarrow> is_dir g q) \<and> (\<forall>q d. file_at f q = Some d \<longrightarrow> file_at g q = Some d)"
proof (rule create_snapshot_ok [OF assms])
  fix k size g
  let ?sp = "base @ [''.snapshots'', name, format_ts ch (at_time + 1000 * int k)]"
  let ?info = "\<lparr>sni_volume_iri = iri, sni_snapshot_path = show_path ?sp, sni_size_bytes = size, sni_created_at = at_time + 1000 * int k\<rparr>"
  assume c: "k \<le> entries f" "create_snapshot_at ch ok_io base iri at_time f = (Some (Inr ?info), g)" "\<not> path_exists f ?sp"
    "\<And>j. j < k \<Longrightarrow> path_exists f (base @ [''.snapshots'', name, format_ts ch (at_time + 1000 * int j)])"
    "\<And>q. \<not> below ?sp q \<Longrightarrow> file_at g q = file_at f q" "\<And>q. is_dir f q \<Longrightarrow> is_dir g q"
  have "empty_below f ?sp" using empty_below_absent [OF assms(1)] clean_absent [OF assms(1) c(3)] by blast
  then have "file_at g q = Some d" if "file_at f q = Some d" for q d
    using c(5) [of q] that by (cases "below ?sp q") (auto simp: empty_below_def below_iff)
  with c show ?thesis by (intro exI [of _ k] exI [of _ ?info] exI [of _ g]) simp
qed

theorem create_snapshot_takes_first_free_name_witness:
  "\<exists>k info g. k \<le> (3 :: nat) \<and> create_snapshot_at ex_chrono ok_io [] ''https://c/volumes/v'' 0 ex_volume = (Some (Inr info), g) \<and>
     file_at g [''v'', ''sub'', ''a''] = Some ''data''"
proof -
  have d: "is_dir ex_volume ([] @ [''v''])" "snap_volume_name ''https://c/volumes/v'' = ''v''" "''v'' \<noteq> ''.snapshots''"
    "file_at ex_volume [''v'', ''sub'', ''a''] = Some ''data''" "entries ex_volume = 3" by code_simp+
  obtain k info g where "k \<le> entries ex_volume"
    "create_snapshot_at ex_chrono ok_io [] ''https://c/volumes/v'' 0 ex_volume = (Some (Inr info), g)"
    "\<forall>q d. file_at ex_volume q = Some d \<longrightarrow> file_at g q = Some d"
    using create_snapshot_takes_first_free_name [OF ex_clean d(1-3) ex_no_file ex_fresh] by (elim exE conjE)
  with d(4,5) show ?thesis by auto
qed

section \<open>Retention\<close>

lemma sort_key_map: "sort_key f (map g xs) = map g (sort_key (\<lambda>x. f (g x)) xs)"
proof -
  have "insort_key f (g x) (map g ys) = map g (insort_key (\<lambda>x. f (g x)) x ys)" for x ys
    by (induction ys) simp_all
  then show ?thesis by (induction xs) (simp_all add: sort_key_def)
qed

lemma sort_key_idem: "sort_key f (sort_key f xs) = sort_key f xs"
  by (simp add: sort_key_id_if_sorted)

lemma filter_not_drop:
  "distinct xs \<Longrightarrow> filter (\<lambda>x. x \<notin> set (drop n xs)) xs = take n xs"
proof (induction xs arbitrary: n)
  case (Cons x xs)
  show ?case
  proof (cases n)
    case 0
    then show ?thesis by (auto simp: filter_empty_conv)
  next
    case (Suc m)
    have "x \<notin> set (drop m xs)" using Cons.prems by (auto dest: in_set_dropD)
    with Cons Suc show ?thesis by simp
  qed
qed simp

text \<open>The snapshots of a volume, newest first, by their names.\<close>

definition snap_time :: "chrono \<Rightarrow> (path \<Rightarrow> int) \<Rightarrow> path \<Rightarrow> string \<Rightarrow> int" where
  "snap_time ch meta sd name = (case parse_snapshot_name ch name of Some t \<Rightarrow> t | None \<Rightarrow> meta (sd @ [name]))"

definition snap_names :: "chrono \<Rightarrow> (path \<Rightarrow> int) \<Rightarrow> path \<Rightarrow> fs \<Rightarrow> string list" where
  "snap_names ch meta sd f = sort_key (\<lambda>n. - snap_time ch meta sd n) (filter (\<lambda>n. is_dir f (sd @ [n])) (children f sd))"

lemma distinct_children [simp]: "distinct (children f p)"
  by (simp add: children_def)

lemma distinct_snap_names: "distinct (snap_names ch meta sd f)"
  by (simp add: snap_names_def)

lemma list_snapshots_names:
  assumes "clean f" "is_dir f sd" "sd = snapshot_dir base (snap_volume_name iri)"
  obtains snaps where "list_snapshots ch meta ok_io base iri f = Inr snaps"
    "map sni_snapshot_path snaps = map (\<lambda>n. show_path (sd @ [n])) (snap_names ch meta sd f)"
    "sort_key (\<lambda>i. - sni_created_at i) snaps = snaps"
proof -
  have ch: "dir_chain f sd" using clean_chain [OF assms(1,2)] .
  let ?mk = "\<lambda>name. \<lparr>sni_volume_iri = iri, sni_snapshot_path = show_path (sd @ [name]),
                   sni_size_bytes = (case dir_size ok_io (dir_fuel f) f (sd @ [name]) of Some s \<Rightarrow> s | None \<Rightarrow> 0),
                   sni_created_at = snap_time ch meta sd name\<rparr>"
  have "path_is_dir f (sd @ [n]) = is_dir f (sd @ [n])" if "n \<in> set (children f sd)" for n
    using resolve_child [OF ch clean_file_plain [OF assms(1,2) that]] by (simp add: path_is_dir_def)
  then have f: "filter (\<lambda>n. path_is_dir f (sd @ [n])) (children f sd) = filter (\<lambda>n. is_dir f (sd @ [n])) (children f sd)"
    by (simp cong: filter_cong)
  have "path_exists f sd" "fs_read_dir ok_io f sd = Inr (children f sd)"
    using resolve_chain [OF ch] assms(2) by (simp_all add: path_exists_def fs_read_dir_def ok_io_def)
  then have l: "list_snapshots ch meta ok_io base iri f =
      Inr (sort_key (\<lambda>i. - sni_created_at i) (map ?mk (filter (\<lambda>n. is_dir f (sd @ [n])) (children f sd))))"
    by (simp add: list_snapshots_def assms(3) [symmetric] f snap_time_def)
  have "map sni_snapshot_path (sort_key (\<lambda>i. - sni_created_at i) (map ?mk (filter (\<lambda>n. is_dir f (sd @ [n])) (children f sd)))) =
      map (\<lambda>n. show_path (sd @ [n])) (snap_names ch meta sd f)"
    by (simp add: sort_key_map snap_names_def)
  with that [OF l] show thesis by (simp add: sort_key_idem)
qed

lemma children_remove:
  assumes "fs_dirs g = filter (\<lambda>r. \<not> below (p @ [x]) r) (fs_dirs f)" "fs_files g = filter (\<lambda>r. \<not> below (p @ [x]) (fst r)) (fs_files f)"
  shows "children g p = filter (\<lambda>n. n \<noteq> x) (children f p)"
proof -
  let ?all = "fs_dirs f @ map fst (fs_files f)"
  have "filter (\<lambda>q. q \<noteq> [] \<and> butlast q = p) (filter (\<lambda>r. \<not> below (p @ [x]) r) ?all) =
      filter (\<lambda>q. last q \<noteq> x) (filter (\<lambda>q. q \<noteq> [] \<and> butlast q = p) ?all)"
  proof -
    have "below (butlast q @ [x]) q \<longleftrightarrow> last q = x" if "q \<noteq> []" for q
      using that by (cases q rule: rev_cases) (auto simp: below_def)
    then show ?thesis unfolding filter_filter by (intro filter_cong) auto
  qed
  moreover have "fs_dirs g @ map fst (fs_files g) = filter (\<lambda>r. \<not> below (p @ [x]) r) ?all"
    unfolding assms by (simp add: filter_map o_def)
  ultimately show ?thesis by (simp only: children_def remdups_filter [symmetric] filter_map o_def)
qed

lemma delete_snapshot_ok:
  assumes "clean f" "is_dir f (sd @ [n])"
  obtains g where "delete_snapshot ok_io iri (show_path (sd @ [n])) f = (Inr (), g)" "clean g"
    "children g sd = filter (\<lambda>m. m \<noteq> n) (children f sd)"
    "\<And>q. is_dir g q = (is_dir f q \<and> \<not> below (sd @ [n]) q)" "\<And>q. file_at g q = (if below (sd @ [n]) q then None else file_at f q)"
proof -
  have ch: "dir_chain f (sd @ [n])" using clean_chain [OF assms] .
  have po: "path_of (show_path (sd @ [n])) = sd @ [n]"
    using path_join_absolute [OF dir_chain_plain [OF ch]] by (simp add: path_of_def)
  have ex: "path_exists f (sd @ [n])" using resolve_chain [OF ch] assms(2) by (simp add: path_exists_def)
  obtain g where g: "fs_remove_dir_all ok_io (sd @ [n]) f = (Inr (), g)" "clean g"
    "\<And>q. is_dir g q = (is_dir f q \<and> \<not> below (sd @ [n]) q)" "\<And>q. file_at g q = (if below (sd @ [n]) q then None else file_at f q)"
    using remove_tree [OF assms] by blast
  have "children g sd = filter (\<lambda>m. m \<noteq> n) (children f sd)"
    using g(1) resolve_chain [OF ch] assms(2) by (intro children_remove) (auto simp: fs_remove_dir_all_def ok_io_def)
  with that [OF _ g(2) _ g(3,4)] g(1) ex show thesis by (simp add: delete_snapshot_def po)
qed

lemma delete_all_ok:
  assumes "clean f" "distinct ns" "\<And>n. n \<in> set ns \<Longrightarrow> is_dir f (sd @ [n])"
    "map sni_snapshot_path snaps = map (\<lambda>n. show_path (sd @ [n])) ns"
  shows "\<exists>g. delete_all ok_io iri snaps f = (Inr (), g) \<and> clean g \<and>
    children g sd = filter (\<lambda>m. m \<notin> set ns) (children f sd) \<and>
    (\<forall>q. is_dir g q = (is_dir f q \<and> \<not> (\<exists>n \<in> set ns. below (sd @ [n]) q))) \<and>
    (\<forall>q. file_at g q = (if \<exists>n \<in> set ns. below (sd @ [n]) q then None else file_at f q))"
  using assms
proof (induction ns arbitrary: snaps f)
  case (Cons n ns)
  obtain s snaps' where s: "snaps = s # snaps'" "sni_snapshot_path s = show_path (sd @ [n])"
    "map sni_snapshot_path snaps' = map (\<lambda>n. show_path (sd @ [n])) ns"
    using Cons.prems(4) by (cases snaps) auto
  have "is_dir f (sd @ [n])" using Cons.prems(3) by simp
  from delete_snapshot_ok [OF Cons.prems(1) this, of iri] obtain g where g:
    "delete_snapshot ok_io iri (show_path (sd @ [n])) f = (Inr (), g)" "clean g" "children g sd = filter (\<lambda>m. m \<noteq> n) (children f sd)"
    "\<And>q. is_dir g q = (is_dir f q \<and> \<not> below (sd @ [n]) q)" "\<And>q. file_at g q = (if below (sd @ [n]) q then None else file_at f q)"
    by blast
  have "is_dir g (sd @ [m])" if "m \<in> set ns" for m
    using Cons.prems(2,3) that by (auto simp: g(4) below_def)
  from Cons.IH [OF g(2) _ this s(3)] Cons.prems(2) obtain h where h: "delete_all ok_io iri snaps' g = (Inr (), h)" "clean h"
    "children h sd = filter (\<lambda>m. m \<notin> set ns) (children g sd)"
    "\<And>q. is_dir h q = (is_dir g q \<and> \<not> (\<exists>n \<in> set ns. below (sd @ [n]) q))"
    "\<And>q. file_at h q = (if \<exists>n \<in> set ns. below (sd @ [n]) q then None else file_at g q)"
    by auto
  have "children h sd = filter (\<lambda>m. m \<notin> set (n # ns)) (children f sd)"
    unfolding h(3) g(3) filter_filter by (rule filter_cong) auto
  with h g show ?case by (intro exI [of _ h]) (simp add: s(1,2))
qed simp

text \<open>Retention: the snapshots are listed newest first; enforcing a retention of \<open>n\<close> daily snapshots deletes
  all but the first \<open>n\<close> of that list (none when \<open>n\<close> is 0 or there are no more than \<open>n\<close>) and
  returns how many it deleted; the list afterwards is the kept prefix, in the same order, and no file outside
  the deleted snapshots changes.\<close>

theorem retention_keeps_newest:
  assumes "clean f" "is_dir f (base @ [''.snapshots'', name])" "snap_volume_name iri = name"
  shows "\<exists>snaps keep kept g. list_snapshots ch meta ok_io base iri f = Inr snaps \<and>
      sorted_wrt (\<lambda>a b. sni_created_at b \<le> sni_created_at a) snaps \<and>
      keep = (if ret_daily retention = 0 then length snaps else unat (ret_daily retention)) \<and>
      enforce_retention ch meta ok_io base iri retention f = (Inr (length snaps - keep), g) \<and>
      list_snapshots ch meta ok_io base iri g = Inr kept \<and>
      map sni_snapshot_path kept = map sni_snapshot_path (take keep snaps) \<and>
      (\<forall>q. file_at g q = (if \<exists>s \<in> set (drop keep snaps). below (path_of (sni_snapshot_path s)) q then None else file_at f q))"
proof -
  define sd where "sd = base @ [''.snapshots'', name]"
  have d: "is_dir f sd" using assms(2) by (simp add: sd_def)
  have pl: "plain name" using dir_chain_plain [OF clean_chain [OF assms(1,2)]] by simp
  have sd: "sd = snapshot_dir base (snap_volume_name iri)" by (simp add: sd_def assms(3) snapshot_dir_plain [OF pl])
  let ?ns = "snap_names ch meta sd f"
  obtain snaps where s: "list_snapshots ch meta ok_io base iri f = Inr snaps"
    "map sni_snapshot_path snaps = map (\<lambda>n. show_path (sd @ [n])) ?ns" "sort_key (\<lambda>i. - sni_created_at i) snaps = snaps"
    using list_snapshots_names [OF assms(1) d sd] by blast
  have "sorted (map (\<lambda>i. - sni_created_at i) snaps)" using sorted_sort_key [of "\<lambda>i. - sni_created_at i" snaps] s(3) by simp
  then have so: "sorted_wrt (\<lambda>a b. sni_created_at b \<le> sni_created_at a) snaps" by (simp add: sorted_wrt_map)
  define keep where "keep = (if ret_daily retention = 0 then length snaps else unat (ret_daily retention))"
  have dr: "map sni_snapshot_path (drop k snaps) = map (\<lambda>n. show_path (sd @ [n])) (drop k ?ns)"
    "map sni_snapshot_path (take k snaps) = map (\<lambda>n. show_path (sd @ [n])) (take k ?ns)" for k
    using s(2) by (simp_all add: drop_map [symmetric] take_map [symmetric])
  have isd: "is_dir f (sd @ [n])" if "n \<in> set ?ns" for n using that by (simp add: snap_names_def)
  have po: "path_of (show_path (sd @ [n])) = sd @ [n]" if "n \<in> set ?ns" for n
    using path_join_absolute [OF dir_chain_plain [OF clean_chain [OF assms(1) isd [OF that]]]] by (simp add: path_of_def)
  have "distinct (drop keep ?ns)" "\<And>n. n \<in> set (drop keep ?ns) \<Longrightarrow> is_dir f (sd @ [n])"
    using distinct_snap_names isd by (auto dest: in_set_dropD)
  from delete_all_ok [OF assms(1) this dr(1), of iri] obtain g where g: "delete_all ok_io iri (drop keep snaps) f = (Inr (), g)" "clean g"
    "children g sd = filter (\<lambda>m. m \<notin> set (drop keep ?ns)) (children f sd)"
    "\<forall>q. is_dir g q = (is_dir f q \<and> \<not> (\<exists>n \<in> set (drop keep ?ns). below (sd @ [n]) q))"
    "\<forall>q. file_at g q = (if \<exists>n \<in> set (drop keep ?ns). below (sd @ [n]) q then None else file_at f q)"
    by metis
  have nb: "\<not> below (sd @ [n]) sd" "below (sd @ [n]) (sd @ [m]) = (n = m)" for n m by (auto simp: below_def)
  have dg: "is_dir g sd" using d g(4) nb(1) by blast
  have "filter (\<lambda>n. is_dir g (sd @ [n])) (children g sd) = filter (\<lambda>m. m \<notin> set (drop keep ?ns)) (filter (\<lambda>n. is_dir f (sd @ [n])) (children f sd))"
    unfolding g(3) filter_filter using g(4) nb(2) by (intro filter_cong) auto
  then have "snap_names ch meta sd g = filter (\<lambda>m. m \<notin> set (drop keep ?ns)) ?ns"
    unfolding snap_names_def [of ch meta sd g]
    by (simp only: filter_sort [symmetric]) (simp only: snap_names_def [of ch meta sd f] filter_sort)
  also have "\<dots> = take keep ?ns" using filter_not_drop [OF distinct_snap_names] .
  finally have kn: "snap_names ch meta sd g = take keep ?ns" .
  obtain kept where k: "list_snapshots ch meta ok_io base iri g = Inr kept" "map sni_snapshot_path kept = map sni_snapshot_path (take keep snaps)"
    using list_snapshots_names [OF g(2) dg sd] kn dr(2) by metis
  have e: "enforce_retention ch meta ok_io base iri retention f = (Inr (length snaps - keep), g)"
  proof (cases "length snaps \<le> keep")
    case True
    with g(1) have "g = f" by simp
    with True s(1) show ?thesis by (auto simp: enforce_retention_def keep_def Let_def unat_eq_0 split: if_splits)
  next
    case False
    then have "keep = unat (ret_daily retention)" "snaps \<noteq> []" "unat (ret_daily retention) \<noteq> 0"
      by (auto simp: keep_def unat_eq_0 split: if_splits)
    with False g(1) s(1,3) show ?thesis by (simp add: enforce_retention_def Let_def)
  qed
  have bl: "(\<exists>s \<in> set (drop keep snaps). below (path_of (sni_snapshot_path s)) q) = (\<exists>n \<in> set (drop keep ?ns). below (sd @ [n]) q)" for q
  proof -
    have "(\<exists>s \<in> set (drop keep snaps). below (path_of (sni_snapshot_path s)) q) =
        (\<exists>p \<in> set (map sni_snapshot_path (drop keep snaps)). below (path_of p) q)" by simp
    also have "\<dots> = (\<exists>n \<in> set (drop keep ?ns). below (sd @ [n]) q)"
      unfolding dr(1) using po [OF in_set_dropD] by simp
    finally show ?thesis .
  qed
  show ?thesis
    by (intro exI [of _ snaps] exI [of _ keep] exI [of _ kept] exI [of _ g] conjI s(1) so keep_def e k) (simp add: bl g(5))
qed

definition ex_snapshots :: fs where
  "ex_snapshots = \<lparr>fs_dirs = [[''.snapshots''], [''.snapshots'', ''v''], [''.snapshots'', ''v'', ''a''], [''.snapshots'', ''v'', ''b'']],
     fs_files = [([''.snapshots'', ''v'', ''a'', ''x''], ''old'')]\<rparr>"

definition ex_meta :: "path \<Rightarrow> int" where
  "ex_meta p = (if last p = ''a'' then 1 else 2)"

lemma ex_snapshots_clean: "clean ex_snapshots"
  unfolding clean_def
proof
  show "wf_fs ex_snapshots" by code_simp
  have p: "plain ''.snapshots''" "plain ''v''" "plain ''a''" "plain ''b''" "plain ''x''" by code_simp+
  show "closed_below ex_snapshots []"
    by (auto simp: closed_below_def ex_snapshots_def is_dir_def file_at_def p append_eq_Cons_conv split: if_splits)
qed

theorem retention_keeps_newest_witness:
  "\<exists>g kept. enforce_retention ex_chrono ex_meta ok_io [] ''https://c/volumes/v'' \<lparr>ret_daily = 1, ret_weekly = 0, ret_monthly = 0\<rparr> ex_snapshots = (Inr 1, g) \<and>
     list_snapshots ex_chrono ex_meta ok_io [] ''https://c/volumes/v'' g = Inr kept \<and> map sni_snapshot_path kept = [''/.snapshots/v/b'']"
proof -
  have d: "is_dir ex_snapshots ([] @ [''.snapshots'', ''v''])" "snap_volume_name ''https://c/volumes/v'' = ''v''" by code_simp+
  have l: "map_sum id (map sni_snapshot_path) (list_snapshots ex_chrono ex_meta ok_io [] ''https://c/volumes/v'' ex_snapshots) =
      Inr [''/.snapshots/v/b'', ''/.snapshots/v/a'']" by code_simp
  obtain snaps keep kept g where s: "list_snapshots ex_chrono ex_meta ok_io [] ''https://c/volumes/v'' ex_snapshots = Inr snaps" "keep = 1"
    "enforce_retention ex_chrono ex_meta ok_io [] ''https://c/volumes/v'' \<lparr>ret_daily = 1, ret_weekly = 0, ret_monthly = 0\<rparr> ex_snapshots =
       (Inr (length snaps - keep), g)"
    "list_snapshots ex_chrono ex_meta ok_io [] ''https://c/volumes/v'' g = Inr kept"
    "map sni_snapshot_path kept = map sni_snapshot_path (take keep snaps)"
    using retention_keeps_newest [OF ex_snapshots_clean d, of ex_chrono ex_meta "\<lparr>ret_daily = 1, ret_weekly = 0, ret_monthly = 0\<rparr>"]
    by (elim exE conjE) simp
  have m: "map sni_snapshot_path snaps = [''/.snapshots/v/b'', ''/.snapshots/v/a'']" using l s(1) by simp
  have "length (map sni_snapshot_path snaps) = 2" unfolding m by simp
  then have "length snaps = 2" by (simp only: length_map)
  moreover have "map sni_snapshot_path (take keep snaps) = [''/.snapshots/v/b'']"
    using m s(2) by (simp add: take_map [symmetric])
  ultimately show ?thesis using s by auto
qed

section \<open>The scheduler\<close>

lemma bump_forward:
  assumes "bump taken ts = Some r"
  shows "ts \<le> r"
proof (rule bump.raw_induct [where P = "\<lambda>taken ts r. ts \<le> r", OF _ assms])
  fix bump' :: "(int \<Rightarrow> bool) \<Rightarrow> int \<Rightarrow> int option" and taken ts r
  assume "\<And>taken ts r. bump' taken ts = Some r \<Longrightarrow> ts \<le> r" "(if taken ts then bump' taken (ts + 1000) else Some ts) = Some r"
  then show "ts \<le> r" by (cases "taken ts") force+
qed

lemma create_snapshot_time:
  "create_snapshot_at ch io base iri at_time f = (Some (Inr info), g) \<Longrightarrow> at_time \<le> sni_created_at info"
  by (auto simp: create_snapshot_at_def Let_def bump_forward split: if_splits option.splits prod.splits sum.splits)

text \<open>The time of the last snapshot, as \<open>run_once\<close> finds it: what it remembers, else the newest snapshot on disk.\<close>

definition last_known :: "chrono \<Rightarrow> (path \<Rightarrow> int) \<Rightarrow> disk_io \<Rightarrow> path \<Rightarrow> resource_iri \<Rightarrow> last_run \<Rightarrow> fs \<Rightarrow> int option" where
  "last_known ch meta io base iri last_run f =
     (case map_of last_run iri of
        Some t \<Rightarrow> Some t
      | None \<Rightarrow> (case list_snapshots ch meta io base iri f of Inr (s # _) \<Rightarrow> Some (sni_created_at s) | _ \<Rightarrow> None))"

text \<open>The scheduler spaces snapshots: it takes one only when the schedule is enabled and the last
  one known (remembered, or found on the disk after a restart) is at least an interval old; and after it took one,
  every run before the interval has passed takes none and changes neither its memory nor the disk, whatever the
  disk holds by then; runs for other volumes are remembered as before.\<close>

theorem scheduler_spacing:
  assumes "run_once ch meta io base iri config now last_run f = (Some (Inr (Some info)), last_run', g)"
  shows "sc_enabled config \<and> now \<le> sni_created_at info \<and>
    (\<forall>t. last_known ch meta io base iri last_run f = Some t \<longrightarrow> schedule_interval (sc_schedule config) \<le> now - t) \<and>
    map_of last_run' = (map_of last_run)(iri \<mapsto> sni_created_at info) \<and>
    (\<forall>now' io' g'. now' < sni_created_at info + schedule_interval (sc_schedule config) \<longrightarrow>
       run_once ch meta io' base iri config now' last_run' g' = (Some (Inr None), last_run', g'))"
proof -
  obtain f1 where a: "sc_enabled config" "create_snapshot_at ch io base iri now f = (Some (Inr info), f1)"
    "last_run' = hm_insert iri (sni_created_at info) last_run"
    and due: "last_known ch meta io base iri last_run f = Some t \<longrightarrow> is_due (sc_schedule config) (Some t) now" for t
    using assms
    by (auto simp: run_once_def last_known_def Let_def and_then_def split: if_splits option.splits prod.splits sum.splits list.splits)
  have m: "map_of last_run' = (map_of last_run)(iri \<mapsto> sni_created_at info)" 
    by (auto simp: a(3) hm_insert_def map_of_filter_key [where P = "\<lambda>k. k \<noteq> iri"])
  then have "run_once ch meta io' base iri config now' last_run' g' = (Some (Inr None), last_run', g')"
    if "now' < sni_created_at info + schedule_interval (sc_schedule config)" for now' io' g'
    using that a(1) by (simp add: run_once_def is_due_def)
  with a(1) create_snapshot_time [OF a(2)] due m show ?thesis by (auto simp: is_due_def)
qed

definition ex_config :: snapshot_config where
  "ex_config = \<lparr>sc_enabled = True, sc_schedule = Daily, sc_storage_secret = [], sc_retention = \<lparr>ret_daily = 7, ret_weekly = 0, ret_monthly = 0\<rparr>\<rparr>"

theorem scheduler_spacing_witness:
  "\<exists>info last_run g. run_once ex_chrono ex_meta ok_io [] ''https://c/volumes/v'' ex_config 0 [] ex_volume = (Some (Inr (Some info)), last_run, g) \<and>
     (\<forall>now' g'. now' < sni_created_at info + 24 * 3600 * 1000000000 \<longrightarrow>
        run_once ex_chrono ex_meta ok_io [] ''https://c/volumes/v'' ex_config now' last_run g' = (Some (Inr None), last_run, g'))"
proof -
  have "case run_once ex_chrono ex_meta ok_io [] ''https://c/volumes/v'' ex_config 0 [] ex_volume of
      (Some (Inr (Some _)), _) \<Rightarrow> True | _ \<Rightarrow> False" by code_simp
  then obtain info last_run g where
    "run_once ex_chrono ex_meta ok_io [] ''https://c/volumes/v'' ex_config 0 [] ex_volume = (Some (Inr (Some info)), last_run, g)"
    by (auto split: prod.splits option.splits sum.splits)
  with scheduler_spacing [OF this] show ?thesis by (auto simp: ex_config_def schedule_interval_def)
qed

end
