(* ===== verification/Cluster_Membership.thy ===== *)
theory Cluster_Membership
  imports Raft_Store
begin

text \<open>
  Cluster membership (\<open>crates/picloud-cluster/src\<close>): the peer list (\<open>peers.rs\<close>), the handling of mDNS
  events (\<open>discovery.rs\<close>), and leadership, members, voter configuration and cluster identity
  (\<open>implementation.rs\<close>). What mDNS resolves is a record of what the code reads from it; printing and
  parsing of UUIDs and the Raft handle (openraft) are records of functions. Time is an argument. IP
  addresses are their text.
\<close>

section \<open>Peer list\<close>

record peer_info =
  pi_node_id :: uuid
  pi_node_name :: string
  pi_address :: string
  pi_ip :: string
  pi_port :: nat
  pi_last_seen :: int

record peer_list =
  pl_peers :: "(uuid \<times> peer_info) list"
  pl_removed :: "peer_info list"

definition peer_list_new :: peer_list where
  "peer_list_new = \<lparr>pl_peers = [], pl_removed = []\<rparr>"

definition peers_contains :: "peer_list \<Rightarrow> uuid \<Rightarrow> bool" where
  "peers_contains pl i \<longleftrightarrow> map_of (pl_peers pl) i \<noteq> None"

definition peers_add :: "int \<Rightarrow> peer_info \<Rightarrow> peer_list \<Rightarrow> bool \<times> peer_list" where
  "peers_add now peer pl =
     (let is_new = (map_of (pl_peers pl) (pi_node_id peer) = None);
          peer' = (if is_new then peer\<lparr>pi_last_seen := now\<rparr> else peer)
      in (is_new, pl\<lparr>pl_peers := hm_insert (pi_node_id peer) peer' (pl_peers pl)\<rparr>))"

definition peers_touch :: "int \<Rightarrow> uuid \<Rightarrow> peer_list \<Rightarrow> peer_list" where
  "peers_touch now i pl =
     (case map_of (pl_peers pl) i of
        None \<Rightarrow> pl
      | Some p \<Rightarrow> pl\<lparr>pl_peers := map (\<lambda>(k, q). if k = i then (k, q\<lparr>pi_last_seen := now\<rparr>) else (k, q)) (pl_peers pl)\<rparr>)"

text \<open>Removing the peers of a list of identifiers one by one; each one found is sent on the channel.\<close>

fun peers_drop :: "uuid list \<Rightarrow> peer_list \<Rightarrow> peer_info list \<times> peer_list" where
  "peers_drop [] pl = ([], pl)"
| "peers_drop (i # is) pl =
     (case map_of (pl_peers pl) i of
        None \<Rightarrow> peers_drop is pl
      | Some p \<Rightarrow>
          (case peers_drop is (pl\<lparr>pl_peers := hm_remove i (pl_peers pl), pl_removed := pl_removed pl @ [p]\<rparr>) of
             (removed, pl') \<Rightarrow> (p # removed, pl')))"

definition peers_sweep_stale :: "int \<Rightarrow> int \<Rightarrow> peer_list \<Rightarrow> peer_info list \<times> peer_list" where
  "peers_sweep_stale now max_age pl =
     (let stale_ids = map fst (filter (\<lambda>(_, p). max 0 (now - pi_last_seen p) > max_age) (pl_peers pl))
      in peers_drop stale_ids pl)"

definition peers_remove :: "uuid \<Rightarrow> peer_list \<Rightarrow> peer_info option \<times> peer_list" where
  "peers_remove i pl =
     (case map_of (pl_peers pl) i of
        None \<Rightarrow> (None, pl)
      | Some p \<Rightarrow> (Some p, pl\<lparr>pl_peers := hm_remove i (pl_peers pl), pl_removed := pl_removed pl @ [p]\<rparr>))"

definition instance_name :: "string \<Rightarrow> string" where
  "instance_name fullname = hd (split_on (CHR ''.'') fullname)"

definition peers_remove_by_fullname :: "string \<Rightarrow> peer_list \<Rightarrow> peer_list" where
  "peers_remove_by_fullname fullname pl =
     (let to_remove = map fst (filter (\<lambda>(_, p). pi_node_name p = instance_name fullname) (pl_peers pl))
      in snd (peers_drop to_remove pl))"

definition peers_all :: "peer_list \<Rightarrow> peer_info list" where
  "peers_all pl = map snd (pl_peers pl)"

definition peers_get :: "peer_list \<Rightarrow> uuid \<Rightarrow> peer_info option" where
  "peers_get pl i = map_of (pl_peers pl) i"

definition peers_len :: "peer_list \<Rightarrow> nat" where
  "peers_len pl = length (pl_peers pl)"

definition peers_is_empty :: "peer_list \<Rightarrow> bool" where
  "peers_is_empty pl \<longleftrightarrow> peers_len pl = 0"

section \<open>Discovery\<close>

definition DEFAULT_SERVICE_TYPE :: string where
  "DEFAULT_SERVICE_TYPE = ''_picloud._tcp.local.''"

text \<open>The 64-bit hash of a domain, the sixteen hexadecimal digits of \<open>{:016x}\<close>, and the first eight
  of them.\<close>

definition domain_hash :: "string \<Rightarrow> u64" where
  "domain_hash domain = foldl (\<lambda>h b. h * 33 + of_nat (of_char b)) 5381 domain"

definition hex_char :: "nat \<Rightarrow> char" where
  "hex_char d = (if d < 10 then char_of (48 + d) else char_of (87 + d))"

definition hex16 :: "u64 \<Rightarrow> string" where
  "hex16 h = map (\<lambda>i. hex_char (unat h div 16 ^ i mod 16)) (rev [0..<16])"

definition service_type_for_domain :: "string \<Rightarrow> string" where
  "service_type_for_domain domain =
     (if domain = ''picloud.local'' \<or> domain = [] then DEFAULT_SERVICE_TYPE
      else ''_pc-'' @ take 8 (hex16 (domain_hash domain)) @ ''._tcp.local.'')"

text \<open>What the code reads of a resolved service (\<open>mdns_sd::ServiceInfo\<close>).\<close>

record service_info =
  si_properties :: "string \<Rightarrow> string option"
  si_port :: nat
  si_addresses :: "string list"
  si_hostname :: string

datatype service_event =
    ServiceResolved service_info
  | ServiceRemoved string string
  | SearchStarted string
  | SearchStopped string
  | OtherEvent

definition parse_u16 :: "string \<Rightarrow> nat option" where
  "parse_u16 s = (case parse_usize s of Some n \<Rightarrow> if n < 2 ^ 16 then Some n else None | None \<Rightarrow> None)"

definition trim_end_char :: "char \<Rightarrow> string \<Rightarrow> string" where
  "trim_end_char c s = rev (dropWhile (\<lambda>x. x = c) (rev s))"

definition extract_node_id :: "(string \<Rightarrow> uuid option) \<Rightarrow> service_info \<Rightarrow> uuid option" where
  "extract_node_id parse_uuid info = Option.bind (si_properties info ''node_id'') parse_uuid"

definition handle_event ::
  "(string \<Rightarrow> uuid option) \<Rightarrow> int \<Rightarrow> uuid \<Rightarrow> service_event \<Rightarrow> peer_list \<Rightarrow> peer_list" where
  "handle_event parse_uuid now local_node_id event pl =
     (case event of
        ServiceResolved info \<Rightarrow>
          (case extract_node_id parse_uuid info of
             None \<Rightarrow> pl
           | Some node_id \<Rightarrow>
               if node_id = local_node_id then pl
               else
                 let http_port = (case Option.bind (si_properties info ''http_port'') parse_u16 of
                                    Some p \<Rightarrow> p | None \<Rightarrow> si_port info)
                 in case si_addresses info of
                      [] \<Rightarrow> pl
                    | addr # _ \<Rightarrow>
                        let peer = \<lparr>pi_node_id = node_id, pi_node_name = trim_end_char (CHR ''.'') (si_hostname info),
                                    pi_address = addr @ '':'' @ show_nat http_port, pi_ip = addr, pi_port = http_port,
                                    pi_last_seen = now\<rparr>
                        in peers_touch now node_id (snd (peers_add now peer pl)))
      | ServiceRemoved _ fullname \<Rightarrow> peers_remove_by_fullname fullname pl
      | _ \<Rightarrow> pl)"

text \<open>What a node registers about itself, as the others resolve it, and the name of its service.\<close>

record discovery_config =
  dc_node_id :: uuid
  dc_node_name :: string
  dc_http_port :: nat
  dc_bind_addr :: string
  dc_cluster_domain :: "string option"
  dc_cluster_id :: "uuid option"

definition discovery_service_type :: "discovery_config \<Rightarrow> string" where
  "discovery_service_type c =
     (case dc_cluster_domain c of Some d \<Rightarrow> service_type_for_domain d | None \<Rightarrow> DEFAULT_SERVICE_TYPE)"

definition register_self :: "(uuid \<Rightarrow> string) \<Rightarrow> discovery_config \<Rightarrow> service_info" where
  "register_self show_uuid c =
     \<lparr>si_properties =
        (\<lambda>k. if k = ''node_id'' then Some (show_uuid (dc_node_id c))
             else if k = ''http_port'' then Some (show_nat (dc_http_port c))
             else if k = ''cluster_id'' then map_option show_uuid (dc_cluster_id c)
             else None),
      si_port = dc_http_port c, si_addresses = [dc_bind_addr c], si_hostname = dc_node_name c @ ''.local.''\<rparr>"

definition unregistered_fullname :: "discovery_config \<Rightarrow> string" where
  "unregistered_fullname c = dc_node_name c @ ''.'' @ discovery_service_type c"

section \<open>Leadership and members\<close>

record cluster_config =
  cc_node_id :: uuid
  cc_node_name :: string
  cc_http_port :: nat
  cc_bind_addr :: string
  cc_cluster_domain :: cluster_domain

text \<open>The calls on the Raft handle: the left summand is the text of the error.\<close>

record 'r raft_api =
  ra_current_leader :: "'r \<Rightarrow> u64 option"
  ra_voter_ids :: "'r \<Rightarrow> u64 list"
  ra_learner_ids :: "'r \<Rightarrow> u64 list"
  ra_add_learner :: "u64 \<Rightarrow> string \<Rightarrow> 'r \<Rightarrow> string + 'r"
  ra_change_membership :: "u64 list \<Rightarrow> 'r \<Rightarrow> string + 'r"

record 'r mdns_cluster =
  mc_config :: cluster_config
  mc_peers :: peer_list
  mc_raft :: "'r option"

definition set_raft :: "'r \<Rightarrow> 'r mdns_cluster \<Rightarrow> 'r mdns_cluster" where
  "set_raft r c = c\<lparr>mc_raft := Some r\<rparr>"

definition raft_node_id :: "'r mdns_cluster \<Rightarrow> u64" where
  "raft_node_id c = node_id_from_uuid (cc_node_id (mc_config c))"

definition is_leader :: "'r raft_api \<Rightarrow> 'r mdns_cluster \<Rightarrow> bool" where
  "is_leader api c =
     (case mc_raft c of
        Some r \<Rightarrow> ra_current_leader api r = Some (raft_node_id c)
      | None \<Rightarrow>
          let peers = peers_all (mc_peers c) in
          if peers = [] then True else list_all (\<lambda>p. cc_node_id (mc_config c) < pi_node_id p) peers)"

text \<open>\<open>min_by_key\<close>: the first of the least elements.\<close>

fun min_peer :: "peer_info \<Rightarrow> peer_info list \<Rightarrow> peer_info" where
  "min_peer m [] = m"
| "min_peer m (p # ps) = min_peer (if pi_node_id p < pi_node_id m then p else m) ps"

definition lowest_id :: "'r mdns_cluster \<Rightarrow> uuid" where
  "lowest_id c =
     (case peers_all (mc_peers c) of
        [] \<Rightarrow> cc_node_id (mc_config c)
      | p # ps \<Rightarrow>
          let m = min_peer p ps in
          if cc_node_id (mc_config c) < pi_node_id m then cc_node_id (mc_config c) else pi_node_id m)"

definition leader_id :: "'r raft_api \<Rightarrow> 'r mdns_cluster \<Rightarrow> uuid result" where
  "leader_id api c =
     (case Option.bind (mc_raft c) (ra_current_leader api) of
        Some leader \<Rightarrow>
          if leader = raft_node_id c then Inr (cc_node_id (mc_config c))
          else (case find (\<lambda>p. node_id_from_uuid (pi_node_id p) = leader) (peers_all (mc_peers c)) of
                  Some p \<Rightarrow> Inr (pi_node_id p)
                | None \<Rightarrow> Inr (lowest_id c))
      | None \<Rightarrow> Inr (lowest_id c))"

record node_info =
  ni_node_id :: uuid
  ni_node_iri :: resource_iri
  ni_address :: string
  ni_is_leader :: bool

definition members :: "'r raft_api \<Rightarrow> 'r mdns_cluster \<Rightarrow> node_info list result" where
  "members api c =
     and_then (leader_id api c) (\<lambda>leader.
       let cfg = mc_config c; iri = iri_node (cc_cluster_domain cfg) in
       Inr (\<lparr>ni_node_id = cc_node_id cfg, ni_node_iri = iri (cc_node_name cfg),
             ni_address = cc_bind_addr cfg @ '':'' @ show_nat (cc_http_port cfg),
             ni_is_leader = (cc_node_id cfg = leader)\<rparr>
            # map (\<lambda>p. \<lparr>ni_node_id = pi_node_id p, ni_node_iri = iri (pi_node_name p), ni_address = pi_address p,
                        ni_is_leader = (pi_node_id p = leader)\<rparr>) (peers_all (mc_peers c))))"

section \<open>Voter configuration\<close>

definition uuid_from_raft_id :: "'r mdns_cluster \<Rightarrow> u64 \<Rightarrow> uuid" where
  "uuid_from_raft_id c raft_id =
     (if node_id_from_uuid (cc_node_id (mc_config c)) = raft_id then cc_node_id (mc_config c)
      else (case find (\<lambda>p. node_id_from_uuid (pi_node_id p) = raft_id) (peers_all (mc_peers c)) of
              Some p \<Rightarrow> pi_node_id p
            | None \<Rightarrow> ucast raft_id))"

definition node_name_from_uuid :: "(uuid \<Rightarrow> string) \<Rightarrow> 'r mdns_cluster \<Rightarrow> uuid \<Rightarrow> string" where
  "node_name_from_uuid show_uuid c u =
     (if u = cc_node_id (mc_config c) then cc_node_name (mc_config c)
      else (case find (\<lambda>p. pi_node_id p = u) (peers_all (mc_peers c)) of
              Some p \<Rightarrow> pi_node_name p
            | None \<Rightarrow> ''node-'' @ take 8 (show_uuid u)))"

record voter_change =
  vc_new_voters :: "uuid list"
  vc_voter_count :: nat

definition voter_change_result :: "'r mdns_cluster \<Rightarrow> u64 list \<Rightarrow> voter_change" where
  "voter_change_result c ids =
     (let new_voters = map (uuid_from_raft_id c) ids
      in \<lparr>vc_new_voters = new_voters, vc_voter_count = length new_voters\<rparr>)"

text \<open>A \<open>BTreeSet<u64>\<close> is an ordered list without repetitions.\<close>

definition btree_set :: "u64 list \<Rightarrow> u64 list" where
  "btree_set ids = fold insort_insert ids []"

definition submit_voters ::
  "'r raft_api \<Rightarrow> string \<Rightarrow> u64 list \<Rightarrow> 'r \<Rightarrow> 'r mdns_cluster \<Rightarrow> voter_change result \<times> 'r mdns_cluster" where
  "submit_voters api failed ids r c =
     (case ra_change_membership api ids r of
        Inl e \<Rightarrow> (Inl (VoterConfigChangeFailed (failed @ e)), c)
      | Inr r' \<Rightarrow> (Inr (voter_change_result c ids), c\<lparr>mc_raft := Some r'\<rparr>))"

definition add_learner ::
  "'r raft_api \<Rightarrow> (uuid \<Rightarrow> string) \<Rightarrow> uuid \<Rightarrow> string \<Rightarrow> 'r mdns_cluster \<Rightarrow> unit result \<times> 'r mdns_cluster" where
  "add_learner api show_uuid node_id address c =
     (case mc_raft c of
        None \<Rightarrow> (Inl NotLeader, c)
      | Some r \<Rightarrow>
          (case ra_add_learner api (node_id_from_uuid node_id) address r of
             Inl e \<Rightarrow> (Inl (VoterConfigChangeFailed (''Failed to add learner '' @ show_uuid node_id @ '': '' @ e)), c)
           | Inr r' \<Rightarrow> (Inr (), c\<lparr>mc_raft := Some r'\<rparr>)))"

definition promote_to_voter ::
  "'r raft_api \<Rightarrow> (uuid \<Rightarrow> string) \<Rightarrow> uuid \<Rightarrow> 'r mdns_cluster \<Rightarrow> voter_change result \<times> 'r mdns_cluster" where
  "promote_to_voter api show_uuid node_id c =
     (case mc_raft c of
        None \<Rightarrow> (Inl NotLeader, c)
      | Some r \<Rightarrow>
          submit_voters api (''Failed to promote '' @ show_uuid node_id @ '' to voter: '')
            (insort_insert (node_id_from_uuid node_id) (btree_set (ra_voter_ids api r))) r c)"

definition demote_to_learner ::
  "'r raft_api \<Rightarrow> (uuid \<Rightarrow> string) \<Rightarrow> uuid \<Rightarrow> 'r mdns_cluster \<Rightarrow> voter_change result \<times> 'r mdns_cluster" where
  "demote_to_learner api show_uuid node_id c =
     (case mc_raft c of
        None \<Rightarrow> (Inl NotLeader, c)
      | Some r \<Rightarrow>
          let ids = btree_set (filter (\<lambda>i. i \<noteq> node_id_from_uuid node_id) (ra_voter_ids api r)) in
          if ids = [] then (Inl (VoterConfigChangeFailed ''Cannot demote the last voter''), c)
          else submit_voters api (''Failed to demote '' @ show_uuid node_id @ '' to learner: '') ids r c)"

definition change_voter_set ::
  "'r raft_api \<Rightarrow> uuid list \<Rightarrow> 'r mdns_cluster \<Rightarrow> voter_change result \<times> 'r mdns_cluster" where
  "change_voter_set api new_voter_ids c =
     (case mc_raft c of
        None \<Rightarrow> (Inl NotLeader, c)
      | Some r \<Rightarrow>
          let ids = btree_set (map node_id_from_uuid new_voter_ids) in
          if ids = [] then (Inl (VoterConfigChangeFailed ''Voter set cannot be empty''), c)
          else submit_voters api ''Failed to change voter set: '' ids r c)"

datatype voter_role = Voter | Learner

record voter_info =
  vi_node_id :: uuid
  vi_node_iri :: resource_iri
  vi_role :: voter_role

definition list_voters :: "'r raft_api \<Rightarrow> (uuid \<Rightarrow> string) \<Rightarrow> 'r mdns_cluster \<Rightarrow> voter_info list result" where
  "list_voters api show_uuid c =
     (case mc_raft c of
        None \<Rightarrow> Inl NotLeader
      | Some r \<Rightarrow>
          let entry = (\<lambda>role raft_id.
                let u = uuid_from_raft_id c raft_id
                in \<lparr>vi_node_id = u,
                    vi_node_iri = iri_node (cc_cluster_domain (mc_config c)) (node_name_from_uuid show_uuid c u),
                    vi_role = role\<rparr>)
          in Inr (map (entry Voter) (ra_voter_ids api r) @ map (entry Learner) (ra_learner_ids api r)))"

section \<open>Cluster identity\<close>

datatype enrollment_mode = AutoEnrollment | TokenEnrollment

record cluster_identity =
  ci_cluster_id :: uuid
  ci_domain :: cluster_domain
  ci_created_at :: int
  ci_ca_fingerprint :: string
  ci_enrollment_mode :: enrollment_mode

definition identity_initialize ::
  "(uuid \<Rightarrow> string) \<Rightarrow> cluster_identity \<Rightarrow> cluster_identity option \<Rightarrow> unit result \<times> cluster_identity option" where
  "identity_initialize show_uuid identity st =
     (case st of
        Some existing \<Rightarrow> (Inl (ClusterAlreadyInitialized (show_uuid (ci_cluster_id existing))), st)
      | None \<Rightarrow> (Inr (), Some identity))"

definition identity_get :: "cluster_identity option \<Rightarrow> cluster_identity option result" where
  "identity_get st = Inr st"

definition validate_node_join ::
  "(uuid \<Rightarrow> string) \<Rightarrow> cluster_identity option \<Rightarrow> string \<Rightarrow> uuid \<Rightarrow> unit result" where
  "validate_node_join show_uuid st ca_fingerprint cluster_id =
     (case st of
        None \<Rightarrow> Inl (Internal ''Cluster identity not yet initialized'')
      | Some identity \<Rightarrow>
          if ci_cluster_id identity \<noteq> cluster_id
          then Inl (NodeJoinRejected
                 (''Cluster ID mismatch: expected '' @ show_uuid (ci_cluster_id identity) @ '', got '' @ show_uuid cluster_id))
          else if ci_ca_fingerprint identity \<noteq> ca_fingerprint
          then Inl (NodeJoinRejected
                 (''CA fingerprint mismatch: expected '' @ ci_ca_fingerprint identity @ '', got '' @ ca_fingerprint))
          else Inr ())"

section \<open>The peer list over any run\<close>

definition peers_ok :: "uuid \<Rightarrow> peer_list \<Rightarrow> bool" where
  "peers_ok me pl \<longleftrightarrow>
     distinct (map fst (pl_peers pl)) \<and> (\<forall>(k, p) \<in> set (pl_peers pl). pi_node_id p = k) \<and> me \<notin> fst ` set (pl_peers pl)"

datatype peer_input = Mdns int service_event | Sweep int int | Forget uuid

definition peer_step :: "(string \<Rightarrow> uuid option) \<Rightarrow> uuid \<Rightarrow> peer_input \<Rightarrow> peer_list \<Rightarrow> peer_list" where
  "peer_step parse_uuid me i pl =
     (case i of
        Mdns now e \<Rightarrow> handle_event parse_uuid now me e pl
      | Sweep now max_age \<Rightarrow> snd (peers_sweep_stale now max_age pl)
      | Forget u \<Rightarrow> snd (peers_remove u pl))"

lemma peers_ok_new [simp]: "peers_ok me peer_list_new"
  by (simp add: peers_ok_def peer_list_new_def)

lemma peers_ok_filter: "peers_ok me pl \<Longrightarrow> peers_ok me (pl\<lparr>pl_peers := hm_remove i (pl_peers pl), pl_removed := r\<rparr>)"
  by (auto simp: peers_ok_def hm_remove_def distinct_map_filter)

lemma peers_ok_drop: "peers_ok me pl \<Longrightarrow> peers_ok me (snd (peers_drop is pl))"
proof (induction "is" pl rule: peers_drop.induct)
  case (2 i "is" pl)
  show ?case
  proof (cases "map_of (pl_peers pl) i")
    case None
    then show ?thesis using 2 by simp
  next
    case (Some p)
    then show ?thesis using 2(2) [OF Some peers_ok_filter [OF 2(3)]] by (simp add: case_prod_beta)
  qed
qed simp

lemma peers_okI:
  "distinct (map fst m) \<Longrightarrow> (\<And>k p. (k, p) \<in> set m \<Longrightarrow> pi_node_id p = k) \<Longrightarrow> me \<notin> set (map fst m) \<Longrightarrow>
   peers_ok me (pl\<lparr>pl_peers := m\<rparr>)"
  by (auto simp: peers_ok_def)

lemma peers_ok_insert:
  assumes "peers_ok me pl" "k \<noteq> me" "pi_node_id q = k"
  shows "peers_ok me (pl\<lparr>pl_peers := hm_insert k q (pl_peers pl)\<rparr>)"
  by (rule peers_okI) (use assms in \<open>auto simp: peers_ok_def hm_insert_def distinct_map_filter\<close>)

lemma peers_ok_add:
  assumes "peers_ok me pl" "pi_node_id p \<noteq> me"
  shows "peers_ok me (snd (peers_add now p pl))"
  using peers_ok_insert [OF assms] by (simp add: peers_add_def Let_def)

lemma peers_ok_touch:
  assumes "peers_ok me pl"
  shows "peers_ok me (peers_touch now i pl)"
proof -
  let ?m = "map (\<lambda>(k, q). if k = i then (k, q\<lparr>pi_last_seen := now\<rparr>) else (k, q)) (pl_peers pl)"
  have k: "map fst ?m = map fst (pl_peers pl)" by auto
  have "peers_ok me (pl\<lparr>pl_peers := ?m\<rparr>)"
    by (rule peers_okI, unfold k) (use assms in \<open>auto simp: peers_ok_def split: if_splits\<close>)
  then show ?thesis using assms by (simp add: peers_touch_def split: option.splits)
qed

lemma peers_ok_step: "peers_ok me pl \<Longrightarrow> peers_ok me (peer_step parse_uuid me i pl)"
proof (cases i)
  case (Mdns now e)
  assume ok: "peers_ok me pl"
  show ?thesis
    using ok peers_ok_touch [OF peers_ok_add [OF ok]]
    by (auto simp: peer_step_def Mdns handle_event_def Let_def peers_remove_by_fullname_def peers_ok_drop
        split: service_event.splits option.splits list.splits)
next
  case (Sweep now a)
  assume "peers_ok me pl"
  then show ?thesis by (simp add: peer_step_def Sweep peers_sweep_stale_def Let_def peers_ok_drop)
next
  case (Forget u)
  assume "peers_ok me pl"
  then show ?thesis by (simp add: peer_step_def Forget peers_remove_def peers_ok_filter split: option.splits)
qed

lemma peers_ok_run: "peers_ok me (fold (peer_step parse_uuid me) is peer_list_new)"
proof -
  have "peers_ok me pl \<Longrightarrow> peers_ok me (fold (peer_step parse_uuid me) is pl)" for pl
    by (induction "is" arbitrary: pl) (simp_all add: peers_ok_step)
  then show ?thesis by simp
qed

text \<open>A node that unregisters stays in the peer lists: a discovered peer is recorded under its host
  name (ending in \<open>.local\<close>) while the removal event is matched against the service instance name.\<close>

lemma trim_local: "trim_end_char (CHR ''.'') (n @ ''.local.'') = n @ ''.local''"
  by (simp add: trim_end_char_def)

lemma instance_of_fullname: "CHR ''.'' \<notin> set n \<Longrightarrow> instance_name (n @ ''.'' @ s) = n"
  by (simp add: instance_name_def split_on_app)

lemma unregistered_peer_stays:
  assumes "parse_uuid (show_uuid (dc_node_id c)) = Some (dc_node_id c)" "dc_node_id c \<noteq> me"
    and "CHR ''.'' \<notin> set (dc_node_name c)"
  shows "peers_contains
    (handle_event parse_uuid t2 me (ServiceRemoved ty (unregistered_fullname c))
      (handle_event parse_uuid t1 me (ServiceResolved (register_self show_uuid c)) peer_list_new)) (dc_node_id c)"
proof -
  let ?pl = "handle_event parse_uuid t1 me (ServiceResolved (register_self show_uuid c)) peer_list_new"
  have "\<exists>p. pl_peers ?pl = [(dc_node_id c, p)] \<and> pi_node_name p = dc_node_name c @ ''.local''"
    using assms(1,2)
    by (simp add: handle_event_def register_self_def extract_node_id_def peers_add_def peers_touch_def
        peer_list_new_def hm_insert_def trim_local Let_def)
  then obtain p where p: "pl_peers ?pl = [(dc_node_id c, p)]" "pi_node_name p = dc_node_name c @ ''.local''" by blast
  have "instance_name (unregistered_fullname c) = dc_node_name c"
    unfolding unregistered_fullname_def by (rule instance_of_fullname [OF assms(3)])
  then have "handle_event parse_uuid t2 me (ServiceRemoved ty (unregistered_fullname c)) ?pl = ?pl"
    using p by (simp add: handle_event_def peers_remove_by_fullname_def)
  then show ?thesis using p(1) by (simp add: peers_contains_def)
qed

lemma service_type_collision: "service_type_for_domain ''aa.io'' = service_type_for_domain ''bb.io''"
  by (simp add: service_type_for_domain_def domain_hash_def hex16_def hex_char_def upt_rec)

section \<open>Leadership without Raft\<close>

text \<open>The nodes of a cluster before Raft is up, each knowing exactly the others.\<close>

definition mutual_view :: "uuid list \<Rightarrow> (uuid \<Rightarrow> 'r mdns_cluster) \<Rightarrow> bool" where
  "mutual_view ns cl \<longleftrightarrow>
     (\<forall>n \<in> set ns. cc_node_id (mc_config (cl n)) = n \<and> mc_raft (cl n) = None \<and>
        pi_node_id ` set (peers_all (mc_peers (cl n))) = set ns - {n})"

lemma min_peer_least:
  "min_peer m ps \<in> set (m # ps) \<and> (\<forall>p \<in> set (m # ps). pi_node_id (min_peer m ps) \<le> pi_node_id p)"
proof (induction ps arbitrary: m)
  case (Cons p ps)
  let ?m = "if pi_node_id p < pi_node_id m then p else m"
  from Cons [of ?m] have "min_peer ?m ps \<in> set (?m # ps)"
    "\<forall>q \<in> set (?m # ps). pi_node_id (min_peer ?m ps) \<le> pi_node_id q" by auto
  then show ?case by (auto split: if_splits)
qed simp

lemma lowest_id_least:
  fixes c :: "'r mdns_cluster"
  defines "ids \<equiv> insert (cc_node_id (mc_config c)) (pi_node_id ` set (peers_all (mc_peers c)))"
  shows "lowest_id c \<in> ids \<and> (\<forall>i \<in> ids. lowest_id c \<le> i)"
proof (cases "peers_all (mc_peers c)")
  case Nil
  then show ?thesis by (simp add: ids_def lowest_id_def)
next
  case (Cons p ps)
  have "min_peer p ps \<in> set (p # ps)" "\<forall>q \<in> set (p # ps). pi_node_id (min_peer p ps) \<le> pi_node_id q"
    using min_peer_least [of p ps] by blast+
  then show ?thesis by (auto simp: ids_def lowest_id_def Cons Let_def)
qed

lemma is_leader_alone:
  "mc_raft c = None \<Longrightarrow>
   is_leader api c \<longleftrightarrow> (\<forall>i \<in> pi_node_id ` set (peers_all (mc_peers c)). cc_node_id (mc_config c) < i)"
  by (auto simp: is_leader_def Let_def list_all_iff)

text \<open>C4. Before Raft is up, nodes that know exactly one another agree: one of them is the leader, every
  node reports it, only that node takes itself for the leader, and it is the only member flagged in
  any node's member list.\<close>

theorem leaderless_nodes_agree:
  assumes view: "mutual_view ns cl" and ne: "ns \<noteq> []"
  shows "\<exists>l \<in> set ns. \<forall>n \<in> set ns.
    leader_id api (cl n) = Inr l \<and> (is_leader api (cl n) \<longleftrightarrow> n = l) \<and>
    (\<forall>ms. members api (cl n) = Inr ms \<longrightarrow>
       ni_node_id ` set ms = set ns \<and> (\<forall>m \<in> set ms. ni_is_leader m \<longleftrightarrow> ni_node_id m = l))"
proof (rule bexI [of _ "Min (set ns)"], rule ballI)
  show "Min (set ns) \<in> set ns" using ne by simp
  fix n assume n: "n \<in> set ns"
  let ?c = "cl n"
  have c: "cc_node_id (mc_config ?c) = n" "mc_raft ?c = None"
    "pi_node_id ` set (peers_all (mc_peers ?c)) = set ns - {n}"
    using view n by (auto simp: mutual_view_def)
  have "insert (cc_node_id (mc_config ?c)) (pi_node_id ` set (peers_all (mc_peers ?c))) = set ns"
    unfolding c using n by auto
  then have low: "lowest_id ?c \<in> set ns" "\<forall>i \<in> set ns. lowest_id ?c \<le> i"
    using lowest_id_least [of ?c] by auto
  then have l: "lowest_id ?c = Min (set ns)" by (metis List.finite_set Min_eqI)
  have lead: "leader_id api ?c = Inr (Min (set ns))" by (simp add: leader_id_def c l)
  moreover have "is_leader api ?c \<longleftrightarrow> n = Min (set ns)"
  proof
    assume "is_leader api ?c"
    then have "\<forall>i \<in> set ns - {n}. n < i" unfolding is_leader_alone [OF c(2)] c(1,3) .
    with low n show "n = Min (set ns)" unfolding l by (metis DiffI leD singletonD)
  next
    assume "n = Min (set ns)"
    then have "\<forall>i \<in> set ns - {n}. n < i" using low(2) unfolding l by (metis DiffD1 DiffD2 order_le_less singletonI)
    then show "is_leader api ?c" unfolding is_leader_alone [OF c(2)] c(1,3) .
  qed
  moreover have "\<forall>ms. members api ?c = Inr ms \<longrightarrow>
       ni_node_id ` set ms = set ns \<and> (\<forall>m \<in> set ms. ni_is_leader m \<longleftrightarrow> ni_node_id m = Min (set ns))"
  proof (intro allI impI)
    fix ms assume "members api ?c = Inr ms"
    then have ms: "ni_node_id ` set ms = insert n (pi_node_id ` set (peers_all (mc_peers ?c)))"
      "\<forall>m \<in> set ms. ni_is_leader m \<longleftrightarrow> ni_node_id m = Min (set ns)"
      by (auto simp: members_def lead Let_def c(1) image_image)
    then show "ni_node_id ` set ms = set ns \<and> (\<forall>m \<in> set ms. ni_is_leader m \<longleftrightarrow> ni_node_id m = Min (set ns))"
      unfolding c(3) using n by auto
  qed
  ultimately show "leader_id api ?c = Inr (Min (set ns)) \<and> (is_leader api ?c \<longleftrightarrow> n = Min (set ns)) \<and>
    (\<forall>ms. members api ?c = Inr ms \<longrightarrow>
       ni_node_id ` set ms = set ns \<and> (\<forall>m \<in> set ms. ni_is_leader m \<longleftrightarrow> ni_node_id m = Min (set ns)))"
    by blast
qed

theorem leaderless_nodes_agree_witness:
  "\<exists>l \<in> {1, 2 :: uuid}. \<forall>n \<in> {1, 2}.
     leader_id (\<lparr>ra_current_leader = \<lambda>_. None, ra_voter_ids = \<lambda>_. [], ra_learner_ids = \<lambda>_. [],
        ra_add_learner = \<lambda>_ _. Inr, ra_change_membership = \<lambda>_. Inr\<rparr> :: unit raft_api)
       \<lparr>mc_config = \<lparr>cc_node_id = n, cc_node_name = ''n'', cc_http_port = 80, cc_bind_addr = ''h'', cc_cluster_domain = ''d''\<rparr>,
        mc_peers = \<lparr>pl_peers = [(3 - n, \<lparr>pi_node_id = 3 - n, pi_node_name = ''m'', pi_address = ''a'', pi_ip = ''a'',
          pi_port = 80, pi_last_seen = 0\<rparr>)], pl_removed = []\<rparr>, mc_raft = None\<rparr> = Inr l"
proof -
  let ?cl = "\<lambda>n :: uuid. \<lparr>mc_config = \<lparr>cc_node_id = n, cc_node_name = ''n'', cc_http_port = 80, cc_bind_addr = ''h'', cc_cluster_domain = ''d''\<rparr>,
        mc_peers = \<lparr>pl_peers = [(3 - n, \<lparr>pi_node_id = 3 - n, pi_node_name = ''m'', pi_address = ''a'', pi_ip = ''a'',
          pi_port = 80, pi_last_seen = 0\<rparr>)], pl_removed = []\<rparr>, mc_raft = None :: unit option\<rparr>"
  have "mutual_view [1, 2] ?cl" by (simp add: mutual_view_def peers_all_def insert_Diff_if)
  from leaderless_nodes_agree [OF this, of "\<lparr>ra_current_leader = \<lambda>_. None, ra_voter_ids = \<lambda>_. [],
      ra_learner_ids = \<lambda>_. [], ra_add_learner = \<lambda>_ _. Inr, ra_change_membership = \<lambda>_. Inr\<rparr>"]
  show ?thesis unfolding list.set by blast
qed

section \<open>Changes of the voter set\<close>

definition known_nodes :: "'r mdns_cluster \<Rightarrow> uuid set" where
  "known_nodes c = insert (cc_node_id (mc_config c)) (pi_node_id ` set (peers_all (mc_peers c)))"

definition voters :: "'r raft_api \<Rightarrow> 'r mdns_cluster \<Rightarrow> uuid set" where
  "voters api c = (case mc_raft c of None \<Rightarrow> {} | Some r \<Rightarrow> uuid_from_raft_id c ` set (ra_voter_ids api r))"

text \<open>openraft: a membership change that succeeds leaves exactly the submitted voters.\<close>

definition membership_law :: "'r raft_api \<Rightarrow> bool" where
  "membership_law api \<longleftrightarrow>
     (\<forall>ids r r'. ra_change_membership api ids r = Inr r' \<longrightarrow> set (ra_voter_ids api r') = set ids)"

lemma btree_set_insert: "set (fold insort_insert ids acc) = set ids \<union> set acc" "distinct acc \<Longrightarrow> distinct (fold insort_insert ids acc)"
  by (induction ids arbitrary: acc) (auto simp: set_insort_insert distinct_insort_insert)

lemma btree_set_props [simp]: "set (btree_set ids) = set ids" "distinct (btree_set ids)"
  using btree_set_insert(1) [of ids "[]"] btree_set_insert(2) [of "[]" ids] by (simp_all add: btree_set_def)

lemma find_None_or_Some:
  "find P xs = None \<Longrightarrow> \<forall>x \<in> set xs. \<not> P x"
  "find P xs = Some y \<Longrightarrow> y \<in> set xs \<and> P y"
  by (auto simp: find_None_iff find_Some_iff)

lemma uuid_from_raft_id_known:
  assumes inj: "inj_on node_id_from_uuid (known_nodes c)" and u: "u \<in> known_nodes c"
  shows "uuid_from_raft_id c (node_id_from_uuid u) = u"
proof (cases "node_id_from_uuid (cc_node_id (mc_config c)) = node_id_from_uuid u")
  case True
  moreover have "cc_node_id (mc_config c) \<in> known_nodes c" by (simp add: known_nodes_def)
  ultimately have "cc_node_id (mc_config c) = u" using inj_onD [OF inj _ _ u] by blast
  then show ?thesis by (simp add: uuid_from_raft_id_def)
next
  case False
  then have "u \<in> pi_node_id ` set (peers_all (mc_peers c))" using u by (auto simp: known_nodes_def)
  then obtain p where p: "find (\<lambda>p. node_id_from_uuid (pi_node_id p) = node_id_from_uuid u) (peers_all (mc_peers c)) = Some p"
    using find_None_or_Some(1) by (metis (mono_tags, lifting) imageE option.exhaust)
  then have "p \<in> set (peers_all (mc_peers c))" "node_id_from_uuid (pi_node_id p) = node_id_from_uuid u"
    using find_None_or_Some(2) [OF p] by auto
  moreover from this(1) have "pi_node_id p \<in> known_nodes c" by (simp add: known_nodes_def)
  ultimately have "pi_node_id p = u" using inj_onD [OF inj _ _ u] by blast
  with p False show ?thesis by (simp add: uuid_from_raft_id_def)
qed

lemma uuid_from_raft_id_raft [simp]: "uuid_from_raft_id (c\<lparr>mc_raft := x\<rparr>) = uuid_from_raft_id c"
  by (auto simp: uuid_from_raft_id_def fun_eq_iff)

lemma submit_voters_ok:
  assumes law: "membership_law api" and inj: "inj_on node_id_from_uuid (known_nodes c)"
    and ids: "distinct ids" "set ids = node_id_from_uuid ` us" "us \<subseteq> known_nodes c"
    and s: "submit_voters api msg ids r c = (Inr v, c')"
  shows "set (vc_new_voters v) = us \<and> vc_voter_count v = card us \<and> voters api c' = us"
proof -
  obtain r' where r': "ra_change_membership api ids r = Inr r'" and v: "v = voter_change_result c ids"
    and c': "c' = c\<lparr>mc_raft := Some r'\<rparr>"
    using s by (auto simp: submit_voters_def split: sum.splits)
  have ret: "uuid_from_raft_id c ` set ids = us"
    unfolding ids(2) image_image using ids(3) uuid_from_raft_id_known [OF inj] by force
  have "card us = length ids"
    using ids inj_on_subset [OF inj ids(3)] by (metis card_image distinct_card)
  moreover have "set (ra_voter_ids api r') = set ids" using law r' by (simp add: membership_law_def)
  ultimately show ?thesis using ret by (simp add: v c' voters_def voter_change_result_def)
qed



section \<open>Cluster identity\<close>

text \<open>The identity is written once: afterwards every initialisation is refused and the identity stays,
  and a node joins exactly with its cluster identifier and CA fingerprint.\<close>

lemma identity_written_once:
  "fst (identity_initialize su i None) = Inr ()"
  "snd (fold (\<lambda>j (_, st). identity_initialize su j st) js (identity_initialize su i None)) = Some i"
proof -
  show "fst (identity_initialize su i None) = Inr ()" by (simp add: identity_initialize_def)
  have "snd r = Some i \<Longrightarrow> snd (fold (\<lambda>j (_, st). identity_initialize su j st) js r) = Some i" for r
    by (induction js arbitrary: r) (auto simp: identity_initialize_def)
  then show "snd (fold (\<lambda>j (_, st). identity_initialize su j st) js (identity_initialize su i None)) = Some i"
    by (simp add: identity_initialize_def)
qed

lemma join_iff:
  "validate_node_join su st fp cid = Inr () \<longleftrightarrow> (\<exists>i. st = Some i \<and> ci_cluster_id i = cid \<and> ci_ca_fingerprint i = fp)"
  by (auto simp: validate_node_join_def split: option.splits if_splits)

end
