(* ===== verification/Storage_Replication.thy ===== *)
theory Storage_Replication
  imports Registry Snapshots Cluster_Membership
begin

text \<open>
  Replication of volumes between nodes: the sync cycle of \<open>crates/picloud-storage/src/replication.rs\<close>
  and the two handlers it calls on a peer (\<open>handle_storage_manifest\<close> and \<open>handle_storage_sync\<close> of
  \<open>crates/picloud-http/src/implementation.rs\<close>). A node is its disk, the modification times of its files
  in seconds, its configured storage path and its clock. The walks over directories take fuel as in
  \<open>Snapshots\<close>; running out is the value None. The HTTP client and server (reqwest, axum) and base64 are
  a record of functions: what a request can meet on its way, which volume name the path extractor
  gives for a name put into the URL, which bodies are over the size limit of the JSON extractor.
  During a cycle the disk of the pushing node does not change.
\<close>

section \<open>Data\<close>

record sync_request =
  sr_files :: "sync_file_entry list"

record node =
  nd_fs :: fs
  nd_modified :: "path \<Rightarrow> int"
  nd_storage_path :: "path option"
  nd_clock :: int

text \<open>\<open>to_string_lossy\<close>: each maximal part of an ill-formed sequence is replaced by U+FFFD.\<close>

definition is_cont :: "char \<Rightarrow> bool" where
  "is_cont c \<longleftrightarrow> (let b = (of_char c :: nat) in 128 \<le> b \<and> b \<le> 191)"

definition second_ok :: "nat \<Rightarrow> char \<Rightarrow> bool" where
  "second_ok b c \<longleftrightarrow>
     is_cont c \<and> (b = 224 \<longrightarrow> 160 \<le> (of_char c :: nat)) \<and> (b = 237 \<longrightarrow> (of_char c :: nat) \<le> 159) \<and>
     (b = 240 \<longrightarrow> 144 \<le> (of_char c :: nat)) \<and> (b = 244 \<longrightarrow> (of_char c :: nat) \<le> 143)"

definition replacement :: string where
  "replacement = [CHR 0xEF, CHR 0xBF, CHR 0xBD]"

fun to_string_lossy :: "string \<Rightarrow> string" where
  "to_string_lossy [] = []"
| "to_string_lossy (a # s) =
     (let b = (of_char a :: nat) in
      if b < 128 then a # to_string_lossy s
      else if 194 \<le> b \<and> b \<le> 223 then
        (case s of
           c # r \<Rightarrow> if is_cont c then a # c # to_string_lossy r else replacement @ to_string_lossy s
         | [] \<Rightarrow> replacement)
      else if 224 \<le> b \<and> b \<le> 239 then
        (case s of
           c # d # r \<Rightarrow>
             if \<not> second_ok b c then replacement @ to_string_lossy s
             else if is_cont d then a # c # d # to_string_lossy r
             else replacement @ to_string_lossy (d # r)
         | [c] \<Rightarrow> if second_ok b c then replacement else replacement @ to_string_lossy s
         | [] \<Rightarrow> replacement)
      else if 240 \<le> b \<and> b \<le> 244 then
        (case s of
           c # d # e # r \<Rightarrow>
             if \<not> second_ok b c then replacement @ to_string_lossy s
             else if \<not> is_cont d then replacement @ to_string_lossy (d # e # r)
             else if is_cont e then a # c # d # e # to_string_lossy r
             else replacement @ to_string_lossy (e # r)
         | [c, d] \<Rightarrow>
             if \<not> second_ok b c then replacement @ to_string_lossy s
             else if is_cont d then replacement
             else replacement @ to_string_lossy [d]
         | [c] \<Rightarrow> if second_ok b c then replacement else replacement @ to_string_lossy s
         | [] \<Rightarrow> replacement)
      else replacement @ to_string_lossy s)"

section \<open>Manifests\<close>

text \<open>\<open>is_file\<close> and the size and time of \<open>fs::metadata\<close>; a time before the epoch counts as zero.\<close>

definition path_file :: "fs \<Rightarrow> path \<Rightarrow> (path \<times> string) option" where
  "path_file f p =
     Option.bind (resolve f p) (\<lambda>q. if is_dir f q then None else map_option (Pair q) (file_at f q))"

definition mtime_secs :: "int \<Rightarrow> int" where
  "mtime_secs t = (if t < 0 then 0 else t)"

definition relative_to :: "path \<Rightarrow> path \<Rightarrow> string" where
  "relative_to base p =
     to_string_lossy (if below base p then join ''/'' (drop (length base) p) else show_path p)"

primrec collect_files ::
  "disk_io \<Rightarrow> nat \<Rightarrow> node \<Rightarrow> path \<Rightarrow> path \<Rightarrow> manifest_entry list \<Rightarrow> manifest_entry list option" where
  "collect_files io 0 nd base dir out = None"
| "collect_files io (Suc n) nd base dir out =
     (case fs_read_dir io (nd_fs nd) dir of
        Inl _ \<Rightarrow> Some out
      | Inr names \<Rightarrow>
          foldl (\<lambda>acc x. Option.bind acc (\<lambda>out.
              if path_is_dir (nd_fs nd) (dir @ [x]) then collect_files io n nd base (dir @ [x]) out
              else case path_file (nd_fs nd) (dir @ [x]) of
                     None \<Rightarrow> Some out
                   | Some (q, d) \<Rightarrow>
                       Some (out @ [\<lparr>me_path = relative_to base (dir @ [x]), me_size = of_nat (length d),
                                     me_mtime = mtime_secs (nd_modified nd q)\<rparr>])))
            (Some out) names)"

definition build_manifest :: "disk_io \<Rightarrow> node \<Rightarrow> string \<Rightarrow> path \<Rightarrow> volume_manifest option" where
  "build_manifest io nd volume_name volume_path =
     map_option (\<lambda>files. \<lparr>vm_volume = volume_name, vm_files = files\<rparr>)
       (if path_is_dir (nd_fs nd) volume_path
        then collect_files io (dir_fuel (nd_fs nd)) nd volume_path volume_path [] else Some [])"

section \<open>The peer's handlers\<close>

text \<open>The HTTP crate has a manifest builder of its own; the lemma below says that the two agree.\<close>

primrec collect_volume_files ::
  "disk_io \<Rightarrow> nat \<Rightarrow> node \<Rightarrow> path \<Rightarrow> path \<Rightarrow> manifest_entry list \<Rightarrow> manifest_entry list option" where
  "collect_volume_files io 0 nd base dir out = None"
| "collect_volume_files io (Suc n) nd base dir out =
     (case fs_read_dir io (nd_fs nd) dir of
        Inl _ \<Rightarrow> Some out
      | Inr names \<Rightarrow>
          foldl (\<lambda>acc x. Option.bind acc (\<lambda>out.
              if path_is_dir (nd_fs nd) (dir @ [x]) then collect_volume_files io n nd base (dir @ [x]) out
              else case path_file (nd_fs nd) (dir @ [x]) of
                     None \<Rightarrow> Some out
                   | Some (q, d) \<Rightarrow>
                       Some (out @ [\<lparr>me_path = relative_to base (dir @ [x]), me_size = of_nat (length d),
                                     me_mtime = mtime_secs (nd_modified nd q)\<rparr>])))
            (Some out) names)"

definition build_volume_manifest :: "disk_io \<Rightarrow> node \<Rightarrow> string \<Rightarrow> path \<Rightarrow> volume_manifest option" where
  "build_volume_manifest io nd volume_name volume_path =
     map_option (\<lambda>files. \<lparr>vm_volume = volume_name, vm_files = files\<rparr>)
       (if path_is_dir (nd_fs nd) volume_path
        then collect_volume_files io (dir_fuel (nd_fs nd)) nd volume_path volume_path [] else Some [])"

text \<open>A status and, where the handler sends one, the value of the body.\<close>

definition handle_storage_manifest :: "disk_io \<Rightarrow> string \<Rightarrow> node \<Rightarrow> (nat \<times> volume_manifest option) option" where
  "handle_storage_manifest io volume nd =
     (case nd_storage_path nd of
        None \<Rightarrow> Some (503, None)
      | Some storage_path \<Rightarrow>
          map_option (\<lambda>m. (200, Some m)) (build_volume_manifest io nd volume (path_join storage_path volume)))"

text \<open>\<open>fs::write\<close> sets the modification time, also when it fails after it has changed the file.\<close>

definition node_write :: "disk_io \<Rightarrow> path \<Rightarrow> string \<Rightarrow> node \<Rightarrow> (string + unit) \<times> node" where
  "node_write io p d nd =
     (case fs_write io p d (nd_fs nd) of
        (r, f) \<Rightarrow>
          (r, case resolve (nd_fs nd) p of
                None \<Rightarrow> nd\<lparr>nd_fs := f\<rparr>
              | Some q \<Rightarrow>
                  if r = Inr () \<or> file_at f q \<noteq> file_at (nd_fs nd) q
                  then nd\<lparr>nd_fs := f, nd_modified := (nd_modified nd)(q := nd_clock nd)\<rparr>
                  else nd\<lparr>nd_fs := f\<rparr>))"

definition node_create_dir_all :: "disk_io \<Rightarrow> path \<Rightarrow> node \<Rightarrow> (string + unit) \<times> node" where
  "node_create_dir_all io p nd = (case fs_create_dir_all io p (nd_fs nd) of (r, f) \<Rightarrow> (r, nd\<lparr>nd_fs := f\<rparr>))"

record transport =
  tr_get :: "string \<Rightarrow> string option"
  tr_post :: "string \<Rightarrow> string option"
  tr_answer :: "string \<Rightarrow> string option"
  tr_manifest_ok :: "volume_manifest \<Rightarrow> bool"
  tr_segment :: "string \<Rightarrow> string option"
  tr_too_large :: "sync_request \<Rightarrow> bool"
  tr_b64_encode :: "string \<Rightarrow> string"
  tr_b64_decode :: "string \<Rightarrow> string + string"

definition sync_file :: "transport \<Rightarrow> disk_io \<Rightarrow> path \<Rightarrow> sync_file_entry \<Rightarrow> node \<Rightarrow> (string + unit) \<times> node" where
  "sync_file tr io volume_path e nd =
     (let file_path = path_join volume_path (sf_path e)
      in case (case path_parent file_path of
                 Some parent \<Rightarrow> node_create_dir_all io parent nd
               | None \<Rightarrow> (Inr (), nd)) of
           (Inl err, nd) \<Rightarrow> (Inl (sf_path e @ '': '' @ err), nd)
         | (Inr _, nd) \<Rightarrow>
             (case tr_b64_decode tr (sf_data e) of
                Inl err \<Rightarrow> (Inl (sf_path e @ '': base64 decode error: '' @ err), nd)
              | Inr data \<Rightarrow>
                  (case node_write io file_path data nd of
                     (Inl err, nd) \<Rightarrow> (Inl (sf_path e @ '': write error: '' @ err), nd)
                   | (Inr _, nd) \<Rightarrow> (Inr (), nd))))"

fun sync_files ::
  "transport \<Rightarrow> disk_io \<Rightarrow> path \<Rightarrow> sync_file_entry list \<Rightarrow> nat \<Rightarrow> string list \<Rightarrow> node \<Rightarrow> (nat \<times> string list) \<times> node" where
  "sync_files tr io volume_path [] synced errors nd = ((synced, errors), nd)"
| "sync_files tr io volume_path (e # es) synced errors nd =
     (case sync_file tr io volume_path e nd of
        (Inl err, nd) \<Rightarrow> sync_files tr io volume_path es synced (errors @ [err]) nd
      | (Inr _, nd) \<Rightarrow> sync_files tr io volume_path es (Suc synced) errors nd)"

record sync_answer =
  sa_status :: nat
  sa_synced :: nat
  sa_errors :: "string list"

definition handle_storage_sync :: "transport \<Rightarrow> disk_io \<Rightarrow> string \<Rightarrow> sync_request \<Rightarrow> node \<Rightarrow> sync_answer \<times> node" where
  "handle_storage_sync tr io volume body nd =
     (case nd_storage_path nd of
        None \<Rightarrow> (\<lparr>sa_status = 503, sa_synced = 0, sa_errors = [''Storage path not configured'']\<rparr>, nd)
      | Some storage_path \<Rightarrow>
          let volume_path = path_join storage_path volume
          in case node_create_dir_all io volume_path nd of
               (Inl e, nd) \<Rightarrow>
                 (\<lparr>sa_status = 500, sa_synced = 0, sa_errors = [''Failed to create volume directory: '' @ e]\<rparr>, nd)
             | (Inr _, nd) \<Rightarrow>
                 (case sync_files tr io volume_path (sr_files body) 0 [] nd of
                    ((synced, errors), nd) \<Rightarrow>
                      (\<lparr>sa_status = (if errors = [] then 200 else 207), sa_synced = synced, sa_errors = errors\<rparr>, nd)))"

section \<open>The sync cycle\<close>

definition base_url :: "string \<Rightarrow> string" where
  "base_url peer_addr = (if starts_with peer_addr ''http'' then peer_addr else ''http://'' @ peer_addr)"

definition is_success :: "nat \<Rightarrow> bool" where
  "is_success status \<longleftrightarrow> 200 \<le> status \<and> status \<le> 299"

text \<open>The nodes that answer at a base URL, and what each one's disk does.\<close>

type_synonym world = "(string \<times> node) list"

definition empty_manifest :: "string \<Rightarrow> volume_manifest" where
  "empty_manifest volume = \<lparr>vm_volume = volume, vm_files = []\<rparr>"

text \<open>The GET request: the outer None is exhausted fuel, the inner one a request that failed, after
  which the cycle skips the peer.\<close>

definition fetch_manifest ::
  "transport \<Rightarrow> (string \<Rightarrow> disk_io) \<Rightarrow> string \<Rightarrow> string \<Rightarrow> world \<Rightarrow> volume_manifest option option" where
  "fetch_manifest tr ios url volume w =
     (case map_of w url of
        None \<Rightarrow> Some None
      | Some nd \<Rightarrow>
          if tr_get tr url \<noteq> None then Some None
          else case tr_segment tr volume of
            None \<Rightarrow> Some (Some (empty_manifest volume))
          | Some seg \<Rightarrow>
              (case handle_storage_manifest (ios url) seg nd of
                 None \<Rightarrow> None
               | Some (status, body) \<Rightarrow>
                   Some (Some
                     (if is_success status
                      then (case body of Some m \<Rightarrow> if tr_manifest_ok tr m then m else empty_manifest volume
                                       | None \<Rightarrow> empty_manifest volume)
                      else empty_manifest volume))))"

text \<open>\<open>collect\<close> into a \<open>HashMap\<close>: the last entry for a path counts.\<close>

definition needs_sync :: "volume_manifest \<Rightarrow> manifest_entry \<Rightarrow> bool" where
  "needs_sync remote local_file =
     (case map_of (rev (map (\<lambda>f. (me_path f, f)) (vm_files remote))) (me_path local_file) of
        Some remote_file \<Rightarrow> me_mtime local_file > me_mtime remote_file
      | None \<Rightarrow> True)"

fun files_to_sync ::
  "transport \<Rightarrow> disk_io \<Rightarrow> node \<Rightarrow> path \<Rightarrow> volume_manifest \<Rightarrow> manifest_entry list \<Rightarrow> sync_file_entry list" where
  "files_to_sync tr io nd volume_path remote [] = []"
| "files_to_sync tr io nd volume_path remote (l # ls) =
     (if needs_sync remote l then
        (case fs_read io (nd_fs nd) (path_join volume_path (me_path l)) of
           Inr data \<Rightarrow> \<lparr>sf_path = me_path l, sf_data = tr_b64_encode tr data\<rparr>
                        # files_to_sync tr io nd volume_path remote ls
         | Inl _ \<Rightarrow> files_to_sync tr io nd volume_path remote ls)
      else files_to_sync tr io nd volume_path remote ls)"

text \<open>The POST request. The answer is only logged; a lost answer leaves the peer's disk changed.\<close>

definition push_files ::
  "transport \<Rightarrow> (string \<Rightarrow> disk_io) \<Rightarrow> string \<Rightarrow> string \<Rightarrow> sync_request \<Rightarrow> world \<Rightarrow> (string + nat) \<times> world" where
  "push_files tr ios url volume body w =
     (case map_of w url of
        None \<Rightarrow> (Inl ''connection refused'', w)
      | Some nd \<Rightarrow>
          (case tr_post tr url of
             Some e \<Rightarrow> (Inl e, w)
           | None \<Rightarrow>
               (case tr_segment tr volume of
                  None \<Rightarrow> (Inr 404, w)
                | Some seg \<Rightarrow>
                    if tr_too_large tr body then (Inr 413, w)
                    else case handle_storage_sync tr (ios url) seg body nd of
                           (a, nd) \<Rightarrow>
                             (case tr_answer tr url of Some e \<Rightarrow> Inl e | None \<Rightarrow> Inr (sa_status a), hm_insert url nd w))))"

definition sync_volume_to_peer ::
  "transport \<Rightarrow> disk_io \<Rightarrow> (string \<Rightarrow> disk_io) \<Rightarrow> node \<Rightarrow> string \<Rightarrow> path \<Rightarrow> volume_manifest \<Rightarrow> node_info \<Rightarrow> world \<Rightarrow> world option" where
  "sync_volume_to_peer tr io ios nd volume_name volume_path local_manifest peer w =
     (let url = base_url (ni_address peer)
      in case fetch_manifest tr ios url volume_name w of
           None \<Rightarrow> None
         | Some None \<Rightarrow> Some w
         | Some (Some remote) \<Rightarrow>
             let files = files_to_sync tr io nd volume_path remote (vm_files local_manifest)
             in if files = [] then Some w
                else Some (snd (push_files tr ios url volume_name \<lparr>sr_files = files\<rparr> w)))"

definition list_volume_dirs :: "disk_io \<Rightarrow> node \<Rightarrow> path \<Rightarrow> string + (string \<times> path) list" where
  "list_volume_dirs io nd storage_path =
     (if \<not> path_exists (nd_fs nd) storage_path then Inr []
      else case fs_read_dir io (nd_fs nd) storage_path of
        Inl e \<Rightarrow> Inl (''Failed to read storage directory: '' @ e)
      | Inr names \<Rightarrow>
          Inr (map (\<lambda>x. (x, storage_path @ [x]))
            (filter (\<lambda>x. path_is_dir (nd_fs nd) (storage_path @ [x]) \<and> utf8_ok (map of_char x)) names)))"

definition sync_volume ::
  "transport \<Rightarrow> disk_io \<Rightarrow> (string \<Rightarrow> disk_io) \<Rightarrow> node \<Rightarrow> node_info list \<Rightarrow> string \<times> path \<Rightarrow> world \<Rightarrow> world option" where
  "sync_volume tr io ios nd peers v w =
     (case build_manifest io nd (fst v) (snd v) of
        None \<Rightarrow> None
      | Some local_manifest \<Rightarrow>
          foldl (\<lambda>acc peer. Option.bind acc (sync_volume_to_peer tr io ios nd (fst v) (snd v) local_manifest peer))
            (Some w) peers)"

definition run_sync_cycle ::
  "(uuid \<Rightarrow> string) \<Rightarrow> transport \<Rightarrow> disk_io \<Rightarrow> (string \<Rightarrow> disk_io) \<Rightarrow> node \<Rightarrow> path \<Rightarrow> node_info list result \<Rightarrow> uuid \<Rightarrow> world
   \<Rightarrow> (string + unit) option \<times> world" where
  "run_sync_cycle u tr io ios nd storage_path cluster_members local_node_id w =
     (case list_volume_dirs io nd storage_path of
        Inl e \<Rightarrow> (Some (Inl e), w)
      | Inr volumes \<Rightarrow>
          if volumes = [] then (Some (Inr ()), w)
          else case cluster_members of
            Inl e \<Rightarrow> (Some (Inl (''Failed to get cluster members: '' @ show_error u e)), w)
          | Inr ms \<Rightarrow>
              let peers = filter (\<lambda>m. ni_node_id m \<noteq> local_node_id) ms
              in if peers = [] then (Some (Inr ()), w)
                 else case foldl (\<lambda>acc v. Option.bind acc (sync_volume tr io ios nd peers v)) (Some w) volumes of
                        None \<Rightarrow> (None, w)
                      | Some w \<Rightarrow> (Some (Inr ()), w))"
lemma collect_volume_files_same: "collect_volume_files io n nd base dir out = collect_files io n nd base dir out"
proof (induction n arbitrary: dir out)
  case (Suc n)
  then have "collect_volume_files io n nd base = collect_files io n nd base" by (intro ext)
  then show ?case by (simp only: collect_volume_files.simps collect_files.simps)
qed simp

lemma build_volume_manifest_same [simp]: "build_volume_manifest = build_manifest"
  by (intro ext) (simp add: build_volume_manifest_def build_manifest_def collect_volume_files_same)

section \<open>Names\<close>

lemma cont_simps:
  "is_cont c \<longleftrightarrow> 128 \<le> (of_char c :: nat) \<and> (of_char c :: nat) \<le> 191"
  by (simp add: is_cont_def Let_def)

lemma lossy_valid: "utf8_ok (map of_char s) \<Longrightarrow> to_string_lossy s = s"
proof (induction "length s" arbitrary: s rule: less_induct)
  case less
  show ?case
  proof (cases s)
    case (Cons a t)
    note ok = less.prems [unfolded Cons list.map utf8_ok.simps Let_def]
    have IH: "to_string_lossy u = u" if "utf8_ok (map of_char u)" "length u \<le> length t" for u
      using less.hyps [of u] that Cons by simp
    consider "(of_char a :: nat) < 128" | "194 \<le> (of_char a :: nat)" "(of_char a :: nat) \<le> 223"
      | "224 \<le> (of_char a :: nat)" "(of_char a :: nat) \<le> 239" | "240 \<le> (of_char a :: nat)" "(of_char a :: nat) \<le> 244"
      using ok by (simp split: if_splits)
    then show ?thesis
    proof cases
      case 1
      with ok IH [of t] Cons show ?thesis by simp
    next
      case 2
      with ok obtain c r where "t = c # r" "is_cont c" "utf8_ok (map of_char r)"
        by (cases t) (auto simp: cont_simps)
      with 2 IH [of r] Cons show ?thesis by simp
    next
      case 3
      with ok obtain c d r where "t = c # d # r" "second_ok (of_char a) c" "is_cont d" "utf8_ok (map of_char r)"
        by (cases t; cases "tl t") (auto simp: cont_simps second_ok_def)
      with 3 IH [of r] Cons show ?thesis by simp
    next
      case 4
      with ok obtain c d e r where "t = c # d # e # r" "second_ok (of_char a) c" "is_cont d" "is_cont e"
        "utf8_ok (map of_char r)"
        by (cases t; cases "tl t"; cases "tl (tl t)") (auto simp: cont_simps second_ok_def)
      with 4 IH [of r] Cons show ?thesis by simp
    qed
  qed simp
qed

lemma split_join:
  assumes "list_all plain r" "r \<noteq> []"
  shows "split_on slash (join ''/'' r) = r"
  using assms
proof (induction "''/''" r rule: join.induct)
  case (2 w)
  then show ?case by (simp add: plain_def split_on_none)
next
  case (3 w v ws)
  then show ?case by (simp add: plain_def split_on_app)
qed simp

lemma join_relative:
  assumes "list_all plain r" "r \<noteq> []"
  shows "path_join p (join ''/'' r) = p @ r"
proof -
  have "\<not> starts_with (join ''/'' r) ''/''"
    using assms by (cases r; cases "hd r"; cases "tl r") (auto simp: plain_def starts_with_def)
  then show ?thesis by (simp add: path_join_def split_join [OF assms])
qed

lemma join_inj: "list_all plain r \<Longrightarrow> list_all plain s \<Longrightarrow> r \<noteq> [] \<Longrightarrow> s \<noteq> [] \<Longrightarrow> join ''/'' r = join ''/'' s \<longleftrightarrow> r = s"
  using split_join by metis

section \<open>The manifest lists the files of the volume\<close>

definition utf8_tree :: "fs \<Rightarrow> path \<Rightarrow> bool" where
  "utf8_tree f p \<longleftrightarrow> (\<forall>r. file_at f (p @ r) \<noteq> None \<longrightarrow> utf8_ok (map of_char (join ''/'' r)))"

definition file_entry :: "node \<Rightarrow> path \<Rightarrow> path \<Rightarrow> string \<Rightarrow> manifest_entry" where
  "file_entry nd base r d =
     \<lparr>me_path = join ''/'' r, me_size = of_nat (length d), me_mtime = mtime_secs (nd_modified nd (base @ r))\<rparr>"

definition entries_of :: "node \<Rightarrow> path \<Rightarrow> path set \<Rightarrow> manifest_entry set" where
  "entries_of nd base R = {file_entry nd base r d |r d. r \<in> R \<and> file_at (nd_fs nd) (base @ r) = Some d}"

lemma entries_of_Un: "entries_of nd base (R \<union> S) = entries_of nd base R \<union> entries_of nd base S"
  by (auto simp: entries_of_def)

lemma file_not_dir: "clean f \<Longrightarrow> is_dir f p \<Longrightarrow> file_at f p = None"
  using wf_fs_file [of f p] by (cases "file_at f p") (auto simp: clean_def)

lemma under_file: "clean f \<Longrightarrow> file_at f p \<noteq> None \<Longrightarrow> file_at f (p @ x # r) = None"
proof (induction r rule: rev_induct)
  case Nil
  have "\<not> is_dir f p" using file_not_dir [of f p] Nil by auto
  then show ?case using clean_closed [OF Nil(1), of "[]"] unfolding closed_below_def by (metis append_Nil)
next
  case (snoc y r)
  have "\<not> is_dir f (p @ x # r)"
    using clean_prefix [OF snoc.prems(1), of p "x # r"] file_not_dir [of f p] snoc.prems by auto
  then show ?case using clean_closed [OF snoc.prems(1), of "[]"] unfolding closed_below_def
    by (metis append.assoc append_Cons append_Nil)
qed

lemma file_parent: "clean f \<Longrightarrow> file_at f (p @ [x]) \<noteq> None \<Longrightarrow> is_dir f p \<and> plain x"
  using clean_closed [of f "[]"] unfolding closed_below_def by (metis append_Nil)

lemma file_plain:
  assumes "clean f" "file_at f (p @ r) \<noteq> None" "is_dir f p"
  shows "r \<noteq> [] \<and> list_all plain r \<and> is_dir f (p @ butlast r)"
proof (cases r rule: rev_cases)
  case Nil
  with assms file_not_dir show ?thesis by auto
next
  case (snoc s x)
  then have "is_dir f (p @ s)" "plain x" using file_parent [OF assms(1), of "p @ s" x] assms(2) by simp_all
  with snoc clean_prefix [OF assms(1), of p s] show ?thesis by simp
qed

lemma listed_child:
  assumes "clean f" "is_dir f p" "file_at f (p @ x # r) \<noteq> None"
  shows "x \<in> set (children f p)"
proof (cases "r = []")
  case True
  with assms show ?thesis by (simp add: set_children)
next
  case False
  then have "is_dir f ((p @ [x]) @ butlast r)"
    using file_plain [OF assms(1), of p "x # r"] assms(2,3) by auto
  then have "is_dir f (p @ [x])" using clean_prefix [OF assms(1)] by blast
  then show ?thesis by (simp add: set_children is_dir_def)
qed

lemma collect_child_file:
  assumes "clean (nd_fs nd)" "is_dir (nd_fs nd) (base @ t)" "plain x" "\<not> is_dir (nd_fs nd) (base @ t @ [x])"
    "utf8_tree (nd_fs nd) base"
  shows "(case path_file (nd_fs nd) ((base @ t) @ [x]) of
      None \<Rightarrow> Some out
    | Some (q, d) \<Rightarrow> Some (out @ [\<lparr>me_path = relative_to base ((base @ t) @ [x]), me_size = of_nat (length d),
                          me_mtime = mtime_secs (nd_modified nd q)\<rparr>])) =
    Some (case file_at (nd_fs nd) (base @ t @ [x]) of None \<Rightarrow> out | Some d \<Rightarrow> out @ [file_entry nd base (t @ [x]) d])"
proof -
  have "resolve (nd_fs nd) ((base @ t) @ [x]) = Some ((base @ t) @ [x])"
    using resolve_child [OF clean_chain [OF assms(1,2)] assms(3)] .
  moreover have "to_string_lossy (join ''/'' (t @ [x])) = join ''/'' (t @ [x])"
    if "file_at (nd_fs nd) (base @ t @ [x]) = Some d" for d
    using assms(5) that by (intro lossy_valid) (simp add: utf8_tree_def)
  ultimately show ?thesis
    using assms(4) by (auto simp: path_file_def relative_to_def file_entry_def split: option.splits)
qed
lemma entries_child_file:
  assumes "clean (nd_fs nd)" "\<not> is_dir (nd_fs nd) (base @ t @ [x])"
  shows "entries_of nd base (range (\<lambda>r. t @ x # r)) =
    (case file_at (nd_fs nd) (base @ t @ [x]) of None \<Rightarrow> {} | Some d \<Rightarrow> {file_entry nd base (t @ [x]) d})"
proof -
  have "file_at (nd_fs nd) (base @ t @ x # y # r) = None" for y r
  proof (cases "file_at (nd_fs nd) (base @ t @ [x])")
    case None
    then show ?thesis using empty_below_absent [OF assms(1,2)] unfolding empty_below_def by (metis append.assoc append_Cons append_Nil)
  next
    case (Some d)
    then show ?thesis using under_file [OF assms(1), of "base @ t @ [x]" y r] by simp
  qed
  then have r: "r = []" if "file_at (nd_fs nd) (base @ t @ x # r) = Some d" for r d
    using that by (cases r) auto
  have "entries_of nd base (range (\<lambda>r. t @ x # r)) = {file_entry nd base (t @ [x]) d |d. file_at (nd_fs nd) (base @ t @ [x]) = Some d}"
    unfolding entries_of_def using r by blast
  then show ?thesis by (simp split: option.splits)
qed

lemma collect_exact:
  assumes "clean (nd_fs nd)" "utf8_tree (nd_fs nd) base"
  shows "is_dir (nd_fs nd) (base @ t) \<Longrightarrow> (\<And>r. is_dir (nd_fs nd) (base @ t @ r) \<Longrightarrow> length r < n) \<Longrightarrow>
    \<exists>es. collect_files ok_io n nd base (base @ t) out = Some es \<and>
         set es = set out \<union> entries_of nd base (range (\<lambda>r. t @ r))"
proof (induction n arbitrary: t out)
  case 0
  then show ?case using 0(2) [of "[]"] by simp
next
  case (Suc n)
  let ?f = "nd_fs nd"
  let ?step = "\<lambda>acc x. Option.bind acc (\<lambda>out.
              if path_is_dir ?f ((base @ t) @ [x]) then collect_files ok_io n nd base ((base @ t) @ [x]) out
              else case path_file ?f ((base @ t) @ [x]) of
                     None \<Rightarrow> Some out
                   | Some (q, d) \<Rightarrow>
                       Some (out @ [\<lparr>me_path = relative_to base ((base @ t) @ [x]), me_size = of_nat (length d),
                                     me_mtime = mtime_secs (nd_modified nd q)\<rparr>]))"
  have chain: "dir_chain ?f (base @ t)" using clean_chain [OF assms(1) Suc.prems(1)] .
  have one: "\<exists>es. ?step (Some out) x = Some es \<and> set es = set out \<union> entries_of nd base (range (\<lambda>r. t @ x # r))"
    if "x \<in> set (children ?f (base @ t))" for x out
  proof -
    have x: "plain x" using clean_file_plain [OF assms(1) Suc.prems(1) that] .
    then have d: "path_is_dir ?f ((base @ t) @ [x]) \<longleftrightarrow> is_dir ?f (base @ t @ [x])"
      using resolve_child [OF chain x] by (simp add: path_is_dir_def)
    show ?thesis
    proof (cases "is_dir ?f (base @ t @ [x])")
      case True
      have "is_dir ?f (base @ (t @ [x]) @ r) \<Longrightarrow> length r < n" for r using Suc.prems(2) [of "x # r"] by simp
      with Suc.IH [of "t @ [x]" out] True d show ?thesis by simp
    next
      case False
      then show ?thesis
        using d collect_child_file [OF assms(1) Suc.prems(1) x False assms(2)] entries_child_file [OF assms(1) False]
        by (auto split: option.splits)
    qed
  qed
  have loop: "\<exists>es. foldl ?step (Some out) names = Some es \<and>
      set es = set out \<union> entries_of nd base (\<Union>x \<in> set names. range (\<lambda>r. t @ x # r))"
    if "set names \<subseteq> set (children ?f (base @ t))" for names out
    using that
  proof (induction names arbitrary: out)
    case Nil
    then show ?case by (simp add: entries_of_def)
  next
    case (Cons x names)
    obtain es where es: "?step (Some out) x = Some es" "set es = set out \<union> entries_of nd base (range (\<lambda>r. t @ x # r))"
      using one Cons.prems by fastforce
    with Cons.IH [of es] Cons.prems show ?case by (auto simp: entries_of_Un)
  qed
  have all: "entries_of nd base (\<Union>x \<in> set (children ?f (base @ t)). range (\<lambda>r. t @ x # r)) = entries_of nd base (range (\<lambda>r. t @ r))"
  proof -
    have "\<exists>x s. x \<in> set (children ?f (base @ t)) \<and> r = x # s" if "file_at ?f (base @ t @ r) = Some d" for r d
    proof (cases r)
      case Nil
      with that file_not_dir [OF assms(1) Suc.prems(1)] show ?thesis by simp
    next
      case (Cons x s)
      with that listed_child [OF assms(1) Suc.prems(1), of x s] show ?thesis by simp
    qed
    then show ?thesis unfolding entries_of_def by fastforce
  qed
  have "fs_read_dir ok_io ?f (base @ t) = Inr (children ?f (base @ t))"
    using resolve_chain [OF chain] Suc.prems(1) by (simp add: fs_read_dir_def ok_io_def)
  then show ?case using loop [of "children ?f (base @ t)" out] all by simp
qed

lemma build_manifest_exact:
  assumes "clean (nd_fs nd)" "utf8_tree (nd_fs nd) p" "list_all plain p" "file_at (nd_fs nd) p = None"
  shows "\<exists>m. build_manifest ok_io nd v p = Some m \<and> set (vm_files m) = entries_of nd p UNIV"
proof (cases "is_dir (nd_fs nd) p")
  case True
  obtain es where "collect_files ok_io (dir_fuel (nd_fs nd)) nd p p [] = Some es" "set es = entries_of nd p UNIV"
    using collect_exact [OF assms(1,2), of "[]" "dir_fuel (nd_fs nd)" "[]"] clean_depth [OF assms(1), of p] True by auto
  moreover have "path_is_dir (nd_fs nd) p" using resolve_chain [OF clean_chain [OF assms(1) True]] True by (simp add: path_is_dir_def)
  ultimately show ?thesis by (simp add: build_manifest_def)
next
  case False
  have "\<not> path_is_dir (nd_fs nd) p" using resolve_plain [OF assms(3)] False by (auto simp: path_is_dir_def split: option.splits)
  moreover have "entries_of nd p UNIV = {}"
    using empty_below_absent [OF assms(1) False assms(4)] by (auto simp: entries_of_def empty_below_def)
  ultimately show ?thesis by (simp add: build_manifest_def)
qed

lemma manifest_lookup:
  assumes "\<forall>e \<in> set es. \<forall>e' \<in> set es. me_path e = me_path e' \<longrightarrow> e = e'"
  shows "map_of (rev (map (\<lambda>f. (me_path f, f)) es)) p = Some e \<longleftrightarrow> e \<in> set es \<and> me_path e = p"
proof
  assume "map_of (rev (map (\<lambda>f. (me_path f, f)) es)) p = Some e"
  from map_of_SomeD [OF this] show "e \<in> set es \<and> me_path e = p" by auto
next
  assume e: "e \<in> set es \<and> me_path e = p"
  then have "map_of (rev (map (\<lambda>f. (me_path f, f)) es)) p \<noteq> None" by (auto simp: map_of_eq_None_iff image_image)
  then obtain e' where e': "map_of (rev (map (\<lambda>f. (me_path f, f)) es)) p = Some e'" by blast
  from map_of_SomeD [OF e'] have "e' \<in> set es" "me_path e' = p" by auto
  with e e' assms show "map_of (rev (map (\<lambda>f. (me_path f, f)) es)) p = Some e" by auto
qed

lemma entries_functional:
  assumes "clean (nd_fs nd)" "is_dir (nd_fs nd) p"
  shows "\<forall>e \<in> entries_of nd p UNIV. \<forall>e' \<in> entries_of nd p UNIV. me_path e = me_path e' \<longrightarrow> e = e'"
proof (intro ballI impI)
  fix e e' assume "e \<in> entries_of nd p UNIV" "e' \<in> entries_of nd p UNIV" and j: "me_path e = me_path e'"
  then obtain r d r' d' where e: "file_at (nd_fs nd) (p @ r) = Some d" "e = file_entry nd p r d"
    "file_at (nd_fs nd) (p @ r') = Some d'" "e' = file_entry nd p r' d'" by (auto simp: entries_of_def)
  then have "r = r'"
    using j join_inj [of r r'] file_plain [OF assms(1) _ assms(2), of r] file_plain [OF assms(1) _ assms(2), of r']
    by (simp add: file_entry_def)
  with e show "e = e'" by simp
qed
section \<open>Writing the files at the peer\<close>

lemma clean_put:
  assumes "clean f" "is_dir f p" "plain c" "\<not> is_dir f (p @ [c])"
  shows "clean (put_file (p @ [c]) d f)"
proof -
  have "plain x \<and> is_dir f r" if "is_dir f (r @ [x]) \<or> r @ [x] = p @ [c] \<or> file_at f (r @ [x]) \<noteq> None" for r x
    using that assms(2,3) clean_closed [OF assms(1), of "[]"] unfolding closed_below_def append_Nil append1_eq_conv by blast
  moreover have "wf_fs (put_file (p @ [c]) d f)" using assms(1,4) by (simp add: clean_def)
  ultimately show ?thesis unfolding clean_def closed_below_def by simp blast
qed

text \<open>The paths to be written can be written: no directory is in the place of a file, no file in the
  place of a directory, neither on the disk nor among the paths themselves.\<close>

definition writable :: "fs \<Rightarrow> path \<Rightarrow> path set \<Rightarrow> bool" where
  "writable f p R \<longleftrightarrow>
     (\<forall>r \<in> R. r \<noteq> [] \<and> list_all plain r \<and> \<not> is_dir f (p @ r) \<and>
        (\<forall>k < length r. file_at f (p @ take k r) = None \<and> take k r \<notin> R))"

lemma writableD:
  assumes "writable f p R" "r \<in> R"
  shows "r \<noteq> []" "list_all plain r" "\<not> is_dir f (p @ r)" "k < length r \<Longrightarrow> file_at f (p @ take k r) = None"
    "k < length r \<Longrightarrow> take k r \<notin> R"
  using assms by (auto simp: writable_def)

text \<open>One file has been written below \<open>p\<close>.\<close>

definition wrote :: "path \<Rightarrow> path \<Rightarrow> string \<Rightarrow> node \<Rightarrow> node \<Rightarrow> bool" where
  "wrote p r d nd nd' \<longleftrightarrow>
     (\<forall>q. file_at (nd_fs nd') q = (if q = p @ r then Some d else file_at (nd_fs nd) q)) \<and>
     (\<forall>q. is_dir (nd_fs nd') q \<longleftrightarrow> is_dir (nd_fs nd) q \<or> (\<exists>k < length r. q = p @ take k r)) \<and>
     (\<forall>q. nd_modified nd' q = (if q = p @ r then nd_clock nd else nd_modified nd q)) \<and>
     nd_storage_path nd' = nd_storage_path nd \<and> nd_clock nd' = nd_clock nd"

lemma writable_wrote:
  assumes "writable (nd_fs nd) p R" "r \<in> R" "wrote p r d nd nd'"
  shows "writable (nd_fs nd') p R"
  unfolding writable_def
proof (intro ballI conjI allI impI)
  fix s assume s: "s \<in> R"
  note w = writableD [OF assms(1)]
  show "s \<noteq> []" "list_all plain s" using w [OF s] by simp_all
  show "\<not> is_dir (nd_fs nd') (p @ s)" using w [OF s] w(5) [OF assms(2)] s assms(3) by (auto simp: wrote_def)
  fix k assume k: "k < length s"
  show "take k s \<notin> R" using w(5) [OF s k] .
  with assms(2) have "take k s \<noteq> r" by blast
  then show "file_at (nd_fs nd') (p @ take k s) = None" using w(4) [OF s k] assms(3) by (simp add: wrote_def)
qed

lemma parent_of_plain:
  assumes "list_all plain (p @ r)" "r \<noteq> []"
  shows "path_parent (p @ r) = Some (p @ butlast r)"
proof -
  have "filter (\<lambda>c. c \<noteq> [] \<and> c \<noteq> ''.'') (p @ r) = p @ r"
    using assms(1) by (intro filter_True) (auto simp: list_all_iff plain_def)
  then show ?thesis using assms(2) by (simp add: path_parent_def Let_def butlast_append)
qed

lemma sync_file_ok:
  assumes "clean (nd_fs nd)" "is_dir (nd_fs nd) p" "writable (nd_fs nd) p R" "r \<in> R" "tr_b64_decode tr s = Inr d"
  shows "\<exists>nd'. sync_file tr ok_io p \<lparr>sf_path = join ''/'' r, sf_data = s\<rparr> nd = (Inr (), nd') \<and>
    clean (nd_fs nd') \<and> wrote p r d nd nd'"
proof -
  note w = writableD [OF assms(3,4)]
  obtain b x where r: "r = b @ [x]" using w(1) by (cases r rule: rev_cases) auto
  have pl: "list_all plain p" using dir_chain_plain [OF clean_chain [OF assms(1,2)]] .
  have plb: "list_all plain b" "plain x" using w(2) r by simp_all
  have pj: "path_join p (join ''/'' r) = p @ r" using join_relative [OF w(2,1)] .
  have pp: "path_parent (p @ r) = Some (p @ b)" using parent_of_plain [of p r] pl w(1,2) r by simp
  have "file_at (nd_fs nd) (take n (p @ b)) = None" for n
  proof (cases "n \<le> length p")
    case True
    then show ?thesis using file_on_chain [OF _ clean_chain [OF assms(1,2)], of n] assms(1) by (simp add: clean_def)
  next
    case False
    have "take (n - length p) b = take (min (n - length p) (length b)) r" using r by (simp add: min_def)
    then show ?thesis using False w(4) [of "min (n - length p) (length b)"] r by simp
  qed
  then obtain g where g: "fs_create_dir_all ok_io (p @ b) (nd_fs nd) = (Inr (), g)" "clean g" "dir_chain g (p @ b)"
    "\<And>q. file_at g q = file_at (nd_fs nd) q" "\<And>q. is_dir g q = (is_dir (nd_fs nd) q \<or> (\<exists>n \<le> length (p @ b). q = take n (p @ b)))"
    using clean_create [OF assms(1), of "p @ b"] pl plb(1) by (metis list_all_append)
  have pre: "is_dir (nd_fs nd) (take n p)" for n
    using clean_prefix [OF assms(1), of "take n p" "drop n p"] assms(2) by simp
  have dirs: "is_dir g q \<longleftrightarrow> is_dir (nd_fs nd) q \<or> (\<exists>k < length r. q = p @ take k r)" for q
  proof -
    have "(\<exists>k < length r. q = p @ take k r)" if "n \<le> length (p @ b)" "q = take n (p @ b)" "\<not> is_dir (nd_fs nd) q" for n
    proof -
      have "\<not> n \<le> length p" using that pre [of n] by auto
      with that r show ?thesis by (intro exI [of _ "n - length p"]) auto
    qed
    moreover have "\<exists>n \<le> length (p @ b). q = take n (p @ b)" if "k < length r" "q = p @ take k r" for k
      using that r by (intro exI [of _ "length p + k"]) simp
    ultimately show ?thesis using g(5) [of q] by blast
  qed
  have nd: "\<not> is_dir g ((p @ b) @ [x])"
    using w(3) r unfolding dirs by (auto dest!: arg_cong [where f = length])
  have rs: "resolve g ((p @ b) @ [x]) = Some ((p @ b) @ [x])" using resolve_child [OF g(3) plb(2)] .
  let ?nd = "nd\<lparr>nd_fs := put_file (p @ r) d g, nd_modified := (nd_modified nd)(p @ r := nd_clock nd)\<rparr>"
  have "node_write ok_io (p @ r) d (nd\<lparr>nd_fs := g\<rparr>) = (Inr (), ?nd)"
    using fs_write_ok [OF g(3) plb(2) nd, of d] rs r by (simp add: node_write_def)
  then have "sync_file tr ok_io p \<lparr>sf_path = join ''/'' r, sf_data = s\<rparr> nd = (Inr (), ?nd)"
    using pj pp g(1) assms(5) by (simp add: sync_file_def node_create_dir_all_def Let_def)
  moreover have "clean (put_file (p @ r) d g)"
    using clean_put [OF g(2) dir_chain_is_dir [OF g(3)] plb(2) nd] r by simp
  moreover have "wrote p r d nd ?nd" using g(4) dirs by (simp add: wrote_def)
  ultimately show ?thesis by auto
qed

text \<open>The files \<open>D r\<close> for the paths \<open>r\<close> of \<open>W\<close> have been written below \<open>p\<close>.\<close>

definition wrote_all :: "path \<Rightarrow> path set \<Rightarrow> (path \<Rightarrow> string option) \<Rightarrow> node \<Rightarrow> node \<Rightarrow> bool" where
  "wrote_all p W D nd nd' \<longleftrightarrow>
     (\<forall>r. file_at (nd_fs nd') (p @ r) = (if r \<in> W then D r else file_at (nd_fs nd) (p @ r))) \<and>
     (\<forall>q. \<not> below p q \<longrightarrow> file_at (nd_fs nd') q = file_at (nd_fs nd) q \<and> is_dir (nd_fs nd') q = is_dir (nd_fs nd) q \<and>
        nd_modified nd' q = nd_modified nd q) \<and>
     (\<forall>r. r \<notin> W \<longrightarrow> nd_modified nd' (p @ r) = nd_modified nd (p @ r)) \<and>
     (\<forall>r \<in> W. nd_modified nd' (p @ r) = nd_clock nd) \<and>
     nd_storage_path nd' = nd_storage_path nd \<and> nd_clock nd' = nd_clock nd \<and>
     (\<forall>q. is_dir (nd_fs nd) q \<longrightarrow> is_dir (nd_fs nd') q)"

lemma wrote_all_refl: "wrote_all p {} D nd nd"
  by (simp add: wrote_all_def)

lemma wrote_all_step:
  assumes "wrote p r d nd nd1" "D r = Some d" "wrote_all p W D nd1 nd2"
  shows "wrote_all p (insert r W) D nd nd2"
  using assms by (auto simp: wrote_all_def wrote_def)

lemma wrote_all_start:
  assumes "wrote_all p W D (nd\<lparr>nd_fs := g\<rparr>) nd'" "\<And>q. file_at g q = file_at (nd_fs nd) q"
    "\<And>q. \<not> below p q \<Longrightarrow> is_dir g q = is_dir (nd_fs nd) q" "\<And>q. is_dir (nd_fs nd) q \<Longrightarrow> is_dir g q"
  shows "wrote_all p W D nd nd'"
  using assms(1) unfolding wrote_all_def by (simp add: assms(2-4))

lemma sync_files_ok:
  assumes "\<And>d. tr_b64_decode tr (tr_b64_encode tr d) = Inr d" "\<forall>r \<in> R. D r \<noteq> None"
  shows "clean (nd_fs nd) \<Longrightarrow> is_dir (nd_fs nd) p \<Longrightarrow> writable (nd_fs nd) p R \<Longrightarrow> set rs \<subseteq> R \<Longrightarrow>
    \<exists>nd'. sync_files tr ok_io p (map (\<lambda>r. \<lparr>sf_path = join ''/'' r, sf_data = tr_b64_encode tr (the (D r))\<rparr>) rs) n errs nd =
            ((n + length rs, errs), nd') \<and>
          clean (nd_fs nd') \<and> wrote_all p (set rs) D nd nd'"
proof (induction rs arbitrary: nd n)
  case Nil
  then show ?case by (simp add: wrote_all_refl)
next
  case (Cons r rs)
  then have r: "r \<in> R" by simp
  then obtain d where d: "D r = Some d" using assms(2) by auto
  obtain nd1 where nd1: "sync_file tr ok_io p \<lparr>sf_path = join ''/'' r, sf_data = tr_b64_encode tr (the (D r))\<rparr> nd = (Inr (), nd1)"
    "clean (nd_fs nd1)" "wrote p r d nd nd1"
    using sync_file_ok [OF Cons.prems(1-3) r assms(1)] d by auto
  have "is_dir (nd_fs nd1) p" using nd1(3) Cons.prems(2) by (simp add: wrote_def)
  from Cons.IH [OF nd1(2) this writable_wrote [OF Cons.prems(3) r nd1(3)], of "Suc n"] Cons.prems(4)
  obtain nd2 where "sync_files tr ok_io p (map (\<lambda>r. \<lparr>sf_path = join ''/'' r, sf_data = tr_b64_encode tr (the (D r))\<rparr>) rs) (Suc n) errs nd1 =
            ((Suc n + length rs, errs), nd2)" "clean (nd_fs nd2)" "wrote_all p (set rs) D nd1 nd2" by auto
  moreover from this(3) have "wrote_all p (insert r (set rs)) D nd nd2" by (rule wrote_all_step [OF nd1(3), of D, OF d])
  ultimately show ?case using nd1(1) by auto
qed
section \<open>One volume, one peer\<close>

text \<open>A file is pushed when the peer has none at its path or one with an older time.\<close>

definition behind :: "node \<Rightarrow> path \<Rightarrow> node \<Rightarrow> path \<Rightarrow> path \<Rightarrow> bool" where
  "behind nd vp pnd pv r \<longleftrightarrow>
     (file_at (nd_fs pnd) (pv @ r) \<noteq> None \<longrightarrow>
      mtime_secs (nd_modified nd (vp @ r)) > mtime_secs (nd_modified pnd (pv @ r)))"

definition to_push :: "node \<Rightarrow> path \<Rightarrow> node \<Rightarrow> path \<Rightarrow> path set" where
  "to_push nd vp pnd pv = {r. file_at (nd_fs nd) (vp @ r) \<noteq> None \<and> behind nd vp pnd pv r}"

lemma read_file:
  assumes "clean f" "file_at f p = Some d"
  shows "fs_read ok_io f p = Inr d"
proof (cases p rule: rev_cases)
  case Nil
  with file_not_dir [OF assms(1), of p] assms(2) show ?thesis by (simp add: is_dir_def)
next
  case (snoc q x)
  with file_parent [OF assms(1), of q x] assms(2) have "is_dir f q" "plain x" by simp_all
  then have "resolve f p = Some p" using resolve_child [OF clean_chain [OF assms(1)]] snoc by simp
  moreover have "\<not> is_dir f p" using file_not_dir [OF assms(1)] assms(2) by auto
  ultimately show ?thesis using assms(2) by (simp add: fs_read_def ok_io_def)
qed

lemma needs_sync_behind:
  assumes "clean (nd_fs pnd)" "set (vm_files remote) = entries_of pnd pv UNIV" "file_at (nd_fs pnd) pv = None"
    and "list_all plain r" "r \<noteq> []"
  shows "needs_sync remote (file_entry nd vp r d) \<longleftrightarrow> behind nd vp pnd pv r"
proof (cases "is_dir (nd_fs pnd) pv")
  case True
  note look = manifest_lookup [of "vm_files remote", unfolded assms(2), OF entries_functional [OF assms(1) True]]
  have path: "file_entry pnd pv s e \<in> entries_of pnd pv UNIV \<and> me_path (file_entry pnd pv s e) = join ''/'' r \<longleftrightarrow>
      s = r \<and> file_at (nd_fs pnd) (pv @ r) = Some e"
    if "file_at (nd_fs pnd) (pv @ s) = Some e" for s e
    using that file_plain [OF assms(1) _ True, of s] join_inj [OF _ assms(4) _ assms(5), of s]
    by (auto simp: entries_of_def file_entry_def)
  show ?thesis
  proof (cases "file_at (nd_fs pnd) (pv @ r)")
    case (Some e)
    then have "map_of (rev (map (\<lambda>f. (me_path f, f)) (vm_files remote))) (join ''/'' r) = Some (file_entry pnd pv r e)"
      using look path [OF Some] by simp
    then show ?thesis using Some by (simp add: needs_sync_def behind_def file_entry_def)
  next
    case None
    have "map_of (rev (map (\<lambda>f. (me_path f, f)) (vm_files remote))) (join ''/'' r) \<noteq> Some x" for x
    proof
      assume "map_of (rev (map (\<lambda>f. (me_path f, f)) (vm_files remote))) (join ''/'' r) = Some x"
      then have x: "x \<in> entries_of pnd pv UNIV" "me_path x = join ''/'' r" using look by simp_all
      then obtain s e where "file_at (nd_fs pnd) (pv @ s) = Some e" "x = file_entry pnd pv s e" by (auto simp: entries_of_def)
      with x path None show False by auto
    qed
    then have "map_of (rev (map (\<lambda>f. (me_path f, f)) (vm_files remote))) (join ''/'' r) = None" by blast
    then show ?thesis using None by (simp add: needs_sync_def behind_def file_entry_def)
  qed
next
  case False
  have n: "file_at (nd_fs pnd) (pv @ s) = None" for s
    using empty_below_absent [OF assms(1) False assms(3)] by (simp add: empty_below_def)
  then have "vm_files remote = []" using assms(2) by (simp add: entries_of_def)
  then show ?thesis using n by (simp add: needs_sync_def behind_def)
qed

lemma files_to_sync_rows:
  assumes "clean (nd_fs nd)" "is_dir (nd_fs nd) vp"
    and needs: "\<And>r d. file_at (nd_fs nd) (vp @ r) = Some d \<Longrightarrow> needs_sync remote (file_entry nd vp r d) \<longleftrightarrow> P r"
  shows "set ls \<subseteq> entries_of nd vp UNIV \<Longrightarrow>
    \<exists>rs. files_to_sync tr ok_io nd vp remote ls =
           map (\<lambda>r. \<lparr>sf_path = join ''/'' r, sf_data = tr_b64_encode tr (the (file_at (nd_fs nd) (vp @ r)))\<rparr>) rs \<and>
         set rs = {r. P r \<and> (\<exists>d. file_at (nd_fs nd) (vp @ r) = Some d \<and> file_entry nd vp r d \<in> set ls)}"
proof (induction ls)
  case Nil
  then show ?case by simp
next
  case (Cons l ls)
  then obtain rs where rs: "files_to_sync tr ok_io nd vp remote ls =
           map (\<lambda>r. \<lparr>sf_path = join ''/'' r, sf_data = tr_b64_encode tr (the (file_at (nd_fs nd) (vp @ r)))\<rparr>) rs"
    "set rs = {r. P r \<and> (\<exists>d. file_at (nd_fs nd) (vp @ r) = Some d \<and> file_entry nd vp r d \<in> set ls)}" by auto
  from Cons.prems obtain r d where l: "file_at (nd_fs nd) (vp @ r) = Some d" "l = file_entry nd vp r d"
    by (auto simp: entries_of_def)
  have r: "r \<noteq> []" "list_all plain r" using file_plain [OF assms(1) _ assms(2), of r] l(1) by simp_all
  have same: "file_entry nd vp s e = l \<longleftrightarrow> s = r" if "file_at (nd_fs nd) (vp @ s) = Some e" for s e
    using that file_plain [OF assms(1) _ assms(2), of s] l join_inj [OF _ r(2) _ r(1), of s] by (auto simp: file_entry_def)
  have rd: "fs_read ok_io (nd_fs nd) (path_join vp (me_path l)) = Inr d"
    using read_file [OF assms(1) l(1)] join_relative [OF r(2,1)] l(2) by (simp add: file_entry_def)
  show ?case
  proof (cases "P r")
    case True
    have "set (r # rs) = {r. P r \<and> (\<exists>d. file_at (nd_fs nd) (vp @ r) = Some d \<and> file_entry nd vp r d \<in> set (l # ls))}"
      using same rs(2) True l by auto
    moreover have "files_to_sync tr ok_io nd vp remote (l # ls) =
      map (\<lambda>r. \<lparr>sf_path = join ''/'' r, sf_data = tr_b64_encode tr (the (file_at (nd_fs nd) (vp @ r)))\<rparr>) (r # rs)"
      using needs [OF l(1)] l rd rs(1) True by (simp add: file_entry_def)
    ultimately show ?thesis by blast
  next
    case False
    have "set rs = {r. P r \<and> (\<exists>d. file_at (nd_fs nd) (vp @ r) = Some d \<and> file_entry nd vp r d \<in> set (l # ls))}"
      using same rs(2) False l by auto
    moreover have "files_to_sync tr ok_io nd vp remote (l # ls) = files_to_sync tr ok_io nd vp remote ls"
      using needs [OF l(1)] l False by simp
    ultimately show ?thesis using rs(1) by auto
  qed
qed
lemma handle_sync_ok:
  assumes "\<And>d. tr_b64_decode tr (tr_b64_encode tr d) = Inr d" "\<forall>r \<in> R. D r \<noteq> None"
    and "nd_storage_path nd = Some sp" "clean (nd_fs nd)" "is_dir (nd_fs nd) sp" "plain v" "file_at (nd_fs nd) (sp @ [v]) = None"
    and "writable (nd_fs nd) (sp @ [v]) R" "set rs \<subseteq> R"
  shows "\<exists>nd'. handle_storage_sync tr ok_io v
      \<lparr>sr_files = map (\<lambda>r. \<lparr>sf_path = join ''/'' r, sf_data = tr_b64_encode tr (the (D r))\<rparr>) rs\<rparr> nd =
      (\<lparr>sa_status = 200, sa_synced = length rs, sa_errors = []\<rparr>, nd') \<and>
    clean (nd_fs nd') \<and> wrote_all (sp @ [v]) (set rs) D nd nd'"
proof -
  note chain = clean_chain [OF assms(4,5)]
  have pre: "is_dir (nd_fs nd) (take n sp)" for n
    using clean_prefix [OF assms(4), of "take n sp" "drop n sp"] assms(5) by simp
  have pl: "list_all plain (sp @ [v])" using dir_chain_plain [OF chain] assms(6) by simp
  have "file_at (nd_fs nd) (take n (sp @ [v])) = None" for n
    using file_on_chain [OF _ chain, of n] assms(4,7) by (cases "n \<le> length sp") (simp_all add: clean_def)
  then obtain g where g: "fs_create_dir_all ok_io (sp @ [v]) (nd_fs nd) = (Inr (), g)" "clean g" "dir_chain g (sp @ [v])"
    "\<And>q. file_at g q = file_at (nd_fs nd) q" "\<And>q. is_dir g q = (is_dir (nd_fs nd) q \<or> (\<exists>n \<le> length (sp @ [v]). q = take n (sp @ [v])))"
    using clean_create [OF assms(4) pl] by metis
  have dirs: "is_dir g q \<longleftrightarrow> is_dir (nd_fs nd) q \<or> q = sp @ [v]" for q
  proof -
    have "q = sp @ [v]" if "q = take n (sp @ [v])" "\<not> is_dir (nd_fs nd) q" for n
      using that pre [of n] by (cases "n \<le> length sp") auto
    with g(5) [of q] show ?thesis by (auto intro: exI [of _ "Suc (length sp)"])
  qed
  have "writable g (sp @ [v]) R" using assms(8) unfolding writable_def g(4) dirs by simp
  from sync_files_ok [OF assms(1,2), of "nd\<lparr>nd_fs := g\<rparr>" "sp @ [v]" rs 0 "[]"] this g(2) dir_chain_is_dir [OF g(3)] assms(9)
  obtain nd' where nd': "sync_files tr ok_io (sp @ [v]) (map (\<lambda>r. \<lparr>sf_path = join ''/'' r, sf_data = tr_b64_encode tr (the (D r))\<rparr>) rs)
      0 [] (nd\<lparr>nd_fs := g\<rparr>) = ((length rs, []), nd')" "clean (nd_fs nd')" "wrote_all (sp @ [v]) (set rs) D (nd\<lparr>nd_fs := g\<rparr>) nd'"
    by auto
  have "wrote_all (sp @ [v]) (set rs) D nd nd'"
    using nd'(3) g(4) by (rule wrote_all_start) (auto simp: below_def dirs)
  with nd'(1,2) g(1) show ?thesis
    using assms(3) path_join_plain [OF assms(6)] by (simp add: handle_storage_sync_def node_create_dir_all_def Let_def)
qed

text \<open>The laws of the crates: base64 and the JSON of a manifest round trip. What a request may meet on
  its way is not a law: the second predicate says that a peer is reached, whether or not its answer
  to the push comes back.\<close>

definition codec_laws :: "transport \<Rightarrow> bool" where
  "codec_laws tr \<longleftrightarrow> (\<forall>d. tr_b64_decode tr (tr_b64_encode tr d) = Inr d) \<and> (\<forall>m. tr_manifest_ok tr m)"

definition reached :: "transport \<Rightarrow> string \<Rightarrow> bool" where
  "reached tr url \<longleftrightarrow> tr_get tr url = None \<and> tr_post tr url = None"

text \<open>What a volume needs to be replicated from the storage path \<open>sp\<close>: a name that survives the URL, file
  names in UTF-8, and no request over the size limit.\<close>

definition pushable_volume :: "transport \<Rightarrow> node \<Rightarrow> path \<Rightarrow> string \<Rightarrow> bool" where
  "pushable_volume tr nd sp v \<longleftrightarrow>
     tr_segment tr v = Some v \<and> utf8_ok (map of_char v) \<and> utf8_tree (nd_fs nd) (sp @ [v]) \<and>
     (\<forall>m remote. build_manifest ok_io nd v (sp @ [v]) = Some m \<longrightarrow>
        \<not> tr_too_large tr \<lparr>sr_files = files_to_sync tr ok_io nd (sp @ [v]) remote (vm_files m)\<rparr>)"

text \<open>What a peer needs to receive it.\<close>

definition receivable :: "node \<Rightarrow> path \<Rightarrow> node \<Rightarrow> path \<Rightarrow> string \<Rightarrow> bool" where
  "receivable nd sp pnd psp v \<longleftrightarrow>
     file_at (nd_fs pnd) (psp @ [v]) = None \<and> utf8_tree (nd_fs pnd) (psp @ [v]) \<and>
     writable (nd_fs pnd) (psp @ [v]) {r. file_at (nd_fs nd) (sp @ v # r) \<noteq> None}"

definition pushed :: "node \<Rightarrow> path \<Rightarrow> node \<Rightarrow> path \<Rightarrow> node \<Rightarrow> bool" where
  "pushed nd vp pnd pv pnd' \<longleftrightarrow>
     clean (nd_fs pnd') \<and>
     wrote_all pv (to_push nd vp pnd pv) (\<lambda>r. file_at (nd_fs nd) (vp @ r)) pnd pnd'"

lemma sync_volume_to_peer_ok:
  assumes laws: "codec_laws tr" "reached tr url" "url = base_url (ni_address peer)" "ios url = ok_io"
    and local: "clean (nd_fs nd)" "is_dir (nd_fs nd) (sp @ [v])" "pushable_volume tr nd sp v"
      "build_manifest ok_io nd v (sp @ [v]) = Some m"
    and peer: "map_of w url = Some pnd" "nd_storage_path pnd = Some psp" "clean (nd_fs pnd)" "is_dir (nd_fs pnd) psp"
      "receivable nd sp pnd psp v"
  shows "\<exists>w' pnd'. sync_volume_to_peer tr ok_io ios nd v (sp @ [v]) m peer w = Some w' \<and>
    map_of w' = (map_of w)(url \<mapsto> pnd') \<and> pushed nd (sp @ [v]) pnd (psp @ [v]) pnd'"
proof -
  let ?vp = "sp @ [v]" and ?pv = "psp @ [v]"
  let ?D = "\<lambda>r. file_at (nd_fs nd) (?vp @ r)"
  have dec: "tr_b64_decode tr (tr_b64_encode tr d) = Inr d" for d using laws(1) by (simp add: codec_laws_def)
  have v: "tr_segment tr v = Some v" "utf8_tree (nd_fs nd) ?vp"
    "\<And>remote. \<not> tr_too_large tr \<lparr>sr_files = files_to_sync tr ok_io nd ?vp remote (vm_files m)\<rparr>"
    using local(3,4) by (auto simp: pushable_volume_def)
  have pl: "plain v" using dir_chain_plain [OF clean_chain [OF local(1,2)]] by simp
  have plp: "list_all plain ?pv" using dir_chain_plain [OF clean_chain [OF peer(3,4)]] pl by simp
  have rc: "file_at (nd_fs pnd) ?pv = None" "utf8_tree (nd_fs pnd) ?pv" "writable (nd_fs pnd) ?pv {r. ?D r \<noteq> None}"
    using peer(5) by (simp_all add: receivable_def)
  have fl: "file_at (nd_fs nd) ?vp = None" using file_not_dir [OF local(1,2)] .
  have sm: "set (vm_files m) = entries_of nd ?vp UNIV"
    using build_manifest_exact [OF local(1) v(2) dir_chain_plain [OF clean_chain [OF local(1,2)]] fl, of v] local(4) by auto
  obtain remote where rm: "build_manifest ok_io pnd v ?pv = Some remote" "set (vm_files remote) = entries_of pnd ?pv UNIV"
    using build_manifest_exact [OF peer(3) rc(2) plp rc(1)] by blast
  have fetch: "fetch_manifest tr ios url v w = Some (Some remote)"
    using peer(1,2) laws rm(1) v(1) path_join_plain [OF pl]
    by (simp add: fetch_manifest_def handle_storage_manifest_def reached_def codec_laws_def is_success_def)
  have needs: "needs_sync remote (file_entry nd ?vp r d) \<longleftrightarrow> behind nd ?vp pnd ?pv r" if "?D r = Some d" for r d
    using file_plain [OF local(1) _ local(2), of r] that by (intro needs_sync_behind [OF peer(3) rm(2) rc(1)]) auto
  obtain rs where rs: "files_to_sync tr ok_io nd ?vp remote (vm_files m) =
      map (\<lambda>r. \<lparr>sf_path = join ''/'' r, sf_data = tr_b64_encode tr (the (?D r))\<rparr>) rs"
    "set rs = {r. behind nd ?vp pnd ?pv r \<and> (\<exists>d. ?D r = Some d \<and> file_entry nd ?vp r d \<in> entries_of nd ?vp UNIV)}"
    using files_to_sync_rows [OF local(1,2) needs, of "vm_files m" tr] sm by auto
  have W: "set rs = to_push nd ?vp pnd ?pv" using rs(2) by (auto simp: to_push_def entries_of_def)
  show ?thesis
  proof (cases "rs = []")
    case True
    then have "to_push nd ?vp pnd ?pv = {}" using W by simp
    then have "pushed nd ?vp pnd ?pv pnd" using peer(3) by (simp add: pushed_def wrote_all_refl)
    moreover have "sync_volume_to_peer tr ok_io ios nd v ?vp m peer w = Some w"
      using fetch rs(1) True laws(3) by (simp add: sync_volume_to_peer_def Let_def)
    moreover have "map_of w = (map_of w)(url \<mapsto> pnd)" using peer(1) by auto
    ultimately show ?thesis by metis
  next
    case False
    have "set rs \<subseteq> {r. ?D r \<noteq> None}" using W by (auto simp: to_push_def)
    then obtain pnd' where p: "handle_storage_sync tr ok_io v \<lparr>sr_files = files_to_sync tr ok_io nd ?vp remote (vm_files m)\<rparr> pnd =
        (\<lparr>sa_status = 200, sa_synced = length rs, sa_errors = []\<rparr>, pnd')" "clean (nd_fs pnd')" "wrote_all ?pv (set rs) ?D pnd pnd'"
      using handle_sync_ok [OF dec _ peer(2-4) pl rc(1,3), where rs = rs and D = ?D] rs(1) by auto
    have "sync_volume_to_peer tr ok_io ios nd v ?vp m peer w = Some (hm_insert url pnd' w)"
      using fetch False laws peer(1) v(1) v(3) [of remote] p(1) rs(1)
      by (simp add: sync_volume_to_peer_def push_files_def Let_def reached_def)
    moreover have "map_of (hm_insert url pnd' w) = (map_of w)(url \<mapsto> pnd')" by (rule ext) (simp add: map_of_hm_insert)
    ultimately show ?thesis using p(2,3) W by (auto simp: pushed_def)
  qed
qed
section \<open>The whole cycle\<close>

definition can_receive :: "transport \<Rightarrow> (string \<Rightarrow> disk_io) \<Rightarrow> node \<Rightarrow> path \<Rightarrow> string set \<Rightarrow> world \<Rightarrow> string \<Rightarrow> bool" where
  "can_receive tr ios nd sp V w url \<longleftrightarrow>
     reached tr url \<and> ios url = ok_io \<and>
     (\<exists>pnd psp. map_of w url = Some pnd \<and> nd_storage_path pnd = Some psp \<and> clean (nd_fs pnd) \<and>
        is_dir (nd_fs pnd) psp \<and> (\<forall>v \<in> V. receivable nd sp pnd psp v))"

abbreviation peer_url :: "node_info \<Rightarrow> string" where
  "peer_url m \<equiv> base_url (ni_address m)"

lemma sync_peers_ok:
  assumes "codec_laws tr" "clean (nd_fs nd)" "is_dir (nd_fs nd) (sp @ [v])" "pushable_volume tr nd sp v"
    "build_manifest ok_io nd v (sp @ [v]) = Some m" "v \<in> V"
  shows "distinct (map peer_url peers) \<Longrightarrow> \<forall>p \<in> set peers. can_receive tr ios nd sp V w (peer_url p) \<Longrightarrow>
    \<exists>w'. foldl (\<lambda>acc peer. Option.bind acc (sync_volume_to_peer tr ok_io ios nd v (sp @ [v]) m peer)) (Some w) peers = Some w' \<and>
      (\<forall>p \<in> set peers. \<exists>pnd psp pnd'. map_of w (peer_url p) = Some pnd \<and> nd_storage_path pnd = Some psp \<and>
         map_of w' (peer_url p) = Some pnd' \<and> pushed nd (sp @ [v]) pnd (psp @ [v]) pnd') \<and>
      (\<forall>u. u \<notin> peer_url ` set peers \<longrightarrow> map_of w' u = map_of w u)"
proof (induction peers arbitrary: w)
  case (Cons p peers)
  then have "can_receive tr ios nd sp V w (peer_url p)" by simp
  then obtain pnd psp where p: "reached tr (peer_url p)" "ios (peer_url p) = ok_io" "map_of w (peer_url p) = Some pnd"
    "nd_storage_path pnd = Some psp" "clean (nd_fs pnd)" "is_dir (nd_fs pnd) psp" "receivable nd sp pnd psp v"
    using assms(6) by (auto simp: can_receive_def)
  obtain w1 pnd' where w1: "sync_volume_to_peer tr ok_io ios nd v (sp @ [v]) m p w = Some w1"
    "map_of w1 = (map_of w)(peer_url p \<mapsto> pnd')" "pushed nd (sp @ [v]) pnd (psp @ [v]) pnd'"
    using sync_volume_to_peer_ok [where ios = ios, OF assms(1) p(1) refl p(2) assms(2-5) p(3-7)] by blast
  have other: "map_of w1 (peer_url q) = map_of w (peer_url q)" if "q \<in> set peers" for q
    using Cons.prems(1) that w1(2) by (auto simp: image_iff)
  then have "\<forall>q \<in> set peers. can_receive tr ios nd sp V w1 (peer_url q)" using Cons.prems(2) by (simp add: can_receive_def)
  with Cons.IH [of w1] Cons.prems(1)
  obtain w' where w': "foldl (\<lambda>acc peer. Option.bind acc (sync_volume_to_peer tr ok_io ios nd v (sp @ [v]) m peer)) (Some w1) peers = Some w'"
    "\<forall>q \<in> set peers. \<exists>pnd psp pnd'. map_of w1 (peer_url q) = Some pnd \<and> nd_storage_path pnd = Some psp \<and>
         map_of w' (peer_url q) = Some pnd' \<and> pushed nd (sp @ [v]) pnd (psp @ [v]) pnd'"
    "\<forall>u. u \<notin> peer_url ` set peers \<longrightarrow> map_of w' u = map_of w1 u" by auto
  have "map_of w' (peer_url p) = Some pnd'" using w'(3) w1(2) Cons.prems(1) by simp
  then have "\<forall>q \<in> set (p # peers). \<exists>pnd psp pnd'. map_of w (peer_url q) = Some pnd \<and> nd_storage_path pnd = Some psp \<and>
         map_of w' (peer_url q) = Some pnd' \<and> pushed nd (sp @ [v]) pnd (psp @ [v]) pnd'"
    using w'(2) other p(3,4) w1(3) by simp
  moreover have "\<forall>u. u \<notin> peer_url ` set (p # peers) \<longrightarrow> map_of w' u = map_of w u" using w'(3) w1(2) by simp
  moreover have "foldl (\<lambda>acc peer. Option.bind acc (sync_volume_to_peer tr ok_io ios nd v (sp @ [v]) m peer)) (Some w) (p # peers) = Some w'"
    using w'(1) w1(1) by simp
  ultimately show ?case by blast
qed simp

text \<open>The volumes \<open>V\<close> have been pushed to a peer, and nothing else has changed there.\<close>

definition replicated :: "node \<Rightarrow> path \<Rightarrow> string set \<Rightarrow> node \<Rightarrow> path \<Rightarrow> node \<Rightarrow> bool" where
  "replicated nd sp V pnd psp pnd' \<longleftrightarrow>
     clean (nd_fs pnd') \<and> nd_storage_path pnd' = Some psp \<and> nd_clock pnd' = nd_clock pnd \<and> is_dir (nd_fs pnd') psp \<and>
     (\<forall>v \<in> V. \<forall>r. let W = to_push nd (sp @ [v]) pnd (psp @ [v]) in
        file_at (nd_fs pnd') (psp @ v # r) =
          (if r \<in> W then file_at (nd_fs nd) (sp @ v # r) else file_at (nd_fs pnd) (psp @ v # r)) \<and>
        nd_modified pnd' (psp @ v # r) = (if r \<in> W then nd_clock pnd else nd_modified pnd (psp @ v # r))) \<and>
     (\<forall>q. (\<forall>v \<in> V. \<not> below (psp @ [v]) q) \<longrightarrow>
        file_at (nd_fs pnd') q = file_at (nd_fs pnd) q \<and> is_dir (nd_fs pnd') q = is_dir (nd_fs pnd) q \<and>
        nd_modified pnd' q = nd_modified pnd q)"

lemma below_sibling: "below (p @ [v]) (p @ x # r) \<longleftrightarrow> v = x"
  by (auto simp: below_def)

lemma pushed_sibling:
  assumes "pushed nd (sp @ [v]) pnd (psp @ [v]) pnd'" "x \<noteq> v"
  shows "file_at (nd_fs pnd') (psp @ x # r) = file_at (nd_fs pnd) (psp @ x # r)"
    "is_dir (nd_fs pnd') (psp @ x # r) = is_dir (nd_fs pnd) (psp @ x # r)"
    "nd_modified pnd' (psp @ x # r) = nd_modified pnd (psp @ x # r)"
  using assms by (auto simp: pushed_def wrote_all_def below_sibling)

lemma to_push_sibling:
  "pushed nd (sp @ [v]) pnd (psp @ [v]) pnd' \<Longrightarrow> x \<noteq> v \<Longrightarrow>
   to_push nd (sp @ [x]) pnd' (psp @ [x]) = to_push nd (sp @ [x]) pnd (psp @ [x])"
  by (simp add: to_push_def behind_def pushed_sibling)

lemma receivable_sibling:
  "pushed nd (sp @ [v]) pnd (psp @ [v]) pnd' \<Longrightarrow> x \<noteq> v \<Longrightarrow> receivable nd sp pnd' psp x = receivable nd sp pnd psp x"
  by (simp add: receivable_def writable_def utf8_tree_def pushed_sibling)

lemma replicated_refl:
  "clean (nd_fs pnd) \<Longrightarrow> nd_storage_path pnd = Some psp \<Longrightarrow> is_dir (nd_fs pnd) psp \<Longrightarrow> replicated nd sp {} pnd psp pnd"
  by (simp add: replicated_def)

lemma replicated_step:
  assumes "pushed nd (sp @ [v]) pnd (psp @ [v]) pnd1" "v \<notin> V" "replicated nd sp V pnd1 psp pnd2"
  shows "replicated nd sp (insert v V) pnd psp pnd2"
proof -
  note sib = pushed_sibling [OF assms(1)] to_push_sibling [OF assms(1)]
  have "\<forall>x \<in> V. \<not> below (psp @ [x]) (psp @ v # r)" for r using assms(2) by (auto simp: below_sibling)
  then have "file_at (nd_fs pnd2) (psp @ v # r) = file_at (nd_fs pnd1) (psp @ v # r)"
    "nd_modified pnd2 (psp @ v # r) = nd_modified pnd1 (psp @ v # r)" for r
    using assms(3) unfolding replicated_def by blast+
  then have 1: "file_at (nd_fs pnd2) (psp @ v # r) =
      (if r \<in> to_push nd (sp @ [v]) pnd (psp @ [v]) then file_at (nd_fs nd) (sp @ v # r) else file_at (nd_fs pnd) (psp @ v # r))"
    "nd_modified pnd2 (psp @ v # r) =
      (if r \<in> to_push nd (sp @ [v]) pnd (psp @ [v]) then nd_clock pnd else nd_modified pnd (psp @ v # r))" for r
    using assms(1) by (simp_all add: pushed_def wrote_all_def)
  have 2: "file_at (nd_fs pnd2) (psp @ x # r) =
      (if r \<in> to_push nd (sp @ [x]) pnd (psp @ [x]) then file_at (nd_fs nd) (sp @ x # r) else file_at (nd_fs pnd) (psp @ x # r))"
    "nd_modified pnd2 (psp @ x # r) =
      (if r \<in> to_push nd (sp @ [x]) pnd (psp @ [x]) then nd_clock pnd else nd_modified pnd (psp @ x # r))" if "x \<in> V" for x r
  proof -
    have "x \<noteq> v" using that assms(2) by blast
    then show "file_at (nd_fs pnd2) (psp @ x # r) =
      (if r \<in> to_push nd (sp @ [x]) pnd (psp @ [x]) then file_at (nd_fs nd) (sp @ x # r) else file_at (nd_fs pnd) (psp @ x # r))"
      "nd_modified pnd2 (psp @ x # r) =
      (if r \<in> to_push nd (sp @ [x]) pnd (psp @ [x]) then nd_clock pnd else nd_modified pnd (psp @ x # r))"
      using assms(1,3) that sib by (auto simp: replicated_def Let_def pushed_def wrote_all_def)
  qed
  have 3: "file_at (nd_fs pnd2) q = file_at (nd_fs pnd) q" "is_dir (nd_fs pnd2) q = is_dir (nd_fs pnd) q"
    "nd_modified pnd2 q = nd_modified pnd q" if "\<forall>x \<in> insert v V. \<not> below (psp @ [x]) q" for q
    using assms(1,3) that by (simp_all add: replicated_def pushed_def wrote_all_def)
  have 4: "clean (nd_fs pnd2)" "nd_storage_path pnd2 = Some psp" "nd_clock pnd2 = nd_clock pnd" "is_dir (nd_fs pnd2) psp"
    using assms(1,3) by (simp_all add: replicated_def pushed_def wrote_all_def)
  show ?thesis unfolding replicated_def Let_def using 1 2 3 4 by blast
qed
lemma sync_volume_ok:
  assumes "codec_laws tr" "clean (nd_fs nd)" "is_dir (nd_fs nd) (sp @ [v])" "pushable_volume tr nd sp v" "v \<in> V"
    "distinct (map peer_url peers)" "\<forall>p \<in> set peers. can_receive tr ios nd sp V w (peer_url p)"
  obtains w' where "sync_volume tr ok_io ios nd peers (v, sp @ [v]) w = Some w'"
    "\<forall>p \<in> set peers. \<exists>pnd psp pnd'. map_of w (peer_url p) = Some pnd \<and> nd_storage_path pnd = Some psp \<and>
         map_of w' (peer_url p) = Some pnd' \<and> pushed nd (sp @ [v]) pnd (psp @ [v]) pnd'"
    "\<forall>u. u \<notin> peer_url ` set peers \<longrightarrow> map_of w' u = map_of w u"
    "\<forall>p \<in> set peers. can_receive tr ios nd sp (V - {v}) w' (peer_url p)"
proof -
  have "utf8_tree (nd_fs nd) (sp @ [v])" using assms(4) by (simp add: pushable_volume_def)
  from build_manifest_exact [OF assms(2) this dir_chain_plain [OF clean_chain [OF assms(2,3)]] file_not_dir [OF assms(2,3)]]
  obtain m where m: "build_manifest ok_io nd v (sp @ [v]) = Some m" by blast
  obtain w' where w': "foldl (\<lambda>acc peer. Option.bind acc (sync_volume_to_peer tr ok_io ios nd v (sp @ [v]) m peer)) (Some w) peers = Some w'"
    and p: "\<forall>p \<in> set peers. \<exists>pnd psp pnd'. map_of w (peer_url p) = Some pnd \<and> nd_storage_path pnd = Some psp \<and>
         map_of w' (peer_url p) = Some pnd' \<and> pushed nd (sp @ [v]) pnd (psp @ [v]) pnd'"
    and o: "\<forall>u. u \<notin> peer_url ` set peers \<longrightarrow> map_of w' u = map_of w u"
    using sync_peers_ok [OF assms(1-4) m assms(5-7)] by (elim exE conjE)
  have "can_receive tr ios nd sp (V - {v}) w' (peer_url q)" if q: "q \<in> set peers" for q
  proof -
    from p q obtain pnd psp pnd' where 1: "map_of w (peer_url q) = Some pnd" "nd_storage_path pnd = Some psp"
      "map_of w' (peer_url q) = Some pnd'" "pushed nd (sp @ [v]) pnd (psp @ [v]) pnd'" by blast
    have "clean (nd_fs pnd')" "nd_storage_path pnd' = Some psp" "\<forall>q. is_dir (nd_fs pnd) q \<longrightarrow> is_dir (nd_fs pnd') q"
      using 1(2,4) by (simp_all add: pushed_def wrote_all_def)
    then show ?thesis using assms(7) q 1 receivable_sibling [OF 1(4)] by (auto simp: can_receive_def)
  qed
  with that [OF _ p o] w' m show thesis by (simp add: sync_volume_def)
qed

lemma sync_volumes_ok:
  assumes "codec_laws tr" "clean (nd_fs nd)" "distinct (map peer_url peers)"
  shows "distinct vs \<Longrightarrow> \<forall>v \<in> set vs. is_dir (nd_fs nd) (sp @ [v]) \<and> pushable_volume tr nd sp v \<Longrightarrow>
    \<forall>p \<in> set peers. can_receive tr ios nd sp (set vs) w (peer_url p) \<Longrightarrow>
    \<exists>w'. foldl (\<lambda>acc v. Option.bind acc (sync_volume tr ok_io ios nd peers v)) (Some w) (map (\<lambda>x. (x, sp @ [x])) vs) = Some w' \<and>
      (\<forall>p \<in> set peers. \<exists>pnd psp pnd'. map_of w (peer_url p) = Some pnd \<and> nd_storage_path pnd = Some psp \<and>
         map_of w' (peer_url p) = Some pnd' \<and> replicated nd sp (set vs) pnd psp pnd') \<and>
      (\<forall>u. u \<notin> peer_url ` set peers \<longrightarrow> map_of w' u = map_of w u)"
proof (induction vs arbitrary: w)
  case Nil
  then show ?case by (fastforce simp: can_receive_def replicated_refl)
next
  case (Cons v vs)
  have v: "is_dir (nd_fs nd) (sp @ [v])" "pushable_volume tr nd sp v" "v \<in> set (v # vs)" using Cons.prems(2) by simp_all
  obtain w1 where w1: "sync_volume tr ok_io ios nd peers (v, sp @ [v]) w = Some w1"
    "\<forall>p \<in> set peers. \<exists>pnd psp pnd'. map_of w (peer_url p) = Some pnd \<and> nd_storage_path pnd = Some psp \<and>
         map_of w1 (peer_url p) = Some pnd' \<and> pushed nd (sp @ [v]) pnd (psp @ [v]) pnd'"
    "\<forall>u. u \<notin> peer_url ` set peers \<longrightarrow> map_of w1 u = map_of w u"
    "\<forall>p \<in> set peers. can_receive tr ios nd sp (set (v # vs) - {v}) w1 (peer_url p)"
    using sync_volume_ok [OF assms(1,2) v assms(3) Cons.prems(3)] .
  have "set (v # vs) - {v} = set vs" using Cons.prems(1) by auto
  with Cons.IH [of w1] Cons.prems(1,2) w1(4)
  obtain w' where w': "foldl (\<lambda>acc v. Option.bind acc (sync_volume tr ok_io ios nd peers v)) (Some w1) (map (\<lambda>x. (x, sp @ [x])) vs) = Some w'"
    "\<forall>p \<in> set peers. \<exists>pnd psp pnd'. map_of w1 (peer_url p) = Some pnd \<and> nd_storage_path pnd = Some psp \<and>
         map_of w' (peer_url p) = Some pnd' \<and> replicated nd sp (set vs) pnd psp pnd'"
    "\<forall>u. u \<notin> peer_url ` set peers \<longrightarrow> map_of w' u = map_of w1 u" by auto
  have "\<exists>pnd psp pnd'. map_of w (peer_url p) = Some pnd \<and> nd_storage_path pnd = Some psp \<and>
         map_of w' (peer_url p) = Some pnd' \<and> replicated nd sp (set (v # vs)) pnd psp pnd'" if p: "p \<in> set peers" for p
  proof -
    from w1(2) p obtain pnd psp pnd1 where 1: "map_of w (peer_url p) = Some pnd" "nd_storage_path pnd = Some psp"
      "map_of w1 (peer_url p) = Some pnd1" "pushed nd (sp @ [v]) pnd (psp @ [v]) pnd1" by blast
    moreover have "nd_storage_path pnd1 = Some psp" using 1(2,4) by (simp add: pushed_def wrote_all_def)
    ultimately obtain pnd' where "map_of w' (peer_url p) = Some pnd'" "replicated nd sp (set vs) pnd1 psp pnd'"
      using bspec [OF w'(2) p] by auto
    with 1 replicated_step [OF 1(4), of "set vs"] Cons.prems(1) show ?thesis by auto
  qed
  with w' w1(1,3) show ?case by auto
qed

text \<open>What the cycle leaves at the peer in the place of a file.\<close>

definition newer_of :: "(string \<times> int) option \<Rightarrow> (string \<times> int) option \<Rightarrow> string option" where
  "newer_of mine theirs =
     (case (mine, theirs) of
        (None, _) \<Rightarrow> map_option fst theirs
      | (Some (d, _), None) \<Rightarrow> Some d
      | (Some (d, t), Some (e, s)) \<Rightarrow> if t > s then Some d else Some e)"

definition dated :: "node \<Rightarrow> path \<Rightarrow> (string \<times> int) option" where
  "dated nd p = map_option (\<lambda>d. (d, mtime_secs (nd_modified nd p))) (file_at (nd_fs nd) p)"

lemma replicated_newer:
  assumes "replicated nd sp V pnd psp pnd'" "v \<in> V"
  shows "file_at (nd_fs pnd') (psp @ v # r) = newer_of (dated nd (sp @ v # r)) (dated pnd (psp @ v # r))"
proof -
  have "file_at (nd_fs pnd') (psp @ v # r) =
      (if r \<in> to_push nd (sp @ [v]) pnd (psp @ [v]) then file_at (nd_fs nd) (sp @ v # r) else file_at (nd_fs pnd) (psp @ v # r))"
    using assms unfolding replicated_def Let_def by blast
  then show ?thesis
    by (auto simp: newer_of_def dated_def to_push_def behind_def option.map_comp comp_def option.map_ident split: option.splits)
qed

lemma listed_volumes:
  assumes "clean (nd_fs nd)" "is_dir (nd_fs nd) sp" "\<And>v. is_dir (nd_fs nd) (sp @ [v]) \<Longrightarrow> utf8_ok (map of_char v)"
  obtains vs where "list_volume_dirs ok_io nd sp = Inr (map (\<lambda>x. (x, sp @ [x])) vs)" "distinct vs"
    "set vs = {v. is_dir (nd_fs nd) (sp @ [v])}"
proof -
  let ?f = "nd_fs nd"
  let ?vs = "filter (\<lambda>x. path_is_dir ?f (sp @ [x]) \<and> utf8_ok (map of_char x)) (children ?f sp)"
  note chain = clean_chain [OF assms(1,2)]
  have "path_exists ?f sp" "fs_read_dir ok_io ?f sp = Inr (children ?f sp)"
    using resolve_chain [OF chain] assms(2) by (simp_all add: path_exists_def fs_read_dir_def ok_io_def)
  then have "list_volume_dirs ok_io nd sp = Inr (map (\<lambda>x. (x, sp @ [x])) ?vs)" by (simp add: list_volume_dirs_def)
  moreover have "distinct ?vs" by (simp add: children_def)
  moreover have "set ?vs = {v. is_dir ?f (sp @ [v])}"
  proof -
    have "path_is_dir ?f (sp @ [x]) \<longleftrightarrow> is_dir ?f (sp @ [x])" if "x \<in> set (children ?f sp)" for x
      using resolve_child [OF chain clean_file_plain [OF assms(1,2) that]] by (simp add: path_is_dir_def)
    moreover have "x \<in> set (children ?f sp)" if "is_dir ?f (sp @ [x])" for x using that by (simp add: set_children is_dir_def)
    ultimately show ?thesis using assms(3) by auto
  qed
  ultimately show thesis using that by blast
qed

section \<open>Examples\<close>

definition ex_transport :: transport where
  "ex_transport = \<lparr>tr_get = \<lambda>_. None, tr_post = \<lambda>_. None, tr_answer = \<lambda>_. None, tr_manifest_ok = \<lambda>_. True,
     tr_segment = Some, tr_too_large = \<lambda>_. False, tr_b64_encode = \<lambda>d. d, tr_b64_decode = Inr\<rparr>"

definition ex_primary :: node where
  "ex_primary = \<lparr>nd_fs = ex_volume, nd_modified = \<lambda>_. 10, nd_storage_path = Some [], nd_clock = 10\<rparr>"

definition ex_replica :: node where
  "ex_replica = \<lparr>nd_fs = \<lparr>fs_dirs = [[''s'']], fs_files = []\<rparr>, nd_modified = \<lambda>_. 0, nd_storage_path = Some [''s''], nd_clock = 20\<rparr>"

definition ex_member :: "uuid \<Rightarrow> string \<Rightarrow> node_info" where
  "ex_member i a = \<lparr>ni_node_id = i, ni_node_iri = [], ni_address = a, ni_is_leader = False\<rparr>"

text \<open>An update is lost. A pushes its file to B, whose clock is ahead; A's next version has an older time than
  B's copy of the first, so that B's own cycle writes the first version back over it.\<close>

definition lost_update_run :: "string option" where
  "lost_update_run =
     (let ms = [ex_member 1 ''a'', ex_member 2 ''b'']; io = (\<lambda>_. ok_io);
          w1 = snd (run_sync_cycle (\<lambda>_. []) ex_transport ok_io io ex_primary [] (Inr ms) 1 [(''http://b'', ex_replica)]);
          a2 = snd (node_write ok_io [''v'', ''sub'', ''a''] ''new'' (ex_primary\<lparr>nd_clock := 15\<rparr>));
          w2 = snd (run_sync_cycle (\<lambda>_. []) ex_transport ok_io io (the (map_of w1 ''http://b'')) [''s''] (Inr ms) 2 [(''http://a'', a2)])
      in file_at (nd_fs (the (map_of w2 ''http://a''))) [''v'', ''sub'', ''a''])"

lemma sync_loses_update: "lost_update_run = Some ''data''"
  by code_simp

text \<open>A path in a request is joined to the volume as it is: the handler writes anywhere on the disk.\<close>

lemma sync_escapes_volume:
  "file_at (nd_fs (snd (handle_storage_sync ex_transport ok_io ''v''
      \<lparr>sr_files = [\<lparr>sf_path = ''../../etc/passwd'', sf_data = ''x''\<rparr>]\<rparr> ex_replica))) [''etc'', ''passwd''] = Some ''x''"
  by code_simp

end
