(* ===== verification/Offsite_Backup.thy ===== *)
theory Offsite_Backup
  imports Registry "HOL-Library.Countable"
begin

text \<open>
  Offsite backups (\<open>crates/picloud-storage/src/backup.rs\<close>): the S3 client, the \<open>BackupTarget\<close> trait with its
  two implementations, client-side encryption, chunking and the \<open>OffsiteBackupManager\<close>. The trait is a
  record of operations and, for its laws, the locale \<open>backup_store\<close>, which the in-memory target
  interprets. AES-256-GCM, SHA-256, JSON, XML and the HTTP client are records of functions; the nonces
  an operation draws are a sequence it takes as an argument.
\<close>

section \<open>Keys\<close>

fun replace_all :: "string \<Rightarrow> string \<Rightarrow> string \<Rightarrow> string" where
  "replace_all pat rep [] = []"
| "replace_all pat rep (c # s) =
     (if pat \<noteq> [] \<and> starts_with (c # s) pat then rep @ replace_all pat rep (drop (length pat - 1) s)
      else c # replace_all pat rep s)"

definition sanitize_iri_for_path :: "string \<Rightarrow> string" where
  "sanitize_iri_for_path iri =
     map (\<lambda>c. if c = CHR '':'' then CHR ''_'' else c) (replace_all ''http://'' [] (replace_all ''https://'' [] iri))"

section \<open>The backup target\<close>

record 't backup_target =
  bt_upload :: "string \<Rightarrow> bytes \<Rightarrow> 't \<Rightarrow> unit result \<times> 't"
  bt_exists :: "string \<Rightarrow> 't \<Rightarrow> bool result"
  bt_list_keys :: "string \<Rightarrow> 't \<Rightarrow> string list result"
  bt_download :: "string \<Rightarrow> 't \<Rightarrow> bytes result"

record in_memory_target =
  mt_store :: "(string \<times> bytes) list"
  mt_failure_message :: "string option"

definition in_memory_target_new :: in_memory_target where
  "in_memory_target_new = \<lparr>mt_store = [], mt_failure_message = None\<rparr>"

definition with_failure :: "string \<Rightarrow> in_memory_target \<Rightarrow> in_memory_target" where
  "with_failure message t = t\<lparr>mt_failure_message := Some message\<rparr>"

definition mt_keys :: "in_memory_target \<Rightarrow> string list" where
  "mt_keys t = map fst (mt_store t)"

definition mt_get :: "string \<Rightarrow> in_memory_target \<Rightarrow> bytes option" where
  "mt_get key t = map_of (mt_store t) key"

definition mt_upload :: "string \<Rightarrow> bytes \<Rightarrow> in_memory_target \<Rightarrow> unit result \<times> in_memory_target" where
  "mt_upload key data t =
     (case mt_failure_message t of
        Some msg \<Rightarrow> (Inl (StorageFailed msg), t)
      | None \<Rightarrow> (Inr (), t\<lparr>mt_store := hm_insert key data (mt_store t)\<rparr>))"

definition mt_exists :: "string \<Rightarrow> in_memory_target \<Rightarrow> bool result" where
  "mt_exists key t = Inr (map_of (mt_store t) key \<noteq> None)"

definition mt_list_keys :: "string \<Rightarrow> in_memory_target \<Rightarrow> string list result" where
  "mt_list_keys pre t = Inr (filter (\<lambda>k. starts_with k pre) (map fst (mt_store t)))"

definition mt_download :: "string \<Rightarrow> in_memory_target \<Rightarrow> bytes result" where
  "mt_download key t =
     (case map_of (mt_store t) key of Some d \<Rightarrow> Inr d | None \<Rightarrow> Inl (ResourceNotFound key))"

definition memory_backup :: "in_memory_target backup_target" where
  "memory_backup =
     \<lparr>bt_upload = mt_upload, bt_exists = mt_exists, bt_list_keys = mt_list_keys, bt_download = mt_download\<rparr>"

section \<open>The S3 client\<close>

record s3_config =
  s3_endpoint :: string
  s3_bucket :: string
  s3_prefix :: string
  s3_region :: string

text \<open>The requests: a transport error, or a status and the body, whose reading may fail too.\<close>

type_synonym reply = "string + nat \<times> (string + bytes)"

record 's s3_http =
  h_put :: "string \<Rightarrow> bytes \<Rightarrow> 's \<Rightarrow> reply \<times> 's"
  h_get :: "string \<Rightarrow> 's \<Rightarrow> reply"
  h_head :: "string \<Rightarrow> 's \<Rightarrow> reply"
  h_delete :: "string \<Rightarrow> 's \<Rightarrow> reply \<times> 's"

text \<open>What the XML and time libraries give for a listing: key, size and the text of the time.\<close>

record s3_parse =
  xml_listing :: "bytes \<Rightarrow> string + (string \<times> u64 \<times> string) list"
  xml_keys :: "bytes \<Rightarrow> string list option"
  rfc3339 :: "string \<Rightarrow> timestamp option"
  show_status :: "nat \<Rightarrow> string"
  body_text :: "bytes \<Rightarrow> string"

record backup_record =
  br_volume_iri :: resource_iri
  br_s3_key :: string
  br_size_bytes :: u64
  br_uploaded_at :: timestamp

definition s3_url :: "s3_config \<Rightarrow> string \<Rightarrow> string" where
  "s3_url c key = s3_endpoint c @ ''/'' @ s3_bucket c @ ''/'' @ key"

definition status_ok :: "nat \<Rightarrow> bool" where
  "status_ok status \<longleftrightarrow> 200 \<le> status \<and> status \<le> 299"

definition upload_snapshot ::
  "'s s3_http \<Rightarrow> s3_parse \<Rightarrow> s3_config \<Rightarrow> timestamp \<Rightarrow> resource_iri \<Rightarrow> string \<Rightarrow> bytes \<Rightarrow> 's \<Rightarrow> backup_record result \<times> 's" where
  "upload_snapshot http ps c now volume_iri snapshot_timestamp data s =
     (let key = s3_prefix c @ ''/'' @ sanitize_iri_for_path volume_iri @ ''/'' @ snapshot_timestamp
      in case h_put http (s3_url c key) data s of
           (Inl e, s) \<Rightarrow> (Inl (Internal (''S3 upload failed: '' @ e)), s)
         | (Inr (status, body), s) \<Rightarrow>
             if \<not> status_ok status then
               (Inl (Internal (''S3 upload failed with status '' @ show_status ps status @ '': '' @
                  (case body of Inr b \<Rightarrow> body_text ps b | Inl _ \<Rightarrow> []))), s)
             else (Inr \<lparr>br_volume_iri = volume_iri, br_s3_key = key, br_size_bytes = of_nat (length data),
                        br_uploaded_at = now\<rparr>, s))"

definition s3_list_backups ::
  "'s s3_http \<Rightarrow> s3_parse \<Rightarrow> s3_config \<Rightarrow> resource_iri \<Rightarrow> 's \<Rightarrow> backup_record list result" where
  "s3_list_backups http ps c volume_iri s =
     (let pre = s3_prefix c @ ''/'' @ sanitize_iri_for_path volume_iri
      in case h_get http (s3_endpoint c @ ''/'' @ s3_bucket c @ ''?list-type=2&prefix='' @ pre) s of
           Inl e \<Rightarrow> Inl (Internal (''S3 list failed: '' @ e))
         | Inr (status, body) \<Rightarrow>
             if \<not> status_ok status then Inr []
             else case body of
               Inl e \<Rightarrow> Inl (Internal (''Failed to read S3 list response: '' @ e))
             | Inr b \<Rightarrow>
                 (case xml_listing ps b of
                    Inl e \<Rightarrow> Inl (Internal (''Failed to parse S3 XML: '' @ e))
                  | Inr items \<Rightarrow>
                      Inr (List.map_filter (\<lambda>(key, size, last_modified).
                        map_option (\<lambda>t. \<lparr>br_volume_iri = volume_iri, br_s3_key = key, br_size_bytes = size, br_uploaded_at = t\<rparr>)
                          (rfc3339 ps last_modified)) items)))"

definition download_backup :: "'s s3_http \<Rightarrow> s3_parse \<Rightarrow> s3_config \<Rightarrow> string \<Rightarrow> 's \<Rightarrow> bytes result" where
  "download_backup http ps c s3_key s =
     (case h_get http (s3_url c s3_key) s of
        Inl e \<Rightarrow> Inl (Internal (''S3 download failed: '' @ e))
      | Inr (status, body) \<Rightarrow>
          if \<not> status_ok status then Inl (Internal (''S3 download failed with status '' @ show_status ps status))
          else case body of
            Inl e \<Rightarrow> Inl (Internal (''Failed to read S3 response: '' @ e))
          | Inr b \<Rightarrow> Inr b)"

definition delete_backup :: "'s s3_http \<Rightarrow> s3_config \<Rightarrow> string \<Rightarrow> 's \<Rightarrow> unit result \<times> 's" where
  "delete_backup http c s3_key s =
     (case h_delete http (s3_url c s3_key) s of
        (Inl e, s) \<Rightarrow> (Inl (Internal (''S3 delete failed: '' @ e)), s)
      | (Inr _, s) \<Rightarrow> (Inr (), s))"

definition s3_upload :: "'s s3_http \<Rightarrow> s3_parse \<Rightarrow> s3_config \<Rightarrow> string \<Rightarrow> bytes \<Rightarrow> 's \<Rightarrow> unit result \<times> 's" where
  "s3_upload http ps c key data s =
     (case h_put http (s3_url c key) data s of
        (Inl e, s) \<Rightarrow> (Inl (Internal (''S3 upload failed: '' @ e)), s)
      | (Inr (status, _), s) \<Rightarrow>
          if \<not> status_ok status then (Inl (Internal (''S3 upload failed: '' @ show_status ps status)), s) else (Inr (), s))"

definition s3_exists :: "'s s3_http \<Rightarrow> s3_config \<Rightarrow> string \<Rightarrow> 's \<Rightarrow> bool result" where
  "s3_exists http c key s =
     (case h_head http (s3_url c key) s of
        Inl e \<Rightarrow> Inl (Internal (''S3 HEAD failed: '' @ e))
      | Inr (status, _) \<Rightarrow> Inr (status_ok status))"

definition s3_list_keys :: "'s s3_http \<Rightarrow> s3_parse \<Rightarrow> s3_config \<Rightarrow> string \<Rightarrow> 's \<Rightarrow> string list result" where
  "s3_list_keys http ps c pre s =
     (case h_get http (s3_endpoint c @ ''/'' @ s3_bucket c @ ''?list-type=2&prefix='' @ pre) s of
        Inl e \<Rightarrow> Inl (Internal (''S3 list failed: '' @ e))
      | Inr (status, body) \<Rightarrow>
          if \<not> status_ok status then Inr []
          else Inr (case xml_keys ps (case body of Inr b \<Rightarrow> b | Inl _ \<Rightarrow> []) of Some ks \<Rightarrow> ks | None \<Rightarrow> []))"

definition s3_backup :: "'s s3_http \<Rightarrow> s3_parse \<Rightarrow> s3_config \<Rightarrow> 's backup_target" where
  "s3_backup http ps c =
     \<lparr>bt_upload = s3_upload http ps c, bt_exists = s3_exists http c, bt_list_keys = s3_list_keys http ps c,
      bt_download = download_backup http ps c\<rparr>"

section \<open>Encryption and chunks\<close>

record backup_crates =
  aes_seal :: "bytes \<Rightarrow> bytes \<Rightarrow> bytes \<Rightarrow> bytes option"
  aes_open :: "bytes \<Rightarrow> bytes \<Rightarrow> bytes \<Rightarrow> bytes option"
  sha_256 :: "bytes \<Rightarrow> bytes"
  hashes_to_json :: "string list \<Rightarrow> string + bytes"
  hashes_of_json :: "bytes \<Rightarrow> string + string list"

text \<open>A key has 32 bytes by its type, so that making the AES key does not fail.\<close>

definition backup_encrypt :: "backup_crates \<Rightarrow> bytes \<Rightarrow> bytes \<Rightarrow> bytes \<Rightarrow> bytes result" where
  "backup_encrypt cr key nonce plaintext =
     (case aes_seal cr key nonce plaintext of
        None \<Rightarrow> Inl (Internal ''AES-256-GCM encryption failed'')
      | Some in_out \<Rightarrow> Inr (nonce @ in_out))"

definition backup_decrypt :: "backup_crates \<Rightarrow> bytes \<Rightarrow> bytes \<Rightarrow> bytes result" where
  "backup_decrypt cr key data =
     (if length data < 12 then Inl (Internal (''Ciphertext too short '' @ emdash @ '' missing nonce''))
      else case aes_open cr key (take 12 data) (drop 12 data) of
        None \<Rightarrow> Inl (Internal ''AES-256-GCM decryption failed'')
      | Some plaintext \<Rightarrow> Inr plaintext)"

record content_chunk =
  ck_hash :: string
  ck_data :: bytes

function chunks_of :: "nat \<Rightarrow> bytes \<Rightarrow> bytes list" where
  "chunks_of n d = (if n = 0 \<or> d = [] then [] else take n d # chunks_of n (drop n d))"
  by pat_completeness auto
termination by (relation "measure (\<lambda>(n, d). length d)") auto

declare chunks_of.simps [simp del]

text \<open>\<open>chunks(0)\<close> panics: the value None.\<close>

definition chunk_and_hash :: "backup_crates \<Rightarrow> bytes \<Rightarrow> nat \<Rightarrow> content_chunk list option" where
  "chunk_and_hash cr data chunk_size =
     (if chunk_size = 0 then None
      else Some (map (\<lambda>chunk. \<lparr>ck_hash = hex_encode (sha_256 cr chunk), ck_data = chunk\<rparr>) (chunks_of chunk_size data)))"

section \<open>The backup manager\<close>

definition DEFAULT_CHUNK_SIZE :: nat where
  "DEFAULT_CHUNK_SIZE = 256 * 1024"

record backup_manager =
  bm_encryption_key :: bytes
  bm_prefix :: string
  bm_chunk_size :: nat

record backup_result =
  bk_manifest_key :: string
  bk_total_chunks :: nat
  bk_dedup_chunks :: nat
  bk_uploaded_chunks :: nat
  bk_uploaded_bytes :: u64

definition backup_manager_new :: "bytes \<Rightarrow> string \<Rightarrow> backup_manager" where
  "backup_manager_new encryption_key pre =
     \<lparr>bm_encryption_key = encryption_key, bm_prefix = pre, bm_chunk_size = DEFAULT_CHUNK_SIZE\<rparr>"

definition with_chunk_size :: "nat \<Rightarrow> backup_manager \<Rightarrow> backup_manager" where
  "with_chunk_size n m = m\<lparr>bm_chunk_size := n\<rparr>"

definition chunk_key :: "backup_manager \<Rightarrow> resource_iri \<Rightarrow> string \<Rightarrow> string" where
  "chunk_key m volume_iri hash = (bm_prefix m @ ''/'' @ sanitize_iri_for_path volume_iri @ ''/chunks'') @ ''/'' @ hash"

definition manifest_key :: "backup_manager \<Rightarrow> resource_iri \<Rightarrow> string \<Rightarrow> string" where
  "manifest_key m volume_iri snapshot_timestamp =
     bm_prefix m @ ''/'' @ sanitize_iri_for_path volume_iri @ ''/manifests/'' @ snapshot_timestamp"

text \<open>The loop over the chunks. A failing call ends the backup. As many nonces have been drawn as chunks
  have been uploaded.\<close>

fun upload_chunks ::
  "backup_crates \<Rightarrow> 't backup_target \<Rightarrow> (nat \<Rightarrow> bytes) \<Rightarrow> backup_manager \<Rightarrow> resource_iri \<Rightarrow> content_chunk list
   \<Rightarrow> nat \<Rightarrow> nat \<Rightarrow> u64 \<Rightarrow> 't \<Rightarrow> (nat \<times> nat \<times> u64) result \<times> 't" where
  "upload_chunks cr tg nonces m volume_iri [] dedup uploaded bytes t = (Inr (dedup, uploaded, bytes), t)"
| "upload_chunks cr tg nonces m volume_iri (chunk # chunks) dedup uploaded bytes t =
     (let key = chunk_key m volume_iri (ck_hash chunk)
      in case bt_exists tg key t of
           Inl e \<Rightarrow> (Inl e, t)
         | Inr True \<Rightarrow> upload_chunks cr tg nonces m volume_iri chunks (Suc dedup) uploaded bytes t
         | Inr False \<Rightarrow>
             (case backup_encrypt cr (bm_encryption_key m) (nonces uploaded) (ck_data chunk) of
                Inl e \<Rightarrow> (Inl e, t)
              | Inr encrypted \<Rightarrow>
                  (case bt_upload tg key encrypted t of
                     (Inl e, t) \<Rightarrow> (Inl e, t)
                   | (Inr _, t) \<Rightarrow>
                       upload_chunks cr tg nonces m volume_iri chunks dedup (Suc uploaded) (bytes + of_nat (length encrypted)) t)))"

text \<open>None is the panic on a chunk size of zero.\<close>

definition backup_snapshot ::
  "backup_crates \<Rightarrow> 't backup_target \<Rightarrow> (nat \<Rightarrow> bytes) \<Rightarrow> backup_manager \<Rightarrow> resource_iri \<Rightarrow> string \<Rightarrow> bytes \<Rightarrow> 't
   \<Rightarrow> backup_result result option \<times> 't" where
  "backup_snapshot cr tg nonces m volume_iri snapshot_timestamp snapshot_data t =
     (case chunk_and_hash cr snapshot_data (bm_chunk_size m) of
        None \<Rightarrow> (None, t)
      | Some chunks \<Rightarrow>
          (case upload_chunks cr tg nonces m volume_iri chunks 0 0 0 t of
             (Inl e, t) \<Rightarrow> (Some (Inl e), t)
           | (Inr (dedup, uploaded, bytes), t) \<Rightarrow>
               (case hashes_to_json cr (map ck_hash chunks) of
                  Inl e \<Rightarrow> (Some (Inl (Internal (''manifest serialization: '' @ e))), t)
                | Inr json \<Rightarrow>
                    (case backup_encrypt cr (bm_encryption_key m) (nonces uploaded) json of
                       Inl e \<Rightarrow> (Some (Inl e), t)
                     | Inr encrypted \<Rightarrow>
                         (case bt_upload tg (manifest_key m volume_iri snapshot_timestamp) encrypted t of
                            (Inl e, t) \<Rightarrow> (Some (Inl e), t)
                          | (Inr _, t) \<Rightarrow>
                              (Some (Inr \<lparr>bk_manifest_key = manifest_key m volume_iri snapshot_timestamp,
                                          bk_total_chunks = length chunks, bk_dedup_chunks = dedup,
                                          bk_uploaded_chunks = uploaded, bk_uploaded_bytes = bytes\<rparr>), t))))))"

fun download_chunks ::
  "backup_crates \<Rightarrow> 't backup_target \<Rightarrow> backup_manager \<Rightarrow> resource_iri \<Rightarrow> 't \<Rightarrow> string list \<Rightarrow> bytes \<Rightarrow> bytes result" where
  "download_chunks cr tg m volume_iri t [] output = Inr output"
| "download_chunks cr tg m volume_iri t (hash # hashes) output =
     and_then (bt_download tg (chunk_key m volume_iri hash) t) (\<lambda>encrypted_chunk.
     and_then (backup_decrypt cr (bm_encryption_key m) encrypted_chunk) (\<lambda>plaintext.
       download_chunks cr tg m volume_iri t hashes (output @ plaintext)))"

definition backup_restore ::
  "backup_crates \<Rightarrow> 't backup_target \<Rightarrow> backup_manager \<Rightarrow> resource_iri \<Rightarrow> string \<Rightarrow> 't \<Rightarrow> bytes result" where
  "backup_restore cr tg m volume_iri snapshot_timestamp t =
     and_then (bt_download tg (manifest_key m volume_iri snapshot_timestamp) t) (\<lambda>encrypted_manifest.
     and_then (backup_decrypt cr (bm_encryption_key m) encrypted_manifest) (\<lambda>manifest_json.
       case hashes_of_json cr manifest_json of
         Inl e \<Rightarrow> Inl (Internal (''manifest parse: '' @ e))
       | Inr chunk_hashes \<Rightarrow> download_chunks cr tg m volume_iri t chunk_hashes []))"
section \<open>Chunks and keys\<close>

lemma concat_chunks: "n \<noteq> 0 \<Longrightarrow> concat (chunks_of n d) = d"
  by (induction n d rule: chunks_of.induct) (subst chunks_of.simps, simp)

definition chunk_hash :: "backup_crates \<Rightarrow> bytes \<Rightarrow> string" where
  "chunk_hash cr d = hex_encode (sha_256 cr d)"

lemma hash_no_slash: "slash \<notin> set (chunk_hash cr d)"
  using hex_encode_chars unfolding chunk_hash_def by blast

text \<open>The last segment of a key tells it apart when it has no slash; the one before it tells chunks
  from manifests.\<close>

lemma last_segment:
  assumes "slash \<notin> set a" "slash \<notin> set b" "p @ slash # a = q @ slash # b"
  shows "a = b \<and> p = q"
proof -
  have "takeWhile (\<lambda>c. c \<noteq> slash) (rev (p @ slash # a)) = rev a" "takeWhile (\<lambda>c. c \<noteq> slash) (rev (q @ slash # b)) = rev b"
    using assms(1,2) by (simp_all add: takeWhile_append takeWhile_eq_all_conv [THEN iffD2])
  with assms(3) have "rev a = rev b" by metis
  with assms(3) show ?thesis by simp
qed

lemma chunk_key_neq_manifest:
  assumes "slash \<notin> set ts"
  shows "chunk_key m v (chunk_hash cr d) \<noteq> manifest_key m v' ts"
proof
  assume "chunk_key m v (chunk_hash cr d) = manifest_key m v' ts"
  then have "(bm_prefix m @ ''/'' @ sanitize_iri_for_path v @ ''/chunks'') @ slash # chunk_hash cr d =
      (bm_prefix m @ ''/'' @ sanitize_iri_for_path v' @ ''/manifests'') @ slash # ts"
    by (simp add: chunk_key_def manifest_key_def)
  from last_segment [OF hash_no_slash assms this]
  have "rev (sanitize_iri_for_path v @ ''/chunks'') = rev (sanitize_iri_for_path v' @ ''/manifests'')" by simp
  then show False by simp
qed

lemma chunk_key_eq:
  assumes "chunk_key m v (chunk_hash cr d) = chunk_key m v' (chunk_hash cr e)"
  shows "chunk_hash cr d = chunk_hash cr e"
  using last_segment [OF hash_no_slash hash_no_slash, of "bm_prefix m @ ''/'' @ sanitize_iri_for_path v @ ''/chunks''" cr d]
    assms by (auto simp: chunk_key_def)

text \<open>What the crates promise: opening undoes sealing, parsing undoes printing.\<close>

definition crates_law :: "backup_crates \<Rightarrow> bool" where
  "crates_law cr \<longleftrightarrow>
     (\<forall>k n p c. aes_seal cr k n p = Some c \<longrightarrow> aes_open cr k n c = Some p) \<and>
     (\<forall>hs j. hashes_to_json cr hs = Inr j \<longrightarrow> hashes_of_json cr j = Inr hs)"

lemma decrypt_encrypt:
  "crates_law cr \<Longrightarrow> length nonce = 12 \<Longrightarrow> backup_encrypt cr key nonce p = Inr c \<Longrightarrow> backup_decrypt cr key c = Inr p"
  by (auto simp: backup_encrypt_def backup_decrypt_def crates_law_def split: option.splits)

section \<open>The contract of a target\<close>

text \<open>The objects a target holds: an upload that succeeds stores the object; one that fails may have
  stored it; a key reported as present is; what is downloaded is what is stored. A key that is
  present may be reported as absent, as the S3 client does for every status but success.\<close>

locale backup_store =
  fixes tg :: "'t backup_target" and contents :: "'t \<Rightarrow> string \<Rightarrow> bytes option"
  assumes upload_ok: "bt_upload tg k d t = (Inr u, t') \<Longrightarrow> contents t' = (contents t)(k \<mapsto> d)"
    and upload_failed: "bt_upload tg k d t = (Inl e, t') \<Longrightarrow> contents t' = contents t \<or> contents t' = (contents t)(k \<mapsto> d)"
    and exists_sound: "bt_exists tg k t = Inr True \<Longrightarrow> contents t k \<noteq> None"
    and download_sound: "bt_download tg k t = Inr d \<Longrightarrow> contents t k = Some d"
begin

text \<open>Every stored chunk decrypts to data of its hash.\<close>

definition good :: "backup_crates \<Rightarrow> backup_manager \<Rightarrow> bytes set \<Rightarrow> 't \<Rightarrow> bool" where
  "good cr m C t \<longleftrightarrow>
     (\<forall>v d obj. contents t (chunk_key m v (chunk_hash cr d)) = Some obj \<longrightarrow>
        (\<exists>e \<in> C. backup_decrypt cr (bm_encryption_key m) obj = Inr e \<and> chunk_hash cr e = chunk_hash cr d))"

lemma good_put:
  assumes "good cr m C t" "contents t' = (contents t)(chunk_key m v (chunk_hash cr d) \<mapsto> c)"
    "backup_decrypt cr (bm_encryption_key m) c = Inr d" "d \<in> C"
  shows "good cr m C t'"
  unfolding good_def
proof (intro allI impI)
  fix v' d' obj assume o: "contents t' (chunk_key m v' (chunk_hash cr d')) = Some obj"
  show "\<exists>e \<in> C. backup_decrypt cr (bm_encryption_key m) obj = Inr e \<and> chunk_hash cr e = chunk_hash cr d'"
  proof (cases "chunk_key m v' (chunk_hash cr d') = chunk_key m v (chunk_hash cr d)")
    case True
    with o assms(2-4) chunk_key_eq [OF True] show ?thesis by auto
  next
    case False
    with o assms(1,2) show ?thesis by (auto simp: good_def)
  qed
qed

lemma good_other:
  assumes "good cr m C t" "contents t' = (contents t)(manifest_key m v ts \<mapsto> c)" "slash \<notin> set ts"
  shows "good cr m C t'"
  using assms chunk_key_neq_manifest [OF assms(3)] unfolding good_def by auto

text \<open>Uploading the chunks of a snapshot, whether or not it ends well.\<close>

definition chunks_kept :: "backup_manager \<Rightarrow> 't \<Rightarrow> 't \<Rightarrow> bool" where
  "chunks_kept m t t' \<longleftrightarrow>
     (\<forall>k. contents t k \<noteq> None \<longrightarrow> contents t' k \<noteq> None) \<and>
     (\<forall>v ts. slash \<notin> set ts \<longrightarrow> contents t' (manifest_key m v ts) = contents t (manifest_key m v ts))"

lemma chunks_kept_refl: "chunks_kept m t t"
  by (simp add: chunks_kept_def)

lemma chunks_kept_trans: "chunks_kept m t t' \<Longrightarrow> chunks_kept m t' t'' \<Longrightarrow> chunks_kept m t t''"
  by (simp add: chunks_kept_def)

lemma chunks_kept_put:
  "contents t' = (contents t)(chunk_key m v (chunk_hash cr d) \<mapsto> c) \<Longrightarrow> chunks_kept m t t'"
  using chunk_key_neq_manifest [of _ m v cr d, THEN not_sym] by (simp add: chunks_kept_def)

lemma upload_chunks_good:
  assumes "crates_law cr" "\<And>i. length (nonces i) = 12"
  shows "good cr m C t \<Longrightarrow> \<forall>c \<in> set chunks. ck_data c \<in> C \<and> ck_hash c = chunk_hash cr (ck_data c) \<Longrightarrow>
    upload_chunks cr tg nonces m v chunks dedup uploaded bytes t = (r, t') \<Longrightarrow>
    good cr m C t' \<and> chunks_kept m t t' \<and>
    (\<forall>dd uu bb. r = Inr (dd, uu, bb) \<longrightarrow>
       dd + uu = dedup + uploaded + length chunks \<and> (\<forall>c \<in> set chunks. contents t' (chunk_key m v (ck_hash c)) \<noteq> None))"
proof (induction chunks arbitrary: dedup uploaded bytes t)
  case Nil
  then show ?case by (auto simp: chunks_kept_refl)
next
  case (Cons c chunks)
  let ?k = "chunk_key m v (ck_hash c)"
  have c: "ck_data c \<in> C" "ck_hash c = chunk_hash cr (ck_data c)" using Cons.prems(2) by simp_all
  have rest: "\<forall>c \<in> set chunks. ck_data c \<in> C \<and> ck_hash c = chunk_hash cr (ck_data c)" using Cons.prems(2) by simp
  consider (err) e where "r = Inl e" "t' = t"
    | (dup) "contents t ?k \<noteq> None" "upload_chunks cr tg nonces m v chunks (Suc dedup) uploaded bytes t = (r, t')"
    | (up) x y t1 where "backup_decrypt cr (bm_encryption_key m) x = Inr (ck_data c)" "bt_upload tg ?k x t = (y, t1)"
        "(\<exists>e. y = Inl e \<and> r = Inl e \<and> t' = t1) \<or>
         (y = Inr () \<and> (\<exists>b. upload_chunks cr tg nonces m v chunks dedup (Suc uploaded) b t1 = (r, t')))"
  proof (cases "bt_exists tg ?k t = Inr False \<and> (\<exists>x. backup_encrypt cr (bm_encryption_key m) (nonces uploaded) (ck_data c) = Inr x)")
    case True
    then obtain x where x: "backup_encrypt cr (bm_encryption_key m) (nonces uploaded) (ck_data c) = Inr x" by blast
    obtain y t1 where y: "bt_upload tg ?k x t = (y, t1)" by (cases "bt_upload tg ?k x t")
    show thesis
      by (rule that(3) [OF decrypt_encrypt [OF assms(1,2) x] y])
        (use Cons.prems(3) True x y in \<open>auto simp: Let_def split: sum.splits\<close>)
  next
    case False
    then show thesis
      using that(1,2) Cons.prems(3) exists_sound [of ?k t] by (auto simp: Let_def split: sum.splits bool.splits prod.splits)
  qed
  then show ?case
  proof cases
    case err
    with Cons.prems(1) show ?thesis by (simp add: chunks_kept_refl)
  next
    case dup
    from Cons.IH [OF Cons.prems(1) rest dup(2)] dup(1) show ?thesis by (auto simp: chunks_kept_def)
  next
    case up
    have t1: "contents t1 = contents t \<or> contents t1 = (contents t)(?k \<mapsto> x)"
      using upload_ok [of ?k x t "()" t1] upload_failed [of ?k x t _ t1] up(2,3) by auto
    then have g: "good cr m C t1" "chunks_kept m t t1"
      using Cons.prems(1) good_put [OF Cons.prems(1) _ up(1) c(1), of t1 v] chunks_kept_put [of t1 t m v cr "ck_data c" x] c(2)
      by (auto simp: good_def chunks_kept_def)
    from up(3) show ?thesis
    proof
      assume "\<exists>e. y = Inl e \<and> r = Inl e \<and> t' = t1"
      with g show ?thesis by auto
    next
      assume y: "y = Inr () \<and> (\<exists>b. upload_chunks cr tg nonces m v chunks dedup (Suc uploaded) b t1 = (r, t'))"
      then obtain b where "upload_chunks cr tg nonces m v chunks dedup (Suc uploaded) b t1 = (r, t')" by blast
      from Cons.IH [OF g(1) rest this] g(2) y upload_ok [of ?k x t "()" t1] up(2) show ?thesis
        by (auto simp: chunks_kept_def)
    qed
  qed
qed

end
record backup_op =
  bo_volume :: resource_iri
  bo_timestamp :: string
  bo_data :: bytes
  bo_nonces :: "nat \<Rightarrow> bytes"

definition run_backups :: "backup_crates \<Rightarrow> 't backup_target \<Rightarrow> backup_manager \<Rightarrow> backup_op list \<Rightarrow> 't \<Rightarrow> 't" where
  "run_backups cr tg m ops t =
     foldl (\<lambda>t b. snd (backup_snapshot cr tg (bo_nonces b) m (bo_volume b) (bo_timestamp b) (bo_data b) t)) t ops"

text \<open>Operations within a set of chunks, with nonces of the length of the cipher and a timestamp that is a
  single segment.\<close>

definition op_ok :: "backup_manager \<Rightarrow> bytes set \<Rightarrow> backup_op \<Rightarrow> bool" where
  "op_ok m C b \<longleftrightarrow>
     set (chunks_of (bm_chunk_size m) (bo_data b)) \<subseteq> C \<and> slash \<notin> set (bo_timestamp b) \<and> (\<forall>i. length (bo_nonces b i) = 12)"

text \<open>The ways a backup can go: it stops before the manifest, or it uploads one that decrypts and parses to
  the hashes.\<close>

lemma backup_snapshot_cases:
  assumes "crates_law cr" "\<And>i. length (nonces i) = 12"
    and u: "upload_chunks cr tg nonces m v (map (\<lambda>c. \<lparr>ck_hash = hex_encode (sha_256 cr c), ck_data = c\<rparr>) (chunks_of (bm_chunk_size m) data)) 0 0 0 t = (y, t1)"
    and r: "backup_snapshot cr tg nonces m v ts data t = (r, t')"
  shows "(t' = t \<or> t' = t1) \<and> (\<forall>res. r \<noteq> Some (Inr res)) \<or>
    (\<exists>j x z. backup_decrypt cr (bm_encryption_key m) x = Inr j \<and>
       hashes_of_json cr j = Inr (map (chunk_hash cr) (chunks_of (bm_chunk_size m) data)) \<and>
       bt_upload tg (manifest_key m v ts) x t1 = (z, t') \<and>
       (\<forall>res. r = Some (Inr res) \<longrightarrow> z = Inr () \<and> (\<exists>bb. y = Inr (bk_dedup_chunks res, bk_uploaded_chunks res, bb)) \<and>
          bk_total_chunks res = length (chunks_of (bm_chunk_size m) data)))"
proof (cases "bm_chunk_size m = 0 \<or> (\<exists>e. y = Inl e) \<or>
    (\<exists>e. hashes_to_json cr (map (chunk_hash cr) (chunks_of (bm_chunk_size m) data)) = Inl e)")
  case True
  with r u show ?thesis
    by (auto simp: backup_snapshot_def chunk_and_hash_def chunk_hash_def [abs_def] comp_def split: if_splits sum.splits)
next
  case False
  then obtain dd uu bb j where y: "y = Inr (dd, uu, bb)"
    "hashes_to_json cr (map (chunk_hash cr) (chunks_of (bm_chunk_size m) data)) = Inr j"
    by (cases y; cases "hashes_to_json cr (map (chunk_hash cr) (chunks_of (bm_chunk_size m) data))") auto
  have j: "hashes_of_json cr j = Inr (map (chunk_hash cr) (chunks_of (bm_chunk_size m) data))"
    using assms(1) y(2) unfolding crates_law_def by blast
  show ?thesis
  proof (cases "backup_encrypt cr (bm_encryption_key m) (nonces uu) j")
    case (Inl e)
    with r u y False show ?thesis by (auto simp: backup_snapshot_def chunk_and_hash_def chunk_hash_def [abs_def] comp_def)
  next
    case (Inr x)
    obtain z t2 where z: "bt_upload tg (manifest_key m v ts) x t1 = (z, t2)" by force
    have "t2 = t' \<and> (\<forall>res. r = Some (Inr res) \<longrightarrow> z = Inr () \<and> bk_total_chunks res = length (chunks_of (bm_chunk_size m) data) \<and>
        bk_dedup_chunks res = dd \<and> bk_uploaded_chunks res = uu)"
      using r u y False Inr z
      by (auto simp: backup_snapshot_def chunk_and_hash_def chunk_hash_def [abs_def] comp_def split: sum.splits)
    with j z y(1) decrypt_encrypt [OF assms(1,2) Inr] show ?thesis by blast
  qed
qed

context backup_store
begin

definition stored :: "backup_crates \<Rightarrow> backup_manager \<Rightarrow> resource_iri \<Rightarrow> string \<Rightarrow> bytes \<Rightarrow> 't \<Rightarrow> bool" where
  "stored cr m v ts data t \<longleftrightarrow>
     (\<exists>obj j. contents t (manifest_key m v ts) = Some obj \<and> backup_decrypt cr (bm_encryption_key m) obj = Inr j \<and>
        hashes_of_json cr j = Inr (map (chunk_hash cr) (chunks_of (bm_chunk_size m) data))) \<and>
     (\<forall>c \<in> set (chunks_of (bm_chunk_size m) data). contents t (chunk_key m v (chunk_hash cr c)) \<noteq> None)"

text \<open>One backup, whatever its outcome: the store stays good, manifests other than its own stay, no
  object goes; when it succeeds the snapshot is stored.\<close>

lemma backup_step:
  assumes "crates_law cr" "good cr m C t" "op_ok m C b"
    and r: "backup_snapshot cr tg (bo_nonces b) m (bo_volume b) (bo_timestamp b) (bo_data b) t = (r, t')"
  shows "good cr m C t'" "\<And>k. contents t k \<noteq> None \<Longrightarrow> contents t' k \<noteq> None"
    "\<And>v ts. slash \<notin> set ts \<Longrightarrow> manifest_key m v ts \<noteq> manifest_key m (bo_volume b) (bo_timestamp b) \<Longrightarrow>
       contents t' (manifest_key m v ts) = contents t (manifest_key m v ts)"
    "\<And>res. r = Some (Inr res) \<Longrightarrow> stored cr m (bo_volume b) (bo_timestamp b) (bo_data b) t' \<and>
       bk_total_chunks res = length (chunks_of (bm_chunk_size m) (bo_data b)) \<and>
       bk_dedup_chunks res + bk_uploaded_chunks res = bk_total_chunks res"
proof -
  let ?chunks = "map (\<lambda>c. \<lparr>ck_hash = hex_encode (sha_256 cr c), ck_data = c\<rparr>) (chunks_of (bm_chunk_size m) (bo_data b))"
  let ?k = "manifest_key m (bo_volume b) (bo_timestamp b)"
  obtain y t1 where u: "upload_chunks cr tg (bo_nonces b) m (bo_volume b) ?chunks 0 0 0 t = (y, t1)" by force
  have chunks: "\<forall>c \<in> set ?chunks. ck_data c \<in> C \<and> ck_hash c = chunk_hash cr (ck_data c)"
    using assms(3) by (auto simp: op_ok_def chunk_hash_def)
  have ts: "slash \<notin> set (bo_timestamp b)" "\<And>i. length (bo_nonces b i) = 12" using assms(3) by (simp_all add: op_ok_def)
  from upload_chunks_good [OF assms(1) ts(2) assms(2) chunks u]
  have t1: "good cr m C t1" "chunks_kept m t t1"
    and done_: "\<And>dd uu bb. y = Inr (dd, uu, bb) \<Longrightarrow> dd + uu = length ?chunks \<and>
        (\<forall>c \<in> set ?chunks. contents t1 (chunk_key m (bo_volume b) (ck_hash c)) \<noteq> None)" by auto
  note cases = backup_snapshot_cases [OF assms(1) ts(2) u r]
  have t': "contents t' = contents t \<or> contents t' = contents t1 \<or> (\<exists>x. contents t' = (contents t1)(?k \<mapsto> x))"
    using cases upload_ok [of ?k _ t1 "()" t'] upload_failed [of ?k _ t1 _ t'] by (metis obj_sumE old.unit.exhaust)
  then show "good cr m C t'" using assms(2) t1(1) good_other [OF t1(1) _ ts(1)] by (auto simp: good_def)
  show "contents t' k \<noteq> None" if "contents t k \<noteq> None" for k
    using t' t1(2) that by (auto simp: chunks_kept_def)
  show "contents t' (manifest_key m v ts) = contents t (manifest_key m v ts)"
    if "slash \<notin> set ts" "manifest_key m v ts \<noteq> ?k" for v ts
    using t' t1(2) that by (auto simp: chunks_kept_def)
  fix res assume "r = Some (Inr res)"
  with cases obtain j x bb where x: "backup_decrypt cr (bm_encryption_key m) x = Inr j"
    "hashes_of_json cr j = Inr (map (chunk_hash cr) (chunks_of (bm_chunk_size m) (bo_data b)))" "bt_upload tg ?k x t1 = (Inr (), t')"
    "y = Inr (bk_dedup_chunks res, bk_uploaded_chunks res, bb)"
    "bk_total_chunks res = length (chunks_of (bm_chunk_size m) (bo_data b))" by blast
  have "contents t' = (contents t1)(?k \<mapsto> x)" using upload_ok [OF x(3)] .
  with x(1,2) done_ [OF x(4)] have "stored cr m (bo_volume b) (bo_timestamp b) (bo_data b) t'"
    by (auto simp: stored_def chunk_hash_def)
  with x(5) done_ [OF x(4)] show "stored cr m (bo_volume b) (bo_timestamp b) (bo_data b) t' \<and>
       bk_total_chunks res = length (chunks_of (bm_chunk_size m) (bo_data b)) \<and>
       bk_dedup_chunks res + bk_uploaded_chunks res = bk_total_chunks res" by simp
qed

lemma good_run:
  "crates_law cr \<Longrightarrow> good cr m C t \<Longrightarrow> list_all (op_ok m C) ops \<Longrightarrow> good cr m C (run_backups cr tg m ops t)"
proof (induction ops arbitrary: t)
  case (Cons b ops)
  obtain r t' where s: "backup_snapshot cr tg (bo_nonces b) m (bo_volume b) (bo_timestamp b) (bo_data b) t = (r, t')" by force
  have "good cr m C t'" using backup_step(1) [OF Cons.prems(1,2) _ s] Cons.prems(3) by simp
  with Cons.IH Cons.prems(1,3) s show ?case by (simp add: run_backups_def)
qed (simp add: run_backups_def)

lemma stored_run:
  assumes "crates_law cr"
  shows "good cr m C t \<Longrightarrow> stored cr m v ts data t \<Longrightarrow> slash \<notin> set ts \<Longrightarrow>
    list_all (\<lambda>b. op_ok m C b \<and> manifest_key m (bo_volume b) (bo_timestamp b) \<noteq> manifest_key m v ts) ops \<Longrightarrow>
    good cr m C (run_backups cr tg m ops t) \<and> stored cr m v ts data (run_backups cr tg m ops t)"
proof (induction ops arbitrary: t)
  case (Cons b ops)
  obtain r t' where s: "backup_snapshot cr tg (bo_nonces b) m (bo_volume b) (bo_timestamp b) (bo_data b) t = (r, t')" by force
  have b: "op_ok m C b" "manifest_key m v ts \<noteq> manifest_key m (bo_volume b) (bo_timestamp b)" using Cons.prems(4) by auto
  note step = backup_step [OF assms Cons.prems(1) b(1) s]
  have "stored cr m v ts data t'"
    using Cons.prems(2) step(2) step(3) [OF Cons.prems(3) b(2)] by (auto simp: stored_def)
  with Cons.IH [OF step(1)] Cons.prems(3,4) show ?case by (simp add: run_backups_def s)
qed (simp add: run_backups_def)

lemma download_chunks_sound:
  assumes "good cr m C t" "inj_on (chunk_hash cr) C"
  shows "set cs \<subseteq> C \<Longrightarrow> download_chunks cr tg m v t (map (chunk_hash cr) cs) out = Inr x \<Longrightarrow> x = out @ concat cs"
proof (induction cs arbitrary: out)
  case (Cons c cs)
  from Cons.prems(2) obtain obj p where o: "bt_download tg (chunk_key m v (chunk_hash cr c)) t = Inr obj"
    "backup_decrypt cr (bm_encryption_key m) obj = Inr p" "download_chunks cr tg m v t (map (chunk_hash cr) cs) (out @ p) = Inr x"
    by (auto simp: and_then_Inr_iff)
  obtain e where "e \<in> C" "backup_decrypt cr (bm_encryption_key m) obj = Inr e" "chunk_hash cr e = chunk_hash cr c"
    using assms(1) download_sound [OF o(1)] unfolding good_def by blast
  with o(2) assms(2) Cons.prems(1) have "p = c" by (auto simp: inj_on_def)
  with Cons.IH [OF _ o(3)] Cons.prems(1) show ?case by simp
qed simp

text \<open>Whatever a restore returns is the data of the backup.\<close>

lemma restore_sound:
  assumes "good cr m C t" "inj_on (chunk_hash cr) C" "stored cr m v ts data t" "bm_chunk_size m \<noteq> 0"
    "set (chunks_of (bm_chunk_size m) data) \<subseteq> C" "backup_restore cr tg m v ts t = Inr x"
  shows "x = data"
proof -
  from assms(3) obtain obj j where s: "contents t (manifest_key m v ts) = Some obj" "backup_decrypt cr (bm_encryption_key m) obj = Inr j"
    "hashes_of_json cr j = Inr (map (chunk_hash cr) (chunks_of (bm_chunk_size m) data))" by (auto simp: stored_def)
  from assms(6) obtain o' where "bt_download tg (manifest_key m v ts) t = Inr o'"
    by (auto simp: backup_restore_def and_then_Inr_iff)
  with download_sound [OF this] s assms(6)
  have "download_chunks cr tg m v t (map (chunk_hash cr) (chunks_of (bm_chunk_size m) data)) [] = Inr x"
    by (simp add: backup_restore_def)
  from download_chunks_sound [OF assms(1,2,5) this] concat_chunks [OF assms(4)] show ?thesis by simp
qed

end

text \<open>A target that answers: downloads of what is stored succeed.\<close>

locale available_backup_store = backup_store +
  assumes download_ok: "contents t k = Some d \<Longrightarrow> bt_download tg k t = Inr d"
begin

lemma download_chunks_total:
  assumes "good cr m C t"
  shows "\<forall>c \<in> set cs. contents t (chunk_key m v (chunk_hash cr c)) \<noteq> None \<Longrightarrow>
    \<exists>x. download_chunks cr tg m v t (map (chunk_hash cr) cs) out = Inr x"
proof (induction cs arbitrary: out)
  case (Cons c cs)
  then obtain obj where o: "contents t (chunk_key m v (chunk_hash cr c)) = Some obj" by auto
  then obtain e where "backup_decrypt cr (bm_encryption_key m) obj = Inr e" using assms unfolding good_def by blast
  with download_ok [OF o] Cons show ?case by simp
qed simp

lemma restore_total:
  assumes "good cr m C t" "stored cr m v ts data t"
  shows "\<exists>x. backup_restore cr tg m v ts t = Inr x"
proof -
  from assms(2) obtain obj j where s: "contents t (manifest_key m v ts) = Some obj" "backup_decrypt cr (bm_encryption_key m) obj = Inr j"
    "hashes_of_json cr j = Inr (map (chunk_hash cr) (chunks_of (bm_chunk_size m) data))" by (auto simp: stored_def)
  with assms(2) download_chunks_total [OF assms(1), of "chunks_of (bm_chunk_size m) data" v "[]"] download_ok [OF s(1)]
  show ?thesis by (auto simp: backup_restore_def stored_def)
qed

lemma round_trip:
  assumes "crates_law cr" "inj_on (chunk_hash cr) C" "good cr m C t" "bm_chunk_size m \<noteq> 0" "op_ok m C b"
    and "backup_snapshot cr tg (bo_nonces b) m (bo_volume b) (bo_timestamp b) (bo_data b) t = (Some (Inr res), t')"
    and "list_all (\<lambda>o'. op_ok m C o' \<and> manifest_key m (bo_volume o') (bo_timestamp o') \<noteq> manifest_key m (bo_volume b) (bo_timestamp b)) ops"
  shows "backup_restore cr tg m (bo_volume b) (bo_timestamp b) (run_backups cr tg m ops t') = Inr (bo_data b)"
proof -
  note step = backup_step [OF assms(1,3,5,6)]
  have b: "slash \<notin> set (bo_timestamp b)" "set (chunks_of (bm_chunk_size m) (bo_data b)) \<subseteq> C" using assms(5) by (simp_all add: op_ok_def)
  let ?t = "run_backups cr tg m ops t'"
  have "good cr m C ?t" "stored cr m (bo_volume b) (bo_timestamp b) (bo_data b) ?t"
    using stored_run [OF assms(1) step(1) _ b(1) assms(7)] step(4) by blast+
  with restore_total [OF this] restore_sound [OF this(1) assms(2) this(2) assms(4) b(2)] show ?thesis by auto
qed

end
section \<open>The two targets\<close>

interpretation mem_backup: available_backup_store memory_backup "\<lambda>t. map_of (mt_store t)"
proof unfold_locales
  fix k d t e and t' :: in_memory_target and u :: unit
  show "map_of (mt_store t') = (map_of (mt_store t))(k \<mapsto> d)" if "bt_upload memory_backup k d t = (Inr u, t')"
    using that by (auto simp: memory_backup_def mt_upload_def map_of_hm_insert split: option.splits)
  show "map_of (mt_store t') = map_of (mt_store t) \<or> map_of (mt_store t') = (map_of (mt_store t))(k \<mapsto> d)"
    if "bt_upload memory_backup k d t = (Inl e, t')"
    using that by (simp add: memory_backup_def mt_upload_def split: option.splits)
qed (auto simp: memory_backup_def mt_exists_def mt_download_def split: option.splits)

text \<open>What S3 documents of the requests the client makes: a put that is answered with success has
  stored the object, any other may have; an object that is found exists, and a get returns it.\<close>

definition s3_laws :: "'s s3_http \<Rightarrow> s3_config \<Rightarrow> ('s \<Rightarrow> string \<Rightarrow> bytes option) \<Rightarrow> bool" where
  "s3_laws http c objects \<longleftrightarrow>
     (\<forall>k d s r s'. h_put http (s3_url c k) d s = (r, s') \<longrightarrow>
        objects s' = (objects s)(k \<mapsto> d) \<or> objects s' = objects s \<and> (\<forall>status b. r = Inr (status, b) \<longrightarrow> \<not> status_ok status)) \<and>
     (\<forall>k s status b. h_head http (s3_url c k) s = Inr (status, b) \<and> status_ok status \<longrightarrow> objects s k \<noteq> None) \<and>
     (\<forall>k s status b. h_get http (s3_url c k) s = Inr (status, Inr b) \<and> status_ok status \<longrightarrow> objects s k = Some b)"

lemma s3_backup_store:
  assumes "s3_laws http c objects"
  shows "backup_store (s3_backup http ps c) objects"
proof
  fix k d s s' e and u :: unit
  note put = assms [unfolded s3_laws_def, THEN conjunct1, rule_format, of k d s _ s']
  show "objects s' = (objects s)(k \<mapsto> d)" if "bt_upload (s3_backup http ps c) k d s = (Inr u, s')"
    using that put by (auto simp: s3_backup_def s3_upload_def split: prod.splits sum.splits if_splits)
  show "objects s' = objects s \<or> objects s' = (objects s)(k \<mapsto> d)" if "bt_upload (s3_backup http ps c) k d s = (Inl e, s')"
    using that put by (auto simp: s3_backup_def s3_upload_def split: prod.splits sum.splits if_splits)
  show "objects s k \<noteq> None" if "bt_exists (s3_backup http ps c) k s = Inr True"
    using that assms unfolding s3_laws_def by (auto simp: s3_backup_def s3_exists_def split: sum.splits)
  show "objects s k = Some d" if "bt_download (s3_backup http ps c) k s = Inr d"
    using that assms unfolding s3_laws_def by (auto simp: s3_backup_def download_backup_def split: sum.splits if_splits)
qed

text \<open>With the S3 client too, however requests fail, a restore of a backup that was reported as complete
  fails or returns its data, whatever other backups ran in between.\<close>

theorem s3_restore_returns_the_backup:
  assumes "s3_laws http c objects" "crates_law cr" "inj_on (chunk_hash cr) C" "bm_chunk_size m \<noteq> 0"
    and "objects s = Map.empty" "list_all (op_ok m C) before" "op_ok m C b"
    and "backup_snapshot cr (s3_backup http ps c) (bo_nonces b) m (bo_volume b) (bo_timestamp b) (bo_data b)
      (run_backups cr (s3_backup http ps c) m before s) = (Some (Inr res), s')"
    and "list_all (\<lambda>o'. op_ok m C o' \<and> manifest_key m (bo_volume o') (bo_timestamp o') \<noteq> manifest_key m (bo_volume b) (bo_timestamp b)) after"
    and "backup_restore cr (s3_backup http ps c) m (bo_volume b) (bo_timestamp b) (run_backups cr (s3_backup http ps c) m after s') = Inr x"
  shows "x = bo_data b"
proof -
  note st = s3_backup_store [OF assms(1), of ps]
  let ?s = "run_backups cr (s3_backup http ps c) m before s"
  have "backup_store.good objects cr m C s" using assms(5) by (simp add: backup_store.good_def [OF st])
  then have g: "backup_store.good objects cr m C ?s" using backup_store.good_run [OF st assms(2)] assms(6) by blast
  note step = backup_store.backup_step [OF st assms(2) g assms(7,8)]
  have b: "slash \<notin> set (bo_timestamp b)" "set (chunks_of (bm_chunk_size m) (bo_data b)) \<subseteq> C" using assms(7) by (simp_all add: op_ok_def)
  have "backup_store.good objects cr m C (run_backups cr (s3_backup http ps c) m after s')"
    "backup_store.stored objects cr m (bo_volume b) (bo_timestamp b) (bo_data b) (run_backups cr (s3_backup http ps c) m after s')"
    using backup_store.stored_run [OF st assms(2) step(1) _ b(1) assms(9)] step(4) by blast+
  from backup_store.restore_sound [OF st this(1) assms(3) this(2) assms(4) b(2) assms(10)] show ?thesis .
qed

text \<open>On the in-memory target no operation fails while the crates do not.\<close>

definition crates_total :: "backup_crates \<Rightarrow> bool" where
  "crates_total cr \<longleftrightarrow> (\<forall>k n p. aes_seal cr k n p \<noteq> None) \<and> (\<forall>hs. \<exists>j. hashes_to_json cr hs = Inr j)"

lemma encrypt_total: "crates_total cr \<Longrightarrow> \<exists>c. backup_encrypt cr k n p = Inr c"
  by (auto simp: crates_total_def backup_encrypt_def split: option.splits)

lemma memory_upload: "mt_failure_message t = None \<Longrightarrow>
    \<exists>t'. bt_upload memory_backup k d t = (Inr (), t') \<and> mt_failure_message t' = None"
  by (simp add: memory_backup_def mt_upload_def)

lemma upload_chunks_memory:
  assumes "crates_total cr"
  shows "mt_failure_message t = None \<Longrightarrow>
    \<exists>x t'. upload_chunks cr memory_backup nonces m v chunks dd uu bb t = (Inr x, t') \<and> mt_failure_message t' = None"
proof (induction chunks arbitrary: dd uu bb t)
  case (Cons c chunks)
  let ?k = "chunk_key m v (ck_hash c)"
  obtain x where x: "backup_encrypt cr (bm_encryption_key m) (nonces uu) (ck_data c) = Inr x" using encrypt_total [OF assms] by blast
  obtain t' where t': "bt_upload memory_backup ?k x t = (Inr (), t')" "mt_failure_message t' = None"
    using memory_upload [OF Cons.prems] by blast
  have "bt_exists memory_backup ?k t = Inr (map_of (mt_store t) ?k \<noteq> None)" by (simp add: memory_backup_def mt_exists_def)
  with Cons.IH [OF Cons.prems, of "Suc dd" uu bb] Cons.IH [OF t'(2)] t'(1) x show ?case
    by (cases "map_of (mt_store t) ?k") simp_all
qed simp

lemma backup_memory:
  assumes "crates_total cr" "mt_failure_message t = None" "bm_chunk_size m \<noteq> 0"
  shows "\<exists>res t'. backup_snapshot cr memory_backup nonces m v ts data t = (Some (Inr res), t') \<and> mt_failure_message t' = None"
proof -
  obtain chunks where ch: "chunk_and_hash cr data (bm_chunk_size m) = Some chunks" using assms(3) by (simp add: chunk_and_hash_def)
  obtain dd uu bb t1 where u: "upload_chunks cr memory_backup nonces m v chunks 0 0 0 t = (Inr (dd, uu, bb), t1)" "mt_failure_message t1 = None"
    using upload_chunks_memory [OF assms(1,2)] by (metis prod_cases3)
  obtain j where j: "hashes_to_json cr (map ck_hash chunks) = Inr j" using assms(1) unfolding crates_total_def by blast
  obtain x where x: "backup_encrypt cr (bm_encryption_key m) (nonces uu) j = Inr x" using encrypt_total [OF assms(1)] by blast
  from memory_upload [OF u(2), of "manifest_key m v ts" x] ch u(1) j x show ?thesis by (auto simp: backup_snapshot_def)
qed

lemma run_backups_memory:
  assumes "crates_total cr" "bm_chunk_size m \<noteq> 0"
  shows "mt_failure_message t = None \<Longrightarrow> mt_failure_message (run_backups cr memory_backup m ops t) = None"
proof (induction ops arbitrary: t)
  case (Cons b ops)
  obtain res t' where "backup_snapshot cr memory_backup (bo_nonces b) m (bo_volume b) (bo_timestamp b) (bo_data b) t = (Some (Inr res), t')"
    "mt_failure_message t' = None" using backup_memory [OF assms(1) Cons.prems assms(2)] by blast
  with Cons.IH [of t'] show ?case by (simp add: run_backups_def)
qed (simp add: run_backups_def)
text \<open>C38. A backup can be restored: on the in-memory target and with working crates, from an empty target
  and after any backups, a backup succeeds and counts every chunk as uploaded or already present,
  and restoring it after any further backups of other snapshots gives exactly the data, although
  chunks are shared between all of them. It assumes that no two chunks have the same SHA-256 hash
  and that timestamps are single path segments.\<close>

theorem backup_round_trip:
  assumes "crates_law cr" "crates_total cr" "inj_on (chunk_hash cr) C" "bm_chunk_size m \<noteq> 0"
    and "list_all (op_ok m C) before" "op_ok m C b"
    and "list_all (\<lambda>o'. op_ok m C o' \<and> manifest_key m (bo_volume o') (bo_timestamp o') \<noteq> manifest_key m (bo_volume b) (bo_timestamp b)) after"
  shows "\<exists>res t. backup_snapshot cr memory_backup (bo_nonces b) m (bo_volume b) (bo_timestamp b) (bo_data b)
      (run_backups cr memory_backup m before in_memory_target_new) = (Some (Inr res), t) \<and>
    bk_dedup_chunks res + bk_uploaded_chunks res = length (chunks_of (bm_chunk_size m) (bo_data b)) \<and>
    backup_restore cr memory_backup m (bo_volume b) (bo_timestamp b) (run_backups cr memory_backup m after t) = Inr (bo_data b)"
proof -
  let ?t = "run_backups cr memory_backup m before in_memory_target_new"
  have "mt_failure_message ?t = None"
    by (rule run_backups_memory [OF assms(2,4)]) (simp add: in_memory_target_new_def)
  then obtain res t where r: "backup_snapshot cr memory_backup (bo_nonces b) m (bo_volume b) (bo_timestamp b) (bo_data b) ?t = (Some (Inr res), t)"
    using backup_memory [OF assms(2) _ assms(4)] by blast
  have g: "mem_backup.good cr m C ?t"
    by (rule mem_backup.good_run [OF assms(1) _ assms(5)]) (simp add: mem_backup.good_def in_memory_target_new_def)
  show ?thesis
    using r mem_backup.backup_step(4) [OF assms(1) g assms(6) r] mem_backup.round_trip [OF assms(1,3) g assms(4,6) r assms(7)] by auto
qed

definition ex_backup_crates :: backup_crates where
  "ex_backup_crates = \<lparr>aes_seal = \<lambda>k n p. Some p, aes_open = \<lambda>k n c. Some c, sha_256 = \<lambda>d. d,
     hashes_to_json = \<lambda>hs. Inr (replicate (to_nat hs) 0), hashes_of_json = \<lambda>j. Inr (from_nat (length j))\<rparr>"

definition ex_backup :: "string \<Rightarrow> backup_op" where
  "ex_backup ts = \<lparr>bo_volume = ''https://c/volumes/v'', bo_timestamp = ts, bo_data = [1, 1], bo_nonces = \<lambda>_. replicate 12 0\<rparr>"

theorem backup_round_trip_witness:
  "\<exists>res t. backup_snapshot ex_backup_crates memory_backup (\<lambda>_. replicate 12 0) \<lparr>bm_encryption_key = [], bm_prefix = ''p'', bm_chunk_size = 1\<rparr>
      ''https://c/volumes/v'' ''t1'' [1, 1] in_memory_target_new = (Some (Inr res), t) \<and>
    bk_dedup_chunks res + bk_uploaded_chunks res = 2 \<and>
    backup_restore ex_backup_crates memory_backup \<lparr>bm_encryption_key = [], bm_prefix = ''p'', bm_chunk_size = 1\<rparr> ''https://c/volumes/v'' ''t1''
      (run_backups ex_backup_crates memory_backup \<lparr>bm_encryption_key = [], bm_prefix = ''p'', bm_chunk_size = 1\<rparr> [ex_backup ''t2''] t) = Inr [1, 1]"
proof -
  let ?m = "\<lparr>bm_encryption_key = [], bm_prefix = ''p'', bm_chunk_size = 1\<rparr>"
  have ch: "chunks_of 1 [1, 1] = [[1], [1]]" by (simp add: chunks_of.simps)
  have laws: "crates_law ex_backup_crates" "crates_total ex_backup_crates" "inj_on (chunk_hash ex_backup_crates) {[1]}" "bm_chunk_size ?m \<noteq> 0"
    "list_all (op_ok ?m {[1]}) []"
    by (simp_all add: crates_law_def crates_total_def ex_backup_crates_def)
  have op: "op_ok ?m {[1]} (ex_backup ''t1'')" "op_ok ?m {[1]} (ex_backup ''t2'')"
    using ch by (simp_all add: op_ok_def ex_backup_def)
  have "list_all (\<lambda>b. op_ok ?m {[1]} b \<and> manifest_key ?m (bo_volume b) (bo_timestamp b) \<noteq>
      manifest_key ?m (bo_volume (ex_backup ''t1'')) (bo_timestamp (ex_backup ''t1''))) [ex_backup ''t2'']"
    using op by (simp add: ex_backup_def manifest_key_def)
  from backup_round_trip [OF laws op(1) this] obtain res t where
    "backup_snapshot ex_backup_crates memory_backup (\<lambda>_. replicate 12 0) ?m ''https://c/volumes/v'' ''t1'' [1, 1] in_memory_target_new = (Some (Inr res), t)"
    "bk_dedup_chunks res + bk_uploaded_chunks res = length (chunks_of 1 [1, 1])"
    "backup_restore ex_backup_crates memory_backup ?m ''https://c/volumes/v'' ''t1'' (run_backups ex_backup_crates memory_backup ?m [ex_backup ''t2''] t) = Inr [1, 1]"
    by (auto simp: ex_backup_def run_backups_def)
  moreover from this(2) have "bk_dedup_chunks res + bk_uploaded_chunks res = 2" unfolding ch by simp
  ultimately show ?thesis by blast
qed

text \<open>Volumes whose IRIs differ in the scheme or in a colon share their keys, so that backups of one with the
  same timestamp overwrite those of the other.\<close>

lemma backup_keys_collide:
  "manifest_key m ''https://c:8/volumes/v'' ts = manifest_key m ''http://c_8/volumes/v'' ts"
proof -
  have "sanitize_iri_for_path ''https://c:8/volumes/v'' = sanitize_iri_for_path ''http://c_8/volumes/v''" by code_simp
  then show ?thesis by (simp add: manifest_key_def)
qed

end
