(* ===== verification/Storage_Events.thy ===== *)
theory Storage_Events
  imports Event_Log Snapshots Offsite_Backup
begin

text \<open>
  The wrappers that record snapshots and backups in the event log
  (\<open>crates/picloud-storage/src/event_emitting.rs\<close>). The inner snapshot manager is a record of the
  operations of the \<open>SnapshotManager\<close> trait; \<open>local_manager\<close> is the instance on \<open>Snapshots\<close>. The event log
  is its append function. The identifiers an operation draws are a sequence, the time an argument.
  An operation of the inner manager that runs out of fuel is the value None.
\<close>

section \<open>Payloads and events\<close>

datatype storage_payload =
    SnapshotCreatedPayload resource_iri string u64 timestamp
  | SnapshotFailedPayload resource_iri string
  | SnapshotDeletedPayload resource_iri string
  | BackupStartedPayload resource_iri string
  | BackupCompletedPayload resource_iri u64 timestamp
  | BackupFailedPayload resource_iri string

type_synonym storage_event = "storage_payload event_envelope"
type_synonym 'l appender = "'l \<Rightarrow> storage_event \<Rightarrow> unit result \<times> 'l"

record draws =
  dr_ids :: "nat \<Rightarrow> uuid"
  dr_now :: timestamp
  dr_show :: "uuid \<Rightarrow> string"

definition emit :: "'l appender \<Rightarrow> storage_event \<Rightarrow> 'l \<Rightarrow> 'l" where
  "emit ap event l = snd (ap l event)"

definition lifecycle_event :: "draws \<Rightarrow> nat \<Rightarrow> string \<Rightarrow> resource_iri \<Rightarrow> uuid \<Rightarrow> storage_payload \<Rightarrow> storage_event" where
  "lifecycle_event dr i name volume_iri correlation_id payload =
     event_envelope_new (dr_ids dr i) (dr_now dr) (iri_event_schema cluster_domain_default name 1) name volume_iri None
       correlation_id payload"

section \<open>The snapshot manager\<close>

record 's snapshot_manager =
  so_create :: "resource_iri \<Rightarrow> 's \<Rightarrow> snapshot_info result option \<times> 's"
  so_list :: "resource_iri \<Rightarrow> 's \<Rightarrow> snapshot_info list result"
  so_restore :: "resource_iri \<Rightarrow> string \<Rightarrow> 's \<Rightarrow> unit result option \<times> 's"
  so_delete :: "resource_iri \<Rightarrow> string \<Rightarrow> 's \<Rightarrow> unit result \<times> 's"
  so_restore_to :: "resource_iri \<Rightarrow> string \<Rightarrow> resource_iri \<Rightarrow> 's \<Rightarrow> unit result option \<times> 's"
  so_retention :: "resource_iri \<Rightarrow> snapshot_retention \<Rightarrow> 's \<Rightarrow> nat result \<times> 's"

definition local_manager :: "chrono \<Rightarrow> (path \<Rightarrow> int) \<Rightarrow> disk_io \<Rightarrow> path \<Rightarrow> int \<Rightarrow> fs snapshot_manager" where
  "local_manager ch meta io base now =
     \<lparr>so_create = \<lambda>iri. create_snapshot_at ch io base iri now, so_list = list_snapshots ch meta io base,
      so_restore = restore_snapshot io base, so_delete = delete_snapshot io,
      so_restore_to = restore_snapshot_to_new_volume io base,
      so_retention = enforce_retention ch meta io base\<rparr>"

definition ee_create_snapshot ::
  "'s snapshot_manager \<Rightarrow> 'l appender \<Rightarrow> draws \<Rightarrow> resource_iri \<Rightarrow> 's \<times> 'l \<Rightarrow> snapshot_info result option \<times> 's \<times> 'l" where
  "ee_create_snapshot inner ap dr volume_iri sl =
     (let correlation_id = dr_ids dr 0
      in case so_create inner volume_iri (fst sl) of
           (None, s) \<Rightarrow> (None, s, snd sl)
         | (Some (Inr info), s) \<Rightarrow>
             (Some (Inr info), s,
              emit ap (lifecycle_event dr 1 ''SnapshotCreated'' volume_iri correlation_id
                (SnapshotCreatedPayload volume_iri (sni_snapshot_path info) (sni_size_bytes info) (sni_created_at info))) (snd sl))
         | (Some (Inl e), s) \<Rightarrow>
             (Some (Inl e), s,
              emit ap (lifecycle_event dr 1 ''SnapshotFailed'' volume_iri correlation_id
                (SnapshotFailedPayload volume_iri (show_error (dr_show dr) e))) (snd sl)))"

definition ee_list_snapshots :: "'s snapshot_manager \<Rightarrow> resource_iri \<Rightarrow> 's \<times> 'l \<Rightarrow> snapshot_info list result" where
  "ee_list_snapshots inner volume_iri sl = so_list inner volume_iri (fst sl)"

definition ee_restore_snapshot ::
  "'s snapshot_manager \<Rightarrow> resource_iri \<Rightarrow> string \<Rightarrow> 's \<times> 'l \<Rightarrow> unit result option \<times> 's \<times> 'l" where
  "ee_restore_snapshot inner volume_iri snapshot_timestamp sl =
     (case so_restore inner volume_iri snapshot_timestamp (fst sl) of (r, s) \<Rightarrow> (r, s, snd sl))"

definition ee_delete_snapshot ::
  "'s snapshot_manager \<Rightarrow> 'l appender \<Rightarrow> draws \<Rightarrow> resource_iri \<Rightarrow> string \<Rightarrow> 's \<times> 'l \<Rightarrow> unit result \<times> 's \<times> 'l" where
  "ee_delete_snapshot inner ap dr volume_iri snapshot_path sl =
     (case so_delete inner volume_iri snapshot_path (fst sl) of
        (Inr _, s) \<Rightarrow>
          (Inr (), s,
           emit ap (lifecycle_event dr 1 ''SnapshotDeleted'' volume_iri (dr_ids dr 0)
             (SnapshotDeletedPayload volume_iri snapshot_path)) (snd sl))
      | (Inl e, s) \<Rightarrow> (Inl e, s, snd sl))"

definition ee_restore_snapshot_to_new_volume ::
  "'s snapshot_manager \<Rightarrow> resource_iri \<Rightarrow> string \<Rightarrow> resource_iri \<Rightarrow> 's \<times> 'l \<Rightarrow> unit result option \<times> 's \<times> 'l" where
  "ee_restore_snapshot_to_new_volume inner source_volume_iri snapshot_timestamp target_volume_iri sl =
     (case so_restore_to inner source_volume_iri snapshot_timestamp target_volume_iri (fst sl) of (r, s) \<Rightarrow> (r, s, snd sl))"

text \<open>The loop draws two identifiers for each snapshot, its correlation and its event.\<close>

fun emit_deleted :: "'l appender \<Rightarrow> draws \<Rightarrow> resource_iri \<Rightarrow> nat \<Rightarrow> snapshot_info list \<Rightarrow> 'l \<Rightarrow> 'l" where
  "emit_deleted ap dr volume_iri i [] l = l"
| "emit_deleted ap dr volume_iri i (snap # snaps) l =
     emit_deleted ap dr volume_iri (i + 2) snaps
       (emit ap (lifecycle_event dr (Suc i) ''SnapshotDeleted'' volume_iri (dr_ids dr i)
          (SnapshotDeletedPayload volume_iri (sni_snapshot_path snap))) l)"

definition ee_enforce_retention ::
  "'s snapshot_manager \<Rightarrow> 'l appender \<Rightarrow> draws \<Rightarrow> resource_iri \<Rightarrow> snapshot_retention \<Rightarrow> 's \<times> 'l \<Rightarrow> nat result \<times> 's \<times> 'l" where
  "ee_enforce_retention inner ap dr volume_iri retention sl =
     (case so_list inner volume_iri (fst sl) of
        Inl e \<Rightarrow> (Inl e, sl)
      | Inr snapshots \<Rightarrow>
          let snapshots = sort_key (\<lambda>i. - sni_created_at i) snapshots;
              max_keep = unat (ret_daily retention);
              to_delete = (if max_keep > 0 \<and> length snapshots > max_keep then drop max_keep snapshots else [])
          in case so_retention inner volume_iri retention (fst sl) of
               (Inl e, s) \<Rightarrow> (Inl e, s, snd sl)
             | (Inr deleted, s) \<Rightarrow> (Inr deleted, s, emit_deleted ap dr volume_iri 0 to_delete (snd sl)))"

section \<open>The backup manager\<close>

definition ee_backup_snapshot ::
  "backup_crates \<Rightarrow> 't backup_target \<Rightarrow> (nat \<Rightarrow> bytes) \<Rightarrow> backup_manager \<Rightarrow> 'l appender \<Rightarrow> draws \<Rightarrow> resource_iri \<Rightarrow> string \<Rightarrow> bytes \<Rightarrow> 't \<times> 'l
   \<Rightarrow> backup_result result option \<times> 't \<times> 'l" where
  "ee_backup_snapshot cr tg nonces m ap dr volume_iri snapshot_timestamp snapshot_data ta =
     (let correlation_id = dr_ids dr 0;
          l = emit ap (lifecycle_event dr 1 ''BackupStarted'' volume_iri correlation_id
                (BackupStartedPayload volume_iri snapshot_timestamp)) (snd ta)
      in case backup_snapshot cr tg nonces m volume_iri snapshot_timestamp snapshot_data (fst ta) of
           (None, t) \<Rightarrow> (None, t, l)
         | (Some (Inr res), t) \<Rightarrow>
             (Some (Inr res), t,
              emit ap (lifecycle_event dr 2 ''BackupCompleted'' volume_iri correlation_id
                (BackupCompletedPayload volume_iri (bk_uploaded_bytes res) (dr_now dr))) l)
         | (Some (Inl e), t) \<Rightarrow>
             (Some (Inl e), t,
              emit ap (lifecycle_event dr 2 ''BackupFailed'' volume_iri correlation_id
                (BackupFailedPayload volume_iri (show_error (dr_show dr) e))) l))"

definition ee_restore_backup ::
  "backup_crates \<Rightarrow> 't backup_target \<Rightarrow> backup_manager \<Rightarrow> resource_iri \<Rightarrow> string \<Rightarrow> 't \<times> 'l \<Rightarrow> bytes result" where
  "ee_restore_backup cr tg m volume_iri snapshot_timestamp ta = backup_restore cr tg m volume_iri snapshot_timestamp (fst ta)"

section \<open>What the log says\<close>

lemma lifecycle_event_fields [simp]:
  "ev_idempotency_key (lifecycle_event dr i name v c p) = None" "ev_payload (lifecycle_event dr i name v c p) = p"
  "ev_type (lifecycle_event dr i name v c p) = name" "ev_correlation_id (lifecycle_event dr i name v c p) = c"
  by (simp_all add: lifecycle_event_def event_envelope_new_def)

lemma emit_memory [simp]:
  "ev_idempotency_key e = None \<Longrightarrow> ml_events (emit mem_append e l) = ml_events l @ [e]"
  by (simp add: emit_def seen_key_def)

lemma emit_deleted_memory:
  "\<exists>evs. ml_events (emit_deleted mem_append dr v i snaps l) = ml_events l @ evs \<and>
     map ev_payload evs = map (SnapshotDeletedPayload v \<circ> sni_snapshot_path) snaps"
proof (induction snaps arbitrary: i l)
  case (Cons s snaps)
  let ?e = "lifecycle_event dr (Suc i) ''SnapshotDeleted'' v (dr_ids dr i) (SnapshotDeletedPayload v (sni_snapshot_path s))"
  from Cons.IH [of "i + 2" "emit mem_append ?e l"] obtain evs where
    "ml_events (emit_deleted mem_append dr v (i + 2) snaps (emit mem_append ?e l)) = ml_events l @ ?e # evs"
    "map ev_payload evs = map (SnapshotDeletedPayload v \<circ> sni_snapshot_path) snaps" by auto
  then show ?case by (intro exI [of _ "?e # evs"]) simp
qed simp
definition deleted_path :: "storage_event \<Rightarrow> string" where
  "deleted_path e = (case ev_payload e of SnapshotDeletedPayload v p \<Rightarrow> p | _ \<Rightarrow> [])"


text \<open>A failure of the log changes no result of an operation.\<close>

lemma emission_is_transparent:
  "fst (ee_create_snapshot inner ap dr v sl) = fst (so_create inner v (fst sl))"
  "fst (ee_delete_snapshot inner ap dr v p sl) = fst (so_delete inner v p (fst sl))"
  "fst (ee_backup_snapshot cr tg nonces m ap dr v ts d ta) = fst (backup_snapshot cr tg nonces m v ts d (fst ta))"
  by (auto simp: ee_create_snapshot_def ee_delete_snapshot_def ee_backup_snapshot_def Let_def split: prod.splits option.splits sum.splits)

text \<open>A backup that returns has logged its start and then its outcome, under one correlation.\<close>

lemma backup_events:
  assumes "ee_backup_snapshot cr tg nonces m mem_append dr v ts d (t, l) = (Some r, t', l')"
  shows "\<exists>started ended. ml_events l' = ml_events l @ [started, ended] \<and> ev_type started = ''BackupStarted'' \<and>
    ev_type ended = (case r of Inr _ \<Rightarrow> ''BackupCompleted'' | Inl _ \<Rightarrow> ''BackupFailed'') \<and>
    ev_correlation_id started = ev_correlation_id ended"
  using assms by (auto simp: ee_backup_snapshot_def Let_def split: prod.splits option.splits sum.splits)

text \<open>When the second deletion fails the first snapshot is gone and no event says so.\<close>

definition ex_snapshots_disk :: fs where
  "ex_snapshots_disk =
     \<lparr>fs_dirs = [[''.snapshots''], [''.snapshots'', ''v''], [''.snapshots'', ''v'', ''a''], [''.snapshots'', ''v'', ''b''], [''.snapshots'', ''v'', ''c'']],
      fs_files = []\<rparr>"

definition ex_failing_io :: disk_io where
  "ex_failing_io = ok_io\<lparr>io_remove := \<lambda>q. if q = [''.snapshots'', ''v'', ''a''] then Some ''busy'' else None\<rparr>"

definition ex_created :: "path \<Rightarrow> int" where
  "ex_created p = (if last p = ''a'' then 1 else if last p = ''b'' then 2 else 3)"

definition ex_silent_retention :: "nat result \<times> fs \<times> storage_payload mem_log" where
  "ex_silent_retention =
     ee_enforce_retention (local_manager \<lparr>ch_format = \<lambda>_. [], ch_parse = \<lambda>_. None\<rparr> ex_created ex_failing_io [] 0) mem_append
       \<lparr>dr_ids = \<lambda>_. 0, dr_now = 0, dr_show = \<lambda>_. []\<rparr> ''v'' \<lparr>ret_daily = 1, ret_weekly = 0, ret_monthly = 0\<rparr>
       (ex_snapshots_disk, mem_with_capacity 1)"

lemma failed_retention_is_silent:
  "(case ex_silent_retention of (r, f, l) \<Rightarrow>
     isl r \<and> \<not> path_exists f [''.snapshots'', ''v'', ''b''] \<and> ml_events l = [])"
  by code_simp


end
