(* ===== verification/Workload_Scheduler.thy ===== *)
theory Workload_Scheduler
  imports Secret_Store
begin

text \<open>
  The process scheduler (\<open>ProcessScheduler\<close> of \<open>crates/picloud-workload/src/implementation.rs\<close>) with the workload
  types of \<open>crates/picloud-domain/src/workload.rs\<close>. The operating system (spawning, waiting, signals, running a
  command to its end, writing a file) is a record of functions on a state of its own; a child is a number. Random
  values and the clock are arguments; the text of a floating point number is an argument too. The
  floating point product in the CPU limit is written as the integer quotient it equals on the range that
  validation admits.
\<close>

section \<open>Workload types\<close>

record resource_limits =
  rl_cpu_millicores :: "u32 option"
  rl_memory_mb :: "u32 option"

record volume_mount =
  vt_volume :: string
  vt_path :: string
  vt_read_only :: bool

datatype env_value = Literal string | SecretRef string

datatype protocol = Tcp | Udp

record port_mapping =
  pt_port :: nat
  pt_protocol :: protocol

datatype restart_policy = Always | OnFailure u32 | Never

datatype health_check_kind = HttpCheck string nat | TcpCheck nat | ProcessCheck

record health_check =
  hc_kind :: health_check_kind
  hc_interval_seconds :: u32
  hc_timeout_seconds :: u32
  hc_failure_threshold :: u32

record container_spec =
  cs_image :: string
  cs_identity :: string
  cs_resources :: resource_limits
  cs_mounts :: "volume_mount list"
  cs_env :: "(string \<times> env_value) list"
  cs_ports :: "port_mapping list"
  cs_health_check :: "health_check option"
  cs_restart_policy :: restart_policy
  cs_product_version :: "string option"

record binary_spec =
  bs_executable :: string
  bs_args :: "string list"
  bs_identity :: string
  bs_resources :: resource_limits
  bs_mounts :: "volume_mount list"
  bs_env :: "(string \<times> env_value) list"
  bs_restart_policy :: restart_policy
  bs_product_version :: "string option"

datatype workload_spec = Container container_spec | Binary binary_spec

datatype workload_status = Running | Stopped | Failed string | Unknown

definition MIN_CPU_MILLICORES :: u32 where "MIN_CPU_MILLICORES = 1"
definition MAX_CPU_MILLICORES :: u32 where "MAX_CPU_MILLICORES = 128000"
definition MIN_MEMORY_MB :: u32 where "MIN_MEMORY_MB = 4"
definition MAX_MEMORY_MB :: u32 where "MAX_MEMORY_MB = 1048576"

definition resource_limits_none :: resource_limits where
  "resource_limits_none = \<lparr>rl_cpu_millicores = None, rl_memory_mb = None\<rparr>"

definition resource_limits_new :: "u32 \<Rightarrow> u32 \<Rightarrow> resource_limits" where
  "resource_limits_new cpu mem = \<lparr>rl_cpu_millicores = Some cpu, rl_memory_mb = Some mem\<rparr>"

definition bound_errors :: "string \<Rightarrow> u32 option \<Rightarrow> u32 \<Rightarrow> u32 \<Rightarrow> string list" where
  "bound_errors field value lo hi =
     (case value of
        None \<Rightarrow> []
      | Some x \<Rightarrow>
          (if x < lo then [field @ '' ('' @ show_nat (unat x) @ '') below minimum ('' @ show_nat (unat lo) @ '')''] else []) @
          (if x > hi then [field @ '' ('' @ show_nat (unat x) @ '') exceeds maximum ('' @ show_nat (unat hi) @ '')''] else []))"

definition limits_validate :: "resource_limits \<Rightarrow> string + unit" where
  "limits_validate l =
     (let errors = bound_errors ''cpu_millicores'' (rl_cpu_millicores l) MIN_CPU_MILLICORES MAX_CPU_MILLICORES @
                   bound_errors ''memory_mb'' (rl_memory_mb l) MIN_MEMORY_MB MAX_MEMORY_MB
      in if errors = [] then Inr () else Inl (join ''; '' errors))"

definition has_limits :: "resource_limits \<Rightarrow> bool" where
  "has_limits l \<longleftrightarrow> rl_cpu_millicores l \<noteq> None \<or> rl_memory_mb l \<noteq> None"

definition memory_as_bytes :: "resource_limits \<Rightarrow> u64 option" where
  "memory_as_bytes l = map_option (\<lambda>mb. ucast mb * 1024 * 1024) (rl_memory_mb l)"

definition cpu_as_cfs_quota_us :: "resource_limits \<Rightarrow> u64 option" where
  "cpu_as_cfs_quota_us l = map_option (\<lambda>m. ucast m * 100) (rl_cpu_millicores l)"

section \<open>The operating system\<close>

record command =
  cm_program :: string
  cm_args :: "string list"
  cm_env :: "(string \<times> string) list"
  cm_rlimit_as :: "u64 option"
  cm_rlimit_cpu :: "u64 option"

record exit_status =
  xs_success :: bool
  xs_text :: string

record mount_json =
  mj_destination :: string
  mj_source :: string
  mj_options :: "string list"

record oci_config =
  oc_env :: "string list"
  oc_hostname :: string
  oc_mounts :: "mount_json list"
  oc_memory_limit :: "u64 option"
  oc_cpu_quota :: "u64 option"

record 'o os_api =
  os_spawn :: "command \<Rightarrow> 'o \<Rightarrow> (string + nat) \<times> 'o"
  os_child_id :: "nat \<Rightarrow> 'o \<Rightarrow> u32 option"
  os_try_wait :: "nat \<Rightarrow> 'o \<Rightarrow> string + exit_status option"
  os_output :: "string \<Rightarrow> string list \<Rightarrow> 'o \<Rightarrow> (string + bool \<times> string) \<times> 'o"
  os_sigterm :: "u32 \<Rightarrow> 'o \<Rightarrow> bool \<times> 'o"
  os_create_dir_all :: "string \<Rightarrow> 'o \<Rightarrow> (string + unit) \<times> 'o"
  os_write_config :: "string \<Rightarrow> oci_config \<Rightarrow> 'o \<Rightarrow> (string + unit) \<times> 'o"

text \<open>\<open>cmd.env\<close> sets a variable over an earlier value.\<close>

definition set_env :: "string \<Rightarrow> string \<Rightarrow> command \<Rightarrow> command" where
  "set_env k v c = c\<lparr>cm_env := hm_insert k v (cm_env c)\<rparr>"

section \<open>The scheduler\<close>

datatype container_runtime = Youki | Podman | Docker | NoRuntime

record workload_entry =
  we_workload_iri :: string
  we_spec :: workload_spec
  we_status :: workload_status
  we_node_id :: uuid
  we_pid :: "u32 option"
  we_started_at :: timestamp
  we_child :: "nat option"
  we_restart_count :: u32
  we_explicitly_stopped :: bool
  we_is_container :: bool

record scheduler =
  ps_node_id :: uuid
  ps_workloads :: "(string \<times> workload_entry) list"
  ps_domain :: cluster_domain
  ps_next_pid :: u32
  ps_runtime :: container_runtime
  ps_secret_store :: "(string \<Rightarrow> string \<Rightarrow> string result) option"

text \<open>What an operation draws and reads: the trace and parent identifiers, the clock, the text of the CPU share.\<close>

record sched_env =
  sv_trace_id :: uuid
  sv_parent_id :: u64
  sv_now :: timestamp
  sv_cpus_text :: "u32 \<Rightarrow> string"

definition detect_container_runtime :: "(string \<Rightarrow> bool) \<Rightarrow> container_runtime" where
  "detect_container_runtime version_works =
     (if version_works ''youki'' then Youki
      else if version_works ''podman'' then Podman
      else if version_works ''docker'' then Docker
      else NoRuntime)"

definition new_with_runtime_and_secrets ::
  "uuid \<Rightarrow> cluster_domain \<Rightarrow> container_runtime \<Rightarrow> (string \<Rightarrow> string \<Rightarrow> string result) option \<Rightarrow> scheduler" where
  "new_with_runtime_and_secrets node_id domain runtime store =
     \<lparr>ps_node_id = node_id, ps_workloads = [], ps_domain = domain, ps_next_pid = 10000, ps_runtime = runtime,
      ps_secret_store = store\<rparr>"

definition new_with_runtime :: "uuid \<Rightarrow> cluster_domain \<Rightarrow> container_runtime \<Rightarrow> scheduler" where
  "new_with_runtime node_id domain runtime = new_with_runtime_and_secrets node_id domain runtime None"

definition scheduler_new :: "(string \<Rightarrow> bool) \<Rightarrow> uuid \<Rightarrow> cluster_domain \<Rightarrow> scheduler" where
  "scheduler_new version_works node_id domain =
     new_with_runtime_and_secrets node_id domain (detect_container_runtime version_works) None"

definition with_secret_store ::
  "(string \<Rightarrow> bool) \<Rightarrow> uuid \<Rightarrow> cluster_domain \<Rightarrow> (string \<Rightarrow> string \<Rightarrow> string result) \<Rightarrow> scheduler" where
  "with_secret_store version_works node_id domain store =
     new_with_runtime_and_secrets node_id domain (detect_container_runtime version_works) (Some store)"

subsection \<open>Environment of a workload\<close>

definition resolve_env_value :: "scheduler \<Rightarrow> env_value \<Rightarrow> string option \<Rightarrow> string" where
  "resolve_env_value s value product =
     (case value of
        Literal x \<Rightarrow> x
      | SecretRef secret \<Rightarrow>
          (case ps_secret_store s of
             Some store \<Rightarrow>
               (case store (case product of Some p \<Rightarrow> p | None \<Rightarrow> ''default'') secret of Inr v \<Rightarrow> v | Inl _ \<Rightarrow> [])
           | None \<Rightarrow> ''SECRET:'' @ secret))"

definition product_from_iri :: "string \<Rightarrow> string option" where
  "product_from_iri iri =
     Option.bind (strip_prefix ''https://'' iri) (\<lambda>p.
       let path = split_on slash p
       in if length path \<ge> 3 \<and> path ! 1 = ''products'' then Some (path ! 2) else None)"

definition last_segment_of :: "string \<Rightarrow> string" where
  "last_segment_of iri = last (split_on slash iri)"

definition trim_end_slashes :: "string \<Rightarrow> string" where
  "trim_end_slashes s = rev (dropWhile (\<lambda>c. c = slash) (rev s))"

definition otel_env_vars :: "scheduler \<Rightarrow> resource_iri \<Rightarrow> (string \<times> string) list" where
  "otel_env_vars s workload_iri =
     (let otel_endpoint = ''https://'' @ (case strip_prefix ''https://'' (trim_end_slashes (iri_cluster_root (ps_domain s))) of
                                           Some d \<Rightarrow> d | None \<Rightarrow> ''picloud.local'') @ ''/otel'';
          product = (case product_from_iri workload_iri of Some p \<Rightarrow> p | None \<Rightarrow> ''platform'')
      in [(''OTEL_SERVICE_NAME'', last_segment_of workload_iri),
          (''OTEL_EXPORTER_OTLP_ENDPOINT'', otel_endpoint),
          (''OTEL_RESOURCE_ATTRIBUTES'', ''picloud.product='' @ product @ '',picloud.workload_iri='' @ workload_iri)])"

definition hex_char :: "nat \<Rightarrow> char" where
  "hex_char d = (if d < 10 then char_of (48 + d) else char_of (87 + d))"

fun hex_fixed :: "nat \<Rightarrow> nat \<Rightarrow> string" where
  "hex_fixed 0 n = []"
| "hex_fixed (Suc w) n = hex_fixed w (n div 16) @ [hex_char (n mod 16)]"

definition generate_traceparent :: "uuid \<Rightarrow> u64 \<Rightarrow> string" where
  "generate_traceparent trace_id parent_id =
     ''00-'' @ hex_fixed 32 (unat trace_id) @ ''-'' @ hex_fixed 16 (unat parent_id) @ ''-01''"

definition is_ascii_hexdigit :: "char \<Rightarrow> bool" where
  "is_ascii_hexdigit c \<longleftrightarrow>
     (let b = (of_char c :: nat) in 48 \<le> b \<and> b \<le> 57 \<or> 65 \<le> b \<and> b \<le> 70 \<or> 97 \<le> b \<and> b \<le> 102)"

definition is_valid_traceparent :: "string \<Rightarrow> bool" where
  "is_valid_traceparent value =
     (case split_on (CHR ''-'') value of
        [version, trace_id, parent_id, trace_flags] \<Rightarrow>
          (length version = 2 \<and> list_all is_ascii_hexdigit version) \<and>
          (length trace_id = 32 \<and> list_all is_ascii_hexdigit trace_id \<and> \<not> list_all (\<lambda>c. c = CHR ''0'') trace_id) \<and>
          (length parent_id = 16 \<and> list_all is_ascii_hexdigit parent_id \<and> \<not> list_all (\<lambda>c. c = CHR ''0'') parent_id) \<and>
          (length trace_flags = 2 \<and> list_all is_ascii_hexdigit trace_flags)
      | _ \<Rightarrow> False)"

subsection \<open>Spawning\<close>

definition cpu_seconds :: "u32 \<Rightarrow> u64" where
  "cpu_seconds milli = of_nat (max 1 (unat milli * 396 div 100))"

definition binary_command :: "sched_env \<Rightarrow> scheduler \<Rightarrow> binary_spec \<Rightarrow> resource_iri \<Rightarrow> command" where
  "binary_command sv s spec workload_iri =
     (let product = product_from_iri workload_iri;
          cmd = \<lparr>cm_program = bs_executable spec, cm_args = bs_args spec, cm_env = [], cm_rlimit_as = None, cm_rlimit_cpu = None\<rparr>;
          cmd = foldl (\<lambda>c (k, v). set_env k (resolve_env_value s v product) c) cmd (bs_env spec);
          cmd = foldl (\<lambda>c (k, v). set_env k v c) cmd (otel_env_vars s workload_iri);
          cmd = set_env ''TRACEPARENT'' (generate_traceparent (sv_trace_id sv) (sv_parent_id sv)) cmd;
          cmd = (case bs_product_version spec of Some v \<Rightarrow> set_env ''PICLOUD_PRODUCT_VERSION'' v cmd | None \<Rightarrow> cmd)
      in cmd\<lparr>cm_rlimit_as := memory_as_bytes (bs_resources spec),
             cm_rlimit_cpu := map_option cpu_seconds (rl_cpu_millicores (bs_resources spec))\<rparr>)"

definition spawn_binary ::
  "'o os_api \<Rightarrow> sched_env \<Rightarrow> scheduler \<Rightarrow> binary_spec \<Rightarrow> resource_iri \<Rightarrow> 'o \<Rightarrow> (nat \<times> u32) result \<times> 'o" where
  "spawn_binary os sv s spec workload_iri w =
     (case os_spawn os (binary_command sv s spec workload_iri) w of
        (Inl e, w) \<Rightarrow> (Inl (Internal (''Failed to spawn binary '' @ [CHR 0x27] @ bs_executable spec @ [CHR 0x27] @ '': '' @ e)), w)
      | (Inr child, w) \<Rightarrow>
          (case os_child_id os child w of
             None \<Rightarrow> (Inl (Internal ''Spawned process has no PID (already exited)''), w)
           | Some pid \<Rightarrow> (Inr (child, pid), w)))"

definition next_pid :: "scheduler \<Rightarrow> u32 \<times> scheduler" where
  "next_pid s = (ps_next_pid s, s\<lparr>ps_next_pid := ps_next_pid s + 1\<rparr>)"

definition container_env :: "sched_env \<Rightarrow> scheduler \<Rightarrow> container_spec \<Rightarrow> resource_iri \<Rightarrow> string list" where
  "container_env sv s spec workload_iri =
     map (\<lambda>(k, v). k @ ''='' @ resolve_env_value s v (product_from_iri workload_iri)) (cs_env spec) @
     map (\<lambda>(k, v). k @ ''='' @ v) (otel_env_vars s workload_iri) @
     [''TRACEPARENT='' @ generate_traceparent (sv_trace_id sv) (sv_parent_id sv)] @
     (case cs_product_version spec of Some v \<Rightarrow> [''PICLOUD_PRODUCT_VERSION='' @ v] | None \<Rightarrow> [])"

definition oci_bundle_config :: "sched_env \<Rightarrow> scheduler \<Rightarrow> container_spec \<Rightarrow> resource_iri \<Rightarrow> oci_config" where
  "oci_bundle_config sv s spec workload_iri =
     \<lparr>oc_env = container_env sv s spec workload_iri, oc_hostname = last_segment_of workload_iri,
      oc_mounts = map (\<lambda>m. \<lparr>mj_destination = vt_path m, mj_source = vt_volume m,
        mj_options = (if vt_read_only m then [''bind'', ''ro''] else [''bind'', ''rw''])\<rparr>) (cs_mounts spec),
      oc_memory_limit = memory_as_bytes (cs_resources spec), oc_cpu_quota = cpu_as_cfs_quota_us (cs_resources spec)\<rparr>"

definition spawn_container_youki ::
  "'o os_api \<Rightarrow> sched_env \<Rightarrow> container_spec \<Rightarrow> resource_iri \<Rightarrow> scheduler \<times> 'o \<Rightarrow> (nat option \<times> u32) result \<times> scheduler \<times> 'o" where
  "spawn_container_youki os sv spec workload_iri sw =
     (case sw of (s, w) \<Rightarrow>
      let container_name = last_segment_of workload_iri;
          bundle_dir = ''/var/lib/picloud/bundles/'' @ container_name
      in case os_create_dir_all os (bundle_dir @ ''/rootfs'') w of
           (Inl e, w) \<Rightarrow> (Inl (Internal (''Failed to create OCI bundle dir: '' @ e)), s, w)
         | (Inr _, w) \<Rightarrow>
             (case os_write_config os (bundle_dir @ ''/config.json'') (oci_bundle_config sv s spec workload_iri) w of
                (Inl e, w) \<Rightarrow> (Inl (Internal (''Failed to write OCI config: '' @ e)), s, w)
              | (Inr _, w) \<Rightarrow>
                  (case os_output os ''youki'' [''create'', container_name, ''--bundle'', bundle_dir] w of
                     (Inl e, w) \<Rightarrow> (Inl (Internal (''youki create failed: '' @ e)), s, w)
                   | (Inr (False, err), w) \<Rightarrow> (Inl (Internal (''youki create failed: '' @ err)), s, w)
                   | (Inr (True, _), w) \<Rightarrow>
                       (case os_output os ''youki'' [''start'', container_name] w of
                          (Inl e, w) \<Rightarrow> (Inl (Internal (''youki start failed: '' @ e)), s, w)
                        | (Inr (False, err), w) \<Rightarrow> (Inl (Internal (''youki start failed: '' @ err)), s, w)
                        | (Inr (True, _), w) \<Rightarrow> (case next_pid s of (pid, s) \<Rightarrow> (Inr (None, pid), s, w))))))"

definition container_command :: "sched_env \<Rightarrow> scheduler \<Rightarrow> string \<Rightarrow> container_spec \<Rightarrow> resource_iri \<Rightarrow> command" where
  "container_command sv s runtime spec workload_iri =
     \<lparr>cm_program = runtime,
      cm_args = [''run'', ''--detach'', ''--rm'', ''--name'', last_segment_of workload_iri] @
        (case product_from_iri workload_iri of Some p \<Rightarrow> [''--network'', ''picloud-'' @ p] | None \<Rightarrow> []) @
        concat (map (\<lambda>e. [''-e'', e]) (container_env sv s spec workload_iri)) @
        concat (map (\<lambda>p. [''-p'', show_nat (pt_port p) @ '':'' @ show_nat (pt_port p)]) (cs_ports spec)) @
        concat (map (\<lambda>m. [''-v'', vt_volume m @ '':'' @ vt_path m @ (if vt_read_only m then '':ro'' else [])]) (cs_mounts spec)) @
        (case rl_memory_mb (cs_resources spec) of Some mb \<Rightarrow> [''--memory'', show_nat (unat mb) @ ''m''] | None \<Rightarrow> []) @
        (case rl_cpu_millicores (cs_resources spec) of Some m \<Rightarrow> [''--cpus'', sv_cpus_text sv m] | None \<Rightarrow> []) @
        [cs_image spec],
      cm_env = [], cm_rlimit_as = None, cm_rlimit_cpu = None\<rparr>"

definition spawn_container ::
  "'o os_api \<Rightarrow> sched_env \<Rightarrow> container_spec \<Rightarrow> resource_iri \<Rightarrow> scheduler \<times> 'o \<Rightarrow> (nat option \<times> u32) result \<times> scheduler \<times> 'o" where
  "spawn_container os sv spec workload_iri sw =
     (case sw of (s, w) \<Rightarrow>
      let run = (\<lambda>runtime.
        case os_spawn os (container_command sv s runtime spec workload_iri) w of
          (Inl e, w) \<Rightarrow> (Inl (Internal (''Failed to spawn container via '' @ runtime @ '': '' @ e)), s, w)
        | (Inr child, w) \<Rightarrow>
            (case os_child_id os child w of
               Some pid \<Rightarrow> (Inr (Some child, pid), s, w)
             | None \<Rightarrow> (case next_pid s of (pid, s) \<Rightarrow> (Inr (Some child, pid), s, w))))
      in case ps_runtime s of
           Youki \<Rightarrow> spawn_container_youki os sv spec workload_iri (s, w)
         | Podman \<Rightarrow> run ''podman''
         | Docker \<Rightarrow> run ''docker''
         | NoRuntime \<Rightarrow> (case next_pid s of (pid, s) \<Rightarrow> (Inr (None, pid), s, w)))"

section \<open>Operations\<close>

definition spec_limits :: "workload_spec \<Rightarrow> resource_limits" where
  "spec_limits spec = (case spec of Binary b \<Rightarrow> bs_resources b | Container c \<Rightarrow> cs_resources c)"

definition spec_policy :: "workload_spec \<Rightarrow> restart_policy" where
  "spec_policy spec = (case spec of Binary b \<Rightarrow> bs_restart_policy b | Container c \<Rightarrow> cs_restart_policy c)"

definition spawn_workload ::
  "'o os_api \<Rightarrow> sched_env \<Rightarrow> workload_spec \<Rightarrow> resource_iri \<Rightarrow> scheduler \<times> 'o \<Rightarrow> (nat option \<times> u32) result \<times> scheduler \<times> 'o" where
  "spawn_workload os sv spec workload_iri sw =
     (case spec of
        Binary b \<Rightarrow>
          (case spawn_binary os sv (fst sw) b workload_iri (snd sw) of
             (Inl e, w) \<Rightarrow> (Inl e, fst sw, w)
           | (Inr (child, pid), w) \<Rightarrow> (Inr (Some child, pid), fst sw, w))
      | Container c \<Rightarrow> spawn_container os sv c workload_iri sw)"

record workload_handle =
  wh_workload_iri :: resource_iri
  wh_node_id :: uuid
  wh_pid :: "u32 option"

definition schedule ::
  "'o os_api \<Rightarrow> sched_env \<Rightarrow> resource_iri \<Rightarrow> workload_spec \<Rightarrow> scheduler \<times> 'o \<Rightarrow> workload_handle result \<times> scheduler \<times> 'o" where
  "schedule os sv workload_iri spec sw =
     (case limits_validate (spec_limits spec) of
        Inl reason \<Rightarrow> (Inl (InvalidResourceLimits reason), sw)
      | Inr _ \<Rightarrow>
          if map_of (ps_workloads (fst sw)) workload_iri \<noteq> None then (Inl (ResourceAlreadyExists workload_iri), sw)
          else case spawn_workload os sv spec workload_iri sw of
            (Inl e, s, w) \<Rightarrow> (Inl e, s, w)
          | (Inr (child, pid), s, w) \<Rightarrow>
              let entry = \<lparr>we_workload_iri = workload_iri, we_spec = spec, we_status = Running, we_node_id = ps_node_id s,
                           we_pid = Some pid, we_started_at = sv_now sv, we_child = child, we_restart_count = 0,
                           we_explicitly_stopped = False,
                           we_is_container = (case spec of Container _ \<Rightarrow> True | Binary _ \<Rightarrow> False)\<rparr>
              in (Inr \<lparr>wh_workload_iri = workload_iri, wh_node_id = ps_node_id s, wh_pid = Some pid\<rparr>,
                  s\<lparr>ps_workloads := hm_insert workload_iri entry (ps_workloads s)\<rparr>, w))"

text \<open>The outcome of stopping a container is only logged, as is that of the signal.\<close>

definition stop_container :: "'o os_api \<Rightarrow> container_runtime \<Rightarrow> string \<Rightarrow> 'o \<Rightarrow> 'o" where
  "stop_container os runtime container_name w =
     (case runtime of
        Youki \<Rightarrow>
          snd (os_output os ''youki'' [''delete'', ''--force'', container_name]
            (snd (os_output os ''youki'' [''kill'', container_name, ''SIGTERM''] w)))
      | Docker \<Rightarrow> snd (os_output os ''docker'' [''stop'', container_name] w)
      | Podman \<Rightarrow> snd (os_output os ''podman'' [''stop'', container_name] w)
      | NoRuntime \<Rightarrow> w)"

definition stop :: "'o os_api \<Rightarrow> resource_iri \<Rightarrow> scheduler \<times> 'o \<Rightarrow> unit result \<times> scheduler \<times> 'o" where
  "stop os workload_iri sw =
     (case sw of (s, w) \<Rightarrow>
      case map_of (ps_workloads s) workload_iri of
        None \<Rightarrow> (Inl (ResourceNotFound workload_iri), s, w)
      | Some entry \<Rightarrow>
          let w = (if we_is_container entry then stop_container os (ps_runtime s) (last_segment_of workload_iri) w else w);
              w = (case we_pid entry of
                     Some pid \<Rightarrow> if \<not> we_is_container entry \<and> we_child entry \<noteq> None then snd (os_sigterm os pid w) else w
                   | None \<Rightarrow> w)
          in (Inr (), s\<lparr>ps_workloads := hm_insert workload_iri (entry\<lparr>we_status := Stopped, we_explicitly_stopped := True\<rparr>)
                (ps_workloads s)\<rparr>, w))"

definition observe :: "'o os_api \<Rightarrow> workload_entry \<Rightarrow> 'o \<Rightarrow> workload_status" where
  "observe os entry w =
     (if we_status entry = Running then
        (case we_child entry of
           None \<Rightarrow> Running
         | Some child \<Rightarrow>
             (case os_try_wait os child w of
                Inr (Some x) \<Rightarrow> if xs_success x then Stopped else Failed (''Process exited with status: '' @ xs_text x)
              | Inr None \<Rightarrow> Running
              | Inl e \<Rightarrow> Failed (''Failed to check process status: '' @ e)))
      else we_status entry)"

definition status :: "'o os_api \<Rightarrow> resource_iri \<Rightarrow> scheduler \<times> 'o \<Rightarrow> workload_status result \<times> scheduler \<times> 'o" where
  "status os workload_iri sw =
     (case map_of (ps_workloads (fst sw)) workload_iri of
        None \<Rightarrow> (Inl (ResourceNotFound workload_iri), sw)
      | Some entry \<Rightarrow>
          let st = observe os entry (snd sw)
          in (Inr st, (fst sw)\<lparr>ps_workloads := hm_insert workload_iri (entry\<lparr>we_status := st\<rparr>) (ps_workloads (fst sw))\<rparr>, snd sw))"

definition should_restart :: "restart_policy \<Rightarrow> bool \<Rightarrow> u32 \<Rightarrow> bool" where
  "should_restart policy success restart_count =
     (case policy of
        Always \<Rightarrow> True
      | OnFailure max_retries \<Rightarrow> \<not> success \<and> restart_count < max_retries
      | Never \<Rightarrow> False)"

text \<open>The command of a restart: secrets are not resolved, and the injected variables and limits are missing.\<close>

definition restart_command :: "binary_spec \<Rightarrow> command" where
  "restart_command spec =
     foldl (\<lambda>c (k, v). set_env k (case v of Literal s \<Rightarrow> s | SecretRef secret \<Rightarrow> ''SECRET:'' @ secret) c)
       \<lparr>cm_program = bs_executable spec, cm_args = bs_args spec, cm_env = [], cm_rlimit_as = None, cm_rlimit_cpu = None\<rparr>
       (bs_env spec)"

definition exited :: "'o os_api \<Rightarrow> workload_entry \<Rightarrow> 'o \<Rightarrow> bool option" where
  "exited os entry w =
     (case we_child entry of
        None \<Rightarrow> None
      | Some child \<Rightarrow>
          (case os_try_wait os child w of
             Inr (Some x) \<Rightarrow> Some (xs_success x)
           | Inr None \<Rightarrow> None
           | Inl _ \<Rightarrow> Some False))"

definition check_entry :: "'o os_api \<Rightarrow> workload_entry \<Rightarrow> 'o \<Rightarrow> workload_entry \<times> 'o" where
  "check_entry os entry w =
     (if we_status entry \<noteq> Running \<or> we_explicitly_stopped entry then (entry, w)
      else case exited os entry w of
        None \<Rightarrow> (entry, w)
      | Some success \<Rightarrow>
          if should_restart (spec_policy (we_spec entry)) success (we_restart_count entry) then
            (case we_spec entry of
               Container _ \<Rightarrow> (entry\<lparr>we_status := Running, we_restart_count := we_restart_count entry + 1\<rparr>, w)
             | Binary spec \<Rightarrow>
                 (case os_spawn os (restart_command spec) w of
                    (Inr child, w) \<Rightarrow>
                      (entry\<lparr>we_child := Some child,
                             we_pid := Some (case os_child_id os child w of Some p \<Rightarrow> p | None \<Rightarrow> 0),
                             we_status := Running, we_restart_count := we_restart_count entry + 1\<rparr>, w)
                  | (Inl e, w) \<Rightarrow> (entry\<lparr>we_status := Failed (''Restart failed: '' @ e)\<rparr>, w)))
          else (entry\<lparr>we_status := (if success then Stopped else Failed ''Process exited and restart policy exhausted'')\<rparr>, w))"

fun check_keys :: "'o os_api \<Rightarrow> string list \<Rightarrow> scheduler \<times> 'o \<Rightarrow> scheduler \<times> 'o" where
  "check_keys os [] sw = sw"
| "check_keys os (key # keys) sw =
     (case map_of (ps_workloads (fst sw)) key of
        None \<Rightarrow> check_keys os keys sw
      | Some entry \<Rightarrow>
          (case check_entry os entry (snd sw) of
             (entry, w) \<Rightarrow>
               check_keys os keys ((fst sw)\<lparr>ps_workloads := hm_insert key entry (ps_workloads (fst sw))\<rparr>, w)))"

text \<open>One round of the health check loop, under the write lock.\<close>

definition health_check_round :: "'o os_api \<Rightarrow> scheduler \<times> 'o \<Rightarrow> scheduler \<times> 'o" where
  "health_check_round os sw = check_keys os (map fst (ps_workloads (fst sw))) sw"

section \<open>Runs\<close>

text \<open>Requests, health checks and the rest of the system, in any order.\<close>

inductive sched_step :: "'o os_api \<Rightarrow> scheduler \<times> 'o \<Rightarrow> scheduler \<times> 'o \<Rightarrow> bool" for os where
  step_schedule: "schedule os sv iri spec sw = (r, sw') \<Longrightarrow> sched_step os sw sw'"
| step_stop: "stop os iri sw = (r, sw') \<Longrightarrow> sched_step os sw sw'"
| step_status: "status os iri sw = (r, sw') \<Longrightarrow> sched_step os sw sw'"
| step_health: "sched_step os sw (health_check_round os sw)"
| step_world: "sched_step os (s, w) (s, w')"

inductive_cases sched_stepE: "sched_step os sw sw'"

abbreviation sched_steps :: "'o os_api \<Rightarrow> scheduler \<times> 'o \<Rightarrow> scheduler \<times> 'o \<Rightarrow> bool" where
  "sched_steps os \<equiv> (sched_step os)\<^sup>*\<^sup>*"

section \<open>Invariant of the reachable states\<close>

definition within_policy :: "restart_policy \<Rightarrow> u32 \<Rightarrow> bool" where
  "within_policy p n = (case p of Always \<Rightarrow> True | OnFailure k \<Rightarrow> n \<le> k | Never \<Rightarrow> n = 0)"

definition entry_ok :: "string \<Rightarrow> workload_entry \<Rightarrow> bool" where
  "entry_ok k e \<longleftrightarrow>
     we_workload_iri e = k \<and> limits_validate (spec_limits (we_spec e)) = Inr () \<and>
     within_policy (spec_policy (we_spec e)) (we_restart_count e) \<and>
     (we_is_container e \<longleftrightarrow> (\<exists>c. we_spec e = Container c)) \<and>
     (we_explicitly_stopped e \<longrightarrow> we_status e = Stopped)"

definition sched_ok :: "scheduler \<Rightarrow> bool" where
  "sched_ok s \<longleftrightarrow> (\<forall>k e. map_of (ps_workloads s) k = Some e \<longrightarrow> entry_ok k e)"

lemma sched_okD: "sched_ok s \<Longrightarrow> map_of (ps_workloads s) k = Some e \<Longrightarrow> entry_ok k e"
  by (simp add: sched_ok_def)

lemma sched_ok_insert:
  "sched_ok s \<Longrightarrow> entry_ok k e \<Longrightarrow> sched_ok (s\<lparr>ps_workloads := hm_insert k e (ps_workloads s)\<rparr>)"
  by (auto simp: sched_ok_def map_of_hm_insert split: if_splits)

lemma restart_within:
  assumes "should_restart p b n" "within_policy p n"
  shows "within_policy p (n + 1)"
proof (cases p)
  case (OnFailure k)
  with assms(1) have "n < k" by (simp add: should_restart_def)
  then show ?thesis using OnFailure by (simp add: within_policy_def inc_le)
qed (use assms in \<open>auto simp: should_restart_def within_policy_def\<close>)

lemma check_entry_ok:
  assumes "entry_ok k e" "check_entry os e w = (e', w')"
  shows "entry_ok k e'"
  using assms restart_within [of "spec_policy (we_spec e)" _ "we_restart_count e"]
  by (auto simp: check_entry_def entry_ok_def split: if_splits option.splits workload_spec.splits prod.splits sum.splits)

lemma observe_stopped: "we_status e = Stopped \<Longrightarrow> observe os e w = Stopped"
  by (simp add: observe_def)

lemma check_keys_ok: "sched_ok (fst sw) \<Longrightarrow> sched_ok (fst (check_keys os keys sw))"
proof (induction keys arbitrary: sw)
  case (Cons k keys)
  show ?case
  proof (cases "map_of (ps_workloads (fst sw)) k")
    case (Some e)
    obtain e' w where e': "check_entry os e (snd sw) = (e', w)" by force
    have "entry_ok k e'" by (rule check_entry_ok [OF sched_okD [OF Cons.prems Some] e'])
    then show ?thesis using Cons Some e' sched_ok_insert by simp
  qed (use Cons in simp)
qed simp

text \<open>Starting a process changes nothing of the scheduler but the counter of simulated process numbers.\<close>

lemma spawn_workloads:
  assumes "spawn_workload os sv spec iri (s, w) = (r, s', w')"
  shows "ps_workloads s' = ps_workloads s \<and> ps_node_id s' = ps_node_id s \<and> ps_runtime s' = ps_runtime s"
  using assms
  by (auto simp: spawn_workload_def spawn_container_def spawn_container_youki_def next_pid_def Let_def
      split: workload_spec.splits container_runtime.splits prod.splits sum.splits option.splits bool.splits)

lemma sched_ok_step: "sched_step os sw sw' \<Longrightarrow> sched_ok (fst sw) \<Longrightarrow> sched_ok (fst sw')"
proof (erule sched_stepE)
  fix sv iri spec r
  assume ok: "sched_ok (fst sw)" and s: "schedule os sv iri spec sw = (r, sw')"
  obtain x s1 w1 where x: "spawn_workload os sv spec iri sw = (x, s1, w1)" by (metis prod_cases3)
  then have same: "ps_workloads s1 = ps_workloads (fst sw)" using spawn_workloads [of os sv spec iri "fst sw" "snd sw"] by simp
  then have "sched_ok s1" using ok by (simp add: sched_ok_def)
  moreover have "entry_ok iri \<lparr>we_workload_iri = iri, we_spec = spec, we_status = Running, we_node_id = n,
      we_pid = p, we_started_at = t, we_child = c, we_restart_count = 0, we_explicitly_stopped = False,
      we_is_container = (case spec of Container _ \<Rightarrow> True | Binary _ \<Rightarrow> False)\<rparr>" if "limits_validate (spec_limits spec) = Inr ()" for n p t c
    using that by (auto simp: entry_ok_def within_policy_def split: workload_spec.splits restart_policy.splits)
  ultimately show "sched_ok (fst sw')"
    using s x ok by (auto simp: schedule_def Let_def intro!: sched_ok_insert split: sum.splits if_splits prod.splits)
next
  fix iri r
  assume ok: "sched_ok (fst sw)" and "stop os iri sw = (r, sw')"
  moreover have "entry_ok iri (e\<lparr>we_status := Stopped, we_explicitly_stopped := True\<rparr>)"
    if "map_of (ps_workloads (fst sw)) iri = Some e" for e
    using sched_okD [OF ok that] by (simp add: entry_ok_def)
  ultimately show "sched_ok (fst sw')"
    by (auto simp: stop_def Let_def intro!: sched_ok_insert split: prod.splits option.splits)
next
  fix iri r
  assume ok: "sched_ok (fst sw)" and "status os iri sw = (r, sw')"
  moreover have "entry_ok iri (e\<lparr>we_status := observe os e (snd sw)\<rparr>)"
    if "map_of (ps_workloads (fst sw)) iri = Some e" for e
    using sched_okD [OF ok that] by (simp add: entry_ok_def observe_stopped)
  ultimately show "sched_ok (fst sw')"
    by (auto simp: status_def Let_def intro!: sched_ok_insert split: option.splits)
next
  assume "sched_ok (fst sw)" "sw' = health_check_round os sw"
  then show "sched_ok (fst sw')" by (simp add: health_check_round_def check_keys_ok)
qed simp

lemma sched_ok_steps: "sched_steps os sw sw' \<Longrightarrow> sched_ok (fst sw) \<Longrightarrow> sched_ok (fst sw')"
  by (induction rule: rtranclp_induct) (auto dest: sched_ok_step)

section \<open>The life of a workload\<close>

text \<open>What a later entry of the same workload keeps: the specification, and everything once it was stopped.\<close>

definition later :: "workload_entry \<Rightarrow> workload_entry \<Rightarrow> bool" where
  "later e e' \<longleftrightarrow> we_spec e' = we_spec e \<and> (we_status e = Stopped \<and> we_explicitly_stopped e \<longrightarrow> e' = e)"

lemma later_refl [simp]: "later e e"
  by (simp add: later_def)

lemma later_trans: "later e e1 \<Longrightarrow> later e1 e2 \<Longrightarrow> later e e2"
  by (auto simp: later_def)

lemma later_check: "check_entry os e w = (e', w') \<Longrightarrow> later e e'"
  by (auto simp: check_entry_def later_def split: if_splits option.splits workload_spec.splits prod.splits sum.splits)

lemma later_check_keys:
  "map_of (ps_workloads (fst sw)) iri = Some e \<Longrightarrow>
    \<exists>e'. map_of (ps_workloads (fst (check_keys os keys sw))) iri = Some e' \<and> later e e'"
proof (induction keys arbitrary: sw e)
  case (Cons k keys)
  show ?case
  proof (cases "map_of (ps_workloads (fst sw)) k")
    case (Some a)
    obtain b w where b: "check_entry os a (snd sw) = (b, w)" by force
    let ?sw = "((fst sw)\<lparr>ps_workloads := hm_insert k b (ps_workloads (fst sw))\<rparr>, w)"
    let ?e = "if iri = k then b else e"
    have "map_of (ps_workloads (fst ?sw)) iri = Some ?e" using Cons.prems by (simp add: map_of_hm_insert)
    then obtain e' where "map_of (ps_workloads (fst (check_keys os keys ?sw))) iri = Some e'" "later ?e e'"
      using Cons.IH by blast
    moreover have "later e ?e" using later_check [OF b] Some Cons.prems by auto
    ultimately show ?thesis using Some b by (auto intro: later_trans)
  qed (use Cons in simp)
qed simp

lemma later_step:
  assumes "sched_step os sw sw'" "map_of (ps_workloads (fst sw)) iri = Some e"
  shows "\<exists>e'. map_of (ps_workloads (fst sw')) iri = Some e' \<and> later e e'"
  using assms
proof (elim sched_stepE)
  fix sv iri' spec r
  assume s: "schedule os sv iri' spec sw = (r, sw')"
  obtain x s1 w1 where x: "spawn_workload os sv spec iri' sw = (x, s1, w1)" by (metis prod_cases3)
  then have "ps_workloads s1 = ps_workloads (fst sw)" using spawn_workloads [of os sv spec iri' "fst sw" "snd sw"] by simp
  with s x have "map_of (ps_workloads (fst sw')) iri = Some e"
    using assms(2) by (auto simp: schedule_def Let_def map_of_hm_insert split: sum.splits if_splits)
  then show ?thesis by simp
next
  fix iri' r
  assume "stop os iri' sw = (r, sw')"
  then show ?thesis using assms(2)
    by (auto simp: stop_def Let_def later_def map_of_hm_insert split: prod.splits option.splits)
next
  fix iri' r
  assume "status os iri' sw = (r, sw')"
  then show ?thesis using assms(2)
    by (auto simp: status_def Let_def later_def map_of_hm_insert observe_stopped split: option.splits)
next
  assume "sw' = health_check_round os sw"
  then show ?thesis using later_check_keys [OF assms(2)] by (simp add: health_check_round_def)
qed auto

lemma later_steps:
  assumes "sched_steps os sw sw'" "map_of (ps_workloads (fst sw)) iri = Some e"
  shows "\<exists>e'. map_of (ps_workloads (fst sw')) iri = Some e' \<and> later e e'"
  using assms(1)
proof (induction rule: rtranclp_induct)
  case (step y z)
  then show ?case by (meson later_step later_trans)
qed (use assms(2) in simp)

lemma sched_ok_new: "sched_ok (new_with_runtime_and_secrets n d r st)"
  by (simp add: sched_ok_def new_with_runtime_and_secrets_def)

lemma schedule_taken:
  assumes "map_of (ps_workloads s) iri = Some e"
  shows "\<exists>x. schedule os sv iri spec (s, w) = (Inl x, s, w)"
  using assms by (simp add: schedule_def split: sum.splits)

text \<open>C5. Over any run of requests, health checks and changes of the system from a new scheduler: a workload that was
  scheduled stays registered with its specification, its limits are in the admitted range, it was restarted no more often
  than its policy allows, and its IRI cannot be scheduled again; once it was stopped on request it is reported as
  stopped and nothing about it changes any more, in particular it is never restarted.\<close>

theorem workload_lifecycle:
  assumes run: "sched_steps os (new_with_runtime_and_secrets n d r st, w0) (s, w)"
    and e: "map_of (ps_workloads s) iri = Some e"
  shows "limits_validate (spec_limits (we_spec e)) = Inr () \<and>
    within_policy (spec_policy (we_spec e)) (we_restart_count e) \<and>
    (\<forall>sv spec. \<exists>x. schedule os sv iri spec (s, w) = (Inl x, s, w)) \<and>
    (\<forall>s' w'. sched_steps os (s, w) (s', w') \<longrightarrow>
      (\<exists>e'. map_of (ps_workloads s') iri = Some e' \<and> we_spec e' = we_spec e \<and>
        (we_explicitly_stopped e \<longrightarrow> we_status e = Stopped \<and> e' = e))) \<and>
    (\<forall>s1 w1 s2 w2. stop os iri (s, w) = (Inr (), s1, w1) \<and> sched_steps os (s1, w1) (s2, w2) \<longrightarrow>
      map_of (ps_workloads s2) iri = Some (e\<lparr>we_status := Stopped, we_explicitly_stopped := True\<rparr>))"
proof (intro conjI allI impI)
  have ok: "entry_ok iri e" using sched_okD [of s iri e] sched_ok_steps [OF run] sched_ok_new e by simp
  then show "limits_validate (spec_limits (we_spec e)) = Inr ()"
    "within_policy (spec_policy (we_spec e)) (we_restart_count e)" by (simp_all add: entry_ok_def)
  show "\<exists>x. schedule os sv iri spec (s, w) = (Inl x, s, w)" for sv spec by (rule schedule_taken [OF e])
  show "\<exists>e'. map_of (ps_workloads s') iri = Some e' \<and> we_spec e' = we_spec e \<and>
        (we_explicitly_stopped e \<longrightarrow> we_status e = Stopped \<and> e' = e)" if "sched_steps os (s, w) (s', w')" for s' w'
    using later_steps [OF that, of iri e] e ok by (auto simp: later_def entry_ok_def)
  show "map_of (ps_workloads s2) iri = Some (e\<lparr>we_status := Stopped, we_explicitly_stopped := True\<rparr>)"
    if "stop os iri (s, w) = (Inr (), s1, w1) \<and> sched_steps os (s1, w1) (s2, w2)" for s1 w1 s2 w2
    using later_steps [OF that [THEN conjunct2], of iri "e\<lparr>we_status := Stopped, we_explicitly_stopped := True\<rparr>"] that e
    by (auto simp: stop_def Let_def later_def)
qed

definition ex_os :: "unit os_api" where
  "ex_os = \<lparr>os_spawn = \<lambda>_ w. (Inr 0, w), os_child_id = \<lambda>_ _. Some 7, os_try_wait = \<lambda>_ _. Inr None,
     os_output = \<lambda>_ _ w. (Inr (True, []), w), os_sigterm = \<lambda>_ w. (True, w), os_create_dir_all = \<lambda>_ w. (Inr (), w),
     os_write_config = \<lambda>_ _ w. (Inr (), w)\<rparr>"

definition ex_workload :: workload_spec where
  "ex_workload = Container \<lparr>cs_image = ''img'', cs_identity = ''id'', cs_resources = resource_limits_new 500 64, cs_mounts = [],
     cs_env = [], cs_ports = [], cs_health_check = None, cs_restart_policy = OnFailure 2, cs_product_version = None\<rparr>"

definition ex_entry :: workload_entry where
  "ex_entry = \<lparr>we_workload_iri = ''w'', we_spec = ex_workload, we_status = Running, we_node_id = 1, we_pid = Some 10000,
     we_started_at = 5, we_child = None, we_restart_count = 0, we_explicitly_stopped = False, we_is_container = True\<rparr>"

lemma ex_schedule:
  "schedule ex_os \<lparr>sv_trace_id = 1, sv_parent_id = 1, sv_now = 5, sv_cpus_text = \<lambda>_. []\<rparr> ''w'' ex_workload
     (new_with_runtime_and_secrets 1 d NoRuntime None, ()) =
   (Inr \<lparr>wh_workload_iri = ''w'', wh_node_id = 1, wh_pid = Some 10000\<rparr>,
    (new_with_runtime_and_secrets 1 d NoRuntime None)\<lparr>ps_workloads := [(''w'', ex_entry)], ps_next_pid := 10001\<rparr>, ())"
  by (simp add: schedule_def ex_workload_def ex_entry_def spec_limits_def limits_validate_def resource_limits_new_def
      bound_errors_def MIN_CPU_MILLICORES_def MAX_CPU_MILLICORES_def MIN_MEMORY_MB_def MAX_MEMORY_MB_def
      new_with_runtime_and_secrets_def spawn_workload_def spawn_container_def next_pid_def hm_insert_def)

theorem workload_lifecycle_witness:
  "\<exists>s1 w1. stop ex_os ''w'' ((new_with_runtime_and_secrets 1 ''c'' NoRuntime None)
      \<lparr>ps_workloads := [(''w'', ex_entry)], ps_next_pid := 10001\<rparr>, ()) = (Inr (), s1, w1) \<and>
    map_of (ps_workloads (fst (health_check_round ex_os (s1, w1)))) ''w'' =
      Some (ex_entry\<lparr>we_status := Stopped, we_explicitly_stopped := True\<rparr>)"
proof -
  let ?s = "(new_with_runtime_and_secrets 1 ''c'' NoRuntime None)\<lparr>ps_workloads := [(''w'', ex_entry)], ps_next_pid := 10001\<rparr>"
  have run: "sched_steps ex_os (new_with_runtime_and_secrets 1 ''c'' NoRuntime None, ()) (?s, ())"
    using step_schedule [OF ex_schedule] by (rule r_into_rtranclp)
  obtain s1 w1 where s1: "stop ex_os ''w'' (?s, ()) = (Inr (), s1, w1)"
    by (simp add: stop_def Let_def)
  obtain s2 w2 where s2: "health_check_round ex_os (s1, w1) = (s2, w2)" using prod.exhaust by blast
  have "sched_steps ex_os (s1, w1) (s2, w2)"
    using step_health [of ex_os "(s1, w1)"] unfolding s2 by (rule r_into_rtranclp)
  moreover have "map_of (ps_workloads ?s) ''w'' = Some ex_entry" by simp
  note workload_lifecycle [OF run this]
  ultimately show ?thesis using s1 s2 by auto
qed

section \<open>What a restart loses\<close>

lemma map_of_set_env [simp]: "map_of (cm_env (set_env k v c)) = (map_of (cm_env c))(k \<mapsto> v)"
  by (simp add: set_env_def)

lemma fold_env_other:
  "k \<notin> fst ` set kvs \<Longrightarrow> map_of (cm_env (foldl (\<lambda>c (k, v). set_env k (f v) c) c kvs)) k = map_of (cm_env c) k"
  by (induction kvs arbitrary: c) auto

lemma fold_env:
  "distinct (map fst kvs) \<Longrightarrow> (k, v) \<in> set kvs \<Longrightarrow>
    map_of (cm_env (foldl (\<lambda>c (k, v). set_env k (f v) c) c kvs)) k = Some (f v)"
proof (induction kvs arbitrary: c)
  case (Cons p kvs)
  show ?case
  proof (cases "p = (k, v)")
    case True
    then have "k \<notin> fst ` set kvs" using Cons.prems(1) by simp
    then show ?thesis using True by (simp add: fold_env_other)
  qed (use Cons in simp)
qed simp

lemma fold_env_limits [simp]:
  "cm_rlimit_as (foldl (\<lambda>c (k, v). set_env k (f v) c) c kvs) = cm_rlimit_as c"
  "cm_rlimit_cpu (foldl (\<lambda>c (k, v). set_env k (f v) c) c kvs) = cm_rlimit_cpu c"
  by (induction kvs arbitrary: c) (auto simp: set_env_def)

definition injected_vars :: "string set" where
  "injected_vars = {''OTEL_SERVICE_NAME'', ''OTEL_EXPORTER_OTLP_ENDPOINT'', ''OTEL_RESOURCE_ATTRIBUTES'', ''TRACEPARENT'',
     ''PICLOUD_PRODUCT_VERSION''}"

lemma first_start_env:
  assumes "distinct (map fst (bs_env b))" "(k, v) \<in> set (bs_env b)" "k \<notin> injected_vars"
  shows "map_of (cm_env (binary_command sv s b iri)) k = Some (resolve_env_value s v (product_from_iri iri))"
  using assms(3) fold_env [OF assms(1,2), of "\<lambda>v. resolve_env_value s v (product_from_iri iri)"]
  by (auto simp: binary_command_def otel_env_vars_def Let_def injected_vars_def split: option.splits)

lemma restart_env:
  assumes "distinct (map fst (bs_env b))"
  shows "(k, v) \<in> set (bs_env b) \<Longrightarrow> map_of (cm_env (restart_command b)) k =
      Some (case v of Literal s \<Rightarrow> s | SecretRef secret \<Rightarrow> ''SECRET:'' @ secret)"
    and "k \<notin> fst ` set (bs_env b) \<Longrightarrow> map_of (cm_env (restart_command b)) k = None"
  using assms by (simp_all add: restart_command_def fold_env fold_env_other)

text \<open>A binary whose process failed and whose policy allows it is started again without its secrets, its limits
  and its trace context: a variable that held a stored secret at the first start holds the name of the
  secret after the restart.\<close>

theorem restart_loses_secrets_and_limits:
  assumes env: "distinct (map fst (bs_env b))" "(k, SecretRef secret) \<in> set (bs_env b)" "k \<notin> injected_vars"
    and store: "ps_secret_store s = Some (get_secret cr st)" "product_from_iri iri = Some p" "get_secret cr st p secret = Inr v"
    and e: "we_spec e = Binary b" "we_status e = Running" "\<not> we_explicitly_stopped e" "exited os e w = Some False"
      "should_restart (bs_restart_policy b) False (we_restart_count e)"
    and spawn: "os_spawn os (restart_command b) w = (Inr child, w')"
  shows "map_of (cm_env (binary_command sv s b iri)) k = Some v"
    and "cm_rlimit_as (binary_command sv s b iri) = memory_as_bytes (bs_resources b)"
    and "we_child (fst (check_entry os e w)) = Some child \<and> snd (check_entry os e w) = w'"
    and "map_of (cm_env (restart_command b)) k = Some (''SECRET:'' @ secret)"
    and "cm_rlimit_as (restart_command b) = None \<and> cm_rlimit_cpu (restart_command b) = None"
    and "''TRACEPARENT'' \<notin> fst ` set (bs_env b) \<Longrightarrow> map_of (cm_env (restart_command b)) ''TRACEPARENT'' = None"
proof -
  show "map_of (cm_env (binary_command sv s b iri)) k = Some v"
    using first_start_env [OF env] store by (simp add: resolve_env_value_def)
  show "cm_rlimit_as (binary_command sv s b iri) = memory_as_bytes (bs_resources b)"
    by (simp add: binary_command_def Let_def)
  show "we_child (fst (check_entry os e w)) = Some child \<and> snd (check_entry os e w) = w'"
    using e spawn by (simp add: check_entry_def spec_policy_def)
  show "map_of (cm_env (restart_command b)) k = Some (''SECRET:'' @ secret)"
    using restart_env(1) [OF env(1,2)] by simp
  show "cm_rlimit_as (restart_command b) = None \<and> cm_rlimit_cpu (restart_command b) = None"
    by (simp add: restart_command_def)
  show "''TRACEPARENT'' \<notin> fst ` set (bs_env b) \<Longrightarrow> map_of (cm_env (restart_command b)) ''TRACEPARENT'' = None"
    by (rule restart_env(2) [OF env(1)])
qed

section \<open>Containers\<close>

text \<open>A container whose child has exited is never started again: a restart only counts.\<close>

theorem container_restart_is_simulated:
  assumes "we_spec e = Container c" "check_entry os e w = (e', w')"
  shows "w' = w \<and> we_child e' = we_child e \<and> we_pid e' = we_pid e"
  using assms by (auto simp: check_entry_def split: if_splits option.splits)

section \<open>Trace context\<close>

lemma hex_fixed_length [simp]: "length (hex_fixed w n) = w"
  by (induction w arbitrary: n) simp_all

lemma hex_char_cases:
  assumes "d < 16"
  shows "is_ascii_hexdigit (hex_char d) \<and> hex_char d \<noteq> CHR ''-'' \<and> (hex_char d = CHR ''0'' \<longleftrightarrow> d = 0)"
proof -
  have b: "(of_char (hex_char d) :: nat) = (if d < 10 then 48 + d else 87 + d)" using assms by (simp add: hex_char_def)
  have "(of_char CHR ''-'' :: nat) = 45" "(of_char CHR ''0'' :: nat) = 48" by simp_all
  then have "hex_char d \<noteq> CHR ''-''" "hex_char d = CHR ''0'' \<Longrightarrow> d = 0" using b by (auto split: if_splits)
  moreover have "hex_char 0 = CHR ''0''" by code_simp
  moreover have "is_ascii_hexdigit (hex_char d)" using b assms by (auto simp: is_ascii_hexdigit_def Let_def)
  ultimately show ?thesis by auto
qed

lemma hex_fixed_hex: "list_all is_ascii_hexdigit (hex_fixed w n) \<and> CHR ''-'' \<notin> set (hex_fixed w n)"
proof (induction w arbitrary: n)
  case (Suc w)
  then show ?case using hex_char_cases [of "n mod 16"] by auto
qed simp

lemma hex_fixed_zero: "n < 16 ^ w \<Longrightarrow> list_all (\<lambda>c. c = CHR ''0'') (hex_fixed w n) \<longleftrightarrow> n = 0"
proof (induction w arbitrary: n)
  case (Suc w)
  have "n div 16 < 16 ^ w" using Suc.prems by (simp add: less_mult_imp_div_less mult.commute)
  moreover have "n = 0 \<longleftrightarrow> n div 16 = 0 \<and> n mod 16 = 0"
    by (metis add_0 div_mult_mod_eq div_0 mod_0 mult_0)
  ultimately show ?case using Suc.IH hex_char_cases [of "n mod 16"] by simp
qed simp

text \<open>A generated trace context passes the check exactly when neither of the random identifiers is zero.\<close>

theorem traceparent_valid: "is_valid_traceparent (generate_traceparent t p) \<longleftrightarrow> t \<noteq> 0 \<and> p \<noteq> 0"
proof -
  have "split_on (CHR ''-'') (generate_traceparent t p) =
      [''00'', hex_fixed 32 (unat t), hex_fixed 16 (unat p), ''01'']"
    using split_on_app [of "CHR ''-''" "''00''"] split_on_app [of "CHR ''-''" "hex_fixed 32 (unat t)"]
      split_on_app [of "CHR ''-''" "hex_fixed 16 (unat p)"] split_on_none [of "CHR ''-''" "''01''"] hex_fixed_hex
    by (simp add: generate_traceparent_def)
  moreover have "list_all (\<lambda>c. c = CHR ''0'') (hex_fixed 32 (unat t)) \<longleftrightarrow> t = 0"
    using hex_fixed_zero [of "unat t" 32] unsigned_less [of t] by (simp add: unat_eq_0)
  moreover have "list_all (\<lambda>c. c = CHR ''0'') (hex_fixed 16 (unat p)) \<longleftrightarrow> p = 0"
    using hex_fixed_zero [of "unat p" 16] unsigned_less [of p] by (simp add: unat_eq_0)
  moreover have "list_all is_ascii_hexdigit ''00''" "list_all is_ascii_hexdigit ''01''" by (simp_all add: is_ascii_hexdigit_def)
  ultimately show ?thesis using hex_fixed_hex by (simp add: is_valid_traceparent_def)
qed

end
