(* ===== verification/Node_Drain.thy ===== *)
theory Node_Drain
  imports Domain_Types "HOL-Library.Multiset"
begin

text \<open>
  The in-memory drain coordinator (\<open>InMemoryDrainCoordinator\<close> of
  \<open>crates/picloud-workload/src/implementation.rs\<close>). The clock is an argument: \<open>expired i\<close> says whether the deadline has
  passed when the workload at position \<open>i\<close> is looked at, \<open>elapsed\<close> is the duration that is reported. A drain
  takes its locks one after the other, so it is split into the three parts between which other calls
  may run.
\<close>

section \<open>State\<close>

datatype node_drain_state = Active | Cordoned | Draining | Drained

record node_workload_info =
  nw_workload_iri :: resource_iri
  nw_workload_type :: string

record migration_record =
  mr_workload_iri :: resource_iri
  mr_workload_type :: string
  mr_from_node_id :: uuid
  mr_to_node_id :: uuid

record drain_result =
  dr_node_id :: uuid
  dr_workloads_migrated :: nat
  dr_duration_ms :: u64
  dr_success :: bool
  dr_error :: "string option"

record drain_coordinator =
  dc_drain_states :: "(uuid \<times> node_drain_state) list"
  dc_node_workloads :: "(uuid \<times> node_workload_info list) list"
  dc_available_nodes :: "uuid list"
  dc_migrations :: "migration_record list"

definition drain_coordinator_new :: drain_coordinator where
  "drain_coordinator_new = \<lparr>dc_drain_states = [], dc_node_workloads = [], dc_available_nodes = [], dc_migrations = []\<rparr>"

section \<open>Operations\<close>

definition set_drain_state :: "uuid \<Rightarrow> node_drain_state \<Rightarrow> drain_coordinator \<Rightarrow> drain_coordinator" where
  "set_drain_state node_id st c = c\<lparr>dc_drain_states := hm_insert node_id st (dc_drain_states c)\<rparr>"

definition register_node :: "uuid \<Rightarrow> drain_coordinator \<Rightarrow> drain_coordinator" where
  "register_node node_id c = set_drain_state node_id Active c"

definition drain_state :: "drain_coordinator \<Rightarrow> uuid \<Rightarrow> node_drain_state" where
  "drain_state c node_id = (case map_of (dc_drain_states c) node_id of Some st \<Rightarrow> st | None \<Rightarrow> Active)"

definition node_workloads :: "drain_coordinator \<Rightarrow> uuid \<Rightarrow> node_workload_info list" where
  "node_workloads c node_id = (case map_of (dc_node_workloads c) node_id of Some ws \<Rightarrow> ws | None \<Rightarrow> [])"

definition register_workload :: "uuid \<Rightarrow> node_workload_info \<Rightarrow> drain_coordinator \<Rightarrow> drain_coordinator" where
  "register_workload node_id workload c =
     c\<lparr>dc_node_workloads := hm_insert node_id (node_workloads c node_id @ [workload]) (dc_node_workloads c)\<rparr>"

definition set_available_nodes :: "uuid list \<Rightarrow> drain_coordinator \<Rightarrow> drain_coordinator" where
  "set_available_nodes nodes c = c\<lparr>dc_available_nodes := nodes\<rparr>"

definition migration_log :: "drain_coordinator \<Rightarrow> migration_record list" where
  "migration_log c = dc_migrations c"

definition clear_migration_log :: "drain_coordinator \<Rightarrow> drain_coordinator" where
  "clear_migration_log c = c\<lparr>dc_migrations := []\<rparr>"

definition show_drain_state :: "node_drain_state \<Rightarrow> string" where
  "show_drain_state st =
     (case st of Active \<Rightarrow> ''Active'' | Cordoned \<Rightarrow> ''Cordoned'' | Draining \<Rightarrow> ''Draining'' | Drained \<Rightarrow> ''Drained'')"

definition cordon :: "uuid \<Rightarrow> drain_coordinator \<Rightarrow> unit result \<times> drain_coordinator" where
  "cordon node_id c =
     (case map_of (dc_drain_states c) node_id of
        None \<Rightarrow> (Inr (), set_drain_state node_id Cordoned c)
      | Some st \<Rightarrow>
          if st = Active then (Inr (), set_drain_state node_id Cordoned c)
          else (Inl (Internal (''Cannot cordon node in state '' @ show_drain_state st)), c))"

definition uncordon :: "uuid \<Rightarrow> drain_coordinator \<Rightarrow> unit result \<times> drain_coordinator" where
  "uncordon node_id c =
     (case map_of (dc_drain_states c) node_id of
        None \<Rightarrow> (Inr (), set_drain_state node_id Active c)
      | Some Cordoned \<Rightarrow> (Inr (), set_drain_state node_id Active c)
      | Some Drained \<Rightarrow> (Inr (), set_drain_state node_id Active c)
      | Some Draining \<Rightarrow> (Inl (Internal ''Cannot uncordon a node that is currently draining''), c)
      | Some Active \<Rightarrow> (Inl (Internal (''Cannot uncordon node in state '' @ show_drain_state Active)), c))"

subsection \<open>Draining\<close>

definition drain_fails :: "uuid \<Rightarrow> nat \<Rightarrow> u64 \<Rightarrow> string \<Rightarrow> drain_coordinator \<Rightarrow> drain_result \<times> drain_coordinator" where
  "drain_fails node_id migrated elapsed msg c =
     (\<lparr>dr_node_id = node_id, dr_workloads_migrated = migrated, dr_duration_ms = elapsed, dr_success = False,
       dr_error = Some msg\<rparr>, set_drain_state node_id Cordoned c)"

definition migrate_one :: "uuid \<Rightarrow> uuid \<Rightarrow> node_workload_info \<Rightarrow> drain_coordinator \<Rightarrow> drain_coordinator" where
  "migrate_one node_id target workload c =
     register_workload target \<lparr>nw_workload_iri = nw_workload_iri workload, nw_workload_type = nw_workload_type workload\<rparr>
       (c\<lparr>dc_migrations := dc_migrations c @
          [\<lparr>mr_workload_iri = nw_workload_iri workload, mr_workload_type = nw_workload_type workload,
            mr_from_node_id = node_id, mr_to_node_id = target\<rparr>]\<rparr>)"

text \<open>The loop over the workloads from position \<open>i\<close> on; the flag says whether it ran to its end.\<close>

fun migrate :: "(nat \<Rightarrow> bool) \<Rightarrow> uuid \<Rightarrow> uuid list \<Rightarrow> nat \<Rightarrow> node_workload_info list \<Rightarrow> drain_coordinator \<Rightarrow>
    bool \<times> nat \<times> drain_coordinator" where
  "migrate expired node_id targets i [] c = (True, i, c)"
| "migrate expired node_id targets i (workload # workloads) c =
     (if expired i then (False, i, c)
      else migrate expired node_id targets (Suc i) workloads
             (migrate_one node_id (targets ! (i mod length targets)) workload c))"

definition drain_begin :: "uuid \<Rightarrow> drain_coordinator \<Rightarrow> node_workload_info list \<times> uuid list \<times> drain_coordinator" where
  "drain_begin node_id c =
     (let c = set_drain_state node_id Draining c in (node_workloads c node_id, dc_available_nodes c, c))"

definition drain_finish :: "uuid \<Rightarrow> nat \<Rightarrow> u64 \<Rightarrow> drain_coordinator \<Rightarrow> drain_result \<times> drain_coordinator" where
  "drain_finish node_id migrated elapsed c =
     (\<lparr>dr_node_id = node_id, dr_workloads_migrated = migrated, dr_duration_ms = elapsed, dr_success = True,
       dr_error = None\<rparr>,
      set_drain_state node_id Drained (c\<lparr>dc_node_workloads := hm_remove node_id (dc_node_workloads c)\<rparr>))"

definition drain :: "(nat \<Rightarrow> bool) \<Rightarrow> u64 \<Rightarrow> uuid \<Rightarrow> drain_coordinator \<Rightarrow> drain_result \<times> drain_coordinator" where
  "drain expired elapsed node_id c =
     (case drain_begin node_id c of
        (workloads, targets, c) \<Rightarrow>
          if targets = [] \<and> length workloads > 0 then
            drain_fails node_id 0 elapsed ''No available target nodes for workload migration'' c
          else
            (case migrate expired node_id targets 0 workloads c of
               (False, migrated, c) \<Rightarrow>
                 drain_fails node_id migrated elapsed
                   (''Drain timeout: migrated '' @ show_nat migrated @ ''/'' @ show_nat (length workloads) @ '' workloads'') c
             | (True, migrated, c) \<Rightarrow> drain_finish node_id migrated elapsed c))"

section \<open>What the loop moves\<close>

text \<open>The assignment of the first workloads, from position \<open>i\<close> on, to the targets in turn.\<close>

definition assigned :: "uuid list \<Rightarrow> nat \<Rightarrow> node_workload_info list \<Rightarrow> (node_workload_info \<times> uuid) list" where
  "assigned targets i ws = map (\<lambda>j. (ws ! j, targets ! ((i + j) mod length targets))) [0..<length ws]"

definition received :: "uuid \<Rightarrow> (node_workload_info \<times> uuid) list \<Rightarrow> node_workload_info list" where
  "received n ps = map fst (filter (\<lambda>p. snd p = n) ps)"

definition record_of :: "uuid \<Rightarrow> node_workload_info \<times> uuid \<Rightarrow> migration_record" where
  "record_of node_id p = \<lparr>mr_workload_iri = nw_workload_iri (fst p), mr_workload_type = nw_workload_type (fst p),
     mr_from_node_id = node_id, mr_to_node_id = snd p\<rparr>"

lemma assigned_Nil [simp]: "assigned ts i [] = []"
  by (simp add: assigned_def)

lemma assigned_Cons [simp]: "assigned ts i (w # ws) = (w, ts ! (i mod length ts)) # assigned ts (Suc i) ws"
  by (simp add: assigned_def upt_conv_Cons map_Suc_upt [symmetric] del: upt_Suc map_Suc_upt)

lemma received_simps [simp]:
  "received n [] = []"
  "received n (p # ps) = (if snd p = n then fst p # received n ps else received n ps)"
  by (simp_all add: received_def)

lemma migrate_one_frame [simp]:
  "dc_drain_states (migrate_one n t w c) = dc_drain_states c"
  "dc_available_nodes (migrate_one n t w c) = dc_available_nodes c"
  "dc_migrations (migrate_one n t w c) = dc_migrations c @ [record_of n (w, t)]"
  by (simp_all add: migrate_one_def register_workload_def record_of_def)

lemma migrate_one_workloads [simp]:
  "node_workloads (migrate_one n t w c) m = node_workloads c m @ (if m = t then [w] else [])"
  by (simp add: migrate_one_def register_workload_def node_workloads_def)

text \<open>The loop stops at the first position at which the deadline has passed; what it moved until then is exactly
  the assignment of the workloads before it.\<close>

lemma migrate_exact:
  assumes "k \<le> length ws" "\<And>j. j < k \<Longrightarrow> \<not> expired (i + j)" "k < length ws \<Longrightarrow> expired (i + k)"
  shows "\<exists>c'. migrate expired n ts i ws c = (k = length ws, i + k, c') \<and>
    dc_drain_states c' = dc_drain_states c \<and> dc_available_nodes c' = dc_available_nodes c \<and>
    dc_migrations c' = dc_migrations c @ map (record_of n) (assigned ts i (take k ws)) \<and>
    (\<forall>m. node_workloads c' m = node_workloads c m @ received m (assigned ts i (take k ws)))"
  using assms
proof (induction ws arbitrary: i k c)
  case (Cons w ws)
  show ?case
  proof (cases k)
    case (Suc k')
    have "\<not> expired i" using Cons.prems(2) [of 0] Suc by simp
    moreover have "\<not> expired (Suc i + j)" if "j < k'" for j using Cons.prems(2) [of "Suc j"] Suc that by simp
    moreover have "k' \<le> length ws" "k' < length ws \<Longrightarrow> expired (Suc i + k')" using Cons.prems(1,3) Suc by simp_all
    ultimately show ?thesis
      using Cons.IH [of k' "Suc i" "migrate_one n (ts ! (i mod length ts)) w c"] Suc by auto
  qed (use Cons.prems in simp)
qed simp

definition before_deadline :: "(nat \<Rightarrow> bool) \<Rightarrow> nat \<Rightarrow> nat" where
  "before_deadline expired n = length (takeWhile (\<lambda>i. \<not> expired i) [0..<n])"

lemma before_deadline:
  "before_deadline expired n \<le> n"
  "j < before_deadline expired n \<Longrightarrow> \<not> expired j"
  "before_deadline expired n < n \<Longrightarrow> expired (before_deadline expired n)"
proof -
  let ?k = "before_deadline expired n"
  show k: "?k \<le> n" using length_takeWhile_le [of "\<lambda>i. \<not> expired i" "[0..<n]"] by (simp add: before_deadline_def)
  have nth: "takeWhile (\<lambda>i. \<not> expired i) [0..<n] ! j = j" if "j < ?k" for j
    using that k by (simp add: before_deadline_def takeWhile_nth)
  show "\<not> expired j" if "j < ?k"
    using nth_mem [of j "takeWhile (\<lambda>i. \<not> expired i) [0..<n]"] that set_takeWhileD [of j "\<lambda>i. \<not> expired i" "[0..<n]"]
    by (simp add: nth [OF that] before_deadline_def)
  show "expired ?k" if "?k < n"
    using nth_length_takeWhile [of "\<lambda>i. \<not> expired i" "[0..<n]"] that by (simp add: before_deadline_def)
qed

section \<open>Where the workloads are after a drain\<close>

lemma received_sum:
  assumes "finite N" "snd ` set ps \<subseteq> N"
  shows "(\<Sum>m\<in>N. mset (received m ps)) = mset (map fst ps)"
  using assms(2)
proof (induction ps)
  case (Cons p ps)
  have "(\<Sum>m\<in>N. mset (received m (p # ps))) = (\<Sum>m\<in>N. (if m = snd p then {#fst p#} else {#}) + mset (received m ps))"
    by (rule sum.cong) auto
  also have "\<dots> = {#fst p#} + mset (map fst ps)" using Cons assms(1) by (simp add: sum.distrib)
  finally show ?case by simp
qed simp

lemma assigned_fst [simp]: "map fst (assigned ts i ws) = ws"
  by (induction ws arbitrary: i) simp_all

lemma assigned_targets: "ts \<noteq> [] \<Longrightarrow> snd ` set (assigned ts i ws) \<subseteq> set ts"
  by (induction ws arbitrary: i) auto

lemma received_other: "n \<notin> snd ` set ps \<Longrightarrow> received n ps = []"
  by (auto simp: received_def filter_empty_conv)

lemma set_drain_state_frame [simp]:
  "dc_node_workloads (set_drain_state n st c) = dc_node_workloads c"
  "dc_migrations (set_drain_state n st c) = dc_migrations c"
  "dc_available_nodes (set_drain_state n st c) = dc_available_nodes c"
  "node_workloads (set_drain_state n st c) m = node_workloads c m"
  "drain_state (set_drain_state n st c) m = (if m = n then st else drain_state c m)"
  by (simp_all add: set_drain_state_def node_workloads_def drain_state_def)

lemma drain_finish_frame [simp]:
  "node_workloads (snd (drain_finish n k t c)) m = (if m = n then [] else node_workloads c m)"
  "drain_state (snd (drain_finish n k t c)) m = (if m = n then Drained else drain_state c m)"
  "dc_migrations (snd (drain_finish n k t c)) = dc_migrations c"
  by (simp_all add: drain_finish_def node_workloads_def drain_state_def set_drain_state_def)

text \<open>The state after a drain, for a number \<open>k\<close> of workloads moved before the deadline.\<close>

lemma drain_cases:
  assumes "dc_available_nodes c \<noteq> []" "drain expired t n c = (r, c')"
    and k: "k = before_deadline expired (length (node_workloads c n))"
    and ps: "ps = assigned (dc_available_nodes c) 0 (take k (node_workloads c n))"
  shows "dr_workloads_migrated r = k \<and> (dr_success r \<longleftrightarrow> k = length (node_workloads c n)) \<and>
    migration_log c' = migration_log c @ map (record_of n) ps \<and>
    (\<forall>m. drain_state c' m = (if m \<noteq> n then drain_state c m else if dr_success r then Drained else Cordoned)) \<and>
    (\<forall>m. node_workloads c' m = (if m = n \<and> dr_success r then [] else node_workloads c m @ received m ps))"
proof -
  let ?c = "set_drain_state n Draining c" and ?ws = "node_workloads c n"
  obtain c2 where c2: "migrate expired n (dc_available_nodes c) 0 ?ws ?c = (k = length ?ws, k, c2)"
    "dc_drain_states c2 = dc_drain_states ?c" "dc_migrations c2 = dc_migrations c @ map (record_of n) ps"
    "\<And>m. node_workloads c2 m = node_workloads c m @ received m ps"
    using migrate_exact [of k ?ws expired 0 n "dc_available_nodes c" ?c] before_deadline [where expired = expired and n = "length ?ws"]
    unfolding k ps by auto
  have st: "drain_state c2 m = (if m = n then Draining else drain_state c m)" for m
    using c2(2) by (simp add: drain_state_def set_drain_state_def)
  have begin_eq: "drain_begin n c = (?ws, dc_available_nodes c, ?c)" by (simp add: drain_begin_def)
  show ?thesis
  proof (cases "k = length ?ws")
    case True
    then have "(r, c') = drain_finish n k t c2" using assms(1,2) begin_eq c2(1) by (simp add: drain_def)
    then have "r = fst (drain_finish n k t c2)" "c' = snd (drain_finish n k t c2)" by (simp_all add: prod_eq_iff)
    then show ?thesis using True c2(3,4) st by (simp add: drain_finish_def [THEN arg_cong, of fst] migration_log_def)
  next
    case False
    then have "(r, c') = drain_fails n k t
        (''Drain timeout: migrated '' @ show_nat k @ ''/'' @ show_nat (length ?ws) @ '' workloads'') c2"
      using assms(1,2) begin_eq c2(1) by (simp add: drain_def)
    then show ?thesis using False c2(3,4) st by (simp add: drain_fails_def migration_log_def)
  qed
qed

text \<open>The workloads of all nodes, with multiplicity.\<close>

definition all_workloads :: "drain_coordinator \<Rightarrow> uuid set \<Rightarrow> node_workload_info multiset" where
  "all_workloads c N = (\<Sum>m\<in>N. mset (node_workloads c m))"

lemma all_workloads_after:
  assumes N: "finite N" "n \<in> N" "snd ` set ps \<subseteq> N"
    and after: "\<And>m. node_workloads c' m = (if m = n \<and> ok then [] else node_workloads c m @ received m ps)"
  shows "all_workloads c' N + (if ok then mset (node_workloads c n) + mset (received n ps) else {#}) =
    all_workloads c N + mset (map fst ps)"
proof -
  have "all_workloads c' N + (if ok then mset (node_workloads c n) + mset (received n ps) else {#}) =
      (\<Sum>m\<in>N. mset (node_workloads c m) + mset (received m ps))"
  proof (cases ok)
    case True
    have "all_workloads c' N = (\<Sum>m\<in>N - {n}. mset (node_workloads c m) + mset (received m ps))"
      unfolding all_workloads_def sum.remove [OF N(1,2)] using True by (simp add: after)
    then show ?thesis using True by (simp add: sum.remove [OF N(1,2)])
  qed (simp add: all_workloads_def after)
  also have "\<dots> = all_workloads c N + mset (map fst ps)"
    using received_sum [OF N(1,3)] by (simp add: sum.distrib all_workloads_def)
  finally show ?thesis .
qed

text \<open>C31. A drain with targets moves the workloads before the deadline to the targets in turn and logs exactly these
  moves. When all were moved it succeeds, the node is drained and has no workload, and the workloads of
  the whole cluster are the same as before but for those that were assigned to the node itself, which
  happens only when the node is among the targets. When the deadline passed it fails, the node is cordoned and keeps all its
  workloads, so that those that were moved now run twice. No other node changes its drain state.\<close>

theorem drain_exact:
  assumes "dc_available_nodes c \<noteq> []" "drain expired t n c = (r, c')"
    and "k = before_deadline expired (length (node_workloads c n))"
    and "ps = assigned (dc_available_nodes c) 0 (take k (node_workloads c n))"
    and "finite N" "insert n (set (dc_available_nodes c)) \<subseteq> N"
  shows "dr_workloads_migrated r = k \<and> (dr_success r \<longleftrightarrow> k = length (node_workloads c n)) \<and>
    migration_log c' = migration_log c @ map (record_of n) ps \<and>
    (\<forall>m. drain_state c' m = (if m \<noteq> n then drain_state c m else if dr_success r then Drained else Cordoned)) \<and>
    (\<forall>m. node_workloads c' m = (if m = n \<and> dr_success r then [] else node_workloads c m @ received m ps)) \<and>
    all_workloads c' N + (if dr_success r then mset (received n ps) else {#}) =
      all_workloads c N + (if dr_success r then {#} else mset (take k (node_workloads c n))) \<and>
    (n \<notin> set (dc_available_nodes c) \<longrightarrow> received n ps = [])"
proof -
  note cs = drain_cases [OF assms(1-4)]
  have sub: "snd ` set ps \<subseteq> set (dc_available_nodes c)" using assigned_targets [OF assms(1)] assms(4) by simp
  have "all_workloads c' N + (if dr_success r then mset (node_workloads c n) + mset (received n ps) else {#}) =
      all_workloads c N + mset (map fst ps)"
    using all_workloads_after [of N n ps c' "dr_success r" c] assms(5,6) sub cs by blast
  then have "all_workloads c' N + (if dr_success r then mset (received n ps) else {#}) =
      all_workloads c N + (if dr_success r then {#} else mset (take k (node_workloads c n)))"
    using cs assms(4) by (cases "dr_success r") (simp_all add: union_assoc [symmetric] union_commute [of "mset (node_workloads c n)"])
  then show ?thesis using cs received_other [of n ps] sub by blast
qed

definition ex_drain :: drain_coordinator where
  "ex_drain = set_available_nodes [2, 3]
     (register_workload 1 \<lparr>nw_workload_iri = ''c'', nw_workload_type = ''binary''\<rparr>
       (register_workload 1 \<lparr>nw_workload_iri = ''b'', nw_workload_type = ''binary''\<rparr>
         (register_workload 1 \<lparr>nw_workload_iri = ''a'', nw_workload_type = ''binary''\<rparr> drain_coordinator_new)))"

theorem drain_exact_witness:
  "\<exists>r c'. drain (\<lambda>_. False) 7 1 ex_drain = (r, c') \<and> dr_success r \<and> dr_workloads_migrated r = 3 \<and>
    all_workloads c' {1, 2, 3} = all_workloads ex_drain {1, 2, 3} \<and> drain_state c' 1 = Drained"
proof -
  let ?e = "\<lambda>_::nat. False"
  have c: "dc_available_nodes ex_drain = [2, 3]" "length (node_workloads ex_drain 1) = 3"
    by (simp_all add: ex_drain_def set_available_nodes_def register_workload_def drain_coordinator_new_def node_workloads_def)
  obtain r c' where d: "drain ?e 7 1 ex_drain = (r, c')" by force
  have "before_deadline ?e (length (node_workloads ex_drain 1)) = 3"
    by (simp add: c before_deadline_def takeWhile_eq_all_conv [THEN iffD2])
  then show ?thesis using drain_exact [OF _ d refl refl, of "{1, 2, 3}"] d by (auto simp: c)
qed

section \<open>Other outcomes\<close>

lemma drain_without_targets:
  assumes "dc_available_nodes c = []" "node_workloads c n \<noteq> []"
  shows "drain expired t n c = drain_fails n 0 t ''No available target nodes for workload migration''
    (set_drain_state n Draining c)"
  using assms by (simp add: drain_def drain_begin_def)

text \<open>A workload registered on the node while its drain is running, after the list of its workloads was read, is
  removed with the others and runs nowhere afterwards.\<close>

theorem late_registration_is_lost:
  assumes "drain_begin n c = (ws, ts, c1)" "\<And>i. \<not> expired i"
    and "migrate expired n ts 0 ws (register_workload n w c1) = (ok, k, c2)"
    and "\<And>m. w \<notin> set (node_workloads c m)"
  shows "ok" and "w \<notin> set (node_workloads (snd (drain_finish n k t c2)) m)"
proof -
  have ws: "ws = node_workloads c n" and c1: "c1 = set_drain_state n Draining c"
    using assms(1) by (auto simp: drain_begin_def)
  obtain c3 where "migrate expired n ts 0 ws (register_workload n w c1) = (True, length ws, c3)"
    and after: "\<And>m. node_workloads c3 m = node_workloads (register_workload n w c1) m @ received m (assigned ts 0 ws)"
    using migrate_exact [of "length ws" ws expired 0 n ts "register_workload n w c1"] assms(2) by auto
  then have ok: "ok" and c3: "c3 = c2" using assms(3) by auto
  show "ok" by (rule ok)
  have "set (received m (assigned ts 0 ws)) \<subseteq> set (map fst (assigned ts 0 ws))"
    unfolding received_def set_map by auto
  then have "w \<notin> set (received m (assigned ts 0 ws))" using assms(4) [of n] ws by auto
  moreover have "node_workloads (register_workload n w c1) m = node_workloads c m" if "m \<noteq> n"
    using that by (simp add: register_workload_def node_workloads_def c1)
  ultimately show "w \<notin> set (node_workloads (snd (drain_finish n k t c2)) m)"
    using after [of m] assms(4) [of m] c3 by auto
qed

text \<open>A node under drain can be neither cordoned nor released; every other state is left by a legal move.\<close>

lemma cordon_uncordon:
  assumes "drain_state c n = Active"
  shows "\<exists>c1 c2. cordon n c = (Inr (), c1) \<and> drain_state c1 n = Cordoned \<and> uncordon n c1 = (Inr (), c2) \<and>
    (\<forall>m. drain_state c2 m = drain_state c m)"
proof -
  have "cordon n c = (Inr (), set_drain_state n Cordoned c)"
    using assms by (auto simp: cordon_def drain_state_def split: option.splits)
  moreover have "uncordon n (set_drain_state n Cordoned c) = (Inr (), set_drain_state n Active (set_drain_state n Cordoned c))"
    by (simp add: uncordon_def set_drain_state_def)
  ultimately show ?thesis using assms by simp
qed

lemma draining_is_locked:
  assumes "map_of (dc_drain_states c) n = Some Draining"
  shows "\<exists>x y. cordon n c = (Inl x, c) \<and> uncordon n c = (Inl y, c)"
  using assms by (simp add: cordon_def uncordon_def)

end
