(* ===== verification/Resource_Declarations.thy ===== *)
theory Resource_Declarations
  imports Turtle_Compiler Workload_Scheduler "HOL-Library.Multiset"
begin

text \<open>
  Resource declarations (\<open>crates/picloud-domain/src/parser.rs\<close>): the typed declarations of a resource file, their
  validation, the order of provisioning and the conversion to storage intents and workload specifications; and the
  version expressions of feature flags (\<open>resources.rs\<close>). A \<open>HashMap\<close> is an association list, a \<open>u16\<close> a number. The text
  of a JSON value is an argument, since the encoder is a library.
\<close>

section \<open>Numbers\<close>

text \<open>What \<open>str::parse::<f64>\<close> accepts: a sign, then digits with a point and an exponent, or the names of the special
  values in any case.\<close>

datatype number = NaN | Num f64

definition ascii_lower :: "char \<Rightarrow> char" where
  "ascii_lower c = (let b = (of_char c :: nat) in if 65 \<le> b \<and> b \<le> 90 then char_of (b + 32) else c)"

definition take_sign :: "string \<Rightarrow> bool \<times> string" where
  "take_sign s = (case s of [] \<Rightarrow> (False, []) | c # r \<Rightarrow> if c = CHR ''-'' then (True, r) else if c = CHR ''+'' then (False, r) else (False, s))"

definition parse_exponent :: "string \<Rightarrow> int option" where
  "parse_exponent r =
     (case r of
        [] \<Rightarrow> Some 0
      | c # r \<Rightarrow>
          if ascii_lower c \<noteq> CHR ''e'' then None
          else case take_sign r of (neg, d) \<Rightarrow>
            if d = [] \<or> \<not> list_all is_digit d then None
            else Some (if neg then - int (digits_val d) else int (digits_val d)))"

definition parse_f64_text :: "string \<Rightarrow> number option" where
  "parse_f64_text s =
     (case take_sign s of (neg, r) \<Rightarrow>
        if map ascii_lower r \<in> {''inf'', ''infinity''} then Some (Num (Infinite neg))
        else if map ascii_lower r = ''nan'' then Some NaN
        else
          let ip = takeWhile is_digit r; r1 = dropWhile is_digit r;
              point = (r1 \<noteq> [] \<and> hd r1 = CHR ''.'');
              fp = (if point then takeWhile is_digit (tl r1) else []);
              r2 = (if point then dropWhile is_digit (tl r1) else r1)
          in if ip @ fp = [] then None
             else case parse_exponent r2 of
               None \<Rightarrow> None
             | Some e \<Rightarrow>
                 let x = e - int (length fp); d = digits_val (ip @ fp)
                 in Some (Num (if 0 \<le> x then round_f64 neg (d * 10 ^ nat x) 1 else round_f64 neg d (10 ^ nat (- x)))))"

definition show_number :: "number \<Rightarrow> string" where
  "show_number n = (case n of NaN \<Rightarrow> ''NaN'' | Num f \<Rightarrow> f64_display f)"

text \<open>The cast to an unsigned type with the given largest value.\<close>

definition number_as :: "nat \<Rightarrow> number \<Rightarrow> nat" where
  "number_as mx n =
     (case n of
        NaN \<Rightarrow> 0
      | Num (Infinite neg) \<Rightarrow> (if neg then 0 else mx)
      | Num (Finite neg m e) \<Rightarrow>
          (if neg then 0 else case f64_ratio (Finite neg m e) of (p, q) \<Rightarrow> min mx (p div q)))"

definition times_1000 :: "number \<Rightarrow> number" where
  "times_1000 n =
     (case n of
        Num (Finite neg m e) \<Rightarrow> (case f64_ratio (Finite neg m e) of (p, q) \<Rightarrow> Num (round_f64 neg (p * 1000) q))
      | _ \<Rightarrow> n)"

definition parse_uint :: "nat \<Rightarrow> string \<Rightarrow> nat option" where
  "parse_uint w s = (case parse_usize s of Some n \<Rightarrow> (if n < 2 ^ w then Some n else None) | None \<Rightarrow> None)"

definition strip_suffix :: "string \<Rightarrow> string \<Rightarrow> string option" where
  "strip_suffix p s = (if ends_with s p then Some (take (length s - length p) s) else None)"

definition opt_or_else :: "'a option \<Rightarrow> 'a option \<Rightarrow> 'a option" where
  "opt_or_else a b = (case a of Some x \<Rightarrow> Some x | None \<Rightarrow> b)"

definition parse_cpu_millis :: "string \<Rightarrow> u32 option" where
  "parse_cpu_millis s =
     (case strip_suffix ''m'' s of
        Some millis \<Rightarrow> map_option of_nat (parse_uint 32 millis)
      | None \<Rightarrow> map_option (\<lambda>cores. of_nat (number_as (2 ^ 32 - 1) (times_1000 cores))) (parse_f64_text s))"

definition parse_memory_mb :: "string \<Rightarrow> u32 option" where
  "parse_memory_mb s0 =
     (let s = trim s0 in
      case opt_or_else (opt_or_else (strip_suffix ''GB'' s) (strip_suffix ''gb'' s)) (strip_suffix ''Gi'' s) of
        Some gb \<Rightarrow> map_option (\<lambda>g. of_nat g * 1024) (parse_uint 32 (trim gb))
      | None \<Rightarrow>
          (case opt_or_else (opt_or_else (strip_suffix ''MB'' s) (strip_suffix ''mb'' s)) (strip_suffix ''Mi'' s) of
             Some mb \<Rightarrow> map_option of_nat (parse_uint 32 (trim mb))
           | None \<Rightarrow> map_option of_nat (parse_uint 32 s)))"

section \<open>Version expressions\<close>

datatype version_op = VEq u64 | VGt u64 | VGte u64 | VLt u64 | VLte u64 | VRange u64 u64

fun split_once_str :: "string \<Rightarrow> string \<Rightarrow> (string \<times> string) option" where
  "split_once_str p [] = (if p = [] then Some ([], []) else None)"
| "split_once_str p (c # s) =
     (if starts_with (c # s) p then Some ([], drop (length p) (c # s))
      else map_option (\<lambda>(a, b). (c # a, b)) (split_once_str p s))"

definition parse_u64 :: "string \<Rightarrow> u64 option" where
  "parse_u64 s = map_option of_nat (parse_usize s)"

definition version_op_parse :: "string \<Rightarrow> version_op option" where
  "version_op_parse expr0 =
     (let expr = trim expr0 in
      case split_once_str ''..'' expr of
        Some (lo, hi) \<Rightarrow>
          Option.bind (parse_u64 (trim lo)) (\<lambda>lo. Option.bind (parse_u64 (trim hi)) (\<lambda>hi. Some (VRange lo hi)))
      | None \<Rightarrow>
        (case strip_prefix ''>='' expr of Some n \<Rightarrow> map_option VGte (parse_u64 (trim n)) | None \<Rightarrow>
        (case strip_prefix ''>'' expr of Some n \<Rightarrow> map_option VGt (parse_u64 (trim n)) | None \<Rightarrow>
        (case strip_prefix ''<='' expr of Some n \<Rightarrow> map_option VLte (parse_u64 (trim n)) | None \<Rightarrow>
        (case strip_prefix ''<'' expr of Some n \<Rightarrow> map_option VLt (parse_u64 (trim n)) | None \<Rightarrow>
        (case strip_prefix ''='' expr of Some n \<Rightarrow> map_option VEq (parse_u64 (trim n)) | None \<Rightarrow>
         map_option VEq (parse_u64 expr)))))))"

fun version_matches :: "version_op \<Rightarrow> u64 \<Rightarrow> bool" where
  "version_matches (VEq v) major = (major = v)"
| "version_matches (VGt v) major = (major > v)"
| "version_matches (VGte v) major = (major \<ge> v)"
| "version_matches (VLt v) major = (major < v)"
| "version_matches (VLte v) major = (major \<le> v)"
| "version_matches (VRange lo hi) major = (major \<ge> lo \<and> major \<le> hi)"

fun show_version_op :: "version_op \<Rightarrow> string" where
  "show_version_op (VEq v) = ''= '' @ show_nat (unat v)"
| "show_version_op (VGt v) = ''> '' @ show_nat (unat v)"
| "show_version_op (VGte v) = ''>= '' @ show_nat (unat v)"
| "show_version_op (VLt v) = ''< '' @ show_nat (unat v)"
| "show_version_op (VLte v) = ''<= '' @ show_nat (unat v)"
| "show_version_op (VRange lo hi) = show_nat (unat lo) @ ''..'' @ show_nat (unat hi)"

definition parse_major_version :: "string \<Rightarrow> u64 option" where
  "parse_major_version version = parse_u64 (hd (split_on (CHR ''.'') version))"

record feature_flag =
  ff_meta :: resource_meta
  ff_description :: "string option"
  ff_enabled :: bool
  ff_version_expr :: string

definition flag_is_active :: "feature_flag \<Rightarrow> string \<Rightarrow> bool" where
  "flag_is_active f product_version =
     (if \<not> ff_enabled f then False
      else case parse_major_version product_version of
        None \<Rightarrow> False
      | Some major \<Rightarrow>
          (case version_op_parse (ff_version_expr f) of None \<Rightarrow> False | Some vop \<Rightarrow> version_matches vop major))"

section \<open>Declarations\<close>

datatype json_number = JInt int | JFloat f64

datatype json_value =
    JvNull
  | JvBool bool
  | JvNumber json_number
  | JvString string
  | JvArray "json_value list"
  | JvObject "(string \<times> json_value) list"

type_synonym tags = "(string \<times> string) list"

record capability_dep_decl =
  cap_capability :: string
  cap_min_version :: string

record data_product_dep_decl =
  dpd_source :: string
  dpd_min_version :: string

record product_decl =
  pd_name :: string
  pd_version :: string
  pd_description :: "string option"
  pd_implements :: "string list"
  pd_capabilities :: "capability_dep_decl list"
  pd_data_products :: "data_product_dep_decl list"
  pd_tags :: tags

record snapshot_decl_block =
  sdb_enabled :: bool
  sdb_schedule :: string
  sdb_storage_secret :: string
  sdb_retention_daily :: u32
  sdb_retention_weekly :: u32
  sdb_retention_monthly :: u32

record offsite_decl_block =
  odb_enabled :: bool
  odb_target_secret :: string
  odb_frequency :: string
  odb_encryption :: bool

record volume_decl =
  vd_name :: string
  vd_product :: string
  vd_size_gb :: u64
  vd_durability :: "string option"
  vd_performance :: "string option"
  vd_snapshots :: "snapshot_decl_block option"
  vd_offsite :: "offsite_decl_block option"
  vd_tags :: tags

record mount_decl =
  md_volume :: string
  md_path :: string
  md_read_only :: bool

record container_decl =
  cd_name :: string
  cd_product :: string
  cd_image :: string
  cd_identity :: string
  cd_cpu :: "string option"
  cd_memory :: "string option"
  cd_mounts :: "mount_decl list"
  cd_env :: "(string \<times> json_value) list"
  cd_ports :: "nat list"
  cd_tags :: tags

record binary_decl =
  bd_name :: string
  bd_product :: string
  bd_executable :: string
  bd_args :: "string list"
  bd_identity :: string
  bd_cpu :: "string option"
  bd_memory :: "string option"
  bd_mounts :: "mount_decl list"
  bd_env :: "(string \<times> json_value) list"
  bd_tags :: tags

record event_subscription_decl =
  esd_name :: string
  esd_product :: string
  esd_source :: string
  esd_event :: string
  esd_handler :: string
  esd_tags :: tags

record ingress_decl =
  ing_name :: string
  ing_product :: string
  ing_target :: string
  ing_port :: nat
  ing_path :: string
  ing_tls :: bool
  ing_host :: "string option"
  ing_internal :: bool
  ing_tags :: tags

record secret_decl =
  sed_name :: string
  sed_product :: string
  sed_value :: string
  sed_tags :: tags

record role_decl =
  rol_name :: string
  rol_product :: "string option"
  rol_permissions :: "string list"
  rol_tags :: tags

record config_entry_decl =
  ced_key :: string
  ced_value :: string
  ced_config_type :: string
  ced_tags :: tags

record config_decl =
  cfd_name :: string
  cfd_product :: string
  cfd_entries :: "config_entry_decl list"
  cfd_tags :: tags

record feature_flag_decl =
  ffd_name :: string
  ffd_product :: string
  ffd_description :: "string option"
  ffd_enabled :: bool
  ffd_version :: string
  ffd_tags :: tags

record group_decl =
  grd_name :: string
  grd_description :: "string option"
  grd_roles :: "string list"
  grd_tags :: tags

record inference_rule_decl =
  ird_name :: string
  ird_description :: "string option"
  ird_scope :: string
  ird_trigger :: string
  ird_trigger_events :: "string list"
  ird_reconciliation :: bool
  ird_construct :: string
  ird_tags :: tags

record scope_decl =
  scd_name :: string
  scd_product :: string
  scd_description :: "string option"
  scd_permissions :: "string list"
  scd_claims :: tags
  scd_tags :: tags

record m2m_permission_decl =
  mpd_name :: string
  mpd_product :: string
  mpd_client :: string
  mpd_scopes :: "string list"
  mpd_description :: "string option"
  mpd_tags :: tags

record capability_events_decl =
  cev_input :: string
  cev_output :: string

record capability_decl =
  cad_name :: string
  cad_version :: string
  cad_description :: "string option"
  cad_ontology :: "string option"
  cad_shapes :: "string option"
  cad_events :: capability_events_decl
  cad_tags :: tags

record data_domain_decl =
  ddd_name :: string
  ddd_description :: "string option"
  ddd_steward :: string
  ddd_sensitivity :: string
  ddd_tags :: tags

record freshness_decl_block =
  fdb_max_age :: string
  fdb_triggers :: "string list"

record access_decl_block =
  adb_visibility :: string
  adb_roles :: "string list"

record data_product_decl =
  dp_name :: string
  dp_product :: string
  dp_domain :: string
  dp_version :: string
  dp_description :: "string option"
  dp_ontology :: "string option"
  dp_shapes :: "string option"
  dp_projection :: string
  dp_freshness :: freshness_decl_block
  dp_access :: "access_decl_block option"
  dp_tags :: tags

datatype resource_declaration =
    ProductDecl product_decl
  | VolumeDecl volume_decl
  | ContainerDecl container_decl
  | BinaryDecl binary_decl
  | EventSubscriptionDecl event_subscription_decl
  | IngressDecl ingress_decl
  | SecretDecl secret_decl
  | RoleDecl role_decl
  | ConfigDecl config_decl
  | FeatureFlagDecl feature_flag_decl
  | GroupDecl group_decl
  | InferenceRuleDecl inference_rule_decl
  | ScopeDecl scope_decl
  | M2mPermissionDecl m2m_permission_decl
  | CapabilityDecl capability_decl
  | DataDomainDecl data_domain_decl
  | DataProductDecl data_product_decl

fun decl_product_name :: "resource_declaration \<Rightarrow> string option" where
  "decl_product_name (ProductDecl _) = None"
| "decl_product_name (VolumeDecl v) = Some (vd_product v)"
| "decl_product_name (ContainerDecl c) = Some (cd_product c)"
| "decl_product_name (BinaryDecl b) = Some (bd_product b)"
| "decl_product_name (EventSubscriptionDecl e) = Some (esd_product e)"
| "decl_product_name (IngressDecl i) = Some (ing_product i)"
| "decl_product_name (SecretDecl s) = Some (sed_product s)"
| "decl_product_name (RoleDecl r) = rol_product r"
| "decl_product_name (ConfigDecl c) = Some (cfd_product c)"
| "decl_product_name (FeatureFlagDecl f) = Some (ffd_product f)"
| "decl_product_name (GroupDecl _) = None"
| "decl_product_name (InferenceRuleDecl _) = None"
| "decl_product_name (ScopeDecl s) = Some (scd_product s)"
| "decl_product_name (M2mPermissionDecl m) = Some (mpd_product m)"
| "decl_product_name (CapabilityDecl _) = None"
| "decl_product_name (DataDomainDecl _) = None"
| "decl_product_name (DataProductDecl d) = Some (dp_product d)"

fun decl_resource_name :: "resource_declaration \<Rightarrow> string" where
  "decl_resource_name (ProductDecl p) = pd_name p"
| "decl_resource_name (VolumeDecl v) = vd_name v"
| "decl_resource_name (ContainerDecl c) = cd_name c"
| "decl_resource_name (BinaryDecl b) = bd_name b"
| "decl_resource_name (EventSubscriptionDecl e) = esd_name e"
| "decl_resource_name (IngressDecl i) = ing_name i"
| "decl_resource_name (SecretDecl s) = sed_name s"
| "decl_resource_name (RoleDecl r) = rol_name r"
| "decl_resource_name (ConfigDecl c) = cfd_name c"
| "decl_resource_name (FeatureFlagDecl f) = ffd_name f"
| "decl_resource_name (GroupDecl g) = grd_name g"
| "decl_resource_name (InferenceRuleDecl r) = ird_name r"
| "decl_resource_name (ScopeDecl s) = scd_name s"
| "decl_resource_name (M2mPermissionDecl m) = mpd_name m"
| "decl_resource_name (CapabilityDecl c) = cad_name c"
| "decl_resource_name (DataDomainDecl d) = ddd_name d"
| "decl_resource_name (DataProductDecl d) = dp_name d"

fun decl_tags :: "resource_declaration \<Rightarrow> tags" where
  "decl_tags (ProductDecl p) = pd_tags p"
| "decl_tags (VolumeDecl v) = vd_tags v"
| "decl_tags (ContainerDecl c) = cd_tags c"
| "decl_tags (BinaryDecl b) = bd_tags b"
| "decl_tags (EventSubscriptionDecl e) = esd_tags e"
| "decl_tags (IngressDecl i) = ing_tags i"
| "decl_tags (SecretDecl s) = sed_tags s"
| "decl_tags (RoleDecl r) = rol_tags r"
| "decl_tags (ConfigDecl c) = cfd_tags c"
| "decl_tags (FeatureFlagDecl f) = ffd_tags f"
| "decl_tags (GroupDecl g) = grd_tags g"
| "decl_tags (InferenceRuleDecl r) = ird_tags r"
| "decl_tags (ScopeDecl s) = scd_tags s"
| "decl_tags (M2mPermissionDecl m) = mpd_tags m"
| "decl_tags (CapabilityDecl c) = cad_tags c"
| "decl_tags (DataDomainDecl d) = ddd_tags d"
| "decl_tags (DataProductDecl d) = dp_tags d"

fun decl_resource_type :: "resource_declaration \<Rightarrow> string" where
  "decl_resource_type (ProductDecl _) = ''product''"
| "decl_resource_type (VolumeDecl _) = ''volume''"
| "decl_resource_type (ContainerDecl _) = ''container''"
| "decl_resource_type (BinaryDecl _) = ''binary''"
| "decl_resource_type (EventSubscriptionDecl _) = ''event-subscription''"
| "decl_resource_type (IngressDecl _) = ''ingress''"
| "decl_resource_type (SecretDecl _) = ''secret''"
| "decl_resource_type (RoleDecl _) = ''role''"
| "decl_resource_type (ConfigDecl _) = ''config''"
| "decl_resource_type (FeatureFlagDecl _) = ''feature-flag''"
| "decl_resource_type (GroupDecl _) = ''group''"
| "decl_resource_type (InferenceRuleDecl _) = ''inference-rule''"
| "decl_resource_type (ScopeDecl _) = ''scope''"
| "decl_resource_type (M2mPermissionDecl _) = ''m2m-permission''"
| "decl_resource_type (CapabilityDecl _) = ''capability''"
| "decl_resource_type (DataDomainDecl _) = ''data-domain''"
| "decl_resource_type (DataProductDecl _) = ''data-product''"

section \<open>Validation\<close>

definition validation_err :: "string \<Rightarrow> string \<Rightarrow> picloud_error" where
  "validation_err resource reason = ResourceValidationFailed (resource @ '': '' @ reason)"

text \<open>A \<open>for\<close> loop whose body is followed by \<open>?\<close>.\<close>

fun try_each :: "('a \<Rightarrow> unit result) \<Rightarrow> 'a list \<Rightarrow> unit result" where
  "try_each f [] = Inr ()"
| "try_each f (x # xs) = and_then (f x) (\<lambda>_. try_each f xs)"

fun decl_validate :: "resource_declaration \<Rightarrow> unit result" where
  "decl_validate (ProductDecl p) =
     (if pd_name p = [] then Inl (validation_err ''product'' ''name cannot be empty'')
      else if pd_version p = [] then Inl (validation_err (pd_name p) ''version cannot be empty'')
      else Inr ())"
| "decl_validate (VolumeDecl v) =
     (if vd_name v = [] \<or> vd_product v = [] then Inl (validation_err ''volume'' ''name and product cannot be empty'')
      else if vd_size_gb v = 0 then Inl (validation_err (vd_name v) ''size_gb must be greater than 0'')
      else Inr ())"
| "decl_validate (ContainerDecl c) =
     (if cd_name c = [] \<or> cd_product c = [] \<or> cd_image c = []
      then Inl (validation_err ''container'' ''name, product, and image cannot be empty'') else Inr ())"
| "decl_validate (BinaryDecl b) =
     (if bd_name b = [] \<or> bd_product b = [] \<or> bd_executable b = []
      then Inl (validation_err ''binary'' ''name, product, and executable cannot be empty'') else Inr ())"
| "decl_validate (EventSubscriptionDecl e) =
     (if esd_name e = [] \<or> esd_product e = [] \<or> esd_source e = []
      then Inl (validation_err ''event-subscription'' ''name, product, and source cannot be empty'') else Inr ())"
| "decl_validate (IngressDecl i) =
     (if ing_name i = [] \<or> ing_product i = [] \<or> ing_target i = []
      then Inl (validation_err ''ingress'' ''name, product, and target cannot be empty'') else Inr ())"
| "decl_validate (SecretDecl s) =
     (if sed_name s = [] \<or> sed_product s = [] \<or> sed_value s = []
      then Inl (validation_err ''secret'' ''name, product, and value cannot be empty'') else Inr ())"
| "decl_validate (RoleDecl r) =
     (if rol_name r = [] \<or> rol_permissions r = []
      then Inl (validation_err ''role'' ''name and permissions cannot be empty'') else Inr ())"
| "decl_validate (ConfigDecl c) =
     (if cfd_name c = [] \<or> cfd_product c = [] then Inl (validation_err ''config'' ''name and product cannot be empty'')
      else try_each (\<lambda>entry. if ced_key entry = [] then Inl (validation_err (cfd_name c) ''config entry key cannot be empty'') else Inr ())
        (cfd_entries c))"
| "decl_validate (FeatureFlagDecl f) =
     (if ffd_name f = [] \<or> ffd_product f = [] \<or> ffd_version f = []
      then Inl (validation_err ''feature-flag'' ''name, product, and version cannot be empty'')
      else if version_op_parse (ffd_version f) = None
      then Inl (validation_err (ffd_name f) (''invalid version expression: '' @ [squote] @ ffd_version f @ [squote]))
      else Inr ())"
| "decl_validate (GroupDecl g) =
     (if grd_name g = [] then Inl (validation_err ''group'' ''name cannot be empty'')
      else if grd_roles g = [] then Inl (validation_err (grd_name g) ''roles cannot be empty'')
      else Inr ())"
| "decl_validate (InferenceRuleDecl r) =
     (if ird_name r = [] then Inl (validation_err ''inference-rule'' ''name cannot be empty'')
      else if ird_construct r = [] then Inl (validation_err (ird_name r) ''construct query cannot be empty'')
      else Inr ())"
| "decl_validate (ScopeDecl s) =
     (if scd_name s = [] \<or> scd_product s = [] then Inl (validation_err ''scope'' ''name and product cannot be empty'')
      else if scd_permissions s = [] then Inl (validation_err (scd_name s) ''permissions cannot be empty'')
      else Inr ())"
| "decl_validate (M2mPermissionDecl m) =
     (if mpd_name m = [] \<or> mpd_product m = [] \<or> mpd_client m = []
      then Inl (validation_err ''m2m-permission'' ''name, product, and client cannot be empty'')
      else if mpd_scopes m = [] then Inl (validation_err (mpd_name m) ''scopes cannot be empty'')
      else Inr ())"
| "decl_validate (CapabilityDecl c) =
     (if cad_name c = [] then Inl (validation_err ''capability'' ''name cannot be empty'')
      else if cad_version c = [] then Inl (validation_err (cad_name c) ''version cannot be empty'')
      else if cev_input (cad_events c) = [] \<or> cev_output (cad_events c) = []
      then Inl (validation_err (cad_name c) ''capability must declare both input and output events'')
      else if cad_ontology c = None \<and> cad_shapes c = None
      then Inl (validation_err (cad_name c) ''capability must declare ontology or shapes (or both)'')
      else Inr ())"
| "decl_validate (DataDomainDecl d) =
     (if ddd_name d = [] then Inl (validation_err ''data-domain'' ''name cannot be empty'')
      else if ddd_steward d = [] then Inl (validation_err (ddd_name d) ''steward cannot be empty'')
      else Inr ())"
| "decl_validate (DataProductDecl d) =
     (if dp_name d = [] \<or> dp_product d = [] then Inl (validation_err ''data-product'' ''name and product cannot be empty'')
      else if dp_domain d = [] then Inl (validation_err (dp_name d) ''data product must belong to a data domain'')
      else if dp_version d = [] then Inl (validation_err (dp_name d) ''version cannot be empty'')
      else if dp_projection d = [] then Inl (validation_err (dp_name d) ''projection query path cannot be empty'')
      else if fdb_triggers (dp_freshness d) = []
      then Inl (validation_err (dp_name d) ''data product must declare at least one trigger event'')
      else if fdb_max_age (dp_freshness d) = []
      then Inl (validation_err (dp_name d) ''data product must declare freshness.maxAge'')
      else if dp_ontology d = None \<and> dp_shapes d = None
      then Inl (validation_err (dp_name d) ''data product must declare ontology or shapes (or both)'')
      else Inr ())"

record resource_file =
  rf_resources :: "resource_declaration list"

definition product_names :: "resource_declaration list \<Rightarrow> string list" where
  "product_names rs = List.map_filter (\<lambda>r. case r of ProductDecl p \<Rightarrow> Some (pd_name p) | _ \<Rightarrow> None) rs"

text \<open>The names of the volumes of a product, in the order of the file.\<close>

definition volume_names :: "resource_declaration list \<Rightarrow> string \<Rightarrow> string list" where
  "volume_names rs product =
     List.map_filter (\<lambda>r. case r of VolumeDecl v \<Rightarrow> if vd_product v = product then Some (vd_name v) else None | _ \<Rightarrow> None) rs"

definition decl_mounts :: "resource_declaration \<Rightarrow> (string \<times> string \<times> mount_decl list) option" where
  "decl_mounts r =
     (case r of
        ContainerDecl c \<Rightarrow> Some (cd_name c, cd_product c, cd_mounts c)
      | BinaryDecl b \<Rightarrow> Some (bd_name b, bd_product b, bd_mounts b)
      | _ \<Rightarrow> None)"

definition check_product :: "resource_declaration list \<Rightarrow> resource_declaration \<Rightarrow> unit result" where
  "check_product rs r =
     (case decl_product_name r of
        None \<Rightarrow> Inr ()
      | Some product \<Rightarrow>
          if product \<in> set (product_names rs) then Inr ()
          else Inl (ResourceValidationFailed (decl_resource_name r @ '': references product '' @ [squote] @ product @ [squote] @
                 '' which is not declared in this file'')))"

definition check_mounts :: "resource_declaration list \<Rightarrow> resource_declaration \<Rightarrow> unit result" where
  "check_mounts rs r =
     (case decl_mounts r of
        None \<Rightarrow> Inr ()
      | Some (name, product, mounts) \<Rightarrow>
          try_each (\<lambda>mount.
            if md_volume mount \<in> set (volume_names rs product) then Inr ()
            else Inl (ResourceValidationFailed (name @ '': mount references volume '' @ [squote] @ md_volume mount @ [squote] @
                   '' which is not declared in this file for product '' @ [squote] @ product @ [squote]))) mounts)"

definition file_validate :: "resource_file \<Rightarrow> unit result" where
  "file_validate f =
     (let rs = rf_resources f in
      and_then (try_each decl_validate rs) (\<lambda>_.
      and_then (try_each (check_product rs) rs) (\<lambda>_.
      try_each (check_mounts rs) rs)))"

section \<open>Order of provisioning\<close>

definition provisioning_rank :: "resource_declaration \<Rightarrow> nat" where
  "provisioning_rank r =
     (case r of
        CapabilityDecl _ \<Rightarrow> 0
      | DataDomainDecl _ \<Rightarrow> 0
      | ProductDecl _ \<Rightarrow> 1
      | VolumeDecl _ \<Rightarrow> 2
      | ContainerDecl _ \<Rightarrow> 3
      | BinaryDecl _ \<Rightarrow> 3
      | DataProductDecl _ \<Rightarrow> 4
      | _ \<Rightarrow> 5)"

definition sort_for_provisioning :: "resource_file \<Rightarrow> resource_file" where
  "sort_for_provisioning f = f\<lparr>rf_resources := sort_key provisioning_rank (rf_resources f)\<rparr>"

section \<open>Conversion\<close>

definition volume_storage_intent :: "volume_decl \<Rightarrow> storage_intent" where
  "volume_storage_intent v =
     \<lparr>si_durability =
        (if vd_durability v = Some ''full-replication'' \<or> vd_durability v = None then FullReplication
         else if vd_durability v = Some ''quorum'' then Quorum
         else if vd_durability v = Some ''local'' then Local
         else if vd_durability v = Some ''none'' then NoDurability
         else FullReplication),
      si_performance =
        (if vd_performance v = Some ''fast'' then Fast
         else if vd_performance v = Some ''archive'' then Archive
         else Standard),
      si_snapshots = map_option (\<lambda>s. \<lparr>sc_enabled = sdb_enabled s,
        sc_schedule = (if sdb_schedule s = ''hourly'' then Hourly else if sdb_schedule s = ''weekly'' then Weekly else Daily),
        sc_storage_secret = sdb_storage_secret s,
        sc_retention = \<lparr>ret_daily = sdb_retention_daily s, ret_weekly = sdb_retention_weekly s,
          ret_monthly = sdb_retention_monthly s\<rparr>\<rparr>) (vd_snapshots v),
      si_offsite = map_option (\<lambda>ob. \<lparr>ob_enabled = odb_enabled ob, ob_target_secret = odb_target_secret ob,
        ob_frequency = (if odb_frequency ob = ''weekly'' then BackupWeekly else BackupDaily),
        ob_encryption = odb_encryption ob\<rparr>) (vd_offsite v)\<rparr>"

definition decl_limits :: "string option \<Rightarrow> string option \<Rightarrow> resource_limits" where
  "decl_limits cpu memory =
     \<lparr>rl_cpu_millicores = Option.bind cpu parse_cpu_millis, rl_memory_mb = Option.bind memory parse_memory_mb\<rparr>"

definition mount_of :: "mount_decl \<Rightarrow> volume_mount" where
  "mount_of m = \<lparr>vt_volume = md_volume m, vt_path = md_path m, vt_read_only = md_read_only m\<rparr>"

definition env_of :: "(json_value \<Rightarrow> string) \<Rightarrow> json_value \<Rightarrow> env_value" where
  "env_of json_text v =
     (case v of
        JvObject obj \<Rightarrow>
          (case map_of obj ''secret'' of
             Some (JvString secret) \<Rightarrow> SecretRef secret
           | _ \<Rightarrow> Literal (json_text v))
      | JvString s \<Rightarrow> Literal s
      | _ \<Rightarrow> Literal [])"

definition container_to_spec :: "(json_value \<Rightarrow> string) \<Rightarrow> container_decl \<Rightarrow> container_spec" where
  "container_to_spec json_text c =
     \<lparr>cs_image = cd_image c, cs_identity = cd_identity c, cs_resources = decl_limits (cd_cpu c) (cd_memory c),
      cs_mounts = map mount_of (cd_mounts c), cs_env = map (\<lambda>(k, v). (k, env_of json_text v)) (cd_env c),
      cs_ports = map (\<lambda>p. \<lparr>pt_port = p, pt_protocol = Tcp\<rparr>) (cd_ports c), cs_health_check = None,
      cs_restart_policy = Always, cs_product_version = None\<rparr>"

definition binary_to_spec :: "(json_value \<Rightarrow> string) \<Rightarrow> binary_decl \<Rightarrow> binary_spec" where
  "binary_to_spec json_text b =
     \<lparr>bs_executable = bd_executable b, bs_args = bd_args b, bs_identity = bd_identity b,
      bs_resources = decl_limits (bd_cpu b) (bd_memory b), bs_mounts = map mount_of (bd_mounts b),
      bs_env = map (\<lambda>(k, v). (k, env_of json_text v)) (bd_env b), bs_restart_policy = Always, bs_product_version = None\<rparr>"

section \<open>What validation and sorting give\<close>

lemma try_each_Inr: "try_each f xs = Inr () \<longleftrightarrow> (\<forall>x\<in>set xs. f x = Inr ())"
  by (induction xs) (auto simp: and_then_Inr_iff)

lemma and_then_unit: "and_then r (\<lambda>_. q) = Inr () \<longleftrightarrow> r = Inr () \<and> q = Inr ()" for r :: "unit result"
  by (auto simp: and_then_Inr_iff)

lemma product_names_iff: "p \<in> set (product_names rs) \<longleftrightarrow> (\<exists>d. ProductDecl d \<in> set rs \<and> pd_name d = p)"
proof (induction rs)
  case (Cons r rs)
  then show ?case by (cases r) (auto simp: product_names_def map_filter_simps)
qed (simp add: product_names_def map_filter_simps)

lemma volume_names_iff:
  "n \<in> set (volume_names rs p) \<longleftrightarrow> (\<exists>v. VolumeDecl v \<in> set rs \<and> vd_name v = n \<and> vd_product v = p)"
proof (induction rs)
  case (Cons r rs)
  then show ?case by (cases r) (auto simp: volume_names_def map_filter_simps)
qed (simp add: volume_names_def map_filter_simps)

lemma check_product_iff:
  "check_product rs r = Inr () \<longleftrightarrow>
    (\<forall>p. decl_product_name r = Some p \<longrightarrow> (\<exists>d. ProductDecl d \<in> set rs \<and> pd_name d = p))"
  by (auto simp: check_product_def product_names_iff split: option.splits)

lemma check_mounts_iff:
  "check_mounts rs r = Inr () \<longleftrightarrow>
    (\<forall>n p ms m. decl_mounts r = Some (n, p, ms) \<and> m \<in> set ms \<longrightarrow>
      (\<exists>v. VolumeDecl v \<in> set rs \<and> vd_name v = md_volume m \<and> vd_product v = p))"
  by (auto simp: check_mounts_def try_each_Inr volume_names_iff split: option.splits)

lemma file_validate_iff:
  "file_validate f = Inr () \<longleftrightarrow>
    (\<forall>r\<in>set (rf_resources f). decl_validate r = Inr ()) \<and>
    (\<forall>r\<in>set (rf_resources f). check_product (rf_resources f) r = Inr ()) \<and>
    (\<forall>r\<in>set (rf_resources f). check_mounts (rf_resources f) r = Inr ())"
  by (simp add: file_validate_def Let_def and_then_unit try_each_Inr)

lemma sorted_earlier:
  assumes "i < length (sort_key k xs)" "x \<in> set xs" "k x < k (sort_key k xs ! i)"
  shows "\<exists>j<i. sort_key k xs ! j = x"
proof -
  obtain j where j: "j < length (sort_key k xs)" "sort_key k xs ! j = x"
    using assms(2) by (metis in_set_conv_nth set_sort)
  have "j < i"
  proof (rule ccontr)
    assume "\<not> j < i"
    then have "map k (sort_key k xs) ! i \<le> map k (sort_key k xs) ! j"
      using j(1) by (intro sorted_nth_mono) simp_all
    then show False using assms(1,3) j by simp
  qed
  then show ?thesis using j(2) by blast
qed

lemma rank_of_product_scoped: "decl_product_name r = Some p \<Longrightarrow> 2 \<le> provisioning_rank r"
  by (cases r) (simp_all add: provisioning_rank_def)

lemma rank_of_mounting: "decl_mounts r = Some x \<Longrightarrow> provisioning_rank r = 3"
  by (auto simp: decl_mounts_def provisioning_rank_def split: resource_declaration.splits)

lemma rank_simps [simp]: "provisioning_rank (ProductDecl d) = 1" "provisioning_rank (VolumeDecl v) = 2"
  by (simp_all add: provisioning_rank_def)

text \<open>C37. In a file that passed validation, sorted for provisioning, every resource stands after the product it
  belongs to and after every volume it mounts; sorting only reorders, and keeps the order of the file among
  resources of the same rank.\<close>

theorem provisioning_order:
  assumes "file_validate f = Inr ()" "rs = rf_resources (sort_for_provisioning f)" "i < length rs"
  shows "(\<forall>p. decl_product_name (rs ! i) = Some p \<longrightarrow> (\<exists>j d. j < i \<and> rs ! j = ProductDecl d \<and> pd_name d = p)) \<and>
    (\<forall>n p ms m. decl_mounts (rs ! i) = Some (n, p, ms) \<and> m \<in> set ms \<longrightarrow>
      (\<exists>j v. j < i \<and> rs ! j = VolumeDecl v \<and> vd_name v = md_volume m \<and> vd_product v = p)) \<and>
    mset rs = mset (rf_resources f) \<and>
    (\<forall>k. filter (\<lambda>r. provisioning_rank r = k) rs = filter (\<lambda>r. provisioning_rank r = k) (rf_resources f))"
proof -
  have rs: "rs = sort_key provisioning_rank (rf_resources f)" using assms(2) by (simp add: sort_for_provisioning_def)
  have mem: "rs ! i \<in> set (rf_resources f)" using assms(3) rs by (metis nth_mem set_sort)
  note valid = assms(1) [unfolded file_validate_iff check_product_iff check_mounts_iff]
  have before: "\<exists>j<i. rs ! j = x" if "x \<in> set (rf_resources f)" "provisioning_rank x < provisioning_rank (rs ! i)" for x
    using sorted_earlier [of i provisioning_rank "rf_resources f" x] that assms(3) rs by simp
  have "\<exists>j d. j < i \<and> rs ! j = ProductDecl d \<and> pd_name d = p" if p: "decl_product_name (rs ! i) = Some p" for p
  proof -
    obtain d where "ProductDecl d \<in> set (rf_resources f)" "pd_name d = p" using valid mem p by blast
    then show ?thesis using before [of "ProductDecl d"] rank_of_product_scoped [OF p] by auto
  qed
  moreover have "\<exists>j v. j < i \<and> rs ! j = VolumeDecl v \<and> vd_name v = md_volume m \<and> vd_product v = p"
    if m: "decl_mounts (rs ! i) = Some (n, p, ms)" "m \<in> set ms" for n p ms m
  proof -
    obtain v where "VolumeDecl v \<in> set (rf_resources f)" "vd_name v = md_volume m" "vd_product v = p" using valid mem m by blast
    then show ?thesis using before [of "VolumeDecl v"] rank_of_mounting [OF m(1)] by auto
  qed
  ultimately show ?thesis using rs by (auto simp: sort_key_stable)
qed

definition ex_declarations :: resource_file where
  "ex_declarations = \<lparr>rf_resources =
     [BinaryDecl \<lparr>bd_name = ''b'', bd_product = ''p'', bd_executable = ''/b'', bd_args = [], bd_identity = ''default'', bd_cpu = None,
        bd_memory = None, bd_mounts = [\<lparr>md_volume = ''v'', md_path = ''/data'', md_read_only = False\<rparr>], bd_env = [], bd_tags = []\<rparr>,
      VolumeDecl \<lparr>vd_name = ''v'', vd_product = ''p'', vd_size_gb = 1, vd_durability = None, vd_performance = None,
        vd_snapshots = None, vd_offsite = None, vd_tags = []\<rparr>,
      ProductDecl \<lparr>pd_name = ''p'', pd_version = ''1'', pd_description = None, pd_implements = [], pd_capabilities = [],
        pd_data_products = [], pd_tags = []\<rparr>]\<rparr>"

lemma ex_declarations_valid: "file_validate ex_declarations = Inr ()"
  by (simp add: ex_declarations_def file_validate_def check_product_def check_mounts_def decl_mounts_def product_names_def
      volume_names_def map_filter_simps)

theorem provisioning_order_witness:
  "\<exists>j v. j < 2 \<and> rf_resources (sort_for_provisioning ex_declarations) ! j = VolumeDecl v \<and> vd_name v = ''v''"
proof -
  let ?rs = "rf_resources (sort_for_provisioning ex_declarations)"
  have two: "2 < length ?rs" by (simp add: sort_for_provisioning_def ex_declarations_def)
  have "\<exists>m. decl_mounts (?rs ! 2) = Some (''b'', ''p'', [m]) \<and> md_volume m = ''v''"
    by (simp add: sort_for_provisioning_def ex_declarations_def provisioning_rank_def decl_mounts_def)
  then obtain m where m: "decl_mounts (?rs ! 2) = Some (''b'', ''p'', [m])" "md_volume m = ''v''" by blast
  then show ?thesis using provisioning_order [OF ex_declarations_valid refl two] by force
qed

section \<open>Version expressions: printing and parsing\<close>

lemma split_once_str_none: "CHR ''.'' \<notin> set s \<Longrightarrow> split_once_str ''..'' s = None"
proof (induction s)
  case (Cons c s)
  then show ?case by (auto simp: starts_with_def)
qed simp

lemma split_once_str_first: "CHR ''.'' \<notin> set a \<Longrightarrow> split_once_str ''..'' (a @ ''..'' @ b) = Some (a, b)"
proof (induction a)
  case (Cons c a)
  then show ?case by (auto simp: starts_with_def)
qed (simp add: starts_with_def)

lemma show_nat_no_dot [simp]: "CHR ''.'' \<notin> set (show_nat n)"
  using show_nat_digits [of n] by (auto simp: list_all_iff is_digit_def)

lemma trim_ends: "s \<noteq> [] \<Longrightarrow> \<not> is_space (hd s) \<Longrightarrow> \<not> is_space (last s) \<Longrightarrow> trim s = s"
proof -
  assume s: "s \<noteq> []" "\<not> is_space (hd s)" "\<not> is_space (last s)"
  have "dropWhile is_space s = s" using s by (cases s) simp_all
  moreover have "dropWhile is_space (rev s) = rev s" using s by (cases s rule: rev_cases) simp_all
  ultimately show ?thesis by (simp add: trim_def)
qed

lemma digit_not_space: "is_digit c \<Longrightarrow> \<not> is_space c"
  by (auto simp: is_digit_def is_space_def)

lemma last_show_nat: "\<not> is_space (last (show_nat n))" and hd_show_nat: "\<not> is_space (hd (show_nat n))"
  using show_nat_digits [of n] last_in_set [of "show_nat n"] hd_in_set [of "show_nat n"]
  by (auto simp: list_all_iff intro!: digit_not_space)

lemma trim_after_op: "a \<noteq> [] \<Longrightarrow> \<not> is_space (hd a) \<Longrightarrow> trim (a @ show_nat n) = a @ show_nat n"
  by (rule trim_ends) (simp_all add: last_show_nat)

lemma trim_space_number: "trim (CHR '' '' # show_nat n) = show_nat n"
  using trim_show_nat [of n] by (simp add: trim_def is_space_def)

lemma parse_u64_show [simp]: "parse_u64 (show_nat (unat v)) = Some v" for v :: u64
proof -
  have "unat v < 2 ^ 64" using unsigned_less [of v] by simp
  then show ?thesis by (simp only: parse_u64_def parse_show_usize) simp
qed

text \<open>Every version expression is read back from its text.\<close>

theorem version_op_round_trip: "version_op_parse (show_version_op v) = Some v"
proof (cases v)
  case (VRange lo hi)
  have "trim (show_version_op v) = show_version_op v"
    unfolding VRange show_version_op.simps by (rule trim_ends) (simp_all add: last_show_nat hd_show_nat)
  then show ?thesis using VRange split_once_str_first [of "show_nat (unat lo)" "show_nat (unat hi)"]
    by (simp add: version_op_parse_def)
qed (simp_all add: version_op_parse_def trim_after_op [of "[_, _]", simplified] trim_after_op [of "[_, _, _]", simplified]
    split_once_str_none is_space_def strip_prefix_def starts_with_def trim_space_number)

section \<open>Limits\<close>

text \<open>Text that is not a number is dropped, so that the workload runs without that limit; a size in gigabytes is
  multiplied in 32 bits and wraps.\<close>

theorem limits_dropped_and_wrapped:
  "decl_limits (Some ''two'') (Some ''1TB'') = resource_limits_none"
  "parse_memory_mb ''4194305GB'' = Some 1024"
  "limits_validate (decl_limits None (Some ''4194305GB'')) = Inr ()"
proof -
  have p: "parse_usize ''4194305'' = Some 4194305" and t: "parse_usize ''1TB'' = None"
    by (simp_all add: parse_usize_def is_digit_def digits_val_def digit_val_def)
  have n: "parse_f64_text ''two'' = None" by (simp add: parse_f64_text_def take_sign_def ascii_lower_def is_digit_def)
  show "parse_memory_mb ''4194305GB'' = Some 1024"
    by (simp add: parse_memory_mb_def trim_def is_space_def strip_suffix_def ends_with_def starts_with_def opt_or_else_def parse_uint_def p)
  then show "limits_validate (decl_limits None (Some ''4194305GB'')) = Inr ()"
    by (simp add: decl_limits_def limits_validate_def bound_errors_def MIN_MEMORY_MB_def MAX_MEMORY_MB_def)
  show "decl_limits (Some ''two'') (Some ''1TB'') = resource_limits_none"
    by (simp add: decl_limits_def resource_limits_none_def parse_cpu_millis_def parse_memory_mb_def trim_def is_space_def
        strip_suffix_def ends_with_def starts_with_def opt_or_else_def parse_uint_def t n)
qed

end
