(* ===== verification/Bicep_Parser.thy ===== *)
theory Bicep_Parser
  imports Resource_Declarations
begin

text \<open>
  The parser of the Bicep-inspired resource files (\<open>parse_bicep\<close> of \<open>crates/picloud-domain/src/parser.rs\<close>). A text is the
  list of its UTF-8 bytes and a position in it is the rest of the text. Taking two bytes of a text as a
  string panics when they end inside a character, so a run may panic; the loop over the items of an array may run
  forever, so values, arrays and blocks are read with fuel, and a run that needs more is pending. Slices that end at
  an ASCII byte are within character boundaries.
\<close>

section \<open>Runs\<close>

datatype 'a run = Ret 'a | Err picloud_error | Panic | Pending

definition run_bind :: "'a run \<Rightarrow> ('a \<Rightarrow> 'b run) \<Rightarrow> 'b run" where
  "run_bind r f = (case r of Ret a \<Rightarrow> f a | Err e \<Rightarrow> Err e | Panic \<Rightarrow> Panic | Pending \<Rightarrow> Pending)"

lemma run_bind_simps [simp]:
  "run_bind (Ret a) f = f a" "run_bind (Err e) f = Err e" "run_bind Panic f = Panic" "run_bind Pending f = Pending"
  by (simp_all add: run_bind_def)

lemma run_bind_cong [fundef_cong]:
  "r = r' \<Longrightarrow> (\<And>a. r' = Ret a \<Longrightarrow> f a = g a) \<Longrightarrow> run_bind r f = run_bind r' g"
  by (cases r') simp_all

definition run_of :: "'a result \<Rightarrow> 'a run" where
  "run_of r = (case r of Inl e \<Rightarrow> Err e | Inr a \<Rightarrow> Ret a)"

section \<open>Scanning\<close>

datatype bicep_value =
    BStr string
  | BNum number
  | BBool bool
  | BArray "bicep_value list"
  | BObject "(string \<times> bicep_value) list"

definition invalid :: "string \<Rightarrow> picloud_error" where
  "invalid reason = ResourceValidationFailed reason"

definition ascii_ws :: "char \<Rightarrow> bool" where
  "ascii_ws c \<longleftrightarrow> c \<in> {CHR '' '', CHR 0x09, CHR 0x0A, CHR 0x0C, CHR 0x0D}"

definition is_cont_byte :: "char \<Rightarrow> bool" where
  "is_cont_byte c \<longleftrightarrow> (let b = (of_char c :: nat) in 128 \<le> b \<and> b < 192)"

definition is_quote :: "char \<Rightarrow> bool" where
  "is_quote c \<longleftrightarrow> c = squote \<or> c = dquote"

text \<open>The test for a comment slices the next two bytes out of the text.\<close>

definition at_comment :: "string \<Rightarrow> bool run" where
  "at_comment s =
     (if 2 \<le> length s then
        (if is_cont_byte (hd s) \<or> 2 < length s \<and> is_cont_byte (s ! 2) then Panic else Ret (take 2 s = ''//''))
      else Ret False)"

definition skip_line :: "string \<Rightarrow> string" where
  "skip_line s = dropWhile (\<lambda>c. c \<noteq> newline) s"

lemma at_comment_True: "at_comment s = Ret True \<Longrightarrow> length (skip_line s) < length s"
proof -
  assume "at_comment s = Ret True"
  then have "2 \<le> length s" "take 2 s = ''//''" by (auto simp: at_comment_def split: if_splits)
  then obtain t where "s = ''//'' @ t" by (metis append_take_drop_id)
  then show ?thesis using length_dropWhile_le [of "\<lambda>c. c \<noteq> newline" t] by (simp add: skip_line_def le_imp_less_Suc)
qed

function skip_ws_and_comments :: "string \<Rightarrow> string run" where
  "skip_ws_and_comments s =
     (let s1 = dropWhile ascii_ws s in
      run_bind (at_comment s1) (\<lambda>c. if c then skip_ws_and_comments (skip_line s1) else Ret s1))"
  by pat_completeness auto
termination
proof (relation "measure length")
  show "(skip_line x, s) \<in> measure length" if "x = dropWhile ascii_ws s" "at_comment x = Ret xa" "xa" for s x xa
    using that at_comment_True [of x] length_dropWhile_le [of ascii_ws s] by auto
qed simp

declare skip_ws_and_comments.simps [simp del]

definition skip_ws_inline :: "string \<Rightarrow> string" where
  "skip_ws_inline s = dropWhile (\<lambda>c. c = CHR '' '' \<or> c = CHR 0x09) s"

definition read_quoted_string :: "nat \<Rightarrow> string \<Rightarrow> (string \<times> string) run" where
  "read_quoted_string len s =
     (if s = [] \<or> \<not> is_quote (hd s) then
        Err (invalid (''expected quoted string at position '' @ show_nat (len - length s)))
      else
        let q = hd s; body = takeWhile (\<lambda>c. c \<noteq> q) (tl s); rest = dropWhile (\<lambda>c. c \<noteq> q) (tl s)
        in if rest = [] then Err (invalid ''unterminated string'') else Ret (body, tl rest))"

text \<open>The content of a block up to the brace that closes it, and what follows; a brace in quotes does not count.\<close>

function scan_block :: "nat \<Rightarrow> string \<Rightarrow> (string \<times> string) option" where
  "scan_block d [] = None"
| "scan_block d (c # s) =
     (if c = CHR ''{'' then map_option (\<lambda>(b, r). (c # b, r)) (scan_block (Suc d) s)
      else if c = CHR ''}'' then
        (if d = 1 then Some ([], s) else map_option (\<lambda>(b, r). (c # b, r)) (scan_block (d - 1) s))
      else if is_quote c then
        (let inner = takeWhile (\<lambda>x. x \<noteq> c) s; rest = dropWhile (\<lambda>x. x \<noteq> c) s
         in if rest = [] then None
            else map_option (\<lambda>(b, r). (c # inner @ c # b, r)) (scan_block d (tl rest)))
      else map_option (\<lambda>(b, r). (c # b, r)) (scan_block d s))"
  by pat_completeness auto
termination
proof (relation "measure (length \<circ> snd)")
  show "((d, tl x), d, c # s) \<in> measure (length \<circ> snd)" if "x = dropWhile (\<lambda>x. x \<noteq> c) s" "x \<noteq> []" for d c s x
    using that length_dropWhile_le [of "\<lambda>x. x \<noteq> c" s] by simp
qed simp_all

definition read_braced_block :: "string \<Rightarrow> (string \<times> string) run" where
  "read_braced_block s =
     (if hd s \<noteq> CHR ''{'' then Err (invalid (''expected '' @ [squote] @ ''{'' @ [squote]))
      else case scan_block 1 (tl s) of
        None \<Rightarrow> Err (invalid (''unterminated block '' @ [CHR 0xE2, CHR 0x80, CHR 0x94] @ '' missing '' @ [squote] @ ''}'' @ [squote]))
      | Some r \<Rightarrow> Ret r)"

lemma scan_block_shorter: "scan_block d s = Some (b, r) \<Longrightarrow> length b + length r < length s"
proof (induction d s arbitrary: b r rule: scan_block.induct)
  case (2 d c s)
  let ?in = "takeWhile (\<lambda>x. x \<noteq> c) s" and ?rest = "dropWhile (\<lambda>x. x \<noteq> c) s"
  have len: "length ?in + length ?rest = length s" by (metis length_append takeWhile_dropWhile_id)
  consider (up) "c = CHR ''{''" | (down) "c = CHR ''}''" | (quote) "c \<noteq> CHR ''{''" "c \<noteq> CHR ''}''" "is_quote c"
    | (other) "c \<noteq> CHR ''{''" "c \<noteq> CHR ''}''" "\<not> is_quote c" by blast
  then show ?case
  proof cases
    case quote
    then obtain b' where b': "?rest \<noteq> []" "scan_block d (tl ?rest) = Some (b', r)" "b = c # ?in @ c # b'"
      using "2.prems" by (auto simp: Let_def simp del: dropWhile_eq_Nil_conv split: if_splits)
    then have "length b' + length r < length (tl ?rest)" using "2.IH"(3) [OF quote refl refl] by blast
    then show ?thesis using b' len by simp
  qed (use "2.prems" "2.IH" in \<open>auto split: if_splits\<close>)
qed simp

lemma read_quoted_shorter: "read_quoted_string n s = Ret (b, r) \<Longrightarrow> length b + length r + 2 \<le> length s"
proof -
  assume r: "read_quoted_string n s = Ret (b, r)"
  let ?P = "\<lambda>c. c \<noteq> hd s"
  have "length (takeWhile ?P (tl s)) + length (dropWhile ?P (tl s)) = length (tl s)"
    by (metis length_append takeWhile_dropWhile_id)
  moreover have "s \<noteq> []" "b = takeWhile ?P (tl s)" "r = tl (dropWhile ?P (tl s))" "dropWhile ?P (tl s) \<noteq> []"
    using r by (auto simp: read_quoted_string_def Let_def split: if_splits)
  ultimately show ?thesis by (cases s; cases "dropWhile ?P (tl s)") auto
qed

lemma read_braced_shorter: "read_braced_block s = Ret (b, r) \<Longrightarrow> s \<noteq> [] \<Longrightarrow> length b + length r + 2 \<le> length s"
  using scan_block_shorter [of 1 "tl s" b r] by (cases s) (auto simp: read_braced_block_def split: if_splits option.splits)

section \<open>Values\<close>

definition token_char :: "char \<Rightarrow> bool" where
  "token_char c \<longleftrightarrow> \<not> ascii_ws c \<and> c \<noteq> CHR '','' \<and> c \<noteq> CHR '']'' \<and> c \<noteq> CHR ''}''"

definition token_value :: "string \<Rightarrow> bicep_value" where
  "token_value token =
     (if token = ''true'' then BBool True
      else if token = ''false'' then BBool False
      else case parse_f64_text token of Some n \<Rightarrow> BNum n | None \<Rightarrow> BStr token)"

definition read_key :: "string \<Rightarrow> (string \<times> string) run" where
  "read_key s =
     (if is_quote (hd s) then read_quoted_string 0 s
      else Ret (trim (takeWhile (\<lambda>c. c \<noteq> CHR '':'' \<and> \<not> ascii_ws c) s), dropWhile (\<lambda>c. c \<noteq> CHR '':'' \<and> \<not> ascii_ws c) s))"

fun parse_bicep_value :: "nat \<Rightarrow> string \<Rightarrow> (bicep_value \<times> string) run"
and parse_array :: "nat \<Rightarrow> string \<Rightarrow> (bicep_value list \<times> string) run"
and parse_bicep_kv :: "nat \<Rightarrow> string \<Rightarrow> (string \<times> bicep_value) list run" where
  "parse_bicep_value 0 s = Pending"
| "parse_bicep_value (Suc n) s =
     run_bind (skip_ws_and_comments s) (\<lambda>s.
       if s = [] then Err (invalid ''unexpected end of input while parsing value'')
       else if is_quote (hd s) then run_bind (read_quoted_string 0 s) (\<lambda>(v, s). Ret (BStr v, s))
       else if hd s = CHR ''['' then run_bind (parse_array n (tl s)) (\<lambda>(items, s). Ret (BArray items, s))
       else if hd s = CHR ''{'' then
         run_bind (read_braced_block s) (\<lambda>(block, s). run_bind (parse_bicep_kv n block) (\<lambda>kv. Ret (BObject kv, s)))
       else Ret (token_value (trim (takeWhile token_char s)), dropWhile token_char s))"
| "parse_array 0 s = Pending"
| "parse_array (Suc n) s =
     run_bind (skip_ws_and_comments s) (\<lambda>s.
       if s = [] then Err (invalid ''unterminated array'')
       else if hd s = CHR '']'' then Ret ([], tl s)
       else if hd s = CHR '','' then parse_array n (tl s)
       else run_bind (parse_bicep_value n s) (\<lambda>(v, s).
              run_bind (parse_array n s) (\<lambda>(vs, s). Ret (v # vs, s))))"
| "parse_bicep_kv 0 s = Pending"
| "parse_bicep_kv (Suc n) s =
     (if s = [] then Ret []
      else run_bind (skip_ws_and_comments s) (\<lambda>s.
        if s = [] then Ret []
        else if hd s = CHR '','' then parse_bicep_kv n (tl s)
        else run_bind (read_key s) (\<lambda>(key, s).
          if key = [] then Ret []
          else
            let s = dropWhile (\<lambda>c. c \<noteq> CHR '':'') s
            in if s = [] then Ret []
               else run_bind (parse_bicep_value n (skip_ws_inline (tl s))) (\<lambda>(v, s).
                      run_bind (parse_bicep_kv n s) (\<lambda>kvs. Ret ((key, v) # kvs))))))"

section \<open>Typed access\<close>

definition get_string_required :: "(string \<times> bicep_value) list \<Rightarrow> string \<Rightarrow> string \<Rightarrow> string result" where
  "get_string_required kv key resource =
     (case map_of kv key of
        Some (BStr s) \<Rightarrow> Inr s
      | Some (BNum n) \<Rightarrow> Inr (show_number n)
      | Some _ \<Rightarrow> Inl (invalid (resource @ '': expected string for key '' @ [squote] @ key @ [squote]))
      | None \<Rightarrow> Inl (invalid (resource @ '': missing required key '' @ [squote] @ key @ [squote])))"

definition get_string_optional :: "(string \<times> bicep_value) list \<Rightarrow> string \<Rightarrow> string option" where
  "get_string_optional kv key =
     (case map_of kv key of Some (BStr s) \<Rightarrow> Some s | Some (BNum n) \<Rightarrow> Some (show_number n) | _ \<Rightarrow> None)"

definition get_u64_or_default :: "(string \<times> bicep_value) list \<Rightarrow> string \<Rightarrow> u64 \<Rightarrow> u64" where
  "get_u64_or_default kv key dflt =
     (case map_of kv key of
        Some (BNum n) \<Rightarrow> of_nat (number_as (2 ^ 64 - 1) n)
      | Some (BStr s) \<Rightarrow> (case parse_u64 s of Some v \<Rightarrow> v | None \<Rightarrow> dflt)
      | _ \<Rightarrow> dflt)"

definition get_bool_or_default :: "(string \<times> bicep_value) list \<Rightarrow> string \<Rightarrow> bool \<Rightarrow> bool" where
  "get_bool_or_default kv key dflt =
     (case map_of kv key of Some (BBool b) \<Rightarrow> b | Some (BStr s) \<Rightarrow> s = ''true'' | _ \<Rightarrow> dflt)"

text \<open>\<open>iter().map(...).collect()\<close> into a \<open>Result\<close>: the first error wins.\<close>

fun try_map :: "('a \<Rightarrow> 'b result) \<Rightarrow> 'a list \<Rightarrow> 'b list result" where
  "try_map f [] = Inr []"
| "try_map f (x # xs) = and_then (f x) (\<lambda>y. and_then (try_map f xs) (\<lambda>ys. Inr (y # ys)))"

definition array_of ::
  "(string \<times> bicep_value) list \<Rightarrow> string \<Rightarrow> string \<Rightarrow> (bicep_value \<Rightarrow> 'b result) \<Rightarrow> 'b list result" where
  "array_of kv key msg item =
     (case map_of kv key of
        None \<Rightarrow> Inr []
      | Some (BArray items) \<Rightarrow> try_map item items
      | Some _ \<Rightarrow> Inl (invalid msg))"

definition get_string_array :: "(string \<times> bicep_value) list \<Rightarrow> string \<Rightarrow> string list result" where
  "get_string_array kv key =
     array_of kv key (''expected array for key '' @ [squote] @ key @ [squote]) (\<lambda>item.
       case item of
         BStr s \<Rightarrow> Inr s
       | BNum n \<Rightarrow> Inr (show_number n)
       | _ \<Rightarrow> Inl (invalid (''expected string in array '' @ [squote] @ key @ [squote])))"

definition get_u16_array :: "(string \<times> bicep_value) list \<Rightarrow> string \<Rightarrow> nat list result" where
  "get_u16_array kv key =
     array_of kv key (''expected array for key '' @ [squote] @ key @ [squote]) (\<lambda>item.
       case item of
         BNum n \<Rightarrow> Inr (number_as (2 ^ 16 - 1) n)
       | BStr s \<Rightarrow> (case parse_uint 16 s of Some p \<Rightarrow> Inr p | None \<Rightarrow> Inl (invalid (''invalid number in array '' @ [squote] @ key @ [squote])))
       | _ \<Rightarrow> Inl (invalid (''expected number in array '' @ [squote] @ key @ [squote])))"

text \<open>An item that has to be an object.\<close>

definition object_item :: "string \<Rightarrow> ((string \<times> bicep_value) list \<Rightarrow> 'b result) \<Rightarrow> bicep_value \<Rightarrow> 'b result" where
  "object_item msg f item = (case item of BObject obj \<Rightarrow> f obj | _ \<Rightarrow> Inl (invalid msg))"

definition get_mount_array :: "(string \<times> bicep_value) list \<Rightarrow> string \<Rightarrow> mount_decl list result" where
  "get_mount_array kv key =
     array_of kv key (''expected array for '' @ [squote] @ ''mounts'' @ [squote]) (object_item ''expected object in mounts array'' (\<lambda>obj.
       and_then (get_string_required obj ''volume'' ''mount'') (\<lambda>volume.
       and_then (get_string_required obj ''path'' ''mount'') (\<lambda>path.
       Inr \<lparr>md_volume = volume, md_path = path, md_read_only = get_bool_or_default obj ''read_only'' False\<rparr>))))"

fun bicep_value_to_json :: "bicep_value \<Rightarrow> json_value" where
  "bicep_value_to_json (BStr s) = JvString s"
| "bicep_value_to_json (BNum n) = (case n of Num (Finite neg m e) \<Rightarrow> JvNumber (JFloat (Finite neg m e)) | _ \<Rightarrow> JvNull)"
| "bicep_value_to_json (BBool b) = JvBool b"
| "bicep_value_to_json (BArray items) = JvArray (map bicep_value_to_json items)"
| "bicep_value_to_json (BObject kv) =
     JvObject (foldl (\<lambda>m (k, v). hm_insert k v m) [] (map (\<lambda>(k, v). (k, bicep_value_to_json v)) kv))"

definition get_env_map :: "(string \<times> bicep_value) list \<Rightarrow> string \<Rightarrow> (string \<times> json_value) list result" where
  "get_env_map kv key =
     (case map_of kv key of
        None \<Rightarrow> Inr []
      | Some (BObject obj) \<Rightarrow> Inr (foldl (\<lambda>m (k, v). hm_insert k (bicep_value_to_json v) m) [] obj)
      | Some _ \<Rightarrow> Inl (invalid (''expected object for '' @ [squote] @ ''env'' @ [squote])))"

definition trim_both :: "char \<Rightarrow> string \<Rightarrow> string" where
  "trim_both c s = rev (dropWhile (\<lambda>x. x = c) (rev (dropWhile (\<lambda>x. x = c) s)))"

text \<open>The first object under the key; a value of another kind is passed over.\<close>

definition first_object :: "(string \<times> bicep_value) list \<Rightarrow> string \<Rightarrow> (string \<times> bicep_value) list option" where
  "first_object kv key =
     (case find (\<lambda>(k, v). k = key \<and> (case v of BObject _ \<Rightarrow> True | _ \<Rightarrow> False)) kv of
        Some (_, BObject obj) \<Rightarrow> Some obj
      | _ \<Rightarrow> None)"

definition get_tags_map :: "(string \<times> bicep_value) list \<Rightarrow> string \<Rightarrow> tags" where
  "get_tags_map kv key =
     (case first_object kv key of
        None \<Rightarrow> []
      | Some obj \<Rightarrow>
          foldl (\<lambda>m (tk, tv). case tv of BStr s \<Rightarrow> hm_insert (trim_both dquote (trim_both squote tk)) s m | _ \<Rightarrow> m) [] obj)"

definition get_config_entries :: "(string \<times> bicep_value) list \<Rightarrow> string \<Rightarrow> config_entry_decl list result" where
  "get_config_entries kv key =
     array_of kv key (''expected array for '' @ [squote] @ ''entries'' @ [squote]) (object_item ''expected object in entries array'' (\<lambda>obj.
       and_then (get_string_required obj ''key'' ''config-entry'') (\<lambda>k.
       and_then (get_string_required obj ''value'' ''config-entry'') (\<lambda>v.
       Inr \<lparr>ced_key = k, ced_value = v,
            ced_config_type = (case get_string_optional obj ''type'' of Some t \<Rightarrow> t | None \<Rightarrow> ''string''),
            ced_tags = get_tags_map obj ''tags''\<rparr>))))"

definition get_nested_string :: "(string \<times> bicep_value) list \<Rightarrow> string \<Rightarrow> string \<Rightarrow> string option result" where
  "get_nested_string kv outer inner =
     (case first_object kv outer of Some obj \<Rightarrow> Inr (get_string_optional obj inner) | None \<Rightarrow> Inr None)"

definition get_nested_string_array :: "(string \<times> bicep_value) list \<Rightarrow> string \<Rightarrow> string \<Rightarrow> string list result" where
  "get_nested_string_array kv outer inner =
     (case first_object kv outer of Some obj \<Rightarrow> get_string_array obj inner | None \<Rightarrow> Inr [])"

definition get_capability_deps :: "(string \<times> bicep_value) list \<Rightarrow> string \<Rightarrow> capability_dep_decl list result" where
  "get_capability_deps kv key =
     array_of kv key ''expected array for capabilities'' (object_item ''expected object in capabilities array'' (\<lambda>obj.
       and_then (get_string_required obj ''capability'' ''capability-dep'') (\<lambda>c.
       and_then (get_string_required obj ''minVersion'' ''capability-dep'') (\<lambda>v.
       Inr \<lparr>cap_capability = c, cap_min_version = v\<rparr>))))"

definition get_data_product_deps :: "(string \<times> bicep_value) list \<Rightarrow> string \<Rightarrow> data_product_dep_decl list result" where
  "get_data_product_deps kv key =
     array_of kv key ''expected array for dataProducts'' (object_item ''expected object in dataProducts array'' (\<lambda>obj.
       and_then (get_string_required obj ''source'' ''data-product-dep'') (\<lambda>s.
       and_then (get_string_required obj ''minVersion'' ''data-product-dep'') (\<lambda>v.
       Inr \<lparr>dpd_source = s, dpd_min_version = v\<rparr>))))"

section \<open>Declarations\<close>

definition or_default :: "'a \<Rightarrow> 'a option \<Rightarrow> 'a" where
  "or_default d v = (case v of Some x \<Rightarrow> x | None \<Rightarrow> d)"

definition unwrap_or_default :: "'a list result \<Rightarrow> 'a list" where
  "unwrap_or_default r = (case r of Inr xs \<Rightarrow> xs | Inl _ \<Rightarrow> [])"

definition parse_product :: "string \<Rightarrow> (string \<times> bicep_value) list \<Rightarrow> resource_declaration result" where
  "parse_product name kv =
     (let implements = unwrap_or_default (get_string_array kv ''implements'') in
      and_then (get_capability_deps kv ''capabilities'') (\<lambda>capabilities.
      and_then (get_data_product_deps kv ''dataProducts'') (\<lambda>data_products.
      and_then (get_string_required kv ''version'' name) (\<lambda>version.
      Inr (ProductDecl \<lparr>pd_name = name, pd_version = version, pd_description = get_string_optional kv ''description'',
        pd_implements = implements, pd_capabilities = capabilities, pd_data_products = data_products,
        pd_tags = get_tags_map kv ''tags''\<rparr>)))))"

definition parse_volume :: "string \<Rightarrow> (string \<times> bicep_value) list \<Rightarrow> resource_declaration result" where
  "parse_volume name kv =
     and_then (get_string_required kv ''product'' name) (\<lambda>product.
     Inr (VolumeDecl \<lparr>vd_name = name, vd_product = product, vd_size_gb = get_u64_or_default kv ''size_gb'' 10,
       vd_durability = get_string_optional kv ''durability'', vd_performance = get_string_optional kv ''performance'',
       vd_snapshots = None, vd_offsite = None, vd_tags = get_tags_map kv ''tags''\<rparr>))"

definition parse_container :: "string \<Rightarrow> (string \<times> bicep_value) list \<Rightarrow> resource_declaration result" where
  "parse_container name kv =
     and_then (get_mount_array kv ''mounts'') (\<lambda>mounts.
     and_then (get_env_map kv ''env'') (\<lambda>env.
     and_then (get_u16_array kv ''ports'') (\<lambda>ports.
     and_then (get_string_required kv ''product'' name) (\<lambda>product.
     and_then (get_string_required kv ''image'' name) (\<lambda>image.
     Inr (ContainerDecl \<lparr>cd_name = name, cd_product = product, cd_image = image,
       cd_identity = or_default ''default'' (get_string_optional kv ''identity''),
       cd_cpu = get_string_optional kv ''cpu'', cd_memory = get_string_optional kv ''memory'', cd_mounts = mounts,
       cd_env = env, cd_ports = ports, cd_tags = get_tags_map kv ''tags''\<rparr>))))))"

definition parse_binary :: "string \<Rightarrow> (string \<times> bicep_value) list \<Rightarrow> resource_declaration result" where
  "parse_binary name kv =
     and_then (get_mount_array kv ''mounts'') (\<lambda>mounts.
     and_then (get_env_map kv ''env'') (\<lambda>env.
     and_then (get_string_array kv ''args'') (\<lambda>args.
     and_then (get_string_required kv ''product'' name) (\<lambda>product.
     and_then (get_string_required kv ''executable'' name) (\<lambda>executable.
     Inr (BinaryDecl \<lparr>bd_name = name, bd_product = product, bd_executable = executable, bd_args = args,
       bd_identity = or_default ''default'' (get_string_optional kv ''identity''),
       bd_cpu = get_string_optional kv ''cpu'', bd_memory = get_string_optional kv ''memory'', bd_mounts = mounts,
       bd_env = env, bd_tags = get_tags_map kv ''tags''\<rparr>))))))"

definition parse_event_subscription :: "string \<Rightarrow> (string \<times> bicep_value) list \<Rightarrow> resource_declaration result" where
  "parse_event_subscription name kv =
     and_then (get_string_required kv ''product'' name) (\<lambda>product.
     and_then (get_string_required kv ''source'' name) (\<lambda>source.
     and_then (get_string_required kv ''event'' name) (\<lambda>event.
     and_then (get_string_required kv ''handler'' name) (\<lambda>handler.
     Inr (EventSubscriptionDecl \<lparr>esd_name = name, esd_product = product, esd_source = source, esd_event = event,
       esd_handler = handler, esd_tags = get_tags_map kv ''tags''\<rparr>)))))"

definition parse_ingress :: "string \<Rightarrow> (string \<times> bicep_value) list \<Rightarrow> resource_declaration result" where
  "parse_ingress name kv =
     and_then (get_string_required kv ''product'' name) (\<lambda>product.
     and_then (get_string_required kv ''target'' name) (\<lambda>target.
     and_then (get_string_required kv ''path'' name) (\<lambda>path.
     Inr (IngressDecl \<lparr>ing_name = name, ing_product = product, ing_target = target,
       ing_port = unat (get_u64_or_default kv ''port'' 0) mod 2 ^ 16, ing_path = path,
       ing_tls = get_bool_or_default kv ''tls'' True, ing_host = get_string_optional kv ''host'',
       ing_internal = get_bool_or_default kv ''internal'' False, ing_tags = get_tags_map kv ''tags''\<rparr>))))"

definition parse_secret_decl :: "string \<Rightarrow> (string \<times> bicep_value) list \<Rightarrow> resource_declaration result" where
  "parse_secret_decl name kv =
     and_then (get_string_required kv ''product'' name) (\<lambda>product.
     and_then (get_string_required kv ''value'' name) (\<lambda>value.
     Inr (SecretDecl \<lparr>sed_name = name, sed_product = product, sed_value = value, sed_tags = get_tags_map kv ''tags''\<rparr>)))"

definition parse_role :: "string \<Rightarrow> (string \<times> bicep_value) list \<Rightarrow> resource_declaration result" where
  "parse_role name kv =
     and_then (get_string_array kv ''permissions'') (\<lambda>permissions.
     Inr (RoleDecl \<lparr>rol_name = name, rol_product = get_string_optional kv ''product'', rol_permissions = permissions,
       rol_tags = get_tags_map kv ''tags''\<rparr>))"

definition parse_config :: "string \<Rightarrow> (string \<times> bicep_value) list \<Rightarrow> resource_declaration result" where
  "parse_config name kv =
     and_then (get_config_entries kv ''entries'') (\<lambda>entries.
     and_then (get_string_required kv ''product'' name) (\<lambda>product.
     Inr (ConfigDecl \<lparr>cfd_name = name, cfd_product = product, cfd_entries = entries, cfd_tags = get_tags_map kv ''tags''\<rparr>)))"

definition parse_feature_flag :: "string \<Rightarrow> (string \<times> bicep_value) list \<Rightarrow> resource_declaration result" where
  "parse_feature_flag name kv =
     and_then (get_string_required kv ''product'' name) (\<lambda>product.
     and_then (get_string_required kv ''version'' name) (\<lambda>version.
     Inr (FeatureFlagDecl \<lparr>ffd_name = name, ffd_product = product, ffd_description = get_string_optional kv ''description'',
       ffd_enabled = get_bool_or_default kv ''enabled'' True, ffd_version = version, ffd_tags = get_tags_map kv ''tags''\<rparr>)))"

definition parse_group :: "string \<Rightarrow> (string \<times> bicep_value) list \<Rightarrow> resource_declaration result" where
  "parse_group name kv =
     and_then (get_string_array kv ''roles'') (\<lambda>roles.
     Inr (GroupDecl \<lparr>grd_name = name, grd_description = get_string_optional kv ''description'', grd_roles = roles,
       grd_tags = get_tags_map kv ''tags''\<rparr>))"

definition parse_inference_rule :: "string \<Rightarrow> (string \<times> bicep_value) list \<Rightarrow> resource_declaration result" where
  "parse_inference_rule name kv =
     (let trigger_events = unwrap_or_default (get_string_array kv ''trigger-events'') in
      and_then (get_string_required kv ''construct'' name) (\<lambda>construct.
      Inr (InferenceRuleDecl \<lparr>ird_name = name, ird_description = get_string_optional kv ''description'',
        ird_scope = or_default ''platform'' (get_string_optional kv ''scope''),
        ird_trigger = or_default ''event'' (get_string_optional kv ''trigger''), ird_trigger_events = trigger_events,
        ird_reconciliation = get_bool_or_default kv ''reconciliation'' False, ird_construct = construct,
        ird_tags = get_tags_map kv ''tags''\<rparr>)))"

definition parse_scope :: "string \<Rightarrow> (string \<times> bicep_value) list \<Rightarrow> resource_declaration result" where
  "parse_scope name kv =
     and_then (get_string_array kv ''permissions'') (\<lambda>permissions.
     and_then (get_string_required kv ''product'' name) (\<lambda>product.
     Inr (ScopeDecl \<lparr>scd_name = name, scd_product = product, scd_description = get_string_optional kv ''description'',
       scd_permissions = permissions, scd_claims = get_tags_map kv ''claims'', scd_tags = get_tags_map kv ''tags''\<rparr>)))"

definition parse_m2m_permission :: "string \<Rightarrow> (string \<times> bicep_value) list \<Rightarrow> resource_declaration result" where
  "parse_m2m_permission name kv =
     and_then (get_string_array kv ''scopes'') (\<lambda>scopes.
     and_then (get_string_required kv ''product'' name) (\<lambda>product.
     and_then (get_string_required kv ''client'' name) (\<lambda>client.
     Inr (M2mPermissionDecl \<lparr>mpd_name = name, mpd_product = product, mpd_client = client, mpd_scopes = scopes,
       mpd_description = get_string_optional kv ''description'', mpd_tags = get_tags_map kv ''tags''\<rparr>))))"

definition ok_or :: "picloud_error \<Rightarrow> 'a option result \<Rightarrow> 'a result" where
  "ok_or e r = and_then r (\<lambda>v. case v of Some x \<Rightarrow> Inr x | None \<Rightarrow> Inl e)"

definition parse_capability :: "string \<Rightarrow> (string \<times> bicep_value) list \<Rightarrow> resource_declaration result" where
  "parse_capability name kv =
     and_then (ok_or (validation_err name ''capability events.input is required'') (get_nested_string kv ''events'' ''input'')) (\<lambda>input.
     and_then (ok_or (validation_err name ''capability events.output is required'') (get_nested_string kv ''events'' ''output'')) (\<lambda>out.
     and_then (get_string_required kv ''version'' name) (\<lambda>version.
     Inr (CapabilityDecl \<lparr>cad_name = name, cad_version = version, cad_description = get_string_optional kv ''description'',
       cad_ontology = get_string_optional kv ''ontology'', cad_shapes = get_string_optional kv ''shapes'',
       cad_events = \<lparr>cev_input = input, cev_output = out\<rparr>, cad_tags = get_tags_map kv ''tags''\<rparr>))))"

definition parse_data_domain :: "string \<Rightarrow> (string \<times> bicep_value) list \<Rightarrow> resource_declaration result" where
  "parse_data_domain name kv =
     and_then (get_string_required kv ''steward'' name) (\<lambda>steward.
     Inr (DataDomainDecl \<lparr>ddd_name = name, ddd_description = get_string_optional kv ''description'', ddd_steward = steward,
       ddd_sensitivity = or_default ''internal'' (get_string_optional kv ''sensitivity''), ddd_tags = get_tags_map kv ''tags''\<rparr>))"

definition parse_data_product :: "string \<Rightarrow> (string \<times> bicep_value) list \<Rightarrow> resource_declaration result" where
  "parse_data_product name kv =
     and_then (get_nested_string_array kv ''freshness'' ''triggers'') (\<lambda>triggers.
     and_then (ok_or (validation_err name ''freshness.maxAge is required'') (get_nested_string kv ''freshness'' ''maxAge'')) (\<lambda>max_age.
     and_then (get_nested_string kv ''access'' ''visibility'') (\<lambda>visibility.
     and_then (get_nested_string_array kv ''access'' ''roles'') (\<lambda>roles.
     and_then (get_string_required kv ''product'' name) (\<lambda>product.
     and_then (get_string_required kv ''domain'' name) (\<lambda>domain.
     and_then (get_string_required kv ''version'' name) (\<lambda>version.
     and_then (get_string_required kv ''projection'' name) (\<lambda>projection.
     Inr (DataProductDecl \<lparr>dp_name = name, dp_product = product, dp_domain = domain, dp_version = version,
       dp_description = get_string_optional kv ''description'', dp_ontology = get_string_optional kv ''ontology'',
       dp_shapes = get_string_optional kv ''shapes'', dp_projection = projection,
       dp_freshness = \<lparr>fdb_max_age = max_age, fdb_triggers = triggers\<rparr>,
       dp_access = Some \<lparr>adb_visibility = or_default ''cluster'' visibility, adb_roles = roles\<rparr>,
       dp_tags = get_tags_map kv ''tags''\<rparr>)))))))))"

definition declaration_parsers :: "(string \<times> (string \<Rightarrow> (string \<times> bicep_value) list \<Rightarrow> resource_declaration result)) list" where
  "declaration_parsers =
     [(''product'', parse_product), (''volume'', parse_volume), (''container'', parse_container), (''binary'', parse_binary),
      (''event-subscription'', parse_event_subscription), (''ingress'', parse_ingress), (''secret'', parse_secret_decl),
      (''role'', parse_role), (''config'', parse_config), (''feature-flag'', parse_feature_flag), (''group'', parse_group),
      (''inference-rule'', parse_inference_rule), (''scope'', parse_scope), (''m2m-permission'', parse_m2m_permission),
      (''capability'', parse_capability), (''data-domain'', parse_data_domain), (''data-product'', parse_data_product)]"

definition parse_bicep_declaration :: "nat \<Rightarrow> string \<Rightarrow> string \<Rightarrow> string \<Rightarrow> resource_declaration run" where
  "parse_bicep_declaration fuel resource_type name body =
     run_bind (parse_bicep_kv fuel body) (\<lambda>kv.
       case map_of declaration_parsers resource_type of
         Some p \<Rightarrow> run_of (p name kv)
       | None \<Rightarrow> Err (invalid (''unknown resource type: '' @ resource_type)))"

definition run_all :: "('a \<Rightarrow> 'b run) \<Rightarrow> 'a list \<Rightarrow> 'b list run" where
  "run_all f xs = foldr (\<lambda>x r. run_bind (f x) (\<lambda>y. run_bind r (\<lambda>ys. Ret (y # ys)))) xs (Ret [])"

function split_bicep_declarations :: "nat \<Rightarrow> string \<Rightarrow> (string \<times> string \<times> string) list run" where
  "split_bicep_declarations len s =
     (let s1 = dropWhile ascii_ws s in
      if s1 = [] then Ret []
      else run_bind (at_comment s1) (\<lambda>c.
        if c then split_bicep_declarations len (skip_line s1)
        else
          let resource_type = takeWhile (\<lambda>c. \<not> ascii_ws c) s1;
              s2 = dropWhile (\<lambda>c. ascii_ws c \<and> c \<noteq> newline) (dropWhile (\<lambda>c. \<not> ascii_ws c) s1)
          in run_bind (read_quoted_string len s2) (\<lambda>(name, s3).
            let s4 = dropWhile (\<lambda>c. ascii_ws c \<or> c = CHR ''='') s3
            in if s4 = [] \<or> hd s4 \<noteq> CHR ''{'' then
                 Err (invalid (''expected '' @ [squote] @ ''{'' @ [squote] @ '' after '' @ resource_type @ '' '' @ [squote] @ name @ [squote]))
               else run_bind (read_braced_block s4) (\<lambda>(body, s5).
                 run_bind (split_bicep_declarations len s5) (\<lambda>ds. Ret ((resource_type, name, body) # ds))))))"
  by pat_completeness auto
termination
proof (relation "measure (length \<circ> snd)")
  show "((len, skip_line x), len, s) \<in> measure (length \<circ> snd)"
    if "x = dropWhile ascii_ws s" "x \<noteq> []" "at_comment x = Ret c" "c" for len s x c
    using that at_comment_True [of x] length_dropWhile_le [of ascii_ws s] by auto
  show "((len, s5), len, s) \<in> measure (length \<circ> snd)"
    if "x = dropWhile ascii_ws s" "x2 = dropWhile (\<lambda>c. ascii_ws c \<and> c \<noteq> newline) (dropWhile (\<lambda>c. \<not> ascii_ws c) x)"
      "read_quoted_string len x2 = Ret y" "(name, s3) = y" "s4 = dropWhile (\<lambda>c. ascii_ws c \<or> c = CHR ''='') s3"
      "\<not> (s4 = [] \<or> hd s4 \<noteq> CHR ''{'')" "read_braced_block s4 = Ret z" "(body, s5) = z"
    for len s x x2 y name s3 s4 z body s5
  proof -
    have "length s5 + 2 \<le> length s4" using read_braced_shorter [of s4 body s5] that by auto
    moreover have "length s4 \<le> length s3" using that(5) length_dropWhile_le by simp
    moreover have "length s3 + 2 \<le> length x2" using read_quoted_shorter [of len x2 name s3] that by auto
    moreover have "length x2 \<le> length s"
      using that(1,2) length_dropWhile_le order_trans by metis
    ultimately show ?thesis by simp
  qed
qed simp

declare split_bicep_declarations.simps [simp del]

definition parse_bicep :: "nat \<Rightarrow> string \<Rightarrow> resource_file run" where
  "parse_bicep fuel input =
     run_bind (split_bicep_declarations (length input) input) (\<lambda>declarations.
       run_bind (run_all (\<lambda>(resource_type, name, body). parse_bicep_declaration fuel resource_type name body) declarations)
         (\<lambda>resources. Ret \<lparr>rf_resources = resources\<rparr>))"

definition file_parse :: "(string \<Rightarrow> string + resource_file) \<Rightarrow> nat \<Rightarrow> string \<Rightarrow> resource_file run" where
  "file_parse from_json fuel input =
     (let trimmed = trim input in
      if starts_with trimmed ''{'' then
        (case from_json trimmed of
           Inr f \<Rightarrow> Ret f
         | Inl e \<Rightarrow> Err (invalid (''invalid resource file JSON: '' @ e)))
      else parse_bicep fuel trimmed)"

section \<open>Fuel\<close>

text \<open>More fuel does not change a result.\<close>

lemma run_bind_mono:
  "(r \<noteq> Pending \<Longrightarrow> r' = r) \<Longrightarrow> (\<And>a. r = Ret a \<Longrightarrow> f a \<noteq> Pending \<Longrightarrow> g a = f a) \<Longrightarrow> run_bind r f \<noteq> Pending \<Longrightarrow>
    run_bind r' g = run_bind r f"
  by (cases r) auto

lemma bicep_mono_step:
  "parse_bicep_value n s \<noteq> Pending \<Longrightarrow> parse_bicep_value (Suc n) s = parse_bicep_value n s"
  "parse_array n s \<noteq> Pending \<Longrightarrow> parse_array (Suc n) s = parse_array n s"
  "parse_bicep_kv n s \<noteq> Pending \<Longrightarrow> parse_bicep_kv (Suc n) s = parse_bicep_kv n s"
proof (induction n arbitrary: s)
  case (Suc n)
  {
    case 1
    then show ?case
      unfolding parse_bicep_value.simps(2) [of "Suc n" s] parse_bicep_value.simps(2) [of n s]
      by (intro run_bind_mono) (auto intro!: run_bind_mono Suc.IH simp del: parse_bicep_value.simps parse_array.simps parse_bicep_kv.simps split: if_splits)
  next
    case 2
    then show ?case
      unfolding parse_array.simps(2) [of "Suc n" s] parse_array.simps(2) [of n s]
      by (intro run_bind_mono) (auto intro!: run_bind_mono Suc.IH simp del: parse_bicep_value.simps parse_array.simps parse_bicep_kv.simps split: if_splits)
  next
    case 3
    then show ?case
      unfolding parse_bicep_kv.simps(2) [of "Suc n" s] parse_bicep_kv.simps(2) [of n s]
      by (auto intro!: run_bind_mono Suc.IH simp: Let_def simp del: dropWhile_eq_Nil_conv parse_bicep_value.simps parse_array.simps parse_bicep_kv.simps split: if_splits)
  }
qed simp_all

lemma bicep_mono:
  assumes "n \<le> m"
  shows "parse_bicep_value n s \<noteq> Pending \<Longrightarrow> parse_bicep_value m s = parse_bicep_value n s"
    and "parse_array n s \<noteq> Pending \<Longrightarrow> parse_array m s = parse_array n s"
    and "parse_bicep_kv n s \<noteq> Pending \<Longrightarrow> parse_bicep_kv m s = parse_bicep_kv n s"
proof -
  obtain k where m: "m = n + k" using assms le_Suc_ex by blast
  show "parse_bicep_value n s \<noteq> Pending \<Longrightarrow> parse_bicep_value m s = parse_bicep_value n s"
    unfolding m by (induction k) (simp, metis add_Suc_right bicep_mono_step(1))
  show "parse_array n s \<noteq> Pending \<Longrightarrow> parse_array m s = parse_array n s"
    unfolding m by (induction k) (simp, metis add_Suc_right bicep_mono_step(2))
  show "parse_bicep_kv n s \<noteq> Pending \<Longrightarrow> parse_bicep_kv m s = parse_bicep_kv n s"
    unfolding m by (induction k) (simp, metis add_Suc_right bicep_mono_step(3))
qed

lemma value_any_fuel: "parse_bicep_value n s = Ret x \<Longrightarrow> parse_bicep_value m s = Pending \<or> parse_bicep_value m s = Ret x"
  by (metis nat_le_linear bicep_mono(1) run.distinct(5))

lemma bind_Pending: "run_bind r f = Pending \<longleftrightarrow> r = Pending \<or> (\<exists>a. r = Ret a \<and> f a = Pending)"
  by (cases r) simp_all

lemma bind_Ret: "run_bind r f = Ret b \<longleftrightarrow> (\<exists>a. r = Ret a \<and> f a = Ret b)"
  by (cases r) simp_all

lemma scanners_return [simp]:
  "at_comment s \<noteq> Pending" "read_quoted_string k s \<noteq> Pending" "read_braced_block s \<noteq> Pending" "read_key s \<noteq> Pending"
  by (auto simp: at_comment_def read_quoted_string_def read_braced_block_def read_key_def Let_def split: option.splits)

lemma skip_returns [simp]: "skip_ws_and_comments s \<noteq> Pending"
  by (induction s rule: skip_ws_and_comments.induct) (subst skip_ws_and_comments.simps, auto simp: Let_def bind_Pending)

lemma skip_result:
  "skip_ws_and_comments s = Ret t \<Longrightarrow>
    length t \<le> length s \<and> skip_ws_and_comments t = Ret t \<and> (t \<noteq> [] \<longrightarrow> \<not> ascii_ws (hd t))"
proof (induction s rule: skip_ws_and_comments.induct)
  case (1 s)
  let ?s1 = "dropWhile ascii_ws s"
  obtain c where c: "at_comment ?s1 = Ret c" and t: "(if c then skip_ws_and_comments (skip_line ?s1) else Ret ?s1) = Ret t"
    using "1.prems" by (subst (asm) skip_ws_and_comments.simps) (auto simp: Let_def bind_Ret)
  have le: "length ?s1 \<le> length s" by (rule length_dropWhile_le)
  show ?case
  proof (cases c)
    case True
    then show ?thesis using "1.IH" [OF refl c] t c at_comment_True [of ?s1] le by fastforce
  next
    case False
    then have "t = ?s1" using t by simp
    moreover have "skip_ws_and_comments ?s1 = Ret ?s1"
      using c False by (subst skip_ws_and_comments.simps) (simp add: Let_def)
    ultimately show ?thesis using le hd_dropWhile [of ascii_ws s] by auto
  qed
qed

lemma parse_shorter:
  "parse_bicep_value n s = Ret (v, r) \<Longrightarrow> length r \<le> length s"
  "parse_array n s = Ret (vs, r) \<Longrightarrow> length r \<le> length s"
proof (induction n arbitrary: s v vs r)
  case (Suc n)
  {
    case 1
    then obtain t where t: "skip_ws_and_comments s = Ret t" "t \<noteq> []" by (auto simp: bind_Ret split: if_splits)
    have "length r \<le> length t"
      using 1 t Suc.IH(2) [of "tl t"] read_quoted_shorter [of 0 t] read_braced_shorter [of t] length_dropWhile_le [of token_char t]
      by (fastforce simp: bind_Ret split: if_splits)
    then show ?case using skip_result [OF t(1)] by simp
  next
    case 2
    then obtain t where t: "skip_ws_and_comments s = Ret t" "t \<noteq> []" by (auto simp: bind_Ret split: if_splits)
    have "length r \<le> length t"
    proof (cases "hd t = CHR '']'' \<or> hd t = CHR '',''")
      case True
      then show ?thesis using 2 t Suc.IH(2) [of "tl t"] by (fastforce split: if_splits)
    next
      case False
      then obtain v' r' vs' where "parse_bicep_value n t = Ret (v', r')" "parse_array n r' = Ret (vs', r)"
        using 2 t by (auto simp: bind_Ret)
      then show ?thesis using Suc.IH(1) [of t v' r'] Suc.IH(2) [of r' vs' r] by simp
    qed
    then show ?case using skip_result [OF t(1)] by simp
  }
qed simp_all

text \<open>An item of an array takes something off the text, unless the array stands at a closing brace.\<close>

lemma item_progress:
  assumes "parse_bicep_value n t = Ret (v, r)" "skip_ws_and_comments t = Ret t" "t \<noteq> []"
    and "hd t \<noteq> CHR '']''" "hd t \<noteq> CHR '',''" "hd t \<noteq> CHR ''}''"
  shows "length r < length t"
proof (cases n)
  case (Suc k)
  have ws: "\<not> ascii_ws (hd t)" using skip_result [OF assms(2)] assms(3) by simp
  then have tok: "token_char (hd t)" using assms(4-6) by (simp add: token_char_def)
  have drop: "length (dropWhile token_char t) < length t"
    using tok assms(3) length_dropWhile_le [of token_char "tl t"] by (cases t) simp_all
  show ?thesis
  proof (cases "is_quote (hd t) \<or> hd t = CHR ''{''")
    case True
    then show ?thesis using assms Suc read_braced_shorter [of t]
      by (fastforce simp: bind_Ret dest: read_quoted_shorter split: if_splits)
  next
    case False
    then show ?thesis
      using assms Suc drop parse_shorter(2) [of k "tl t"] by (fastforce simp: bind_Ret split: if_splits)
  qed
qed (use assms in simp)

text \<open>At a closing brace an array never ends.\<close>

lemma stuck_array:
  assumes "skip_ws_and_comments t = Ret t" "t \<noteq> []" "hd t = CHR ''}''"
  shows "parse_array m t = Pending"
proof (induction m)
  case (Suc m)
  have "parse_bicep_value m t = Pending \<or> (\<exists>v. parse_bicep_value m t = Ret (v, t))"
  proof (cases m)
    case (Suc k)
    have "dropWhile token_char t = t" using assms(2,3) by (cases t) (simp_all add: token_char_def)
    then show ?thesis using assms Suc by (simp add: is_quote_def)
  qed simp
  then show ?case using assms Suc.IH by auto
qed simp

lemma pending_forever:
  "2 * length s + 1 \<le> n \<Longrightarrow> parse_bicep_value n s = Pending \<Longrightarrow> parse_bicep_value m s = Pending"
  "2 * length s + 2 \<le> n \<Longrightarrow> parse_array n s = Pending \<Longrightarrow> parse_array m s = Pending"
  "2 * length s + 1 \<le> n \<Longrightarrow> parse_bicep_kv n s = Pending \<Longrightarrow> parse_bicep_kv m s = Pending"
proof (induction n arbitrary: s m)
  case (Suc n)
  {
    case 1
    then obtain t where t: "skip_ws_and_comments s = Ret t" "t \<noteq> []" by (auto simp: bind_Pending split: if_splits)
    have len: "2 * length t \<le> n" using skip_result [OF t(1)] 1(1) by simp
    show ?case
    proof (cases "hd t = CHR ''[''")
      case True
      then have "parse_array n (tl t) = Pending" using 1(2) t by (auto simp: bind_Pending is_quote_def)
      then have "parse_array k (tl t) = Pending" for k using Suc.IH(2) [of "tl t" k] len t(2) by (cases t) simp_all
      then show ?thesis using t True by (cases m) (simp_all add: is_quote_def)
    next
      case False
      then obtain b r where b: "hd t = CHR ''{''" "read_braced_block t = Ret (b, r)" "parse_bicep_kv n b = Pending"
        using 1(2) t by (auto simp: bind_Pending split: if_splits)
      then have "parse_bicep_kv k b = Pending" for k using Suc.IH(3) [of b k] read_braced_shorter [of t b r] t(2) len by simp
      then show ?thesis using t b by (cases m) (simp_all add: is_quote_def)
    qed
  next
    case 2
    then obtain t where t: "skip_ws_and_comments s = Ret t" "t \<noteq> []" by (auto simp: bind_Pending split: if_splits)
    have len: "2 * length t + 1 \<le> n" and idem: "skip_ws_and_comments t = Ret t" using skip_result [OF t(1)] 2(1) by simp_all
    show ?case
    proof (cases "hd t = CHR ''}''")
      case True
      have "parse_array (Suc k) s = parse_array (Suc k) t" for k using t idem by simp
      then show ?thesis using stuck_array [OF idem t(2) True] by (cases m) simp_all
    next
      case False
      consider (comma) "hd t = CHR '',''" "parse_array n (tl t) = Pending"
        | (item) "hd t \<noteq> CHR '',''" "hd t \<noteq> CHR '']''" "parse_bicep_value n t = Pending"
        | (rest) v r where "hd t \<noteq> CHR '',''" "hd t \<noteq> CHR '']''" "parse_bicep_value n t = Ret (v, r)" "parse_array n r = Pending"
        using 2(2) t by (auto simp: bind_Pending split: if_splits)
      then show ?thesis
      proof cases
        case comma
        then have "parse_array k (tl t) = Pending" for k using Suc.IH(2) [of "tl t" k] len t(2) by (cases t) simp_all
        then show ?thesis using t comma(1) by (cases m) simp_all
      next
        case item
        then have "parse_bicep_value k t = Pending" for k using Suc.IH(1) [of t k] len by simp
        then show ?thesis using t item by (cases m) simp_all
      next
        case rest
        have "length r < length t" by (rule item_progress [OF rest(3) idem t(2) rest(2,1) False])
        then have r: "parse_array k r = Pending" for k using Suc.IH(2) [of r k] rest(4) len by simp
        then show ?thesis using t rest value_any_fuel [OF rest(3), of "m - 1"] by (cases m) auto
      qed
    qed
  next
    case 3
    then obtain t where s: "s \<noteq> []" and t: "skip_ws_and_comments s = Ret t" "t \<noteq> []" by (auto simp: bind_Pending split: if_splits)
    have len: "2 * length t \<le> n" using skip_result [OF t(1)] 3(1) by simp
    show ?case
    proof (cases "hd t = CHR '',''")
      case True
      then have "parse_bicep_kv n (tl t) = Pending" using 3(2) s t by simp
      then have "parse_bicep_kv k (tl t) = Pending" for k using Suc.IH(3) [of "tl t" k] len t(2) by (cases t) simp_all
      then show ?thesis using s t True by (cases m) simp_all
    next
      case False
      obtain key s1 where k: "read_key t = Ret (key, s1)" "key \<noteq> []"
        and ne: "dropWhile (\<lambda>c. c \<noteq> CHR '':'') s1 \<noteq> []"
        using 3(2) s t False by (auto simp: bind_Pending Let_def split: if_splits)
      let ?u = "skip_ws_inline (tl (dropWhile (\<lambda>c. c \<noteq> CHR '':'') s1))"
      have "length s1 \<le> length t"
        using k(1) read_quoted_shorter [of 0 t key s1] length_dropWhile_le [of "\<lambda>c. c \<noteq> CHR '':'' \<and> \<not> ascii_ws c" t]
        by (auto simp: read_key_def split: if_splits)
      then have u: "length ?u < length t"
        using ne length_dropWhile_le [of "\<lambda>c. c \<noteq> CHR '':''" s1] length_dropWhile_le [of "\<lambda>c. c = CHR '' '' \<or> c = CHR 0x09" "tl (dropWhile (\<lambda>c. c \<noteq> CHR '':'') s1)"]
        by (cases "dropWhile (\<lambda>c. c \<noteq> CHR '':'') s1") (simp_all add: skip_ws_inline_def)
      consider (val) "parse_bicep_value n ?u = Pending"
        | (rest) v r where "parse_bicep_value n ?u = Ret (v, r)" "parse_bicep_kv n r = Pending"
        using 3(2) s t False k ne by (auto simp: bind_Pending Let_def split: if_splits)
      then show ?thesis
      proof cases
        case val
        then have "parse_bicep_value k ?u = Pending" for k using Suc.IH(1) [of ?u k] u len by simp
        then show ?thesis using s t False k ne by (cases m) (simp_all add: Let_def)
      next
        case rest
        then have "parse_bicep_kv k r = Pending" for k using Suc.IH(3) [of r k] parse_shorter(1) [OF rest(1)] u len by simp
        then show ?thesis using s t False k ne value_any_fuel [OF rest(1), of "m - 1"] by (cases m) (auto simp: Let_def)
      qed
    qed
  }
qed simp_all

text \<open>A run with fuel settles at a bound: the result there is the result of every run with at least as much fuel, and
  of every run that is not pending.\<close>

definition settles :: "nat \<Rightarrow> (nat \<Rightarrow> 'a run) \<Rightarrow> bool" where
  "settles N f \<longleftrightarrow> (\<forall>m. f m \<noteq> Pending \<longrightarrow> f m = f N) \<and> (\<forall>m\<ge>N. f m = f N)"

lemma settles_const [simp]: "settles N (\<lambda>_. r)"
  by (simp add: settles_def)

lemma settles_bind:
  assumes "settles N f" "\<And>a. f N = Ret a \<Longrightarrow> settles N (\<lambda>m. g m a)"
  shows "settles N (\<lambda>m. run_bind (f m) (g m))"
proof -
  have "run_bind (f m) (g m) = run_bind (f N) (g N)" if "f m = f N" "\<And>a. f N = Ret a \<Longrightarrow> g m a = g N a" for m
    using that by (cases "f N") simp_all
  then show ?thesis using assms unfolding settles_def by (metis bind_Pending run.exhaust run_bind_simps)
qed

lemma settles_kv:
  assumes "2 * length s + 1 \<le> N"
  shows "settles N (\<lambda>n. parse_bicep_kv n s)"
  unfolding settles_def by (metis assms nat_le_linear bicep_mono(3) pending_forever(3))

lemma settles_run_all: "(\<And>x. x \<in> set xs \<Longrightarrow> settles N (\<lambda>m. f m x)) \<Longrightarrow> settles N (\<lambda>m. run_all (f m) xs)"
  by (induction xs) (auto simp: run_all_def intro!: settles_bind)

lemma set_dropWhile_subset: "set (dropWhile P s) \<subseteq> set s"
  by (auto dest: set_dropWhileD)

lemma set_tl_subset: "set (tl s) \<subseteq> set s"
  by (cases s) auto

lemma skip_line_subset: "set (skip_line s) \<subseteq> set s"
  by (simp add: skip_line_def set_dropWhile_subset)

lemma read_quoted_subset: "read_quoted_string n s = Ret (b, r) \<Longrightarrow> set r \<subseteq> set s"
  using set_tl_subset [of "dropWhile (\<lambda>c. c \<noteq> hd s) (tl s)"] set_dropWhile_subset [of "\<lambda>c. c \<noteq> hd s" "tl s"] set_tl_subset [of s]
  by (auto simp: read_quoted_string_def Let_def split: if_splits)

lemma scan_block_subset: "scan_block d s = Some (b, r) \<Longrightarrow> set b \<subseteq> set s \<and> set r \<subseteq> set s"
proof (induction d s arbitrary: b r rule: scan_block.induct)
  case (2 d c s)
  let ?rest = "dropWhile (\<lambda>x. x \<noteq> c) s"
  consider (up) b' where "c = CHR ''{''" "scan_block (Suc d) s = Some (b', r)" "b = c # b'"
    | (stop) "b = []" "r = s"
    | (down) b' where "c = CHR ''}''" "d \<noteq> 1" "scan_block (d - 1) s = Some (b', r)" "b = c # b'"
    | (quote) b' where "c \<noteq> CHR ''{''" "c \<noteq> CHR ''}''" "is_quote c" "?rest \<noteq> []" "scan_block d (tl ?rest) = Some (b', r)"
        "b = c # takeWhile (\<lambda>x. x \<noteq> c) s @ c # b'"
    | (other) b' where "c \<noteq> CHR ''{''" "c \<noteq> CHR ''}''" "\<not> is_quote c" "scan_block d s = Some (b', r)" "b = c # b'"
    using "2.prems" by (auto simp: Let_def simp del: dropWhile_eq_Nil_conv split: if_splits)
  then show ?case
  proof cases
    case up
    then have "set b' \<subseteq> set s \<and> set r \<subseteq> set s" using "2.IH"(1) by blast
    then show ?thesis using up by auto
  next
    case down
    have "c \<noteq> CHR ''{''" using down(1) by simp
    then have "set b' \<subseteq> set s \<and> set r \<subseteq> set s" using "2.IH"(2) down by blast
    then show ?thesis using down by auto
  next
    case quote
    then have "set b' \<subseteq> set (tl ?rest) \<and> set r \<subseteq> set (tl ?rest)" using "2.IH"(3) [OF quote(1-3) refl refl] by blast
    moreover have "set (tl ?rest) \<subseteq> set s" by (rule subset_trans [OF set_tl_subset set_dropWhile_subset])
    moreover have "set (takeWhile (\<lambda>x. x \<noteq> c) s) \<subseteq> set s" by (auto dest: set_takeWhileD)
    ultimately have "set b' \<subseteq> set s" "set r \<subseteq> set s" "set (takeWhile (\<lambda>x. x \<noteq> c) s) \<subseteq> set s" by blast+
    then show ?thesis unfolding quote(6) by auto
  next
    case other
    then have "set b' \<subseteq> set s \<and> set r \<subseteq> set s" using "2.IH"(4) by blast
    then show ?thesis using other by auto
  qed auto
qed simp

lemma read_braced_subset: "read_braced_block s = Ret (b, r) \<Longrightarrow> set b \<subseteq> set s \<and> set r \<subseteq> set s"
  using scan_block_subset [of 1 "tl s" b r] set_tl_subset [of s]
  by (auto simp: read_braced_block_def split: if_splits option.splits)

text \<open>Splitting always ends; the bodies are parts of the text.\<close>

lemma split_step:
  "dropWhile ascii_ws s = [] \<Longrightarrow> split_bicep_declarations len s = Ret []"
  "dropWhile ascii_ws s = s1 \<Longrightarrow> s1 \<noteq> [] \<Longrightarrow> at_comment s1 = Ret True \<Longrightarrow>
    split_bicep_declarations len s = split_bicep_declarations len (skip_line s1)"
  "dropWhile ascii_ws s = s1 \<Longrightarrow> s1 \<noteq> [] \<Longrightarrow> at_comment s1 = Ret False \<Longrightarrow>
    dropWhile (\<lambda>c. ascii_ws c \<and> c \<noteq> newline) (dropWhile (\<lambda>c. \<not> ascii_ws c) s1) = s2 \<Longrightarrow>
    split_bicep_declarations len s = run_bind (read_quoted_string len s2) (\<lambda>(name, s3).
      let s4 = dropWhile (\<lambda>c. ascii_ws c \<or> c = CHR ''='') s3
      in if s4 = [] \<or> hd s4 \<noteq> CHR ''{'' then
           Err (invalid (''expected '' @ [squote] @ ''{'' @ [squote] @ '' after '' @ takeWhile (\<lambda>c. \<not> ascii_ws c) s1 @ '' '' @
             [squote] @ name @ [squote]))
         else run_bind (read_braced_block s4) (\<lambda>(body, s5).
           run_bind (split_bicep_declarations len s5) (\<lambda>ds. Ret ((takeWhile (\<lambda>c. \<not> ascii_ws c) s1, name, body) # ds))))"
  by (subst split_bicep_declarations.simps, simp del: dropWhile_eq_Nil_conv add: Let_def)+

lemma split_panic:
  "dropWhile ascii_ws s \<noteq> [] \<Longrightarrow> at_comment (dropWhile ascii_ws s) = Panic \<Longrightarrow> split_bicep_declarations len s = Panic"
  by (subst split_bicep_declarations.simps) (simp del: dropWhile_eq_Nil_conv add: Let_def)

lemma at_comment_cases: "at_comment s = Panic \<or> at_comment s = Ret True \<or> at_comment s = Ret False"
  by (auto simp: at_comment_def)

definition bodies_within :: "string \<Rightarrow> (string \<times> string \<times> string) list \<Rightarrow> bool" where
  "bodies_within s ds \<longleftrightarrow> (\<forall>(t, n, b)\<in>set ds. length b \<le> length s \<and> set b \<subseteq> set s)"

lemma bodies_within_Cons [simp]:
  "bodies_within s ((t, n, b) # ds) \<longleftrightarrow> length b \<le> length s \<and> set b \<subseteq> set s \<and> bodies_within s ds"
  by (auto simp: bodies_within_def)

lemma bodies_within_mono: "bodies_within t ds \<Longrightarrow> length t \<le> length s \<Longrightarrow> set t \<subseteq> set s \<Longrightarrow> bodies_within s ds"
  by (fastforce simp: bodies_within_def)

lemma split_cases:
  "split_bicep_declarations len s \<noteq> Pending \<and> (\<forall>ds. split_bicep_declarations len s = Ret ds \<longrightarrow> bodies_within s ds)"
proof (induction "length s" arbitrary: s rule: less_induct)
  case less
  define s1 s2 where s1_def: "s1 = dropWhile ascii_ws s"
    and s2_def: "s2 = dropWhile (\<lambda>c. ascii_ws c \<and> c \<noteq> newline) (dropWhile (\<lambda>c. \<not> ascii_ws c) s1)"
  have s1: "length s1 \<le> length s" "set s1 \<subseteq> set s" unfolding s1_def by (rule length_dropWhile_le set_dropWhile_subset)+
  have s2: "length s2 \<le> length s" "set s2 \<subseteq> set s"
    using s1 length_dropWhile_le set_dropWhile_subset unfolding s2_def by (meson order_trans)+
  consider (none) "s1 = []" | (panic) "s1 \<noteq> []" "at_comment s1 = Panic" | (skip) "s1 \<noteq> []" "at_comment s1 = Ret True"
    | (decl) "s1 \<noteq> []" "at_comment s1 = Ret False" using at_comment_cases by blast
  then show ?case
  proof cases
    case none
    then show ?thesis using split_step(1) [of s len] by (simp add: s1_def bodies_within_def)
  next
    case panic
    then show ?thesis using split_panic [of s len] by (simp add: s1_def)
  next
    case skip
    have "length (skip_line s1) < length s" using at_comment_True [OF skip(2)] s1(1) by simp
    moreover have "set (skip_line s1) \<subseteq> set s" using skip_line_subset s1(2) by blast
    ultimately show ?thesis
      using less [of "skip_line s1"] split_step(2) [OF s1_def [symmetric] skip, of len] bodies_within_mono [of "skip_line s1" _ s] by auto
  next
    case decl
    note eq = split_step(3) [OF s1_def [symmetric] decl s2_def [symmetric], of len]
    have rest: "split_bicep_declarations len s5 \<noteq> Pending \<and> (\<forall>ds. split_bicep_declarations len s5 = Ret ds \<longrightarrow> bodies_within s ds) \<and>
        length body \<le> length s \<and> set body \<subseteq> set s"
      if "read_quoted_string len s2 = Ret (name, s3)" "s4 = dropWhile (\<lambda>c. ascii_ws c \<or> c = CHR ''='') s3" "s4 \<noteq> []"
        "read_braced_block s4 = Ret (body, s5)" for name s3 s4 body s5
    proof -
      have "length s4 \<le> length s3" "set s4 \<subseteq> set s3" unfolding that(2) by (rule length_dropWhile_le set_dropWhile_subset)+
      then have len: "length body \<le> length s" "length s5 < length s"
        using read_quoted_shorter [OF that(1)] read_braced_shorter [OF that(4,3)] s2(1) by simp_all
      have sets: "set body \<subseteq> set s" "set s5 \<subseteq> set s"
        using read_quoted_subset [OF that(1)] read_braced_subset [OF that(4)] s2(2) \<open>set s4 \<subseteq> set s3\<close> by blast+
      show ?thesis using less [OF len(2)] bodies_within_mono [of s5 _ s] len sets by auto
    qed
    show ?thesis
    proof (cases "\<exists>name s3. read_quoted_string len s2 = Ret (name, s3)")
      case True
      then obtain name s3 where q: "read_quoted_string len s2 = Ret (name, s3)" by blast
      define s4 where "s4 = dropWhile (\<lambda>c. ascii_ws c \<or> c = CHR ''='') s3"
      show ?thesis
      proof (cases "s4 \<noteq> [] \<and> hd s4 = CHR ''{'' \<and> (\<exists>body s5. read_braced_block s4 = Ret (body, s5))")
        case True
        then obtain body s5 where b: "read_braced_block s4 = Ret (body, s5)" by blast
        note r = rest [OF q s4_def _ b]
        have "split_bicep_declarations len s =
            run_bind (split_bicep_declarations len s5) (\<lambda>ds. Ret ((takeWhile (\<lambda>c. \<not> ascii_ws c) s1, name, body) # ds))"
          using True b by (simp add: eq q s4_def [symmetric] Let_def del: dropWhile_eq_Nil_conv)
        then show ?thesis using r True by (cases "split_bicep_declarations len s5") simp_all
      qed (use q in \<open>cases "read_braced_block s4"; auto simp: eq s4_def [symmetric] Let_def simp del: dropWhile_eq_Nil_conv\<close>)
    qed (cases "read_quoted_string len s2", auto simp: eq)
  qed
qed

section \<open>When the parser returns\<close>

lemma skip_subset: "skip_ws_and_comments s = Ret t \<Longrightarrow> set t \<subseteq> set s"
proof (induction s rule: skip_ws_and_comments.induct)
  case (1 s)
  let ?s1 = "dropWhile ascii_ws s"
  obtain c where c: "at_comment ?s1 = Ret c" and t: "(if c then skip_ws_and_comments (skip_line ?s1) else Ret ?s1) = Ret t"
    using "1.prems" by (subst (asm) skip_ws_and_comments.simps) (auto simp: Let_def bind_Ret)
  have "set t \<subseteq> set ?s1" using "1.IH" [OF refl c] t skip_line_subset [of ?s1] by (simp split: if_splits)
  then show ?case by (rule subset_trans [OF _ set_dropWhile_subset])
qed

lemma parse_subset:
  "parse_bicep_value n s = Ret (v, r) \<Longrightarrow> set r \<subseteq> set s"
  "parse_array n s = Ret (vs, r) \<Longrightarrow> set r \<subseteq> set s"
proof (induction n arbitrary: s v vs r)
  case (Suc n)
  {
    case 1
    then obtain t where t: "skip_ws_and_comments s = Ret t" "t \<noteq> []" by (auto simp: bind_Ret split: if_splits)
    consider (quote) b where "read_quoted_string 0 t = Ret (b, r)" | (array) vs' where "parse_array n (tl t) = Ret (vs', r)"
      | (block) b where "read_braced_block t = Ret (b, r)" | (token) "r = dropWhile token_char t"
      using 1 t by (auto simp: bind_Ret split: if_splits)
    then have "set r \<subseteq> set t"
    proof cases
      case array
      show ?thesis by (rule subset_trans [OF Suc.IH(2) [OF array] set_tl_subset])
    next
      case quote
      show ?thesis by (rule read_quoted_subset [OF quote])
    next
      case block
      then show ?thesis by (simp add: read_braced_subset)
    qed (simp add: set_dropWhile_subset)
    then show ?case using skip_subset [OF t(1)] by blast
  next
    case 2
    then obtain t where t: "skip_ws_and_comments s = Ret t" "t \<noteq> []" by (auto simp: bind_Ret split: if_splits)
    consider (stop) "r = tl t" | (comma) "parse_array n (tl t) = Ret (vs, r)"
      | (item) v' r' vs' where "parse_bicep_value n t = Ret (v', r')" "parse_array n r' = Ret (vs', r)"
      using 2 t by (auto simp: bind_Ret split: if_splits)
    then have "set r \<subseteq> set t"
    proof cases
      case comma
      show ?thesis by (rule subset_trans [OF Suc.IH(2) [OF comma] set_tl_subset])
    next
      case item
      show ?thesis by (rule subset_trans [OF Suc.IH(2) [OF item(2)] Suc.IH(1) [OF item(1)]])
    qed (simp add: set_tl_subset)
    then show ?case using skip_subset [OF t(1)] by blast
  }
qed simp_all

text \<open>The value of a key: where it starts.\<close>

lemma read_key_rest:
  assumes "read_key t = Ret (key, s1)" "dropWhile (\<lambda>c. c \<noteq> CHR '':'') s1 \<noteq> []"
    and "u = skip_ws_inline (tl (dropWhile (\<lambda>c. c \<noteq> CHR '':'') s1))"
  shows "length u < length t \<and> set u \<subseteq> set t"
proof -
  let ?d = "dropWhile (\<lambda>c. c \<noteq> CHR '':'') s1"
  have "length s1 \<le> length t"
    using assms(1) read_quoted_shorter [of 0 t key s1] length_dropWhile_le [of "\<lambda>c. c \<noteq> CHR '':'' \<and> \<not> ascii_ws c" t]
    by (auto simp: read_key_def split: if_splits)
  moreover have "set s1 \<subseteq> set t"
    using assms(1) read_quoted_subset [of 0 t key s1] set_dropWhile_subset [of "\<lambda>c. c \<noteq> CHR '':'' \<and> \<not> ascii_ws c" t]
    by (auto simp: read_key_def split: if_splits)
  moreover have "length ?d \<le> length s1" "set ?d \<subseteq> set s1" by (rule length_dropWhile_le set_dropWhile_subset)+
  moreover have "length u \<le> length (tl ?d)" "set u \<subseteq> set (tl ?d)"
    unfolding assms(3) skip_ws_inline_def by (rule length_dropWhile_le set_dropWhile_subset)+
  moreover have "length (tl ?d) < length ?d" "set (tl ?d) \<subseteq> set ?d" using assms(2) set_tl_subset by simp_all
  ultimately show ?thesis by (meson le_less_trans less_le_trans subset_trans)
qed

text \<open>A text without an array, or without a closing brace, is read to its end.\<close>

lemma bicep_value_returns:
  "CHR ''['' \<notin> set s \<or> CHR ''}'' \<notin> set s \<Longrightarrow> 2 * length s + 1 \<le> n \<Longrightarrow> parse_bicep_value n s \<noteq> Pending"
  "CHR ''}'' \<notin> set s \<Longrightarrow> 2 * length s + 2 \<le> n \<Longrightarrow> parse_array n s \<noteq> Pending"
  "CHR ''['' \<notin> set s \<or> CHR ''}'' \<notin> set s \<Longrightarrow> 2 * length s + 1 \<le> n \<Longrightarrow> parse_bicep_kv n s \<noteq> Pending"
proof (induction n arbitrary: s)
  case (Suc n)
  {
    case 1
    show ?case
    proof
      assume p: "parse_bicep_value (Suc n) s = Pending"
      then obtain t where t: "skip_ws_and_comments s = Ret t" "t \<noteq> []" by (auto simp: bind_Pending split: if_splits)
      have len: "2 * length t \<le> n" using skip_result [OF t(1)] 1(2) by simp
      have sub: "set t \<subseteq> set s" by (rule skip_subset [OF t(1)])
      consider (array) "hd t = CHR ''[''" "parse_array n (tl t) = Pending"
        | (block) b r where "read_braced_block t = Ret (b, r)" "parse_bicep_kv n b = Pending"
        using p t by (auto simp: bind_Pending split: if_splits)
      then show False
      proof cases
        case array
        have "CHR ''['' \<in> set s" using hd_in_set [OF t(2)] array(1) sub by auto
        then have "CHR ''}'' \<notin> set (tl t)" using 1(1) sub set_tl_subset [of t] by blast
        then show False using Suc.IH(2) [of "tl t"] array(2) len t(2) by (cases t) simp_all
      next
        case block
        have "length b + 2 \<le> length t" "set b \<subseteq> set s"
          using read_braced_shorter [OF block(1) t(2)] read_braced_subset [OF block(1)] sub by auto
        then show False using Suc.IH(3) [of b] block(2) len 1(1) by fastforce
      qed
    qed
  next
    case 2
    show ?case
    proof
      assume p: "parse_array (Suc n) s = Pending"
      then obtain t where t: "skip_ws_and_comments s = Ret t" "t \<noteq> []" by (auto simp: bind_Pending split: if_splits)
      have len: "2 * length t + 1 \<le> n" and idem: "skip_ws_and_comments t = Ret t" using skip_result [OF t(1)] 2(2) by simp_all
      have free: "CHR ''}'' \<notin> set t" using skip_subset [OF t(1)] 2(1) by blast
      consider (comma) "parse_array n (tl t) = Pending" | (item) "parse_bicep_value n t = Pending"
        | (rest) v r where "hd t \<noteq> CHR '',''" "hd t \<noteq> CHR '']''" "parse_bicep_value n t = Ret (v, r)" "parse_array n r = Pending"
        using p t by (auto simp: bind_Pending split: if_splits)
      then show False
      proof cases
        case comma
        have "CHR ''}'' \<notin> set (tl t)" using free set_tl_subset [of t] by blast
        then show False using Suc.IH(2) [of "tl t"] comma len t(2) by (cases t) simp_all
      next
        case item
        then show False using Suc.IH(1) [of t] free len by simp
      next
        case rest
        have "hd t \<noteq> CHR ''}''" using free hd_in_set [OF t(2)] by auto
        then have "length r < length t" by (rule item_progress [OF rest(3) idem t(2) rest(2,1)])
        moreover have "CHR ''}'' \<notin> set r" using free parse_subset(1) [OF rest(3)] by blast
        ultimately show False using Suc.IH(2) [of r] rest(4) len by simp
      qed
    qed
  next
    case 3
    show ?case
    proof
      assume p: "parse_bicep_kv (Suc n) s = Pending"
      then obtain t where s: "s \<noteq> []" and t: "skip_ws_and_comments s = Ret t" "t \<noteq> []"
        by (auto simp: bind_Pending split: if_splits)
      have len: "2 * length t \<le> n" using skip_result [OF t(1)] 3(2) by simp
      have free: "CHR ''['' \<notin> set x \<or> CHR ''}'' \<notin> set x" if "set x \<subseteq> set t" for x
        using that skip_subset [OF t(1)] 3(1) by blast
      show False
      proof (cases "hd t = CHR '',''")
        case True
        then show False using p s t Suc.IH(3) [of "tl t"] free [OF set_tl_subset] len by (cases t) simp_all
      next
        case False
        obtain key s1 where k: "read_key t = Ret (key, s1)" "key \<noteq> []"
          and ne: "dropWhile (\<lambda>c. c \<noteq> CHR '':'') s1 \<noteq> []"
          using p s t False by (auto simp: bind_Pending Let_def split: if_splits)
        let ?u = "skip_ws_inline (tl (dropWhile (\<lambda>c. c \<noteq> CHR '':'') s1))"
        have u: "length ?u < length t" "set ?u \<subseteq> set t" using read_key_rest [OF k(1) ne refl] by simp_all
        consider (val) "parse_bicep_value n ?u = Pending"
          | (rest) v r where "parse_bicep_value n ?u = Ret (v, r)" "parse_bicep_kv n r = Pending"
          using p s t False k ne by (auto simp: bind_Pending Let_def split: if_splits)
        then show False
        proof cases
          case val
          then show False using Suc.IH(1) [of ?u] free [OF u(2)] u(1) len by simp
        next
          case rest
          have "length r \<le> length ?u" "set r \<subseteq> set t"
            using parse_shorter(1) [OF rest(1)] parse_subset(1) [OF rest(1)] u(2) by auto
          then show False using Suc.IH(3) [of r] free [of r] rest(2) u(1) len by simp
        qed
      qed
    qed
  }
qed simp_all

section \<open>Panics\<close>

lemma bind_Panic: "run_bind r f = Panic \<longleftrightarrow> r = Panic \<or> (\<exists>a. r = Ret a \<and> f a = Panic)"
  by (cases r) simp_all

definition single_bytes :: "string \<Rightarrow> bool" where
  "single_bytes s \<longleftrightarrow> (\<forall>c\<in>set s. \<not> is_cont_byte c)"

lemma single_bytes_subset: "single_bytes s \<Longrightarrow> set t \<subseteq> set s \<Longrightarrow> single_bytes t"
  by (auto simp: single_bytes_def)

lemma at_comment_safe: "single_bytes s \<Longrightarrow> at_comment s \<noteq> Panic"
  using hd_in_set [of s] nth_mem [of 2 s] by (cases "s = []") (auto simp: at_comment_def single_bytes_def)

lemma quoted_safe [simp]: "read_quoted_string n s \<noteq> Panic" "read_braced_block s \<noteq> Panic" "read_key s \<noteq> Panic"
  by (auto simp: read_quoted_string_def read_braced_block_def read_key_def Let_def split: option.splits)

lemma skip_safe: "single_bytes s \<Longrightarrow> skip_ws_and_comments s \<noteq> Panic"
proof (induction s rule: skip_ws_and_comments.induct)
  case (1 s)
  let ?s1 = "dropWhile ascii_ws s"
  have s1: "single_bytes ?s1" by (rule single_bytes_subset [OF "1.prems" set_dropWhile_subset])
  moreover have "single_bytes (skip_line ?s1)" by (rule single_bytes_subset [OF s1 skip_line_subset])
  ultimately show ?case using "1.IH" [OF refl] at_comment_safe [OF s1]
    by (subst skip_ws_and_comments.simps) (auto simp: Let_def bind_Panic)
qed

lemma parse_safe:
  "single_bytes s \<Longrightarrow> parse_bicep_value n s \<noteq> Panic"
  "single_bytes s \<Longrightarrow> parse_array n s \<noteq> Panic"
  "single_bytes s \<Longrightarrow> parse_bicep_kv n s \<noteq> Panic"
proof (induction n arbitrary: s)
  case (Suc n)
  {
    case 1
    have "parse_array n (tl t) \<noteq> Panic" "read_braced_block t = Ret (b, r) \<Longrightarrow> parse_bicep_kv n b \<noteq> Panic"
      if "skip_ws_and_comments s = Ret t" for t b r
      using Suc.IH(2,3) single_bytes_subset [OF 1] skip_subset [OF that] set_tl_subset [of t] read_braced_subset [of t b r]
      by (meson subset_trans)+
    then show ?case using skip_safe [OF 1] by (auto simp: bind_Panic split: if_splits)
  next
    case 2
    have "parse_array n (tl t) \<noteq> Panic" "parse_bicep_value n t \<noteq> Panic"
      "parse_bicep_value n t = Ret (v, r) \<Longrightarrow> parse_array n r \<noteq> Panic"
      if "skip_ws_and_comments s = Ret t" for t v r
      using Suc.IH(1,2) single_bytes_subset [OF 2] skip_subset [OF that] set_tl_subset [of t] parse_subset(1) [of n t v r]
      by (meson subset_trans)+
    then show ?case using skip_safe [OF 2] by (auto simp: bind_Panic split: if_splits)
  next
    case 3
    have "parse_bicep_kv n (tl t) \<noteq> Panic"
      "read_key t = Ret (key, s1) \<Longrightarrow> dropWhile (\<lambda>c. c \<noteq> CHR '':'') s1 \<noteq> [] \<Longrightarrow>
        u = skip_ws_inline (tl (dropWhile (\<lambda>c. c \<noteq> CHR '':'') s1)) \<Longrightarrow>
        parse_bicep_value n u \<noteq> Panic \<and> (parse_bicep_value n u = Ret (v, r) \<longrightarrow> parse_bicep_kv n r \<noteq> Panic)"
      if "skip_ws_and_comments s = Ret t" for t key s1 u v r
      using Suc.IH(1,3) single_bytes_subset [OF 3] skip_subset [OF that] set_tl_subset [of t] parse_subset(1) [of n u v r]
        read_key_rest [of t key s1 u]
      by (meson subset_trans)+
    then show ?case using skip_safe [OF 3] by (auto simp: bind_Panic Let_def simp del: dropWhile_eq_Nil_conv split: if_splits)
  }
qed simp_all

lemma split_safe: "single_bytes s \<Longrightarrow> split_bicep_declarations len s \<noteq> Panic"
proof (induction "length s" arbitrary: s rule: less_induct)
  case less
  define s1 s2 where s1_def: "s1 = dropWhile ascii_ws s"
    and s2_def: "s2 = dropWhile (\<lambda>c. ascii_ws c \<and> c \<noteq> newline) (dropWhile (\<lambda>c. \<not> ascii_ws c) s1)"
  have s1: "length s1 \<le> length s" "set s1 \<subseteq> set s" unfolding s1_def by (rule length_dropWhile_le set_dropWhile_subset)+
  have s2: "length s2 \<le> length s" "set s2 \<subseteq> set s"
    using s1 length_dropWhile_le set_dropWhile_subset unfolding s2_def by (meson order_trans)+
  have "at_comment s1 \<noteq> Panic" by (rule at_comment_safe [OF single_bytes_subset [OF less(2) s1(2)]])
  then consider (none) "s1 = []" | (skip) "s1 \<noteq> []" "at_comment s1 = Ret True"
    | (decl) "s1 \<noteq> []" "at_comment s1 = Ret False" using at_comment_cases by blast
  then show ?case
  proof cases
    case none
    then show ?thesis using split_step(1) [of s len] by (simp add: s1_def)
  next
    case skip
    have "length (skip_line s1) < length s" using at_comment_True [OF skip(2)] s1(1) by simp
    moreover have "single_bytes (skip_line s1)"
      by (rule single_bytes_subset [OF less(2) subset_trans [OF skip_line_subset s1(2)]])
    ultimately show ?thesis using less(1) split_step(2) [OF s1_def [symmetric] skip, of len] by simp
  next
    case decl
    have "split_bicep_declarations len s5 \<noteq> Panic"
      if q: "read_quoted_string len s2 = Ret (name, s3)" "s4 = dropWhile (\<lambda>c. ascii_ws c \<or> c = CHR ''='') s3" "s4 \<noteq> []"
        "read_braced_block s4 = Ret (body, s5)" for name s3 s4 body s5
    proof (rule less(1))
      have "length s4 \<le> length s3" "set s4 \<subseteq> set s3" unfolding q(2) by (rule length_dropWhile_le set_dropWhile_subset)+
      then show "length s5 < length s" "single_bytes s5"
        using read_quoted_shorter [OF q(1)] read_braced_shorter [OF q(4,3)] s2
          read_quoted_subset [OF q(1)] read_braced_subset [OF q(4)] single_bytes_subset [OF less(2), of s5] by (simp, blast)
    qed
    then show ?thesis unfolding split_step(3) [OF s1_def [symmetric] decl s2_def [symmetric]]
      by (auto simp: bind_Panic Let_def simp del: dropWhile_eq_Nil_conv split: if_splits)
  qed
qed

section \<open>The parser as a whole\<close>

lemma run_all_Cons [simp]: "run_all f (x # xs) = run_bind (f x) (\<lambda>y. run_bind (run_all f xs) (\<lambda>ys. Ret (y # ys)))"
  and run_all_Nil [simp]: "run_all f [] = Ret []"
  by (simp_all add: run_all_def)

lemma run_all_not:
  "(\<And>x. x \<in> set xs \<Longrightarrow> f x \<noteq> Pending) \<Longrightarrow> run_all f xs \<noteq> Pending"
  "(\<And>x. x \<in> set xs \<Longrightarrow> f x \<noteq> Panic) \<Longrightarrow> run_all f xs \<noteq> Panic"
  by (induction xs) (auto simp: bind_Pending bind_Panic)

lemma run_of_simps [simp]: "run_of r \<noteq> Pending" "run_of r \<noteq> Panic" "run_of r = Ret a \<longleftrightarrow> r = Inr a"
  by (cases r; simp add: run_of_def)+

lemma settles_declaration: "2 * length b + 1 \<le> N \<Longrightarrow> settles N (\<lambda>m. parse_bicep_declaration m t n b)"
  unfolding parse_bicep_declaration_def by (rule settles_bind [OF settles_kv]) simp_all

lemma declaration_Pending: "parse_bicep_declaration m t n b = Pending \<longleftrightarrow> parse_bicep_kv m b = Pending"
  by (auto simp: parse_bicep_declaration_def bind_Pending split: option.splits)

lemma declaration_Panic: "parse_bicep_declaration m t n b = Panic \<longleftrightarrow> parse_bicep_kv m b = Panic"
  by (auto simp: parse_bicep_declaration_def bind_Panic split: option.splits)

lemma settles_bicep: "settles (2 * length input + 1) (\<lambda>m. parse_bicep m input)"
proof -
  have "settles (2 * length input + 1) (\<lambda>m. run_all (\<lambda>(t, n, b). parse_bicep_declaration m t n b) ds)"
    if "split_bicep_declarations (length input) input = Ret ds" for ds
    using that split_cases [of "length input" input]
    by (auto intro!: settles_run_all settles_declaration simp: bodies_within_def)
  then show ?thesis unfolding parse_bicep_def by (intro settles_bind) simp_all
qed

lemma settles_dichotomy:
  "settles N f \<Longrightarrow> (\<exists>r. r \<noteq> Pending \<and> (\<forall>m\<ge>N. f m = r)) \<or> (\<forall>m. f m = Pending)"
  unfolding settles_def by metis

text \<open>Whether a body is read to its end without meeting the loop of an array at a closing brace can be seen from it
  when it has no array or no nested block.\<close>

definition simple_body :: "string \<Rightarrow> bool" where
  "simple_body b \<longleftrightarrow> CHR ''['' \<notin> set b \<or> CHR ''}'' \<notin> set b"

lemma bicep_simple_returns:
  assumes simple: "\<forall>ds t n b. split_bicep_declarations (length input) input = Ret ds \<and> (t, n, b) \<in> set ds \<longrightarrow> simple_body b"
    and fuel: "2 * length input + 1 \<le> fuel"
  shows "parse_bicep fuel input \<noteq> Pending"
proof -
  have "run_all (\<lambda>(t, n, b). parse_bicep_declaration fuel t n b) ds \<noteq> Pending"
    if ds: "split_bicep_declarations (length input) input = Ret ds" for ds
  proof (rule run_all_not(1), clarsimp simp: declaration_Pending)
    fix t n b
    assume b: "(t, n, b) \<in> set ds" "parse_bicep_kv fuel b = Pending"
    have "length b \<le> length input" using split_cases [of "length input" input] ds b(1) by (auto simp: bodies_within_def)
    moreover have "simple_body b" using simple ds b(1) by blast
    ultimately show False using bicep_value_returns(3) [of b fuel] fuel b(2) by (simp add: simple_body_def)
  qed
  then show ?thesis using split_cases [of "length input" input] by (simp add: parse_bicep_def bind_Pending)
qed

lemma bicep_safe:
  assumes "single_bytes input"
  shows "parse_bicep fuel input \<noteq> Panic"
proof -
  have "run_all (\<lambda>(t, n, b). parse_bicep_declaration fuel t n b) ds \<noteq> Panic"
    if ds: "split_bicep_declarations (length input) input = Ret ds" for ds
  proof (rule run_all_not(2), clarsimp simp: declaration_Panic)
    fix t n b
    assume b: "(t, n, b) \<in> set ds" "parse_bicep_kv fuel b = Panic"
    have "set b \<subseteq> set input" using split_cases [of "length input" input] ds b(1) by (auto simp: bodies_within_def)
    then show False using parse_safe(3) [OF single_bytes_subset [OF assms]] b(2) by blast
  qed
  then show ?thesis using split_safe [OF assms] by (simp add: parse_bicep_def bind_Panic)
qed

text \<open>C29. On every text the parser either returns one result for any fuel from twice the length of the text on, or it
  never returns; it returns when every body is free of arrays or of nested blocks; and it does not panic on a text of
  single-byte characters.\<close>

theorem bicep_parser_returns:
  "((\<exists>r. r \<noteq> Pending \<and> (\<forall>fuel\<ge>2 * length input + 1. parse_bicep fuel input = r)) \<or>
      (\<forall>fuel. parse_bicep fuel input = Pending)) \<and>
   ((\<forall>ds t n b. split_bicep_declarations (length input) input = Ret ds \<and> (t, n, b) \<in> set ds \<longrightarrow> simple_body b) \<longrightarrow>
      (\<forall>fuel\<ge>2 * length input + 1. parse_bicep fuel input \<noteq> Pending)) \<and>
   (single_bytes input \<longrightarrow> (\<forall>fuel. parse_bicep fuel input \<noteq> Panic))"
  using settles_dichotomy [OF settles_bicep] bicep_simple_returns bicep_safe by blast

definition dq_string :: "string \<Rightarrow> string" where
  "dq_string s = dquote # s @ [dquote]"

definition ex_bicep :: string where
  "ex_bicep = ''product '' @ dq_string ''p'' @ '' = { version: '' @ dq_string ''1'' @ '' }''"

definition ex_body :: string where
  "ex_body = '' version: '' @ dq_string ''1'' @ '' ''"

theorem bicep_parser_returns_witness:
  "\<exists>r. r \<noteq> Pending \<and> r \<noteq> Panic \<and> (\<forall>fuel\<ge>2 * length ex_bicep + 1. parse_bicep fuel ex_bicep = r)"
proof -
  have split: "split_bicep_declarations (length ex_bicep) ex_bicep = Ret [(''product'', ''p'', ex_body)]" by code_simp
  have "single_bytes ex_bicep" by code_simp
  moreover have "simple_body ex_body" by code_simp
  ultimately show ?thesis using bicep_parser_returns [of ex_bicep] split by fastforce
qed

text \<open>A closing brace in an array makes the parser run forever.\<close>

definition ex_looping :: string where
  "ex_looping = ''container '' @ dq_string ''c'' @ '' = { ports: [ a{} ] }''"

lemma looping_array: "parse_array n '' a{} ] '' = Pending"
proof (cases n)
  case (Suc m)
  have skip: "skip_ws_and_comments '' a{} ] '' = Ret ''a{} ] ''" "skip_ws_and_comments ''a{} ] '' = Ret ''a{} ] ''"
    "skip_ws_and_comments ''} ] '' = Ret ''} ] ''" by code_simp+
  have rest: "dropWhile token_char ''a{} ] '' = ''} ] ''" by code_simp
  have "parse_bicep_value m ''a{} ] '' = Pending \<or> (\<exists>v. parse_bicep_value m ''a{} ] '' = Ret (v, ''} ] ''))"
    using skip(2) rest by (cases m) (simp_all add: is_quote_def)
  then show ?thesis using Suc skip stuck_array [OF skip(3), of m] by auto
qed simp

theorem bicep_diverges: "parse_bicep fuel ex_looping = Pending"
proof -
  let ?b = "'' ports: [ a{} ] ''"
  have skip: "skip_ws_and_comments ?b = Ret ''ports: [ a{} ] ''" "skip_ws_and_comments ''[ a{} ] '' = Ret ''[ a{} ] ''" by code_simp+
  have key: "read_key ''ports: [ a{} ] '' = Ret (''ports'', '': [ a{} ] '')"
    "skip_ws_inline '' [ a{} ] '' = ''[ a{} ] ''" by code_simp+
  have "parse_bicep_value n ''[ a{} ] '' = Pending" for n
    using skip(2) looping_array by (cases n) (simp_all add: is_quote_def)
  then have "parse_bicep_kv fuel ?b = Pending" using skip(1) key by (cases fuel) simp_all
  moreover have "split_bicep_declarations (length ex_looping) ex_looping = Ret [(''container'', ''c'', ?b)]" by code_simp
  ultimately show ?thesis by (simp add: parse_bicep_def parse_bicep_declaration_def)
qed

text \<open>A string that starts with a character of two bytes makes the parser panic.\<close>

theorem bicep_panics:
  "parse_bicep 100 (''product '' @ dq_string ''p'' @ '' = { description: '' @ dq_string [CHR 0xC3, CHR 0xA9] @ '' }'') = Panic"
  by code_simp

section \<open>What is parsed\<close>

lemma product_shape: "parse_product n kv = Inr r \<Longrightarrow> decl_resource_type r = ''product'' \<and> decl_resource_name r = n"
  by (auto simp: parse_product_def Let_def and_then_Inr_iff)

lemma workload_shapes:
  "parse_volume n kv = Inr r \<Longrightarrow> decl_resource_type r = ''volume'' \<and> decl_resource_name r = n"
  "parse_container n kv = Inr r \<Longrightarrow> decl_resource_type r = ''container'' \<and> decl_resource_name r = n"
  "parse_binary n kv = Inr r \<Longrightarrow> decl_resource_type r = ''binary'' \<and> decl_resource_name r = n"
  "parse_event_subscription n kv = Inr r \<Longrightarrow> decl_resource_type r = ''event-subscription'' \<and> decl_resource_name r = n"
  "parse_ingress n kv = Inr r \<Longrightarrow> decl_resource_type r = ''ingress'' \<and> decl_resource_name r = n"
  "parse_secret_decl n kv = Inr r \<Longrightarrow> decl_resource_type r = ''secret'' \<and> decl_resource_name r = n"
  by (auto simp: parse_volume_def parse_container_def parse_binary_def parse_event_subscription_def parse_ingress_def
      parse_secret_decl_def and_then_Inr_iff)

lemma platform_shapes:
  "parse_role n kv = Inr r \<Longrightarrow> decl_resource_type r = ''role'' \<and> decl_resource_name r = n"
  "parse_config n kv = Inr r \<Longrightarrow> decl_resource_type r = ''config'' \<and> decl_resource_name r = n"
  "parse_feature_flag n kv = Inr r \<Longrightarrow> decl_resource_type r = ''feature-flag'' \<and> decl_resource_name r = n"
  "parse_group n kv = Inr r \<Longrightarrow> decl_resource_type r = ''group'' \<and> decl_resource_name r = n"
  "parse_inference_rule n kv = Inr r \<Longrightarrow> decl_resource_type r = ''inference-rule'' \<and> decl_resource_name r = n"
  "parse_scope n kv = Inr r \<Longrightarrow> decl_resource_type r = ''scope'' \<and> decl_resource_name r = n"
  "parse_m2m_permission n kv = Inr r \<Longrightarrow> decl_resource_type r = ''m2m-permission'' \<and> decl_resource_name r = n"
  by (auto simp: parse_role_def parse_config_def parse_feature_flag_def parse_group_def parse_inference_rule_def
      parse_scope_def parse_m2m_permission_def Let_def and_then_Inr_iff)

lemma data_shapes:
  "parse_capability n kv = Inr r \<Longrightarrow> decl_resource_type r = ''capability'' \<and> decl_resource_name r = n"
  "parse_data_domain n kv = Inr r \<Longrightarrow> decl_resource_type r = ''data-domain'' \<and> decl_resource_name r = n"
  "parse_data_product n kv = Inr r \<Longrightarrow> decl_resource_type r = ''data-product'' \<and> decl_resource_name r = n"
  by (auto simp: parse_capability_def parse_data_domain_def parse_data_product_def and_then_Inr_iff)

lemmas declaration_shapes = product_shape workload_shapes platform_shapes data_shapes

lemma declaration_shape:
  assumes "parse_bicep_declaration fuel t n b = Ret r"
  shows "decl_resource_type r = t \<and> decl_resource_name r = n"
proof -
  obtain kv p where "map_of declaration_parsers t = Some p" and p: "p n kv = Inr r"
    using assms by (auto simp: parse_bicep_declaration_def bind_Ret split: option.splits)
  then have "(t, p) \<in> set declaration_parsers" by (simp add: map_of_SomeD)
  then show ?thesis using p unfolding declaration_parsers_def by (auto dest: declaration_shapes)
qed

text \<open>A parsed file has one resource for every declaration of the text, in the same order, with its type and name.\<close>

theorem bicep_in_order:
  assumes "parse_bicep fuel input = Ret f"
  shows "\<exists>ds. split_bicep_declarations (length input) input = Ret ds \<and>
    map (\<lambda>r. (decl_resource_type r, decl_resource_name r)) (rf_resources f) = map (\<lambda>(t, n, b). (t, n)) ds"
proof -
  have all: "run_all (\<lambda>(t, n, b). parse_bicep_declaration fuel t n b) ds = Ret rs \<Longrightarrow>
      map (\<lambda>r. (decl_resource_type r, decl_resource_name r)) rs = map (\<lambda>(t, n, b). (t, n)) ds" for ds rs
    by (induction ds arbitrary: rs) (auto simp: bind_Ret dest: declaration_shape)
  show ?thesis using assms by (auto simp: parse_bicep_def bind_Ret dest: all)
qed

text \<open>Numbers and truth values of an environment become empty strings; the port of an ingress is cut to 16 bits.\<close>

theorem scalar_env_values_vanish:
  "env_of json_text (bicep_value_to_json (BNum n)) = Literal []"
  "env_of json_text (bicep_value_to_json (BBool b)) = Literal []"
  by (auto simp: env_of_def split: number.splits f64.splits)

theorem ingress_port_wraps:
  "parse_ingress ''i'' [(''product'', BStr ''p''), (''target'', BStr ''t''), (''path'', BStr ''/''), (''port'', BStr ''70000'')] =
    Inr (IngressDecl \<lparr>ing_name = ''i'', ing_product = ''p'', ing_target = ''t'', ing_port = 4464, ing_path = ''/'', ing_tls = True,
      ing_host = None, ing_internal = False, ing_tags = []\<rparr>)"
proof -
  have "parse_usize ''70000'' = Some 70000"
    by (simp add: parse_usize_def is_digit_def digits_val_def digit_val_def)
  then show ?thesis
    by (simp add: parse_ingress_def get_string_required_def get_string_optional_def get_u64_or_default_def get_bool_or_default_def
        get_tags_map_def first_object_def parse_u64_def)
qed

end
