(* ===== verification/Resource_Apply.thy ===== *)
theory Resource_Apply
  imports Event_Log Resource_Declarations
begin

text \<open>
  The apply and delete handlers (\<open>handle_apply\<close>, \<open>handle_delete\<close> of \<open>crates/picloud-http/src/implementation.rs\<close>). The event
  log is a record of its two operations on a state; the answers of the projector to its queries, the number of members
  and the encodings of library types to JSON are arguments. Envelopes take fresh identifiers and times by their number.
  The arrival of the request body is not modelled: the handler gets the parsed file.
\<close>

section \<open>JSON\<close>

definition jget :: "string \<Rightarrow> json_value \<Rightarrow> json_value option" where
  "jget k v = (case v of JvObject kvs \<Rightarrow> map_of kvs k | _ \<Rightarrow> None)"

definition as_str :: "json_value \<Rightarrow> string option" where
  "as_str v = (case v of JvString s \<Rightarrow> Some s | _ \<Rightarrow> None)"

definition as_bool :: "json_value \<Rightarrow> bool option" where
  "as_bool v = (case v of JvBool b \<Rightarrow> Some b | _ \<Rightarrow> None)"

definition as_u64 :: "json_value \<Rightarrow> nat option" where
  "as_u64 v = (case v of JvNumber (JInt i) \<Rightarrow> if 0 \<le> i \<and> i < 2 ^ 64 then Some (nat i) else None | _ \<Rightarrow> None)"

definition as_array :: "json_value \<Rightarrow> json_value list option" where
  "as_array v = (case v of JvArray vs \<Rightarrow> Some vs | _ \<Rightarrow> None)"

definition get_str :: "string \<Rightarrow> json_value \<Rightarrow> string option" where
  "get_str k v = Option.bind (jget k v) as_str"

definition opt_json :: "string option \<Rightarrow> json_value" where
  "opt_json v = (case v of Some s \<Rightarrow> JvString s | None \<Rightarrow> JvNull)"

definition str_array :: "string list \<Rightarrow> json_value" where
  "str_array vs = JvArray (map JvString vs)"

definition jnat :: "nat \<Rightarrow> json_value" where
  "jnat n = JvNumber (JInt (int n))"

definition opt_u32 :: "u32 option \<Rightarrow> json_value" where
  "opt_u32 v = (case v of Some n \<Rightarrow> jnat (unat n) | None \<Rightarrow> JvNull)"

definition error_body :: "string \<Rightarrow> json_value" where
  "error_body msg = JvObject [(''error'', JvString msg)]"

text \<open>The derived encodings of library-defined types (\<open>serde\<close>).\<close>

record serde_api =
  sd_env_to :: "env_value \<Rightarrow> json_value"
  sd_env_from :: "json_value \<Rightarrow> env_value option"
  sd_protocol_to :: "protocol \<Rightarrow> json_value"
  sd_port_from :: "json_value \<Rightarrow> port_mapping option"
  sd_mount_from :: "json_value \<Rightarrow> volume_mount option"
  sd_volume_type_from :: "json_value \<Rightarrow> volume_type option"

section \<open>Versions\<close>

definition version_parts :: "string \<Rightarrow> nat list" where
  "version_parts s = map (\<lambda>part. case parse_usize part of Some n \<Rightarrow> n | None \<Rightarrow> 0) (split_on (CHR ''.'') s)"

fun parts_at_least :: "nat list \<Rightarrow> nat list \<Rightarrow> bool" where
  "parts_at_least [] [] = True"
| "parts_at_least (a # as) [] = (if a > 0 then True else parts_at_least as [])"
| "parts_at_least [] (r # rs) = (if 0 < r then False else parts_at_least [] rs)"
| "parts_at_least (a # as) (r # rs) = (if a > r then True else if a < r then False else parts_at_least as rs)"

definition version_at_least :: "string \<Rightarrow> string \<Rightarrow> bool" where
  "version_at_least available required = parts_at_least (version_parts available) (version_parts required)"

section \<open>The environment of a request\<close>

type_synonym json_event = "json_value event_envelope"

record 'l event_log_api =
  el_append :: "json_event \<Rightarrow> 'l \<Rightarrow> unit result \<times> 'l"
  el_events :: "'l \<Rightarrow> json_event list"

record apply_env =
  aq_domain :: cluster_domain
  aq_correlation_id :: uuid
  aq_show_uuid :: "uuid \<Rightarrow> string"
  aq_fresh :: "nat \<Rightarrow> uuid"
  aq_now :: "nat \<Rightarrow> timestamp"
  aq_traceparent :: "string option"
  aq_members :: "nat result option"
  aq_query :: "(string \<Rightarrow> json_value list result) option"
  aq_json_text :: "json_value \<Rightarrow> string"
  aq_serde :: serde_api

section \<open>Existing products\<close>

definition product_scan :: "string \<Rightarrow> bool \<Rightarrow> json_event \<Rightarrow> bool" where
  "product_scan name b e =
     (if ev_type e = ''ProductDeployed'' then (if get_str ''product_name'' (ev_payload e) = Some name then True else b)
      else if ev_type e = ''ProductDeleted'' then (if get_str ''product_name'' (ev_payload e) = Some name then False else b)
      else b)"

definition product_in_log :: "json_event list \<Rightarrow> string \<Rightarrow> bool" where
  "product_in_log events name = foldl (product_scan name) False events"

definition query_rows :: "apply_env \<Rightarrow> string \<Rightarrow> json_value list option" where
  "query_rows env q =
     (case aq_query env of
        None \<Rightarrow> None
      | Some query \<Rightarrow> (case query q of Inr rows \<Rightarrow> Some rows | Inl _ \<Rightarrow> None))"

definition product_exists :: "apply_env \<Rightarrow> json_event list \<Rightarrow> string \<Rightarrow> bool" where
  "product_exists env events name =
     (if product_in_log events name then True
      else case query_rows env (''SELECT ?s WHERE { <'' @ iri_product (aq_domain env) name @
                 ''> a <https://picloud.local/ontology#Product> } LIMIT 1'') of
        Some rows \<Rightarrow> rows \<noteq> []
      | None \<Rightarrow> False)"

section \<open>Data product dependencies\<close>

record dep_scan =
  dn_exists :: bool
  dn_version :: "string option"
  dn_deleted :: bool

definition scan_event :: "string \<Rightarrow> string \<Rightarrow> string \<Rightarrow> dep_scan \<Rightarrow> json_event \<Rightarrow> dep_scan" where
  "scan_event dp_iri owning_product name_of_dp s evt =
     (let p = ev_payload evt in
      if ev_type evt = ''DataProductDeclared'' then
        (if get_str ''data_product_iri'' p = Some dp_iri \<or>
            (get_str ''name'' p = Some name_of_dp \<and> get_str ''product'' p = Some owning_product)
         then \<lparr>dn_exists = True, dn_version = (case get_str ''version'' p of Some v \<Rightarrow> Some v | None \<Rightarrow> dn_version s),
               dn_deleted = False\<rparr>
         else s)
      else if ev_type evt = ''DataProductDeleted'' then
        (if get_str ''data_product_iri'' p = Some dp_iri then s\<lparr>dn_deleted := True\<rparr> else s)
      else s)"

definition first_row :: "json_value list \<Rightarrow> string \<Rightarrow> json_value option" where
  "first_row rows k = (case rows of [] \<Rightarrow> None | b # _ \<Rightarrow> jget k b)"

definition em_dash :: string where
  "em_dash = [CHR 0xE2, CHR 0x80, CHR 0x94]"

definition check_dependency ::
  "apply_env \<Rightarrow> json_event list \<Rightarrow> product_decl \<Rightarrow> data_product_dep_decl \<Rightarrow> (nat \<times> json_value) option" where
  "check_dependency env events p dep =
     (case split_once slash (dpd_source dep) of
        None \<Rightarrow> Some (400, error_body (''DataProductNotFound: invalid dataProducts source '' @ [squote] @ dpd_source dep @ [squote] @
                  '' (expected '' @ [squote] @ ''owning-product/data-product-name'' @ [squote] @ '')''))
      | Some (owning_product, name_of_dp) \<Rightarrow>
          let dp_iri = trim_end_slashes (iri_product (aq_domain env) owning_product) @ ''/data-products/'' @ name_of_dp;
              s = foldl (scan_event dp_iri owning_product name_of_dp) \<lparr>dn_exists = False, dn_version = None, dn_deleted = False\<rparr> events;
              dp_exists = (dn_exists s \<and> \<not> dn_deleted s);
              hit = (\<not> dp_exists \<and>
                (case query_rows env (''ASK { <'' @ dp_iri @ ''> a <https://picloud.local/ontology#DataProduct> }'') of
                   Some rows \<Rightarrow> Option.bind (first_row rows ''result'') as_bool = Some True
                 | None \<Rightarrow> False));
              latest_version =
                (if hit then
                   (case query_rows env (''SELECT ?v WHERE { <'' @ dp_iri @ ''> <https://picloud.local/ontology#version> ?v } LIMIT 1'') of
                      Some rows \<Rightarrow> Option.bind (Option.bind (first_row rows ''v'') (jget ''value'')) as_str
                    | None \<Rightarrow> dn_version s)
                 else dn_version s)
          in if \<not> (dp_exists \<or> hit) then
               Some (400, error_body (''DataProductNotFound: '' @ [squote] @ dpd_source dep @ [squote] @ '' (required by product '' @
                 [squote] @ pd_name p @ [squote] @ '' '' @ em_dash @ '' minVersion '' @ [squote] @ dpd_min_version dep @ [squote] @ '')''))
             else (case latest_version of
                 Some available \<Rightarrow>
                   if \<not> version_at_least available (dpd_min_version dep) then
                     Some (400, error_body (''DataProductNotFound: '' @ [squote] @ dpd_source dep @ [squote] @ '' at minVersion '' @
                       [squote] @ dpd_min_version dep @ [squote] @ '' '' @ em_dash @ '' available version is '' @ [squote] @ available @ [squote]))
                   else None
               | None \<Rightarrow> None))"

fun check_dependencies ::
  "apply_env \<Rightarrow> json_event list \<Rightarrow> product_decl \<Rightarrow> data_product_dep_decl list \<Rightarrow> (nat \<times> json_value) option" where
  "check_dependencies env events p [] = None"
| "check_dependencies env events p (dep # deps) =
     (case check_dependency env events p dep of Some r \<Rightarrow> Some r | None \<Rightarrow> check_dependencies env events p deps)"

definition check_product_apply :: "apply_env \<Rightarrow> json_event list \<Rightarrow> product_decl \<Rightarrow> (nat \<times> json_value) option" where
  "check_product_apply env events p =
     (if product_exists env events (pd_name p) then
        Some (409, error_body (''product '' @ [squote] @ pd_name p @ [squote] @ '' already exists '' @ em_dash @
          '' use picloud resource apply --overwrite or delete first''))
      else check_dependencies env events p (pd_data_products p))"

section \<open>The event of a declaration\<close>

definition debug_durability :: "durability_tier \<Rightarrow> string" where
  "debug_durability t =
     (case t of FullReplication \<Rightarrow> ''FullReplication'' | Quorum \<Rightarrow> ''Quorum'' | Local \<Rightarrow> ''Local'' | NoDurability \<Rightarrow> ''None'')"

definition debug_performance :: "performance_tier \<Rightarrow> string" where
  "debug_performance t = (case t of Standard \<Rightarrow> ''Standard'' | Fast \<Rightarrow> ''Fast'' | Archive \<Rightarrow> ''Archive'')"

definition node_count :: "apply_env \<Rightarrow> nat" where
  "node_count env = (case aq_members env of None \<Rightarrow> 1 | Some (Inr n) \<Rightarrow> n | Some (Inl _) \<Rightarrow> 1)"

definition container_payload :: "apply_env \<Rightarrow> container_decl \<Rightarrow> json_value" where
  "container_payload env c =
     (let spec = container_to_spec (aq_json_text env) c in
      JvObject
       [(''resource_iri'', JvString (iri_resource (aq_domain env) (cd_product c) ''containers'' (cd_name c))),
        (''resource_type'', JvString ''Container''), (''product'', JvString (cd_product c)), (''name'', JvString (cd_name c)),
        (''image'', JvString (cs_image spec)), (''identity'', JvString (cs_identity spec)),
        (''ports'', JvArray (map (\<lambda>p. JvObject [(''port'', jnat (pt_port p)),
           (''protocol'', sd_protocol_to (aq_serde env) (pt_protocol p))]) (cs_ports spec))),
        (''mounts'', JvArray (map (\<lambda>m. JvObject [(''volume'', JvString (vt_volume m)), (''path'', JvString (vt_path m)),
           (''read_only'', JvBool (vt_read_only m))]) (cs_mounts spec))),
        (''env'', JvObject (map (\<lambda>(k, v). (k, sd_env_to (aq_serde env) v)) (cs_env spec))),
        (''cpu_millicores'', opt_u32 (rl_cpu_millicores (cs_resources spec))),
        (''memory_mb'', opt_u32 (rl_memory_mb (cs_resources spec)))])"

text \<open>The IRI, the type of the event, its product and its payload; nothing for the kinds the handler passes over.\<close>

fun declare_resource :: "apply_env \<Rightarrow> resource_declaration \<Rightarrow> (resource_iri \<times> string \<times> string option \<times> json_value) option" where
  "declare_resource env (ProductDecl p) =
     (let iri = iri_product (aq_domain env) (pd_name p) in
      Some (iri, ''ProductDeployed'', None, JvObject
       [(''product_iri'', JvString iri), (''product_name'', JvString (pd_name p)), (''version'', JvString (pd_version p)),
        (''description'', opt_json (pd_description p)),
        (''data_products'', JvArray (map (\<lambda>d. JvObject [(''source'', JvString (dpd_source d)),
           (''min_version'', JvString (dpd_min_version d))]) (pd_data_products p)))]))"
| "declare_resource env (VolumeDecl v) =
     (let iri = iri_resource (aq_domain env) (vd_product v) ''volumes'' (vd_name v); intent = volume_storage_intent v in
      Some (iri, ''ResourceDeclared'', Some (vd_product v), JvObject
       [(''resource_iri'', JvString iri), (''resource_type'', JvString ''Volume''), (''product'', JvString (vd_product v)),
        (''name'', JvString (vd_name v)), (''size_gb'', jnat (unat (vd_size_gb v))),
        (''durability'', JvString (debug_durability (si_durability intent))),
        (''performance'', JvString (debug_performance (si_performance intent))),
        (''node_count'', jnat (node_count env)), (''replication_factor'', jnat (node_count env))]))"
| "declare_resource env (ContainerDecl c) =
     Some (iri_resource (aq_domain env) (cd_product c) ''containers'' (cd_name c), ''ResourceDeclared'', Some (cd_product c),
       container_payload env c)"
| "declare_resource env (BinaryDecl b) =
     (let iri = iri_resource (aq_domain env) (bd_product b) ''binaries'' (bd_name b) in
      Some (iri, ''ResourceDeclared'', Some (bd_product b), JvObject
       [(''resource_iri'', JvString iri), (''resource_type'', JvString ''Binary''), (''product'', JvString (bd_product b)),
        (''name'', JvString (bd_name b)), (''executable'', JvString (bd_executable b))]))"
| "declare_resource env (EventSubscriptionDecl e) =
     (let iri = iri_resource (aq_domain env) (esd_product e) ''event-subscriptions'' (esd_name e) in
      Some (iri, ''ResourceDeclared'', Some (esd_product e), JvObject
       [(''resource_iri'', JvString iri), (''resource_type'', JvString ''EventSubscription''), (''product'', JvString (esd_product e)),
        (''name'', JvString (esd_name e)), (''source'', JvString (esd_source e)), (''event'', JvString (esd_event e)),
        (''handler'', JvString (esd_handler e))]))"
| "declare_resource env (IngressDecl i) =
     (let iri = iri_resource (aq_domain env) (ing_product i) ''ingresses'' (ing_name i) in
      Some (iri, ''ResourceDeclared'', Some (ing_product i), JvObject
       [(''resource_iri'', JvString iri), (''resource_type'', JvString ''Ingress''), (''product'', JvString (ing_product i)),
        (''name'', JvString (ing_name i)), (''hostname'', opt_json (ing_host i)), (''host'', opt_json (ing_host i)),
        (''target'', JvString (ing_target i)), (''port'', jnat (ing_port i)), (''path'', JvString (ing_path i)),
        (''tls'', JvBool (ing_tls i))]))"
| "declare_resource env (SecretDecl s) =
     (let iri = iri_resource (aq_domain env) (sed_product s) ''secrets'' (sed_name s) in
      Some (iri, ''ResourceDeclared'', Some (sed_product s), JvObject
       [(''resource_iri'', JvString iri), (''resource_type'', JvString ''Secret''), (''product'', JvString (sed_product s)),
        (''name'', JvString (sed_name s))]))"
| "declare_resource env (RoleDecl r) =
     (let product = (case rol_product r of Some p \<Rightarrow> p | None \<Rightarrow> []);
          iri = iri_resource (aq_domain env) (if product = [] then ''platform'' else product) ''roles'' (rol_name r) in
      Some (iri, ''ResourceDeclared'', rol_product r, JvObject
       [(''resource_iri'', JvString iri), (''resource_type'', JvString ''Role''), (''product'', opt_json (rol_product r)),
        (''name'', JvString (rol_name r)), (''permissions'', str_array (rol_permissions r))]))"
| "declare_resource env (ConfigDecl c) =
     (let iri = iri_product_config (aq_domain env) (cfd_product c) in
      Some (iri, ''ResourceDeclared'', Some (cfd_product c), JvObject
       [(''resource_iri'', JvString iri), (''resource_type'', JvString ''ConfigStore''), (''product'', JvString (cfd_product c)),
        (''name'', JvString (cfd_name c)),
        (''entries'', JvArray (map (\<lambda>e. JvObject [(''key'', JvString (ced_key e)), (''value'', JvString (ced_value e)),
           (''type'', JvString (ced_config_type e)), (''tags'', JvObject (map (\<lambda>(k, v). (k, JvString v)) (ced_tags e)))])
           (cfd_entries c)))]))"
| "declare_resource env (FeatureFlagDecl f) =
     (let iri = iri_feature_flag (aq_domain env) (ffd_product f) (ffd_name f) in
      Some (iri, ''ResourceDeclared'', Some (ffd_product f), JvObject
       [(''resource_iri'', JvString iri), (''resource_type'', JvString ''FeatureFlag''), (''product'', JvString (ffd_product f)),
        (''name'', JvString (ffd_name f)), (''description'', opt_json (ffd_description f)), (''enabled'', JvBool (ffd_enabled f)),
        (''version'', JvString (ffd_version f))]))"
| "declare_resource env (GroupDecl g) =
     (let iri = iri_group (aq_domain env) (grd_name g) in
      Some (iri, ''ResourceDeclared'', None, JvObject
       [(''resource_iri'', JvString iri), (''resource_type'', JvString ''Group''), (''name'', JvString (grd_name g)),
        (''description'', opt_json (grd_description g)), (''roles'', str_array (grd_roles g))]))"
| "declare_resource env (InferenceRuleDecl r) =
     (let iri = iri_inference_rule (aq_domain env) (ird_name r) in
      Some (iri, ''ResourceDeclared'', None, JvObject
       [(''resource_iri'', JvString iri), (''resource_type'', JvString ''InferenceRule''), (''name'', JvString (ird_name r)),
        (''description'', opt_json (ird_description r)), (''scope'', JvString (ird_scope r)), (''trigger'', JvString (ird_trigger r)),
        (''trigger_events'', str_array (ird_trigger_events r)), (''reconciliation'', JvBool (ird_reconciliation r)),
        (''construct_query'', JvString (ird_construct r))]))"
| "declare_resource env (ScopeDecl _) = None"
| "declare_resource env (M2mPermissionDecl _) = None"
| "declare_resource env (CapabilityDecl c) =
     (let iri = iri_cluster_resource (aq_domain env) ''capabilities'' (cad_name c) in
      Some (iri, ''CapabilityDeclared'', None, JvObject
       [(''capability_iri'', JvString iri), (''name'', JvString (cad_name c)), (''version'', JvString (cad_version c)),
        (''input_event'', JvString (cev_input (cad_events c))), (''output_event'', JvString (cev_output (cad_events c)))]))"
| "declare_resource env (DataDomainDecl d) =
     (let iri = iri_cluster_resource (aq_domain env) ''data-domains'' (ddd_name d) in
      Some (iri, ''DataDomainDeclared'', None, JvObject
       [(''domain_iri'', JvString iri), (''name'', JvString (ddd_name d)), (''steward'', JvString (ddd_steward d)),
        (''sensitivity'', JvString (ddd_sensitivity d))]))"
| "declare_resource env (DataProductDecl d) =
     (let iri = iri_resource (aq_domain env) (dp_product d) ''data-products'' (dp_name d) in
      Some (iri, ''DataProductDeclared'', Some (dp_product d), JvObject
       [(''data_product_iri'', JvString iri), (''name'', JvString (dp_name d)), (''product'', JvString (dp_product d)),
        (''domain'', JvString (dp_domain d)), (''version'', JvString (dp_version d))]))"

text \<open>The IRI the tags of a resource are attached to.\<close>

fun tag_target :: "cluster_domain \<Rightarrow> resource_declaration \<Rightarrow> resource_iri" where
  "tag_target d (ProductDecl p) = iri_product d (pd_name p)"
| "tag_target d (VolumeDecl v) = iri_resource d (vd_product v) ''volumes'' (vd_name v)"
| "tag_target d (ContainerDecl c) = iri_resource d (cd_product c) ''containers'' (cd_name c)"
| "tag_target d (BinaryDecl b) = iri_resource d (bd_product b) ''binaries'' (bd_name b)"
| "tag_target d (EventSubscriptionDecl e) = iri_resource d (esd_product e) ''event-subscriptions'' (esd_name e)"
| "tag_target d (IngressDecl i) = iri_resource d (ing_product i) ''ingresses'' (ing_name i)"
| "tag_target d (SecretDecl s) = iri_resource d (sed_product s) ''secrets'' (sed_name s)"
| "tag_target d (RoleDecl r) = iri_resource d (case rol_product r of Some p \<Rightarrow> p | None \<Rightarrow> ''platform'') ''roles'' (rol_name r)"
| "tag_target d (ConfigDecl c) = iri_product_config d (cfd_product c)"
| "tag_target d (FeatureFlagDecl f) = iri_feature_flag d (ffd_product f) (ffd_name f)"
| "tag_target d (GroupDecl g) = iri_group d (grd_name g)"
| "tag_target d (InferenceRuleDecl r) = iri_inference_rule d (ird_name r)"
| "tag_target d (ScopeDecl s) = iri_resource d (scd_product s) ''scopes'' (scd_name s)"
| "tag_target d (M2mPermissionDecl m) = iri_resource d (mpd_product m) ''m2m-permissions'' (mpd_name m)"
| "tag_target d (CapabilityDecl c) = iri_cluster_resource d ''capabilities'' (cad_name c)"
| "tag_target d (DataDomainDecl x) = iri_cluster_resource d ''data-domains'' (ddd_name x)"
| "tag_target d (DataProductDecl x) = iri_resource d (dp_product x) ''data-products'' (dp_name x)"

section \<open>Applying a file\<close>

definition declaration_event :: "apply_env \<Rightarrow> nat \<Rightarrow> resource_declaration \<Rightarrow> resource_iri \<times> string \<times> string option \<times> json_value \<Rightarrow> json_event" where
  "declaration_event env n decl parts =
     (case parts of (iri, event_type, product, payload) \<Rightarrow>
        (with_idempotency_key
           (''apply-'' @ decl_resource_type decl @ ''-'' @ decl_resource_name decl @ ''-'' @ aq_show_uuid env (aq_correlation_id env))
           (event_envelope_new (aq_fresh env n) (aq_now env n) (iri_event_schema (aq_domain env) event_type 1) event_type iri product
             (aq_correlation_id env) payload))\<lparr>ev_traceparent := aq_traceparent env\<rparr>)"

definition tag_event :: "apply_env \<Rightarrow> nat \<Rightarrow> resource_declaration \<Rightarrow> string \<times> string \<Rightarrow> json_event" where
  "tag_event env n decl kv =
     (let target = tag_target (aq_domain env) decl in
      event_envelope_new (aq_fresh env n) (aq_now env n) (iri_event_schema (aq_domain env) ''TagAdded'' 1) ''TagAdded'' target
        (decl_product_name decl) (aq_correlation_id env)
        (JvObject [(''resource_iri'', JvString target), (''key'', JvString (fst kv)), (''value'', JvString (snd kv))]))"

text \<open>A tag that cannot be appended is only logged.\<close>

fun append_tags :: "apply_env \<Rightarrow> 'l event_log_api \<Rightarrow> resource_declaration \<Rightarrow> tags \<Rightarrow> nat \<times> 'l \<Rightarrow> nat \<times> 'l" where
  "append_tags env el decl [] nl = nl"
| "append_tags env el decl (kv # kvs) (n, l) = append_tags env el decl kvs (Suc n, snd (el_append el (tag_event env n decl kv) l))"

definition result_row :: "resource_declaration \<Rightarrow> (string \<times> json_value) list \<Rightarrow> json_value" where
  "result_row decl extra = JvObject ([(''name'', JvString (decl_resource_name decl)), (''type'', JvString (decl_resource_type decl))] @ extra)"

definition apply_check :: "apply_env \<Rightarrow> json_event list \<Rightarrow> resource_declaration \<Rightarrow> (nat \<times> json_value) option" where
  "apply_check env events decl = (case decl of ProductDecl p \<Rightarrow> check_product_apply env events p | _ \<Rightarrow> None)"

fun apply_each ::
  "apply_env \<Rightarrow> 'l event_log_api \<Rightarrow> resource_declaration list \<Rightarrow> json_value list \<Rightarrow> nat \<times> 'l \<Rightarrow> (nat \<times> json_value) \<times> 'l" where
  "apply_each env el [] results (n, l) =
     ((200, JvObject [(''correlationId'', JvString (aq_show_uuid env (aq_correlation_id env))), (''results'', JvArray results)]), l)"
| "apply_each env el (decl # decls) results (n, l) =
     (case apply_check env (el_events el l) decl of
        Some response \<Rightarrow> (response, l)
      | None \<Rightarrow>
          (case declare_resource env decl of
             None \<Rightarrow> apply_each env el decls results (n, l)
           | Some parts \<Rightarrow>
               (case el_append el (declaration_event env n decl parts) l of
                  (Inr _, l) \<Rightarrow>
                    apply_each env el decls (results @ [result_row decl [(''status'', JvString ''declared'')]])
                      (append_tags env el decl (decl_tags decl) (Suc n, l))
                | (Inl e, l) \<Rightarrow>
                    apply_each env el decls (results @ [result_row decl [(''status'', JvString ''failed''),
                      (''error'', JvString (show_error (aq_show_uuid env) e))]]) (Suc n, l))))"

definition handle_apply :: "apply_env \<Rightarrow> 'l event_log_api option \<Rightarrow> resource_file \<Rightarrow> 'l \<Rightarrow> (nat \<times> json_value) \<times> 'l" where
  "handle_apply env log f l =
     (case log of
        None \<Rightarrow> ((503, error_body ''event log not available''), l)
      | Some el \<Rightarrow>
          (case file_validate f of
             Inl e \<Rightarrow> ((400, error_body (show_error (aq_show_uuid env) e)), l)
           | Inr _ \<Rightarrow> apply_each env el (rf_resources (sort_for_provisioning f)) [] (0, l)))"

definition handle_delete :: "apply_env \<Rightarrow> 'l event_log_api option \<Rightarrow> string \<Rightarrow> 'l \<Rightarrow> (nat \<times> json_value) \<times> 'l" where
  "handle_delete env log product l =
     (case log of
        None \<Rightarrow> ((503, error_body ''event log not available''), l)
      | Some el \<Rightarrow>
          let product_iri = iri_product (aq_domain env) product;
              envelope = event_envelope_new (aq_fresh env 0) (aq_now env 0) (iri_event_schema (aq_domain env) ''ProductDeleted'' 1)
                ''ProductDeleted'' product_iri (Some product) (aq_correlation_id env)
                (JvObject [(''product_iri'', JvString product_iri), (''product_name'', JvString product)])
          in (case el_append el envelope l of
                (Inr _, l) \<Rightarrow>
                  ((202, JvObject [(''status'', JvString ''accepted''), (''product'', JvString product),
                     (''correlationId'', JvString (aq_show_uuid env (aq_correlation_id env)))]), l)
              | (Inl e, l) \<Rightarrow> ((500, error_body (show_error (aq_show_uuid env) e)), l)))"

section \<open>What an apply logs\<close>

definition mem_log_api :: "json_value mem_log event_log_api" where
  "mem_log_api = \<lparr>el_append = \<lambda>e l. mem_append l e, el_events = \<lambda>l. mem_events_since l 0\<rparr>"

definition apply_key :: "apply_env \<Rightarrow> resource_declaration \<Rightarrow> string" where
  "apply_key env decl =
     ''apply-'' @ decl_resource_type decl @ ''-'' @ decl_resource_name decl @ ''-'' @ aq_show_uuid env (aq_correlation_id env)"

definition declared :: "apply_env \<Rightarrow> resource_declaration \<Rightarrow> bool" where
  "declared env decl \<longleftrightarrow> declare_resource env decl \<noteq> None"

fun tag_events :: "apply_env \<Rightarrow> nat \<Rightarrow> resource_declaration \<Rightarrow> tags \<Rightarrow> json_event list" where
  "tag_events env n decl [] = []"
| "tag_events env n decl (kv # kvs) = tag_event env n decl kv # tag_events env (Suc n) decl kvs"

text \<open>The events of a file: for every declaration its event, followed by those of its tags.\<close>

fun apply_events :: "apply_env \<Rightarrow> nat \<Rightarrow> resource_declaration list \<Rightarrow> json_event list" where
  "apply_events env n [] = []"
| "apply_events env n (decl # decls) =
     (case declare_resource env decl of
        None \<Rightarrow> apply_events env n decls
      | Some parts \<Rightarrow>
          declaration_event env n decl parts # tag_events env (Suc n) decl (decl_tags decl) @
          apply_events env (Suc n + length (decl_tags decl)) decls)"

lemma mem_api_simps [simp]:
  "el_append mem_log_api e l = mem_append l e" "el_events mem_log_api l = ml_events l"
  by (simp_all add: mem_log_api_def mem_events_since_drop)

lemma declaration_event_fields [simp]:
  "ev_idempotency_key (declaration_event env n decl (iri, ty, p, pl)) = Some (apply_key env decl)"
  "ev_type (declaration_event env n decl (iri, ty, p, pl)) = ty"
  "ev_payload (declaration_event env n decl (iri, ty, p, pl)) = pl"
  by (simp_all add: declaration_event_def apply_key_def with_idempotency_key_def event_envelope_new_def)

lemma tag_event_fields [simp]:
  "ev_idempotency_key (tag_event env n decl kv) = None" "ev_type (tag_event env n decl kv) = ''TagAdded''"
  by (simp_all add: tag_event_def Let_def event_envelope_new_def)

lemma append_tags_mem:
  "\<exists>l'. append_tags env mem_log_api decl kvs (n, l) = (n + length kvs, l') \<and>
    ml_events l' = ml_events l @ tag_events env n decl kvs \<and> ml_seen_keys l' = ml_seen_keys l"
proof (induction kvs arbitrary: n l)
  case (Cons kv kvs)
  obtain l' where "append_tags env mem_log_api decl kvs (Suc n, snd (mem_append l (tag_event env n decl kv))) = (Suc n + length kvs, l')"
    "ml_events l' = ml_events (snd (mem_append l (tag_event env n decl kv))) @ tag_events env (Suc n) decl kvs"
    "ml_seen_keys l' = ml_seen_keys (snd (mem_append l (tag_event env n decl kv)))" using Cons by blast
  then show ?case by (simp add: seen_key_def add_key_def mem_append_def)
qed simp

lemma product_in_log_append:
  assumes "\<And>e. e \<in> set es' \<Longrightarrow> ev_type e \<noteq> ''ProductDeleted'' \<and>
    (ev_type e = ''ProductDeployed'' \<longrightarrow> get_str ''product_name'' (ev_payload e) \<noteq> Some name)"
  shows "product_in_log (es @ es') name = product_in_log es name"
proof -
  have "\<forall>e\<in>set es'. \<forall>b. product_scan name b e = b" using assms by (simp add: product_scan_def)
  then have "foldl (product_scan name) b es' = b" for b by (induction es' arbitrary: b) simp_all
  then show ?thesis by (simp add: product_in_log_def)
qed

lemma tag_events_type: "e \<in> set (tag_events env n decl kvs) \<Longrightarrow> ev_type e = ''TagAdded''"
  by (induction kvs arbitrary: n) auto

lemma declared_type:
  assumes "declare_resource env decl = Some (iri, ty, p, pl)"
  shows "ty \<noteq> ''ProductDeleted'' \<and> (ty = ''ProductDeployed'' \<longrightarrow> (\<exists>q. decl = ProductDecl q \<and> get_str ''product_name'' pl = Some (pd_name q)))"
  using assms by (cases decl) (auto simp: Let_def get_str_def jget_def as_str_def)

lemma product_key_inj: "apply_key env (ProductDecl p) = apply_key env (ProductDecl q) \<longleftrightarrow> pd_name p = pd_name q"
  by (simp add: apply_key_def)

text \<open>No product of the file exists before, and none needs a data product.\<close>

definition products_free :: "apply_env \<Rightarrow> json_event list \<Rightarrow> resource_declaration list \<Rightarrow> bool" where
  "products_free env events decls \<longleftrightarrow>
     (\<forall>p. ProductDecl p \<in> set decls \<longrightarrow> pd_data_products p = [] \<and> \<not> product_exists env events (pd_name p))"

lemma products_free_step:
  assumes "products_free env es (decl # decls)" "declare_resource env decl = Some (iri, ty, p, pl)"
    and "\<And>d. d \<in> set decls \<Longrightarrow> declared env d \<Longrightarrow> apply_key env d \<noteq> apply_key env decl"
  shows "products_free env (es @ declaration_event env n decl (iri, ty, p, pl) # tag_events env m decl kvs) decls"
proof -
  have "product_in_log (es @ declaration_event env n decl (iri, ty, p, pl) # tag_events env m decl kvs) (pd_name q) =
      product_in_log es (pd_name q)" if q: "ProductDecl q \<in> set decls" for q
  proof (rule product_in_log_append)
    fix e
    assume e: "e \<in> set (declaration_event env n decl (iri, ty, p, pl) # tag_events env m decl kvs)"
    have "apply_key env (ProductDecl q) \<noteq> apply_key env decl" using assms(3) [OF q] by (simp add: declared_def Let_def)
    then have "decl = ProductDecl p' \<Longrightarrow> pd_name p' \<noteq> pd_name q" for p' using product_key_inj by metis
    then show "ev_type e \<noteq> ''ProductDeleted'' \<and> (ev_type e = ''ProductDeployed'' \<longrightarrow> get_str ''product_name'' (ev_payload e) \<noteq> Some (pd_name q))"
      using e declared_type [OF assms(2)] tag_events_type by fastforce
  qed
  then show ?thesis using assms(1) by (auto simp: products_free_def product_exists_def)
qed

lemma apply_check_free: "products_free env events (decl # decls) \<Longrightarrow> apply_check env events decl = None"
  by (simp add: apply_check_def products_free_def check_product_apply_def split: resource_declaration.split)

definition declared_rows :: "apply_env \<Rightarrow> resource_declaration list \<Rightarrow> json_value list" where
  "declared_rows env decls = map (\<lambda>d. result_row d [(''status'', JvString ''declared'')]) (filter (declared env) decls)"

lemma apply_each_mem:
  assumes "products_free env (ml_events l) decls" "distinct (map (apply_key env) (filter (declared env) decls))"
    and "\<And>d. d \<in> set decls \<Longrightarrow> declared env d \<Longrightarrow> apply_key env d \<notin> ml_seen_keys l"
  shows "\<exists>l'. apply_each env mem_log_api decls results (n, l) =
      ((200, JvObject [(''correlationId'', JvString (aq_show_uuid env (aq_correlation_id env))),
        (''results'', JvArray (results @ declared_rows env decls))]), l') \<and>
    ml_events l' = ml_events l @ apply_events env n decls"
  using assms
proof (induction decls arbitrary: results n l)
  case (Cons decl decls)
  show ?case
  proof (cases "declare_resource env decl")
    case None
    have "products_free env (ml_events l) decls" using Cons.prems(1) by (simp add: products_free_def)
    then show ?thesis using Cons None apply_check_free [OF Cons.prems(1)] by (simp add: declared_def declared_rows_def)
  next
    case (Some parts)
    obtain iri ty p pl where parts: "parts = (iri, ty, p, pl)" by (cases parts) auto
    note decl = Some [unfolded parts]
    let ?e = "declaration_event env n decl (iri, ty, p, pl)"
    have d: "declared env decl" using decl by (simp add: declared_def)
    then have new: "\<not> seen_key (ml_seen_keys l) ?e" using Cons.prems(3) by (simp add: seen_key_def)
    obtain l2 where l2: "append_tags env mem_log_api decl (decl_tags decl) (Suc n, snd (mem_append l ?e)) = (Suc n + length (decl_tags decl), l2)"
      "ml_events l2 = ml_events l @ ?e # tag_events env (Suc n) decl (decl_tags decl)"
      "ml_seen_keys l2 = insert (apply_key env decl) (ml_seen_keys l)"
      using append_tags_mem [of env decl "decl_tags decl" "Suc n" "snd (mem_append l ?e)"] new
      by (auto simp: mem_append_def add_key_def)
    have keys: "apply_key env x \<noteq> apply_key env decl" if "x \<in> set decls" "declared env x" for x
      using Cons.prems(2) d that by (auto simp: image_iff)
    have free: "products_free env (ml_events l2) decls"
      unfolding l2(2) by (rule products_free_step [OF Cons.prems(1) decl keys])
    have unseen: "apply_key env x \<notin> ml_seen_keys l2" if "x \<in> set decls" "declared env x" for x
      using Cons.prems(3) [of x] keys [OF that] that l2(3) by simp
    have "distinct (map (apply_key env) (filter (declared env) decls))" using Cons.prems(2) d by simp
    from Cons.IH [OF free this unseen] obtain l' where
      "apply_each env mem_log_api decls (results @ [result_row decl [(''status'', JvString ''declared'')]]) (Suc n + length (decl_tags decl), l2) =
        ((200, JvObject [(''correlationId'', JvString (aq_show_uuid env (aq_correlation_id env))),
          (''results'', JvArray ((results @ [result_row decl [(''status'', JvString ''declared'')]]) @ declared_rows env decls))]), l')"
      "ml_events l' = ml_events l2 @ apply_events env (Suc n + length (decl_tags decl)) decls"
      by blast
    moreover have "mem_append l ?e = (Inr (), snd (mem_append l ?e))" by (simp add: prod_eq_iff)
    ultimately show ?thesis using apply_check_free [OF Cons.prems(1)] decl d l2
      by (auto simp: declared_rows_def simp del: append_tags.simps split: prod.splits)
  qed
qed (simp add: declared_rows_def)


text \<open>The encodings the derives give, written out.\<close>

definition derived_serde :: serde_api where
  "derived_serde =
     \<lparr>sd_env_to = (\<lambda>v. case v of Literal s \<Rightarrow> JvString s | SecretRef s \<Rightarrow> JvObject [(''secret'', JvString s)]),
      sd_env_from = (\<lambda>j. case j of JvString s \<Rightarrow> Some (Literal s) | _ \<Rightarrow> map_option SecretRef (get_str ''secret'' j)),
      sd_protocol_to = (\<lambda>p. JvString (case p of Tcp \<Rightarrow> ''tcp'' | Udp \<Rightarrow> ''udp'')),
      sd_port_from = (\<lambda>j. case (Option.bind (jget ''port'' j) as_u64, get_str ''protocol'' j) of
         (Some p, Some s) \<Rightarrow>
           if p < 2 ^ 16 \<and> s \<in> {''tcp'', ''udp''} then Some \<lparr>pt_port = p, pt_protocol = if s = ''tcp'' then Tcp else Udp\<rparr> else None
       | _ \<Rightarrow> None),
      sd_mount_from = (\<lambda>j. case (get_str ''volume'' j, get_str ''path'' j, Option.bind (jget ''read_only'' j) as_bool) of
         (Some v, Some p, Some b) \<Rightarrow> Some \<lparr>vt_volume = v, vt_path = p, vt_read_only = b\<rparr>
       | _ \<Rightarrow> None),
      sd_volume_type_from = (\<lambda>j. case j of
         JvString s \<Rightarrow> if s = ''mounted'' then Some Mounted else if s = ''raw_block'' then Some RawBlock else None
       | _ \<Rightarrow> None)\<rparr>"

definition ex_apply_env :: apply_env where
  "ex_apply_env =
     \<lparr>aq_domain = ''x'', aq_correlation_id = 7, aq_show_uuid = (\<lambda>_. ''7''), aq_fresh = of_nat, aq_now = (\<lambda>n. int n),
      aq_traceparent = None, aq_members = None, aq_query = None, aq_json_text = (\<lambda>_. []), aq_serde = derived_serde\<rparr>"


section \<open>What an apply loses\<close>

text \<open>The key of an event has the type and the name of the resource but not its product: a resource whose key was used before,
  such as one of the same type and name of another product of the file, is reported as declared and not logged.\<close>

lemma key_lacks_product:
  "decl_resource_type d = decl_resource_type d' \<Longrightarrow> decl_resource_name d = decl_resource_name d' \<Longrightarrow> apply_key env d = apply_key env d'"
  by (simp add: apply_key_def)

theorem used_key_is_dropped:
  assumes "declare_resource env d = Some parts" "apply_check env (ml_events l) d = None" "decl_tags d = []"
    and "apply_key env d \<in> ml_seen_keys l"
  shows "apply_each env mem_log_api [d] results (n, l) =
    ((200, JvObject [(''correlationId'', JvString (aq_show_uuid env (aq_correlation_id env))),
      (''results'', JvArray (results @ [result_row d [(''status'', JvString ''declared'')]]))]), l)"
proof -
  obtain iri ty p pl where "parts = (iri, ty, p, pl)" by (cases parts) auto
  then have "seen_key (ml_seen_keys l) (declaration_event env n d parts)" using assms(4) by (simp add: seen_key_def)
  then show ?thesis using assms(1-3) by (simp add: mem_append_def)
qed

text \<open>A file is not applied as a whole: what precedes a product that is refused stays in the log.\<close>

theorem refused_apply_is_partial:
  assumes "declare_resource env d = Some parts" "apply_check env (ml_events l) d = None" "decl_tags d = []"
    and "apply_key env d \<notin> ml_seen_keys l"
    and "apply_check env (ml_events l @ [declaration_event env n d parts]) d' = Some response"
  shows "\<exists>l'. apply_each env mem_log_api (d # d' # ds) results (n, l) = (response, l') \<and>
    ml_events l' = ml_events l @ [declaration_event env n d parts]"
proof -
  obtain iri ty p pl where "parts = (iri, ty, p, pl)" by (cases parts) auto
  then have new: "\<not> seen_key (ml_seen_keys l) (declaration_event env n d parts)" using assms(4) by (simp add: seen_key_def)
  obtain l2 where "mem_append l (declaration_event env n d parts) = (Inr (), l2)" by (metis mem_append_simps(1) prod.collapse)
  moreover from this have "ml_events l2 = ml_events l @ [declaration_event env n d parts]" using new by (metis mem_append_simps(2) snd_conv)
  ultimately show ?thesis using assms by simp
qed

text \<open>Scopes and machine permissions pass validation and leave no trace, neither in the log nor in the answer.\<close>

theorem scopes_are_skipped: "\<not> declared env (ScopeDecl s)" "\<not> declared env (M2mPermissionDecl m)"
  by (simp_all add: declared_def)

section \<open>Versions\<close>

fun nth_or_zero :: "nat list \<Rightarrow> nat \<Rightarrow> nat" where
  "nth_or_zero [] i = 0"
| "nth_or_zero (x # xs) 0 = x"
| "nth_or_zero (x # xs) (Suc i) = nth_or_zero xs i"

lemma parts_agree:
  "(\<forall>k. nth_or_zero as k = nth_or_zero rs k) \<longleftrightarrow>
    nth_or_zero as 0 = nth_or_zero rs 0 \<and> (\<forall>k. nth_or_zero as (Suc k) = nth_or_zero rs (Suc k))"
  (is "?all \<longleftrightarrow> ?split")
proof
  assume split: ?split
  have "nth_or_zero as k = nth_or_zero rs k" for k using split by (cases k) simp_all
  then show ?all by blast
qed blast

lemma first_difference: "(\<exists>i. (\<forall>j<i. E j) \<and> L i) \<longleftrightarrow> L 0 \<or> (E 0 \<and> (\<exists>i. (\<forall>j<i. E (Suc j)) \<and> L (Suc i)))"
  for E L :: "nat \<Rightarrow> bool"
proof -
  have "(\<exists>i. (\<forall>j<i. E j) \<and> L i) \<longleftrightarrow> L 0 \<or> (\<exists>i. (\<forall>j<Suc i. E j) \<and> L (Suc i))"
    by (metis less_zeroE not0_implies_Suc)
  then show ?thesis by (simp add: All_less_Suc2)
qed

text \<open>A version is enough when it equals the required one, missing parts read as zero, or exceeds it at the first difference.\<close>

theorem parts_at_least_iff:
  "parts_at_least as rs \<longleftrightarrow> (\<forall>i. nth_or_zero as i = nth_or_zero rs i) \<or>
    (\<exists>i. (\<forall>j<i. nth_or_zero as j = nth_or_zero rs j) \<and> nth_or_zero rs i < nth_or_zero as i)"
proof (induction as rs rule: parts_at_least.induct)
  case 1
  then show ?case by simp
next
  case (2 a as)
  then show ?case by (subst parts_agree, subst first_difference) (cases "a > 0"; simp)
next
  case (3 r rs)
  then show ?case by (subst parts_agree, subst first_difference) (cases "r > 0"; simp)
next
  case (4 a as r rs)
  then show ?case by (subst parts_agree, subst first_difference) (cases a r rule: linorder_cases; simp)
qed

text \<open>A part that is not a number reads as zero and is not compared as text.\<close>

theorem text_parts_are_zero: "version_at_least ''1.alpha'' ''1.beta'' \<and> version_at_least ''1.0'' ''1.9-rc''"
proof -
  have "parse_usize ''alpha'' = None" "parse_usize ''beta'' = None" "parse_usize ''9-rc'' = None"
    "parse_usize ''1'' = Some 1" "parse_usize ''0'' = Some 0"
    by (simp_all add: parse_usize_def is_digit_def digits_val_def digit_val_def)
  then show ?thesis by (simp add: version_at_least_def version_parts_def)
qed

end
