(* ===== verification/Ingress_Router.thy ===== *)
theory Ingress_Router
  imports Domain_Types
begin

text \<open>
  The ingress router (\<open>crates/picloud-http/src/router.rs\<close>) and the older table of routes
  (\<open>crates/picloud-http/src/implementation.rs\<close>). A host name is a key of an association list; a port is a number.
\<close>

section \<open>Routes\<close>

record route_entry =
  re_path_prefix :: string
  re_upstream_addr :: string
  re_upstream_port :: nat
  re_product :: string
  re_internal :: bool
  re_ingress_iri :: resource_iri

record ingress_router =
  ir_external :: "(string \<times> route_entry list) list"
  ir_internal :: "route_entry list"

record ingress_route =
  ig_path :: string
  ig_target_port :: nat
  ig_product :: string

type_synonym ingress_table = "(string \<times> ingress_route) list"

definition new_ingress_table :: ingress_table where
  "new_ingress_table = []"

definition ingress_router_new :: ingress_router where
  "ingress_router_new = \<lparr>ir_external = [], ir_internal = []\<rparr>"

text \<open>\<open>max_by_key\<close> on the length of the prefix: of several longest ones the last.\<close>

definition longest :: "route_entry list \<Rightarrow> route_entry option" where
  "longest rs =
     foldl (\<lambda>best r. case best of
         None \<Rightarrow> Some r
       | Some b \<Rightarrow> if length (re_path_prefix b) \<le> length (re_path_prefix r) then Some r else Some b) None rs"

definition matching :: "string \<Rightarrow> route_entry list \<Rightarrow> route_entry list" where
  "matching path rs = filter (\<lambda>r. starts_with path (re_path_prefix r)) rs"

definition host_routes :: "ingress_router \<Rightarrow> string \<Rightarrow> route_entry list" where
  "host_routes rt host = (case map_of (ir_external rt) host of Some rs \<Rightarrow> rs | None \<Rightarrow> [])"

definition route_lookup :: "ingress_router \<Rightarrow> string \<Rightarrow> string \<Rightarrow> route_entry option" where
  "route_lookup rt host path =
     (case map_of (ir_external rt) host of
        Some routes \<Rightarrow> longest (matching path routes)
      | None \<Rightarrow> None)"

definition lookup_internal :: "ingress_router \<Rightarrow> string \<Rightarrow> route_entry option" where
  "lookup_internal rt path = longest (matching path (ir_internal rt))"

definition without :: "resource_iri \<Rightarrow> route_entry list \<Rightarrow> route_entry list" where
  "without iri rs = filter (\<lambda>r. re_ingress_iri r \<noteq> iri) rs"

definition upsert_route :: "string \<Rightarrow> route_entry \<Rightarrow> ingress_router \<Rightarrow> ingress_router" where
  "upsert_route hostname entry rt =
     (if re_internal entry then
        rt\<lparr>ir_internal := without (re_ingress_iri entry) (ir_internal rt) @ [entry]\<rparr>
      else
        rt\<lparr>ir_external := hm_insert hostname (without (re_ingress_iri entry) (host_routes rt hostname) @ [entry]) (ir_external rt)\<rparr>)"

definition remove_route :: "resource_iri \<Rightarrow> ingress_router \<Rightarrow> ingress_router" where
  "remove_route iri rt =
     rt\<lparr>ir_external := filter (\<lambda>(h, rs). rs \<noteq> []) (map (\<lambda>(h, rs). (h, without iri rs)) (ir_external rt)),
        ir_internal := without iri (ir_internal rt)\<rparr>"

definition move_upstream :: "string \<Rightarrow> string \<Rightarrow> route_entry \<Rightarrow> route_entry" where
  "move_upstream old_addr new_addr r = (if re_upstream_addr r = old_addr then r\<lparr>re_upstream_addr := new_addr\<rparr> else r)"

definition update_upstream :: "string \<Rightarrow> string \<Rightarrow> ingress_router \<Rightarrow> ingress_router" where
  "update_upstream old_addr new_addr rt =
     \<lparr>ir_external = map (\<lambda>(h, rs). (h, map (move_upstream old_addr new_addr) rs)) (ir_external rt),
      ir_internal = map (move_upstream old_addr new_addr) (ir_internal rt)\<rparr>"

definition route_count :: "ingress_router \<Rightarrow> nat" where
  "route_count rt = sum_list (map (\<lambda>(h, rs). length rs) (ir_external rt)) + length (ir_internal rt)"

section \<open>Lookup\<close>

lemma longest_snoc:
  "longest (rs @ [r]) = (case longest rs of
     None \<Rightarrow> Some r
   | Some b \<Rightarrow> if length (re_path_prefix b) \<le> length (re_path_prefix r) then Some r else Some b)"
  by (simp add: longest_def)

lemma longest_single [simp]: "longest [] = None" "longest [r] = Some r"
  by (simp_all add: longest_def)

lemma longest_cases:
  "longest rs = None \<and> rs = [] \<or>
    (\<exists>e. longest rs = Some e \<and> e \<in> set rs \<and> (\<forall>r\<in>set rs. length (re_path_prefix r) \<le> length (re_path_prefix e)))"
proof (induction rs rule: rev_induct)
  case (snoc r rs)
  show ?case
  proof (cases "longest rs")
    case None
    then show ?thesis using snoc by (simp add: longest_snoc)
  next
    case (Some b)
    then have "b \<in> set rs" "\<forall>r\<in>set rs. length (re_path_prefix r) \<le> length (re_path_prefix b)" using snoc by auto
    then show ?thesis using Some by (auto simp: longest_snoc)
  qed
qed (simp add: longest_def)

lemma route_lookup_eq: "route_lookup rt host path = longest (matching path (host_routes rt host))"
  by (simp add: route_lookup_def host_routes_def matching_def longest_def split: option.split)

text \<open>A lookup finds a route exactly when one of the host matches the path, and then one with the longest prefix.\<close>

theorem route_lookup_exact:
  "(route_lookup rt host path = None \<longleftrightarrow> (\<forall>r\<in>set (host_routes rt host). \<not> starts_with path (re_path_prefix r))) \<and>
   (\<forall>e. route_lookup rt host path = Some e \<longrightarrow> e \<in> set (host_routes rt host) \<and> starts_with path (re_path_prefix e) \<and>
      (\<forall>r\<in>set (host_routes rt host). starts_with path (re_path_prefix r) \<longrightarrow>
        length (re_path_prefix r) \<le> length (re_path_prefix e)))"
  using longest_cases [of "matching path (host_routes rt host)"]
  by (auto simp: route_lookup_eq matching_def filter_empty_conv)

section \<open>Updates\<close>

lemma host_routes_upsert:
  "host_routes (upsert_route host e rt) h =
    (if \<not> re_internal e \<and> h = host then without (re_ingress_iri e) (host_routes rt h) @ [e] else host_routes rt h)"
  by (simp add: upsert_route_def host_routes_def)

lemma host_routes_in: "e \<in> set (host_routes rt h) \<Longrightarrow> \<exists>rs. (h, rs) \<in> set (ir_external rt) \<and> e \<in> set rs"
  by (cases "map_of (ir_external rt) h") (auto simp: host_routes_def dest: map_of_SomeD)

lemma host_routes_remove: "e \<in> set (host_routes (remove_route iri rt) h) \<Longrightarrow> re_ingress_iri e \<noteq> iri"
  by (drule host_routes_in) (auto simp: remove_route_def without_def)

text \<open>A registered external route is used for every path below its prefix for which the host has no longer one; a removed
  route is used for no path of any host.\<close>

theorem upsert_then_lookup:
  assumes "\<not> re_internal e" "starts_with path (re_path_prefix e)"
    and "\<forall>r\<in>set (host_routes rt host). starts_with path (re_path_prefix r) \<and> re_ingress_iri r \<noteq> re_ingress_iri e \<longrightarrow>
      length (re_path_prefix r) \<le> length (re_path_prefix e)"
  shows "route_lookup (upsert_route host e rt) host path = Some e"
proof -
  let ?rs = "matching path (without (re_ingress_iri e) (host_routes rt host))"
  have "longest (?rs @ [e]) = Some e"
    using longest_cases [of ?rs] assms(3) by (cases "longest ?rs") (auto simp: longest_snoc, auto simp: matching_def without_def)
  then show ?thesis using assms(1,2) by (simp add: route_lookup_eq host_routes_upsert matching_def)
qed

theorem remove_then_lookup: "route_lookup (remove_route iri rt) host path = Some e \<Longrightarrow> re_ingress_iri e \<noteq> iri"
  using route_lookup_exact [of "remove_route iri rt" host path] host_routes_remove by blast

section \<open>Internal routes stay internal\<close>

datatype router_op = Upsert string route_entry | RemoveRoute resource_iri | UpdateUpstream string string

fun router_step :: "router_op \<Rightarrow> ingress_router \<Rightarrow> ingress_router" where
  "router_step (Upsert h e) rt = upsert_route h e rt"
| "router_step (RemoveRoute i) rt = remove_route i rt"
| "router_step (UpdateUpstream a b) rt = update_upstream a b rt"

definition routes_ok :: "ingress_router \<Rightarrow> bool" where
  "routes_ok rt \<longleftrightarrow> (\<forall>(h, rs)\<in>set (ir_external rt). \<forall>r\<in>set rs. \<not> re_internal r) \<and> (\<forall>r\<in>set (ir_internal rt). re_internal r)"

lemma routes_ok_upsert: "routes_ok rt \<Longrightarrow> routes_ok (upsert_route h e rt)"
  by (auto simp: routes_ok_def upsert_route_def without_def hm_insert_def dest!: host_routes_in)

lemma routes_ok_step: "routes_ok rt \<Longrightarrow> routes_ok (router_step rop rt)"
  by (cases rop) (simp_all add: routes_ok_upsert, (fastforce simp: routes_ok_def remove_route_def update_upstream_def move_upstream_def without_def)+)

lemma routes_ok_run: "routes_ok rt \<Longrightarrow> routes_ok (fold router_step ops rt)"
  by (induction ops arbitrary: rt) (simp_all add: routes_ok_step)

text \<open>Over any sequence of updates an internal route is never found from outside.\<close>

theorem internal_routes_hidden:
  assumes "route_lookup (fold router_step ops ingress_router_new) host path = Some e"
  shows "\<not> re_internal e"
proof -
  let ?rt = "fold router_step ops ingress_router_new"
  have "routes_ok ?rt" by (rule routes_ok_run) (simp add: routes_ok_def ingress_router_new_def)
  moreover have "e \<in> set (host_routes ?rt host)" using route_lookup_exact assms by blast
  ultimately show ?thesis by (auto simp: routes_ok_def dest!: host_routes_in)
qed

text \<open>An ingress that moves to another host, or becomes internal, is still served at the old host.\<close>

theorem moved_route_stays:
  assumes "\<not> re_internal e" "starts_with path (re_path_prefix e)" "re_ingress_iri e' = re_ingress_iri e"
    and "h' \<noteq> h \<or> re_internal e'" "host_routes rt h = []"
  shows "route_lookup (upsert_route h' e' (upsert_route h e rt)) h path = Some e"
  using assms by (auto simp: route_lookup_eq host_routes_upsert matching_def without_def longest_def)

end
