(* ===== verification/Provisioner.thy ===== *)
theory Provisioner
  imports Resource_Apply Ingress_Router Storage_Backend
begin

text \<open>
  The resource provisioner (\<open>crates/picloud-http/src/provisioner.rs\<close>): a task that receives the events of the log and
  calls the storage backend, the scheduler, the secret store and the router. It holds each backend as a trait object, so
  the operations of the traits are a record over the states of the backends, which \<open>platform_backends\<close> fills with the
  models of this development. A step that is \<open>None\<close> is a panic, which ends the task.
\<close>

section \<open>Backends and state\<close>

record ('l, 's, 'w, 'k) backends =
  bk_log :: "'l event_log_api"
  bk_query :: "string \<Rightarrow> json_value list result"
  bk_allocate :: "resource_iri \<Rightarrow> u64 \<Rightarrow> storage_intent \<Rightarrow> volume_type \<Rightarrow> 's \<Rightarrow> volume_handle result \<times> 's"
  bk_delete :: "resource_iri \<Rightarrow> 's \<Rightarrow> unit result \<times> 's"
  bk_schedule :: "resource_iri \<Rightarrow> workload_spec \<Rightarrow> 'w \<Rightarrow> workload_handle result \<times> 'w"
  bk_stop :: "resource_iri \<Rightarrow> 'w \<Rightarrow> unit result \<times> 'w"
  bk_store_secret :: "string \<Rightarrow> string \<Rightarrow> string \<Rightarrow> 'k \<Rightarrow> unit result \<times> 'k"

record ('l, 's, 'w, 'k) platform =
  pf_log :: 'l
  pf_storage :: 's
  pf_workloads :: 'w
  pf_secrets :: 'k
  pf_table :: "ingress_table option"
  pf_router :: "ingress_router option"
  pf_made :: nat

record provisioner_env =
  pe_domain :: cluster_domain
  pe_serde :: serde_api
  pe_url_parses :: "string \<Rightarrow> bool"
  pe_show_uuid :: "uuid \<Rightarrow> string"
  pe_fresh :: "nat \<Rightarrow> uuid"
  pe_correlation :: "nat \<Rightarrow> uuid"
  pe_now :: "nat \<Rightarrow> timestamp"

definition provisioner_filter :: event_filter where
  "provisioner_filter =
     \<lparr>f_correlation_id = None, f_product = None, f_event_types = [''ResourceDeclared'', ''ProductDeleted'', ''NodeUnreachable'']\<rparr>"

text \<open>A new envelope, appended; a failure is only logged.\<close>

definition provisioner_event ::
  "provisioner_env \<Rightarrow> nat \<Rightarrow> string \<Rightarrow> resource_iri \<Rightarrow> string option \<Rightarrow> uuid \<Rightarrow> json_value \<Rightarrow> json_event" where
  "provisioner_event env n event_type source product cid payload =
     event_envelope_new (pe_fresh env n) (pe_now env n) (iri_event_schema (pe_domain env) event_type 1) event_type source product cid payload"

definition emit_result ::
  "provisioner_env \<Rightarrow> ('l, 's, 'w, 'k) backends \<Rightarrow> string \<Rightarrow> resource_iri \<Rightarrow> string option \<Rightarrow> uuid \<Rightarrow> json_value
    \<Rightarrow> ('l, 's, 'w, 'k) platform \<Rightarrow> ('l, 's, 'w, 'k) platform" where
  "emit_result env bk event_type source product cid payload st =
     st\<lparr>pf_log := snd (el_append (bk_log bk) (provisioner_event env (pf_made st) event_type source product cid payload) (pf_log st)),
        pf_made := Suc (pf_made st)\<rparr>"

section \<open>Reading payloads\<close>

definition str_or :: "string \<Rightarrow> string \<Rightarrow> json_value \<Rightarrow> string" where
  "str_or k d payload = (case get_str k payload of Some s \<Rightarrow> s | None \<Rightarrow> d)"

definition json_array :: "string \<Rightarrow> json_value \<Rightarrow> json_value list" where
  "json_array k payload = (case Option.bind (jget k payload) as_array of Some vs \<Rightarrow> vs | None \<Rightarrow> [])"

definition parse_mounts :: "serde_api \<Rightarrow> json_value \<Rightarrow> volume_mount list" where
  "parse_mounts sd payload = List.map_filter (sd_mount_from sd) (json_array ''mounts'' payload)"

definition parse_env :: "serde_api \<Rightarrow> json_value \<Rightarrow> (string \<times> env_value) list" where
  "parse_env sd payload =
     (case jget ''env'' payload of
        Some (JvObject kvs) \<Rightarrow>
          map (\<lambda>(k, v). (k, case sd_env_from sd v of
             Some e \<Rightarrow> e
           | None \<Rightarrow> Literal (case as_str v of Some s \<Rightarrow> s | None \<Rightarrow> []))) kvs
      | _ \<Rightarrow> [])"

text \<open>\<open>as u32\<close> keeps the low 32 bits.\<close>

definition limit_of :: "string \<Rightarrow> json_value \<Rightarrow> u32 option" where
  "limit_of k payload = map_option of_nat (Option.bind (jget k payload) as_u64)"

definition parse_resource_limits :: "json_value \<Rightarrow> resource_limits" where
  "parse_resource_limits payload =
     \<lparr>rl_cpu_millicores = limit_of ''cpu_millicores'' payload, rl_memory_mb = limit_of ''memory_mb'' payload\<rparr>"

definition parse_ports :: "serde_api \<Rightarrow> json_value \<Rightarrow> port_mapping list" where
  "parse_ports sd payload = List.map_filter (sd_port_from sd) (json_array ''ports'' payload)"

definition parse_args :: "json_value \<Rightarrow> string list" where
  "parse_args payload = List.map_filter as_str (json_array ''args'' payload)"

section \<open>Provisioning\<close>

definition provision_volume ::
  "provisioner_env \<Rightarrow> ('l, 's, 'w, 'k) backends \<Rightarrow> resource_iri \<Rightarrow> json_value \<Rightarrow> ('l, 's, 'w, 'k) platform
    \<Rightarrow> unit result \<times> ('l, 's, 'w, 'k) platform" where
  "provision_volume env bk resource_iri payload st =
     (let size_gb = (case Option.bind (jget ''size_gb'' payload) as_u64 of Some n \<Rightarrow> of_nat n | None \<Rightarrow> 1);
          volume_type = (case Option.bind (jget ''volume_type'' payload) (sd_volume_type_from (pe_serde env)) of
             Some t \<Rightarrow> t | None \<Rightarrow> Mounted)
      in case bk_allocate bk resource_iri size_gb storage_intent_default volume_type (pf_storage st) of
           (r, s) \<Rightarrow> (map_sum id (\<lambda>_. ()) r, st\<lparr>pf_storage := s\<rparr>))"

definition provision_secret ::
  "('l, 's, 'w, 'k) backends \<Rightarrow> json_value \<Rightarrow> ('l, 's, 'w, 'k) platform \<Rightarrow> unit result \<times> ('l, 's, 'w, 'k) platform" where
  "provision_secret bk payload st =
     (case bk_store_secret bk (str_or ''product'' ''default'' payload) (str_or ''name'' ''unknown'' payload)
             (str_or ''value'' [] payload) (pf_secrets st) of
        (r, k) \<Rightarrow> (r, st\<lparr>pf_secrets := k\<rparr>))"

definition ingress_iri_of :: "provisioner_env \<Rightarrow> string \<Rightarrow> string \<Rightarrow> resource_iri option" where
  "ingress_iri_of env resource_iri_str product =
     (case resource_iri_new (pe_url_parses env) resource_iri_str of
        Inr iri \<Rightarrow> Some iri
      | Inl _ \<Rightarrow>
          (case resource_iri_new (pe_url_parses env) (''https://picloud.local/products/'' @ product @ ''/ingresses/unknown'') of
             Inr iri \<Rightarrow> Some iri
           | Inl _ \<Rightarrow> None))"

definition provision_ingress ::
  "provisioner_env \<Rightarrow> string \<Rightarrow> json_value \<Rightarrow> ('l, 's, 'w, 'k) platform \<Rightarrow> (unit result \<times> ('l, 's, 'w, 'k) platform) option" where
  "provision_ingress env resource_iri_str payload st =
     (let path = str_or ''path'' [CHR ''/''] payload;
          target_port = (case Option.bind (jget ''port'' payload) as_u64 of Some n \<Rightarrow> n | None \<Rightarrow> 8080) mod 2 ^ 16;
          product = str_or ''product'' ''unknown'' payload;
          host = str_or ''host'' ''picloud.local'' payload;
          internal = (case Option.bind (jget ''internal'' payload) as_bool of Some b \<Rightarrow> b | None \<Rightarrow> False);
          st = st\<lparr>pf_table := map_option (hm_insert resource_iri_str
                 \<lparr>ig_path = path, ig_target_port = target_port, ig_product = product\<rparr>) (pf_table st)\<rparr>
      in case pf_router st of
           None \<Rightarrow> Some (Inr (), st)
         | Some router \<Rightarrow>
             (case ingress_iri_of env resource_iri_str product of
                None \<Rightarrow> None
              | Some ingress_iri \<Rightarrow>
                  Some (Inr (), st\<lparr>pf_router := Some (upsert_route host
                    \<lparr>re_path_prefix = path, re_upstream_addr = ''127.0.0.1'', re_upstream_port = target_port,
                     re_product = product, re_internal = internal, re_ingress_iri = ingress_iri\<rparr> router)\<rparr>)))"

definition payload_container :: "serde_api \<Rightarrow> json_value \<Rightarrow> container_spec" where
  "payload_container sd payload =
     \<lparr>cs_image = str_or ''image'' ''unknown'' payload, cs_identity = str_or ''identity'' ''default'' payload,
      cs_resources = parse_resource_limits payload, cs_mounts = parse_mounts sd payload, cs_env = parse_env sd payload,
      cs_ports = parse_ports sd payload, cs_health_check = None, cs_restart_policy = Always,
      cs_product_version = get_str ''product_version'' payload\<rparr>"

definition payload_binary :: "serde_api \<Rightarrow> json_value \<Rightarrow> binary_spec" where
  "payload_binary sd payload =
     \<lparr>bs_executable = str_or ''executable'' ''unknown'' payload, bs_args = parse_args payload,
      bs_identity = str_or ''identity'' ''default'' payload, bs_resources = parse_resource_limits payload,
      bs_mounts = parse_mounts sd payload, bs_env = parse_env sd payload, bs_restart_policy = Always,
      bs_product_version = get_str ''product_version'' payload\<rparr>"

definition provision_workload ::
  "('l, 's, 'w, 'k) backends \<Rightarrow> resource_iri \<Rightarrow> workload_spec \<Rightarrow> ('l, 's, 'w, 'k) platform
    \<Rightarrow> unit result \<times> ('l, 's, 'w, 'k) platform" where
  "provision_workload bk resource_iri spec st =
     (case bk_schedule bk resource_iri spec (pf_workloads st) of
        (r, w) \<Rightarrow> (map_sum id (\<lambda>_. ()) r, st\<lparr>pf_workloads := w\<rparr>))"

definition provision_container ::
  "provisioner_env \<Rightarrow> ('l, 's, 'w, 'k) backends \<Rightarrow> resource_iri \<Rightarrow> json_value \<Rightarrow> ('l, 's, 'w, 'k) platform
    \<Rightarrow> unit result \<times> ('l, 's, 'w, 'k) platform" where
  "provision_container env bk resource_iri payload st =
     provision_workload bk resource_iri (Container (payload_container (pe_serde env) payload)) st"

definition provision_binary ::
  "provisioner_env \<Rightarrow> ('l, 's, 'w, 'k) backends \<Rightarrow> resource_iri \<Rightarrow> json_value \<Rightarrow> ('l, 's, 'w, 'k) platform
    \<Rightarrow> unit result \<times> ('l, 's, 'w, 'k) platform" where
  "provision_binary env bk resource_iri payload st =
     provision_workload bk resource_iri (Binary (payload_binary (pe_serde env) payload)) st"

definition provision_by_type ::
  "provisioner_env \<Rightarrow> ('l, 's, 'w, 'k) backends \<Rightarrow> string \<Rightarrow> resource_iri \<Rightarrow> json_value \<Rightarrow> ('l, 's, 'w, 'k) platform
    \<Rightarrow> (unit result \<times> ('l, 's, 'w, 'k) platform) option" where
  "provision_by_type env bk resource_type resource_iri payload st =
     (if resource_type = ''Volume'' then Some (provision_volume env bk resource_iri payload st)
      else if resource_type = ''Container'' then Some (provision_container env bk resource_iri payload st)
      else if resource_type = ''Binary'' then Some (provision_binary env bk resource_iri payload st)
      else if resource_type = ''Secret'' then Some (provision_secret bk payload st)
      else if resource_type = ''Ingress'' then provision_ingress env resource_iri payload st
      else Some (Inr (), st))"

definition terminal_event :: "provisioner_env \<Rightarrow> resource_iri \<Rightarrow> unit result \<Rightarrow> string \<times> json_value" where
  "terminal_event env resource_iri r =
     (case r of
        Inr _ \<Rightarrow> (''ResourceReady'', JvObject [(''resource_iri'', JvString resource_iri)])
      | Inl e \<Rightarrow> (''ResourceFailed'', JvObject [(''resource_iri'', JvString resource_iri),
          (''reason'', JvString (show_error (pe_show_uuid env) e))]))"

definition provision_resource ::
  "provisioner_env \<Rightarrow> ('l, 's, 'w, 'k) backends \<Rightarrow> json_event \<Rightarrow> ('l, 's, 'w, 'k) platform
    \<Rightarrow> ('l, 's, 'w, 'k) platform option" where
  "provision_resource env bk event st =
     (case get_str ''resource_type'' (ev_payload event) of
        None \<Rightarrow> Some st
      | Some resource_type \<Rightarrow>
          (case get_str ''resource_iri'' (ev_payload event) of
             None \<Rightarrow> Some st
           | Some resource_iri \<Rightarrow>
               (case provision_by_type env bk resource_type resource_iri (ev_payload event) st of
                  None \<Rightarrow> None
                | Some (r, st) \<Rightarrow>
                    (case terminal_event env resource_iri r of
                       (event_type, result_payload) \<Rightarrow>
                         Some (emit_result env bk event_type resource_iri (ev_product event) (ev_correlation_id event)
                           result_payload st)))))"

section \<open>Deleting a product\<close>

definition sparql_value :: "string \<Rightarrow> json_value \<Rightarrow> string option" where
  "sparql_value k row = Option.bind (Option.bind (jget k row) (jget ''value'')) as_str"

definition delete_child ::
  "('l, 's, 'w, 'k) backends \<Rightarrow> string \<Rightarrow> resource_iri \<Rightarrow> ('l, 's, 'w, 'k) platform \<Rightarrow> ('l, 's, 'w, 'k) platform" where
  "delete_child bk child_type child_iri st =
     (if child_type = ''Container'' \<or> child_type = ''Binary'' then
        st\<lparr>pf_workloads := snd (bk_stop bk child_iri (pf_workloads st))\<rparr>
      else if child_type = ''Volume'' then st\<lparr>pf_storage := snd (bk_delete bk child_iri (pf_storage st))\<rparr>
      else st)"

fun delete_children ::
  "provisioner_env \<Rightarrow> ('l, 's, 'w, 'k) backends \<Rightarrow> string \<Rightarrow> uuid \<Rightarrow> json_value list \<Rightarrow> ('l, 's, 'w, 'k) platform
    \<Rightarrow> ('l, 's, 'w, 'k) platform" where
  "delete_children env bk product_name cid [] st = st"
| "delete_children env bk product_name cid (child # rest) st =
     delete_children env bk product_name cid rest
       (case sparql_value ''res'' child of
          None \<Rightarrow> st
        | Some child_iri \<Rightarrow>
            emit_result env bk ''ResourceDeleted'' child_iri (Some product_name) cid
              (JvObject [(''resource_iri'', JvString child_iri)])
              (delete_child bk (case sparql_value ''rtype'' child of Some t \<Rightarrow> t | None \<Rightarrow> ''Unknown'') child_iri st))"

definition cascade_query :: "string \<Rightarrow> string" where
  "cascade_query product_iri =
     ''SELECT ?res ?rtype WHERE { ?res <http://www.w3.org/1999/02/22-rdf-syntax-ns#type> <https://picloud.local/ontology#Resource> . '' @
     ''?res <https://picloud.local/ontology#resourceType> ?rtype . FILTER(STRSTARTS(STR(?res), '' @ [dquote] @ product_iri @
     ''/'' @ [dquote] @ '')) }''"

definition cascade_delete_product ::
  "provisioner_env \<Rightarrow> ('l, 's, 'w, 'k) backends \<Rightarrow> json_event \<Rightarrow> ('l, 's, 'w, 'k) platform \<Rightarrow> ('l, 's, 'w, 'k) platform" where
  "cascade_delete_product env bk event st =
     (case get_str ''product_iri'' (ev_payload event) of
        None \<Rightarrow> st
      | Some product_iri \<Rightarrow>
          (case ev_product event of
             None \<Rightarrow> st
           | Some product_name \<Rightarrow>
               delete_children env bk product_name (ev_correlation_id event)
                 (case bk_query bk (cascade_query product_iri) of Inr rows \<Rightarrow> rows | Inl _ \<Rightarrow> []) st))"

section \<open>A failed node\<close>

definition reschedule_one ::
  "provisioner_env \<Rightarrow> ('l, 's, 'w, 'k) backends \<Rightarrow> string \<Rightarrow> string \<Rightarrow> json_value \<Rightarrow> ('l, 's, 'w, 'k) platform
    \<Rightarrow> ('l, 's, 'w, 'k) platform" where
  "reschedule_one env bk node_iri node_name workload st =
     (case sparql_value ''workload'' workload of
        None \<Rightarrow> st
      | Some workload_iri \<Rightarrow>
          let resource_type = (case sparql_value ''rtype'' workload of Some t \<Rightarrow> t | None \<Rightarrow> ''Container'');
              product = sparql_value ''product'' workload;
              cid = pe_correlation env (pf_made st);
              st = emit_result env bk ''WorkloadRescheduled'' workload_iri product cid
                (JvObject [(''workload_iri'', JvString workload_iri), (''from_node_iri'', JvString node_iri),
                  (''reason'', JvString (''Node '' @ node_name @ '' became unreachable''))]) st
          in emit_result env bk ''ResourceDeclared'' workload_iri product cid
               (JvObject [(''resource_iri'', JvString workload_iri), (''resource_type'', JvString resource_type)]) st)"

definition failed_node_query :: "string \<Rightarrow> string" where
  "failed_node_query node_iri =
     ''SELECT ?workload ?rtype ?product WHERE { ?workload <https://picloud.local/ontology#scheduledOn> <'' @ node_iri @
     ''> . ?workload <https://picloud.local/ontology#resourceType> ?rtype . '' @
     ''OPTIONAL { ?workload <https://picloud.local/ontology#product> ?product } }''"

definition reschedule_workloads_from_failed_node ::
  "provisioner_env \<Rightarrow> ('l, 's, 'w, 'k) backends \<Rightarrow> json_event \<Rightarrow> ('l, 's, 'w, 'k) platform \<Rightarrow> ('l, 's, 'w, 'k) platform" where
  "reschedule_workloads_from_failed_node env bk event st =
     (case get_str ''node_iri'' (ev_payload event) of
        None \<Rightarrow> st
      | Some node_iri \<Rightarrow>
          (case bk_query bk (failed_node_query node_iri) of
             Inl _ \<Rightarrow> st
           | Inr affected \<Rightarrow>
               fold (reschedule_one env bk node_iri (str_or ''node_name'' ''unknown'' (ev_payload event))) affected st))"

section \<open>The task\<close>

definition provisioner_step ::
  "provisioner_env \<Rightarrow> ('l, 's, 'w, 'k) backends \<Rightarrow> json_event \<Rightarrow> ('l, 's, 'w, 'k) platform
    \<Rightarrow> ('l, 's, 'w, 'k) platform option" where
  "provisioner_step env bk event st =
     (if ev_type event = ''ResourceDeclared'' then provision_resource env bk event st
      else if ev_type event = ''ProductDeleted'' then Some (cascade_delete_product env bk event st)
      else if ev_type event = ''NodeUnreachable'' then Some (reschedule_workloads_from_failed_node env bk event st)
      else Some st)"

fun provisioner_task ::
  "provisioner_env \<Rightarrow> ('l, 's, 'w, 'k) backends \<Rightarrow> json_value recv list \<Rightarrow> ('l, 's, 'w, 'k) platform
    \<Rightarrow> ('l, 's, 'w, 'k) platform option" where
  "provisioner_task env bk [] st = Some st"
| "provisioner_task env bk (Received event # rs) st =
     Option.bind (provisioner_step env bk event st) (provisioner_task env bk rs)"
| "provisioner_task env bk (Lagged n # rs) st = provisioner_task env bk rs st"
| "provisioner_task env bk (Closed # rs) st = Some st"

section \<open>The backends of the platform\<close>

definition platform_backends ::
  "(string \<Rightarrow> json_value list result) \<Rightarrow> disk_io \<Rightarrow> membership \<Rightarrow> 'o os_api \<Rightarrow> sched_env \<Rightarrow> aead_crates \<Rightarrow> bytes
    \<Rightarrow> (json_value mem_log, storage_backend \<times> fs, scheduler \<times> 'o, secret_store) backends" where
  "platform_backends query io membership os sv cr nonce =
     \<lparr>bk_log = mem_log_api, bk_query = query,
      bk_allocate = (\<lambda>iri size intent ty (s, f). allocate_volume io None membership iri size intent ty s f),
      bk_delete = (\<lambda>iri (s, f). delete_volume io iri s f),
      bk_schedule = schedule os sv, bk_stop = stop os,
      bk_store_secret = store_secret cr nonce\<rparr>"

section \<open>One terminal event\<close>

lemma emit_log:
  assumes "bk_log bk = mem_log_api"
  shows "ml_events (pf_log (emit_result env bk ty iri p cid pl st)) = ml_events (pf_log st) @ [provisioner_event env (pf_made st) ty iri p cid pl]"
  using assms by (simp add: emit_result_def provisioner_event_def event_envelope_new_def seen_key_def)

lemma emit_keeps [simp]:
  "pf_storage (emit_result env bk ty iri p cid pl st) = pf_storage st"
  "pf_workloads (emit_result env bk ty iri p cid pl st) = pf_workloads st"
  "pf_secrets (emit_result env bk ty iri p cid pl st) = pf_secrets st"
  "pf_router (emit_result env bk ty iri p cid pl st) = pf_router st"
  by (simp_all add: emit_result_def)

definition fallback_parses :: "provisioner_env \<Rightarrow> bool" where
  "fallback_parses env \<longleftrightarrow> (\<forall>p. pe_url_parses env (''https://picloud.local/products/'' @ p @ ''/ingresses/unknown''))"

lemma ingress_iri_Some: "fallback_parses env \<Longrightarrow> \<exists>i. ingress_iri_of env iri p = Some i"
  by (simp add: ingress_iri_of_def resource_iri_new_def fallback_parses_def)

lemma provision_returns:
  assumes "fallback_parses env"
  obtains r st' where "provision_by_type env bk ty iri pl st = Some (r, st')" "pf_log st' = pf_log st" "pf_made st' = pf_made st"
proof -
  have "\<exists>r st'. provision_ingress env iri pl st = Some (r, st') \<and> pf_log st' = pf_log st \<and> pf_made st' = pf_made st"
    using ingress_iri_Some [OF assms, of iri "str_or ''product'' ''unknown'' pl"]
    by (cases "pf_router st") (auto simp: provision_ingress_def Let_def)
  then show ?thesis
    using that by (fastforce simp: provision_by_type_def provision_volume_def provision_container_def provision_binary_def
        provision_secret_def provision_workload_def Let_def split: prod.splits if_splits)
qed

lemma terminal_type:
  "fst (terminal_event env iri r) = (case r of Inr _ \<Rightarrow> ''ResourceReady'' | Inl _ \<Rightarrow> ''ResourceFailed'')"
  "get_str ''resource_iri'' (snd (terminal_event env iri r)) = Some iri"
  by (simp_all add: terminal_event_def get_str_def jget_def as_str_def split: sum.split)

lemma provision_resource_eq:
  assumes "get_str ''resource_type'' (ev_payload event) = Some ty" "get_str ''resource_iri'' (ev_payload event) = Some iri"
    and "provision_by_type env bk ty iri (ev_payload event) st = Some (r, st1)"
  shows "provision_resource env bk event st =
    Some (emit_result env bk (fst (terminal_event env iri r)) iri (ev_product event) (ev_correlation_id event)
      (snd (terminal_event env iri r)) st1)"
  using assms by (simp add: provision_resource_def split: prod.split)

text \<open>A declared resource gets exactly one terminal event, with its correlation identifier and product; the event tells of a failure
  exactly when the backend reported one.\<close>

theorem one_terminal_event:
  assumes "fallback_parses env" "get_str ''resource_type'' (ev_payload event) = Some ty" "get_str ''resource_iri'' (ev_payload event) = Some iri"
  shows "\<exists>r st1 st2 e. provision_by_type env bk ty iri (ev_payload event) st = Some (r, st1) \<and>
     provision_resource env bk event st = Some st2 \<and> pf_log st2 = snd (el_append (bk_log bk) e (pf_log st)) \<and>
     ev_type e = (case r of Inr _ \<Rightarrow> ''ResourceReady'' | Inl _ \<Rightarrow> ''ResourceFailed'') \<and> ev_source e = iri \<and>
     ev_product e = ev_product event \<and> ev_correlation_id e = ev_correlation_id event \<and>
     get_str ''resource_iri'' (ev_payload e) = Some iri"
proof -
  obtain r st1 where r: "provision_by_type env bk ty iri (ev_payload event) st = Some (r, st1)" "pf_log st1 = pf_log st"
    using provision_returns [OF assms(1)] by blast
  let ?t = "terminal_event env iri r"
  let ?e = "provisioner_event env (pf_made st1) (fst ?t) iri (ev_product event) (ev_correlation_id event) (snd ?t)"
  have "provision_resource env bk event st =
      Some (emit_result env bk (fst ?t) iri (ev_product event) (ev_correlation_id event) (snd ?t) st1)"
    by (rule provision_resource_eq [OF assms(2,3) r(1)])
  moreover have "pf_log (emit_result env bk (fst ?t) iri (ev_product event) (ev_correlation_id event) (snd ?t) st1) =
      snd (el_append (bk_log bk) ?e (pf_log st))"
    by (simp add: emit_result_def r(2))
  ultimately show ?thesis
    using r(1) terminal_type [of env iri r] by (auto simp: provisioner_event_def event_envelope_new_def)
qed

section \<open>From declaration to schedule\<close>

text \<open>What the derived encodings promise: decoding gives back what was encoded, and a structure is read from its fields.\<close>

definition serde_ok :: "serde_api \<Rightarrow> bool" where
  "serde_ok sd \<longleftrightarrow> (\<forall>v. sd_env_from sd (sd_env_to sd v) = Some v) \<and>
     (\<forall>p pr. p < 2 ^ 16 \<longrightarrow> sd_port_from sd (JvObject [(''port'', jnat p), (''protocol'', sd_protocol_to sd pr)]) =
        Some \<lparr>pt_port = p, pt_protocol = pr\<rparr>) \<and>
     (\<forall>v p b. sd_mount_from sd (JvObject [(''volume'', JvString v), (''path'', JvString p), (''read_only'', JvBool b)]) =
        Some \<lparr>vt_volume = v, vt_path = p, vt_read_only = b\<rparr>)"

lemma map_filter_id: "(\<And>x. x \<in> set xs \<Longrightarrow> f (g x) = Some x) \<Longrightarrow> List.map_filter f (map g xs) = xs"
  by (induction xs) (simp_all add: List.map_filter_def)

lemma as_u64_jnat [simp]: "as_u64 (jnat n) = (if n < 2 ^ 64 then Some n else None)"
proof -
  have "int n < 2 ^ 64 \<longleftrightarrow> n < 2 ^ 64" using of_nat_less_iff [where ?'a = int, of n "2 ^ 64"] by simp
  then show ?thesis by (simp add: as_u64_def jnat_def)
qed

lemma unat_lt2p_64 [simp]: "unat v < 18446744073709551616" for v :: u64
  using unsigned_less [of v] by simp

lemma limit_round_trip: "map_option of_nat (as_u64 (opt_u32 v)) = v" for v :: "u32 option"
proof (cases v)
  case (Some n)
  have "unat n < 2 ^ 32" using unsigned_less [of n, where ?'a = nat] by simp
  then have "unat n < 2 ^ 64" by simp
  then show ?thesis using Some by (simp add: opt_u32_def)
qed (simp add: opt_u32_def as_u64_def)

lemma container_payload_parts:
  fixes c aenv defines "pl \<equiv> container_payload aenv c" and "spec \<equiv> container_to_spec (aq_json_text aenv) c"
  shows "str_or ''image'' d pl = cs_image spec" "str_or ''identity'' d pl = cs_identity spec"
    "limit_of ''cpu_millicores'' pl = rl_cpu_millicores (cs_resources spec)"
    "limit_of ''memory_mb'' pl = rl_memory_mb (cs_resources spec)"
    "get_str ''product_version'' pl = None" "get_str ''resource_type'' pl = Some ''Container''"
    "get_str ''resource_iri'' pl = Some (iri_resource (aq_domain aenv) (cd_product c) ''containers'' (cd_name c))"
    "json_array ''ports'' pl = map (\<lambda>p. JvObject [(''port'', jnat (pt_port p)),
       (''protocol'', sd_protocol_to (aq_serde aenv) (pt_protocol p))]) (cs_ports spec)"
    "json_array ''mounts'' pl = map (\<lambda>m. JvObject [(''volume'', JvString (vt_volume m)), (''path'', JvString (vt_path m)),
       (''read_only'', JvBool (vt_read_only m))]) (cs_mounts spec)"
    "jget ''env'' pl = Some (JvObject (map (\<lambda>(k, v). (k, sd_env_to (aq_serde aenv) v)) (cs_env spec)))"
  by (simp_all add: pl_def spec_def container_payload_def Let_def str_or_def get_str_def jget_def as_str_def json_array_def
      as_array_def limit_of_def limit_round_trip)

lemma payload_container_round_trip:
  assumes "serde_ok (aq_serde aenv)" "\<forall>p\<in>set (cd_ports c). p < 2 ^ 16"
  shows "payload_container (aq_serde aenv) (container_payload aenv c) = container_to_spec (aq_json_text aenv) c"
proof -
  let ?spec = "container_to_spec (aq_json_text aenv) c" and ?pl = "container_payload aenv c"
  have "parse_ports (aq_serde aenv) ?pl = cs_ports ?spec"
    unfolding parse_ports_def container_payload_parts
    by (rule map_filter_id) (use assms in \<open>auto simp: container_to_spec_def serde_ok_def\<close>)
  moreover have "parse_mounts (aq_serde aenv) ?pl = cs_mounts ?spec"
    unfolding parse_mounts_def container_payload_parts
    by (rule map_filter_id) (use assms(1) in \<open>auto simp: serde_ok_def\<close>)
  moreover have "parse_env (aq_serde aenv) ?pl = cs_env ?spec"
    using assms(1) by (simp add: parse_env_def container_payload_parts serde_ok_def comp_def case_prod_beta)
  ultimately show ?thesis
    by (simp add: payload_container_def container_payload_parts parse_resource_limits_def container_to_spec_def)
qed

lemma schedule_keeps_spec:
  assumes "schedule os sv iri spec sw = (Inr h, w)"
  shows "map_option we_spec (map_of (ps_workloads (fst w)) iri) = Some spec"
  using assms by (auto simp: schedule_def Let_def split: sum.splits if_splits prod.splits)

text \<open>C21. From a resource file to a running workload: the event that an apply logs for a container makes the provisioner ask the
  scheduler, under the IRI of the declaration, for exactly the specification that was declared (image, identity, limits, mounts,
  environment and ports); the scheduler keeps an entry with that specification when it accepts, and the log gets one event that
  is \<open>ResourceReady\<close> exactly then.\<close>

theorem declared_container_runs:
  assumes "serde_ok (aq_serde aenv)" "pe_serde env = aq_serde aenv" "\<forall>p\<in>set (cd_ports c). p < 2 ^ 16"
    and "declare_resource aenv (ContainerDecl c) = Some parts" "event = declaration_event aenv n (ContainerDecl c) parts"
    and "iri = iri_resource (aq_domain aenv) (cd_product c) ''containers'' (cd_name c)"
    and "schedule os sv iri (Container (container_to_spec (aq_json_text aenv) c)) (pf_workloads st) = (r, w)"
  shows "\<exists>st' e. provisioner_step env (platform_backends query io ms os sv cr nonce) event st = Some st' \<and> pf_workloads st' = w \<and>
     ml_events (pf_log st') = ml_events (pf_log st) @ [e] \<and> ev_source e = iri \<and>
     ev_correlation_id e = aq_correlation_id aenv \<and>
     (case r of
        Inr _ \<Rightarrow> ev_type e = ''ResourceReady'' \<and>
          map_option we_spec (map_of (ps_workloads (fst w)) iri) = Some (Container (container_to_spec (aq_json_text aenv) c))
      | Inl _ \<Rightarrow> ev_type e = ''ResourceFailed'')"
proof -
  let ?bk = "platform_backends query io ms os sv cr nonce"
  let ?spec = "container_to_spec (aq_json_text aenv) c" and ?pl = "container_payload aenv c"
  have pl: "ev_payload event = ?pl" "ev_type event = ''ResourceDeclared''" "ev_correlation_id event = aq_correlation_id aenv"
    using assms(4,5) by (auto simp: declaration_event_def with_idempotency_key_def event_envelope_new_def)
  have "provision_by_type env ?bk ''Container'' iri ?pl st = Some (map_sum id (\<lambda>_. ()) r, st\<lparr>pf_workloads := w\<rparr>)"
    using assms(7) payload_container_round_trip [OF assms(1,3)]
    by (simp add: provision_by_type_def provision_container_def provision_workload_def assms(2) platform_backends_def)
  from provision_resource_eq [OF _ _ this [folded pl(1)]] have
    "provisioner_step env ?bk event st = Some (emit_result env ?bk (fst (terminal_event env iri (map_sum id (\<lambda>_. ()) r))) iri
       (ev_product event) (aq_correlation_id aenv) (snd (terminal_event env iri (map_sum id (\<lambda>_. ()) r))) (st\<lparr>pf_workloads := w\<rparr>))"
    using pl assms(6) by (simp add: provisioner_step_def container_payload_parts)
  moreover have "bk_log ?bk = mem_log_api" by (simp add: platform_backends_def)
  moreover have "map_option we_spec (map_of (ps_workloads (fst w)) iri) = Some (Container ?spec)" if "r = Inr h" for h
    using assms(7) that schedule_keeps_spec by metis
  ultimately show ?thesis
    by (cases r) (auto simp: emit_log terminal_type provisioner_event_def event_envelope_new_def)
qed

definition ex_provisioner :: provisioner_env where
  "ex_provisioner =
     \<lparr>pe_domain = ''x'', pe_serde = derived_serde, pe_url_parses = (\<lambda>_. True), pe_show_uuid = (\<lambda>_. ''u''), pe_fresh = of_nat,
      pe_correlation = of_nat, pe_now = (\<lambda>n. int n)\<rparr>"

definition ex_container :: container_decl where
  "ex_container =
     \<lparr>cd_name = ''web'', cd_product = ''p'', cd_image = ''img:1'', cd_identity = ''svc'', cd_cpu = None, cd_memory = None,
      cd_mounts = [\<lparr>md_volume = ''v'', md_path = ''/data'', md_read_only = False\<rparr>], cd_env = [(''K'', JvString ''v'')],
      cd_ports = [80], cd_tags = []\<rparr>"

definition ex_platform :: "(json_value mem_log, storage_backend \<times> fs, scheduler \<times> unit, secret_store) platform" where
  "ex_platform =
     \<lparr>pf_log = mem_new, pf_storage = (ex_backend, ex_disk), pf_workloads = (new_with_runtime_and_secrets 1 ''x'' NoRuntime None, ()),
      pf_secrets = \<lparr>ss_encryption_key = [], ss_secrets = []\<rparr>, pf_table = Some [], pf_router = Some ingress_router_new, pf_made = 0\<rparr>"

lemma derived_serde_ok: "serde_ok derived_serde"
  unfolding serde_ok_def
  by (auto simp: derived_serde_def get_str_def jget_def as_str_def as_bool_def split: env_value.split protocol.split)

lemma ex_container_scheduled:
  "\<exists>h w. schedule ex_os \<lparr>sv_trace_id = 1, sv_parent_id = 1, sv_now = 5, sv_cpus_text = \<lambda>_. []\<rparr> iri
     (Container (container_to_spec (aq_json_text ex_apply_env) ex_container)) (pf_workloads ex_platform) = (Inr h, w)"
  by (simp add: ex_platform_def schedule_def container_to_spec_def decl_limits_def ex_container_def limits_validate_def
      spec_limits_def bound_errors_def new_with_runtime_and_secrets_def spawn_workload_def spawn_container_def next_pid_def Let_def)

theorem declared_container_runs_witness:
  "\<exists>parts st' e. declare_resource ex_apply_env (ContainerDecl ex_container) = Some parts \<and>
     provisioner_step ex_provisioner
       (platform_backends (\<lambda>_. Inr []) ok_io None ex_os \<lparr>sv_trace_id = 1, sv_parent_id = 1, sv_now = 5, sv_cpus_text = \<lambda>_. []\<rparr> ex_aead [])
       (declaration_event ex_apply_env 0 (ContainerDecl ex_container) parts) ex_platform = Some st' \<and>
     ml_events (pf_log st') = [e] \<and> ev_type e = ''ResourceReady'' \<and>
     map_option we_spec (map_of (ps_workloads (fst (pf_workloads st'))) (iri_resource ''x'' ''p'' ''containers'' ''web'')) =
       Some (Container (container_to_spec (\<lambda>_. []) ex_container))"
proof -
  let ?sv = "\<lparr>sv_trace_id = 1, sv_parent_id = 1, sv_now = 5, sv_cpus_text = \<lambda>_. []\<rparr>"
  let ?iri = "iri_resource (aq_domain ex_apply_env) (cd_product ex_container) ''containers'' (cd_name ex_container)"
  obtain h w where sched: "schedule ex_os ?sv ?iri (Container (container_to_spec (aq_json_text ex_apply_env) ex_container))
      (pf_workloads ex_platform) = (Inr h, w)" using ex_container_scheduled by blast
  obtain parts where parts: "declare_resource ex_apply_env (ContainerDecl ex_container) = Some parts" by simp
  have serde: "serde_ok (aq_serde ex_apply_env)" "pe_serde ex_provisioner = aq_serde ex_apply_env"
    by (simp_all add: ex_apply_env_def ex_provisioner_def derived_serde_ok)
  have ports: "\<forall>p\<in>set (cd_ports ex_container). p < 2 ^ 16" by (simp add: ex_container_def)
  have fields: "ml_events (pf_log ex_platform) = []" "aq_json_text ex_apply_env = (\<lambda>_. [])"
    "?iri = iri_resource ''x'' ''p'' ''containers'' ''web''"
    by (simp_all add: ex_platform_def mem_new_def mem_with_capacity_def ex_apply_env_def ex_container_def)
  show ?thesis
    using declared_container_runs [OF serde ports parts refl refl sched, of "\<lambda>_. Inr []" ok_io None ex_aead "[]" 0] parts
    unfolding fields sum.case append_Nil by blast
qed

section \<open>What the events lose\<close>

lemmas event_reads = declaration_event_def with_idempotency_key_def event_envelope_new_def provisioner_event_def provision_by_type_def
  str_or_def get_str_def jget_def as_str_def as_bool_def json_array_def as_array_def limit_of_def

lemma provision_resource_state:
  assumes "get_str ''resource_type'' (ev_payload event) = Some ty" "get_str ''resource_iri'' (ev_payload event) = Some iri"
    and "provision_by_type env bk ty iri (ev_payload event) st = Some (r, st1)"
  shows "\<exists>st'. provision_resource env bk event st = Some st' \<and> pf_storage st' = pf_storage st1 \<and> pf_workloads st' = pf_workloads st1 \<and>
    pf_secrets st' = pf_secrets st1 \<and> pf_router st' = pf_router st1"
  by (simp add: provision_resource_eq [OF assms])

text \<open>The event of a secret has no value, so that the empty string is stored.\<close>

theorem applied_secret_is_empty:
  assumes "declare_resource aenv (SecretDecl s) = Some parts" "event = declaration_event aenv n (SecretDecl s) parts"
  shows "\<exists>st'. provision_resource env bk event st = Some st' \<and>
    pf_secrets st' = snd (bk_store_secret bk (sed_product s) (sed_name s) [] (pf_secrets st))"
  using assms by (auto simp: declaration_event_def with_idempotency_key_def event_envelope_new_def provision_resource_def
      provision_by_type_def provision_secret_def str_or_def get_str_def jget_def as_str_def emit_result_def Let_def split: prod.splits)

text \<open>An internal ingress is registered as an external route, visible at its host.\<close>

theorem applied_internal_ingress_is_public:
  assumes "declare_resource aenv (IngressDecl i) = Some parts" "event = declaration_event aenv n (IngressDecl i) parts"
    and "fallback_parses env" "pf_router st = Some ingress_router_new" "ing_host i = Some h"
  shows "\<exists>st' rt e. provision_resource env bk event st = Some st' \<and> pf_router st' = Some rt \<and>
    route_lookup rt h (ing_path i) = Some e \<and> \<not> re_internal e"
proof -
  let ?iri = "iri_resource (aq_domain aenv) (ing_product i) ''ingresses'' (ing_name i)"
  obtain j where j: "ingress_iri_of env ?iri (ing_product i) = Some j" using ingress_iri_Some [OF assms(3)] by blast
  let ?e = "\<lparr>re_path_prefix = ing_path i, re_upstream_addr = ''127.0.0.1'', re_upstream_port =
      (case as_u64 (jnat (ing_port i)) of Some n \<Rightarrow> n | None \<Rightarrow> 8080) mod 2 ^ 16,
     re_product = ing_product i, re_internal = False, re_ingress_iri = j\<rparr>"
  have "\<exists>r st1. provision_by_type env bk ''Ingress'' ?iri (ev_payload event) st = Some (r, st1) \<and>
      pf_router st1 = Some (upsert_route h ?e ingress_router_new)"
    using assms(1,2,4,5) j by (auto simp: event_reads provision_ingress_def Let_def opt_json_def)
  moreover have "get_str ''resource_type'' (ev_payload event) = Some ''Ingress''" "get_str ''resource_iri'' (ev_payload event) = Some ?iri"
    using assms(1,2) by (auto simp: event_reads Let_def)
  ultimately obtain st' where "provision_resource env bk event st = Some st'" "pf_router st' = Some (upsert_route h ?e ingress_router_new)"
    using provision_resource_state by metis
  moreover have "route_lookup (upsert_route h ?e ingress_router_new) h (ing_path i) = Some ?e"
    by (rule upsert_then_lookup) (simp_all add: starts_with_def host_routes_def ingress_router_new_def)
  ultimately show ?thesis by fastforce
qed

text \<open>A volume is allocated with the default intent whatever its declaration says.\<close>

theorem applied_intent_is_ignored:
  assumes "declare_resource aenv (VolumeDecl v) = Some parts" "event = declaration_event aenv n (VolumeDecl v) parts"
  shows "\<exists>st'. provision_resource env bk event st = Some st' \<and>
    pf_storage st' = snd (bk_allocate bk (iri_resource (aq_domain aenv) (vd_product v) ''volumes'' (vd_name v)) (vd_size_gb v)
      storage_intent_default Mounted (pf_storage st))"
  using assms by (auto simp: event_reads provision_resource_def provision_volume_def Let_def unat_lt2p_64 split: prod.splits)

text \<open>Arguments, identity, mounts, environment and limits of a binary do not reach the scheduler.\<close>

theorem applied_binary_is_bare:
  assumes "declare_resource aenv (BinaryDecl b) = Some parts" "event = declaration_event aenv n (BinaryDecl b) parts"
  shows "\<exists>st'. provision_resource env bk event st = Some st' \<and>
    pf_workloads st' = snd (bk_schedule bk (iri_resource (aq_domain aenv) (bd_product b) ''binaries'' (bd_name b))
      (Binary \<lparr>bs_executable = bd_executable b, bs_args = [], bs_identity = ''default'',
         bs_resources = \<lparr>rl_cpu_millicores = None, rl_memory_mb = None\<rparr>, bs_mounts = [], bs_env = [],
         bs_restart_policy = Always, bs_product_version = None\<rparr>) (pf_workloads st))"
  using assms by (auto simp: event_reads provision_resource_def provision_binary_def provision_workload_def payload_binary_def
      parse_args_def parse_mounts_def parse_env_def parse_resource_limits_def List.map_filter_def Let_def split: prod.splits)

text \<open>Cascading deletion stops a workload but the scheduler keeps its entry: when the product is applied again, the workload fails.\<close>

theorem redeployed_workload_fails:
  assumes "map_of (ps_workloads (fst w)) iri \<noteq> None" "limits_validate (spec_limits spec) = Inr ()"
  shows "fst (schedule os sv iri spec (snd (stop os iri w))) = Inl (ResourceAlreadyExists iri)"
proof -
  obtain s v where w: "w = (s, v)" by (cases w)
  have "map_of (ps_workloads (fst (snd (stop os iri w)))) iri \<noteq> None"
    using assms(1) by (auto simp: w stop_def Let_def)
  then show ?thesis using assms(2) by (simp add: schedule_def)
qed

text \<open>A workload of a failed node is declared again without its specification: the scheduler is asked for an image \<open>unknown\<close>.\<close>

theorem rescheduled_workload_is_unknown:
  assumes "event = provisioner_event env n ''ResourceDeclared'' iri product cid
      (JvObject [(''resource_iri'', JvString iri), (''resource_type'', JvString ''Container'')])"
  shows "\<exists>st'. provision_resource env bk event st = Some st' \<and>
    pf_workloads st' = snd (bk_schedule bk iri (Container \<lparr>cs_image = ''unknown'', cs_identity = ''default'',
      cs_resources = \<lparr>rl_cpu_millicores = None, rl_memory_mb = None\<rparr>, cs_mounts = [], cs_env = [], cs_ports = [],
      cs_health_check = None, cs_restart_policy = Always, cs_product_version = None\<rparr>) (pf_workloads st))"
  using assms by (auto simp: event_reads provision_resource_def provision_container_def provision_workload_def payload_container_def
      parse_ports_def parse_mounts_def parse_env_def parse_resource_limits_def List.map_filter_def split: prod.splits)

section \<open>Deleting a product\<close>

lemma delete_child_log [simp]: "pf_log (delete_child bk ty iri st) = pf_log st"
  by (simp add: delete_child_def)

text \<open>Every child the projector names gets one \<open>ResourceDeleted\<close> event, in order, whatever the backends answer.\<close>

theorem cascade_events:
  assumes "bk_log bk = mem_log_api"
  shows "\<exists>es. ml_events (pf_log (delete_children env bk p cid rows st)) = ml_events (pf_log st) @ es \<and>
    map (\<lambda>e. (ev_type e, ev_source e, ev_product e, ev_correlation_id e)) es =
      map (\<lambda>i. (''ResourceDeleted'', i, Some p, cid)) (List.map_filter (sparql_value ''res'') rows)"
proof (induction rows arbitrary: st)
  case (Cons row rows)
  show ?case
  proof (cases "sparql_value ''res'' row")
    case None
    then show ?thesis using Cons [of st] by (simp add: List.map_filter_def)
  next
    case (Some i)
    let ?st = "emit_result env bk ''ResourceDeleted'' i (Some p) cid (JvObject [(''resource_iri'', JvString i)])
      (delete_child bk (case sparql_value ''rtype'' row of Some t \<Rightarrow> t | None \<Rightarrow> ''Unknown'') i st)"
    obtain es where es: "ml_events (pf_log (delete_children env bk p cid rows ?st)) = ml_events (pf_log ?st) @ es"
      "map (\<lambda>e. (ev_type e, ev_source e, ev_product e, ev_correlation_id e)) es =
        map (\<lambda>i. (''ResourceDeleted'', i, Some p, cid)) (List.map_filter (sparql_value ''res'') rows)"
      using Cons by blast
    then show ?thesis using Some
      by (simp add: emit_log [OF assms] List.map_filter_def provisioner_event_def event_envelope_new_def)
  qed
qed (simp add: List.map_filter_def)

lemma delete_volume_gone: "fst ` set (sb_volumes (fst (snd (delete_volume io iri s f)))) = fst ` set (sb_volumes s) - {iri}"
proof (cases "map_of (sb_volumes s) iri")
  case None
  then have "delete_volume io iri s f = (Inl (ResourceNotFound iri), s, f)" by (simp add: delete_volume_def)
  then show ?thesis using None by (simp add: map_of_eq_None_iff)
next
  case (Some r)
  have "fst (snd (delete_volume io iri s f)) = s\<lparr>sb_volumes := hm_remove iri (sb_volumes s)\<rparr>"
    using Some by (simp add: delete_volume_def Let_def split: prod.split sum.split)
  then show ?thesis by (auto simp: hm_remove_def)
qed

lemma delete_children_volumes:
  assumes "bk_delete bk = (\<lambda>iri (s, f). delete_volume io iri s f)"
  shows "fst ` set (sb_volumes (fst (pf_storage (delete_children env bk p cid rows st)))) =
    fst ` set (sb_volumes (fst (pf_storage st))) -
      {i. \<exists>row\<in>set rows. sparql_value ''res'' row = Some i \<and> sparql_value ''rtype'' row = Some ''Volume''}"
proof (induction rows arbitrary: st)
  case (Cons row rows)
  obtain s f where "pf_storage st = (s, f)" by (cases "pf_storage st")
  then show ?case using Cons assms
    by (cases "sparql_value ''res'' row"; cases "sparql_value ''rtype'' row")
      (auto simp: delete_child_def delete_volume_gone)
qed simp

text \<open>Deleting a product removes exactly the volumes the projector names from the storage backend, whatever the file
  system answers.\<close>

theorem cascade_frees_volumes:
  assumes "get_str ''product_iri'' (ev_payload event) = Some iri" "ev_product event = Some p"
    and "bk_query bk (cascade_query iri) = Inr rows" "bk_delete bk = (\<lambda>iri (s, f). delete_volume io iri s f)"
  shows "fst ` set (sb_volumes (fst (pf_storage (cascade_delete_product env bk event st)))) =
    fst ` set (sb_volumes (fst (pf_storage st))) -
      {i. \<exists>row\<in>set rows. sparql_value ''res'' row = Some i \<and> sparql_value ''rtype'' row = Some ''Volume''}"
  using assms by (simp add: cascade_delete_product_def delete_children_volumes)

section \<open>The task runs on\<close>

text \<open>The task handles every event it receives and ends only when the log is closed.\<close>

theorem provisioner_never_panics:
  assumes "fallback_parses env"
  shows "provisioner_task env bk rs st \<noteq> None"
proof (induction rs arbitrary: st)
  case (Cons r rs)
  have "provision_by_type env bk ty iri pl st \<noteq> None" for ty iri pl
    by (rule provision_returns [OF assms, of bk ty iri pl st]) simp
  then have "provisioner_step env bk e st \<noteq> None" for e
    by (simp add: provisioner_step_def provision_resource_def split: option.split prod.split) (metis option.distinct(1))
  then show ?case using Cons by (cases r) (auto simp: bind_eq_None_conv)
qed simp

end
