(* ===== verification/Ingress_Gateway.thy ===== *)
theory Ingress_Gateway
  imports Provisioner
begin

text \<open>
  The ingress gateway: certificates per host name (\<open>crates/picloud-http/src/tls.rs\<close>), the handler of ingress events
  (\<open>ingress.rs\<close>) and the reverse proxy (\<open>proxy.rs\<close>, \<open>handle_ingress_proxy\<close> of \<open>implementation.rs\<close>). The certificate authority, the
  PEM and key parsers and the HTTP client are arguments; a proxied request yields the answer and the requests sent upstream.
\<close>

section \<open>Certificates\<close>

record signed_cert =
  sc_cert_pem :: string
  sc_expires_at :: timestamp

record issued_cert =
  ic_hostname :: string
  ic_cert_pem :: string
  ic_key_pem :: string
  ic_expires_at :: timestamp

record tls_state =
  tl_certs :: "(string \<times> issued_cert) list"
  tl_ca :: "(string \<Rightarrow> signed_cert result) option"

definition tls_new :: tls_state where
  "tls_new = \<lparr>tl_certs = [], tl_ca = None\<rparr>"

definition tls_with_ca :: "(string \<Rightarrow> signed_cert result) \<Rightarrow> tls_state" where
  "tls_with_ca ca = \<lparr>tl_certs = [], tl_ca = Some ca\<rparr>"

text \<open>A time is a number of nanoseconds.\<close>

definition hours :: "int \<Rightarrow> int" where
  "hours n = n * 3600 * 1000000000"

definition ensure_cert :: "timestamp \<Rightarrow> string \<Rightarrow> tls_state \<Rightarrow> unit result \<times> tls_state" where
  "ensure_cert now hostname t =
     (if (case map_of (tl_certs t) hostname of Some c \<Rightarrow> \<not> ic_expires_at c < now + hours 24 | None \<Rightarrow> False) then (Inr (), t)
      else case tl_ca t of
        None \<Rightarrow> (Inr (), t)
      | Some ca \<Rightarrow>
          (case ca hostname of
             Inl e \<Rightarrow> (Inl e, t)
           | Inr sg \<Rightarrow>
               (Inr (), t\<lparr>tl_certs := hm_insert hostname \<lparr>ic_hostname = hostname, ic_cert_pem = sc_cert_pem sg, ic_key_pem = [],
                  ic_expires_at = sc_expires_at sg\<rparr> (tl_certs t)\<rparr>)))"

definition remove_cert :: "string \<Rightarrow> tls_state \<Rightarrow> tls_state" where
  "remove_cert hostname t = t\<lparr>tl_certs := hm_remove hostname (tl_certs t)\<rparr>"

definition cert_count :: "tls_state \<Rightarrow> nat" where
  "cert_count t = length (tl_certs t)"

text \<open>The parsers of certificates and keys.\<close>

record pem_api =
  pm_certs :: "string \<Rightarrow> bytes list"
  pm_private_key :: "string \<Rightarrow> bytes option"
  pm_signing_key :: "bytes \<Rightarrow> bytes option"

definition sni_resolve :: "pem_api \<Rightarrow> tls_state \<Rightarrow> string option \<Rightarrow> (bytes list \<times> bytes) option" where
  "sni_resolve pm t server_name =
     Option.bind server_name (\<lambda>hostname.
     Option.bind (map_of (tl_certs t) hostname) (\<lambda>cert.
       if ic_cert_pem cert = [] \<or> ic_key_pem cert = [] then None
       else let cert_chain = pm_certs pm (ic_cert_pem cert) in
         if cert_chain = [] then None
         else Option.bind (pm_private_key pm (ic_key_pem cert)) (\<lambda>key_der.
              map_option (\<lambda>signing_key. (cert_chain, signing_key)) (pm_signing_key pm key_der))))"

section \<open>Ingress events\<close>

record gateway =
  gw_router :: ingress_router
  gw_tls :: tls_state

text \<open>\<open>None\<close> is the panic of the second \<open>unwrap\<close> of the IRI.\<close>

definition on_ingress_upserted :: "provisioner_env \<Rightarrow> timestamp \<Rightarrow> json_value \<Rightarrow> gateway \<Rightarrow> (unit result \<times> gateway) option" where
  "on_ingress_upserted env now payload g =
     (let product = str_or ''product'' ''unknown'' payload;
          path_prefix = str_or ''path'' [CHR ''/''] payload;
          upstream_addr = str_or ''upstream_addr'' ''127.0.0.1'' payload;
          upstream_port = (case Option.bind (jget ''port'' payload) as_u64 of Some n \<Rightarrow> n | None \<Rightarrow> 8080) mod 2 ^ 16;
          internal = (case Option.bind (jget ''internal'' payload) as_bool of Some b \<Rightarrow> b | None \<Rightarrow> False);
          hostname = str_or ''host'' ''picloud.local'' payload
      in case ingress_iri_of env (str_or ''ingress_iri'' [] payload) product of
           None \<Rightarrow> None
         | Some ingress_iri \<Rightarrow>
             Some (case (if internal then (Inr (), gw_tls g) else ensure_cert now hostname (gw_tls g)) of
                (Inl e, t) \<Rightarrow> (Inl e, g\<lparr>gw_tls := t\<rparr>)
              | (Inr _, t) \<Rightarrow>
                  (Inr (), g\<lparr>gw_tls := t, gw_router := upsert_route hostname
                     \<lparr>re_path_prefix = path_prefix, re_upstream_addr = upstream_addr, re_upstream_port = upstream_port,
                      re_product = product, re_internal = internal, re_ingress_iri = ingress_iri\<rparr> (gw_router g)\<rparr>)))"

definition on_ingress_deleted :: "provisioner_env \<Rightarrow> json_value \<Rightarrow> gateway \<Rightarrow> unit result \<times> gateway" where
  "on_ingress_deleted env payload g =
     (let hostname = str_or ''host'' [] payload;
          g = (case resource_iri_new (pe_url_parses env) (str_or ''ingress_iri'' [] payload) of
                 Inr iri \<Rightarrow> g\<lparr>gw_router := remove_route iri (gw_router g)\<rparr>
               | Inl _ \<Rightarrow> g)
      in (Inr (), if hostname \<noteq> [] then g\<lparr>gw_tls := remove_cert hostname (gw_tls g)\<rparr> else g))"

definition on_workload_rescheduled :: "json_value \<Rightarrow> gateway \<Rightarrow> unit result \<times> gateway" where
  "on_workload_rescheduled payload g =
     (let old_addr = str_or ''old_address'' [] payload; new_addr = str_or ''new_address'' [] payload
      in (Inr (), if old_addr \<noteq> [] \<and> new_addr \<noteq> [] then g\<lparr>gw_router := update_upstream old_addr new_addr (gw_router g)\<rparr> else g))"

definition ingress_handle :: "provisioner_env \<Rightarrow> timestamp \<Rightarrow> string \<Rightarrow> json_value \<Rightarrow> gateway \<Rightarrow> (unit result \<times> gateway) option" where
  "ingress_handle env now event_type payload g =
     (if event_type = ''IngressCreated'' \<or> event_type = ''IngressUpdated'' then on_ingress_upserted env now payload g
      else if event_type = ''IngressDeleted'' then Some (on_ingress_deleted env payload g)
      else if event_type = ''WorkloadRescheduled'' then Some (on_workload_rescheduled payload g)
      else Some (Inr (), g))"

section \<open>The proxy\<close>

type_synonym http_headers = "(string \<times> string option) list"

text \<open>Names of headers are lower case; a value that is no text is \<open>None\<close>. The body is an error or its bytes.\<close>

record proxy_request =
  px_method :: string
  px_path :: string
  px_query :: "string option"
  px_headers :: http_headers
  px_body :: "string + bytes"

record upstream_request =
  ur_method :: string
  ur_url :: string
  ur_headers :: "(string \<times> string) list"
  ur_body :: "bytes option"

record upstream_response =
  ux_status :: nat
  ux_headers :: "(string \<times> string) list"
  ux_body :: "string + bytes"

datatype send_error = ConnectError string | OtherError string

datatype proxy_body = RawBody bytes | ErrorJson string string

record proxy_response =
  pr_status :: nat
  pr_headers :: "(string \<times> string) list"
  pr_body :: proxy_body

record drain_state =
  dr_draining :: bool

definition drain_state_new :: drain_state where
  "drain_state_new = \<lparr>dr_draining = False\<rparr>"

definition start_drain :: "drain_state \<Rightarrow> drain_state" where
  "start_drain ds = ds\<lparr>dr_draining := True\<rparr>"

definition stop_drain :: "drain_state \<Rightarrow> drain_state" where
  "stop_drain ds = ds\<lparr>dr_draining := False\<rparr>"

definition is_draining :: "drain_state \<Rightarrow> bool" where
  "is_draining ds = dr_draining ds"

definition drain_notice :: string where
  "drain_notice = ''node is draining '' @ em_dash @ '' retry on another node''"

definition RETRY_AFTER_SECONDS :: string where
  "RETRY_AFTER_SECONDS = ''5''"

definition error_response :: "nat \<Rightarrow> string \<Rightarrow> string \<Rightarrow> proxy_response" where
  "error_response code err message = \<lparr>pr_status = code, pr_headers = [], pr_body = ErrorJson err message\<rparr>"

definition retry_response :: "string \<Rightarrow> proxy_response" where
  "retry_response message =
     (error_response 503 ''service_unavailable'' message)\<lparr>pr_headers := [(''retry-after'', RETRY_AFTER_SECONDS)]\<rparr>"

text \<open>The host is the part of the header before the first colon.\<close>

definition request_host :: "http_headers \<Rightarrow> string" where
  "request_host headers =
     (case map_of headers ''host'' of Some (Some h) \<Rightarrow> takeWhile (\<lambda>c. c \<noteq> CHR '':'') h | _ \<Rightarrow> [])"

definition downstream_path :: "nat \<Rightarrow> string \<Rightarrow> string" where
  "downstream_path n request_path =
     (let rest = drop n request_path in if rest = [] \<or> \<not> starts_with rest [slash] then slash # rest else rest)"

definition query_text :: "string option \<Rightarrow> string" where
  "query_text q = (case q of Some q \<Rightarrow> CHR ''?'' # q | None \<Rightarrow> [])"

definition forwarded_headers :: "http_headers \<Rightarrow> (string \<times> string) list" where
  "forwarded_headers headers =
     List.map_filter (\<lambda>(name, value). if name \<noteq> ''host'' \<and> name \<noteq> ''transfer-encoding''
       then map_option (Pair name) value else None) headers"

definition proxied_request :: "proxy_request \<Rightarrow> string \<Rightarrow> (string \<times> string) list \<Rightarrow> bytes \<Rightarrow> upstream_request" where
  "proxied_request req target_url headers body_bytes =
     \<lparr>ur_method = px_method req, ur_url = target_url, ur_headers = headers, ur_body = (if body_bytes = [] then None else Some body_bytes)\<rparr>"

definition proxied_response :: "upstream_response \<Rightarrow> proxy_response" where
  "proxied_response resp =
     (case ux_body resp of
        Inr b \<Rightarrow>
          \<lparr>pr_status = (if 100 \<le> ux_status resp \<and> ux_status resp \<le> 999 then ux_status resp else 502),
           pr_headers = filter (\<lambda>(name, _). name \<noteq> ''transfer-encoding'') (ux_headers resp), pr_body = RawBody b\<rparr>
      | Inl e \<Rightarrow> error_response 502 ''bad_gateway'' (''failed to read upstream response: '' @ e))"

definition trace_header :: "uuid \<Rightarrow> u64 \<Rightarrow> (string \<times> string) list \<Rightarrow> (string \<times> string) list" where
  "trace_header trace_id parent_id headers =
     (if list_ex (\<lambda>(name, _). name = ''traceparent'') headers then headers
      else headers @ [(''traceparent'', generate_traceparent trace_id parent_id)])"

definition forward_to_upstream ::
  "(upstream_request \<Rightarrow> send_error + upstream_response) \<Rightarrow> uuid \<Rightarrow> u64 \<Rightarrow> route_entry \<Rightarrow> proxy_request
    \<Rightarrow> proxy_response \<times> upstream_request list" where
  "forward_to_upstream send trace_id parent_id route req =
     (let target_url = ''http://'' @ re_upstream_addr route @ '':'' @ show_nat (re_upstream_port route) @
            downstream_path (length (re_path_prefix route)) (px_path req) @ query_text (px_query req);
          headers = trace_header trace_id parent_id (forwarded_headers (px_headers req))
      in case px_body req of
           Inl e \<Rightarrow> (error_response 400 ''bad_request'' (''failed to read request body: '' @ e), [])
         | Inr body_bytes \<Rightarrow>
             let r = proxied_request req target_url headers body_bytes
             in (case send r of
                   Inr resp \<Rightarrow> proxied_response resp
                 | Inl (ConnectError e) \<Rightarrow> retry_response (''upstream unreachable: '' @ re_upstream_addr route)
                 | Inl (OtherError e) \<Rightarrow> error_response 502 ''bad_gateway'' (''failed to connect to workload: '' @ e), [r]))"

definition handle_proxy ::
  "(upstream_request \<Rightarrow> send_error + upstream_response) \<Rightarrow> uuid \<Rightarrow> u64 \<Rightarrow> ingress_router \<Rightarrow> proxy_request
    \<Rightarrow> proxy_response \<times> upstream_request list" where
  "handle_proxy send trace_id parent_id router req =
     (case route_lookup router (request_host (px_headers req)) (px_path req) of
        None \<Rightarrow> (error_response 404 ''not_found''
                  (''no route matches host='' @ request_host (px_headers req) @ '' path='' @ px_path req), [])
      | Some route \<Rightarrow> forward_to_upstream send trace_id parent_id route req)"

text \<open>The older table is searched by path only; of several longest prefixes the last in the order of the table.\<close>

definition legacy_route :: "ingress_table \<Rightarrow> string \<Rightarrow> ingress_route option" where
  "legacy_route table path =
     foldl (\<lambda>best r. case best of
         None \<Rightarrow> Some r
       | Some b \<Rightarrow> if length (ig_path b) \<le> length (ig_path r) then Some r else Some b) None
       (filter (\<lambda>r. starts_with path (ig_path r)) (map snd table))"

definition legacy_proxy ::
  "(upstream_request \<Rightarrow> send_error + upstream_response) \<Rightarrow> ingress_table \<Rightarrow> proxy_request \<Rightarrow> proxy_response \<times> upstream_request list" where
  "legacy_proxy send table req =
     (case legacy_route table (px_path req) of
        None \<Rightarrow> (error_response 404 ''not_found'' (''no route matches path: '' @ px_path req), [])
      | Some route \<Rightarrow>
          (case px_body req of
             Inl e \<Rightarrow> (error_response 400 ''bad_request'' (''failed to read request body: '' @ e), [])
           | Inr body_bytes \<Rightarrow>
               let r = proxied_request req (''http://127.0.0.1:'' @ show_nat (ig_target_port route) @
                         downstream_path (length (ig_path route)) (px_path req) @ query_text (px_query req))
                         (forwarded_headers (px_headers req)) body_bytes
               in (case send r of
                     Inr resp \<Rightarrow> proxied_response resp
                   | Inl (ConnectError e) \<Rightarrow> error_response 502 ''bad_gateway'' (''failed to connect to workload: '' @ e)
                   | Inl (OtherError e) \<Rightarrow> error_response 502 ''bad_gateway'' (''failed to connect to workload: '' @ e), [r])))"

definition handle_ingress_proxy ::
  "(upstream_request \<Rightarrow> send_error + upstream_response) \<Rightarrow> uuid \<Rightarrow> u64 \<Rightarrow> drain_state \<Rightarrow> ingress_router option \<Rightarrow> ingress_table
    \<Rightarrow> proxy_request \<Rightarrow> proxy_response \<times> upstream_request list" where
  "handle_ingress_proxy send trace_id parent_id ds router table req =
     (if is_draining ds then (retry_response drain_notice, [])
      else case router of
        Some rt \<Rightarrow> handle_proxy send trace_id parent_id rt req
      | None \<Rightarrow> legacy_proxy send table req)"

section \<open>What the proxy sends\<close>

lemma starts_with_append_drop: "starts_with s p \<Longrightarrow> s = p @ drop (length p) s"
  by (auto simp: starts_with_iff)

text \<open>A request with a route and a readable body is sent upstream exactly once: with its method and query, to the address of the
  route, with the prefix of the route cut off and one slash in front, without the hop headers and always with a trace context.\<close>

theorem proxy_exact:
  assumes "route_lookup rt (request_host (px_headers req)) (px_path req) = Some e" "px_body req = Inr b"
  shows "\<exists>rest r. px_path req = re_path_prefix e @ rest \<and> snd (handle_proxy send t p rt req) = [r] \<and>
    ur_url r = ''http://'' @ re_upstream_addr e @ '':'' @ show_nat (re_upstream_port e) @
      (if starts_with rest [slash] then rest else slash # rest) @ query_text (px_query req) \<and>
    ur_method r = px_method req \<and> (\<forall>v. (''host'', v) \<notin> set (ur_headers r) \<and> (''transfer-encoding'', v) \<notin> set (ur_headers r)) \<and>
    (\<exists>v. (''traceparent'', v) \<in> set (ur_headers r))"
proof -
  let ?rest = "drop (length (re_path_prefix e)) (px_path req)"
  have "starts_with (px_path req) (re_path_prefix e)" using route_lookup_exact assms(1) by blast
  then have path: "px_path req = re_path_prefix e @ ?rest" by (rule starts_with_append_drop)
  have down: "downstream_path (length (re_path_prefix e)) (px_path req) = (if starts_with ?rest [slash] then ?rest else slash # ?rest)"
    by (auto simp: downstream_path_def Let_def starts_with_def)
  let ?hs = "trace_header t p (forwarded_headers (px_headers req))"
  have hop: "(''host'', v) \<notin> set ?hs" "(''transfer-encoding'', v) \<notin> set ?hs" for v
    by (auto simp: trace_header_def forwarded_headers_def List.map_filter_def split: if_splits)
  have trace: "\<exists>v. (''traceparent'', v) \<in> set ?hs"
    by (auto simp: trace_header_def list_ex_iff)
  show ?thesis
    by (rule exI [of _ ?rest], simp only: handle_proxy_def assms(1) option.case forward_to_upstream_def Let_def assms(2) sum.case snd_conv down)
      (use path hop trace in \<open>simp add: proxied_request_def\<close>)
qed

text \<open>Whatever the events registered, no request leaves through an internal route, and a draining node sends none at all.\<close>

theorem proxy_stays_external:
  assumes "rt = fold router_step ops ingress_router_new" "r \<in> set (snd (handle_ingress_proxy send t p ds (Some rt) table req))"
  shows "\<not> is_draining ds \<and> (\<exists>e. route_lookup rt (request_host (px_headers req)) (px_path req) = Some e \<and> \<not> re_internal e)"
proof -
  have "\<not> is_draining ds" using assms(2) by (auto simp: handle_ingress_proxy_def)
  moreover obtain e where e: "route_lookup rt (request_host (px_headers req)) (px_path req) = Some e"
    using assms(2) calculation by (auto simp: handle_ingress_proxy_def handle_proxy_def split: option.splits)
  moreover have "\<not> re_internal e" using internal_routes_hidden e assms(1) by blast
  ultimately show ?thesis by blast
qed

text \<open>A prefix is compared byte by byte, so that the route of \<open>/api\<close> also gets \<open>/apiary\<close>, as \<open>/ary\<close>.\<close>

theorem prefix_crosses_segments: "starts_with ''/apiary'' ''/api'' \<and> downstream_path (length ''/api'') ''/apiary'' = ''/ary''"
  by (simp add: starts_with_def downstream_path_def)

section \<open>Certificates and routes\<close>

fun gateway_run :: "provisioner_env \<Rightarrow> (timestamp \<times> string \<times> json_value) list \<Rightarrow> gateway \<Rightarrow> gateway option" where
  "gateway_run env [] g = Some g"
| "gateway_run env ((now, ty, payload) # es) g =
     Option.bind (ingress_handle env now ty payload g) (\<lambda>(r, g). gateway_run env es g)"

definition keyless :: "tls_state \<Rightarrow> bool" where
  "keyless t \<longleftrightarrow> (\<forall>(h, c)\<in>set (tl_certs t). ic_key_pem c = [])"

lemma ensure_cert_keyless: "keyless t \<Longrightarrow> ensure_cert now h t = (r, t') \<Longrightarrow> keyless t'"
  by (auto simp: keyless_def ensure_cert_def hm_insert_def split: if_splits option.splits sum.splits)

lemma ingress_handle_keyless:
  assumes "keyless (gw_tls g)" "ingress_handle env now ty payload g = Some (r, g')"
  shows "keyless (gw_tls g')"
proof -
  have "keyless (gw_tls g')" if "on_ingress_upserted env now payload g = Some (r, g')"
    using that assms(1)
    by (auto simp: on_ingress_upserted_def Let_def split: option.splits if_splits sum.splits prod.splits dest: ensure_cert_keyless)
  moreover have "keyless (gw_tls g')" if "on_ingress_deleted env payload g = (r, g')"
    using that assms(1) by (auto simp: on_ingress_deleted_def Let_def keyless_def remove_cert_def hm_remove_def split: if_splits sum.splits)
  moreover have "keyless (gw_tls g')" if "on_workload_rescheduled payload g = (r, g')"
    using that assms(1) by (auto simp: on_workload_rescheduled_def Let_def split: if_splits)
  ultimately show ?thesis using assms by (auto simp: ingress_handle_def split: if_splits)
qed

lemma gateway_run_keyless: "keyless (gw_tls g) \<Longrightarrow> gateway_run env es g = Some g' \<Longrightarrow> keyless (gw_tls g')"
proof (induction es arbitrary: g)
  case (Cons e es)
  then show ?case
    by (cases e) (auto simp: bind_eq_Some_conv dest: ingress_handle_keyless)
qed simp

text \<open>No certificate is ever stored with its key, so that after any events, and with any authority, every handshake fails.\<close>

theorem no_handshake_succeeds:
  assumes "gateway_run env es \<lparr>gw_router = rt, gw_tls = tls_with_ca ca\<rparr> = Some g"
  shows "sni_resolve pm (gw_tls g) server_name = None"
proof -
  have "keyless (gw_tls \<lparr>gw_router = rt, gw_tls = tls_with_ca ca\<rparr>)" by (simp add: keyless_def tls_with_ca_def)
  then have "keyless (gw_tls g)" using assms by (rule gateway_run_keyless)
  then have "map_of (tl_certs (gw_tls g)) h = Some c \<Longrightarrow> ic_key_pem c = []" for h c
    by (auto simp: keyless_def dest!: map_of_SomeD)
  note keyless = this
  show ?thesis
  proof (cases server_name)
    case (Some h)
    then show ?thesis using keyless [of h] by (cases "map_of (tl_certs (gw_tls g)) h") (simp_all add: sni_resolve_def)
  qed (simp add: sni_resolve_def)
qed

text \<open>Without an authority a route is active although its host has no certificate.\<close>

theorem route_without_certificate:
  assumes "fallback_parses env" "\<not> Option.bind (jget ''internal'' payload) as_bool = Some True"
  shows "\<exists>g. ingress_handle env now ''IngressCreated'' payload \<lparr>gw_router = ingress_router_new, gw_tls = tls_new\<rparr> = Some (Inr (), g) \<and>
    tl_certs (gw_tls g) = [] \<and> route_count (gw_router g) = 1"
proof -
  obtain i where "ingress_iri_of env (str_or ''ingress_iri'' [] payload) (str_or ''product'' ''unknown'' payload) = Some i"
    using ingress_iri_Some [OF assms(1)] by blast
  then show ?thesis using assms(2)
    by (auto simp: ingress_handle_def on_ingress_upserted_def Let_def ensure_cert_def tls_new_def upsert_route_def ingress_router_new_def
        route_count_def host_routes_def without_def hm_insert_def split: option.splits)
qed

lemma map_of_kept:
  "distinct (map fst m) \<Longrightarrow> map_of (filter (\<lambda>(h, rs). rs \<noteq> []) (map (\<lambda>(h, rs). (h, f rs)) m)) h =
    (case map_of m h of Some rs \<Rightarrow> if f rs = [] then None else Some (f rs) | None \<Rightarrow> None)"
proof (induction m)
  case (Cons x m)
  obtain h' rs where x: "x = (h', rs)" by (cases x)
  have "h' \<notin> fst ` set m" using Cons.prems x by simp
  then have "map_of m h' = None" by (simp add: map_of_eq_None_iff)
  then show ?case using Cons x by (cases "h = h'") (simp_all split: option.split)
qed simp

lemma host_routes_removed:
  "distinct (map fst (ir_external rt)) \<Longrightarrow> host_routes (remove_route iri rt) h = without iri (host_routes rt h)"
  by (simp add: host_routes_def remove_route_def map_of_kept without_def split: option.split)

text \<open>Deleting one ingress takes the certificate of its host from the others.\<close>

theorem shared_host_loses_certificate:
  assumes "pe_url_parses env i" "get_str ''ingress_iri'' payload = Some i" "get_str ''host'' payload = Some h" "h \<noteq> []"
    and "host_routes (gw_router g) h = [e1, e2]" "re_ingress_iri e1 = i" "re_ingress_iri e2 \<noteq> i" "distinct (map fst (ir_external (gw_router g)))"
    and "starts_with path (re_path_prefix e2)"
  shows "\<exists>g'. ingress_handle env now ''IngressDeleted'' payload g = Some (Inr (), g') \<and>
    route_lookup (gw_router g') h path = Some e2 \<and> map_of (tl_certs (gw_tls g')) h = None"
proof -
  have "route_lookup (remove_route i (gw_router g)) h path = Some e2"
    using assms(5-9) by (simp add: route_lookup_eq host_routes_removed without_def matching_def)
  then show ?thesis using assms(1-4)
    by (simp add: ingress_handle_def on_ingress_deleted_def Let_def resource_iri_new_def str_or_def remove_cert_def)
qed

text \<open>The event the provisioner logs for a rescheduled workload has no addresses, so that it moves no route.\<close>

theorem rescheduling_moves_no_route:
  "ingress_handle env now ''WorkloadRescheduled'' (JvObject [(''workload_iri'', JvString w), (''from_node_iri'', JvString n),
     (''reason'', JvString reason)]) g = Some (Inr (), g)"
  by (simp add: ingress_handle_def on_workload_rescheduled_def str_or_def get_str_def jget_def)

end
