(* ===== verification/Platform_Monitors.thy ===== *)
theory Platform_Monitors
  imports Resource_Apply Offsite_Backup
begin

text \<open>
  The monitors of the platform: the evaluator of the built-in alert rules (\<open>crates/picloud-http/src/alerts.rs\<close>), the monitor of
  the freshness of data products (\<open>data_product_monitor.rs\<close>) and the self-monitor (\<open>self_monitor.rs\<close>). The type of 64-bit floats
  is a parameter with the operations the code uses; times are numbers of nanoseconds.
\<close>

section \<open>Toggles\<close>

text \<open>Both evaluators go through their input item by item and keep a set of keys that are on; an item yields at most one
  action, which switches its key. The contract, and what it gives over any run: per key, switching on and off alternate.\<close>

fun alternates :: "bool \<Rightarrow> bool list \<Rightarrow> bool" where
  "alternates on [] = True"
| "alternates on (b # bs) = (b \<noteq> on \<and> alternates b bs)"

fun toggle_run :: "('x \<Rightarrow> 's \<Rightarrow> 'a option \<times> 's) \<Rightarrow> 'x list \<Rightarrow> 's \<Rightarrow> 'a list \<times> 's" where
  "toggle_run step [] s = ([], s)"
| "toggle_run step (x # xs) s =
     (case step x s of (a, s) \<Rightarrow>
      case toggle_run step xs s of (as, s) \<Rightarrow> (case a of Some a \<Rightarrow> a # as | None \<Rightarrow> as, s))"

locale toggle =
  fixes step :: "'x \<Rightarrow> 's \<Rightarrow> 'a option \<times> 's"
    and is_on :: "'s \<Rightarrow> 'k \<Rightarrow> bool"
    and action_key :: "'a \<Rightarrow> 'k"
    and switches_on :: "'a \<Rightarrow> bool"
  assumes quiet: "step x s = (None, s') \<Longrightarrow> is_on s' = is_on s"
    and switch: "step x s = (Some a, s') \<Longrightarrow> switches_on a = (\<not> is_on s (action_key a)) \<and>
      is_on s' = (is_on s)(action_key a := switches_on a)"
begin

definition key_history :: "'k \<Rightarrow> 'a list \<Rightarrow> bool list" where
  "key_history k as = map switches_on (filter (\<lambda>a. action_key a = k) as)"

lemma run_alternates: "alternates (is_on s k) (key_history k (fst (toggle_run step xs s)))"
proof (induction xs arbitrary: s)
  case (Cons x xs)
  obtain a s' where st: "step x s = (a, s')" by (cases "step x s")
  have ih: "alternates (is_on s' k) (key_history k (fst (toggle_run step xs s')))" by (rule Cons.IH)
  show ?case
  proof (cases a)
    case None
    then show ?thesis using ih quiet [of x s s'] st by (simp add: split_beta)
  next
    case (Some b)
    then show ?thesis using ih switch [of x s b s'] st by (auto simp: key_history_def split_beta)
  qed
qed (simp add: key_history_def)

lemma run_final: "is_on (snd (toggle_run step xs s)) k = last (is_on s k # key_history k (fst (toggle_run step xs s)))"
proof (induction xs arbitrary: s)
  case (Cons x xs)
  obtain a s' where st: "step x s = (a, s')" by (cases "step x s")
  show ?case
  proof (cases a)
    case None
    then show ?thesis using Cons.IH [of s'] quiet [of x s s'] st by (simp add: split_beta)
  next
    case (Some b)
    then show ?thesis using Cons.IH [of s'] switch [of x s b s'] st by (auto simp: key_history_def split_beta)
  qed
qed (simp add: key_history_def)

end

section \<open>Alerts\<close>

record 'f float_ops =
  fl_gt :: "'f \<Rightarrow> 'f \<Rightarrow> bool"
  fl_show1 :: "'f \<Rightarrow> string"
  fl_of_nat :: "nat \<Rightarrow> 'f"
  fl_parse :: "string \<Rightarrow> 'f option"
  fl_mul :: "'f \<Rightarrow> 'f \<Rightarrow> 'f"
  fl_as_u64 :: "'f \<Rightarrow> u64"

datatype alert_severity = Info | Warning | Critical

record 'f alert_rule =
  ar_name :: string
  ar_metric_name :: string
  ar_threshold :: 'f
  ar_alert_type :: string
  ar_severity :: alert_severity
  ar_message_template :: string

definition builtin_alert_rules :: "'f float_ops \<Rightarrow> 'f alert_rule list" where
  "builtin_alert_rules fl =
     [\<lparr>ar_name = ''high-cpu-temp-critical'', ar_metric_name = ''cpu_temp_celsius'', ar_threshold = fl_of_nat fl 80,
       ar_alert_type = ''HighCpuTemperature'', ar_severity = Critical, ar_message_template = ''CPU temperature above 80 C''\<rparr>,
      \<lparr>ar_name = ''high-cpu-temp-warning'', ar_metric_name = ''cpu_temp_celsius'', ar_threshold = fl_of_nat fl 70,
       ar_alert_type = ''HighCpuTemperature'', ar_severity = Warning, ar_message_template = ''CPU temperature above 70 C''\<rparr>,
      \<lparr>ar_name = ''high-memory-critical'', ar_metric_name = ''memory_used_percent'', ar_threshold = fl_of_nat fl 90,
       ar_alert_type = ''HighMemoryUsage'', ar_severity = Critical, ar_message_template = ''Memory usage above 90%''\<rparr>,
      \<lparr>ar_name = ''high-memory-warning'', ar_metric_name = ''memory_used_percent'', ar_threshold = fl_of_nat fl 80,
       ar_alert_type = ''HighMemoryUsage'', ar_severity = Warning, ar_message_template = ''Memory usage above 80%''\<rparr>,
      \<lparr>ar_name = ''high-disk-critical'', ar_metric_name = ''disk_used_percent'', ar_threshold = fl_of_nat fl 90,
       ar_alert_type = ''HighDiskUsage'', ar_severity = Critical, ar_message_template = ''Disk usage above 90%''\<rparr>]"

record 'f metric_entry =
  me_name :: string
  me_value :: 'f
  me_unit :: string

record alert_fired =
  af_alert_type :: string
  af_severity :: alert_severity
  af_message :: string
  af_resource_iri :: resource_iri
  af_rule_iri :: resource_iri
  af_fired_at :: timestamp

record alert_resolved =
  al_alert_type :: string
  al_resource_iri :: resource_iri
  al_rule_iri :: resource_iri
  al_resolved_at :: timestamp

datatype alert_action = Fire alert_fired | Resolve alert_resolved

record alert_state =
  as_is_firing :: bool
  as_resolved_at :: "timestamp option"

type_synonym alert_map = "((string \<times> string) \<times> alert_state) list"

text \<open>\<open>chrono::Duration::seconds\<close> panics outside of its range, which is \<open>None\<close>.\<close>

definition dampening :: "u64 \<Rightarrow> int option" where
  "dampening secs = (let s = sint secs in if \<bar>s\<bar> \<le> 9223372036854775 then Some (s * 1000000000) else None)"

definition fired_message :: "'f float_ops \<Rightarrow> 'f alert_rule \<Rightarrow> 'f \<Rightarrow> string" where
  "fired_message fl rule value =
     replace_all ''{threshold}'' (fl_show1 fl (ar_threshold rule)) (replace_all ''{value}'' (fl_show1 fl value) (ar_message_template rule))"

definition evaluate_rule ::
  "'f float_ops \<Rightarrow> cluster_domain \<Rightarrow> timestamp \<Rightarrow> int \<Rightarrow> resource_iri \<Rightarrow> 'f metric_entry list \<Rightarrow> 'f alert_rule \<Rightarrow> alert_map
    \<Rightarrow> alert_action option \<times> alert_map" where
  "evaluate_rule fl d now damp node_iri metrics rule st =
     (case find (\<lambda>m. me_name m = ar_metric_name rule) metrics of
        None \<Rightarrow> (None, st)
      | Some metric \<Rightarrow>
          let exceeds = fl_gt fl (me_value metric) (ar_threshold rule);
              key = (ar_name rule, node_iri);
              was_firing = (case map_of st key of Some a \<Rightarrow> as_is_firing a | None \<Rightarrow> False);
              resolved_at = (case map_of st key of Some a \<Rightarrow> as_resolved_at a | None \<Rightarrow> None)
          in if exceeds \<and> \<not> was_firing then
               (if (case resolved_at of Some t \<Rightarrow> now - t < damp | None \<Rightarrow> False) then (None, st)
                else (Some (Fire \<lparr>af_alert_type = ar_alert_type rule, af_severity = ar_severity rule,
                        af_message = fired_message fl rule (me_value metric), af_resource_iri = node_iri,
                        af_rule_iri = iri_inference_rule d (ar_name rule), af_fired_at = now\<rparr>),
                      hm_insert key \<lparr>as_is_firing = True, as_resolved_at = None\<rparr> st))
             else if \<not> exceeds \<and> was_firing then
               (Some (Resolve \<lparr>al_alert_type = ar_alert_type rule, al_resource_iri = node_iri,
                  al_rule_iri = iri_inference_rule d (ar_name rule), al_resolved_at = now\<rparr>),
                hm_insert key \<lparr>as_is_firing = False, as_resolved_at = Some now\<rparr> st)
             else (None, st))"

definition evaluate_alerts ::
  "'f float_ops \<Rightarrow> cluster_domain \<Rightarrow> timestamp \<Rightarrow> u64 \<Rightarrow> 'f alert_rule list \<Rightarrow> resource_iri \<Rightarrow> 'f metric_entry list \<Rightarrow> alert_map
    \<Rightarrow> (alert_action list \<times> alert_map) option" where
  "evaluate_alerts fl d now dampening_secs rules node_iri metrics st =
     (case dampening dampening_secs of
        None \<Rightarrow> None
      | Some damp \<Rightarrow> Some (toggle_run (evaluate_rule fl d now damp node_iri metrics) rules st))"

record 'f alert_evaluator =
  alv_rules :: "'f alert_rule list"
  alv_domain :: cluster_domain
  alv_state :: alert_map
  alv_dampening_secs :: u64

definition alert_evaluator_new :: "'f alert_rule list \<Rightarrow> cluster_domain \<Rightarrow> 'f alert_evaluator" where
  "alert_evaluator_new rules d = \<lparr>alv_rules = rules, alv_domain = d, alv_state = [], alv_dampening_secs = 60\<rparr>"

definition with_dampening_secs :: "u64 \<Rightarrow> 'f alert_evaluator \<Rightarrow> 'f alert_evaluator" where
  "with_dampening_secs secs ev = ev\<lparr>alv_dampening_secs := secs\<rparr>"

definition evaluate ::
  "'f float_ops \<Rightarrow> timestamp \<Rightarrow> resource_iri \<Rightarrow> 'f metric_entry list \<Rightarrow> 'f alert_evaluator
    \<Rightarrow> (alert_action list \<times> 'f alert_evaluator) option" where
  "evaluate fl now node_iri metrics ev =
     map_option (\<lambda>(actions, st). (actions, ev\<lparr>alv_state := st\<rparr>))
       (evaluate_alerts fl (alv_domain ev) now (alv_dampening_secs ev) (alv_rules ev) node_iri metrics (alv_state ev))"

text \<open>What a run of the evaluator goes through: a rule at a time, on a node, with metrics.\<close>

type_synonym 'f alert_input = "timestamp \<times> resource_iri \<times> 'f metric_entry list \<times> 'f alert_rule"

definition alert_step :: "'f float_ops \<Rightarrow> cluster_domain \<Rightarrow> int \<Rightarrow> 'f alert_input \<Rightarrow> alert_map \<Rightarrow> alert_action option \<times> alert_map" where
  "alert_step fl d damp = (\<lambda>(now, node_iri, metrics, rule) st. evaluate_rule fl d now damp node_iri metrics rule st)"

fun alert_key :: "alert_action \<Rightarrow> resource_iri \<times> resource_iri" where
  "alert_key (Fire p) = (af_rule_iri p, af_resource_iri p)"
| "alert_key (Resolve p) = (al_rule_iri p, al_resource_iri p)"

fun is_fire :: "alert_action \<Rightarrow> bool" where
  "is_fire (Fire p) = True"
| "is_fire (Resolve p) = False"

definition firing :: "cluster_domain \<Rightarrow> alert_map \<Rightarrow> resource_iri \<times> resource_iri \<Rightarrow> bool" where
  "firing d st k \<longleftrightarrow> (\<exists>name. fst k = iri_inference_rule d name \<and>
     (case map_of st (name, snd k) of Some a \<Rightarrow> as_is_firing a | None \<Rightarrow> False))"

lemma inference_rule_inj [simp]: "iri_inference_rule d a = iri_inference_rule d b \<longleftrightarrow> a = b"
  by (simp add: iri_inference_rule_def)

lemma firing_iri [simp]:
  "firing d st (iri_inference_rule d n, r) \<longleftrightarrow> (case map_of st (n, r) of Some a \<Rightarrow> as_is_firing a | None \<Rightarrow> False)"
  by (auto simp: firing_def)

lemma firing_insert:
  "firing d (hm_insert (n, r) a st) = (firing d st)((iri_inference_rule d n, r) := as_is_firing a)"
proof (rule ext)
  fix k :: "resource_iri \<times> resource_iri"
  obtain i q where k: "k = (i, q)" by (cases k)
  show "firing d (hm_insert (n, r) a st) k = ((firing d st)((iri_inference_rule d n, r) := as_is_firing a)) k"
  proof (cases "\<exists>m. i = iri_inference_rule d m")
    case True
    then obtain m where i: "i = iri_inference_rule d m" by blast
    show ?thesis by (cases "m = n \<and> q = r") (auto simp: k i)
  next
    case False
    then have "\<not> firing d st' k" for st' by (simp add: firing_def k)
    moreover have "k \<noteq> (iri_inference_rule d n, r)" using False k by auto
    ultimately show ?thesis by simp
  qed
qed

interpretation alerts: toggle "alert_step fl d damp" "firing d" alert_key is_fire
proof
  show "firing d s' = firing d s" if "alert_step fl d damp x s = (None, s')" for x s s'
    using that by (auto simp: alert_step_def evaluate_rule_def Let_def split: prod.splits option.splits if_splits)
  show "is_fire a = (\<not> firing d s (alert_key a)) \<and> firing d s' = (firing d s)(alert_key a := is_fire a)"
    if "alert_step fl d damp x s = (Some a, s')" for x s a s'
    using that by (auto simp: alert_step_def evaluate_rule_def Let_def firing_insert split: prod.splits option.splits if_splits)
qed

text \<open>Over any run of the evaluator, with any rules, nodes, metrics and times, the alerts of a rule on a node fire and
  resolve in turn, beginning with firing.\<close>

theorem alerts_alternate:
  "alternates False (map is_fire (filter (\<lambda>a. alert_key a = k) (fst (toggle_run (alert_step fl d damp) xs []))))"
  using alerts.run_alternates [where s = "[]" and k = k and fl = fl and d = d and damp = damp and xs = xs] by (simp add: alerts.key_history_def firing_def)

text \<open>An evaluation is such a run over its rules.\<close>

theorem evaluate_is_run:
  assumes "dampening secs = Some damp"
  shows "evaluate_alerts fl d now secs rules node metrics st =
    Some (toggle_run (alert_step fl d damp) (map (\<lambda>r. (now, node, metrics, r)) rules) st)"
proof -
  have "toggle_run (evaluate_rule fl d now damp node metrics) rules st =
      toggle_run (alert_step fl d damp) (map (\<lambda>r. (now, node, metrics, r)) rules) st"
    by (induction rules arbitrary: st) (simp_all add: alert_step_def)
  then show ?thesis using assms by (simp add: evaluate_alerts_def)
qed

text \<open>A rule that resolved is silent until the dampening is over, and then fires if its metric still exceeds the threshold.\<close>

theorem dampened_exactly:
  assumes "map_of st (ar_name rule, node) = Some \<lparr>as_is_firing = False, as_resolved_at = Some t\<rparr>"
    and "find (\<lambda>m. me_name m = ar_metric_name rule) metrics = Some m" "fl_gt fl (me_value m) (ar_threshold rule)"
  shows "(\<exists>p. fst (evaluate_rule fl d now damp node metrics rule st) = Some (Fire p)) \<longleftrightarrow> t + damp \<le> now"
  using assms by (auto simp: evaluate_rule_def Let_def)

section \<open>Freshness of data products\<close>

definition is_num_char :: "char \<Rightarrow> bool" where
  "is_num_char c \<longleftrightarrow> is_digit c \<or> c = CHR ''.''"

definition unit_seconds :: "char \<Rightarrow> nat option" where
  "unit_seconds c =
     (if c = CHR ''H'' \<or> c = CHR ''h'' then Some 3600 else if c = CHR ''M'' \<or> c = CHR ''m'' then Some 60
      else if c = CHR ''S'' \<or> c = CHR ''s'' then Some 1 else None)"

text \<open>Seconds are cast without a multiplication. Additions wrap, as in a release build.\<close>

fun duration_loop :: "'f float_ops \<Rightarrow> string \<Rightarrow> string \<Rightarrow> u64 \<Rightarrow> u64 option" where
  "duration_loop fl [] num_buf acc = Some acc"
| "duration_loop fl (ch # s) num_buf acc =
     (if is_num_char ch then duration_loop fl s (num_buf @ [ch]) acc
      else case unit_seconds ch of
        None \<Rightarrow> None
      | Some n \<Rightarrow>
          (case fl_parse fl num_buf of
             None \<Rightarrow> None
           | Some v \<Rightarrow> duration_loop fl s [] (acc + fl_as_u64 fl (if n = 1 then v else fl_mul fl v (fl_of_nat fl n)))))"

definition parse_max_age_seconds :: "'f float_ops \<Rightarrow> string \<Rightarrow> u64 option" where
  "parse_max_age_seconds fl max_age =
     (let s = trim max_age in
      if \<not> starts_with s ''PT'' \<and> \<not> starts_with s ''pt'' then map_option of_nat (parse_usize s)
      else case duration_loop fl (drop 2 s) [] 0 of
        Some acc \<Rightarrow> if acc > 0 then Some acc else None
      | None \<Rightarrow> None)"

record slo_breached =
  sl_data_product_iri :: resource_iri
  sl_max_age :: string
  sl_actual_age_seconds :: nat

record slo_restored =
  so_data_product_iri :: resource_iri
  so_refreshed_at :: timestamp

datatype slo_action = Breach slo_breached | Restore slo_restored

text \<open>A binding is an object with the value inside, or the value itself.\<close>

definition binding_str :: "string \<Rightarrow> json_value \<Rightarrow> string option" where
  "binding_str k row =
     (case jget k row of
        None \<Rightarrow> None
      | Some v \<Rightarrow> (case get_str ''value'' v of Some s \<Rightarrow> Some s | None \<Rightarrow> as_str v))"

definition check_row ::
  "'f float_ops \<Rightarrow> (string \<Rightarrow> timestamp option) \<Rightarrow> timestamp \<Rightarrow> json_value \<Rightarrow> string set \<Rightarrow> slo_action option \<times> string set" where
  "check_row fl parse_time now row breached =
     (case (binding_str ''dp'' row, binding_str ''lastRefreshed'' row, binding_str ''maxAge'' row) of
        (Some dp, Some refreshed, Some max_age) \<Rightarrow>
          (case (parse_time refreshed, parse_max_age_seconds fl max_age) of
             (Some last_refreshed, Some max_age_secs) \<Rightarrow>
               let actual_age_seconds = nat (max 0 ((now - last_refreshed) div 1000000000)) in
               if actual_age_seconds > unat max_age_secs then
                 (if dp \<in> breached then (None, breached)
                  else (Some (Breach \<lparr>sl_data_product_iri = dp, sl_max_age = max_age, sl_actual_age_seconds = actual_age_seconds\<rparr>),
                        insert dp breached))
               else if dp \<in> breached then
                 (Some (Restore \<lparr>so_data_product_iri = dp, so_refreshed_at = last_refreshed\<rparr>), breached - {dp})
               else (None, breached)
           | _ \<Rightarrow> (None, breached))
      | _ \<Rightarrow> (None, breached))"

definition slo_monitor_new :: "string set" where
  "slo_monitor_new = {}"

definition check_freshness ::
  "'f float_ops \<Rightarrow> (string \<Rightarrow> timestamp option) \<Rightarrow> timestamp \<Rightarrow> json_value list result \<Rightarrow> string set
    \<Rightarrow> slo_action list result \<times> string set" where
  "check_freshness fl parse_time now rows breached =
     (case rows of
        Inl e \<Rightarrow> (Inl e, breached)
      | Inr rows \<Rightarrow> (case toggle_run (check_row fl parse_time now) rows breached of (actions, breached) \<Rightarrow> (Inr actions, breached)))"

definition slo_step :: "'f float_ops \<Rightarrow> (string \<Rightarrow> timestamp option) \<Rightarrow> timestamp \<times> json_value \<Rightarrow> string set \<Rightarrow> slo_action option \<times> string set" where
  "slo_step fl parse_time = (\<lambda>(now, row) breached. check_row fl parse_time now row breached)"

fun slo_key :: "slo_action \<Rightarrow> resource_iri" where
  "slo_key (Breach p) = sl_data_product_iri p"
| "slo_key (Restore p) = so_data_product_iri p"

fun is_breach :: "slo_action \<Rightarrow> bool" where
  "is_breach (Breach p) = True"
| "is_breach (Restore p) = False"

interpretation slo: toggle "slo_step fl parse_time" "\<lambda>s k. k \<in> s" slo_key is_breach
proof
  show "(\<lambda>k. k \<in> s') = (\<lambda>k. k \<in> s)" if "slo_step fl parse_time x s = (None, s')" for x s s'
    using that by (auto simp: slo_step_def check_row_def Let_def split: prod.splits option.splits if_splits)
  show "is_breach a = (slo_key a \<notin> s) \<and> (\<lambda>k. k \<in> s') = (\<lambda>k. k \<in> s)(slo_key a := is_breach a)"
    if "slo_step fl parse_time x s = (Some a, s')" for x s a s'
    using that by (auto simp: slo_step_def check_row_def Let_def fun_eq_iff split: prod.splits option.splits if_splits)
qed

text \<open>Over any run of checks a data product breaches and is restored in turn, and it is remembered as breached exactly when its last
  action was a breach.\<close>

theorem slo_alternate:
  "alternates False (map is_breach (filter (\<lambda>a. slo_key a = k) (fst (toggle_run (slo_step fl parse_time) xs {})))) \<and>
   (k \<in> snd (toggle_run (slo_step fl parse_time) xs {}) \<longleftrightarrow>
     last (False # map is_breach (filter (\<lambda>a. slo_key a = k) (fst (toggle_run (slo_step fl parse_time) xs {})))))"
  using slo.run_alternates [where s = "{}" and k = k and fl = fl and parse_time = parse_time and xs = xs]
    slo.run_final [where s = "{}" and k = k and fl = fl and parse_time = parse_time and xs = xs]
  by (simp add: slo.key_history_def)

text \<open>An age of zero is no limit but an unreadable one when it is a duration, and a limit of zero when it is a plain number;
  digits without a unit are dropped.\<close>

theorem zero_age_forms:
  assumes "fl_parse fl ''0'' = Some z" "fl_as_u64 fl z = 0"
  shows "parse_max_age_seconds fl ''PT0S'' = None \<and> parse_max_age_seconds fl ''0'' = Some 0 \<and>
    parse_max_age_seconds fl ''PT30'' = None"
proof -
  have "parse_usize ''0'' = Some 0" by (simp add: parse_usize_def is_digit_def digits_val_def digit_val_def)
  then show ?thesis using assms
    by (simp add: parse_max_age_seconds_def trim_def is_space_def starts_with_def is_num_char_def is_digit_def unit_seconds_def)
qed

section \<open>Self-monitoring\<close>

datatype health_status = Healthy | Degraded | Unhealthy

record self_check =
  mc_check_name :: string
  mc_status :: health_status
  mc_message :: string

record self_monitor =
  sm_raft_check :: "unit \<Rightarrow> health_status \<times> string"
  sm_replication_check :: "unit \<Rightarrow> health_status \<times> string"
  sm_projection_check :: "unit \<Rightarrow> health_status \<times> string"

definition self_monitor_new :: self_monitor where
  "self_monitor_new =
     \<lparr>sm_raft_check = \<lambda>_. (Healthy, ''Raft cluster is healthy''), sm_replication_check = \<lambda>_. (Healthy, ''All volumes fully replicated''),
      sm_projection_check = \<lambda>_. (Healthy, ''RDF projection is current'')\<rparr>"

definition with_raft_check :: "(unit \<Rightarrow> health_status \<times> string) \<Rightarrow> self_monitor \<Rightarrow> self_monitor" where
  "with_raft_check check m = m\<lparr>sm_raft_check := check\<rparr>"

definition with_replication_check :: "(unit \<Rightarrow> health_status \<times> string) \<Rightarrow> self_monitor \<Rightarrow> self_monitor" where
  "with_replication_check check m = m\<lparr>sm_replication_check := check\<rparr>"

definition with_projection_check :: "(unit \<Rightarrow> health_status \<times> string) \<Rightarrow> self_monitor \<Rightarrow> self_monitor" where
  "with_projection_check check m = m\<lparr>sm_projection_check := check\<rparr>"

definition run_checks :: "self_monitor \<Rightarrow> self_check list result" where
  "run_checks m =
     Inr (map (\<lambda>(name, check). case check () of (st, msg) \<Rightarrow> \<lparr>mc_check_name = name, mc_status = st, mc_message = msg\<rparr>)
       [(''raft_health'', sm_raft_check m), (''replication_status'', sm_replication_check m), (''projection_lag'', sm_projection_check m)])"

text \<open>The default monitor reports a healthy platform without looking at it.\<close>

theorem default_monitor_is_blind: "\<exists>cs. run_checks self_monitor_new = Inr cs \<and> (\<forall>c\<in>set cs. mc_status c = Healthy)"
  by (simp add: run_checks_def self_monitor_new_def)

end
