(* ===== verification/Spec2Isabelle.thy ===== *)
theory Spec2Isabelle
  imports Event_Router Raft_State_Machine Registry_Api Auth_Api Secret_Store Compiler_Pipeline Resource_Docs Storage_Replication Storage_Events Workload_Scheduler Node_Drain Bicep_Parser Ingress_Gateway Platform_Monitors
begin

text \<open>
  Verification of the PiCloud platform, a single-binary private cloud written in Rust.

  \<^bold>\<open>The program and its parts.\<close> PiCloud is a set of slices over a shared domain crate: every slice
  implements traits of \<open>crates/picloud-domain\<close>, and the binary wires them together. State
  changes are events: an event log with idempotent append (\<open>crates/picloud-events\<close>) feeds
  projections, subscriptions and a router that copies events between products; in a cluster
  the log is written through Raft (\<open>crates/picloud-cluster/src/raft.rs\<close>). The storage slice allocates
  volumes and takes snapshots on the local disk, the registry slice serves container images
  over \<open>/v2\<close>, the identity slice issues and validates the tokens both HTTP surfaces use.

  \<^bold>\<open>Theories and sources.\<close>
  \<^item> \<open>Picloud_Prelude\<close>: machine integers, results, the string operations of the standard library the
    code calls, ordered and unordered maps as association lists, with their laws.
  \<^item> \<open>Domain_Types\<close>: errors and their messages, IRIs, event envelopes, storage types, validated identities
    (\<open>crates/picloud-domain/src\<close>).
  \<^item> \<open>Event_Log\<close>, \<open>Event_Router\<close>: in-memory and persistent log with compaction, write-through and
    product stores, subscriptions, and the cross-product router (\<open>crates/picloud-events/src\<close>). The files
    behind the persistent log are lines that operations may fail to write.
  \<^item> \<open>Raft_Store\<close>, \<open>Raft_State_Machine\<close>: the in-memory and the sled-backed Raft log stores and state
    machines. sled and the JSON encodings are records of functions.
  \<^item> \<open>File_System\<close>: the part of \<open>std::fs\<close> the disk components call; whether an operation fails is
    decided by a \<open>disk_io\<close> argument.
  \<^item> \<open>Registry\<close>, \<open>Registry_Api\<close>: blob store, manifests, tags, uploads, garbage collection
    (\<open>crates/picloud-registry/src\<close>) and the \<open>/v2\<close> handlers with their scope checks.
  \<^item> \<open>Storage_Backend\<close>, \<open>Snapshots\<close>: volume allocation with capacity accounting, and the snapshot
    manager and scheduler (\<open>crates/picloud-storage/src/implementation.rs\<close>).
  \<^item> \<open>Iam_Tokens\<close>, \<open>Iam_Passkeys\<close>, \<open>Secret_Store\<close>: the identity provider and the secret store
    (\<open>crates/picloud-iam/src\<close>); base64, HMAC, SHA-256, JSON, CBOR, P-256 and AES-GCM are records of
    functions with named laws.
  \<^item> \<open>Auth_Api\<close>: the \<open>/auth\<close> and \<open>/.well-known\<close> handlers of \<open>crates/picloud-http/src/implementation.rs\<close>.
  \<^item> \<open>Surface_Parser\<close>, \<open>Turtle_Compiler\<close>, \<open>Resource_Validator\<close>, \<open>Resource_Builder\<close>, \<open>Resource_Docs\<close>: the parser of
    the \<open>.picloud\<close> format, the compiler to Turtle with the merger, the validator, the builder behind \<open>picloud new\<close>
    and the documentation generator (\<open>crates/picloud-compiler/src\<close>); \<open>Compiler_Pipeline\<close>: the compiler on a directory of
    files and the \<open>compile\<close> commands of \<open>crates/picloud-cli/src/main.rs\<close>. Oxigraph and the HTTP client of
    the validator are records of functions.
  \<^item> \<open>Cluster_Membership\<close>: peer list, mDNS events, leadership, voter configuration and cluster identity
    (\<open>crates/picloud-cluster/src\<close>); the Raft handle is a record of functions with one named law.
  \<^item> \<open>Storage_Replication\<close>: the sync cycle that pushes volumes to the other nodes and the two handlers it
    calls there (\<open>crates/picloud-storage/src/replication.rs\<close>, \<open>crates/picloud-http/src/implementation.rs\<close>); a peer is a
    disk with modification times and a clock, HTTP and base64 are a record of functions.
  \<^item> \<open>Offsite_Backup\<close>, \<open>Storage_Events\<close>: S3 client, backup targets and the encrypted, de-duplicating backup
    manager (\<open>backup.rs\<close>), and the wrappers that log snapshots and backups (\<open>event_emitting.rs\<close>).
  \<^item> \<open>Workload_Scheduler\<close>, \<open>Node_Drain\<close>: the process scheduler with its health checks, and the drain coordinator
    (\<open>crates/picloud-workload/src/implementation.rs\<close>); the operating system is a record of functions.
  \<^item> \<open>Resource_Declarations\<close>, \<open>Bicep_Parser\<close>: the typed declarations of a resource file with validation, order of
    provisioning and conversion, the version expressions of feature flags, and the Bicep-inspired parser
    (\<open>crates/picloud-domain/src/parser.rs\<close>, \<open>resources.rs\<close>), on UTF-8 bytes.
  \<^item> \<open>Resource_Apply\<close>, \<open>Provisioner\<close>, \<open>Ingress_Router\<close>: the apply and delete handlers of \<open>crates/picloud-http/src/implementation.rs\<close>,
    the task that acts on their events (\<open>provisioner.rs\<close>) over the models of log, storage, scheduler and secret store, and the
    router (\<open>router.rs\<close>). The projector is a function from queries to rows.
  \<^item> \<open>Ingress_Gateway\<close>, \<open>Platform_Monitors\<close>: certificates per host, ingress events and the reverse proxy (\<open>tls.rs\<close>, \<open>ingress.rs\<close>,
    \<open>proxy.rs\<close>); the evaluators of alerts and of the freshness of data products and the self-monitor (\<open>alerts.rs\<close>,
    \<open>data_product_monitor.rs\<close>, \<open>self_monitor.rs\<close>), all of \<open>crates/picloud-http/src\<close>.
  State is a record with a field per field of the struct; an operation returns its result and the new
  state; an error is \<open>Inl\<close> of the \<open>picloud_error\<close> the code builds, with its message. Time, random values and answers of other
  services are arguments.

  \<^bold>\<open>What is shown.\<close> For the log: de-duplication as a refinement of a set of keys, reopening after any run of operations,
  reads across compaction, and the losses that failed writes cause. For Raft: the sled stores simulate the in-memory
  ones, keys order as indices do, batching does not matter, and (as a lemma) snapshots carry no events. For the
  registry: content addressing as an invariant over all requests, upload and push round trips, exactness of garbage
  collection, access control, and three defects. For storage: the capacity invariant,
  restoring a snapshot gives back the volume, names are found in bounded time, retention keeps the newest,
  the scheduler keeps its distance. For identity: token round trip across key rotations, no acceptance
  without a signature, scopes of client tokens, single use of codes and challenges, secrets, and, in
  this theory, what the open registration endpoint allows in the identity provider and the registry together.
  For the compiler: the parser ends on every text and keeps the shape of the tree and the line numbers, what the
  builder renders is read back, validation is exact, validated files compile, merging is exact and every triple
  stays below its resource, and a build writes only graphs that passed every check.
  For the cluster: nodes agree on a leader before Raft is up, voter changes are exact, the peer list keeps its
  invariant over any run, and the identity is written once.
  For replication and backup: a sync cycle leaves the newer file at every peer and changes nothing else, a backup is
  restored exactly whatever other backups share its chunks, retention and the events about it agree.
  For workloads: limits, restart counts and stopping over any run of the scheduler, what a restart loses, and where every workload
  is after a drain.
  For resource files: when the parser returns and when it cannot panic, and that a validated file is provisioned in the order
  of its references. For provisioning: an apply logs exactly the events of its file, a declared container reaches the scheduler as
  declared, every declared resource gets one terminal event, deletion frees exactly the volumes named, and what the events of the
  other kinds lose on the way. For the gateway and the monitors: what the proxy sends and that no internal route is reached, that
  no handshake succeeds, and that alerts and breaches of freshness switch on and off in turn over any run.

  \<^bold>\<open>Interfaces.\<close> \<open>event_store\<close> (interpreted on the in-memory and on the persistent log, used by the router and
  the write-through store), \<open>raft_log_store\<close>, \<open>batch_machine\<close>, \<open>content_store\<close> and \<open>backup_store\<close> (with the
  extension \<open>available_backup_store\<close>), and \<open>toggle\<close> (interpreted on the alert evaluator and on the freshness monitor) state what a component promises; the
  clients' lemmas are proved inside them.

  \<^bold>\<open>Bounds and fuel.\<close> The recursive directory walks take one unit of fuel per level; callers pass one more than the number of
  directories, which no chain of nested directories exceeds (\<open>clean_depth\<close>), and the round-trip
  theorem shows that the walks end. The search for a free snapshot name is a partial function, shown to end within as
  many steps as the disk has entries. The recursive descent of the surface parser takes three units of fuel per
  remaining byte and one more, which is enough (\<open>parse_fuel\<close>), and more fuel does not change the
  result (\<open>parse_mono\<close>). The values of a resource file are read with fuel; from twice
  the length of the text and one on the result is the one of the program, and the parser that is still pending there is
  shown never to return. All other recursion is structural or has a measure. Sizes, counters and log
  indices are 64-bit words where the code computes with them.

  \<^bold>\<open>Not modelled.\<close> The RDF projector and everything that only builds SPARQL or JSON for it (the
  evaluation is done by oxigraph); the Raft protocol itself (openraft) and its transport; sockets, TLS, mDNS and DNS
  servers; the command line but for its \<open>compile\<close> commands, and the SDK generator; the periodic timers of the background
  tasks; workload certificates (rcgen) and role resolution over SPARQL in the
  identity provider.
\<close>

section \<open>Identity provider and registry together\<close>

text \<open>C39. Anybody can become anybody: for any identity of the provider, four requests
  without credentials (register a passkey of one's own for that identity, then log in with it) end
  with a token that the provider validates to that identity with all of its roles; and when the
  identity is an administrator, every scope check of the container registry passes with this
  token.\<close>

theorem passkey_takeover:
  assumes "crates_ok cr" "ae_crates e1 = cr" "ae_crates e2 = cr" "ae_crates e3 = cr" "ae_crates e4 = cr"
    "au_iam st = Some s" "url_parses cr iri" "starts_with iri ''https://''"
    "ae_now e2 < ae_now e1 + im_challenge_ttl_secs s * second" "ae_now e4 < ae_now e3 + im_challenge_ttl_secs s * second"
    "\<forall>p \<in> set (get_passkeys s iri). pk_credential_id p \<noteq> cred" "json_ok cr (plain_claims s (ae_now e4) iri None)"
    "registration = \<lparr>rr_credential_id = cred, rr_public_key = b64_encode cr pk, rr_attestation = None, rr_aaguid = None, rr_display_name = None\<rparr>"
    "login = \<lparr>as_credential_id = cred, as_signature = b64_encode cr (hmac_sign cr pk (ae_challenge e3)),
       as_authenticator_data = None, as_client_data_json = None, as_signature_format = ''hmac''\<rparr>"
    "timestamp_secs now < expiry_secs s (ae_now e4)"
  shows "\<exists>r1 st1 r2 st2 r3 st3 tok st4 s4 vi.
    handle_register_begin e1 iri st = ((200, r1), st1) \<and>
    handle_register_complete e2 (ae_challenge_id e1) registration st1 = ((200, r2), st2) \<and>
    handle_login_begin e3 iri st2 = ((200, r3), st3) \<and>
    handle_login_complete e4 (ae_challenge_id e3) login st3 =
      ((200, JObj [(''access_token'', JStr tok), (''token_type'', JStr ''Bearer'')]), st4) \<and>
    au_iam st4 = Some s4 \<and> validate_token cr s4 now tok = Inr vi \<and>
    vi_identity_iri vi = iri \<and> set (vi_roles vi) = effective_roles s iri \<and>
    (\<forall>v2 rq scope. v2_iam v2 = Some (validate_token cr s4 now) \<and> rq_authorization rq = Some (Some (''Bearer '' @ tok)) \<longrightarrow>
       validate_oci_token v2 rq = Inr vi \<and> (''admin'' \<in> effective_roles s iri \<longrightarrow> require_oci_scope vi scope = Inr ()))"
proof (rule takeover [OF assms(1-14)])
  fix r1 st1 r2 st2 r3 st3 tok st4 s4
  let ?vi = "identity_of (plain_claims s (ae_now e4) iri None)"
  assume r: "handle_register_begin e1 iri st = ((200, r1), st1)" "handle_register_complete e2 (ae_challenge_id e1) registration st1 = ((200, r2), st2)"
    "handle_login_begin e3 iri st2 = ((200, r3), st3)"
    "handle_login_complete e4 (ae_challenge_id e3) login st3 = ((200, JObj [(''access_token'', JStr tok), (''token_type'', JStr ''Bearer'')]), st4)"
    "au_iam st4 = Some s4" "\<And>now. timestamp_secs now < expiry_secs s (ae_now e4) \<Longrightarrow> validate_token cr s4 now tok = Inr ?vi"
  have v: "validate_token cr s4 now tok = Inr ?vi" using r(6) [OF assms(15)] .
  have i: "vi_identity_iri ?vi = iri" "vi_roles ?vi = issued_roles s iri" by (simp_all add: identity_of_def plain_claims_def)
  have oci: "validate_oci_token v2 rq = Inr ?vi \<and> (''admin'' \<in> effective_roles s iri \<longrightarrow> require_oci_scope ?vi scope = Inr ())"
    if "v2_iam v2 = Some (validate_token cr s4 now)" "rq_authorization rq = Some (Some (''Bearer '' @ tok))" for v2 rq scope
    using that v i(2) by (simp add: validate_oci_token_def starts_with_def require_oci_scope_def list_ex_iff set_issued_roles)
  then have "\<forall>v2 rq scope. v2_iam v2 = Some (validate_token cr s4 now) \<and> rq_authorization rq = Some (Some (''Bearer '' @ tok)) \<longrightarrow>
       validate_oci_token v2 rq = Inr ?vi \<and> (''admin'' \<in> effective_roles s iri \<longrightarrow> require_oci_scope ?vi scope = Inr ())" by blast
  note oci = this
  have roles: "set (vi_roles ?vi) = effective_roles s iri" by (simp add: i(2) set_issued_roles)
  show ?thesis
    by (intro exI) (rule conjI [OF r(1) conjI [OF r(2) conjI [OF r(3) conjI [OF r(4) conjI [OF r(5) conjI [OF v conjI [OF i(1) conjI [OF roles oci]]]]]]]])
qed

definition ex_admin :: resource_iri where
  "ex_admin = ''https://c/admin''"

definition ex_cluster :: iam where
  "ex_cluster = register_identity ex_admin [''admin''] (iam_new [1, 2] ''c'')"

theorem passkey_takeover_witness:
  "\<exists>c tok st4 s4 vi login st3. handle_login_complete (ex_env c) ''ch'' login st3 =
      ((200, JObj [(''access_token'', JStr tok), (''token_type'', JStr ''Bearer'')]), st4) \<and>
    au_iam st4 = Some s4 \<and> validate_token (ex_crates c) s4 5 tok = Inr vi \<and> vi_identity_iri vi = ex_admin \<and> ''admin'' \<in> set (vi_roles vi)"
proof -
  define c where "c = plain_claims ex_cluster 0 ex_admin None"
  define cr where "cr = ex_crates c"
  have env: "ae_crates (ex_env c) = cr" "ae_now (ex_env c) = 0" "ae_challenge_id (ex_env c) = ''ch''" by (simp_all add: ex_env_def cr_def)
  have h: "starts_with ex_admin ''https://''" "\<forall>p \<in> set (get_passkeys ex_cluster ex_admin). pk_credential_id p \<noteq> ''x''"
    "0 < 0 + im_challenge_ttl_secs ex_cluster * second" "timestamp_secs 5 < expiry_secs ex_cluster 0" "''admin'' \<in> effective_roles ex_cluster ex_admin"
    by code_simp+
  have u: "crates_ok cr" "json_ok cr c" "url_parses cr ex_admin" using ex_crates_ok [of c] by (simp_all add: cr_def ex_crates_def)
  let ?st = "\<lparr>au_iam = Some ex_cluster, au_domain = ''c''\<rparr>"
  have j: "json_ok cr (plain_claims ex_cluster 0 ex_admin None)" using u(2) by (simp add: c_def)
  have st: "au_iam ?st = Some ex_cluster" by simp
  note t = passkey_takeover [of cr "ex_env c" "ex_env c" "ex_env c" "ex_env c" ?st ex_cluster ex_admin "''x''" _ "[7]" _ 5, unfolded env,
      OF u(1) refl refl refl refl st u(3) h(1) h(3) h(3) h(2) j refl refl h(4)]
  obtain st3 tok st4 s4 vi login where "handle_login_complete (ex_env c) ''ch'' login st3 =
      ((200, JObj [(''access_token'', JStr tok), (''token_type'', JStr ''Bearer'')]), st4)" "au_iam st4 = Some s4"
    "validate_token cr s4 5 tok = Inr vi" "vi_identity_iri vi = ex_admin" "set (vi_roles vi) = effective_roles ex_cluster ex_admin"
    using t by (elim exE conjE) (rule that)
  with h(5) show ?thesis unfolding cr_def by blast
qed

end
